(* ===== verification/Prelude.thy ===== *)
theory Prelude
  imports Main "HOL-Library.Sublist" "HOL-Library.AList"
begin

text \<open>
  The vocabulary the components share: the exceptions of the code base, computations that thread
  a state and may raise (an exception keeps the state changes made before it, as a Python
  exception does), result-set accessors of the ORM, a calculus for properties that every step of
  a computation keeps, and decimal formatting of integers as \<^verbatim>\<open>str()\<close> and f-strings do it.
\<close>

named_theorems sm_simps \<open>evaluation of state computations on a state\<close>
named_theorems step_intros \<open>closure of step properties under the combinators and the operations\<close>

section \<open>Exceptions\<close>

text \<open>
  One constructor per exception class the sources raise or catch; the message is what
  \<^verbatim>\<open>str(exc)\<close> gives. The first group belongs to the database driver and the ORM, the second to
  the language, the rest to the services.
\<close>

datatype exc_class =
    IntegrityError | PendingRollbackError | NoResultFound | MultipleResultsFound
  | ValueError | TypeError | RuntimeError | KeyError | AssertionError | ProviderError | ResponseError | KafkaError | HTTPException nat
  | IllegalTransition
  | PlanNotPublishedError | PlanChangeError | PlanChangeNotAllowedError
  | LedgerEntryNotFoundError
  | WebhookProcessingError | WebhookNotFoundError | InvalidWebhookSignature
  | InvoiceNotFoundError | InvoiceNotMutableError
  | SubscriptionRequiredError | SubscriptionNotFoundError | OrganizationNotFoundError
  | PlanNotFoundError | PlanNotDraftError | PlanDraftExistsError
  | ProductNotFoundError | FeatureNotFoundError | InvalidFeatureTypeError

datatype py_error = Exc (exc_class_of: exc_class) (str_exc: string)

section \<open>State computations with exceptions\<close>

type_synonym ('s, 'a) sm = "'s \<Rightarrow> (py_error + 'a) \<times> 's"

definition returnE :: "'a \<Rightarrow> ('s, 'a) sm" where
  "returnE x = (\<lambda>s. (Inr x, s))"

definition raiseE :: "exc_class \<Rightarrow> string \<Rightarrow> ('s, 'a) sm" where
  "raiseE c m = (\<lambda>s. (Inl (Exc c m), s))"

definition reraiseE :: "py_error \<Rightarrow> ('s, 'a) sm" where
  "reraiseE e = (\<lambda>s. (Inl e, s))"

definition bindE :: "('s, 'a) sm \<Rightarrow> ('a \<Rightarrow> ('s, 'b) sm) \<Rightarrow> ('s, 'b) sm" where
  "bindE m f = (\<lambda>s. case m s of (r, t) \<Rightarrow> (case r of Inl e \<Rightarrow> (Inl e, t) | Inr x \<Rightarrow> f x t))"

definition thenE :: "('s, 'a) sm \<Rightarrow> ('s, 'b) sm \<Rightarrow> ('s, 'b) sm" where
  "thenE m n = bindE m (\<lambda>_. n)"

definition catchE :: "('s, 'a) sm \<Rightarrow> (py_error \<Rightarrow> ('s, 'a) sm) \<Rightarrow> ('s, 'a) sm" where
  "catchE m h = (\<lambda>s. case m s of (r, t) \<Rightarrow> (case r of Inl e \<Rightarrow> h e t | Inr x \<Rightarrow> (Inr x, t)))"

definition getE :: "('s \<Rightarrow> 'a) \<Rightarrow> ('s, 'a) sm" where
  "getE f = (\<lambda>s. (Inr (f s), s))"

definition modifyE :: "('s \<Rightarrow> 's) \<Rightarrow> ('s, unit) sm" where
  "modifyE f = (\<lambda>s. (Inr (), f s))"

definition whenE :: "bool \<Rightarrow> ('s, unit) sm \<Rightarrow> ('s, unit) sm" where
  "whenE b m = (if b then m else returnE ())"

definition liftE :: "py_error + 'a \<Rightarrow> ('s, 'a) sm" where
  "liftE r = (\<lambda>s. (r, s))"

text \<open>\<^verbatim>\<open>try: m finally: n\<close>.\<close>

definition finallyE :: "('s, 'a) sm \<Rightarrow> ('s, unit) sm \<Rightarrow> ('s, 'a) sm" where
  "finallyE m n = (\<lambda>s. case m s of (r, t) \<Rightarrow>
     (case n t of (q, u) \<Rightarrow> (case q of Inl e \<Rightarrow> (Inl e, u) | Inr _ \<Rightarrow> (r, u))))"

text \<open>A \<^verbatim>\<open>for\<close> loop whose body updates local variables \<open>acc\<close>.\<close>

primrec foldE :: "('x \<Rightarrow> 'b \<Rightarrow> ('s, 'b) sm) \<Rightarrow> 'x list \<Rightarrow> 'b \<Rightarrow> ('s, 'b) sm" where
  "foldE f [] acc = returnE acc"
| "foldE f (x # xs) acc = bindE (f x acc) (foldE f xs)"

lemma returnE_run [simp, sm_simps]: "returnE x s = (Inr x, s)"
  by (simp add: returnE_def)

lemma raiseE_run [simp, sm_simps]: "raiseE c m s = (Inl (Exc c m), s)"
  by (simp add: raiseE_def)

lemma reraiseE_run [simp, sm_simps]: "reraiseE e s = (Inl e, s)"
  by (simp add: reraiseE_def)

lemma getE_run [simp, sm_simps]: "getE f s = (Inr (f s), s)"
  by (simp add: getE_def)

lemma modifyE_run [simp, sm_simps]: "modifyE f s = (Inr (), f s)"
  by (simp add: modifyE_def)

lemma liftE_run [simp, sm_simps]: "liftE r s = (r, s)"
  by (simp add: liftE_def)

lemma bindE_run_Inr [simp, sm_simps]: "m s = (Inr x, t) \<Longrightarrow> bindE m f s = f x t"
  by (simp add: bindE_def)

lemma bindE_run_Inl [simp, sm_simps]: "m s = (Inl e, t) \<Longrightarrow> bindE m f s = (Inl e, t)"
  by (simp add: bindE_def)

lemma thenE_run_Inr [simp, sm_simps]: "m s = (Inr x, t) \<Longrightarrow> thenE m n s = n t"
  by (simp add: thenE_def)

lemma thenE_run_Inl [simp, sm_simps]: "m s = (Inl e, t) \<Longrightarrow> thenE m n s = (Inl e, t)"
  by (simp add: thenE_def)

lemma catchE_run_Inr [simp, sm_simps]: "m s = (Inr x, t) \<Longrightarrow> catchE m h s = (Inr x, t)"
  by (simp add: catchE_def)

lemma catchE_run_Inl [simp, sm_simps]: "m s = (Inl e, t) \<Longrightarrow> catchE m h s = h e t"
  by (simp add: catchE_def)

lemma finallyE_run [simp, sm_simps]: "m s = (r, t) \<Longrightarrow> n t = (Inr u, v) \<Longrightarrow> finallyE m n s = (r, v)"
  by (simp add: finallyE_def)

lemma whenE_run [simp, sm_simps]: "whenE b m s = (if b then m s else (Inr (), s))"
  by (simp add: whenE_def)

lemma bindE_InrE:
  assumes "bindE m f s = (Inr y, u)"
  obtains x t where "m s = (Inr x, t)" "f x t = (Inr y, u)"
  using assms by (auto simp: bindE_def split: prod.splits sum.splits)

lemma thenE_InrE:
  assumes "thenE m n s = (Inr y, u)"
  obtains x t where "m s = (Inr x, t)" "n t = (Inr y, u)"
  using assms unfolding thenE_def by (rule bindE_InrE)

section \<open>Rows of a result set\<close>

text \<open>
  \<^verbatim>\<open>Result.scalar_one_or_none()\<close> and \<^verbatim>\<open>Result.scalar_one()\<close>: more than one row is an error,
  and for the latter so is none. \<open>first_row\<close> is a query ended by \<^verbatim>\<open>LIMIT 1\<close>.
\<close>

definition scalar_one_or_none :: "'r list \<Rightarrow> ('s, 'r option) sm" where
  "scalar_one_or_none rows =
     (case rows of [] \<Rightarrow> returnE None
      | [r] \<Rightarrow> returnE (Some r)
      | _ \<Rightarrow> raiseE MultipleResultsFound ''multiple rows'')"

definition scalar_one :: "'r list \<Rightarrow> ('s, 'r) sm" where
  "scalar_one rows =
     (case rows of [] \<Rightarrow> raiseE NoResultFound ''no row''
      | [r] \<Rightarrow> returnE r
      | _ \<Rightarrow> raiseE MultipleResultsFound ''multiple rows'')"

definition first_row :: "'r list \<Rightarrow> 'r option" where
  "first_row rows = (case rows of [] \<Rightarrow> None | r # _ \<Rightarrow> Some r)"

text \<open>\<^verbatim>\<open>LIMIT limit OFFSET offset\<close>.\<close>

definition page :: "nat \<Rightarrow> nat \<Rightarrow> 'r list \<Rightarrow> 'r list" where
  "page limit offset rows = take limit (drop offset rows)"

text \<open>
  A column with a unique constraint: at most one row per key. \<open>key r = None\<close> is SQL's NULL,
  which a unique constraint ignores.
\<close>

definition unique_by :: "('r \<Rightarrow> 'k option) \<Rightarrow> 'r list \<Rightarrow> bool" where
  "unique_by key rows = distinct (List.map_filter key rows)"

lemma unique_by_Nil [simp]: "unique_by key []"
  by (simp add: unique_by_def List.map_filter_simps)

lemma map_filter_append [simp]:
  "List.map_filter f (xs @ ys) = List.map_filter f xs @ List.map_filter f ys"
  by (simp add: List.map_filter_def)

lemma set_map_filter: "set (List.map_filter f xs) = {y. \<exists>x \<in> set xs. f x = Some y}"
  by (force simp: List.map_filter_def)

lemma unique_by_snoc:
  "unique_by key (rows @ [r]) \<longleftrightarrow>
     unique_by key rows \<and> (\<forall>k. key r = Some k \<longrightarrow> (\<forall>q \<in> set rows. key q \<noteq> Some k))"
  by (auto simp: unique_by_def List.map_filter_simps set_map_filter split: option.splits)

lemma unique_by_filter_le_1:
  assumes "unique_by key rows"
  shows "length (filter (\<lambda>r. key r = Some k) rows) \<le> 1"
  using assms
proof (induction rows)
  case (Cons r rows)
  have "filter (\<lambda>r. key r = Some k) rows = []" if "key r = Some k"
    using Cons.prems that
    by (auto simp: unique_by_def List.map_filter_simps set_map_filter filter_empty_conv)
  with Cons show ?case
    by (auto simp: unique_by_def List.map_filter_simps split: option.splits)
qed simp

lemma unique_by_lookup:
  assumes "unique_by key rows" and "r \<in> set rows" and "key r = Some k"
  shows "filter (\<lambda>q. key q = Some k) rows = [r]"
proof -
  let ?f = "filter (\<lambda>q. key q = Some k) rows"
  have r: "r \<in> set ?f" using assms by simp
  have "length ?f \<le> 1" using assms(1) by (rule unique_by_filter_le_1)
  then show ?thesis using r by (cases ?f) (auto simp: Suc_le_eq)
qed

lemma unique_by_same:
  assumes "unique_by key rows" "r \<in> set rows" "q \<in> set rows" "key r = Some k" "key q = Some k"
  shows "q = r"
proof -
  have "q \<in> set (filter (\<lambda>q. key q = Some k) rows)" using assms by simp
  then show ?thesis using unique_by_lookup [OF assms(1,2,4)] by simp
qed

lemma unique_by_map:
  assumes "\<And>r. r \<in> set rows \<Longrightarrow> key (f r) = key r"
  shows "unique_by key (map f rows) = unique_by key rows"
proof -
  have "List.map_filter key (map f rows) = List.map_filter key rows"
    using assms by (induction rows) (auto simp: List.map_filter_simps split: option.splits)
  then show ?thesis by (simp add: unique_by_def)
qed

lemma scalar_one_or_none_unique:
  assumes "unique_by key rows"
  shows "scalar_one_or_none (filter (\<lambda>r. key r = Some k) rows) s =
           (Inr (first_row (filter (\<lambda>r. key r = Some k) rows)), s)"
proof -
  have "length (filter (\<lambda>r. key r = Some k) rows) \<le> 1"
    using assms by (rule unique_by_filter_le_1)
  then show ?thesis
    by (auto simp: scalar_one_or_none_def first_row_def split: list.splits)
qed

lemma scalar_simps [simp, sm_simps]:
  "scalar_one_or_none [] = returnE None"
  "scalar_one_or_none [r] = returnE (Some r)"
  "scalar_one [] = raiseE NoResultFound ''no row''"
  "scalar_one [r] = returnE r"
  by (simp_all add: scalar_one_or_none_def scalar_one_def)

lemma first_row_simps [simp]: "first_row [] = None" "first_row (r # rs) = Some r"
  by (simp_all add: first_row_def)

lemma first_row_in: "first_row rows = Some r \<Longrightarrow> r \<in> set rows"
  by (auto simp: first_row_def split: list.splits)

lemma first_row_None: "first_row rows = None \<longleftrightarrow> rows = []"
  by (simp add: first_row_def split: list.splits)

lemma scalar_one_or_none_state [simp]: "snd (scalar_one_or_none rows s) = s"
  by (simp add: scalar_one_or_none_def split: list.splits)

lemma scalar_one_state [simp]: "snd (scalar_one rows s) = s"
  by (simp add: scalar_one_def split: list.splits)

lemma filter_singletonD: "filter P rows = [r] \<Longrightarrow> r \<in> set rows \<and> P r"
  by (auto simp: filter_eq_Cons_iff)

lemma scalar_one_or_none_InrD:
  "scalar_one_or_none rows s = (Inr x, t) \<Longrightarrow> t = s \<and> x = first_row rows"
  by (auto simp: scalar_one_or_none_def split: list.splits)

lemma scalar_one_InrD: "scalar_one rows s = (Inr r, t) \<Longrightarrow> t = s \<and> rows = [r]"
  by (auto simp: scalar_one_def split: list.splits)

section \<open>Properties that every step keeps\<close>

text \<open>
  \<open>keeps R m\<close>: whatever \<open>m\<close> does, normal return or exception, it takes a state to an
  \<open>R\<close>-later one. For a preorder \<open>R\<close> the combinators keep this, so a component proves it by
  going through the code of an operation once: an invariant \<open>I\<close> is the preorder
  \<open>\<lambda>s t. I s \<longrightarrow> I t\<close>, an append-only table is the prefix order on its rows, a frame condition
  is equality of the part that is not touched.
\<close>

definition keeps :: "('s \<Rightarrow> 's \<Rightarrow> bool) \<Rightarrow> ('s, 'a) sm \<Rightarrow> bool" where
  "keeps R m \<longleftrightarrow> (\<forall>s. R s (snd (m s)))"

lemma keepsI: "(\<And>s. R s (snd (m s))) \<Longrightarrow> keeps R m"
  by (simp add: keeps_def)

lemma keepsD: "keeps R m \<Longrightarrow> m s = (r, t) \<Longrightarrow> R s t"
  by (metis keeps_def snd_conv)

locale step_preorder =
  fixes R :: "'s \<Rightarrow> 's \<Rightarrow> bool"
  assumes step_refl: "R s s"
    and step_trans: "R s t \<Longrightarrow> R t u \<Longrightarrow> R s u"
begin

lemma returnE: "keeps R (returnE x)"
  by (simp add: keeps_def step_refl)

lemma raiseE: "keeps R (raiseE c m)"
  by (simp add: keeps_def step_refl)

lemma reraiseE: "keeps R (reraiseE e)"
  by (simp add: keeps_def step_refl)

lemma getE: "keeps R (getE f)"
  by (simp add: keeps_def step_refl)

lemma liftE: "keeps R (liftE r)"
  by (simp add: keeps_def step_refl)

lemma scalar_one_or_none: "keeps R (scalar_one_or_none rows)"
  by (simp add: keeps_def step_refl)

lemma scalar_one: "keeps R (scalar_one rows)"
  by (simp add: keeps_def step_refl)

lemma bindE:
  assumes "keeps R m" and "\<And>x. keeps R (f x)"
  shows "keeps R (bindE m f)"
proof (rule keepsI)
  fix s
  obtain r t where m: "m s = (r, t)" by fastforce
  with assms(1) have st: "R s t" by (rule keepsD)
  show "R s (snd (bindE m f s))"
  proof (cases r)
    case (Inl e)
    with m st show ?thesis by simp
  next
    case (Inr x)
    have "R t (snd (f x t))" using assms(2) by (simp add: keeps_def)
    with m st Inr show ?thesis by (auto intro: step_trans)
  qed
qed

lemma thenE: "keeps R m \<Longrightarrow> keeps R n \<Longrightarrow> keeps R (thenE m n)"
  unfolding thenE_def by (rule bindE)

lemma catchE:
  assumes "keeps R m" and "\<And>e. keeps R (h e)"
  shows "keeps R (catchE m h)"
proof (rule keepsI)
  fix s
  obtain r t where m: "m s = (r, t)" by fastforce
  with assms(1) have st: "R s t" by (rule keepsD)
  show "R s (snd (catchE m h s))"
  proof (cases r)
    case (Inl e)
    have "R t (snd (h e t))" using assms(2) by (simp add: keeps_def)
    with m st Inl show ?thesis by (auto intro: step_trans)
  next
    case (Inr x)
    with m st show ?thesis by simp
  qed
qed

lemma whenE: "(b \<Longrightarrow> keeps R m) \<Longrightarrow> keeps R (whenE b m)"
  by (simp add: whenE_def returnE)

lemma foldE:
  assumes "\<And>x acc. x \<in> set xs \<Longrightarrow> keeps R (f x acc)"
  shows "keeps R (foldE f xs acc)"
  using assms by (induction xs arbitrary: acc) (auto intro: returnE bindE)

lemma if_step: "(b \<Longrightarrow> keeps R m) \<Longrightarrow> (\<not> b \<Longrightarrow> keeps R n) \<Longrightarrow> keeps R (if b then m else n)"
  by simp

lemma option_step:
  "keeps R m \<Longrightarrow> (\<And>x. keeps R (f x)) \<Longrightarrow>
   keeps R (case v of None \<Rightarrow> m | Some x \<Rightarrow> f x)"
  by (simp split: option.split)

lemma sum_step:
  "(\<And>x. keeps R (f x)) \<Longrightarrow> (\<And>x. keeps R (g x)) \<Longrightarrow>
   keeps R (case v of Inl x \<Rightarrow> f x | Inr x \<Rightarrow> g x)"
  by (simp split: sum.split)

lemma prod_step: "(\<And>x y. keeps R (f x y)) \<Longrightarrow> keeps R (case v of (x, y) \<Rightarrow> f x y)"
  by (simp split: prod.split)

lemma let_step: "keeps R (f v) \<Longrightarrow> keeps R (let x = v in f x)"
  by simp

lemmas combinators =
  returnE raiseE reraiseE getE liftE scalar_one_or_none scalar_one
  bindE thenE catchE whenE foldE if_step option_step sum_step prod_step let_step

end

section \<open>Decimal formatting and parsing\<close>

definition digit :: "nat \<Rightarrow> char" where
  "digit d = char_of (48 + d)"

fun str_nat :: "nat \<Rightarrow> string" where
  "str_nat n = (if n < 10 then [digit n] else str_nat (n div 10) @ [digit (n mod 10)])"

declare str_nat.simps [simp del]

definition str_int :: "int \<Rightarrow> string" where
  "str_int i = (if i < 0 then ''-'' @ str_nat (nat (- i)) else str_nat (nat i))"

definition is_digit :: "char \<Rightarrow> bool" where
  "is_digit c \<longleftrightarrow> 48 \<le> (of_char c :: nat) \<and> (of_char c :: nat) \<le> 57"

definition isdigit :: "string \<Rightarrow> bool" where
  "isdigit s \<longleftrightarrow> s \<noteq> [] \<and> list_all is_digit s"

definition digits_val :: "string \<Rightarrow> nat" where
  "digits_val = foldl (\<lambda>a c. 10 * a + (of_char c - 48)) 0"

lemma of_char_digit: "d < 10 \<Longrightarrow> (of_char (digit d) :: nat) = 48 + d"
  by (simp add: digit_def)

lemma is_digit_digit: "d < 10 \<Longrightarrow> is_digit (digit d)"
  by (simp add: is_digit_def of_char_digit)

lemma digits_val_snoc: "digits_val (xs @ [c]) = 10 * digits_val xs + (of_char c - 48)"
  by (simp add: digits_val_def)

lemma digits_val_str_nat: "digits_val (str_nat n) = n"
proof (induction n rule: str_nat.induct)
  case (1 n)
  show ?case
  proof (cases "n < 10")
    case True
    then show ?thesis
      by (subst str_nat.simps) (simp add: digits_val_def of_char_digit)
  next
    case False
    then have "digits_val (str_nat n) = 10 * (n div 10) + n mod 10"
      by (subst str_nat.simps) (simp add: digits_val_snoc of_char_digit "1.IH")
    then show ?thesis by simp
  qed
qed

lemma inj_str_nat: "str_nat m = str_nat n \<longleftrightarrow> m = n"
  by (metis digits_val_str_nat)

lemma isdigit_str_nat: "isdigit (str_nat n)"
proof (induction n rule: str_nat.induct)
  case (1 n)
  then show ?case
    by (subst str_nat.simps) (auto simp: isdigit_def is_digit_digit)
qed

lemma is_digit_minus [simp]: "\<not> is_digit (CHR ''-'')"
  by (simp add: is_digit_def)

lemma hd_str_nat: "is_digit (hd (str_nat n))" and str_nat_not_Nil [simp]: "str_nat n \<noteq> []"
  using isdigit_str_nat [of n] by (auto simp: isdigit_def list_all_iff)

lemma str_nat_neq_minus [simp]: "str_nat n \<noteq> CHR ''-'' # xs"
proof
  assume "str_nat n = CHR ''-'' # xs"
  then have "is_digit (CHR ''-'')" using hd_str_nat [of n] by simp
  then show False by simp
qed

lemma inj_str_int: "str_int i = str_int j \<longleftrightarrow> i = j"
proof
  assume eq: "str_int i = str_int j"
  show "i = j"
  proof (cases "i < 0"; cases "j < 0")
    assume "i < 0" "j < 0"
    with eq have "nat (- i) = nat (- j)" by (simp add: str_int_def inj_str_nat)
    with \<open>i < 0\<close> \<open>j < 0\<close> show ?thesis by simp
  next
    assume "\<not> i < 0" "\<not> j < 0"
    with eq have "nat i = nat j" by (simp add: str_int_def inj_str_nat)
    with \<open>\<not> i < 0\<close> \<open>\<not> j < 0\<close> show ?thesis by simp
  next
    assume "i < 0" "\<not> j < 0"
    with eq show ?thesis
      by (metis append_Cons append_Nil str_int_def str_nat_neq_minus)
  next
    assume "\<not> i < 0" "j < 0"
    with eq show ?thesis
      by (metis append_Cons append_Nil str_int_def str_nat_neq_minus)
  qed
qed simp

lemma isdigit_str_int: "isdigit (str_int i) \<longleftrightarrow> 0 \<le> i"
  by (auto simp: str_int_def isdigit_str_nat) (simp add: isdigit_def)

text \<open>
  Python's \<^verbatim>\<open>int(text)\<close>, a character being a code point below 256: surrounding white space is dropped, one sign is allowed,
  single underscores may stand between digits; anything else is a \<^verbatim>\<open>ValueError\<close> (here \<open>None\<close>).
\<close>

definition is_space :: "char \<Rightarrow> bool" where
  "is_space c \<longleftrightarrow> c \<in> {CHR '' '', CHR 0x09, CHR 0x0A, CHR 0x0B, CHR 0x0C, CHR 0x0D,
     CHR 0x1C, CHR 0x1D, CHR 0x1E, CHR 0x1F, CHR 0x85, CHR 0xA0}"

definition strip :: "string \<Rightarrow> string" where
  "strip s = rev (dropWhile is_space (rev (dropWhile is_space s)))"

fun digit_groups :: "string \<Rightarrow> string option" where
  "digit_groups [] = None"
| "digit_groups [c] = (if is_digit c then Some [c] else None)"
| "digit_groups (c # d # cs) =
     (if \<not> is_digit c then None
      else map_option (\<lambda>ds. c # ds) (digit_groups (if d = CHR ''_'' then cs else d # cs)))"

definition py_int :: "string \<Rightarrow> int option" where
  "py_int text =
     (let s = strip text;
          neg = (s \<noteq> [] \<and> hd s = CHR ''-'');
          body = (if s \<noteq> [] \<and> (hd s = CHR ''-'' \<or> hd s = CHR ''+'') then tl s else s)
      in map_option (\<lambda>ds. if neg then - int (digits_val ds) else int (digits_val ds))
           (digit_groups body))"

lemma is_digit_not_space: "is_digit c \<Longrightarrow> \<not> is_space c"
  by (auto simp: is_digit_def is_space_def)

lemma strip_id:
  assumes "s = [] \<or> (\<not> is_space (hd s) \<and> \<not> is_space (last s))"
  shows "strip s = s"
proof -
  have 1: "dropWhile is_space s = s"
    using assms by (cases s) auto
  have 2: "dropWhile is_space (rev s) = rev s"
    using assms by (cases s rule: rev_cases) auto
  show ?thesis by (simp add: strip_def 1 2)
qed

lemma digit_groups_digits: "isdigit ds \<Longrightarrow> digit_groups ds = Some ds"
proof (induction ds rule: digit_groups.induct)
  case (3 c d cs)
  from "3.prems" have "d \<noteq> CHR ''_''" by (auto simp: isdigit_def is_digit_def)
  with 3 show ?case by (auto simp: isdigit_def)
qed (auto simp: isdigit_def)

theorem py_int_str_int: "py_int (str_int i) = Some i"
proof -
  have nosp: "\<not> is_space (last (str_nat n))" for n
    using isdigit_str_nat [of n] by (auto simp: isdigit_def list_all_iff is_digit_not_space)
  have hd: "is_digit (hd (str_nat n))" for n by (rule hd_str_nat)
  have strip: "strip (str_int i) = str_int i"
    using nosp hd is_digit_not_space
    by (intro strip_id) (auto simp: str_int_def is_space_def)
  have sgn: "hd (str_nat n) \<noteq> CHR ''-''" "hd (str_nat n) \<noteq> CHR ''+''" for n
    using hd [of n] by (auto simp: is_digit_def)
  show ?thesis
    unfolding py_int_def strip Let_def
    by (auto simp: str_int_def sgn digit_groups_digits isdigit_str_nat digits_val_str_nat)
qed

text \<open>\<^verbatim>\<open>str.upper()\<close> on ASCII text.\<close>

definition upper_char :: "char \<Rightarrow> char" where
  "upper_char c = (let n = of_char c :: nat in if 97 \<le> n \<and> n \<le> 122 then char_of (n - 32) else c)"

definition upper :: "string \<Rightarrow> string" where
  "upper = map upper_char"

lemma upper_char_idem: "upper_char (upper_char c) = upper_char c"
proof (cases "97 \<le> (of_char c :: nat) \<and> (of_char c :: nat) \<le> 122")
  case True
  then have "(of_char c :: nat) - 32 < 256" by linarith
  then have "(of_char (char_of (of_char c - 32 :: nat)) :: nat) = of_char c - 32"
    by (simp only: of_char_of mod_less)
  with True show ?thesis by (auto simp: upper_char_def Let_def)
qed (auto simp: upper_char_def Let_def)

lemma upper_upper [simp]: "upper (upper s) = upper s"
  by (simp add: upper_def upper_char_idem)

section \<open>Dictionaries\<close>

text \<open>
  A dictionary filled in a loop or by a comprehension, in insertion order: a key that comes again
  keeps its place and gets the new value.
\<close>

definition dict_of :: "('x \<Rightarrow> 'k) \<Rightarrow> ('x \<Rightarrow> 'v) \<Rightarrow> 'x list \<Rightarrow> ('k \<times> 'v) list" where
  "dict_of key val xs = fold (\<lambda>x. AList.update (key x) (val x)) xs []"

lemma dict_of_snoc: "dict_of key val (xs @ [x]) = AList.update (key x) (val x) (dict_of key val xs)"
  by (simp add: dict_of_def)

lemma dict_of_Nil [simp]: "dict_of key val [] = []"
  by (simp add: dict_of_def)

lemma set_update_subset: "set (AList.update k v kvs) \<subseteq> insert (k, v) (set kvs)"
  by (induction kvs) auto

lemma distinct_dict_of: "distinct (map fst (dict_of key val xs))"
  by (induction xs rule: rev_induct) (simp_all add: dict_of_snoc distinct_update)

lemma keys_dict_of: "fst ` set (dict_of key val xs) = key ` set xs"
  by (induction xs rule: rev_induct) (auto simp: dict_of_snoc dom_update)

lemma set_dict_of: "kv \<in> set (dict_of key val xs) \<Longrightarrow> \<exists>x \<in> set xs. kv = (key x, val x)"
proof (induction xs rule: rev_induct)
  case (snoc x xs)
  then show ?case using set_update_subset [of "key x" "val x" "dict_of key val xs"]
    by (auto simp: dict_of_snoc)
qed simp

lemma map_of_dict_of:
  "map_of (dict_of key val xs) k =
     (if filter (\<lambda>x. key x = k) xs = [] then None else Some (val (last (filter (\<lambda>x. key x = k) xs))))"
  by (induction xs rule: rev_induct) (auto simp: dict_of_snoc update_conv')

lemma map_of_dict_of_unique:
  assumes "filter (\<lambda>x. key x = k) xs = [x]"
  shows "map_of (dict_of key val xs) k = Some (val x)"
  using assms by (simp add: map_of_dict_of)

section \<open>Stable ordering\<close>

text \<open>\<^verbatim>\<open>ORDER BY key\<close>, ascending and descending; rows with equal keys keep their table order.\<close>

definition order_by :: "('r \<Rightarrow> 'k::linorder) \<Rightarrow> 'r list \<Rightarrow> 'r list" where
  "order_by key rows = sort_key key rows"

definition order_by_desc :: "('r \<Rightarrow> int) \<Rightarrow> 'r list \<Rightarrow> 'r list" where
  "order_by_desc key rows = sort_key (\<lambda>r. - key r) rows"

lemma set_order_by [simp]: "set (order_by key rows) = set rows"
  by (simp add: order_by_def)

lemma set_order_by_desc [simp]: "set (order_by_desc key rows) = set rows"
  by (simp add: order_by_desc_def)

lemma order_by_desc_head_max:
  assumes "first_row (order_by_desc key rows) = Some r" "q \<in> set rows"
  shows "key q \<le> key r"
proof -
  from assms(1) obtain rs where rs: "sort_key (\<lambda>r. - key r) rows = r # rs"
    by (auto simp: first_row_def order_by_desc_def split: list.splits)
  have "sorted (map (\<lambda>r. - key r) (r # rs))"
    unfolding rs [symmetric] by (rule sorted_sort_key)
  moreover have "q \<in> set (r # rs)" using assms(2) rs by (metis set_sort)
  ultimately show ?thesis by auto
qed

end
