(* ===== verification/Values.thy ===== *)
theory Values
  imports Prelude "HOL-Library.Word"
begin

unbundle bit_operations_syntax

text \<open>
  The values the rows hold: JSON documents (\<^verbatim>\<open>JSONB\<close> columns, webhook bodies, Kafka payloads),
  version 7 UUIDs with their textual form (\<^verbatim>\<open>domain/ids.py\<close> and \<^verbatim>\<open>str(uuid)\<close>), fixed-point
  quantities (\<^verbatim>\<open>Numeric(18, 6)\<close>) and UTC instants with their calendar fields.
\<close>

section \<open>JSON\<close>

text \<open>
  An object is a list of key/value pairs in insertion order, looked up with \<open>map_of\<close>.
  \<open>JFloat\<close> keeps the numeral of a number that is not an integer.
\<close>

datatype json =
    JNull
  | JBool bool
  | JInt int
  | JFloat string
  | JStr string
  | JList "json list"
  | JObj "(string \<times> json) list"

type_synonym json_object = "(string \<times> json) list"

text \<open>\<^verbatim>\<open>isinstance(v, int)\<close> also holds of booleans, which are then used as 0 and 1.\<close>

definition json_int :: "json \<Rightarrow> int option" where
  "json_int v = (case v of JInt i \<Rightarrow> Some i | JBool b \<Rightarrow> Some (if b then 1 else 0) | _ \<Rightarrow> None)"

definition json_str :: "json \<Rightarrow> string option" where
  "json_str v = (case v of JStr s \<Rightarrow> Some s | _ \<Rightarrow> None)"

definition json_obj :: "json \<Rightarrow> json_object option" where
  "json_obj v = (case v of JObj kvs \<Rightarrow> Some kvs | _ \<Rightarrow> None)"

text \<open>\<^verbatim>\<open>d.get(key)\<close>: a missing key gives \<^verbatim>\<open>None\<close>, which is what a JSON null is read as, too.\<close>

definition obj_get :: "json_object \<Rightarrow> string \<Rightarrow> json" where
  "obj_get kvs k = (case map_of kvs k of None \<Rightarrow> JNull | Some v \<Rightarrow> v)"

definition opt_str :: "string option \<Rightarrow> json" where
  "opt_str v = (case v of None \<Rightarrow> JNull | Some s \<Rightarrow> JStr s)"

definition opt_int :: "int option \<Rightarrow> json" where
  "opt_int v = (case v of None \<Rightarrow> JNull | Some i \<Rightarrow> JInt i)"

text \<open>\<^verbatim>\<open>d[key] = v\<close> on a copy of the dictionary: an existing key keeps its place.\<close>

fun obj_set :: "string \<Rightarrow> json \<Rightarrow> json_object \<Rightarrow> json_object" where
  "obj_set k v [] = [(k, v)]"
| "obj_set k v ((k', v') # kvs) = (if k' = k then (k, v) # kvs else (k', v') # obj_set k v kvs)"

lemma map_of_obj_set: "map_of (obj_set k v kvs) = (map_of kvs)(k \<mapsto> v)"
  by (induction kvs) auto

lemma obj_get_obj_set [simp]:
  "obj_get (obj_set k v kvs) k' = (if k' = k then v else obj_get kvs k')"
  by (simp add: obj_get_def map_of_obj_set)

lemma json_accessors [simp]:
  "json_int (JInt i) = Some i" "json_int (JStr t) = None" "json_int JNull = None"
  "json_str (JStr t) = Some t" "json_str JNull = None" "json_str (JInt i) = None"
  "json_obj (JObj kvs) = Some kvs" "json_obj JNull = None"
  by (simp_all add: json_int_def json_str_def json_obj_def)

lemma json_str_Some [simp]: "json_str v = Some t \<longleftrightarrow> v = JStr t"
  by (simp add: json_str_def split: json.splits)

lemma json_obj_Some [simp]: "json_obj v = Some kvs \<longleftrightarrow> v = JObj kvs"
  by (simp add: json_obj_def split: json.splits)

section \<open>UUIDs\<close>

type_synonym uuid = "128 word"

text \<open>
  \<^verbatim>\<open>generate_uuidv7\<close>: a 48-bit millisecond clock, the version 7, 12 random bits, the variant
  \<^verbatim>\<open>10\<close> and 62 random bits. \<open>ms\<close> is \<^verbatim>\<open>int(time.time() * 1000)\<close>; \<open>ra\<close> and \<open>rb\<close> are the draws of
  \<^verbatim>\<open>secrets.randbits(12)\<close> and \<^verbatim>\<open>secrets.randbits(62)\<close>.
\<close>

definition generate_uuidv7 :: "int \<Rightarrow> nat \<Rightarrow> nat \<Rightarrow> uuid" where
  "generate_uuidv7 ms ra rb =
     push_bit 80 (take_bit 48 (word_of_int ms)) OR push_bit 76 7
       OR push_bit 64 (word_of_nat ra) OR push_bit 62 2 OR word_of_nat rb"

definition hex_digit :: "nat \<Rightarrow> char" where
  "hex_digit d = (if d < 10 then digit d else char_of (87 + d))"

fun hex_pad :: "nat \<Rightarrow> nat \<Rightarrow> string" where
  "hex_pad 0 v = []"
| "hex_pad (Suc k) v = hex_pad k (v div 16) @ [hex_digit (v mod 16)]"

text \<open>\<^verbatim>\<open>str(uuid)\<close>: 32 hexadecimal digits in groups of 8, 4, 4, 4 and 12.\<close>

definition uuid_str :: "uuid \<Rightarrow> string" where
  "uuid_str u =
     (let h = hex_pad 32 (unat u)
      in take 8 h @ ''-'' @ take 4 (drop 8 h) @ ''-'' @ take 4 (drop 12 h) @ ''-''
           @ take 4 (drop 16 h) @ ''-'' @ drop 20 h)"

lemma length_hex_pad [simp]: "length (hex_pad k v) = k"
  by (induction k v rule: hex_pad.induct) auto

lemma of_char_hex_digit:
  assumes "d < 16"
  shows "(of_char (hex_digit d) :: nat) = (if d < 10 then 48 + d else 87 + d)"
proof (cases "d < 10")
  case True
  then show ?thesis by (simp add: hex_digit_def of_char_digit)
next
  case False
  have "87 + d < 256" using assms by linarith
  then have "(87 + d) mod 256 = 87 + d" by (rule mod_less)
  with False show ?thesis by (simp only: hex_digit_def of_char_of if_False)
qed

lemma inj_hex_digit:
  assumes "a < 16" "b < 16" "hex_digit a = hex_digit b"
  shows "a = b"
proof -
  have "(if a < 10 then 48 + a else 87 + a) = (if b < 10 then 48 + b else 87 + b)"
    using assms(3) of_char_hex_digit [OF assms(1)] of_char_hex_digit [OF assms(2)] by metis
  then show ?thesis by (auto split: if_splits)
qed

lemma hex_digit_not_minus: "d < 16 \<Longrightarrow> hex_digit d \<noteq> CHR ''-''"
proof
  assume "d < 16" and "hex_digit d = CHR ''-''"
  then have "(of_char (CHR ''-'') :: nat) = (if d < 10 then 48 + d else 87 + d)"
    using of_char_hex_digit by metis
  then show False by (simp split: if_splits)
qed

lemma hex_pad_inj: "hex_pad k v = hex_pad k w \<Longrightarrow> v mod 16 ^ k = w mod 16 ^ k"
proof (induction k arbitrary: v w)
  case (Suc k)
  from Suc.prems have h: "hex_pad k (v div 16) = hex_pad k (w div 16)"
    and d: "hex_digit (v mod 16) = hex_digit (w mod 16)" by simp_all
  from d have "v mod 16 = w mod 16" by (intro inj_hex_digit) simp_all
  moreover have "(v div 16) mod 16 ^ k = (w div 16) mod 16 ^ k" using h by (rule Suc.IH)
  ultimately show ?case by (simp only: power_Suc mod_mult2_eq)
qed simp

lemma hex_pad_no_minus: "CHR ''-'' \<notin> set (hex_pad k v)"
proof (induction k v rule: hex_pad.induct)
  case (2 k v)
  have "hex_digit (v mod 16) \<noteq> CHR ''-''" by (rule hex_digit_not_minus) simp
  with 2 show ?case by auto
qed simp

declare hex_pad.simps [simp del]

text \<open>Dropping the dashes gives back the hexadecimal digits.\<close>

lemma groups_of_digits:
  fixes h :: string
  shows "take 8 h @ take 4 (drop 8 h) @ take 4 (drop 12 h) @ take 4 (drop 16 h) @ drop 20 h = h"
proof -
  have "take 12 h = take 8 h @ take 4 (drop 8 h)" using take_add [of 8 4 h] by simp
  moreover have "take 16 h = take 12 h @ take 4 (drop 12 h)" using take_add [of 12 4 h] by simp
  moreover have "take 20 h = take 16 h @ take 4 (drop 16 h)" using take_add [of 16 4 h] by simp
  ultimately have "take 8 h @ take 4 (drop 8 h) @ take 4 (drop 12 h) @ take 4 (drop 16 h)
      @ drop 20 h = take 20 h @ drop 20 h" by (simp only: append_assoc)
  then show ?thesis by (simp only: append_take_drop_id)
qed

lemma uuid_str_digits: "filter (\<lambda>c. c \<noteq> CHR ''-'') (uuid_str u) = hex_pad 32 (unat u)"
proof -
  let ?h = "hex_pad 32 (unat u)"
  have "filter (\<lambda>c. c \<noteq> CHR ''-'') (take n (drop m ?h)) = take n (drop m ?h)"
    and "filter (\<lambda>c. c \<noteq> CHR ''-'') (drop m ?h) = drop m ?h"
    and "filter (\<lambda>c. c \<noteq> CHR ''-'') (take n ?h) = take n ?h" for n m
    using hex_pad_no_minus [of 32 "unat u"]
    by (auto simp: filter_id_conv dest: in_set_takeD in_set_dropD)
  then show ?thesis
    using groups_of_digits [of ?h] by (simp add: uuid_str_def Let_def)
qed

lemma inj_uuid_str: "uuid_str u = uuid_str v \<longleftrightarrow> u = v"
proof
  assume "uuid_str u = uuid_str v"
  then have "hex_pad 32 (unat u) = hex_pad 32 (unat v)"
    by (metis uuid_str_digits)
  then have "unat u mod 16 ^ 32 = unat v mod 16 ^ 32" by (rule hex_pad_inj)
  moreover have "unat w < 16 ^ 32" for w :: uuid
    using unsigned_less [of w] by simp
  ultimately show "u = v" by (simp only: mod_less word_unat_eq_iff)
qed simp

lemma uuid_str_not_digits: "\<not> isdigit (uuid_str u)"
  by (simp add: uuid_str_def Let_def isdigit_def)

lemma length_uuid_str: "length (uuid_str u) = 36"
  by (simp add: uuid_str_def Let_def)

section \<open>The fields of an identifier\<close>

lemma or_disjoint_fields:
  fixes a b :: int
  assumes "0 \<le> b" "b < 2 ^ k"
  shows "push_bit k a OR b = a * 2 ^ k + b"
proof -
  have b: "take_bit k b = b" using assms by (simp add: take_bit_int_eq_self_iff)
  have "push_bit k a AND take_bit k b = 0"
    by (rule bit_eqI) (auto simp: bit_simps)
  then have "push_bit k a AND b = 0" by (simp only: b)
  then have "push_bit k a + b = push_bit k a OR b" by (rule disjunctive_add_eq_or)
  then show ?thesis by (simp add: push_bit_eq_mult)
qed

lemma uint_generate_uuidv7:
  assumes "ra < 2 ^ 12" "rb < 2 ^ 62"
  shows "uint (generate_uuidv7 ms ra rb) =
    (ms mod 2 ^ 48) * 2 ^ 80 + 7 * 2 ^ 76 + int ra * 2 ^ 64 + 2 * 2 ^ 62 + int rb"
proof -
  let ?m = "take_bit 48 ms" and ?a = "int ra" and ?b = "int rb"
  have a: "take_bit 64 ?a = ?a" and b: "take_bit 128 ?b = ?b" and b': "?b < 2 ^ 62"
    using assms by (simp_all add: take_bit_int_eq_self_iff)
  have "uint (push_bit 80 (take_bit 48 (word_of_int ms)) :: uuid) = push_bit 80 ?m"
    by (simp add: unsigned_push_bit_eq unsigned_take_bit_eq uint_word_of_int_eq take_bit_push_bit)
  moreover have "uint (push_bit 64 (word_of_nat ra) :: uuid) = push_bit 64 ?a"
    using a by (simp add: unsigned_push_bit_eq unsigned_of_nat take_bit_push_bit of_nat_take_bit)
  moreover have "uint (word_of_nat rb :: uuid) = ?b"
    using b by (simp add: unsigned_of_nat of_nat_take_bit)
  moreover have "uint (push_bit 76 7 :: uuid) = push_bit 76 7" "uint (push_bit 62 2 :: uuid) = push_bit 62 2"
    by simp_all
  ultimately have "uint (generate_uuidv7 ms ra rb) =
      push_bit 80 ?m OR push_bit 76 7 OR push_bit 64 ?a OR push_bit 62 2 OR ?b"
    unfolding generate_uuidv7_def by (simp only: unsigned_or_eq)
  moreover have "push_bit 62 2 OR ?b = 2 * 2 ^ 62 + ?b" using b' by (intro or_disjoint_fields) simp_all
  moreover have "push_bit 64 ?a OR (2 * 2 ^ 62 + ?b) = ?a * 2 ^ 64 + (2 * 2 ^ 62 + ?b)"
    using b' by (intro or_disjoint_fields) simp_all
  moreover have "push_bit 76 7 OR (?a * 2 ^ 64 + (2 * 2 ^ 62 + ?b)) =
      7 * 2 ^ 76 + (?a * 2 ^ 64 + (2 * 2 ^ 62 + ?b))"
    using b' assms(1) by (intro or_disjoint_fields) simp_all
  moreover have "push_bit 80 ?m OR (7 * 2 ^ 76 + (?a * 2 ^ 64 + (2 * 2 ^ 62 + ?b))) =
      ?m * 2 ^ 80 + (7 * 2 ^ 76 + (?a * 2 ^ 64 + (2 * 2 ^ 62 + ?b)))"
    using b' assms(1) by (intro or_disjoint_fields) simp_all
  ultimately have "uint (generate_uuidv7 ms ra rb) =
      ?m * 2 ^ 80 + (7 * 2 ^ 76 + (?a * 2 ^ 64 + (2 * 2 ^ 62 + ?b)))"
    by (simp only: or.assoc)
  then show ?thesis by (simp only: take_bit_eq_mod add.assoc)
qed

lemma field_div_mod:
  fixes a r :: int
  assumes "0 \<le> r" "r < 2 ^ k"
  shows "(a * 2 ^ k + r) div 2 ^ k = a" "(a * 2 ^ k + r) mod 2 ^ k = r"
  using assms by simp_all

lemma generate_uuidv7_fields:
  assumes "ra < 2 ^ 12" "rb < 2 ^ 62"
  shows "uint (generate_uuidv7 ms ra rb) div 2 ^ 80 = ms mod 2 ^ 48"
    "uint (generate_uuidv7 ms ra rb) div 2 ^ 76 mod 2 ^ 4 = 7"
    "uint (generate_uuidv7 ms ra rb) div 2 ^ 62 mod 2 ^ 2 = 2"
    "uint (generate_uuidv7 ms ra rb) mod 2 ^ 62 = int rb"
proof -
  let ?u = "uint (generate_uuidv7 ms ra rb)" and ?m = "ms mod 2 ^ 48"
  note u = uint_generate_uuidv7 [OF assms, of ms]
  have b: "int ra < 2 ^ 12" "int rb < 2 ^ 62" using assms by simp_all
  have "?u = ?m * 2 ^ 80 + (7 * 2 ^ 76 + int ra * 2 ^ 64 + 2 * 2 ^ 62 + int rb)" using u by simp
  with b show "?u div 2 ^ 80 = ?m" by (simp only: field_div_mod(1)) simp
  have "?u = (?m * 16 + 7) * 2 ^ 76 + (int ra * 2 ^ 64 + 2 * 2 ^ 62 + int rb)" using u by simp
  moreover have "0 \<le> int ra * 2 ^ 64 + 2 * 2 ^ 62 + int rb" "int ra * 2 ^ 64 + 2 * 2 ^ 62 + int rb < 2 ^ 76"
    using b by simp_all
  ultimately have "?u div 2 ^ 76 = ?m * 16 + 7" by (simp only: field_div_mod(1))
  then show "?u div 2 ^ 76 mod 2 ^ 4 = 7" by (simp add: mod_add_eq [symmetric])
  have "?u = (?m * 2 ^ 18 + 7 * 2 ^ 14 + int ra * 4 + 2) * 2 ^ 62 + int rb" using u by simp
  then have 62: "?u div 2 ^ 62 = ?m * 2 ^ 18 + 7 * 2 ^ 14 + int ra * 4 + 2" "?u mod 2 ^ 62 = int rb"
    using field_div_mod [of "int rb" 62 "?m * 2 ^ 18 + 7 * 2 ^ 14 + int ra * 4 + 2"] b(2) by simp_all
  have "(m * 2 ^ 18 + 7 * 2 ^ 14 + a * 4 + 2) mod 2 ^ 2 = (2::int)" for m a :: int
  proof -
    have "m * 2 ^ 18 + 7 * 2 ^ 14 + a * 4 + 2 = 2 + (m * 2 ^ 16 + 7 * 2 ^ 12 + a) * 2 ^ 2" by simp
    then show ?thesis by (simp only: mod_mult_self1) simp
  qed
  with 62 show "?u div 2 ^ 62 mod 2 ^ 2 = 2" "?u mod 2 ^ 62 = int rb" by simp_all
qed

lemma inj_generate_uuidv7:
  assumes "generate_uuidv7 ms ra rb = generate_uuidv7 ms' ra' rb'"
    and "ra < 2 ^ 12" "rb < 2 ^ 62" "ra' < 2 ^ 12" "rb' < 2 ^ 62"
  shows "rb = rb'"
  using generate_uuidv7_fields(4) [OF assms(2,3), of ms] generate_uuidv7_fields(4) [OF assms(4,5), of ms'] assms(1)
  by simp

text \<open>
  Identifiers are version 7 UUIDs. The number holds the millisecond clock modulo 2^48 in its
  top 48 bits, the version 7, the variant \<^verbatim>\<open>10\<close> and the 62 random bits; so two identifiers made in
  different milliseconds (before the clock wraps) are ordered by time.
\<close>

theorem generate_uuidv7_version_7:
  assumes "ra < 2 ^ 12" "rb < 2 ^ 62" "ra' < 2 ^ 12" "rb' < 2 ^ 62" "0 \<le> ms" "ms < ms'" "ms' < 2 ^ 48"
  shows "uint (generate_uuidv7 ms ra rb) div 2 ^ 80 = ms \<and>
    uint (generate_uuidv7 ms ra rb) div 2 ^ 76 mod 2 ^ 4 = 7 \<and>
    uint (generate_uuidv7 ms ra rb) div 2 ^ 62 mod 2 ^ 2 = 2 \<and>
    uint (generate_uuidv7 ms ra rb) mod 2 ^ 62 = int rb \<and>
    generate_uuidv7 ms ra rb < generate_uuidv7 ms' ra' rb'"
proof -
  have "ms mod 2 ^ 48 = ms" using assms(5-7) by (intro mod_pos_pos_trivial) linarith+
  moreover have "uint (generate_uuidv7 ms ra rb) < uint (generate_uuidv7 ms' ra' rb')"
    using assms unfolding uint_generate_uuidv7 [OF assms(1,2)] uint_generate_uuidv7 [OF assms(3,4)]
    by simp
  then have "generate_uuidv7 ms ra rb < generate_uuidv7 ms' ra' rb'" by (simp add: word_less_def)
  ultimately show ?thesis using generate_uuidv7_fields [OF assms(1,2)] by simp
qed

theorem generate_uuidv7_version_7_witness:
  "generate_uuidv7 1700000000000 4095 12345 < generate_uuidv7 1700000000001 0 1"
  using generate_uuidv7_version_7 [of 4095 12345 0 1 1700000000000 1700000000001] by simp

end
