(* ===== verification/Datetime.thy ===== *)
theory Datetime
  imports Values
begin

text \<open>
  Instants and the proleptic Gregorian calendar, as Python's \<^verbatim>\<open>datetime\<close> computes them. An instant
  is a number of microseconds since 1970-01-01T00:00:00Z; a \<^verbatim>\<open>TIMESTAMP WITH TIME ZONE\<close> column
  holds one. A value that reaches the code from outside may carry an offset or none
  (\<open>pydatetime\<close>).
\<close>

type_synonym instant = int

datatype pydatetime = Naive int | Aware int int

text \<open>
  \<open>Naive w\<close> has the wall-clock reading \<open>w\<close> and no zone, \<open>Aware w off\<close> the reading \<open>w\<close> at the UTC
  offset \<open>off\<close> (both in microseconds). \<open>astimezone_utc\<close> is \<^verbatim>\<open>value.astimezone(UTC)\<close> of an aware
  value.
\<close>

fun has_tz :: "pydatetime \<Rightarrow> bool" where
  "has_tz (Naive w) = False"
| "has_tz (Aware w off) = True"

fun astimezone_utc :: "pydatetime \<Rightarrow> instant" where
  "astimezone_utc (Naive w) = w"
| "astimezone_utc (Aware w off) = w - off"

abbreviation second_us :: int where "second_us \<equiv> 1000000"
abbreviation minute_us :: int where "minute_us \<equiv> 60000000"
abbreviation hour_us :: int where "hour_us \<equiv> 3600000000"
abbreviation day_us :: int where "day_us \<equiv> 86400000000"

definition timedelta_days :: "int \<Rightarrow> int" where
  "timedelta_days d = d * day_us"

definition timedelta_hours :: "int \<Rightarrow> int" where
  "timedelta_hours h = h * hour_us"

section \<open>The calendar\<close>

definition is_leap :: "int \<Rightarrow> bool" where
  "is_leap y \<longleftrightarrow> y mod 4 = 0 \<and> (y mod 100 \<noteq> 0 \<or> y mod 400 = 0)"

definition days_before_year :: "int \<Rightarrow> int" where
  "days_before_year y = (y - 1) * 365 + (y - 1) div 4 - (y - 1) div 100 + (y - 1) div 400"

definition days_before_month :: "bool \<Rightarrow> int \<Rightarrow> int" where
  "days_before_month leap m =
     [0, 0, 31, 59, 90, 120, 151, 181, 212, 243, 273, 304, 334, 365] ! nat m
       + (if m > 2 \<and> leap then 1 else 0)"

definition ymd2ord :: "int \<Rightarrow> int \<Rightarrow> int \<Rightarrow> int" where
  "ymd2ord y m d = days_before_year y + days_before_month (is_leap y) m + d"

text \<open>Month and day of the zero-based day \<open>n\<close> of a year: an estimate, corrected by one.\<close>

definition month_day :: "bool \<Rightarrow> int \<Rightarrow> int \<times> int" where
  "month_day leap n =
     (let month = (n + 50) div 32;
          month' = (if days_before_month leap month > n then month - 1 else month)
      in (month', n - days_before_month leap month' + 1))"

definition ord2ymd :: "int \<Rightarrow> int \<times> int \<times> int" where
  "ord2ymd ordinal =
     (let n = ordinal - 1;
          n400 = n div 146097; n = n mod 146097;
          n100 = n div 36524; n = n mod 36524;
          n4 = n div 1461; n = n mod 1461;
          n1 = n div 365; n = n mod 365;
          year = n400 * 400 + 1 + n100 * 100 + n4 * 4 + n1
      in if n1 = 4 \<or> n100 = 4 then (year - 1, 12, 31)
         else let (m, d) = month_day (n1 = 3 \<and> (n4 \<noteq> 24 \<or> n100 = 3)) n in (year, m, d))"

definition date_of :: "instant \<Rightarrow> int \<times> int \<times> int" where
  "date_of t = ord2ymd (719163 + t div day_us)"

definition year_of :: "instant \<Rightarrow> int" where
  "year_of t = fst (date_of t)"

definition month_of :: "instant \<Rightarrow> int" where
  "month_of t = fst (snd (date_of t))"

definition day_of :: "instant \<Rightarrow> int" where
  "day_of t = snd (snd (date_of t))"

text \<open>\<^verbatim>\<open>datetime(y, m, 1, tzinfo=UTC)\<close>, and the \<^verbatim>\<open>replace\<close> calls that truncate a UTC value.\<close>

definition first_of_month :: "int \<Rightarrow> int \<Rightarrow> instant" where
  "first_of_month y m = (ymd2ord y m 1 - 719163) * day_us"

definition trunc_hour :: "instant \<Rightarrow> instant" where
  "trunc_hour t = t - t mod hour_us"

definition trunc_day :: "instant \<Rightarrow> instant" where
  "trunc_day t = t - t mod day_us"

definition trunc_month :: "instant \<Rightarrow> instant" where
  "trunc_month t = first_of_month (year_of t) (month_of t)"

section \<open>Textual form\<close>

definition pad :: "nat \<Rightarrow> int \<Rightarrow> string" where
  "pad k i = (let s = str_int i in replicate (k - length s) (CHR ''0'') @ s)"

text \<open>\<^verbatim>\<open>t.isoformat().replace("+00:00", "Z")\<close>: microseconds only when they are not zero.\<close>

definition iso_z :: "instant \<Rightarrow> string" where
  "iso_z t =
     (let r = t mod day_us; us = r mod second_us
      in pad 4 (year_of t) @ ''-'' @ pad 2 (month_of t) @ ''-'' @ pad 2 (day_of t) @ ''T''
           @ pad 2 (r div hour_us) @ '':'' @ pad 2 (r div minute_us mod 60) @ '':''
           @ pad 2 (r div second_us mod 60)
           @ (if us = 0 then [] else ''.'' @ pad 6 us) @ ''Z'')"

text \<open>\<^verbatim>\<open>t.isoformat()\<close> of an aware UTC value.\<close>

definition isoformat :: "instant \<Rightarrow> string" where
  "isoformat t = butlast (iso_z t) @ ''+00:00''"

definition isodate :: "instant \<Rightarrow> string" where
  "isodate t = pad 4 (year_of t) @ ''-'' @ pad 2 (month_of t) @ ''-'' @ pad 2 (day_of t)"

section \<open>The calendar is consistent\<close>

lemma month_day_correct:
  assumes "month_day leap n = (m, d)" "0 \<le> n" "n \<le> 364 \<or> leap \<and> n = 365"
  shows "1 \<le> m \<and> m \<le> 12 \<and> 1 \<le> d \<and> days_before_month leap m + d = n + 1 \<and>
    n < days_before_month leap (m + 1)"
proof -
  define k where "k = (n + 50) div 32"
  have k: "32 * k \<le> n + 50" "n + 50 < 32 * k + 32" unfolding k_def by linarith+
  define m' where "m' = (if days_before_month leap k > n then k - 1 else k)"
  have md: "m = m'" "d = n - days_before_month leap m' + 1"
    using assms(1) unfolding month_day_def Let_def k_def [symmetric] m'_def [symmetric] by auto
  have "n \<le> 365" using assms(3) by auto
  then have "1 \<le> k" "k \<le> 12" using k assms(2) by linarith+
  then have "k \<in> set [1..12]" by simp
  then have "k \<in> {1, 2, 3, 4, 5, 6, 7, 8, 9, 10, 11, 12}" by (simp add: upto.simps)
  then show ?thesis
    unfolding md m'_def
    by (elim insertE emptyE) (use k assms(2,3) in \<open>auto simp: days_before_month_def\<close>)
qed

text \<open>The number of days before a year, in terms of its position in the 400-year cycle.\<close>

lemma days_before_year_cycle:
  assumes "0 \<le> n100" "n100 \<le> 3" "0 \<le> n4" "n4 \<le> 24" "0 \<le> n1" "n1 \<le> 3"
  shows "days_before_year (n400 * 400 + 1 + n100 * 100 + n4 * 4 + n1) =
           146097 * n400 + 36524 * n100 + 1461 * n4 + 365 * n1"
proof -
  let ?y = "n400 * 400 + n100 * 100 + n4 * 4 + n1"
  have "?y div 4 = 100 * n400 + 25 * n100 + n4"
    by (rule int_div_pos_eq [where r = n1]) (use assms in auto)
  moreover have "?y div 100 = 4 * n400 + n100"
    by (rule int_div_pos_eq [where r = "n4 * 4 + n1"]) (use assms in auto)
  moreover have "?y div 400 = n400"
    by (rule int_div_pos_eq [where r = "n100 * 100 + n4 * 4 + n1"]) (use assms in auto)
  ultimately show ?thesis by (simp add: days_before_year_def algebra_simps)
qed

lemma is_leap_cycle:
  assumes "0 \<le> n100" "n100 \<le> 3" "0 \<le> n4" "n4 \<le> 24" "0 \<le> n1" "n1 \<le> 3"
  shows "is_leap (n400 * 400 + 1 + n100 * 100 + n4 * 4 + n1) \<longleftrightarrow>
           n1 = 3 \<and> (n4 \<noteq> 24 \<or> n100 = 3)"
proof -
  let ?y = "n400 * 400 + 1 + n100 * 100 + n4 * 4 + n1"
  have m4: "?y mod 4 = (n1 + 1) mod 4"
    using mod_mult_self1 [of "n1 + 1" "n400 * 100 + n100 * 25 + n4" 4]
    by (simp add: algebra_simps)
  have m100: "?y mod 100 = (n4 * 4 + n1 + 1) mod 100"
    using mod_mult_self1 [of "n4 * 4 + n1 + 1" "n400 * 4 + n100" 100]
    by (simp add: algebra_simps)
  have m400: "?y mod 400 = (n100 * 100 + n4 * 4 + n1 + 1) mod 400"
    using mod_mult_self1 [of "n100 * 100 + n4 * 4 + n1 + 1" n400 400]
    by (simp add: algebra_simps)
  have e4: "(n1 + 1) mod 4 = 0 \<longleftrightarrow> n1 = 3" using assms(5,6) by presburger
  show ?thesis
  proof (cases "n1 = 3")
    case True
    have A: "(n4 * 4 + 4) mod 100 = 0 \<longleftrightarrow> n4 = 24"
      using assms(3,4) mod_pos_pos_trivial [of "n4 * 4 + 4" 100] by (cases "n4 = 24") auto
    have B: "(n100 * 100 + 100) mod 400 = 0 \<longleftrightarrow> n100 = 3"
      using assms(1,2) mod_pos_pos_trivial [of "n100 * 100 + 100" 400] by (cases "n100 = 3") auto
    have "is_leap ?y \<longleftrightarrow> (n1 + 1) mod 4 = 0 \<and> ((n4 * 4 + n1 + 1) mod 100 \<noteq> 0 \<or>
        (n100 * 100 + n4 * 4 + n1 + 1) mod 400 = 0)"
      by (simp only: is_leap_def m4 m100 m400)
    also have "n4 * 4 + n1 + 1 = n4 * 4 + 4" using True by simp
    finally have L: "is_leap ?y \<longleftrightarrow> (n4 * 4 + 4) mod 100 \<noteq> 0 \<or>
        (n100 * 100 + n4 * 4 + n1 + 1) mod 400 = 0" using e4 True by simp
    show ?thesis
    proof (cases "n4 = 24")
      case c: True
      have "n100 * 100 + n4 * 4 + n1 + 1 = n100 * 100 + 100" using c True by simp
      with L A B c True show ?thesis by metis
    next
      case False
      with L A True show ?thesis by metis
    qed
  next
    case False
    then show ?thesis using e4 by (simp only: is_leap_def m4 simp_thms)
  qed
qed

lemma div_mod_parts:
  fixes n k :: int
  assumes "0 < k"
  shows "n = k * (n div k) + n mod k" "0 \<le> n mod k" "n mod k < k"
  using assms by simp_all

lemma ord2ymd_correct:
  assumes "ord2ymd ordinal = (y, m, d)"
  shows "ymd2ord y m d = ordinal \<and> 1 \<le> m \<and> m \<le> 12 \<and> 1 \<le> d \<and>
         days_before_month (is_leap y) m + d \<le> days_before_month (is_leap y) (m + 1)"
proof -
  define n where "n = ordinal - 1"
  define n400 a where "n400 = n div 146097" and "a = n mod 146097"
  define n100 b where "n100 = a div 36524" and "b = a mod 36524"
  define n4 c where "n4 = b div 1461" and "c = b mod 1461"
  define n1 e where "n1 = c div 365" and "e = c mod 365"
  have eqs: "n = 146097 * n400 + a" "a = 36524 * n100 + b" "b = 1461 * n4 + c" "c = 365 * n1 + e"
    unfolding n400_def a_def n100_def b_def n4_def c_def n1_def e_def by simp_all
  have bnds: "0 \<le> a" "a < 146097" "0 \<le> b" "b < 36524" "0 \<le> c" "c < 1461" "0 \<le> e" "e < 365"
    unfolding a_def b_def c_def e_def by simp_all
  have r: "0 \<le> n100" "n100 \<le> 4" "0 \<le> n4" "n4 \<le> 24" "0 \<le> n1" "n1 \<le> 4"
    using eqs bnds by linarith+
  let ?year = "n400 * 400 + 1 + n100 * 100 + n4 * 4 + n1"
  have ord: "ord2ymd ordinal = (if n1 = 4 \<or> n100 = 4 then (?year - 1, 12, 31)
      else let (m, d) = month_day (n1 = 3 \<and> (n4 \<noteq> 24 \<or> n100 = 3)) e in (?year, m, d))"
    unfolding ord2ymd_def n400_def a_def n100_def b_def n4_def c_def n1_def e_def n_def
    by (simp only: Let_def)
  consider (century) "n100 = 4" | (leap_day) "n100 \<le> 3" "n1 = 4" | (other) "n100 \<le> 3" "n1 \<le> 3"
    using r by linarith
  then show ?thesis
  proof cases
    case century
    with eqs bnds r have z: "n4 = 0" "n1 = 0" "e = 0" by linarith+
    have y: "y = n400 * 400 + 1 + 3 * 100 + 24 * 4 + 3" "m = 12" "d = 31"
      using assms ord century z by simp_all
    have "is_leap y" using is_leap_cycle [of 3 24 3 n400] y by simp
    moreover have "days_before_year y = 146097 * n400 + 36524 * 3 + 1461 * 24 + 365 * 3"
      using days_before_year_cycle [of 3 24 3 n400] y by simp
    ultimately show ?thesis
      using y eqs century z n_def by (simp add: ymd2ord_def days_before_month_def)
  next
    case leap_day
    with eqs bnds r have z: "e = 0" by linarith
    from leap_day z eqs bnds have q: "n4 \<noteq> 24 \<or> n100 = 3" by linarith
    have y: "y = n400 * 400 + 1 + n100 * 100 + n4 * 4 + 3" "m = 12" "d = 31"
      using assms ord leap_day by simp_all
    have "is_leap y" using is_leap_cycle [of n100 n4 3 n400] y q leap_day r by simp
    moreover have "days_before_year y = 146097 * n400 + 36524 * n100 + 1461 * n4 + 365 * 3"
      using days_before_year_cycle [of n100 n4 3 n400] y leap_day r by simp
    ultimately show ?thesis
      using y eqs leap_day z n_def by (simp add: ymd2ord_def days_before_month_def)
  next
    case other
    let ?l = "n1 = 3 \<and> (n4 \<noteq> 24 \<or> n100 = 3)"
    have y: "y = ?year" and md: "month_day ?l e = (m, d)"
      using assms ord other by (auto simp: Let_def split: prod.splits)
    have leap: "is_leap y = ?l" using is_leap_cycle [of n100 n4 n1 n400] y other r by simp
    have dby: "days_before_year y = 146097 * n400 + 36524 * n100 + 1461 * n4 + 365 * n1"
      using days_before_year_cycle [of n100 n4 n1 n400] y other r by simp
    have e: "0 \<le> e" "e \<le> 364 \<or> ?l \<and> e = 365" using bnds by auto
    show ?thesis
      using month_day_correct [OF md e] dby leap eqs n_def by (simp add: ymd2ord_def)
  qed
qed

lemma date_of_correct:
  fixes t :: instant
  shows "ymd2ord (year_of t) (month_of t) (day_of t) = 719163 + t div day_us"
    and "1 \<le> month_of t" "month_of t \<le> 12" "1 \<le> day_of t"
    and "days_before_month (is_leap (year_of t)) (month_of t) + day_of t
           \<le> days_before_month (is_leap (year_of t)) (month_of t + 1)"
  using ord2ymd_correct [of "719163 + t div day_us" "year_of t" "month_of t" "day_of t"]
  by (simp_all add: year_of_def month_of_def day_of_def date_of_def)

text \<open>The first instant of the month after \<open>(y, m)\<close> is where that month ends.\<close>

lemma div_pred:
  fixes y k :: int
  assumes "1 < k"
  shows "y div k = (y - 1) div k + (if y mod k = 0 then 1 else 0)"
proof (cases "y mod k = 0")
  case True
  have y: "y = k * (y div k)" using True div_mod_parts(1) [of k y] assms by simp
  have "k * (y div k - 1) + (k - 1) = k * (y div k) - 1" by (simp add: algebra_simps)
  with y have "y - 1 = k * (y div k - 1) + (k - 1)" by linarith
  then have "(y - 1) div k = y div k - 1" by (rule int_div_pos_eq) (use assms in auto)
  with True show ?thesis by simp
next
  case False
  have "0 \<le> y mod k" "y mod k < k" using assms by simp_all
  moreover have "y - 1 = k * (y div k) + (y mod k - 1)"
    using div_mod_parts(1) [of k y] assms by linarith
  ultimately have "(y - 1) div k = y div k"
    using False by (intro int_div_pos_eq [of "y - 1" k "y div k" "y mod k - 1"]) linarith+
  with False show ?thesis by simp
qed

lemma next_year: "days_before_year (y + 1) = days_before_year y + 365 + (if is_leap y then 1 else 0)"
proof -
  have i: "y mod 400 = 0 \<Longrightarrow> y mod 100 = 0" "y mod 100 = 0 \<Longrightarrow> y mod 4 = 0"
    using dvd_trans [of 100 400 y] dvd_trans [of 4 100 y] by (auto simp: mod_eq_0_iff_dvd)
  have d: "days_before_year (y + 1) = y * 365 + y div 4 - y div 100 + y div 400"
    by (simp add: days_before_year_def)
  note p = div_pred [of 4 y] div_pred [of 100 y] div_pred [of 400 y]
  consider "y mod 4 \<noteq> 0" "y mod 100 \<noteq> 0" "y mod 400 \<noteq> 0"
    | "y mod 4 = 0" "y mod 100 \<noteq> 0" "y mod 400 \<noteq> 0"
    | "y mod 4 = 0" "y mod 100 = 0" "y mod 400 \<noteq> 0"
    | "y mod 4 = 0" "y mod 100 = 0" "y mod 400 = 0"
    using i by argo
  then show ?thesis
    by cases (use p d in \<open>simp_all add: days_before_year_def is_leap_def mod_eq_0_iff_dvd\<close>)
qed

definition next_month :: "int \<Rightarrow> int \<Rightarrow> int \<times> int" where
  "next_month y m = (if m = 12 then (y + 1, 1) else (y, m + 1))"

lemma first_of_next_month:
  assumes "1 \<le> m" "m \<le> 12"
  shows "first_of_month (fst (next_month y m)) (snd (next_month y m)) =
           (days_before_year y + days_before_month (is_leap y) (m + 1) + 1 - 719163) * day_us"
proof (cases "m = 12")
  case True
  then show ?thesis
    by (simp add: first_of_month_def next_month_def ymd2ord_def next_year days_before_month_def)
next
  case False
  then show ?thesis
    by (simp add: first_of_month_def next_month_def ymd2ord_def)
qed

lemma month_contains:
  fixes t :: instant
  defines "nm \<equiv> next_month (year_of t) (month_of t)"
  shows "trunc_month t \<le> t" and "t < first_of_month (fst nm) (snd nm)"
proof -
  note d = date_of_correct [of t]
  have lo: "t div day_us * day_us \<le> t" and hi: "t < (t div day_us + 1) * day_us"
    by (simp_all add: algebra_simps)
  have "ymd2ord (year_of t) (month_of t) 1 - 719163 \<le> t div day_us"
    using d by (simp add: ymd2ord_def)
  then have "trunc_month t \<le> t div day_us * day_us"
    unfolding trunc_month_def first_of_month_def by (rule mult_right_mono) simp
  with lo show "trunc_month t \<le> t" by simp
  have "t div day_us + 1 \<le> days_before_year (year_of t)
      + days_before_month (is_leap (year_of t)) (month_of t + 1) + 1 - 719163"
    using d by (simp add: ymd2ord_def)
  then have "(t div day_us + 1) * day_us \<le> first_of_month (fst nm) (snd nm)"
    unfolding nm_def first_of_next_month [OF d(2,3)] by (rule mult_right_mono) simp
  with hi show "t < first_of_month (fst nm) (snd nm)" by simp
qed

lemma trunc_hour_bounds: "trunc_hour t \<le> t" "t < trunc_hour t + hour_us"
  by (simp_all add: trunc_hour_def)

lemma trunc_hour_idem [simp]: "trunc_hour (trunc_hour t) = trunc_hour t"
  by (simp add: trunc_hour_def mod_diff_left_eq)

end
