(* ===== verification/Schema.thy ===== *)
theory Schema
  imports Datetime
begin

text \<open>
  The persistent state: one record per ORM model of \<^verbatim>\<open>domain/models\<close> with the model's columns, the
  database as one list of rows per table in insertion order (and the monthly partitions of the usage
  events that exist), and the session through which the
  services reach it. Unique and foreign-key constraints are those the models (and, for the active
  dunning campaign, the migration) declare; an insert that violates one raises
  \<open>IntegrityError\<close> and leaves the transaction failed until it is rolled back.
\<close>

section \<open>Enumerations\<close>

datatype subscription_status = trialing | active | past_due | canceled | unpaid | incomplete

datatype ledger_entry_type =
    trial_grant | invoice_paid | usage_charge | proration_debit | proration_credit
  | credit_note | access_revoked_marker | reversal | dunning_fee

datatype invoice_status = draft | open_invoice | paid | void | uncollectible

datatype webhook_status = RECEIVED | PROCESSING | PROCESSED | FAILED | SKIPPED

datatype campaign_status = CAMPAIGN_ACTIVE | CAMPAIGN_PAUSED | CAMPAIGN_COMPLETED | CAMPAIGN_EXHAUSTED

datatype attempt_result = SUCCEEDED | ATTEMPT_FAILED | ATTEMPT_SKIPPED

datatype run_type = MANUAL | DAILY

datatype run_status = RUN_RUNNING | RUN_COMPLETED | RUN_FAILED

datatype discrepancy_kind =
    MISSING_IN_PLATFORM | AMOUNT_MISMATCH | STATUS_MISMATCH | MISSING_IN_STRIPE
  | LEDGER_INVOICE_MISMATCH

text \<open>The \<^verbatim>\<open>.value\<close> of the enumeration members that reach payloads and messages.\<close>

fun subscription_status_value :: "subscription_status \<Rightarrow> string" where
  "subscription_status_value trialing = ''trialing''"
| "subscription_status_value active = ''active''"
| "subscription_status_value past_due = ''past_due''"
| "subscription_status_value canceled = ''canceled''"
| "subscription_status_value unpaid = ''unpaid''"
| "subscription_status_value incomplete = ''incomplete''"

fun ledger_entry_type_value :: "ledger_entry_type \<Rightarrow> string" where
  "ledger_entry_type_value trial_grant = ''trial_grant''"
| "ledger_entry_type_value invoice_paid = ''invoice_paid''"
| "ledger_entry_type_value usage_charge = ''usage_charge''"
| "ledger_entry_type_value proration_debit = ''proration_debit''"
| "ledger_entry_type_value proration_credit = ''proration_credit''"
| "ledger_entry_type_value credit_note = ''credit_note''"
| "ledger_entry_type_value access_revoked_marker = ''access_revoked_marker''"
| "ledger_entry_type_value reversal = ''reversal''"
| "ledger_entry_type_value dunning_fee = ''dunning_fee''"

fun invoice_status_value :: "invoice_status \<Rightarrow> string" where
  "invoice_status_value draft = ''draft''"
| "invoice_status_value open_invoice = ''open''"
| "invoice_status_value paid = ''paid''"
| "invoice_status_value void = ''void''"
| "invoice_status_value uncollectible = ''uncollectible''"

fun campaign_status_value :: "campaign_status \<Rightarrow> string" where
  "campaign_status_value CAMPAIGN_ACTIVE = ''active''"
| "campaign_status_value CAMPAIGN_PAUSED = ''paused''"
| "campaign_status_value CAMPAIGN_COMPLETED = ''completed''"
| "campaign_status_value CAMPAIGN_EXHAUSTED = ''exhausted''"

fun attempt_result_value :: "attempt_result \<Rightarrow> string" where
  "attempt_result_value SUCCEEDED = ''succeeded''"
| "attempt_result_value ATTEMPT_FAILED = ''failed''"
| "attempt_result_value ATTEMPT_SKIPPED = ''skipped''"

fun run_type_value :: "run_type \<Rightarrow> string" where
  "run_type_value MANUAL = ''manual''"
| "run_type_value DAILY = ''daily''"

fun discrepancy_kind_value :: "discrepancy_kind \<Rightarrow> string" where
  "discrepancy_kind_value MISSING_IN_PLATFORM = ''missing_in_platform''"
| "discrepancy_kind_value AMOUNT_MISMATCH = ''amount_mismatch''"
| "discrepancy_kind_value STATUS_MISMATCH = ''status_mismatch''"
| "discrepancy_kind_value MISSING_IN_STRIPE = ''missing_in_stripe''"
| "discrepancy_kind_value LEDGER_INVOICE_MISMATCH = ''ledger_invoice_mismatch''"

section \<open>Rows\<close>

text \<open>Quantities are \<^verbatim>\<open>Numeric(18, 6)\<close>: integers counting millionths.\<close>

type_synonym numeric6 = int

definition decimal_of_int :: "int \<Rightarrow> numeric6" where
  "decimal_of_int i = i * 1000000"

text \<open>\<^verbatim>\<open>int(Decimal)\<close> truncates towards zero.\<close>

definition int_of_decimal :: "numeric6 \<Rightarrow> int" where
  "int_of_decimal q = (if 0 \<le> q then q div 1000000 else - ((- q) div 1000000))"

definition decimal_str :: "numeric6 \<Rightarrow> string" where
  "decimal_str q = (if q < 0 then ''-'' else []) @ str_int (\<bar>q\<bar> div 1000000) @ ''.'' @ pad 6 (\<bar>q\<bar> mod 1000000)"

record organization =
  org_id :: int
  org_public_id :: uuid
  org_external_id :: "string option"
  org_idempotency_key :: "string option"
  org_name :: string
  org_billing_email :: "string option"
  org_metadata :: json_object
  org_created_at :: instant
  org_updated_at :: instant
  org_deleted_at :: "instant option"

record api_key =
  key_id :: uuid
  key_organization_id :: "int option"
  key_hash :: string
  key_prefix :: string
  key_role :: string
  key_expires_at :: "instant option"
  key_revoked_at :: "instant option"
  key_created_at :: instant

record product =
  prod_id :: uuid
  prod_key :: string
  prod_name :: string
  prod_description :: "string option"
  prod_is_active :: bool

record plan =
  plan_id :: uuid
  plan_product_id :: uuid
  plan_key :: string
  billing_interval :: string
  trial_days :: "int option"
  grace_period_days :: int
  dunning_policy :: json_object
  entitlement_policy :: json_object
  plan_version :: int
  published_at :: "instant option"

record price =
  price_id :: uuid
  price_plan_id :: uuid
  price_currency :: string
  unit_amount_cents :: int
  pricing_model :: string
  metered_feature_key :: "string option"
  external_price_id :: "string option"
  price_is_active :: bool

record feature =
  feat_id :: uuid
  feat_key :: string
  feature_type :: string
  default_limit :: "int option"
  reset_interval :: "string option"

record plan_feature =
  pf_id :: uuid
  pf_plan_id :: uuid
  pf_feature_id :: uuid
  limit_value :: "int option"
  is_enabled :: bool
  enforcement_mode :: string

record subscription =
  sub_id :: int
  sub_public_id :: uuid
  sub_organization_id :: int
  sub_plan_id :: uuid
  sub_status :: subscription_status
  current_period_start :: instant
  current_period_end :: instant
  cancel_at_period_end :: bool
  canceled_at :: "instant option"
  past_due_entered_at :: "instant option"
  trial_end :: "instant option"
  external_subscription_id :: "string option"
  sub_idempotency_key :: "string option"
  sub_metadata :: json_object
  sub_created_at :: instant
  sub_updated_at :: instant

record webhook_event =
  wh_id :: uuid
  wh_provider :: string
  provider_event_id :: string
  wh_event_type :: string
  wh_payload :: json_object
  wh_status :: webhook_status
  processing_attempts :: int
  wh_last_error :: "string option"
  received_at :: instant
  processed_at :: "instant option"

record outbox_message =
  ob_id :: int
  ob_aggregate_type :: string
  ob_aggregate_id :: string
  ob_event_type :: string
  ob_payload :: json_object
  ob_idempotency_key :: "string option"
  ob_partition_key :: string
  ob_created_at :: instant
  ob_published_at :: "instant option"
  publish_attempts :: int
  ob_last_error :: "string option"

record outbox_dead_letter =
  dl_id :: int
  dl_outbox_message_id :: int
  dl_aggregate_type :: string
  dl_aggregate_id :: string
  dl_event_type :: string
  dl_payload :: json_object
  dl_partition_key :: string
  dl_publish_attempts :: int
  dl_last_error :: "string option"
  dl_moved_at :: instant
  dl_replayed_at :: "instant option"

record ledger_entry =
  le_id :: int
  le_public_id :: uuid
  le_organization_id :: int
  le_subscription_id :: "int option"
  le_invoice_id :: "int option"
  entry_type :: ledger_entry_type
  amount_cents :: int
  le_currency :: string
  le_quantity :: "numeric6 option"
  reverses_entry_id :: "int option"
  le_idempotency_key :: string
  correlation_id :: string
  le_metadata :: json_object
  le_created_at :: instant

record reconciliation_run =
  run_id :: uuid
  run_kind :: run_type
  run_state :: run_status
  run_stats :: json_object
  run_idempotency_key :: string
  run_started_at :: instant
  run_completed_at :: "instant option"

record reconciliation_discrepancy =
  disc_id :: uuid
  disc_run_id :: uuid
  disc_kind :: discrepancy_kind
  disc_external_invoice_id :: "string option"
  expected_amount_cents :: "int option"
  actual_amount_cents :: "int option"
  delta_cents :: "int option"
  disc_details :: json_object
  disc_created_at :: instant

record usage_event =
  ue_id :: int
  ue_public_id :: uuid
  ue_organization_id :: int
  ue_subscription_id :: "int option"
  ue_feature_key :: string
  ue_quantity :: numeric6
  recorded_at :: instant
  ue_idempotency_key :: string
  ue_metadata :: json_object
  ingested_at :: instant

record usage_aggregate =
  ua_id :: int
  ua_public_id :: uuid
  ua_organization_id :: int
  ua_feature_key :: string
  hour_start :: instant
  ua_quantity :: numeric6

record invoice =
  inv_id :: int
  inv_public_id :: uuid
  inv_organization_id :: int
  inv_subscription_id :: "int option"
  inv_status :: invoice_status
  inv_currency :: string
  period_start :: instant
  period_end :: instant
  total_amount_cents :: int
  external_invoice_id :: "string option"
  synced_at :: "instant option"
  inv_idempotency_key :: string
  inv_created_at :: instant
  inv_updated_at :: instant

record invoice_line_item =
  li_id :: uuid
  li_invoice_id :: int
  li_description :: string
  li_quantity :: numeric6
  li_unit_amount_cents :: int
  li_amount_cents :: int
  li_feature_key :: "string option"
  li_price_id :: "uuid option"
  li_usage_period_id :: "uuid option"
  li_created_at :: instant

record dunning_campaign =
  camp_id :: uuid
  camp_subscription_id :: int
  camp_organization_id :: int
  camp_status :: campaign_status
  camp_grace_until :: "instant option"
  policy_snapshot :: json_object
  camp_idempotency_key :: string
  started_at :: instant
  camp_created_at :: instant

record dunning_attempt =
  att_id :: uuid
  att_campaign_id :: uuid
  attempt_no :: int
  scheduled_at :: instant
  executed_at :: "instant option"
  att_result :: "attempt_result option"
  external_charge_id :: "string option"
  att_idempotency_key :: string
  att_created_at :: instant

section \<open>The database and the session\<close>

record database =
  organizations :: "organization list"
  api_keys :: "api_key list"
  products :: "product list"
  plans :: "plan list"
  prices :: "price list"
  features :: "feature list"
  plan_features :: "plan_feature list"
  subscriptions :: "subscription list"
  webhook_events :: "webhook_event list"
  outbox_messages :: "outbox_message list"
  outbox_dead_letters :: "outbox_dead_letter list"
  ledger_entries :: "ledger_entry list"
  reconciliation_runs :: "reconciliation_run list"
  reconciliation_discrepancies :: "reconciliation_discrepancy list"
  usage_events :: "usage_event list"
  usage_aggregates :: "usage_aggregate list"
  invoices :: "invoice list"
  invoice_line_items :: "invoice_line_item list"
  dunning_campaigns :: "dunning_campaign list"
  dunning_attempts :: "dunning_attempt list"
  usage_partitions :: "(int \<times> int) list"

text \<open>The identity columns (\<^verbatim>\<open>Identity()\<close>, \<^verbatim>\<open>autoincrement\<close>), one sequence per table.\<close>

datatype id_sequence =
    ORGANIZATIONS | SUBSCRIPTIONS | OUTBOX_MESSAGES | OUTBOX_DEAD_LETTERS | LEDGER_ENTRIES
  | USAGE_EVENTS | USAGE_AGGREGATES | INVOICES

text \<open>The settings of \<^verbatim>\<open>config.py\<close> that the modelled code reads.\<close>

record settings =
  replica_configured :: bool
  replica_lag_threshold_seconds :: int
  entitlement_cache_ttl_seconds :: int
  auth_cache_ttl_seconds :: int
  entitlement_l1_ttl_seconds :: int
  outbox_batch_size :: nat
  outbox_max_attempts :: int
  webhook_timestamp_tolerance_seconds :: int
  mock_stripe_webhook_secret :: string
  mock_stripe_webhook_secret_previous :: "string option"
  api_rate_limit_per_minute :: int
  api_rate_limit_platform_admin_per_minute :: int
  reconciliation_alert_amount_cents :: int
  dunning_enabled :: bool

definition default_settings :: settings where
  "default_settings =
     \<lparr>replica_configured = False, replica_lag_threshold_seconds = 30,
      entitlement_cache_ttl_seconds = 60, auth_cache_ttl_seconds = 2,
      entitlement_l1_ttl_seconds = 1, outbox_batch_size = 100, outbox_max_attempts = 10,
      webhook_timestamp_tolerance_seconds = 300, mock_stripe_webhook_secret = [],
      mock_stripe_webhook_secret_previous = None, api_rate_limit_per_minute = 120,
      api_rate_limit_platform_admin_per_minute = 1000,
      reconciliation_alert_amount_cents = 10000, dunning_enabled = False\<rparr>"

text \<open>Metric instruments the services update; durations are left out.\<close>

datatype metric =
    LedgerEntriesPosted
  | DunningCampaignsActive int
  | UsageEventsIngested int
  | ReconciliationDiscrepancyAmount int
  | EntitlementEvaluate bool
  | OutboxUnpublishedCount int
  | OutboxLag int
  | HttpRateLimited

text \<open>
  A session: the rows as the running transaction sees them, the last committed rows, whether a
  statement of the transaction has failed, the identity sequences (never rolled back), the
  transaction timestamp (\<^verbatim>\<open>func.now()\<close>), the readings of the clock and the random draws still to
  come, and the settings. \<open>driver_msg\<close> is the text the database driver puts into its errors.
\<close>

record session =
  db :: database
  committed :: database
  tx_failed :: bool
  seqs :: "id_sequence \<Rightarrow> int"
  tx_now :: instant
  clock :: "nat \<Rightarrow> instant"
  clock_pos :: nat
  rnd :: "nat \<Rightarrow> nat"
  rnd_pos :: nat
  settings :: settings
  driver_msg :: string
  metrics :: "metric list"

type_synonym 'a op = "(session, 'a) sm"

section \<open>Primitive operations\<close>

text \<open>A statement on a session whose transaction has failed raises.\<close>

definition query :: "(database \<Rightarrow> 'a) \<Rightarrow> 'a op" where
  "query f = (\<lambda>s. if tx_failed s then (Inl (Exc PendingRollbackError (driver_msg s)), s)
                  else (Inr (f (db s)), s))"

definition flush :: "unit op" where
  "flush = query (\<lambda>_. ())"

definition update_db :: "(database \<Rightarrow> database) \<Rightarrow> unit op" where
  "update_db f = modifyE (\<lambda>s. s\<lparr>db := f (db s)\<rparr>)"

text \<open>\<^verbatim>\<open>datetime.now(UTC)\<close> and \<^verbatim>\<open>secrets.randbits(k)\<close> consume a reading, a draw.\<close>

definition now_utc :: "instant op" where
  "now_utc = (\<lambda>s. (Inr (clock s (clock_pos s)), s\<lparr>clock_pos := Suc (clock_pos s)\<rparr>))"

definition randbits :: "nat \<Rightarrow> nat op" where
  "randbits k = (\<lambda>s. (Inr (rnd s (rnd_pos s) mod 2 ^ k), s\<lparr>rnd_pos := Suc (rnd_pos s)\<rparr>))"

definition new_uuid :: "uuid op" where
  "new_uuid = bindE now_utc (\<lambda>t. bindE (randbits 12) (\<lambda>ra. bindE (randbits 62) (\<lambda>rb.
     returnE (generate_uuidv7 (t div 1000) ra rb))))"

text \<open>The next value of an identity column.\<close>

definition next_id :: "id_sequence \<Rightarrow> int op" where
  "next_id q = (\<lambda>s. (Inr (seqs s q), s\<lparr>seqs := (seqs s)(q := seqs s q + 1)\<rparr>))"

definition emit_metric :: "metric \<Rightarrow> unit op" where
  "emit_metric m = modifyE (\<lambda>s. s\<lparr>metrics := metrics s @ [m]\<rparr>)"

text \<open>
  \<^verbatim>\<open>session.add(row)\<close> with the \<^verbatim>\<open>flush()\<close> that sends it: \<open>ok\<close> says that the constraints hold, \<open>ins\<close>
  adds the row.
\<close>

definition insert_checked :: "(database \<Rightarrow> bool) \<Rightarrow> (database \<Rightarrow> database) \<Rightarrow> unit op" where
  "insert_checked ok ins =
     (\<lambda>s. if tx_failed s then (Inl (Exc PendingRollbackError (driver_msg s)), s)
          else if ok (db s) then (Inr (), s\<lparr>db := ins (db s)\<rparr>)
          else (Inl (Exc IntegrityError (driver_msg s)), s\<lparr>tx_failed := True\<rparr>))"

text \<open>
  \<^verbatim>\<open>INSERT ... ON CONFLICT (key) DO NOTHING\<close>: a row whose key is taken is skipped (\<open>False\<close>); the
  other constraints are still checked.
\<close>

definition insert_or_ignore ::
  "(database \<Rightarrow> bool) \<Rightarrow> (database \<Rightarrow> bool) \<Rightarrow> (database \<Rightarrow> database) \<Rightarrow> bool op" where
  "insert_or_ignore conflict ok ins =
     (\<lambda>s. if tx_failed s then (Inl (Exc PendingRollbackError (driver_msg s)), s)
          else if conflict (db s) then (Inr False, s)
          else if ok (db s) then (Inr True, s\<lparr>db := ins (db s)\<rparr>)
          else (Inl (Exc IntegrityError (driver_msg s)), s\<lparr>tx_failed := True\<rparr>))"

text \<open>The next transaction starts after the rollback or commit, at the reading to come.\<close>

definition rollback :: "unit op" where
  "rollback = modifyE (\<lambda>s. s\<lparr>db := committed s, tx_failed := False, tx_now := clock s (clock_pos s)\<rparr>)"

definition commit :: "unit op" where
  "commit = (\<lambda>s. if tx_failed s then (Inl (Exc PendingRollbackError (driver_msg s)), s)
                 else (Inr (), s\<lparr>committed := db s, tx_now := clock s (clock_pos s)\<rparr>))"

text \<open>\<^verbatim>\<open>async with session.begin_nested()\<close>: an exception undoes the block and leaves the outer
  transaction usable.\<close>

definition begin_nested :: "'a op \<Rightarrow> 'a op" where
  "begin_nested m =
     (\<lambda>s. case m s of (r, t) \<Rightarrow>
        (case r of Inl e \<Rightarrow> (Inl e, t\<lparr>db := db s, tx_failed := tx_failed s\<rparr>) | Inr x \<Rightarrow> (Inr x, t)))"

end
