(* ===== verification/Store.thy ===== *)
theory Store
  imports Schema
begin

text \<open>
  What the services rely on of the database: the constraints a new row is checked against, the
  integrity of the whole database that these checks keep, how the primitive operations evaluate,
  and the locale in which a component proves once which writes an operation may make.
\<close>

section \<open>Constraints\<close>

definition fresh :: "('r \<Rightarrow> 'k) \<Rightarrow> 'r \<Rightarrow> 'r list \<Rightarrow> bool" where
  "fresh key r rows = list_all (\<lambda>q. key q \<noteq> key r) rows"

definition fresh_opt :: "('r \<Rightarrow> 'k option) \<Rightarrow> 'r \<Rightarrow> 'r list \<Rightarrow> bool" where
  "fresh_opt key r rows = (key r = None \<or> list_all (\<lambda>q. key q \<noteq> key r) rows)"

definition refers :: "('r \<Rightarrow> 'k) \<Rightarrow> 'k \<Rightarrow> 'r list \<Rightarrow> bool" where
  "refers key v rows = list_ex (\<lambda>q. key q = v) rows"

definition refers_opt :: "('r \<Rightarrow> 'k) \<Rightarrow> 'k option \<Rightarrow> 'r list \<Rightarrow> bool" where
  "refers_opt key v rows = (case v of None \<Rightarrow> True | Some k \<Rightarrow> refers key k rows)"

definition organization_ok :: "organization \<Rightarrow> database \<Rightarrow> bool" where
  "organization_ok r d \<longleftrightarrow>
     fresh org_id r (organizations d) \<and> fresh org_public_id r (organizations d) \<and>
     fresh_opt org_external_id r (organizations d) \<and>
     fresh_opt org_idempotency_key r (organizations d)"

definition subscription_ok :: "subscription \<Rightarrow> database \<Rightarrow> bool" where
  "subscription_ok r d \<longleftrightarrow>
     fresh sub_id r (subscriptions d) \<and> fresh sub_public_id r (subscriptions d) \<and>
     fresh_opt external_subscription_id r (subscriptions d) \<and>
     fresh_opt sub_idempotency_key r (subscriptions d) \<and>
     refers org_id (sub_organization_id r) (organizations d) \<and>
     refers plan_id (sub_plan_id r) (plans d)"

definition outbox_message_ok :: "outbox_message \<Rightarrow> database \<Rightarrow> bool" where
  "outbox_message_ok r d \<longleftrightarrow> fresh ob_id r (outbox_messages d)"

definition outbox_key_taken :: "string \<Rightarrow> database \<Rightarrow> bool" where
  "outbox_key_taken k d = refers ob_idempotency_key (Some k) (outbox_messages d)"

definition ledger_entry_ok :: "ledger_entry \<Rightarrow> database \<Rightarrow> bool" where
  "ledger_entry_ok r d \<longleftrightarrow>
     fresh le_id r (ledger_entries d) \<and> fresh le_public_id r (ledger_entries d) \<and>
     fresh le_idempotency_key r (ledger_entries d) \<and>
     refers org_id (le_organization_id r) (organizations d) \<and>
     refers_opt sub_id (le_subscription_id r) (subscriptions d) \<and>
     refers_opt le_id (reverses_entry_id r) (ledger_entries d)"

definition webhook_event_ok :: "webhook_event \<Rightarrow> database \<Rightarrow> bool" where
  "webhook_event_ok r d \<longleftrightarrow> fresh wh_id r (webhook_events d)"

definition invoice_ok :: "invoice \<Rightarrow> database \<Rightarrow> bool" where
  "invoice_ok r d \<longleftrightarrow>
     fresh inv_id r (invoices d) \<and> fresh inv_public_id r (invoices d) \<and>
     fresh inv_idempotency_key r (invoices d) \<and> fresh_opt external_invoice_id r (invoices d) \<and>
     refers org_id (inv_organization_id r) (organizations d) \<and>
     refers_opt sub_id (inv_subscription_id r) (subscriptions d)"

definition line_item_ok :: "invoice_line_item \<Rightarrow> database \<Rightarrow> bool" where
  "line_item_ok r d \<longleftrightarrow>
     fresh li_id r (invoice_line_items d) \<and> refers inv_id (li_invoice_id r) (invoices d)"

text \<open>
  Besides the key constraints, migration 0015 creates a unique index on \<^verbatim>\<open>subscription_id\<close> over
  the campaigns whose status is \<^verbatim>\<open>active\<close>.
\<close>

definition active_subscription :: "dunning_campaign \<Rightarrow> int option" where
  "active_subscription c =
     (if camp_status c = CAMPAIGN_ACTIVE then Some (camp_subscription_id c) else None)"

definition campaign_ok :: "dunning_campaign \<Rightarrow> database \<Rightarrow> bool" where
  "campaign_ok r d \<longleftrightarrow>
     fresh camp_id r (dunning_campaigns d) \<and> fresh camp_idempotency_key r (dunning_campaigns d) \<and>
     fresh_opt active_subscription r (dunning_campaigns d) \<and>
     refers sub_id (camp_subscription_id r) (subscriptions d) \<and>
     refers org_id (camp_organization_id r) (organizations d)"

definition attempt_ok :: "dunning_attempt \<Rightarrow> database \<Rightarrow> bool" where
  "attempt_ok r d \<longleftrightarrow>
     fresh att_id r (dunning_attempts d) \<and> fresh att_idempotency_key r (dunning_attempts d) \<and>
     fresh (\<lambda>a. (att_campaign_id a, attempt_no a)) r (dunning_attempts d) \<and>
     refers camp_id (att_campaign_id r) (dunning_campaigns d)"

section \<open>Writes\<close>

definition add_organization :: "organization \<Rightarrow> database \<Rightarrow> database" where
  "add_organization r d = d\<lparr>organizations := organizations d @ [r]\<rparr>"

definition add_subscription :: "subscription \<Rightarrow> database \<Rightarrow> database" where
  "add_subscription r d = d\<lparr>subscriptions := subscriptions d @ [r]\<rparr>"

definition add_outbox :: "outbox_message \<Rightarrow> database \<Rightarrow> database" where
  "add_outbox r d = d\<lparr>outbox_messages := outbox_messages d @ [r]\<rparr>"

definition add_ledger_entry :: "ledger_entry \<Rightarrow> database \<Rightarrow> database" where
  "add_ledger_entry r d = d\<lparr>ledger_entries := ledger_entries d @ [r]\<rparr>"

definition add_webhook_event :: "webhook_event \<Rightarrow> database \<Rightarrow> database" where
  "add_webhook_event r d = d\<lparr>webhook_events := webhook_events d @ [r]\<rparr>"

definition add_invoice :: "invoice \<Rightarrow> database \<Rightarrow> database" where
  "add_invoice r d = d\<lparr>invoices := invoices d @ [r]\<rparr>"

definition add_line_item_row :: "invoice_line_item \<Rightarrow> database \<Rightarrow> database" where
  "add_line_item_row r d = d\<lparr>invoice_line_items := invoice_line_items d @ [r]\<rparr>"

definition add_campaign :: "dunning_campaign \<Rightarrow> database \<Rightarrow> database" where
  "add_campaign r d = d\<lparr>dunning_campaigns := dunning_campaigns d @ [r]\<rparr>"

definition add_attempt :: "dunning_attempt \<Rightarrow> database \<Rightarrow> database" where
  "add_attempt r d = d\<lparr>dunning_attempts := dunning_attempts d @ [r]\<rparr>"

text \<open>
  Attribute changes on a mapped object update the row with its primary key. Columns declared with
  \<^verbatim>\<open>onupdate=func.now()\<close> get the transaction timestamp, but only if some attribute changed.
\<close>

definition update_rows :: "('r \<Rightarrow> bool) \<Rightarrow> ('r \<Rightarrow> 'r) \<Rightarrow> 'r list \<Rightarrow> 'r list" where
  "update_rows sel f rows = map (\<lambda>r. if sel r then f r else r) rows"

definition upd_subscription ::
  "int \<Rightarrow> instant \<Rightarrow> (subscription \<Rightarrow> subscription) \<Rightarrow> database \<Rightarrow> database" where
  "upd_subscription i t f d =
     d\<lparr>subscriptions := update_rows (\<lambda>r. sub_id r = i)
         (\<lambda>r. if f r = r then r else (f r)\<lparr>sub_updated_at := t\<rparr>) (subscriptions d)\<rparr>"

definition upd_webhook_event ::
  "uuid \<Rightarrow> (webhook_event \<Rightarrow> webhook_event) \<Rightarrow> database \<Rightarrow> database" where
  "upd_webhook_event i f d =
     d\<lparr>webhook_events := update_rows (\<lambda>r. wh_id r = i) f (webhook_events d)\<rparr>"

definition upd_campaign ::
  "uuid \<Rightarrow> (dunning_campaign \<Rightarrow> dunning_campaign) \<Rightarrow> database \<Rightarrow> database" where
  "upd_campaign i f d =
     d\<lparr>dunning_campaigns := update_rows (\<lambda>r. camp_id r = i) f (dunning_campaigns d)\<rparr>"

definition upd_attempt ::
  "uuid \<Rightarrow> (dunning_attempt \<Rightarrow> dunning_attempt) \<Rightarrow> database \<Rightarrow> database" where
  "upd_attempt i f d =
     d\<lparr>dunning_attempts := update_rows (\<lambda>r. att_id r = i) f (dunning_attempts d)\<rparr>"

definition upd_invoice ::
  "int \<Rightarrow> instant \<Rightarrow> (invoice \<Rightarrow> invoice) \<Rightarrow> database \<Rightarrow> database" where
  "upd_invoice i t f d =
     d\<lparr>invoices := update_rows (\<lambda>r. inv_id r = i)
         (\<lambda>r. if f r = r then r else (f r)\<lparr>inv_updated_at := t\<rparr>) (invoices d)\<rparr>"

lemmas write_defs =
  add_organization_def add_subscription_def add_outbox_def add_ledger_entry_def
  add_webhook_event_def add_invoice_def add_line_item_row_def add_campaign_def add_attempt_def
  upd_subscription_def upd_webhook_event_def upd_campaign_def upd_attempt_def upd_invoice_def

section \<open>Evaluation of the primitive operations\<close>

lemma query_run [simp, sm_simps]: "\<not> tx_failed s \<Longrightarrow> query f s = (Inr (f (db s)), s)"
  by (simp add: query_def)

lemma query_failed [simp, sm_simps]:
  "tx_failed s \<Longrightarrow> query f s = (Inl (Exc PendingRollbackError (driver_msg s)), s)"
  by (simp add: query_def)

lemma query_InrD: "query f s = (Inr x, t) \<Longrightarrow> t = s \<and> x = f (db s) \<and> \<not> tx_failed s"
  by (auto simp: query_def split: if_splits)

lemma flush_run [simp, sm_simps]: "\<not> tx_failed s \<Longrightarrow> flush s = (Inr (), s)"
  by (simp add: flush_def)

lemma update_db_run [simp, sm_simps]: "update_db f s = (Inr (), s\<lparr>db := f (db s)\<rparr>)"
  by (simp add: update_db_def)

lemma now_utc_run [simp, sm_simps]:
  "now_utc s = (Inr (clock s (clock_pos s)), s\<lparr>clock_pos := Suc (clock_pos s)\<rparr>)"
  by (simp add: now_utc_def)

lemma randbits_run [simp, sm_simps]:
  "randbits k s = (Inr (rnd s (rnd_pos s) mod 2 ^ k), s\<lparr>rnd_pos := Suc (rnd_pos s)\<rparr>)"
  by (simp add: randbits_def)

text \<open>The identifier the next call of \<open>new_uuid\<close> returns, and the session after it.\<close>

definition upcoming_uuid :: "session \<Rightarrow> uuid" where
  "upcoming_uuid s = generate_uuidv7 (clock s (clock_pos s) div 1000)
     (rnd s (rnd_pos s) mod 2 ^ 12) (rnd s (Suc (rnd_pos s)) mod 2 ^ 62)"

definition after_uuid :: "session \<Rightarrow> session" where
  "after_uuid s = s\<lparr>clock_pos := Suc (clock_pos s), rnd_pos := Suc (Suc (rnd_pos s))\<rparr>"

lemma new_uuid_run [simp, sm_simps]: "new_uuid s = (Inr (upcoming_uuid s), after_uuid s)"
  by (simp add: new_uuid_def bindE_def upcoming_uuid_def after_uuid_def)

lemma after_uuid_simps [simp]:
  "db (after_uuid s) = db s" "committed (after_uuid s) = committed s"
  "tx_failed (after_uuid s) = tx_failed s" "seqs (after_uuid s) = seqs s"
  "tx_now (after_uuid s) = tx_now s" "settings (after_uuid s) = settings s"
  "driver_msg (after_uuid s) = driver_msg s" "metrics (after_uuid s) = metrics s"
  "clock (after_uuid s) = clock s" "rnd (after_uuid s) = rnd s"
  by (simp_all add: after_uuid_def)

lemma next_id_run [simp, sm_simps]:
  "next_id q s = (Inr (seqs s q), s\<lparr>seqs := (seqs s)(q := seqs s q + 1)\<rparr>)"
  by (simp add: next_id_def)

lemma emit_metric_run [simp, sm_simps]: "emit_metric m s = (Inr (), s\<lparr>metrics := metrics s @ [m]\<rparr>)"
  by (simp add: emit_metric_def)

lemma insert_checked_run [simp, sm_simps]:
  "\<not> tx_failed s \<Longrightarrow> ok (db s) \<Longrightarrow> insert_checked ok ins s = (Inr (), s\<lparr>db := ins (db s)\<rparr>)"
  "\<not> tx_failed s \<Longrightarrow> \<not> ok (db s) \<Longrightarrow>
     insert_checked ok ins s = (Inl (Exc IntegrityError (driver_msg s)), s\<lparr>tx_failed := True\<rparr>)"
  "tx_failed s \<Longrightarrow> insert_checked ok ins s = (Inl (Exc PendingRollbackError (driver_msg s)), s)"
  by (simp_all add: insert_checked_def)

lemma insert_checked_InrD:
  "insert_checked ok ins s = (Inr u, t) \<Longrightarrow>
     t = s\<lparr>db := ins (db s)\<rparr> \<and> ok (db s) \<and> \<not> tx_failed s"
  by (simp add: insert_checked_def split: if_splits)

lemma insert_or_ignore_run [simp, sm_simps]:
  "\<not> tx_failed s \<Longrightarrow> conflict (db s) \<Longrightarrow> insert_or_ignore conflict ok ins s = (Inr False, s)"
  "\<not> tx_failed s \<Longrightarrow> \<not> conflict (db s) \<Longrightarrow> ok (db s) \<Longrightarrow>
     insert_or_ignore conflict ok ins s = (Inr True, s\<lparr>db := ins (db s)\<rparr>)"
  by (simp_all add: insert_or_ignore_def)

lemma rollback_run [simp, sm_simps]:
  "rollback s = (Inr (), s\<lparr>db := committed s, tx_failed := False, tx_now := clock s (clock_pos s)\<rparr>)"
  by (simp add: rollback_def)

lemma commit_run [simp, sm_simps]:
  "\<not> tx_failed s \<Longrightarrow> commit s = (Inr (), s\<lparr>committed := db s, tx_now := clock s (clock_pos s)\<rparr>)"
  by (simp add: commit_def)

section \<open>Keys and references\<close>

lemma fresh_iff: "fresh key r rows \<longleftrightarrow> (\<forall>q \<in> set rows. key q \<noteq> key r)"
  by (simp add: fresh_def list_all_iff)

lemma fresh_opt_iff:
  "fresh_opt key r rows \<longleftrightarrow> (key r \<noteq> None \<longrightarrow> (\<forall>q \<in> set rows. key q \<noteq> key r))"
  by (auto simp: fresh_opt_def list_all_iff)

lemma refers_iff: "refers key v rows \<longleftrightarrow> v \<in> key ` set rows"
  by (auto simp: refers_def list_ex_iff)

abbreviation unique_key :: "('r \<Rightarrow> 'k) \<Rightarrow> 'r list \<Rightarrow> bool" where
  "unique_key key \<equiv> unique_by (\<lambda>r. Some (key r))"

lemma unique_key_snoc: "unique_key key (rows @ [r]) \<longleftrightarrow> unique_key key rows \<and> fresh key r rows"
  by (auto simp: unique_by_snoc fresh_iff)

lemma unique_opt_snoc: "unique_by key (rows @ [r]) \<longleftrightarrow> unique_by key rows \<and> fresh_opt key r rows"
  by (auto simp: unique_by_snoc fresh_opt_iff)

lemma filter_update_other:
  assumes "\<And>r. r \<in> set rows \<Longrightarrow> sel r \<Longrightarrow> \<not> P r \<and> \<not> P (f r)"
  shows "filter P (update_rows sel f rows) = filter P rows"
  using assms by (induction rows) (auto simp: update_rows_def)

lemma unique_update_rows:
  assumes "\<And>r. r \<in> set rows \<Longrightarrow> sel r \<Longrightarrow> key (f r) = key r"
  shows "unique_by key (update_rows sel f rows) = unique_by key rows"
  using assms unfolding update_rows_def by (intro unique_by_map) auto

lemma map_update_rows:
  assumes "\<And>r. r \<in> set rows \<Longrightarrow> sel r \<Longrightarrow> key (f r) = key r"
  shows "map key (update_rows sel f rows) = map key rows"
  using assms by (simp add: update_rows_def)

lemma filter_update_rows:
  "(\<And>r. r \<in> set rows \<Longrightarrow> sel r \<Longrightarrow> P (f r) = P r) \<Longrightarrow>
   filter P (update_rows sel f rows) = update_rows sel f (filter P rows)"
  by (induction rows) (auto simp: update_rows_def)

lemma update_rows_simps [simp]:
  "update_rows sel f [] = []"
  "update_rows sel f (r # rs) = (if sel r then f r else r) # update_rows sel f rs"
  by (simp_all add: update_rows_def)

lemma length_update_rows [simp]: "length (update_rows sel f rows) = length rows"
  by (simp add: update_rows_def)

lemma set_update_rows: "set (update_rows sel f rows) = (\<lambda>r. if sel r then f r else r) ` set rows"
  by (simp add: update_rows_def)

lemma image_update_rows:
  assumes "\<And>r. r \<in> set rows \<Longrightarrow> sel r \<Longrightarrow> key (f r) = key r"
  shows "key ` set (update_rows sel f rows) = key ` set rows"
  using map_update_rows [of rows sel key f] assms by (metis set_map)

section \<open>Integrity\<close>

text \<open>What the constraints guarantee of the tables the services look rows up in.\<close>

definition keys_unique :: "database \<Rightarrow> bool" where
  "keys_unique d \<longleftrightarrow>
     unique_key org_id (organizations d) \<and> unique_key org_public_id (organizations d) \<and>
     unique_by org_external_id (organizations d) \<and> unique_by org_idempotency_key (organizations d) \<and>
     unique_key plan_id (plans d) \<and>
     unique_key sub_id (subscriptions d) \<and> unique_key sub_public_id (subscriptions d) \<and>
     unique_by external_subscription_id (subscriptions d) \<and>
     unique_by sub_idempotency_key (subscriptions d) \<and>
     unique_key le_id (ledger_entries d) \<and> unique_key le_idempotency_key (ledger_entries d) \<and>
     unique_key ob_id (outbox_messages d) \<and> unique_by ob_idempotency_key (outbox_messages d) \<and>
     unique_key wh_id (webhook_events d) \<and> unique_key provider_event_id (webhook_events d) \<and>
     unique_key inv_id (invoices d) \<and> unique_key inv_idempotency_key (invoices d) \<and>
     unique_key camp_id (dunning_campaigns d) \<and>
     unique_key camp_idempotency_key (dunning_campaigns d) \<and>
     unique_by active_subscription (dunning_campaigns d) \<and>
     unique_key att_id (dunning_attempts d)"

definition references_ok :: "database \<Rightarrow> bool" where
  "references_ok d \<longleftrightarrow>
     (\<forall>r \<in> set (subscriptions d). sub_organization_id r \<in> org_id ` set (organizations d) \<and>
        sub_plan_id r \<in> plan_id ` set (plans d)) \<and>
     (\<forall>r \<in> set (ledger_entries d). le_organization_id r \<in> org_id ` set (organizations d) \<and>
        (\<forall>i. le_subscription_id r = Some i \<longrightarrow> i \<in> sub_id ` set (subscriptions d))) \<and>
     (\<forall>r \<in> set (invoices d). inv_organization_id r \<in> org_id ` set (organizations d)) \<and>
     (\<forall>r \<in> set (dunning_campaigns d). camp_subscription_id r \<in> sub_id ` set (subscriptions d) \<and>
        camp_organization_id r \<in> org_id ` set (organizations d)) \<and>
     (\<forall>r \<in> set (dunning_attempts d). att_campaign_id r \<in> camp_id ` set (dunning_campaigns d))"

definition db_ok :: "database \<Rightarrow> bool" where
  "db_ok d \<longleftrightarrow> keys_unique d \<and> references_ok d"

lemmas ok_defs =
  organization_ok_def subscription_ok_def outbox_message_ok_def ledger_entry_ok_def webhook_event_ok_def invoice_ok_def
  line_item_ok_def campaign_ok_def attempt_ok_def

lemmas integrity_defs = db_ok_def keys_unique_def references_ok_def

text \<open>A lookup by a unique key finds the row or nothing.\<close>

lemma keys_uniqueD:
  assumes "db_ok d"
  shows "unique_key org_id (organizations d)" "unique_key plan_id (plans d)"
    "unique_key sub_id (subscriptions d)" "unique_by external_subscription_id (subscriptions d)"
    "unique_by sub_idempotency_key (subscriptions d)"
    "unique_key le_id (ledger_entries d)" "unique_key le_idempotency_key (ledger_entries d)"
    "unique_key ob_id (outbox_messages d)" "unique_by ob_idempotency_key (outbox_messages d)"
    "unique_key wh_id (webhook_events d)" "unique_key provider_event_id (webhook_events d)"
    "unique_key inv_id (invoices d)" "unique_key inv_idempotency_key (invoices d)"
    "unique_key camp_id (dunning_campaigns d)"
    "unique_key camp_idempotency_key (dunning_campaigns d)"
    "unique_by active_subscription (dunning_campaigns d)"
    "unique_key att_id (dunning_attempts d)"
    "unique_by org_external_id (organizations d)" "unique_by org_idempotency_key (organizations d)"
  using assms by (simp_all add: integrity_defs)

lemma unique_key_filter:
  assumes "unique_key key rows" "r \<in> set rows"
  shows "filter (\<lambda>q. key q = key r) rows = [r]"
  using unique_by_lookup [OF assms(1,2), of "key r"] by simp

lemma unique_key_filter_cases:
  assumes "unique_key key rows"
  obtains "filter (\<lambda>q. key q = k) rows = []" | r where "r \<in> set rows" "key r = k"
    "filter (\<lambda>q. key q = k) rows = [r]"
proof (cases "filter (\<lambda>q. key q = k) rows")
  case Nil
  then show ?thesis using that(1) by simp
next
  case (Cons r rs)
  then have "r \<in> set (filter (\<lambda>q. key q = k) rows)" by simp
  then have "r \<in> set rows" "key r = k" by auto
  then show ?thesis using that(2) [of r] unique_key_filter [OF assms, of r] by simp
qed

section \<open>Identifiers still to be drawn\<close>

text \<open>
  A constraint violation by a random identifier is possible, only unlikely. Where a theorem says
  that an operation succeeds, it assumes of the next \<open>k\<close> draws that they differ from each other and
  from the identifiers in use, whatever the clock reads when they are made.
\<close>

definition uuid_draw :: "session \<Rightarrow> nat \<Rightarrow> nat \<Rightarrow> uuid" where
  "uuid_draw s c n = generate_uuidv7 (clock s c div 1000) (rnd s n mod 2 ^ 12) (rnd s (Suc n) mod 2 ^ 62)"

definition used_ids :: "database \<Rightarrow> uuid set" where
  "used_ids d =
     org_public_id ` set (organizations d) \<union> key_id ` set (api_keys d) \<union> prod_id ` set (products d) \<union>
     plan_id ` set (plans d) \<union> price_id ` set (prices d) \<union> feat_id ` set (features d) \<union>
     pf_id ` set (plan_features d) \<union> sub_public_id ` set (subscriptions d) \<union>
     wh_id ` set (webhook_events d) \<union> le_public_id ` set (ledger_entries d) \<union>
     run_id ` set (reconciliation_runs d) \<union> disc_id ` set (reconciliation_discrepancies d) \<union>
     ue_public_id ` set (usage_events d) \<union> ua_public_id ` set (usage_aggregates d) \<union>
     inv_public_id ` set (invoices d) \<union> li_id ` set (invoice_line_items d) \<union>
     camp_id ` set (dunning_campaigns d) \<union> att_id ` set (dunning_attempts d)"

definition fresh_ids :: "nat \<Rightarrow> session \<Rightarrow> bool" where
  "fresh_ids k s \<longleftrightarrow>
     (\<forall>j < k. \<forall>c. uuid_draw s c (rnd_pos s + 2 * j) \<notin> used_ids (db s)) \<and>
     (\<forall>j < k. \<forall>j' < k. j \<noteq> j' \<longrightarrow>
        (\<forall>c c'. uuid_draw s c (rnd_pos s + 2 * j) \<noteq> uuid_draw s c' (rnd_pos s + 2 * j')))"

lemma upcoming_uuid_draw: "upcoming_uuid s = uuid_draw s (clock_pos s) (rnd_pos s)"
  by (simp add: upcoming_uuid_def uuid_draw_def)

lemma fresh_idsD: "fresh_ids (Suc k) s \<Longrightarrow> upcoming_uuid s \<notin> used_ids (db s)"
  unfolding fresh_ids_def upcoming_uuid_draw by (metis add.right_neutral mult_0_right zero_less_Suc)

lemma fresh_ids_le: "fresh_ids k s \<Longrightarrow> j \<le> k \<Longrightarrow> fresh_ids j s"
  by (auto simp: fresh_ids_def)

lemma fresh_ids_same:
  assumes "fresh_ids k s" "clock t = clock s" "rnd t = rnd s" "rnd_pos t = rnd_pos s"
    and "used_ids (db t) \<subseteq> used_ids (db s)"
  shows "fresh_ids k t"
proof -
  have "uuid_draw t = uuid_draw s" using assms by (intro ext) (simp add: uuid_draw_def)
  with assms show ?thesis by (auto simp: fresh_ids_def)
qed

lemma fresh_ids_drawn:
  assumes "fresh_ids (Suc k) s" "clock t = clock s" "rnd t = rnd s" "rnd_pos t = rnd_pos s + 2"
    and "used_ids (db t) \<subseteq> insert (uuid_draw s c (rnd_pos s)) (used_ids (db s))"
  shows "fresh_ids k t"
proof -
  have u: "uuid_draw t = uuid_draw s" using assms by (intro ext) (simp add: uuid_draw_def)
  have p: "rnd_pos t + 2 * j = rnd_pos s + 2 * Suc j" for j using assms(4) by simp
  have "uuid_draw s c' (rnd_pos s + 2 * Suc j) \<noteq> uuid_draw s c (rnd_pos s)" if "j < k" for j c'
    using assms(1) that unfolding fresh_ids_def
    by (metis Suc_mono add.right_neutral mult_0_right nat.distinct(1) zero_less_Suc)
  moreover have "uuid_draw s c' (rnd_pos s + 2 * Suc j) \<notin> used_ids (db s)" if "j < k" for j c'
    using assms(1) that unfolding fresh_ids_def by (meson Suc_mono)
  ultimately have "uuid_draw t c' (rnd_pos t + 2 * j) \<notin> used_ids (db t)" if "j < k" for j c'
    using that assms(5) unfolding u p by blast
  moreover have "uuid_draw t c1 (rnd_pos t + 2 * j) \<noteq> uuid_draw t c2 (rnd_pos t + 2 * j')"
    if "j < k" "j' < k" "j \<noteq> j'" for j j' c1 c2
    using assms(1) that unfolding fresh_ids_def u p by (metis Suc_mono nat.inject)
  ultimately show ?thesis by (simp add: fresh_ids_def)
qed

section \<open>Write footprints\<close>

text \<open>
  For a preorder \<open>D\<close> on databases, an operation of the session keeps \<open>D\<close> if every write it makes
  does. A component states the writes it makes as the assumptions of a locale that extends this
  one and proves there, once, that its operations keep \<open>D\<close>; append-only tables, preserved
  integrity and untouched tables are all instances.
\<close>

locale db_preorder =
  fixes D :: "database \<Rightarrow> database \<Rightarrow> bool"
  assumes db_refl: "D d d"
    and db_trans: "D d e \<Longrightarrow> D e f \<Longrightarrow> D d f"
begin

lemma step_preorder_db: "step_preorder (\<lambda>s t. committed t = committed s \<and> D (db s) (db t))"
  by unfold_locales (auto intro: db_refl db_trans)

lemma step_preorder_tx:
  "step_preorder (\<lambda>s t. D (committed s) (db s) \<longrightarrow>
     D (committed s) (committed t) \<and> D (committed t) (db t))"
  by unfold_locales (auto intro: db_refl db_trans)

end

sublocale db_preorder \<subseteq> step: step_preorder "\<lambda>s t. committed t = committed s \<and> D (db s) (db t)"
  by (rule step_preorder_db)

sublocale db_preorder \<subseteq> tx: step_preorder
  "\<lambda>s t. D (committed s) (db s) \<longrightarrow> D (committed s) (committed t) \<and> D (committed t) (db t)"
  by (rule step_preorder_tx)

text \<open>
  \<open>keeps_db D m\<close>: \<open>m\<close> works inside one transaction and takes its rows to \<open>D\<close>-later ones.
  \<open>keeps_tx D m\<close>: \<open>m\<close> may also roll back and commit; as long as the running transaction is
  \<open>D\<close>-later than the committed rows, what \<open>m\<close> commits is \<open>D\<close>-later than what was committed.
\<close>

abbreviation keeps_db :: "(database \<Rightarrow> database \<Rightarrow> bool) \<Rightarrow> 'a op \<Rightarrow> bool" where
  "keeps_db D \<equiv> keeps (\<lambda>s t. committed t = committed s \<and> D (db s) (db t))"

abbreviation keeps_tx :: "(database \<Rightarrow> database \<Rightarrow> bool) \<Rightarrow> 'a op \<Rightarrow> bool" where
  "keeps_tx D \<equiv> keeps (\<lambda>s t. D (committed s) (db s) \<longrightarrow>
     D (committed s) (committed t) \<and> D (committed t) (db t))"

lemma keeps_dbD: "keeps_db D m \<Longrightarrow> m s = (r, t) \<Longrightarrow> D (db s) (db t)"
  by (drule (1) keepsD) simp

lemma keeps_db_committed: "keeps_db D m \<Longrightarrow> m s = (r, t) \<Longrightarrow> committed t = committed s"
  by (drule (1) keepsD) simp

context db_preorder
begin

lemma query: "keeps_db D (query f)"
  by (simp add: keeps_def query_def db_refl)

lemma flush: "keeps_db D flush"
  unfolding flush_def by (rule query)

lemma now_utc: "keeps_db D now_utc"
  by (simp add: keeps_def db_refl)

lemma new_uuid: "keeps_db D new_uuid"
  by (simp add: keeps_def db_refl)

lemma next_id: "keeps_db D (next_id q)"
  by (simp add: keeps_def db_refl)

lemma emit_metric: "keeps_db D (emit_metric m)"
  by (simp add: keeps_def db_refl)

lemma insert_checked: "(\<And>d. ok d \<Longrightarrow> D d (ins d)) \<Longrightarrow> keeps_db D (insert_checked ok ins)"
  by (simp add: keeps_def insert_checked_def db_refl)

lemma insert_or_ignore:
  "(\<And>d. \<not> conflict d \<Longrightarrow> ok d \<Longrightarrow> D d (ins d)) \<Longrightarrow> keeps_db D (insert_or_ignore conflict ok ins)"
  by (simp add: keeps_def insert_or_ignore_def db_refl)

lemma update_db: "(\<And>d. D d (f d)) \<Longrightarrow> keeps_db D (update_db f)"
  by (simp add: keeps_def)

lemma begin_nested: "keeps_db D m \<Longrightarrow> keeps_db D (begin_nested m)"
  by (auto simp: begin_nested_def db_refl dest: keepsD intro!: keepsI split: prod.splits sum.splits)

lemmas primitives =
  step.combinators query flush now_utc new_uuid next_id emit_metric insert_checked
  insert_or_ignore update_db begin_nested

lemma rollback: "keeps_tx D rollback"
  by (simp add: keeps_def db_refl)

lemma commit: "keeps_tx D commit"
  by (simp add: keeps_def commit_def db_refl)

lemma in_transaction: "keeps_db D m \<Longrightarrow> keeps_tx D m"
  unfolding keeps_def by (metis db_refl db_trans)

lemmas transactions = tx.combinators rollback commit

end

section \<open>The transaction stays usable\<close>

text \<open>An operation that returns normally has not left the transaction failed.\<close>

definition usable :: "'a op \<Rightarrow> bool" where
  "usable m \<longleftrightarrow> (\<forall>s x t. m s = (Inr x, t) \<longrightarrow> \<not> tx_failed s \<longrightarrow> \<not> tx_failed t)"

lemma usableD: "usable m \<Longrightarrow> m s = (Inr x, t) \<Longrightarrow> \<not> tx_failed s \<Longrightarrow> \<not> tx_failed t"
  by (auto simp: usable_def)

lemma usable_bindE: "usable m \<Longrightarrow> (\<And>x. usable (f x)) \<Longrightarrow> usable (bindE m f)"
  unfolding usable_def by (blast elim: bindE_InrE)

lemma usable_thenE: "usable m \<Longrightarrow> usable n \<Longrightarrow> usable (thenE m n)"
  unfolding thenE_def by (rule usable_bindE)

lemma usable_foldE: "(\<And>x acc. usable (f x acc)) \<Longrightarrow> usable (foldE f xs acc)"
  by (induction xs arbitrary: acc) (auto simp: usable_def elim!: bindE_InrE)

lemma usable_begin_nested: "usable m \<Longrightarrow> usable (begin_nested m)"
  by (auto simp: usable_def begin_nested_def split: prod.splits sum.splits)

lemma usable_combinators:
  "usable (returnE x)" "usable (raiseE c msg)" "usable (reraiseE e)" "usable (getE g)"
  "usable (liftE r)" "usable (query q)" "usable flush" "usable now_utc" "usable new_uuid"
  "usable (next_id sq)" "usable (emit_metric me)" "usable (insert_checked ok ins)"
  "usable (insert_or_ignore cf ok ins)" "usable (update_db u)" "usable rollback"
  by (auto simp: usable_def query_def flush_def insert_checked_def insert_or_ignore_def
      split: if_splits)

lemma usable_scalar: "usable (scalar_one_or_none rows)" "usable (scalar_one rows')"
  by (auto simp: usable_def dest: scalar_one_or_none_InrD scalar_one_InrD)

lemma usable_if: "(b \<Longrightarrow> usable m) \<Longrightarrow> (\<not> b \<Longrightarrow> usable n) \<Longrightarrow> usable (if b then m else n)"
  by simp

lemma usable_option:
  "usable m \<Longrightarrow> (\<And>x. usable (f x)) \<Longrightarrow> usable (case v of None \<Rightarrow> m | Some x \<Rightarrow> f x)"
  by (simp split: option.split)

lemma usable_prod: "(\<And>x y. usable (f x y)) \<Longrightarrow> usable (case v of (x, y) \<Rightarrow> f x y)"
  by (simp split: prod.split)

lemma usable_let: "usable (f v) \<Longrightarrow> usable (let x = v in f x)"
  by simp

lemma usable_whenE: "usable m \<Longrightarrow> usable (whenE b m)"
  by (simp add: usable_def)

lemmas usable_intros =
  usable_bindE usable_thenE usable_foldE usable_begin_nested usable_combinators usable_scalar
  usable_if usable_option usable_prod usable_let usable_whenE

end
