(* ===== verification/Lifecycle.thy ===== *)
theory Lifecycle
  imports Store
begin

text \<open>
  The subscription state machine (\<^verbatim>\<open>domain/state_machines/subscription.py\<close>) and the one way the
  services move a subscription through it: read the current status of the row, check the
  transition, write the new status together with the columns that belong to it.
\<close>

section \<open>Transitions\<close>

fun ALLOWED_TRANSITIONS :: "subscription_status \<Rightarrow> subscription_status list" where
  "ALLOWED_TRANSITIONS incomplete = [active, canceled]"
| "ALLOWED_TRANSITIONS trialing = [active, canceled]"
| "ALLOWED_TRANSITIONS active = [canceled, past_due]"
| "ALLOWED_TRANSITIONS past_due = [active, unpaid, canceled]"
| "ALLOWED_TRANSITIONS canceled = []"
| "ALLOWED_TRANSITIONS unpaid = []"

definition illegal_transition_msg :: "subscription_status \<Rightarrow> subscription_status \<Rightarrow> string" where
  "illegal_transition_msg current new =
     ''illegal transition: '' @ subscription_status_value current @ '' -> ''
       @ subscription_status_value new"

definition transition ::
  "subscription_status \<Rightarrow> subscription_status \<Rightarrow> py_error + subscription_status" where
  "transition current new =
     (if \<not> List.member (ALLOWED_TRANSITIONS current) new
      then Inl (Exc IllegalTransition (illegal_transition_msg current new))
      else Inr new)"

inductive lifecycle_step :: "subscription_status \<Rightarrow> subscription_status \<Rightarrow> bool" where
  legal: "transition s t = Inr t \<Longrightarrow> lifecycle_step s t"

inductive_simps lifecycle_step_simp: "lifecycle_step s t"

abbreviation lifecycle :: "subscription_status \<Rightarrow> subscription_status \<Rightarrow> bool" where
  "lifecycle \<equiv> lifecycle_step\<^sup>*\<^sup>*"

lemma transition_Inr [simp]: "transition s t = Inr u \<longleftrightarrow> t \<in> set (ALLOWED_TRANSITIONS s) \<and> u = t"
  by (auto simp: transition_def)

lemma transition_Inl:
  "transition s t = Inl e \<longleftrightarrow>
     t \<notin> set (ALLOWED_TRANSITIONS s) \<and> e = Exc IllegalTransition (illegal_transition_msg s t)"
  by (auto simp: transition_def)

lemma lifecycle_step_iff: "lifecycle_step s t \<longleftrightarrow> t \<in> set (ALLOWED_TRANSITIONS s)"
  by (simp add: lifecycle_step_simp)

lemma no_reentry:
  assumes "lifecycle_step s t"
  shows "t \<noteq> trialing \<and> t \<noteq> incomplete \<and> t \<noteq> s \<and> s \<noteq> canceled \<and> s \<noteq> unpaid"
  using assms unfolding lifecycle_step_iff by (cases s) auto

lemma terminal_stays: "lifecycle s t \<Longrightarrow> s = canceled \<or> s = unpaid \<Longrightarrow> t = s"
  by (induction rule: rtranclp_induct) (auto dest: no_reentry)

lemma initial_not_reentered: "lifecycle s t \<Longrightarrow> t = trialing \<or> t = incomplete \<Longrightarrow> s = t"
  by (induction rule: rtranclp_induct) (auto dest: no_reentry)

lemma unpaid_from_past_due:
  assumes "lifecycle s unpaid" "s \<noteq> unpaid"
  shows "lifecycle s past_due"
proof -
  from assms obtain y where y: "lifecycle s y" "lifecycle_step y unpaid"
    by (auto elim: rtranclp.cases)
  then have "y = past_due" unfolding lifecycle_step_iff by (cases y) auto
  with y(1) show ?thesis by simp
qed

section \<open>Moving a row\<close>

text \<open>
  The mapped object \<^verbatim>\<open>subscription\<close> is its primary key; reading an attribute reads the row.
\<close>

definition load_subscription :: "int \<Rightarrow> subscription op" where
  "load_subscription i =
     bindE (query (\<lambda>d. filter (\<lambda>r. sub_id r = i) (subscriptions d))) scalar_one"

text \<open>
  \<^verbatim>\<open>subscription.status = transition(SubscriptionStatus(subscription.status), new).value\<close> and
  the assignments that follow it (\<open>f\<close>), up to the flush.
\<close>

definition legal_move ::
  "subscription_status \<Rightarrow> (subscription \<Rightarrow> subscription) \<Rightarrow> subscription \<Rightarrow> subscription" where
  "legal_move new f r =
     (if transition (sub_status r) new = Inr new then (f r)\<lparr>sub_status := new\<rparr> else r)"

definition move_subscription ::
  "int \<Rightarrow> subscription_status \<Rightarrow> (subscription \<Rightarrow> subscription) \<Rightarrow> unit op" where
  "move_subscription i new f =
     bindE (load_subscription i) (\<lambda>r.
     bindE (liftE (transition (sub_status r) new)) (\<lambda>_.
     bindE (getE tx_now) (\<lambda>t.
     thenE (update_db (upd_subscription i t (legal_move new f))) flush)))"

text \<open>Assignments that leave the status alone.\<close>

definition set_subscription :: "int \<Rightarrow> (subscription \<Rightarrow> subscription) \<Rightarrow> unit op" where
  "set_subscription i f =
     bindE (getE tx_now) (\<lambda>t. thenE (update_db (upd_subscription i t f)) flush)"

lemma load_subscription_run:
  assumes "\<not> tx_failed s" "db_ok (db s)" "r \<in> set (subscriptions (db s))"
  shows "load_subscription (sub_id r) s = (Inr r, s)"
  using assms unique_key_filter [OF keys_uniqueD(3) [OF assms(2)] assms(3)]
  by (simp add: load_subscription_def)

lemma load_subscription_InrD:
  assumes "load_subscription i s = (Inr r, t)"
  shows "t = s \<and> r \<in> set (subscriptions (db s)) \<and> sub_id r = i \<and> \<not> tx_failed s \<and>
         filter (\<lambda>r. sub_id r = i) (subscriptions (db s)) = [r]"
proof -
  from assms have f: "filter (\<lambda>r. sub_id r = i) (subscriptions (db s)) = [r]"
    and "t = s" "\<not> tx_failed s"
    unfolding load_subscription_def
    by (auto elim!: bindE_InrE dest!: query_InrD scalar_one_InrD)
  then show ?thesis using filter_singletonD [OF f] by simp
qed

lemma move_subscription_run:
  assumes "\<not> tx_failed s" "db_ok (db s)" "r \<in> set (subscriptions (db s))"
    and "new \<in> set (ALLOWED_TRANSITIONS (sub_status r))"
  shows "move_subscription (sub_id r) new f s =
           (Inr (), s\<lparr>db := upd_subscription (sub_id r) (tx_now s) (legal_move new f) (db s)\<rparr>)"
proof -
  have "transition (sub_status r) new = Inr new" using assms(4) by simp
  then show ?thesis
    using assms load_subscription_run [OF assms(1-3)]
    by (simp add: move_subscription_def)
qed

lemma move_subscription_illegal:
  assumes "\<not> tx_failed s" "db_ok (db s)" "r \<in> set (subscriptions (db s))"
    and "new \<notin> set (ALLOWED_TRANSITIONS (sub_status r))"
  shows "move_subscription (sub_id r) new f s =
           (Inl (Exc IllegalTransition (illegal_transition_msg (sub_status r) new)), s)"
proof -
  have "transition (sub_status r) new =
      Inl (Exc IllegalTransition (illegal_transition_msg (sub_status r) new))"
    using assms(4) by (simp add: transition_Inl)
  then show ?thesis
    using load_subscription_run [OF assms(1-3)] by (simp add: move_subscription_def)
qed

section \<open>Write footprint\<close>

text \<open>The columns that identify a subscription row.\<close>

definition same_identity :: "subscription \<Rightarrow> subscription \<Rightarrow> bool" where
  "same_identity r q \<longleftrightarrow> sub_id q = sub_id r \<and> sub_public_id q = sub_public_id r \<and>
     sub_organization_id q = sub_organization_id r \<and>
     external_subscription_id q = external_subscription_id r \<and>
     sub_idempotency_key q = sub_idempotency_key r"

definition subscription_update :: "(subscription \<Rightarrow> subscription) \<Rightarrow> bool" where
  "subscription_update f \<longleftrightarrow> (\<forall>r. same_identity r (f r) \<and> sub_plan_id (f r) = sub_plan_id r)"

text \<open>
  A client of the state machine changes subscription rows in two ways: along a legal transition,
  or without touching the status. \<open>subscription_move\<close> is the law for the first, \<open>subscription_set\<close>
  for the second.
\<close>

locale subscription_client = db_preorder +
  assumes subscription_move:
    "subscription_update f \<Longrightarrow> D d (upd_subscription i t (legal_move new f) d)"
  and subscription_set:
    "subscription_update f \<Longrightarrow> (\<And>r. sub_status (f r) = sub_status r) \<Longrightarrow>
     D d (upd_subscription i t f d)"
begin

lemma load_subscription: "keeps_db D (load_subscription i)"
  unfolding load_subscription_def by (intro primitives)

lemma move_subscription:
  assumes "subscription_update f"
  shows "keeps_db D (move_subscription i new f)"
  unfolding move_subscription_def
  by (intro primitives load_subscription subscription_move assms)

lemma set_subscription:
  assumes "subscription_update f" "\<And>r. sub_status (f r) = sub_status r"
  shows "keeps_db D (set_subscription i f)"
  unfolding set_subscription_def
  by (intro primitives subscription_set assms)

end

end
