(* ===== verification/Outbox.thy ===== *)
theory Outbox
  imports Lifecycle
begin

text \<open>
  The transactional outbox (\<^verbatim>\<open>services/outbox.py\<close>, \<^verbatim>\<open>services/outbox_hooks.py\<close>): domain facts are
  rows inserted in the transaction of the change they report, at most one per idempotency key, and
  their payload carries no internal identifier.
\<close>

definition FORBIDDEN_PAYLOAD_KEYS :: "string list" where
  "FORBIDDEN_PAYLOAD_KEYS = [''organization_id'', ''subscription_id'']"

definition sanitize_payload :: "json_object \<Rightarrow> json_object" where
  "sanitize_payload payload = filter (\<lambda>(k, v). k \<notin> set FORBIDDEN_PAYLOAD_KEYS) payload"

text \<open>\<^verbatim>\<open>OutboxService.enqueue\<close>: the id of the new row, or 0 when the key is taken.\<close>

definition enqueue ::
  "string \<Rightarrow> string \<Rightarrow> string \<Rightarrow> int \<Rightarrow> string \<Rightarrow> json_object \<Rightarrow> string \<Rightarrow> int op" where
  "enqueue event_type aggregate_type aggregate_id organization_id partition_key payload key =
     bindE (next_id OUTBOX_MESSAGES) (\<lambda>i.
     bindE (getE tx_now) (\<lambda>t.
     let row = \<lparr>ob_id = i, ob_aggregate_type = aggregate_type, ob_aggregate_id = aggregate_id,
                ob_event_type = event_type, ob_payload = sanitize_payload payload,
                ob_idempotency_key = Some key, ob_partition_key = partition_key,
                ob_created_at = t, ob_published_at = None, publish_attempts = 0,
                ob_last_error = None\<rparr>
     in bindE (insert_or_ignore (outbox_key_taken key) (outbox_message_ok row) (add_outbox row))
          (\<lambda>inserted. returnE (if inserted then i else 0))))"

definition organization_id_from_partition_key :: "string \<Rightarrow> int" where
  "organization_id_from_partition_key partition_key =
     (case py_int partition_key of None \<Rightarrow> 0 | Some i \<Rightarrow> i)"

definition enqueue_outbox ::
  "string \<Rightarrow> string \<Rightarrow> string \<Rightarrow> json_object \<Rightarrow> string \<Rightarrow> string \<Rightarrow> unit op" where
  "enqueue_outbox aggregate_type aggregate_id event_type payload key partition_key =
     thenE (enqueue event_type aggregate_type aggregate_id
              (organization_id_from_partition_key partition_key) partition_key payload key)
       (returnE ())"

section \<open>Payloads\<close>

lemma sanitize_payload_keys:
  "set (map fst (sanitize_payload p)) = set (map fst p) - {''organization_id'', ''subscription_id''}"
  by (force simp: sanitize_payload_def FORBIDDEN_PAYLOAD_KEYS_def)

lemma map_of_sanitize_payload:
  "map_of (sanitize_payload p) k =
     (if k \<in> {''organization_id'', ''subscription_id''} then None else map_of p k)"
  by (induction p) (auto simp: sanitize_payload_def FORBIDDEN_PAYLOAD_KEYS_def)

lemma sanitize_payload_idem [simp]: "sanitize_payload (sanitize_payload p) = sanitize_payload p"
  by (simp add: sanitize_payload_def)

section \<open>Enqueueing\<close>

text \<open>The session after a call: the sequence has advanced, and the row may have been added.\<close>

definition sequence_ahead :: "session \<Rightarrow> bool" where
  "sequence_ahead s \<longleftrightarrow>
     (\<forall>m \<in> set (outbox_messages (db s)). ob_id m < seqs s OUTBOX_MESSAGES) \<and>
     (\<forall>e \<in> set (ledger_entries (db s)). le_id e < seqs s LEDGER_ENTRIES) \<and>
     (\<forall>r \<in> set (subscriptions (db s)). sub_id r < seqs s SUBSCRIPTIONS) \<and>
     (\<forall>r \<in> set (organizations (db s)). org_id r < seqs s ORGANIZATIONS) \<and>
     (\<forall>r \<in> set (invoices (db s)). inv_id r < seqs s INVOICES)"

definition new_message ::
  "session \<Rightarrow> string \<Rightarrow> string \<Rightarrow> string \<Rightarrow> json_object \<Rightarrow> string \<Rightarrow> string \<Rightarrow> outbox_message" where
  "new_message s aggregate_type aggregate_id event_type payload key partition_key =
     \<lparr>ob_id = seqs s OUTBOX_MESSAGES, ob_aggregate_type = aggregate_type,
      ob_aggregate_id = aggregate_id, ob_event_type = event_type,
      ob_payload = sanitize_payload payload, ob_idempotency_key = Some key,
      ob_partition_key = partition_key, ob_created_at = tx_now s, ob_published_at = None,
      publish_attempts = 0, ob_last_error = None\<rparr>"

definition bump_outbox_seq :: "session \<Rightarrow> session" where
  "bump_outbox_seq s = s\<lparr>seqs := (seqs s)(OUTBOX_MESSAGES := seqs s OUTBOX_MESSAGES + 1)\<rparr>"

lemma bump_outbox_seq_simps [simp]:
  "db (bump_outbox_seq s) = db s" "tx_failed (bump_outbox_seq s) = tx_failed s"
  "committed (bump_outbox_seq s) = committed s" "tx_now (bump_outbox_seq s) = tx_now s"
  "settings (bump_outbox_seq s) = settings s" "driver_msg (bump_outbox_seq s) = driver_msg s"
  "clock (bump_outbox_seq s) = clock s" "clock_pos (bump_outbox_seq s) = clock_pos s"
  "rnd (bump_outbox_seq s) = rnd s" "rnd_pos (bump_outbox_seq s) = rnd_pos s"
  "metrics (bump_outbox_seq s) = metrics s"
  by (simp_all add: bump_outbox_seq_def)

lemma enqueue_outbox_taken:
  assumes "\<not> tx_failed s" "outbox_key_taken key (db s)"
  shows "enqueue_outbox at ai et p key pk s = (Inr (), bump_outbox_seq s)"
  using assms by (simp add: enqueue_outbox_def enqueue_def bump_outbox_seq_def Let_def)

lemma fresh_sequence_ids:
  assumes "sequence_ahead s"
  shows "ob_id m = seqs s OUTBOX_MESSAGES \<Longrightarrow> fresh ob_id m (outbox_messages (db s))"
    and "le_id e = seqs s LEDGER_ENTRIES \<Longrightarrow> fresh le_id e (ledger_entries (db s))"
    and "sub_id r = seqs s SUBSCRIPTIONS \<Longrightarrow> fresh sub_id r (subscriptions (db s))"
    and "org_id g = seqs s ORGANIZATIONS \<Longrightarrow> fresh org_id g (organizations (db s))"
    and "inv_id v = seqs s INVOICES \<Longrightarrow> fresh inv_id v (invoices (db s))"
  using assms by (fastforce simp: fresh_iff sequence_ahead_def)+

lemma enqueue_outbox_new:
  assumes "\<not> tx_failed s" "\<not> outbox_key_taken key (db s)" "sequence_ahead s"
  shows "enqueue_outbox at ai et p key pk s =
           (Inr (), (bump_outbox_seq s)\<lparr>db := add_outbox (new_message s at ai et p key pk) (db s)\<rparr>)"
proof -
  let ?m = "new_message s at ai et p key pk"
  have "outbox_message_ok ?m (db s)"
    using fresh_sequence_ids(1) [OF assms(3), of ?m]
    by (simp add: outbox_message_ok_def new_message_def)
  with assms(1,2) show ?thesis
    by (simp add: enqueue_outbox_def enqueue_def bump_outbox_seq_def new_message_def Let_def)
qed

lemma outbox_key_taken_add [simp]:
  "outbox_key_taken k (add_outbox m d) \<longleftrightarrow> ob_idempotency_key m = Some k \<or> outbox_key_taken k d"
  by (auto simp: outbox_key_taken_def add_outbox_def refers_iff)

lemma sequence_ahead_bump [simp]: "sequence_ahead s \<Longrightarrow> sequence_ahead (bump_outbox_seq s)"
  by (fastforce simp: sequence_ahead_def bump_outbox_seq_def)

lemma enqueue_outbox_cases:
  assumes "\<not> tx_failed s" "sequence_ahead s"
  obtains "outbox_key_taken key (db s)" "enqueue_outbox at ai et p key pk s = (Inr (), bump_outbox_seq s)"
  | "\<not> outbox_key_taken key (db s)" "enqueue_outbox at ai et p key pk s =
       (Inr (), (bump_outbox_seq s)\<lparr>db := add_outbox (new_message s at ai et p key pk) (db s)\<rparr>)"
  using assms enqueue_outbox_taken enqueue_outbox_new by blast

section \<open>Write footprint\<close>

text \<open>
  A client of the outbox only appends unpublished rows with a sanitized payload and a key that no
  row has.
\<close>

definition pending_message :: "outbox_message \<Rightarrow> bool" where
  "pending_message m \<longleftrightarrow> ob_published_at m = None \<and> publish_attempts m = 0 \<and>
     ob_payload m = sanitize_payload (ob_payload m) \<and> ob_idempotency_key m \<noteq> None"

locale outbox_client = db_preorder +
  assumes outbox_append:
    "pending_message m \<Longrightarrow> outbox_message_ok m d \<Longrightarrow>
     fresh_opt ob_idempotency_key m (outbox_messages d) \<Longrightarrow> D d (add_outbox m d)"
begin

lemma enqueue: "keeps_db D (enqueue et at ai oi pk p key)"
  unfolding enqueue_def
  by (intro primitives outbox_append)
    (auto simp: pending_message_def outbox_key_taken_def refers_def list_ex_iff fresh_opt_iff)

lemma enqueue_outbox: "keeps_db D (enqueue_outbox at ai et p key pk)"
  unfolding enqueue_outbox_def by (intro primitives enqueue)

end

text \<open>Enqueueing touches no other table and keeps the database intact.\<close>

definition outbox_only :: "database \<Rightarrow> database \<Rightarrow> bool" where
  "outbox_only d e \<longleftrightarrow> e\<lparr>outbox_messages := []\<rparr> = d\<lparr>outbox_messages := []\<rparr> \<and>
     prefix (outbox_messages d) (outbox_messages e)"

lemma outbox_onlyD:
  assumes "outbox_only d e"
  shows "ledger_entries e = ledger_entries d" "subscriptions e = subscriptions d"
    "organizations e = organizations d" "webhook_events e = webhook_events d"
    "plans e = plans d" "invoices e = invoices d" "dunning_campaigns e = dunning_campaigns d"
    "dunning_attempts e = dunning_attempts d" "set (outbox_messages d) \<subseteq> set (outbox_messages e)"
proof -
  from assms have e: "e\<lparr>outbox_messages := []\<rparr> = d\<lparr>outbox_messages := []\<rparr>"
    by (simp add: outbox_only_def)
  show "ledger_entries e = ledger_entries d" using arg_cong [OF e, of ledger_entries] by simp
  show "subscriptions e = subscriptions d" using arg_cong [OF e, of subscriptions] by simp
  show "organizations e = organizations d" using arg_cong [OF e, of organizations] by simp
  show "webhook_events e = webhook_events d" using arg_cong [OF e, of webhook_events] by simp
  show "plans e = plans d" using arg_cong [OF e, of plans] by simp
  show "invoices e = invoices d" using arg_cong [OF e, of invoices] by simp
  show "dunning_campaigns e = dunning_campaigns d"
    using arg_cong [OF e, of dunning_campaigns] by simp
  show "dunning_attempts e = dunning_attempts d"
    using arg_cong [OF e, of dunning_attempts] by simp
  show "set (outbox_messages d) \<subseteq> set (outbox_messages e)"
    using assms by (auto simp: outbox_only_def dest: set_mono_prefix)
qed

interpretation outbox_frame: outbox_client outbox_only
proof unfold_locales
  show "outbox_only d d" for d by (simp add: outbox_only_def)
  show "outbox_only d f" if "outbox_only d e" "outbox_only e f" for d e f
    using that unfolding outbox_only_def by (auto intro: prefix_order.trans)
  show "outbox_only d (add_outbox m d)" for d m by (simp add: outbox_only_def add_outbox_def)
qed

definition stays_ok :: "database \<Rightarrow> database \<Rightarrow> bool" where
  "stays_ok d e \<longleftrightarrow> (db_ok d \<longrightarrow> db_ok e)"

lemma db_ok_add_outbox:
  assumes "db_ok d" "outbox_message_ok m d" "fresh_opt ob_idempotency_key m (outbox_messages d)"
  shows "db_ok (add_outbox m d)"
  using assms
  by (simp add: integrity_defs add_outbox_def outbox_message_ok_def unique_key_snoc unique_opt_snoc)

lemma stays_ok_preorder: "stays_ok d d" "stays_ok d e \<Longrightarrow> stays_ok e f \<Longrightarrow> stays_ok d f"
  by (simp_all add: stays_ok_def)

lemma stays_okI: "(db_ok d \<Longrightarrow> db_ok e) \<Longrightarrow> stays_ok d e"
  by (simp add: stays_ok_def)

lemma stays_okD: "stays_ok d e \<Longrightarrow> db_ok d \<Longrightarrow> db_ok e"
  by (simp add: stays_ok_def)

interpretation outbox_integrity: outbox_client stays_ok
  by unfold_locales (blast intro: stays_ok_preorder stays_okI db_ok_add_outbox)+

lemma usable_enqueue_outbox: "usable (enqueue_outbox at ai et p key pk)"
  unfolding enqueue_outbox_def enqueue_def by (intro usable_intros)

end
