(* ===== verification/Sample.thy ===== *)
theory Sample
  imports Outbox
begin

text \<open>
  A small concrete session: one organization with one published plan and one active subscription
  known to the provider as \<^verbatim>\<open>sub_demo_seed_001\<close>. The witnesses of the component theories start
  from it.
\<close>

definition sample_org :: organization where
  "sample_org =
     \<lparr>org_id = 1, org_public_id = 101, org_external_id = Some ''acme'',
      org_idempotency_key = Some ''seed-org'', org_name = ''Acme'', org_billing_email = None,
      org_metadata = [], org_created_at = 0, org_updated_at = 0, org_deleted_at = None\<rparr>"

definition sample_plan :: plan where
  "sample_plan =
     \<lparr>plan_id = 201, plan_product_id = 200, plan_key = ''pro'', billing_interval = ''month'',
      trial_days = Some 14, grace_period_days = 7, dunning_policy = [], entitlement_policy = [],
      plan_version = 1, published_at = Some 0\<rparr>"

definition sample_sub :: subscription where
  "sample_sub =
     \<lparr>sub_id = 1, sub_public_id = 301, sub_organization_id = 1, sub_plan_id = 201,
      sub_status = active, current_period_start = 0, current_period_end = 30 * day_us,
      cancel_at_period_end = False, canceled_at = None, past_due_entered_at = None,
      trial_end = None, external_subscription_id = Some ''sub_demo_seed_001'',
      sub_idempotency_key = Some ''seed-sub'', sub_metadata = [], sub_created_at = 0,
      sub_updated_at = 0\<rparr>"

definition sample_db :: database where
  "sample_db =
     \<lparr>organizations = [sample_org], api_keys = [], products = [], plans = [sample_plan],
      prices = [], features = [], plan_features = [], subscriptions = [sample_sub],
      webhook_events = [], outbox_messages = [], outbox_dead_letters = [], ledger_entries = [],
      reconciliation_runs = [], reconciliation_discrepancies = [], usage_events = [],
      usage_aggregates = [], invoices = [], invoice_line_items = [], dunning_campaigns = [],
      dunning_attempts = [], usage_partitions = []\<rparr>"

text \<open>Draws and readings are the positions themselves, so every identifier is new.\<close>

definition sample_session :: session where
  "sample_session =
     \<lparr>db = sample_db, committed = sample_db, tx_failed = False, seqs = (\<lambda>_. 10), tx_now = 5 * day_us,
      clock = (\<lambda>n. 5 * day_us + int n), clock_pos = 0, rnd = (\<lambda>n. n), rnd_pos = 0,
      settings = default_settings, driver_msg = ''driver error'', metrics = []\<rparr>"

lemmas sample_defs = sample_org_def sample_plan_def sample_sub_def sample_db_def sample_session_def

lemma sample_tables [simp]:
  "organizations sample_db = [sample_org]" "plans sample_db = [sample_plan]"
  "subscriptions sample_db = [sample_sub]" "ledger_entries sample_db = []"
  "outbox_messages sample_db = []" "webhook_events sample_db = []"
  "dunning_campaigns sample_db = []" "dunning_attempts sample_db = []" "invoices sample_db = []"
  by (simp_all add: sample_db_def)

lemma sample_session_simps [simp]:
  "db sample_session = sample_db" "tx_failed sample_session = False"
  "committed sample_session = sample_db" "seqs sample_session q = 10"
  "settings sample_session = default_settings" "tx_now sample_session = 5 * day_us"
  "clock sample_session n = 5 * day_us + int n"
  "clock_pos sample_session = 0" "rnd sample_session n = n" "rnd_pos sample_session = 0"
  by (simp_all add: sample_session_def)

lemma sample_row_simps [simp]:
  "org_id sample_org = 1" "org_public_id sample_org = 101"
  "plan_id sample_plan = 201" "grace_period_days sample_plan = 7"
  "sub_id sample_sub = 1" "sub_organization_id sample_sub = 1" "sub_plan_id sample_sub = 201"
  "sub_status sample_sub = active" "external_subscription_id sample_sub = Some ''sub_demo_seed_001''"
  "sub_public_id sample_sub = 301"
  by (simp_all add: sample_org_def sample_plan_def sample_sub_def)

lemma sample_ok: "db_ok sample_db"
  by (simp add: integrity_defs unique_by_def List.map_filter_simps sample_org_def sample_sub_def)

lemma sample_sequences: "sequence_ahead sample_session"
  by (simp add: sequence_ahead_def)

lemma version_7_large:
  assumes "ra < 2 ^ 12" "rb < 2 ^ 62"
  shows "2 ^ 62 \<le> uint (generate_uuidv7 ms ra rb)"
proof (rule ccontr)
  assume "\<not> 2 ^ 62 \<le> uint (generate_uuidv7 ms ra rb)"
  then have "uint (generate_uuidv7 ms ra rb) div 2 ^ 62 = 0"
    by (intro div_pos_pos_trivial) simp_all
  with generate_uuidv7_fields(3) [OF assms, of ms] show False by simp
qed

lemma fresh_small_ids:
  assumes "rnd s = (\<lambda>n. n)" "rnd_pos s + 2 * k < 2 ^ 62" "\<forall>u \<in> used_ids (db s). uint u < 2 ^ 62"
  shows "fresh_ids k s"
proof -
  have lt: "n mod 2 ^ 12 < 2 ^ 12" "n mod 2 ^ 62 < 2 ^ 62" for n :: nat by simp_all
  have "uuid_draw s c n \<notin> used_ids (db s)" for c n
    using version_7_large [OF lt(1) [of n] lt(2) [of "Suc n"], of "clock s c div 1000"] assms(1,3)
    by (force simp: uuid_draw_def)
  moreover have "j = j'" if "j < k" "j' < k"
    "uuid_draw s c (rnd_pos s + 2 * j) = uuid_draw s c' (rnd_pos s + 2 * j')" for j j' c c'
  proof -
    let ?n = "Suc (rnd_pos s + 2 * j)" and ?n' = "Suc (rnd_pos s + 2 * j')"
    have "?n mod 2 ^ 62 = ?n' mod 2 ^ 62"
      using that(3) assms(1) unfolding uuid_draw_def by (simp only:) (erule inj_generate_uuidv7, simp_all)
    moreover have "?n < 2 ^ 62" "?n' < 2 ^ 62" using assms(2) that(1,2) by linarith+
    ultimately show ?thesis by simp
  qed
  ultimately show ?thesis by (auto simp: fresh_ids_def)
qed

lemma sample_fresh: "fresh_ids 100 sample_session"
proof (rule fresh_small_ids)
  show "rnd sample_session = (\<lambda>n. n)" by (rule ext) simp
  show "\<forall>u \<in> used_ids (db sample_session). uint u < 2 ^ 62"
    by (simp add: used_ids_def) (simp add: sample_db_def)
qed simp

text \<open>The same session after the subscription has become past due at time 0.\<close>

definition past_due_sub :: subscription where
  "past_due_sub = sample_sub\<lparr>sub_status := past_due, past_due_entered_at := Some 0\<rparr>"

definition past_due_session :: session where
  "past_due_session = sample_session\<lparr>db := sample_db\<lparr>subscriptions := [past_due_sub]\<rparr>\<rparr>"

lemma past_due_session_simps [simp]:
  "db past_due_session = sample_db\<lparr>subscriptions := [past_due_sub]\<rparr>"
  "tx_failed past_due_session = False" "tx_now past_due_session = 5 * day_us"
  "settings past_due_session = default_settings" "clock_pos past_due_session = 0"
  "clock past_due_session n = 5 * day_us + int n"
  by (simp_all add: past_due_session_def)

lemma past_due_sub_simps [simp]:
  "sub_id past_due_sub = 1" "sub_status past_due_sub = past_due" "sub_plan_id past_due_sub = 201"
  "sub_organization_id past_due_sub = 1" "past_due_entered_at past_due_sub = Some 0"
  "cancel_at_period_end past_due_sub = False" "sub_public_id past_due_sub = 301"
  "external_subscription_id past_due_sub = Some ''sub_demo_seed_001''"
  by (simp_all add: past_due_sub_def sample_sub_def)

lemma past_due_ok: "db_ok (sample_db\<lparr>subscriptions := [past_due_sub]\<rparr>)"
  by (simp add: integrity_defs unique_by_def List.map_filter_simps sample_org_def past_due_sub_def sample_sub_def)

lemma past_due_fresh: "fresh_ids 100 past_due_session"
  by (rule fresh_small_ids) (auto simp: used_ids_def past_due_session_def sample_db_def)

lemma past_due_sequences: "sequence_ahead past_due_session"
  by (simp add: sequence_ahead_def past_due_session_def)

end
