(* ===== verification/Ledger.thy ===== *)
theory Ledger
  imports Sample
begin

text \<open>
  The append-only ledger (\<^verbatim>\<open>services/ledger.py\<close>): entries are posted and reversed in the caller's
  transaction, at most one per idempotency key, each with its \<^verbatim>\<open>ledger.entry_posted\<close> outbox row.
\<close>

section \<open>Operations\<close>

definition LEDGER_ENTRY_POSTED_EVENT :: string where
  "LEDGER_ENTRY_POSTED_EVENT = ''ledger.entry_posted''"

definition get_entry :: "int \<Rightarrow> ledger_entry option op" where
  "get_entry i = bindE (query (\<lambda>d. filter (\<lambda>e. le_id e = i) (ledger_entries d))) scalar_one_or_none"

definition get_entry_by_public_id :: "uuid \<Rightarrow> ledger_entry option op" where
  "get_entry_by_public_id u =
     bindE (query (\<lambda>d. filter (\<lambda>e. le_public_id e = u) (ledger_entries d))) scalar_one_or_none"

definition get_entry_by_idempotency_key :: "string \<Rightarrow> ledger_entry option op" where
  "get_entry_by_idempotency_key k =
     bindE (query (\<lambda>d. filter (\<lambda>e. le_idempotency_key e = k) (ledger_entries d)))
       scalar_one_or_none"

text \<open>\<^verbatim>\<open>ORDER BY created_at DESC, id DESC\<close>: the later key is sorted by first.\<close>

definition list_entries_for_organization :: "int \<Rightarrow> nat \<Rightarrow> nat \<Rightarrow> ledger_entry list op" where
  "list_entries_for_organization oi limit offset =
     query (\<lambda>d. page limit offset (order_by_desc le_created_at (order_by_desc le_id
       (filter (\<lambda>e. le_organization_id e = oi) (ledger_entries d)))))"

definition organization_public_id :: "int \<Rightarrow> uuid op" where
  "organization_public_id i =
     bindE (query (\<lambda>d. map org_public_id (filter (\<lambda>r. org_id r = i) (organizations d)))) scalar_one"

definition entry_posted_payload ::
  "ledger_entry \<Rightarrow> uuid \<Rightarrow> uuid option \<Rightarrow> uuid option \<Rightarrow> json_object" where
  "entry_posted_payload entry org_public sub_public rev_public =
     [(''entry_public_id'', JStr (uuid_str (le_public_id entry))),
      (''entry_type'', JStr (ledger_entry_type_value (entry_type entry))),
      (''amount_cents'', JInt (amount_cents entry)),
      (''currency'', JStr (le_currency entry)),
      (''organization_public_id'', JStr (uuid_str org_public)),
      (''correlation_id'', JStr (correlation_id entry))]
     @ (case sub_public of None \<Rightarrow> [] | Some u \<Rightarrow> [(''subscription_public_id'', JStr (uuid_str u))])
     @ (case rev_public of None \<Rightarrow> [] | Some u \<Rightarrow> [(''reverses_entry_public_id'', JStr (uuid_str u))])
     @ (if le_metadata entry = [] then [] else [(''metadata'', JObj (le_metadata entry))])"

definition enqueue_entry_posted :: "ledger_entry \<Rightarrow> string \<Rightarrow> unit op" where
  "enqueue_entry_posted entry key =
     bindE (organization_public_id (le_organization_id entry)) (\<lambda>org_public.
     bindE (case le_subscription_id entry of None \<Rightarrow> returnE None
            | Some i \<Rightarrow> bindE (query (\<lambda>d. map sub_public_id
                (filter (\<lambda>r. sub_id r = i) (subscriptions d)))) scalar_one_or_none) (\<lambda>sub_public.
     bindE (case reverses_entry_id entry of None \<Rightarrow> returnE None
            | Some i \<Rightarrow> bindE (query (\<lambda>d. map le_public_id
                (filter (\<lambda>e. le_id e = i) (ledger_entries d)))) scalar_one_or_none) (\<lambda>rev_public.
     enqueue_outbox ''ledger'' (uuid_str (le_public_id entry)) LEDGER_ENTRY_POSTED_EVENT
       (entry_posted_payload entry org_public sub_public rev_public)
       key (str_int (le_organization_id entry)))))"

text \<open>\<^verbatim>\<open>LedgerService.post\<close>.\<close>

definition post_entry ::
  "int \<Rightarrow> ledger_entry_type \<Rightarrow> int \<Rightarrow> string \<Rightarrow> string \<Rightarrow> string \<Rightarrow> int option \<Rightarrow> int option \<Rightarrow>
   numeric6 option \<Rightarrow> json_object \<Rightarrow> ledger_entry op" where
  "post_entry oi et amount currency key corr si ii qty metadata =
     bindE (get_entry_by_idempotency_key key) (\<lambda>existing.
     case existing of Some e \<Rightarrow> returnE e
     | None \<Rightarrow>
         bindE new_uuid (\<lambda>u.
         bindE (next_id LEDGER_ENTRIES) (\<lambda>i.
         bindE (getE tx_now) (\<lambda>t.
         let entry = \<lparr>le_id = i, le_public_id = u, le_organization_id = oi,
               le_subscription_id = si, le_invoice_id = ii, entry_type = et,
               amount_cents = amount, le_currency = upper currency, le_quantity = qty,
               reverses_entry_id = None, le_idempotency_key = key, correlation_id = corr,
               le_metadata = metadata, le_created_at = t\<rparr>
         in thenE (insert_checked (ledger_entry_ok entry) (add_ledger_entry entry))
           (thenE (enqueue_entry_posted entry (key @ '':ledger.entry_posted''))
           (thenE (emit_metric LedgerEntriesPosted) (returnE entry)))))))"

text \<open>\<^verbatim>\<open>LedgerService.reverse\<close>.\<close>

definition reverse_entry :: "int \<Rightarrow> string \<Rightarrow> string \<Rightarrow> ledger_entry op" where
  "reverse_entry entry_id key corr =
     bindE (get_entry entry_id) (\<lambda>original.
     case original of
       None \<Rightarrow> raiseE LedgerEntryNotFoundError (''ledger entry '' @ str_int entry_id @ '' not found'')
     | Some original \<Rightarrow>
         bindE (get_entry_by_idempotency_key key) (\<lambda>existing.
         case existing of Some e \<Rightarrow> returnE e
         | None \<Rightarrow>
             bindE new_uuid (\<lambda>u.
             bindE (next_id LEDGER_ENTRIES) (\<lambda>i.
             bindE (getE tx_now) (\<lambda>t.
             let entry = \<lparr>le_id = i, le_public_id = u,
                   le_organization_id = le_organization_id original,
                   le_subscription_id = le_subscription_id original,
                   le_invoice_id = le_invoice_id original, entry_type = reversal,
                   amount_cents = - amount_cents original, le_currency = le_currency original,
                   le_quantity = le_quantity original, reverses_entry_id = Some (le_id original),
                   le_idempotency_key = key, correlation_id = corr,
                   le_metadata =
                     [(''reversed_entry_public_id'', JStr (uuid_str (le_public_id original))),
                      (''reversed_entry_type'',
                         JStr (ledger_entry_type_value (entry_type original)))],
                   le_created_at = t\<rparr>
             in thenE (insert_checked (ledger_entry_ok entry) (add_ledger_entry entry))
               (thenE (enqueue_entry_posted entry (key @ '':ledger.entry_posted''))
                 (returnE entry)))))))"

section \<open>Write footprint\<close>

text \<open>Besides outbox rows, a client of the ledger only appends entries that pass the constraints.\<close>

context outbox_client
begin

lemma organization_public_id: "keeps_db D (organization_public_id i)"
  unfolding organization_public_id_def by (intro primitives)

lemma enqueue_entry_posted: "keeps_db D (enqueue_entry_posted e k)"
  unfolding enqueue_entry_posted_def
  by (intro primitives organization_public_id enqueue_outbox)

end

locale ledger_client = outbox_client +
  assumes ledger_append: "ledger_entry_ok e d \<Longrightarrow> D d (add_ledger_entry e d)"
begin

lemma get_entry: "keeps_db D (get_entry i)"
  unfolding get_entry_def by (intro primitives)

lemma get_entry_by_idempotency_key: "keeps_db D (get_entry_by_idempotency_key k)"
  unfolding get_entry_by_idempotency_key_def by (intro primitives)

lemma post_entry: "keeps_db D (post_entry oi et a c k co si ii q md)"
  unfolding post_entry_def
  by (intro primitives get_entry_by_idempotency_key enqueue_entry_posted ledger_append)

lemma reverse_entry: "keeps_db D (reverse_entry i k co)"
  unfolding reverse_entry_def
  by (intro primitives get_entry get_entry_by_idempotency_key enqueue_entry_posted ledger_append)

end

section \<open>Append-only\<close>

definition ledger_extends :: "database \<Rightarrow> database \<Rightarrow> bool" where
  "ledger_extends d e \<longleftrightarrow> prefix (ledger_entries d) (ledger_entries e)"

interpretation ledger_log: ledger_client ledger_extends
  by unfold_locales (auto simp: ledger_extends_def write_defs intro: prefix_order.trans)

section \<open>Evaluation\<close>

lemma get_entry_by_idempotency_key_run:
  assumes "\<not> tx_failed s" "db_ok (db s)"
  shows "get_entry_by_idempotency_key k s =
           (Inr (first_row (filter (\<lambda>e. le_idempotency_key e = k) (ledger_entries (db s)))), s)"
  using assms scalar_one_or_none_unique [OF keys_uniqueD(7) [OF assms(2)], of k]
  by (simp add: get_entry_by_idempotency_key_def)

lemma post_entry_existing:
  assumes "\<not> tx_failed s" "db_ok (db s)" "e \<in> set (ledger_entries (db s))"
    and "le_idempotency_key e = k"
  shows "post_entry oi et a c k co si ii q md s = (Inr e, s)"
  using assms get_entry_by_idempotency_key_run [OF assms(1,2), of k]
    unique_key_filter [OF keys_uniqueD(7) [OF assms(2)] assms(3)]
  by (simp add: post_entry_def)

lemma organization_public_id_run:
  assumes "\<not> tx_failed s" "db_ok (db s)" "g \<in> set (organizations (db s))" "org_id g = i"
  shows "organization_public_id i s = (Inr (org_public_id g), s)"
  using assms unique_key_filter [OF keys_uniqueD(1) [OF assms(2)] assms(3)]
  by (simp add: organization_public_id_def)

section \<open>Integrity\<close>

lemma db_ok_add_ledger_entry:
  assumes "db_ok d" "ledger_entry_ok e d"
  shows "db_ok (add_ledger_entry e d)"
  using assms
  by (simp add: integrity_defs add_ledger_entry_def ledger_entry_ok_def unique_key_snoc refers_iff
      refers_opt_def split: option.splits)

interpretation ledger_integrity: ledger_client stays_ok
  by unfold_locales (blast intro: stays_okI db_ok_add_ledger_entry)

lemma usable_post_entry: "usable (post_entry oi et a c k co si ii q md)"
  unfolding post_entry_def get_entry_by_idempotency_key_def enqueue_entry_posted_def
    organization_public_id_def
  by (intro usable_intros usable_enqueue_outbox)

lemma enqueue_entry_posted_frame:
  "enqueue_entry_posted e k s = (r, t) \<Longrightarrow> outbox_only (db s) (db t)"
  by (rule keeps_dbD [OF outbox_frame.enqueue_entry_posted])

text \<open>What a normal return of \<open>post_entry\<close> says.\<close>

lemma get_entry_by_idempotency_key_InrD:
  assumes "get_entry_by_idempotency_key k s = (Inr x, t)"
  shows "t = s \<and> \<not> tx_failed s \<and>
         x = first_row (filter (\<lambda>e. le_idempotency_key e = k) (ledger_entries (db s)))"
  using assms unfolding get_entry_by_idempotency_key_def
  by (auto elim!: bindE_InrE dest!: query_InrD scalar_one_or_none_InrD)

lemma post_entry_InrD:
  assumes "post_entry oi et a c k co si ii q md s = (Inr e, t)"
  shows "e \<in> set (ledger_entries (db t)) \<and> le_idempotency_key e = k \<and> \<not> tx_failed t"
proof -
  let ?rows = "filter (\<lambda>e. le_idempotency_key e = k) (ledger_entries (db s))"
  have nf: "\<not> tx_failed s"
    using assms unfolding post_entry_def
    by (auto elim!: bindE_InrE dest!: get_entry_by_idempotency_key_InrD)
  show ?thesis
  proof (cases "first_row ?rows")
    case (Some e')
    with assms have "e = e'" "t = s" unfolding post_entry_def
      by (auto elim!: bindE_InrE dest!: get_entry_by_idempotency_key_InrD)
    with Some nf show ?thesis by (auto dest!: first_row_in)
  next
    case None
    with assms have "e \<in> set (ledger_entries (db t)) \<and> le_idempotency_key e = k"
      unfolding post_entry_def
      by (auto elim!: bindE_InrE thenE_InrE simp: Let_def add_ledger_entry_def
          dest!: get_entry_by_idempotency_key_InrD insert_checked_InrD enqueue_entry_posted_frame
            outbox_onlyD(1))
    then show ?thesis using usableD [OF usable_post_entry assms nf] by simp
  qed
qed

text \<open>
  On an intact database a lookup by a unique key never finds two rows, so reporting an entry can
  only fail if its organization does not exist.
\<close>

lemma scalar_map_unique:
  assumes "unique_key key rows"
  shows "\<exists>v. scalar_one_or_none (map g (filter (\<lambda>r. key r = k) rows)) s = (Inr v, s) \<and>
           v = map_option g (first_row (filter (\<lambda>r. key r = k) rows))"
  by (rule unique_key_filter_cases [OF assms, of k]) auto

text \<open>The state after a message with this key has been enqueued.\<close>

definition reported :: "session \<Rightarrow> session \<Rightarrow> outbox_message \<Rightarrow> string \<Rightarrow> bool" where
  "reported s t m key \<longleftrightarrow>
     t = (if outbox_key_taken key (db s) then bump_outbox_seq s
          else (bump_outbox_seq s)\<lparr>db := add_outbox m (db s)\<rparr>)"

lemma reported_simps:
  assumes "reported s t m key"
  shows "tx_failed t = tx_failed s" "committed t = committed s" "settings t = settings s"
    "tx_now t = tx_now s" "clock t = clock s" "clock_pos t = clock_pos s" "metrics t = metrics s"
    "rnd t = rnd s" "rnd_pos t = rnd_pos s" "outbox_only (db s) (db t)"
    "ob_idempotency_key m = Some key \<Longrightarrow> outbox_key_taken key (db t)"
  using assms by (auto simp: reported_def outbox_only_def add_outbox_def outbox_key_taken_def refers_iff)

lemma enqueue_outbox_reported:
  assumes "\<not> tx_failed s" "sequence_ahead s"
  shows "\<exists>t. enqueue_outbox at ai et p key pk s = (Inr (), t) \<and>
           reported s t (new_message s at ai et p key pk) key"
  using enqueue_outbox_cases [OF assms, of key at ai et p pk]
  by (metis reported_def)

lemma enqueue_for_organization_run:
  assumes "\<not> tx_failed s" "db_ok (db s)" "sequence_ahead s"
    and "g \<in> set (organizations (db s))" "org_id g = i"
  shows "\<exists>t. bindE (organization_public_id i) (\<lambda>u. enqueue_outbox at ai et (p u) key pk) s = (Inr (), t) \<and>
           reported s t (new_message s at ai et (p (org_public_id g)) key pk) key"
  using organization_public_id_run [OF assms(1,2,4,5)] enqueue_outbox_reported [OF assms(1,3)] by simp

text \<open>A usable transaction on an intact database whose identity sequences are ahead.\<close>

definition ready :: "session \<Rightarrow> bool" where
  "ready s \<longleftrightarrow> \<not> tx_failed s \<and> db_ok (db s) \<and> sequence_ahead s"

lemma readyD: "ready s \<Longrightarrow> \<not> tx_failed s" "ready s \<Longrightarrow> db_ok (db s)" "ready s \<Longrightarrow> sequence_ahead s"
  by (simp_all add: ready_def)

lemma reported_ready:
  assumes "ready s" "reported s t m key" "ob_id m = seqs s OUTBOX_MESSAGES"
    and "ob_idempotency_key m = Some key"
  shows "ready t"
proof (cases "outbox_key_taken key (db s)")
  case True
  with assms show ?thesis by (simp add: ready_def reported_def)
next
  case False
  with assms have t: "t = (bump_outbox_seq s)\<lparr>db := add_outbox m (db s)\<rparr>" by (simp add: reported_def)
  have "fresh_opt ob_idempotency_key m (outbox_messages (db s))"
    using False assms(4) by (auto simp: fresh_opt_iff outbox_key_taken_def refers_def list_ex_iff)
  moreover have "outbox_message_ok m (db s)"
    using assms fresh_sequence_ids(1) by (simp add: outbox_message_ok_def ready_def)
  ultimately have "db_ok (db t)" using assms(1) by (simp add: t db_ok_add_outbox ready_def)
  moreover have "sequence_ahead t"
    using assms(1,3) by (auto simp: t ready_def sequence_ahead_def bump_outbox_seq_def add_outbox_def
        intro: less_trans [OF _ less_add_one])
  ultimately show ?thesis using assms(1) by (simp add: t ready_def)
qed

text \<open>The event is in the outbox and nothing but the outbox has changed.\<close>

definition event_recorded :: "string \<Rightarrow> session \<Rightarrow> session \<Rightarrow> bool" where
  "event_recorded key s t \<longleftrightarrow> ready t \<and> outbox_only (db s) (db t) \<and> outbox_key_taken key (db t) \<and>
     tx_now t = tx_now s \<and> clock t = clock s \<and> clock_pos t = clock_pos s \<and> settings t = settings s \<and>
     rnd t = rnd s \<and> rnd_pos t = rnd_pos s \<and> committed t = committed s"

lemma reported_event_recorded:
  assumes "ready s" "reported s t (new_message s at ai et p key pk) key"
  shows "event_recorded key s t"
  using assms reported_simps [OF assms(2)] reported_ready [OF assms]
  by (simp add: event_recorded_def new_message_def)

lemma enqueue_for_organization_recorded:
  assumes "ready s" "g \<in> set (organizations (db s))" "org_id g = i"
  shows "\<exists>t. bindE (organization_public_id i) (\<lambda>u. enqueue_outbox at ai et (p u) key pk) s = (Inr (), t) \<and>
           event_recorded key s t"
  using enqueue_for_organization_run [OF readyD(1-3) [OF assms(1)] assms(2,3), of at ai et p key pk]
    reported_event_recorded [OF assms(1)] by blast

lemma enqueue_outbox_recorded:
  assumes "ready s"
  shows "\<exists>t. enqueue_outbox at ai et p key pk s = (Inr (), t) \<and> event_recorded key s t"
  using enqueue_outbox_reported [OF readyD(1,3) [OF assms], of at ai et p key pk]
    reported_event_recorded [OF assms] by blast

lemma enqueue_entry_posted_run:
  assumes "\<not> tx_failed s" "db_ok (db s)" "sequence_ahead s"
    and "g \<in> set (organizations (db s))" "org_id g = le_organization_id e"
  shows "\<exists>sp rp t. enqueue_entry_posted e key s = (Inr (), t) \<and>
    reported s t (new_message s ''ledger'' (uuid_str (le_public_id e)) LEDGER_ENTRY_POSTED_EVENT
      (entry_posted_payload e (org_public_id g) sp rp) key (str_int (le_organization_id e))) key"
proof -
  have o: "organization_public_id (le_organization_id e) s = (Inr (org_public_id g), s)"
    using organization_public_id_run [OF assms(1,2,4,5)] .
  obtain sp where sp: "(case le_subscription_id e of None \<Rightarrow> returnE None
      | Some i \<Rightarrow> bindE (query (\<lambda>d. map sub_public_id
          (filter (\<lambda>r. sub_id r = i) (subscriptions d)))) scalar_one_or_none) s = (Inr sp, s)"
    using scalar_map_unique [OF keys_uniqueD(3) [OF assms(2)], of sub_public_id _ s] assms(1)
    by (cases "le_subscription_id e") auto
  obtain rp where rp: "(case reverses_entry_id e of None \<Rightarrow> returnE None
      | Some i \<Rightarrow> bindE (query (\<lambda>d. map le_public_id
          (filter (\<lambda>e. le_id e = i) (ledger_entries d)))) scalar_one_or_none) s = (Inr rp, s)"
    using scalar_map_unique [OF keys_uniqueD(6) [OF assms(2)], of le_public_id _ s] assms(1)
    by (cases "reverses_entry_id e") auto
  show ?thesis
    using enqueue_outbox_reported [OF assms(1,3)]
    unfolding enqueue_entry_posted_def by (simp add: o sp rp) blast
qed

section \<open>Posting and reversing\<close>

definition new_entry ::
  "session \<Rightarrow> int \<Rightarrow> ledger_entry_type \<Rightarrow> int \<Rightarrow> string \<Rightarrow> string \<Rightarrow> string \<Rightarrow> int option \<Rightarrow>
   int option \<Rightarrow> numeric6 option \<Rightarrow> int option \<Rightarrow> json_object \<Rightarrow> ledger_entry" where
  "new_entry s oi et amount currency key corr si ii qty rv metadata =
     \<lparr>le_id = seqs s LEDGER_ENTRIES, le_public_id = upcoming_uuid s, le_organization_id = oi,
      le_subscription_id = si, le_invoice_id = ii, entry_type = et, amount_cents = amount,
      le_currency = currency, le_quantity = qty, reverses_entry_id = rv,
      le_idempotency_key = key, correlation_id = corr, le_metadata = metadata,
      le_created_at = tx_now s\<rparr>"

lemma new_entry_simps [simp]:
  "le_id (new_entry s oi et a c k co si ii q rv md) = seqs s LEDGER_ENTRIES"
  "le_public_id (new_entry s oi et a c k co si ii q rv md) = upcoming_uuid s"
  "le_organization_id (new_entry s oi et a c k co si ii q rv md) = oi"
  "le_subscription_id (new_entry s oi et a c k co si ii q rv md) = si"
  "le_idempotency_key (new_entry s oi et a c k co si ii q rv md) = k"
  "reverses_entry_id (new_entry s oi et a c k co si ii q rv md) = rv"
  "amount_cents (new_entry s oi et a c k co si ii q rv md) = a"
  "entry_type (new_entry s oi et a c k co si ii q rv md) = et"
  "le_currency (new_entry s oi et a c k co si ii q rv md) = c"
  by (simp_all add: new_entry_def)

text \<open>A session in which an entry for the organization \<open>g\<close> can be posted.\<close>

definition can_post :: "session \<Rightarrow> organization \<Rightarrow> bool" where
  "can_post s g \<longleftrightarrow> \<not> tx_failed s \<and> db_ok (db s) \<and> sequence_ahead s \<and>
     g \<in> set (organizations (db s)) \<and>
     (\<forall>e \<in> set (ledger_entries (db s)). le_public_id e \<noteq> upcoming_uuid s)"

definition entry_session :: "session \<Rightarrow> ledger_entry \<Rightarrow> session" where
  "entry_session s e = (after_uuid s)\<lparr>seqs := (seqs s)(LEDGER_ENTRIES := seqs s LEDGER_ENTRIES + 1),
     db := add_ledger_entry e (db s)\<rparr>"

lemma entry_session_simps [simp]:
  "db (entry_session s e) = add_ledger_entry e (db s)"
  "tx_failed (entry_session s e) = tx_failed s"
  "seqs (entry_session s e) = (seqs s)(LEDGER_ENTRIES := seqs s LEDGER_ENTRIES + 1)"
  by (simp_all add: entry_session_def)

text \<open>Inserting an entry and reporting it: the common second half of posting and reversing.\<close>

lemma insert_and_report:
  assumes can: "can_post s g" and e: "e = new_entry s (org_id g) et a c k co si ii q rv md"
    and k: "\<forall>e \<in> set (ledger_entries (db s)). le_idempotency_key e \<noteq> k"
    and si: "\<forall>i. si = Some i \<longrightarrow> i \<in> sub_id ` set (subscriptions (db s))"
    and rv: "\<forall>i. rv = Some i \<longrightarrow> i \<in> le_id ` set (ledger_entries (db s))"
  shows "ledger_entry_ok e (db s)"
    and "\<exists>sp rp t. enqueue_entry_posted e key (entry_session s e) = (Inr (), t) \<and>
      reported (entry_session s e) t (new_message (entry_session s e) ''ledger''
        (uuid_str (upcoming_uuid s)) LEDGER_ENTRY_POSTED_EVENT
        (entry_posted_payload e (org_public_id g) sp rp) key (str_int (org_id g))) key"
proof -
  have ids: "fresh le_id e (ledger_entries (db s))"
    using fresh_sequence_ids(2) [of s e] can e by (simp add: can_post_def)
  show ok: "ledger_entry_ok e (db s)"
    using can k si rv ids
    by (auto simp: ledger_entry_ok_def can_post_def e fresh_iff refers_iff refers_opt_def
        split: option.splits)
  have le: "le_public_id e = upcoming_uuid s" "le_organization_id e = org_id g" by (simp_all add: e)
  have 1: "\<not> tx_failed (entry_session s e)" using can by (simp add: can_post_def)
  have 2: "db_ok (db (entry_session s e))"
    using ledger_integrity.ledger_append [OF ok] can by (simp add: stays_ok_def can_post_def)
  have 3: "sequence_ahead (entry_session s e)"
    using can by (auto simp: can_post_def sequence_ahead_def add_ledger_entry_def e
        intro: less_trans [OF _ less_add_one])
  have 4: "g \<in> set (organizations (db (entry_session s e)))"
    using can by (simp add: can_post_def add_ledger_entry_def)
  show "\<exists>sp rp t. enqueue_entry_posted e key (entry_session s e) = (Inr (), t) \<and>
      reported (entry_session s e) t (new_message (entry_session s e) ''ledger''
        (uuid_str (upcoming_uuid s)) LEDGER_ENTRY_POSTED_EVENT
        (entry_posted_payload e (org_public_id g) sp rp) key (str_int (org_id g))) key"
    using enqueue_entry_posted_run [OF 1 2 3 4 le(2) [symmetric]] unfolding le .
qed

lemma reported_ledger:
  assumes "reported (entry_session s e) t m key"
  shows "ledger_entries (db t) = ledger_entries (db s) @ [e]"
  using outbox_onlyD(1) [OF reported_simps(10) [OF assms]] by (simp add: add_ledger_entry_def)

lemma no_entry_lookup:
  assumes "\<not> tx_failed s" "db_ok (db s)"
    and "\<forall>e \<in> set (ledger_entries (db s)). le_idempotency_key e \<noteq> k"
  shows "get_entry_by_idempotency_key k s = (Inr None, s)"
  using get_entry_by_idempotency_key_run [OF assms(1,2), of k] assms(3)
  by (simp add: first_row_None filter_empty_conv)

lemma post_entry_run:
  assumes can: "can_post s g"
    and k: "\<forall>e \<in> set (ledger_entries (db s)). le_idempotency_key e \<noteq> k"
    and si: "\<forall>i. si = Some i \<longrightarrow> i \<in> sub_id ` set (subscriptions (db s))"
    and e: "e = new_entry s (org_id g) et a (upper c) k co si ii q None md"
  shows "\<exists>sp rp t. post_entry (org_id g) et a c k co si ii q md s =
             (Inr e, t\<lparr>metrics := metrics t @ [LedgerEntriesPosted]\<rparr>) \<and>
      reported (entry_session s e) t (new_message (entry_session s e) ''ledger''
        (uuid_str (upcoming_uuid s)) LEDGER_ENTRY_POSTED_EVENT
        (entry_posted_payload e (org_public_id g) sp rp) (k @ '':ledger.entry_posted'')
        (str_int (org_id g))) (k @ '':ledger.entry_posted'')"
proof -
  have nf: "\<not> tx_failed s" and ok: "db_ok (db s)" using can by (simp_all add: can_post_def)
  have rv: "\<forall>i. (None :: int option) = Some i \<longrightarrow> i \<in> le_id ` set (ledger_entries (db s))" by simp
  note ir = insert_and_report [OF can e k si rv]
  have "post_entry (org_id g) et a c k co si ii q md s =
     thenE (enqueue_entry_posted e (k @ '':ledger.entry_posted''))
       (thenE (emit_metric LedgerEntriesPosted) (returnE e)) (entry_session s e)"
    using no_entry_lookup [OF nf ok k] nf ir(1)
    by (simp add: post_entry_def Let_def e new_entry_def entry_session_def)
  then show ?thesis
    using ir(2) [of "k @ '':ledger.entry_posted''"] by (auto simp: sm_simps) blast
qed

text \<open>Apart from the new entry, posting only adds to the outbox.\<close>

definition ledger_frame :: "database \<Rightarrow> database \<Rightarrow> bool" where
  "ledger_frame d e \<longleftrightarrow>
     e\<lparr>outbox_messages := [], ledger_entries := []\<rparr> = d\<lparr>outbox_messages := [], ledger_entries := []\<rparr> \<and>
     prefix (outbox_messages d) (outbox_messages e) \<and>
     prefix (ledger_entries d) (ledger_entries e)"

lemma ledger_frameD:
  assumes "ledger_frame d e"
  shows "subscriptions e = subscriptions d" "organizations e = organizations d" "plans e = plans d"
    "webhook_events e = webhook_events d" "invoices e = invoices d"
    "dunning_campaigns e = dunning_campaigns d" "dunning_attempts e = dunning_attempts d"
    "prices e = prices d" "outbox_key_taken k d \<Longrightarrow> outbox_key_taken k e"
proof -
  have r: "f e = f d" if "\<And>x. f x = f (x\<lparr>outbox_messages := [], ledger_entries := []\<rparr>)"
    for f :: "database \<Rightarrow> 'z"
    using assms that unfolding ledger_frame_def by metis
  show "subscriptions e = subscriptions d" "organizations e = organizations d" "plans e = plans d"
    "webhook_events e = webhook_events d" "invoices e = invoices d"
    "dunning_campaigns e = dunning_campaigns d" "dunning_attempts e = dunning_attempts d"
    "prices e = prices d"
    by (rule r, simp)+
  show "outbox_key_taken k d \<Longrightarrow> outbox_key_taken k e"
    using assms by (auto simp: ledger_frame_def outbox_key_taken_def refers_iff dest: set_mono_prefix)
qed

lemma outbox_ledger_frame: "outbox_only d e \<Longrightarrow> ledger_frame d e"
  using arg_cong [of "e\<lparr>outbox_messages := []\<rparr>" "d\<lparr>outbox_messages := []\<rparr>"
      "\<lambda>x. x\<lparr>ledger_entries := []\<rparr>"] outbox_onlyD(1) [of d e]
  by (simp add: outbox_only_def ledger_frame_def)

interpretation ledger_frame: ledger_client ledger_frame
proof unfold_locales
  show "ledger_frame d d" for d by (simp add: ledger_frame_def)
  show "ledger_frame d f" if "ledger_frame d e" "ledger_frame e f" for d e f
    using that unfolding ledger_frame_def by (auto intro: prefix_order.trans)
  show "ledger_frame d (add_outbox m d)" for d m by (simp add: ledger_frame_def add_outbox_def)
  show "ledger_frame d (add_ledger_entry m d)" for d m
    by (simp add: ledger_frame_def add_ledger_entry_def)
qed

text \<open>The entry and its event are recorded and nothing else has changed.\<close>

definition entry_recorded :: "ledger_entry \<Rightarrow> session \<Rightarrow> session \<Rightarrow> bool" where
  "entry_recorded e s t \<longleftrightarrow> ready t \<and> ledger_frame (db s) (db t) \<and>
     ledger_entries (db t) = ledger_entries (db s) @ [e] \<and>
     outbox_key_taken (le_idempotency_key e @ '':ledger.entry_posted'') (db t) \<and>
     tx_now t = tx_now s \<and> clock t = clock s \<and> clock_pos t = Suc (clock_pos s) \<and>
     rnd t = rnd s \<and> rnd_pos t = rnd_pos s + 2 \<and> settings t = settings s \<and> committed t = committed s"

lemma post_entry_recorded:
  assumes can: "can_post s g"
    and k: "\<forall>e \<in> set (ledger_entries (db s)). le_idempotency_key e \<noteq> k"
    and si: "\<forall>i. si = Some i \<longrightarrow> i \<in> sub_id ` set (subscriptions (db s))"
    and e_def: "e = new_entry s (org_id g) et a (upper c) k co si ii q None md"
  shows "\<exists>t. post_entry (org_id g) et a c k co si ii q md s = (Inr e, t) \<and> entry_recorded e s t"
proof -
  have rv: "\<forall>i. (None :: int option) = Some i \<longrightarrow> i \<in> le_id ` set (ledger_entries (db s))" by simp
  obtain m t where p: "post_entry (org_id g) et a c k co si ii q md s =
      (Inr e, t\<lparr>metrics := metrics t @ [LedgerEntriesPosted]\<rparr>)"
    and r: "reported (entry_session s e) t m (k @ '':ledger.entry_posted'')"
    and m: "ob_id m = seqs (entry_session s e) OUTBOX_MESSAGES"
      "ob_idempotency_key m = Some (k @ '':ledger.entry_posted'')"
    using post_entry_run [OF can k si e_def] by (auto simp: new_message_def)
  have "sequence_ahead (entry_session s e)"
    using can by (auto simp: can_post_def sequence_ahead_def add_ledger_entry_def e_def
        intro: less_trans [OF _ less_add_one])
  moreover have "db_ok (db (entry_session s e))"
    using db_ok_add_ledger_entry [OF _ insert_and_report(1) [OF can e_def k si rv]]
      can by (simp add: can_post_def)
  ultimately have "ready (entry_session s e)" using can by (simp add: ready_def can_post_def)
  from reported_ready [OF this r m] have "ready t" .
  moreover have "ledger_frame (db s) (db t)" using keeps_dbD [OF ledger_frame.post_entry p] by simp
  moreover have "le_idempotency_key e = k" by (simp add: e_def)
  ultimately have "entry_recorded e s (t\<lparr>metrics := metrics t @ [LedgerEntriesPosted]\<rparr>)"
    using reported_simps [OF r] m(2) reported_ledger [OF r]
    by (simp add: entry_recorded_def ready_def sequence_ahead_def entry_session_def after_uuid_def)
  with p show ?thesis by blast
qed

lemma used_ids_frame:
  "used_ids (x\<lparr>outbox_messages := m\<rparr>) = used_ids x"
  "used_ids x = le_public_id ` set (ledger_entries x) \<union>
     used_ids (x\<lparr>outbox_messages := [], ledger_entries := []\<rparr>)"
  by (auto simp: used_ids_def)

lemma event_recorded_fresh:
  assumes "event_recorded key s t" "fresh_ids k s"
  shows "fresh_ids k t"
proof (rule fresh_ids_same [OF assms(2)])
  have "(db t)\<lparr>outbox_messages := []\<rparr> = (db s)\<lparr>outbox_messages := []\<rparr>"
    using assms(1) by (simp add: event_recorded_def outbox_only_def)
  then show "used_ids (db t) \<subseteq> used_ids (db s)" by (metis used_ids_frame(1) order_refl)
qed (use assms(1) in \<open>simp_all add: event_recorded_def\<close>)

lemma entry_recorded_fresh:
  assumes "entry_recorded e s t" "le_public_id e = upcoming_uuid s" "fresh_ids (Suc k) s"
  shows "fresh_ids k t"
proof (rule fresh_ids_drawn [OF assms(3)])
  have f: "(db t)\<lparr>outbox_messages := [], ledger_entries := []\<rparr> =
      (db s)\<lparr>outbox_messages := [], ledger_entries := []\<rparr>"
    and l: "ledger_entries (db t) = ledger_entries (db s) @ [e]"
    using assms(1) by (simp_all add: entry_recorded_def ledger_frame_def)
  have "used_ids (db t) = insert (upcoming_uuid s) (used_ids (db s))"
    unfolding used_ids_frame(2) [of "db t"] used_ids_frame(2) [of "db s"] f l using assms(2) by simp
  then show "used_ids (db t) \<subseteq> insert (uuid_draw s (clock_pos s) (rnd_pos s)) (used_ids (db s))"
    by (simp add: upcoming_uuid_draw)
qed (use assms(1) in \<open>simp_all add: entry_recorded_def\<close>)

lemma can_postI:
  assumes "ready s" "fresh_ids (Suc k) s" "g \<in> set (organizations (db s))"
  shows "can_post s g"
proof -
  have "upcoming_uuid s \<notin> le_public_id ` set (ledger_entries (db s))"
    using fresh_idsD [OF assms(2)] by (simp add: used_ids_def)
  then have "\<forall>e \<in> set (ledger_entries (db s)). le_public_id e \<noteq> upcoming_uuid s" by (metis imageI)
  with assms(1,3) show ?thesis by (simp add: can_post_def ready_def)
qed

lemma get_entry_run:
  assumes "\<not> tx_failed s" "db_ok (db s)"
  shows "get_entry i s = (Inr (first_row (filter (\<lambda>e. le_id e = i) (ledger_entries (db s)))), s)"
  using assms scalar_one_or_none_unique [OF keys_uniqueD(6) [OF assms(2)], of i]
  by (simp add: get_entry_def)

section \<open>Properties\<close>

text \<open>
  C12: Posting is idempotent. Once \<^verbatim>\<open>LedgerService.post\<close> has returned an entry for an idempotency
  key, every later call with that key, whatever its other arguments, returns the same entry and
  changes nothing.
\<close>

theorem post_entry_idempotent:
  assumes "db_ok (db s)"
    and "post_entry oi et a c k co si ii q md s = (Inr e, t)"
  shows "post_entry oi' et' a' c' k co' si' ii' q' md' t = (Inr e, t)"
proof -
  have "stays_ok (db s) (db t)"
    using keeps_dbD [OF ledger_integrity.post_entry assms(2)] .
  with assms(1) have "db_ok (db t)" by (simp add: stays_ok_def)
  then show ?thesis using post_entry_InrD [OF assms(2)] by (intro post_entry_existing) auto
qed

text \<open>
  Posting records the entry and its event. In a usable transaction on an intact database, for
  an existing organization (and subscription) and a key not used before, \<^verbatim>\<open>LedgerService.post\<close>
  returns an entry with the given data and the currency in upper case, appends exactly this row to
  the ledger, leaves an outbox row under the derived key, and keeps the database intact.
\<close>

theorem post_entry_records:
  assumes can: "can_post s g"
    and k: "\<forall>e \<in> set (ledger_entries (db s)). le_idempotency_key e \<noteq> k"
    and si: "\<forall>i. si = Some i \<longrightarrow> i \<in> sub_id ` set (subscriptions (db s))"
  shows "\<exists>e t. post_entry (org_id g) et a c k co si ii q md s = (Inr e, t) \<and>
      ledger_entries (db t) = ledger_entries (db s) @ [e] \<and>
      e = \<lparr>le_id = seqs s LEDGER_ENTRIES, le_public_id = upcoming_uuid s,
           le_organization_id = org_id g, le_subscription_id = si, le_invoice_id = ii,
           entry_type = et, amount_cents = a, le_currency = upper c, le_quantity = q,
           reverses_entry_id = None, le_idempotency_key = k, correlation_id = co,
           le_metadata = md, le_created_at = tx_now s\<rparr> \<and>
      outbox_key_taken (k @ '':ledger.entry_posted'') (db t) \<and>
      subscriptions (db t) = subscriptions (db s) \<and> db_ok (db t) \<and> \<not> tx_failed t"
proof -
  define e where "e = new_entry s (org_id g) et a (upper c) k co si ii q None md"
  obtain sp rp t where p: "post_entry (org_id g) et a c k co si ii q md s =
      (Inr e, t\<lparr>metrics := metrics t @ [LedgerEntriesPosted]\<rparr>)"
    and r: "reported (entry_session s e) t (new_message (entry_session s e) ''ledger''
      (uuid_str (upcoming_uuid s)) LEDGER_ENTRY_POSTED_EVENT
      (entry_posted_payload e (org_public_id g) sp rp) (k @ '':ledger.entry_posted'')
      (str_int (org_id g))) (k @ '':ledger.entry_posted'')"
    using post_entry_run [OF can k si e_def] by blast
  have "stays_ok (db s) (db t)"
    using keeps_dbD [OF ledger_integrity.post_entry p] by simp
  then have "db_ok (db t)" using can by (simp add: stays_ok_def can_post_def)
  moreover have "\<not> tx_failed t"
    using reported_simps(1) [OF r] can by (simp add: can_post_def)
  moreover have "outbox_key_taken (k @ '':ledger.entry_posted'') (db t)"
    using reported_simps(11) [OF r] by (simp add: new_message_def)
  moreover have "subscriptions (db t) = subscriptions (db s)"
    using outbox_onlyD(2) [OF reported_simps(10) [OF r]] by (simp add: add_ledger_entry_def)
  ultimately show ?thesis
    using p reported_ledger [OF r] by (auto simp: e_def new_entry_def)
qed

lemma sample_can_post: "can_post sample_session sample_org"
  by (simp add: can_post_def sample_ok sample_sequences)

theorem post_entry_records_witness:
  "\<exists>e t. post_entry 1 invoice_paid 2900 ''usd'' ''k1'' ''c1'' (Some 1) None None [] sample_session
           = (Inr e, t) \<and> ledger_entries (db t) = [e] \<and> le_currency e = ''USD'' \<and>
         amount_cents e = 2900"
proof -
  have "\<forall>i. Some 1 = Some i \<longrightarrow> i \<in> sub_id ` set (subscriptions (db sample_session))" by simp
  moreover have "upper ''usd'' = ''USD''" by code_simp
  ultimately show ?thesis
    using post_entry_records [OF sample_can_post, of "''k1''" "Some 1" invoice_paid 2900 "''usd''"
        "''c1''" None None "[]"] by auto
qed

theorem post_entry_idempotent_witness:
  "\<exists>e t. post_entry 1 invoice_paid 2900 ''usd'' ''k1'' ''c1'' None None None [] sample_session
           = (Inr e, t) \<and>
         post_entry 1 usage_charge 1 ''eur'' ''k1'' ''c2'' None None None [] t = (Inr e, t)"
proof -
  obtain e t where p: "post_entry 1 invoice_paid 2900 ''usd'' ''k1'' ''c1'' None None None []
      sample_session = (Inr e, t)"
    using post_entry_run [OF sample_can_post, of "''k1''" None _ invoice_paid 2900 "''usd''" "''c1''"
        None None "[]"] by auto
  have "db_ok (db sample_session)" by (simp add: sample_ok)
  from post_entry_idempotent [OF this p] p show ?thesis by blast
qed

text \<open>
  C13: A reversal compensates its original. For an existing entry and an unused key,
  \<^verbatim>\<open>LedgerService.reverse\<close> appends one row that refers to the original and carries the negated
  amount, so the ledger's total falls by exactly the original amount, and the original stays.
\<close>

theorem reverse_entry_compensates:
  assumes can: "can_post s g" and orig: "orig \<in> set (ledger_entries (db s))"
    and g: "le_organization_id orig = org_id g"
    and k: "\<forall>e \<in> set (ledger_entries (db s)). le_idempotency_key e \<noteq> k"
  shows "\<exists>e t. reverse_entry (le_id orig) k co s = (Inr e, t) \<and>
      ledger_entries (db t) = ledger_entries (db s) @ [e] \<and>
      entry_type e = reversal \<and> reverses_entry_id e = Some (le_id orig) \<and>
      amount_cents e = - amount_cents orig \<and> le_currency e = le_currency orig \<and>
      (\<Sum>x\<leftarrow>ledger_entries (db t). amount_cents x) =
        (\<Sum>x\<leftarrow>ledger_entries (db s). amount_cents x) - amount_cents orig"
proof -
  have nf: "\<not> tx_failed s" and ok: "db_ok (db s)" using can by (simp_all add: can_post_def)
  define e where "e = new_entry s (org_id g) reversal (- amount_cents orig) (le_currency orig) k co
    (le_subscription_id orig) (le_invoice_id orig) (le_quantity orig) (Some (le_id orig))
    [(''reversed_entry_public_id'', JStr (uuid_str (le_public_id orig))),
     (''reversed_entry_type'', JStr (ledger_entry_type_value (entry_type orig)))]"
  have si: "\<forall>i. le_subscription_id orig = Some i \<longrightarrow> i \<in> sub_id ` set (subscriptions (db s))"
    using ok orig by (auto simp: db_ok_def references_ok_def)
  have rv: "\<forall>i. Some (le_id orig) = Some i \<longrightarrow> i \<in> le_id ` set (ledger_entries (db s))"
    using orig by auto
  note ir = insert_and_report [OF can e_def k si rv]
  obtain sp rp t where t: "enqueue_entry_posted e (k @ '':ledger.entry_posted'') (entry_session s e)
      = (Inr (), t)" and r: "reported (entry_session s e) t (new_message (entry_session s e)
      ''ledger'' (uuid_str (upcoming_uuid s)) LEDGER_ENTRY_POSTED_EVENT
        (entry_posted_payload e (org_public_id g) sp rp) (k @ '':ledger.entry_posted'')
        (str_int (org_id g))) (k @ '':ledger.entry_posted'')"
    using ir(2) by blast
  have "get_entry (le_id orig) s = (Inr (Some orig), s)"
    using get_entry_run [OF nf ok, of "le_id orig"] unique_key_filter [OF keys_uniqueD(6) [OF ok] orig]
    by simp
  then have "reverse_entry (le_id orig) k co s =
     thenE (enqueue_entry_posted e (k @ '':ledger.entry_posted'')) (returnE e) (entry_session s e)"
    using no_entry_lookup [OF nf ok k] nf ir(1) g
    by (simp add: reverse_entry_def Let_def e_def new_entry_def entry_session_def)
  with t have "reverse_entry (le_id orig) k co s = (Inr e, t)" by simp
  then show ?thesis using reported_ledger [OF r] by (auto simp: e_def)
qed

definition sample_entry :: ledger_entry where
  "sample_entry = new_entry sample_session 1 invoice_paid 2900 ''USD'' ''k0'' ''c0'' (Some 1) None None
     None []"

theorem reverse_entry_compensates_witness:
  "\<exists>e t. reverse_entry (le_id sample_entry) ''k1'' ''c1''
           (sample_session\<lparr>db := sample_db\<lparr>ledger_entries := [sample_entry]\<rparr>,
              seqs := (\<lambda>_. 20), clock_pos := 1, rnd_pos := 1\<rparr>) = (Inr e, t) \<and>
         amount_cents e = - 2900 \<and> (\<Sum>x\<leftarrow>ledger_entries (db t). amount_cents x) = 0"
proof -
  let ?s = "sample_session\<lparr>db := sample_db\<lparr>ledger_entries := [sample_entry]\<rparr>,
              seqs := (\<lambda>_. 20), clock_pos := 1, rnd_pos := 1\<rparr>"
  have "upcoming_uuid ?s \<noteq> le_public_id sample_entry"
    unfolding sample_entry_def
    by (simp add: upcoming_uuid_def new_entry_def generate_uuidv7_def)
  moreover have "db_ok (db ?s)"
    using sample_ok
    by (simp add: integrity_defs unique_by_def List.map_filter_simps sample_entry_def new_entry_def)
  ultimately have can: "can_post ?s sample_org"
    by (simp add: can_post_def sequence_ahead_def sample_entry_def new_entry_def)
  show ?thesis
    using reverse_entry_compensates [OF can, of sample_entry "''k1''" "''c1''"]
    by (auto simp: sample_entry_def new_entry_def)
qed

text \<open>
  Reversing an entry that does not exist raises \<^verbatim>\<open>LedgerEntryNotFoundError\<close> and leaves the
  session as it was.
\<close>

theorem reverse_entry_missing:
  assumes "\<not> tx_failed s" "db_ok (db s)" "i \<notin> le_id ` set (ledger_entries (db s))"
  shows "reverse_entry i k co s =
    (Inl (Exc LedgerEntryNotFoundError (''ledger entry '' @ str_int i @ '' not found'')), s)"
proof -
  have "filter (\<lambda>e. le_id e = i) (ledger_entries (db s)) = []"
    using assms(3) by (auto simp: filter_empty_conv)
  then show ?thesis using get_entry_run [OF assms(1,2), of i] by (simp add: reverse_entry_def)
qed

theorem reverse_entry_missing_witness:
  "reverse_entry 7 ''k'' ''c'' sample_session =
     (Inl (Exc LedgerEntryNotFoundError ''ledger entry 7 not found''), sample_session)"
proof -
  have "str_int 7 = ''7''" by code_simp
  then show ?thesis using reverse_entry_missing [of sample_session 7] by (simp add: sample_ok)
qed

end
