(* ===== verification/Subscriptions.thy ===== *)
theory Subscriptions
  imports Ledger
begin

text \<open>
  Creating, reading and cancelling subscriptions (\<^verbatim>\<open>services/subscriptions.py\<close>) and moving one to
  another plan (\<^verbatim>\<open>services/plan_change.py\<close>).
\<close>

section \<open>Subscriptions\<close>

definition period_end_of :: "instant \<Rightarrow> string \<Rightarrow> instant" where
  "period_end_of start interval =
     (if interval = ''year'' then start + timedelta_days 365 else start + timedelta_days 30)"

definition initial_status :: "plan \<Rightarrow> subscription_status" where
  "initial_status p =
     (case trial_days p of None \<Rightarrow> incomplete | Some n \<Rightarrow> if n > 0 then trialing else incomplete)"

definition find_existing_subscription :: "string \<Rightarrow> subscription option op" where
  "find_existing_subscription key =
     bindE (query (\<lambda>d. filter (\<lambda>r. sub_idempotency_key r = Some key) (subscriptions d)))
       scalar_one_or_none"

definition find_plan :: "uuid \<Rightarrow> plan option op" where
  "find_plan pid = bindE (query (\<lambda>d. filter (\<lambda>p. plan_id p = pid) (plans d))) scalar_one_or_none"

definition new_subscription ::
  "int \<Rightarrow> uuid \<Rightarrow> int \<Rightarrow> plan \<Rightarrow> string \<Rightarrow> json_object \<Rightarrow> instant \<Rightarrow> instant \<Rightarrow> subscription" where
  "new_subscription i u oi p key metadata now t =
     \<lparr>sub_id = i, sub_public_id = u, sub_organization_id = oi, sub_plan_id = plan_id p,
      sub_status = initial_status p, current_period_start = now,
      current_period_end = period_end_of now (billing_interval p),
      cancel_at_period_end = False, canceled_at = None, past_due_entered_at = None,
      trial_end = (if initial_status p = trialing
                   then map_option (\<lambda>n. now + timedelta_days n) (trial_days p) else None),
      external_subscription_id = None, sub_idempotency_key = Some key, sub_metadata = metadata,
      sub_created_at = t, sub_updated_at = t\<rparr>"

definition enqueue_trial_started :: "subscription \<Rightarrow> unit op" where
  "enqueue_trial_started r =
     bindE (organization_public_id (sub_organization_id r)) (\<lambda>org_public.
     enqueue_outbox ''subscription'' (uuid_str (sub_public_id r)) ''subscription.trial_started''
       [(''subscription_public_id'', JStr (uuid_str (sub_public_id r))),
        (''organization_public_id'', JStr (uuid_str org_public)),
        (''trial_end'', opt_str (map_option iso_z (trial_end r)))]
       (''subscription:'' @ uuid_str (sub_public_id r) @ '':trial_started'')
       (str_int (sub_organization_id r)))"

text \<open>
  A flush that violates a constraint rolls the transaction back and looks once more for the row of
  a concurrent call with the same key.
\<close>

definition flush_subscription :: "subscription \<Rightarrow> string \<Rightarrow> subscription option op" where
  "flush_subscription r key =
     catchE (thenE (insert_checked (subscription_ok r) (add_subscription r)) (returnE None))
       (\<lambda>e. if exc_class_of e = IntegrityError
             then thenE rollback (bindE (find_existing_subscription key) (\<lambda>x.
                    case x of Some q \<Rightarrow> returnE (Some q) | None \<Rightarrow> reraiseE e))
             else reraiseE e)"

definition create_subscription ::
  "int \<Rightarrow> uuid \<Rightarrow> string \<Rightarrow> json_object option \<Rightarrow> subscription op" where
  "create_subscription oi pid key metadata =
     bindE (find_existing_subscription key) (\<lambda>existing.
     case existing of Some r \<Rightarrow> returnE r
     | None \<Rightarrow>
         bindE (find_plan pid) (\<lambda>found.
         case found of
           None \<Rightarrow> raiseE PlanNotPublishedError (''plan '' @ uuid_str pid @ '' is not published'')
         | Some p \<Rightarrow>
             if published_at p = None
             then raiseE PlanNotPublishedError (''plan '' @ uuid_str pid @ '' is not published'')
             else
               bindE now_utc (\<lambda>now.
               bindE new_uuid (\<lambda>u.
               bindE (next_id SUBSCRIPTIONS) (\<lambda>i.
               bindE (getE tx_now) (\<lambda>t.
               let r = new_subscription i u oi p key (case metadata of None \<Rightarrow> [] | Some m \<Rightarrow> m) now t
               in bindE (flush_subscription r key) (\<lambda>conflicting.
                    case conflicting of Some q \<Rightarrow> returnE q
                    | None \<Rightarrow> thenE (whenE (sub_status r = trialing) (enqueue_trial_started r))
                               (returnE r))))))))"

definition get_subscription_by_public_id :: "uuid \<Rightarrow> subscription option op" where
  "get_subscription_by_public_id u =
     bindE (query (\<lambda>d. filter (\<lambda>r. sub_public_id r = u) (subscriptions d))) scalar_one_or_none"

text \<open>\<^verbatim>\<open>ORDER BY updated_at DESC, id DESC LIMIT 1\<close>.\<close>

definition primary_subscription :: "int \<Rightarrow> database \<Rightarrow> subscription option" where
  "primary_subscription oi d =
     first_row (order_by_desc sub_updated_at (order_by_desc sub_id
       (filter (\<lambda>r. sub_organization_id r = oi) (subscriptions d))))"

definition get_primary_subscription :: "int \<Rightarrow> subscription option op" where
  "get_primary_subscription oi = query (primary_subscription oi)"

definition list_subscriptions_for_organization :: "int \<Rightarrow> subscription list op" where
  "list_subscriptions_for_organization oi =
     query (\<lambda>d. order_by sub_created_at
       (filter (\<lambda>r. sub_organization_id r = oi) (subscriptions d)))"

definition enqueue_canceled :: "subscription \<Rightarrow> instant \<Rightarrow> unit op" where
  "enqueue_canceled r now =
     bindE (organization_public_id (sub_organization_id r)) (\<lambda>org_public.
     enqueue_outbox ''subscription'' (uuid_str (sub_public_id r)) ''subscription.canceled''
       [(''subscription_public_id'', JStr (uuid_str (sub_public_id r))),
        (''organization_public_id'', JStr (uuid_str org_public)),
        (''canceled_at'', JStr (iso_z now))]
       (''subscription:'' @ uuid_str (sub_public_id r) @ '':canceled'')
       (str_int (sub_organization_id r)))"

definition cancel_subscription :: "int \<Rightarrow> bool \<Rightarrow> unit op" where
  "cancel_subscription i at_period_end =
     (if at_period_end then set_subscription i (\<lambda>r. r\<lparr>cancel_at_period_end := True\<rparr>)
      else
        bindE (load_subscription i) (\<lambda>r.
        bindE (liftE (transition (sub_status r) canceled)) (\<lambda>_.
        bindE now_utc (\<lambda>now.
        thenE (move_subscription i canceled
                 (\<lambda>r. r\<lparr>canceled_at := Some now, cancel_at_period_end := False\<rparr>))
        (enqueue_canceled r now)))))"

section \<open>Plan changes\<close>

definition STUB_PRORATION_CENTS :: int where
  "STUB_PRORATION_CENTS = 1"

definition FORBIDDEN_STATUSES :: "subscription_status list" where
  "FORBIDDEN_STATUSES = [canceled, unpaid]"

definition find_plan_changed_outbox :: "string \<Rightarrow> outbox_message option op" where
  "find_plan_changed_outbox key =
     bindE (query (\<lambda>d. filter (\<lambda>m. ob_idempotency_key m =
         Some (''plan_change:'' @ key @ '':plan_changed'')) (outbox_messages d))) scalar_one_or_none"

text \<open>\<^verbatim>\<open>coalesce(sum(unit_amount_cents), 0)\<close> over the active flat prices.\<close>

definition plan_flat_price_cents :: "uuid \<Rightarrow> database \<Rightarrow> int" where
  "plan_flat_price_cents pid d =
     (\<Sum>p \<leftarrow> filter (\<lambda>p. price_plan_id p = pid \<and> price_is_active p \<and> pricing_model p = ''flat'')
        (prices d). unit_amount_cents p)"

text \<open>\<^verbatim>\<open>subscription.plan_id = new_plan_id\<close>: the foreign key is checked when the row is written.\<close>

definition set_subscription_plan :: "int \<Rightarrow> uuid \<Rightarrow> unit op" where
  "set_subscription_plan i pid =
     bindE (getE tx_now) (\<lambda>t.
       insert_checked (\<lambda>d. refers plan_id pid (plans d))
         (upd_subscription i t (\<lambda>r. r\<lparr>sub_plan_id := pid\<rparr>)))"

definition post_proration :: "subscription \<Rightarrow> uuid \<Rightarrow> string \<Rightarrow> int \<Rightarrow> int \<Rightarrow> unit op" where
  "post_proration r pid key old_price new_price =
     (let corr = ''plan_change:'' @ key;
          metadata = [(''old_plan_id'', JStr (uuid_str (sub_plan_id r))),
                      (''new_plan_id'', JStr (uuid_str pid)), (''stub'', JBool True)]
      in if new_price > old_price
         then thenE (post_entry (sub_organization_id r) proration_debit STUB_PRORATION_CENTS ''USD''
                (''plan_change:'' @ key @ '':proration_debit'') corr (Some (sub_id r)) None None
                metadata) (returnE ())
         else if new_price < old_price
         then thenE (post_entry (sub_organization_id r) proration_credit (- STUB_PRORATION_CENTS)
                ''USD'' (''plan_change:'' @ key @ '':proration_credit'') corr (Some (sub_id r)) None
                None metadata) (returnE ())
         else returnE ())"

definition enqueue_plan_changed :: "subscription \<Rightarrow> uuid \<Rightarrow> string \<Rightarrow> string \<Rightarrow> unit op" where
  "enqueue_plan_changed r pid effective key =
     bindE (organization_public_id (sub_organization_id r)) (\<lambda>org_public.
     enqueue_outbox ''subscription'' (uuid_str (sub_public_id r)) ''subscription.plan_changed''
       [(''subscription_public_id'', JStr (uuid_str (sub_public_id r))),
        (''organization_public_id'', JStr (uuid_str org_public)),
        (''old_plan_id'', JStr (uuid_str (sub_plan_id r))),
        (''new_plan_id'', JStr (uuid_str pid)),
        (''effective'', JStr effective), (''proration_stub'', JBool True)]
       (''plan_change:'' @ key @ '':plan_changed'') (str_int (sub_organization_id r)))"

definition change_plan :: "int \<Rightarrow> uuid \<Rightarrow> string \<Rightarrow> string \<Rightarrow> unit op" where
  "change_plan i pid effective key =
     (if effective \<noteq> ''immediate''
      then raiseE PlanChangeError (''unsupported effective policy: '' @ effective)
      else
        bindE (find_plan_changed_outbox key) (\<lambda>existing.
        if existing \<noteq> None then returnE ()
        else
          bindE (load_subscription i) (\<lambda>r.
          if sub_status r \<in> set FORBIDDEN_STATUSES
          then raiseE PlanChangeNotAllowedError
                 (''plan change not allowed for subscription status ''
                    @ subscription_status_value (sub_status r))
          else if sub_plan_id r = pid then returnE ()
          else
            bindE (find_plan pid) (\<lambda>found.
            case found of
              None \<Rightarrow> raiseE PlanNotPublishedError (''plan '' @ uuid_str pid @ '' is not published'')
            | Some p \<Rightarrow>
                if published_at p = None
                then raiseE PlanNotPublishedError (''plan '' @ uuid_str pid @ '' is not published'')
                else
                  bindE (query (plan_flat_price_cents (sub_plan_id r))) (\<lambda>old_price.
                  bindE (query (plan_flat_price_cents pid)) (\<lambda>new_price.
                  thenE (post_proration r pid key old_price new_price)
                  (thenE (set_subscription_plan i pid)
                  (enqueue_plan_changed r pid effective key))))))))"

section \<open>Write footprint\<close>

context outbox_client
begin

lemma enqueue_trial_started: "keeps_db D (enqueue_trial_started r)"
  unfolding enqueue_trial_started_def by (intro primitives organization_public_id enqueue_outbox)

lemma enqueue_canceled: "keeps_db D (enqueue_canceled r now)"
  unfolding enqueue_canceled_def by (intro primitives organization_public_id enqueue_outbox)

lemma enqueue_plan_changed: "keeps_db D (enqueue_plan_changed r pid eff k)"
  unfolding enqueue_plan_changed_def by (intro primitives organization_public_id enqueue_outbox)

end

text \<open>
  Besides moving subscriptions along the state machine and posting to the ledger, these operations
  insert subscriptions in an initial status and set the plan of one to a plan that exists.
\<close>

locale subscriptions_client = subscription_client D + ledger_client D
  for D :: "database \<Rightarrow> database \<Rightarrow> bool" +
  assumes subscription_insert:
    "subscription_ok r d \<Longrightarrow> sub_status r = trialing \<or> sub_status r = incomplete \<Longrightarrow>
     D d (add_subscription r d)"
  and subscription_plan:
    "refers plan_id pid (plans d) \<Longrightarrow> D d (upd_subscription i t (\<lambda>r. r\<lparr>sub_plan_id := pid\<rparr>) d)"
begin

lemma find_existing_subscription: "keeps_db D (find_existing_subscription k)"
  unfolding find_existing_subscription_def by (intro primitives)

lemma find_plan: "keeps_db D (find_plan pid)"
  unfolding find_plan_def by (intro primitives)

lemma insert_new_subscription:
  "keeps_db D (insert_checked (subscription_ok (new_subscription i u oi p k m now t))
     (add_subscription (new_subscription i u oi p k m now t)))"
  by (intro insert_checked subscription_insert)
    (auto simp: new_subscription_def initial_status_def split: option.splits)

lemma create_subscription: "keeps_tx D (create_subscription oi pid k m)"
  unfolding create_subscription_def flush_subscription_def Let_def
  by (intro transactions in_transaction insert_new_subscription find_existing_subscription find_plan
      enqueue_trial_started now_utc new_uuid next_id)

lemma cancel_subscription: "keeps_db D (cancel_subscription i b)"
  unfolding cancel_subscription_def
  by (intro primitives load_subscription move_subscription set_subscription enqueue_canceled)
    (auto simp: subscription_update_def same_identity_def)

lemma set_subscription_plan: "keeps_db D (set_subscription_plan i pid)"
  unfolding set_subscription_plan_def by (intro primitives subscription_plan)

lemma post_proration: "keeps_db D (post_proration r pid k po pn)"
  unfolding post_proration_def by (intro primitives post_entry)

lemma change_plan: "keeps_db D (change_plan i pid eff k)"
  unfolding change_plan_def find_plan_changed_outbox_def
  by (intro primitives load_subscription find_plan post_proration set_subscription_plan
      enqueue_plan_changed)

end

text \<open>
  The three instances: the ledger only grows, the database stays intact, and every subscription
  row keeps its identity and moves along the state machine, new rows starting in an initial status.
\<close>

definition row_history :: "subscription \<Rightarrow> subscription \<Rightarrow> bool" where
  "row_history r q \<longleftrightarrow> same_identity r q \<and> lifecycle (sub_status r) (sub_status q)"

definition lifecycle_kept :: "database \<Rightarrow> database \<Rightarrow> bool" where
  "lifecycle_kept d e \<longleftrightarrow>
     (\<forall>r \<in> set (subscriptions d). \<exists>q \<in> set (subscriptions e). row_history r q) \<and>
     (\<forall>q \<in> set (subscriptions e). (\<exists>r \<in> set (subscriptions d). row_history r q) \<or>
        lifecycle trialing (sub_status q) \<or> lifecycle incomplete (sub_status q))"

lemma row_history_refl [simp]: "row_history r r"
  by (simp add: row_history_def same_identity_def)

lemma row_history_trans: "row_history r q \<Longrightarrow> row_history q p \<Longrightarrow> row_history r p"
  by (auto simp: row_history_def same_identity_def intro: rtranclp_trans)

lemma lifecycle_kept_refl: "lifecycle_kept d d"
  unfolding lifecycle_kept_def using row_history_refl by blast

lemma lifecycle_kept_trans: "lifecycle_kept d e \<Longrightarrow> lifecycle_kept e f \<Longrightarrow> lifecycle_kept d f"
  unfolding lifecycle_kept_def
  by (meson row_history_trans row_history_def rtranclp_trans)

lemma lifecycle_kept_same: "subscriptions e = subscriptions d \<Longrightarrow> lifecycle_kept d e"
  unfolding lifecycle_kept_def using row_history_refl by metis

lemma lifecycle_kept_update:
  assumes "\<And>r. row_history r (f r)"
  shows "lifecycle_kept d (upd_subscription i t f d)"
proof -
  define g where
    "g r = (if sub_id r = i then if f r = r then r else (f r)\<lparr>sub_updated_at := t\<rparr> else r)" for r
  have h: "row_history r (g r)" for r
    using assms [of r] by (simp add: g_def row_history_def same_identity_def)
  have "set (subscriptions (upd_subscription i t f d)) = g ` set (subscriptions d)"
    by (simp add: upd_subscription_def set_update_rows g_def [abs_def])
  then show ?thesis unfolding lifecycle_kept_def using h by auto
qed

lemma row_history_legal_move:
  assumes "subscription_update f"
  shows "row_history r (legal_move new f r)"
proof -
  have "same_identity r (f r)" using assms by (simp add: subscription_update_def)
  moreover have "lifecycle (sub_status r) new" if "transition (sub_status r) new = Inr new"
    using that by (blast intro: legal)
  ultimately show ?thesis
    by (auto simp: row_history_def legal_move_def same_identity_def)
qed

interpretation subscriptions_lifecycle: subscriptions_client lifecycle_kept
proof unfold_locales
  show "lifecycle_kept d (upd_subscription i t (legal_move new f) d)"
    if "subscription_update f" for d i t new f
    using that by (intro lifecycle_kept_update row_history_legal_move)
  show "lifecycle_kept d (upd_subscription i t f d)"
    if "subscription_update f" "\<And>r. sub_status (f r) = sub_status r" for d i t f
    using that by (intro lifecycle_kept_update) (simp add: row_history_def subscription_update_def)
  show "lifecycle_kept d (upd_subscription i t (sub_plan_id_update (\<lambda>_. pid)) d)" for d i t pid
    by (rule lifecycle_kept_update) (simp add: row_history_def same_identity_def)
  show "lifecycle_kept d (add_subscription r d)"
    if "sub_status r = trialing \<or> sub_status r = incomplete" for r d
    using that unfolding lifecycle_kept_def add_subscription_def
    by (simp add: bex_Un) (metis row_history_refl rtranclp.rtrancl_refl)
qed (auto simp: write_defs lifecycle_kept_refl
    intro: lifecycle_kept_same elim: lifecycle_kept_trans)

interpretation subscriptions_log: subscriptions_client ledger_extends
  by unfold_locales (auto simp: ledger_extends_def write_defs)

lemma same_identityD:
  assumes "\<And>r. same_identity r (f r)"
  shows "sub_id (f r) = sub_id r" "sub_public_id (f r) = sub_public_id r"
    "sub_organization_id (f r) = sub_organization_id r"
    "external_subscription_id (f r) = external_subscription_id r"
    "sub_idempotency_key (f r) = sub_idempotency_key r"
  using assms [of r] by (simp_all add: same_identity_def)

lemma db_ok_upd_subscription:
  assumes ok: "db_ok d" and id: "\<And>r. same_identity r (f r)"
    and pl: "\<And>r. sub_plan_id (f r) = sub_plan_id r \<or> sub_plan_id (f r) \<in> plan_id ` set (plans d)"
  shows "db_ok (upd_subscription i t f d)"
proof -
  let ?rows = "subscriptions (upd_subscription i t f d)"
  let ?g = "\<lambda>r. if f r = r then r else (f r)\<lparr>sub_updated_at := t\<rparr>"
  note same = same_identityD [OF id]
  have u: "unique_by key ?rows = unique_by key (subscriptions d)"
    if "\<And>r. key (?g r) = key r" for key :: "subscription \<Rightarrow> 'k option"
    using that by (simp add: upd_subscription_def unique_update_rows)
  have ids: "sub_id ` set ?rows = sub_id ` set (subscriptions d)"
    unfolding upd_subscription_def by (simp add: image_update_rows same)
  have refs: "\<forall>r \<in> set ?rows. sub_organization_id r \<in> org_id ` set (organizations d) \<and>
      sub_plan_id r \<in> plan_id ` set (plans d)"
  proof
    fix q assume "q \<in> set ?rows"
    then obtain r where r: "r \<in> set (subscriptions d)" "q = (if sub_id r = i then ?g r else r)"
      by (auto simp: upd_subscription_def set_update_rows)
    from ok r(1) have "sub_organization_id r \<in> org_id ` set (organizations d)"
      "sub_plan_id r \<in> plan_id ` set (plans d)" by (simp_all add: db_ok_def references_ok_def)
    then show "sub_organization_id q \<in> org_id ` set (organizations d) \<and>
        sub_plan_id q \<in> plan_id ` set (plans d)"
      using pl [of r] by (auto simp: r(2) same)
  qed
  have rest: "upd_subscription i t f d = d\<lparr>subscriptions := ?rows\<rparr>"
    by (simp add: upd_subscription_def)
  have "unique_key sub_id ?rows" "unique_key sub_public_id ?rows"
    "unique_by external_subscription_id ?rows" "unique_by sub_idempotency_key ?rows"
    using ok by (simp_all add: u same integrity_defs)
  with ok refs ids show ?thesis
    by (subst rest) (simp add: integrity_defs del: image_cong_simp)
qed

lemma db_ok_add_subscription:
  assumes "db_ok d" "subscription_ok r d"
  shows "db_ok (add_subscription r d)"
  using assms
  by (simp add: integrity_defs add_subscription_def subscription_ok_def unique_key_snoc
      unique_opt_snoc refers_iff)

lemma same_identity_legal_move:
  "subscription_update f \<Longrightarrow> same_identity r (legal_move new f r) \<and>
     sub_plan_id (legal_move new f r) = sub_plan_id r"
  by (auto simp: subscription_update_def legal_move_def same_identity_def)

interpretation subscriptions_integrity: subscriptions_client stays_ok
proof unfold_locales
  show "stays_ok d (upd_subscription i t (legal_move new f) d)"
    if "subscription_update f" for d i t new f
    using that by (intro stays_okI db_ok_upd_subscription) (simp_all add: same_identity_legal_move)
  show "stays_ok d (upd_subscription i t f d)"
    if "subscription_update f" for d i t f
    using that by (intro stays_okI db_ok_upd_subscription) (simp_all add: subscription_update_def)
  show "stays_ok d (upd_subscription i t (sub_plan_id_update (\<lambda>_. pid)) d)"
    if "refers plan_id pid (plans d)" for d i t pid
    using that by (intro stays_okI db_ok_upd_subscription) (simp_all add: same_identity_def refers_iff)
  show "stays_ok d (add_subscription r d)" if "subscription_ok r d" for r d
    using that by (blast intro: stays_okI db_ok_add_subscription)
qed

section \<open>Evaluation\<close>

lemma find_existing_subscription_run:
  assumes "\<not> tx_failed s" "db_ok (db s)"
  shows "find_existing_subscription k s =
    (Inr (first_row (filter (\<lambda>r. sub_idempotency_key r = Some k) (subscriptions (db s)))), s)"
  using assms scalar_one_or_none_unique [OF keys_uniqueD(5) [OF assms(2)], of k]
  by (simp add: find_existing_subscription_def)

lemma find_existing_subscription_InrD:
  assumes "find_existing_subscription k s = (Inr x, t)"
  shows "t = s \<and> \<not> tx_failed s \<and>
    x = first_row (filter (\<lambda>r. sub_idempotency_key r = Some k) (subscriptions (db s)))"
  using assms unfolding find_existing_subscription_def
  by (auto elim!: bindE_InrE dest!: query_InrD scalar_one_or_none_InrD)

lemma find_existing_subscription_found:
  assumes "find_existing_subscription k s = (Inr (Some r), t)"
  shows "t = s \<and> \<not> tx_failed s \<and> r \<in> set (subscriptions (db s)) \<and> sub_idempotency_key r = Some k"
  using find_existing_subscription_InrD [OF assms]
  by (auto dest!: first_row_in [OF sym])

lemma create_subscription_existing:
  assumes "\<not> tx_failed s" "db_ok (db s)" "r \<in> set (subscriptions (db s))"
    and "sub_idempotency_key r = Some k"
  shows "create_subscription oi pid k m s = (Inr r, s)"
  using assms find_existing_subscription_run [OF assms(1,2), of k]
    unique_by_lookup [OF keys_uniqueD(5) [OF assms(2)] assms(3,4)]
  by (simp add: create_subscription_def)

lemma find_plan_run:
  assumes "\<not> tx_failed s" "db_ok (db s)"
  shows "find_plan pid s = (Inr (first_row (filter (\<lambda>p. plan_id p = pid) (plans (db s)))), s)"
  using assms scalar_one_or_none_unique [OF keys_uniqueD(2) [OF assms(2)], of pid]
  by (simp add: find_plan_def)

lemma find_plan_found:
  assumes "\<not> tx_failed s" "db_ok (db s)" "p \<in> set (plans (db s))"
  shows "find_plan (plan_id p) s = (Inr (Some p), s)"
  using find_plan_run [OF assms(1,2), of "plan_id p"]
    unique_key_filter [OF keys_uniqueD(2) [OF assms(2)] assms(3)] by simp

lemma find_plan_missing:
  assumes "\<not> tx_failed s" "db_ok (db s)" "pid \<notin> plan_id ` set (plans (db s))"
  shows "find_plan pid s = (Inr None, s)"
proof -
  have "filter (\<lambda>p. plan_id p = pid) (plans (db s)) = []"
    using assms(3) by (auto simp: filter_empty_conv)
  then show ?thesis using find_plan_run [OF assms(1,2), of pid] by simp
qed

lemma enqueue_trial_started_frame:
  "enqueue_trial_started r s = (x, t) \<Longrightarrow> outbox_only (db s) (db t)"
  by (rule keeps_dbD [OF outbox_frame.enqueue_trial_started])

lemma usable_enqueue_trial_started: "usable (enqueue_trial_started r)"
  unfolding enqueue_trial_started_def organization_public_id_def
  by (intro usable_intros usable_enqueue_outbox)

lemma enqueue_trial_started_run:
  assumes "ready s" "g \<in> set (organizations (db s))" "org_id g = sub_organization_id r"
  shows "\<exists>t. enqueue_trial_started r s = (Inr (), t) \<and>
    event_recorded (''subscription:'' @ uuid_str (sub_public_id r) @ '':trial_started'') s t"
  unfolding enqueue_trial_started_def by (rule enqueue_for_organization_recorded [OF assms])

lemma enqueue_canceled_run:
  assumes "ready s" "g \<in> set (organizations (db s))" "org_id g = sub_organization_id r"
  shows "\<exists>t. enqueue_canceled r now s = (Inr (), t) \<and>
    event_recorded (''subscription:'' @ uuid_str (sub_public_id r) @ '':canceled'') s t"
  unfolding enqueue_canceled_def by (rule enqueue_for_organization_recorded [OF assms])

lemma enqueue_plan_changed_run:
  assumes "ready s" "g \<in> set (organizations (db s))" "org_id g = sub_organization_id r"
  shows "\<exists>t. enqueue_plan_changed r pid eff k s = (Inr (), t) \<and>
    event_recorded (''plan_change:'' @ k @ '':plan_changed'') s t"
  unfolding enqueue_plan_changed_def by (rule enqueue_for_organization_recorded [OF assms])

text \<open>A normal return of \<open>create_subscription\<close> leaves a row with the key.\<close>

lemma flush_subscription_InrD:
  assumes "flush_subscription r k s = (Inr x, t)"
  shows "\<not> tx_failed t \<and> (case x of None \<Rightarrow> r \<in> set (subscriptions (db t))
           | Some q \<Rightarrow> q \<in> set (subscriptions (db t)) \<and> sub_idempotency_key q = Some k)"
proof -
  consider "tx_failed s" | "\<not> tx_failed s" "subscription_ok r (db s)"
    | "\<not> tx_failed s" "\<not> subscription_ok r (db s)" by blast
  then show ?thesis
  proof cases
    case 3
    with assms obtain y where
      "find_existing_subscription k
         (s\<lparr>db := committed s, tx_failed := False, tx_now := clock s (clock_pos s)\<rparr>) = (Inr (Some y), t)"
      "x = Some y"
      by (auto simp: flush_subscription_def elim!: bindE_InrE split: option.splits
          dest: find_existing_subscription_InrD)
    then show ?thesis by (auto dest: find_existing_subscription_found)
  qed (use assms in \<open>auto simp: flush_subscription_def add_subscription_def\<close>)
qed

lemma create_subscription_InrD:
  assumes "create_subscription oi pid k m s = (Inr r, t)"
  shows "\<not> tx_failed t \<and> r \<in> set (subscriptions (db t)) \<and> sub_idempotency_key r = Some k"
proof -
  obtain x where x: "find_existing_subscription k s = (Inr x, s)"
    using assms unfolding create_subscription_def
    by (auto elim!: bindE_InrE dest: find_existing_subscription_InrD)
  show ?thesis
  proof (cases x)
    case (Some q)
    with x assms show ?thesis
      by (auto simp: create_subscription_def dest!: find_existing_subscription_found)
  next
    case None
    with assms x consider
      q u where "flush_subscription q k u = (Inr (Some r), t)"
    | q u v where "flush_subscription q k u = (Inr None, v)" "sub_idempotency_key q = Some k"
        "thenE (whenE (sub_status q = trialing) (enqueue_trial_started q)) (returnE q) v = (Inr r, t)"
      unfolding create_subscription_def Let_def
      by (auto elim!: bindE_InrE split: option.splits if_splits simp: new_subscription_def)
    then show ?thesis
    proof cases
      case 1
      then show ?thesis by (auto dest!: flush_subscription_InrD)
    next
      case 2
      from 2(3) have "r = q" "outbox_only (db v) (db t)" "\<not> tx_failed v \<Longrightarrow> \<not> tx_failed t"
        by (auto elim!: thenE_InrE split: if_splits dest: enqueue_trial_started_frame
            usableD [OF usable_enqueue_trial_started] simp: outbox_frame.db_refl)
      with 2 show ?thesis by (auto dest!: flush_subscription_InrD outbox_onlyD(2))
    qed
  qed
qed

section \<open>Properties\<close>

text \<open>
  C14: Creating a subscription is idempotent. Once \<^verbatim>\<open>create_subscription\<close> has returned a
  subscription for an idempotency key, also when a constraint violation made it roll back and
  return the row of another call, every later call with the key returns that row and changes
  nothing.
\<close>

theorem create_subscription_idempotent:
  assumes "db_ok (db s)" "db_ok (committed s)"
    and "create_subscription oi pid k m s = (Inr r, t)"
  shows "create_subscription oi' pid' k m' t = (Inr r, t)"
proof -
  have "stays_ok (committed s) (db s) \<longrightarrow>
      stays_ok (committed s) (committed t) \<and> stays_ok (committed t) (db t)"
    using keepsD [OF subscriptions_integrity.create_subscription assms(3)] .
  with assms(1,2) have "db_ok (db t)" by (simp add: stays_ok_def)
  then show ?thesis
    using create_subscription_InrD [OF assms(3)] by (auto intro: create_subscription_existing)
qed

text \<open>
  When a subscription can be created for organization \<open>g\<close>: the transaction is usable, the
  database intact, and the identifiers about to be drawn are new.
\<close>

definition can_create :: "session \<Rightarrow> organization \<Rightarrow> bool" where
  "can_create s g \<longleftrightarrow> \<not> tx_failed s \<and> db_ok (db s) \<and> sequence_ahead s \<and>
     g \<in> set (organizations (db s)) \<and>
     (\<forall>r \<in> set (subscriptions (db s)).
        sub_public_id r \<noteq> upcoming_uuid (s\<lparr>clock_pos := Suc (clock_pos s)\<rparr>))"

definition created_subscription ::
  "session \<Rightarrow> organization \<Rightarrow> plan \<Rightarrow> string \<Rightarrow> json_object \<Rightarrow> subscription" where
  "created_subscription s g p k md =
     new_subscription (seqs s SUBSCRIPTIONS) (upcoming_uuid (s\<lparr>clock_pos := Suc (clock_pos s)\<rparr>))
       (org_id g) p k md (clock s (clock_pos s)) (tx_now s)"

definition created_session :: "session \<Rightarrow> subscription \<Rightarrow> session" where
  "created_session s r = (after_uuid (s\<lparr>clock_pos := Suc (clock_pos s)\<rparr>))
     \<lparr>seqs := (seqs s)(SUBSCRIPTIONS := seqs s SUBSCRIPTIONS + 1), db := add_subscription r (db s)\<rparr>"

lemma created_session_simps [simp]:
  "db (created_session s r) = add_subscription r (db s)"
  "tx_failed (created_session s r) = tx_failed s" "committed (created_session s r) = committed s"
  by (simp_all add: created_session_def)

lemma created_subscription_ok:
  assumes "can_create s g" "p \<in> set (plans (db s))"
    and "\<forall>r \<in> set (subscriptions (db s)). sub_idempotency_key r \<noteq> Some k"
  shows "subscription_ok (created_subscription s g p k md) (db s)"
proof -
  let ?r = "created_subscription s g p k md"
  have "fresh sub_id ?r (subscriptions (db s))"
    using assms(1) fresh_sequence_ids(3) [of s ?r]
    by (simp add: can_create_def created_subscription_def new_subscription_def)
  with assms show ?thesis
    by (auto simp: subscription_ok_def can_create_def fresh_iff fresh_opt_iff refers_iff
        created_subscription_def new_subscription_def)
qed

lemma create_subscription_run:
  assumes can: "can_create s g" and p: "p \<in> set (plans (db s))" and pub: "published_at p \<noteq> None"
    and k: "\<forall>r \<in> set (subscriptions (db s)). sub_idempotency_key r \<noteq> Some k"
    and r: "r = created_subscription s g p k (case m of None \<Rightarrow> [] | Some m \<Rightarrow> m)"
  shows "create_subscription (org_id g) (plan_id p) k m s =
    thenE (whenE (sub_status r = trialing) (enqueue_trial_started r)) (returnE r) (created_session s r)"
proof -
  have nf: "\<not> tx_failed s" and ok: "db_ok (db s)" using can by (simp_all add: can_create_def)
  have "find_existing_subscription k s = (Inr None, s)"
    using find_existing_subscription_run [OF nf ok] k by (simp add: first_row_None filter_empty_conv)
  moreover have "subscription_ok r (db s)" using created_subscription_ok [OF can p k] r by simp
  ultimately show ?thesis
    using find_plan_found [OF nf ok p] pub nf
    by (auto simp: create_subscription_def flush_subscription_def Let_def r created_subscription_def
        created_session_def)
qed

lemma created_subscription_fields:
  "sub_organization_id (created_subscription s g p k md) = org_id g"
  "sub_plan_id (created_subscription s g p k md) = plan_id p"
  "current_period_start (created_subscription s g p k md) = clock s (clock_pos s)"
  "current_period_end (created_subscription s g p k md) = clock s (clock_pos s) +
     (if billing_interval p = ''year'' then 365 else 30) * day_us"
  "sub_status (created_subscription s g p k md) =
     (case trial_days p of None \<Rightarrow> incomplete | Some n \<Rightarrow> if 0 < n then trialing else incomplete)"
  "trial_end (created_subscription s g p k md) =
     (case trial_days p of None \<Rightarrow> None
      | Some n \<Rightarrow> if 0 < n then Some (clock s (clock_pos s) + n * day_us) else None)"
  by (auto simp: created_subscription_def new_subscription_def period_end_of_def
      timedelta_days_def initial_status_def split: option.splits)

lemma created_session_ahead:
  assumes "can_create s g"
  shows "sequence_ahead (created_session s (created_subscription s g p k md))"
  using assms
  by (auto simp: can_create_def sequence_ahead_def created_session_def add_subscription_def
      created_subscription_def new_subscription_def intro: less_trans [OF _ less_add_one])

lemma created_session_ready:
  assumes "can_create s g" "p \<in> set (plans (db s))"
    and "\<forall>r \<in> set (subscriptions (db s)). sub_idempotency_key r \<noteq> Some k"
  shows "ready (created_session s (created_subscription s g p k md))"
  using created_session_ahead [OF assms(1)] created_subscription_ok [OF assms] assms(1)
  by (simp add: ready_def can_create_def db_ok_add_subscription)

text \<open>
  A new subscription. For an existing organization, a published plan and an unused key the
  call returns a row that it appends to the table: on a plan with trial days it is trialing until
  now plus these days and a \<^verbatim>\<open>trial_started\<close> event is in the outbox; on any other plan it is
  incomplete and has no trial; the first period is 365 days for a yearly plan and 30 days
  otherwise.
\<close>

theorem create_subscription_starts:
  assumes can: "can_create s g" and p: "p \<in> set (plans (db s))" and pub: "published_at p \<noteq> None"
    and k: "\<forall>r \<in> set (subscriptions (db s)). sub_idempotency_key r \<noteq> Some k"
  shows "\<exists>r t. create_subscription (org_id g) (plan_id p) k m s = (Inr r, t) \<and>
    subscriptions (db t) = subscriptions (db s) @ [r] \<and> db_ok (db t) \<and> \<not> tx_failed t \<and>
    sub_organization_id r = org_id g \<and> sub_plan_id r = plan_id p \<and>
    current_period_end r = current_period_start r +
      (if billing_interval p = ''year'' then 365 else 30) * day_us \<and>
    (case trial_days p of
       Some n \<Rightarrow> if 0 < n
         then sub_status r = trialing \<and> trial_end r = Some (current_period_start r + n * day_us) \<and>
              outbox_key_taken (''subscription:'' @ uuid_str (sub_public_id r) @ '':trial_started'')
                (db t)
         else sub_status r = incomplete \<and> trial_end r = None
     | None \<Rightarrow> sub_status r = incomplete \<and> trial_end r = None)"
proof -
  define md where "md = (case m of None \<Rightarrow> [] | Some m \<Rightarrow> m)"
  define r where "r = created_subscription s g p k md"
  let ?u = "created_session s r"
  have nf: "\<not> tx_failed s" and ok: "db_ok (db s)" and g: "g \<in> set (organizations (db s))"
    using can by (simp_all add: can_create_def)
  have run: "create_subscription (org_id g) (plan_id p) k m s =
      thenE (whenE (sub_status r = trialing) (enqueue_trial_started r)) (returnE r) ?u"
    using create_subscription_run [OF can p pub k r_def [unfolded md_def]] .
  have u: "ready ?u" using created_session_ready [OF can p k] by (simp add: r_def)
  have g': "g \<in> set (organizations (db ?u))" using g by (simp add: add_subscription_def)
  have og: "org_id g = sub_organization_id r"
    by (simp add: r_def created_subscription_def new_subscription_def)
  obtain t where t: "create_subscription (org_id g) (plan_id p) k m s = (Inr r, t)" "\<not> tx_failed t"
    and oo: "outbox_only (db ?u) (db t)" and ev: "sub_status r = trialing \<longrightarrow>
      outbox_key_taken (''subscription:'' @ uuid_str (sub_public_id r) @ '':trial_started'') (db t)"
    and st: "stays_ok (db ?u) (db t)"
  proof (cases "sub_status r = trialing")
    case True
    let ?k = "''subscription:'' @ uuid_str (sub_public_id r) @ '':trial_started''"
    from enqueue_trial_started_run [OF u g' og]
    obtain t where e: "enqueue_trial_started r ?u = (Inr (), t)" "event_recorded ?k ?u t" by blast
    with run True have "create_subscription (org_id g) (plan_id p) k m s = (Inr r, t)" by simp
    from that [OF this] e(2) show ?thesis
      by (simp add: event_recorded_def ready_def stays_ok_def)
  next
    case False
    with that run nf show ?thesis by (simp add: outbox_frame.db_refl stays_ok_preorder)
  qed
  have "subscriptions (db t) = subscriptions (db s) @ [r]"
    using outbox_onlyD(2) [OF oo] by (simp add: add_subscription_def)
  moreover have "db_ok (db t)" using stays_okD [OF st readyD(2) [OF u]] .
  ultimately have "subscriptions (db t) = subscriptions (db s) @ [r]" "db_ok (db t)" by simp_all
  note facts = this t ev created_subscription_fields [of s g p k md, folded r_def]
  show ?thesis
    by (rule exI [of _ r], rule exI [of _ t]) (use facts in \<open>simp split: option.splits\<close>)
qed

lemma upd_subscription_frame [simp]:
  "organizations (upd_subscription i t f d) = organizations d"
  "ledger_entries (upd_subscription i t f d) = ledger_entries d"
  "outbox_messages (upd_subscription i t f d) = outbox_messages d"
  "invoices (upd_subscription i t f d) = invoices d" "plans (upd_subscription i t f d) = plans d"
  "prices (upd_subscription i t f d) = prices d"
  "dunning_campaigns (upd_subscription i t f d) = dunning_campaigns d"
  "dunning_attempts (upd_subscription i t f d) = dunning_attempts d"
  "webhook_events (upd_subscription i t f d) = webhook_events d"
  by (simp_all add: upd_subscription_def)

lemma ready_upd_subscription:
  assumes "ready s" and "\<And>r. same_identity r (f r)"
    and "\<And>r. sub_plan_id (f r) = sub_plan_id r \<or> sub_plan_id (f r) \<in> plan_id ` set (plans (db s))"
  shows "ready (s\<lparr>db := upd_subscription i t f (db s)\<rparr>)"
proof -
  have "sub_id ` set (subscriptions (upd_subscription i t f (db s))) = sub_id ` set (subscriptions (db s))"
    unfolding upd_subscription_def by (simp add: image_update_rows same_identityD [OF assms(2)])
  then have "\<forall>r \<in> set (subscriptions (upd_subscription i t f (db s))). sub_id r < seqs s SUBSCRIPTIONS"
    using assms(1) unfolding ready_def sequence_ahead_def by (metis imageE imageI)
  then show ?thesis
    using assms(1) db_ok_upd_subscription [OF _ assms(2,3)]
    by (simp add: ready_def sequence_ahead_def)
qed

lemma used_ids_upd_subscription:
  assumes "\<And>r. same_identity r (f r)"
  shows "used_ids (upd_subscription i t f d) = used_ids d"
proof -
  have "sub_public_id ` set (subscriptions (upd_subscription i t f d)) = sub_public_id ` set (subscriptions d)"
    unfolding upd_subscription_def by (simp add: image_update_rows same_identityD [OF assms])
  then show ?thesis by (simp add: used_ids_def upd_subscription_def)
qed

text \<open>The row after an update, and the other rows, which it leaves alone.\<close>

lemma upd_subscription_rows:
  assumes "r \<in> set (subscriptions d)" "f r \<noteq> r"
  shows "(f r)\<lparr>sub_updated_at := t\<rparr> \<in> set (subscriptions (upd_subscription (sub_id r) t f d))"
    and "q \<in> set (subscriptions d) \<Longrightarrow> sub_id q \<noteq> sub_id r \<Longrightarrow>
         q \<in> set (subscriptions (upd_subscription (sub_id r) t f d))"
proof -
  let ?g = "\<lambda>q. if sub_id q = sub_id r then if f q = q then q else (f q)\<lparr>sub_updated_at := t\<rparr> else q"
  have s: "set (subscriptions (upd_subscription (sub_id r) t f d)) = ?g ` set (subscriptions d)"
    by (simp add: upd_subscription_def set_update_rows)
  have "?g r \<in> ?g ` set (subscriptions d)" using assms(1) by (rule imageI)
  with assms(2) show "(f r)\<lparr>sub_updated_at := t\<rparr> \<in> set (subscriptions (upd_subscription (sub_id r) t f d))"
    unfolding s by simp
  assume q: "q \<in> set (subscriptions d)" "sub_id q \<noteq> sub_id r"
  from q(1) have "?g q \<in> ?g ` set (subscriptions d)" by (rule imageI)
  with q(2) show "q \<in> set (subscriptions (upd_subscription (sub_id r) t f d))" unfolding s by simp
qed

lemma subscription_organization:
  assumes "db_ok d" "r \<in> set (subscriptions d)"
  obtains g where "g \<in> set (organizations d)" "org_id g = sub_organization_id r"
  using assms by (auto simp: db_ok_def references_ok_def)

text \<open>
  Immediate cancellation. From a status that may be left, the subscription's row becomes
  canceled with the time of the call, a pending cancellation at the period's end is cleared, the
  \<^verbatim>\<open>subscription.canceled\<close> event is in the outbox, and no other subscription changes. From
  canceled or unpaid the call raises \<^verbatim>\<open>IllegalTransition\<close> and changes nothing.
\<close>

theorem cancel_subscription_immediate:
  assumes s: "ready s" and r: "r \<in> set (subscriptions (db s))"
  shows "if sub_status r = canceled \<or> sub_status r = unpaid
    then cancel_subscription (sub_id r) False s =
      (Inl (Exc IllegalTransition (illegal_transition_msg (sub_status r) canceled)), s)
    else \<exists>t. cancel_subscription (sub_id r) False s = (Inr (), t) \<and> ready t \<and>
      r\<lparr>sub_status := canceled, canceled_at := Some (clock s (clock_pos s)),
        cancel_at_period_end := False, sub_updated_at := tx_now s\<rparr> \<in> set (subscriptions (db t)) \<and>
      (\<forall>q \<in> set (subscriptions (db s)). sub_id q \<noteq> sub_id r \<longrightarrow> q \<in> set (subscriptions (db t))) \<and>
      outbox_key_taken (''subscription:'' @ uuid_str (sub_public_id r) @ '':canceled'') (db t)"
proof (cases "sub_status r = canceled \<or> sub_status r = unpaid")
  case True
  then have "transition (sub_status r) canceled =
      Inl (Exc IllegalTransition (illegal_transition_msg (sub_status r) canceled))"
    by (auto simp: transition_Inl)
  with True show ?thesis
    using load_subscription_run [OF readyD(1,2) [OF s] r] by (simp add: cancel_subscription_def)
next
  case False
  then have al: "canceled \<in> set (ALLOWED_TRANSITIONS (sub_status r))" by (cases "sub_status r") auto
  then have tr: "transition (sub_status r) canceled = Inr canceled" by simp
  define now where "now = clock s (clock_pos s)"
  define f where "f = (\<lambda>r::subscription. r\<lparr>canceled_at := Some now, cancel_at_period_end := False\<rparr>)"
  define u where "u = s\<lparr>clock_pos := Suc (clock_pos s)\<rparr>"
  let ?v = "u\<lparr>db := upd_subscription (sub_id r) (tx_now u) (legal_move canceled f) (db u)\<rparr>"
  have u: "ready u" "db u = db s" "tx_now u = tx_now s" using s
    by (simp_all add: u_def ready_def sequence_ahead_def)
  have upd: "subscription_update f" by (simp add: f_def subscription_update_def same_identity_def)
  have v: "ready ?v"
    using ready_upd_subscription [OF u(1), of "legal_move canceled f"] same_identity_legal_move [OF upd]
    by simp
  have mv: "move_subscription (sub_id r) canceled f u = (Inr (), ?v)"
    using move_subscription_run [OF readyD(1,2) [OF u(1)], of r] r al u(2) by simp
  obtain g where "g \<in> set (organizations (db ?v))" "org_id g = sub_organization_id r"
    using subscription_organization [OF readyD(2) [OF s] r] u(2) by auto
  from enqueue_canceled_run [OF v this] obtain t where
    e: "enqueue_canceled r now ?v = (Inr (), t)" and
    rec: "event_recorded (''subscription:'' @ uuid_str (sub_public_id r) @ '':canceled'') ?v t" by blast
  have "cancel_subscription (sub_id r) False s =
      thenE (move_subscription (sub_id r) canceled f) (enqueue_canceled r now) u"
    using load_subscription_run [OF readyD(1,2) [OF s] r] tr
    by (simp add: cancel_subscription_def u_def f_def now_def)
  with mv e have t: "cancel_subscription (sub_id r) False s = (Inr (), t)" by simp
  have subs: "subscriptions (db t) =
      subscriptions (upd_subscription (sub_id r) (tx_now s) (legal_move canceled f) (db s))"
    using rec outbox_onlyD(2) [of "db ?v" "db t"] u by (simp add: event_recorded_def)
  have lm: "legal_move canceled f r = (f r)\<lparr>sub_status := canceled\<rparr>" using tr by (simp add: legal_move_def)
  have ne: "legal_move canceled f r \<noteq> r" using False by (auto simp: lm dest: arg_cong [of _ _ sub_status])
  have "r\<lparr>sub_status := canceled, canceled_at := Some now, cancel_at_period_end := False,
      sub_updated_at := tx_now s\<rparr> = (legal_move canceled f r)\<lparr>sub_updated_at := tx_now s\<rparr>"
    unfolding lm by (simp add: f_def)
  with False t rec subs upd_subscription_rows [of r "db s" "legal_move canceled f", OF r ne] show ?thesis
    by (auto simp: event_recorded_def now_def)
qed

lemma post_proration_run:
  assumes s: "ready s" and r: "r \<in> set (subscriptions (db s))"
    and fu: "fresh_ids 1 s"
    and fk: "\<forall>e \<in> set (ledger_entries (db s)).
      le_idempotency_key e \<noteq> ''plan_change:'' @ k @ '':proration_debit'' \<and>
      le_idempotency_key e \<noteq> ''plan_change:'' @ k @ '':proration_credit''"
  shows "\<exists>t es. post_proration r pid k po pn s = (Inr (), t) \<and> ready t \<and>
    ledger_frame (db s) (db t) \<and> ledger_entries (db t) = ledger_entries (db s) @ es \<and>
    map (\<lambda>e. (entry_type e, amount_cents e, le_subscription_id e)) es =
      (if po < pn then [(proration_debit, 1, Some (sub_id r))]
       else if pn < po then [(proration_credit, -1, Some (sub_id r))] else []) \<and> tx_now t = tx_now s"
proof -
  obtain g where g: "g \<in> set (organizations (db s))" "org_id g = sub_organization_id r"
    using subscription_organization [OF readyD(2) [OF s] r] .
  have can: "can_post s g" using can_postI [of s 0 g] s g fu by simp
  have si: "\<forall>i. Some (sub_id r) = Some i \<longrightarrow> i \<in> sub_id ` set (subscriptions (db s))" using r by simp
  note post = post_entry_recorded [OF can _ si refl, unfolded g(2)]
  consider "po < pn" | "pn < po" | "po = pn" by linarith
  then show ?thesis
  proof cases
    case 1
    obtain t where "post_proration r pid k po pn s = (Inr (), t)"
      and "entry_recorded (new_entry s (sub_organization_id r) proration_debit 1 (upper ''USD'')
        (''plan_change:'' @ k @ '':proration_debit'') (''plan_change:'' @ k) (Some (sub_id r)) None None
        None [(''old_plan_id'', JStr (uuid_str (sub_plan_id r))),
              (''new_plan_id'', JStr (uuid_str pid)), (''stub'', JBool True)]) s t"
      using 1 post [of "''plan_change:'' @ k @ '':proration_debit''" proration_debit 1 "''USD''"
        "''plan_change:'' @ k" None None "[(''old_plan_id'', JStr (uuid_str (sub_plan_id r))),
              (''new_plan_id'', JStr (uuid_str pid)), (''stub'', JBool True)]"] fk
      by (auto simp: post_proration_def Let_def STUB_PRORATION_CENTS_def)
    with 1 show ?thesis by (auto simp: entry_recorded_def)
  next
    case 2
    obtain t where "post_proration r pid k po pn s = (Inr (), t)"
      and "entry_recorded (new_entry s (sub_organization_id r) proration_credit (-1) (upper ''USD'')
        (''plan_change:'' @ k @ '':proration_credit'') (''plan_change:'' @ k) (Some (sub_id r)) None None
        None [(''old_plan_id'', JStr (uuid_str (sub_plan_id r))),
              (''new_plan_id'', JStr (uuid_str pid)), (''stub'', JBool True)]) s t"
      using 2 post [of "''plan_change:'' @ k @ '':proration_credit''" proration_credit "-1" "''USD''"
        "''plan_change:'' @ k" None None "[(''old_plan_id'', JStr (uuid_str (sub_plan_id r))),
              (''new_plan_id'', JStr (uuid_str pid)), (''stub'', JBool True)]"] fk
      by (auto simp: post_proration_def Let_def STUB_PRORATION_CENTS_def)
    with 2 show ?thesis by (auto simp: entry_recorded_def)
  next
    case 3
    with s show ?thesis by (simp add: post_proration_def Let_def ledger_frame.db_refl)
  qed
qed

lemma find_plan_changed_outbox_run:
  assumes "ready s"
  shows "find_plan_changed_outbox k s = (Inr (first_row (filter (\<lambda>m. ob_idempotency_key m =
    Some (''plan_change:'' @ k @ '':plan_changed'')) (outbox_messages (db s)))), s)"
  using scalar_one_or_none_unique [OF keys_uniqueD(9) [OF readyD(2) [OF assms]]] readyD(1) [OF assms]
  by (simp add: find_plan_changed_outbox_def)

lemma change_plan_repeated:
  assumes "ready s" "outbox_key_taken (''plan_change:'' @ k @ '':plan_changed'') (db s)"
  shows "change_plan i pid ''immediate'' k s = (Inr (), s)"
proof -
  have "filter (\<lambda>m. ob_idempotency_key m = Some (''plan_change:'' @ k @ '':plan_changed''))
      (outbox_messages (db s)) \<noteq> []"
    using assms(2) by (auto simp: outbox_key_taken_def refers_def list_ex_iff filter_empty_conv)
  then show ?thesis
    using find_plan_changed_outbox_run [OF assms(1), of k]
    by (auto simp: change_plan_def first_row_def split: list.splits)
qed

text \<open>
  C15: Changing the plan. For a subscription that is neither canceled nor unpaid, a published plan
  other than the current one and an unused key, the row gets the plan, and the ledger gets at most
  one stub entry. The old and the new price are the sums of the amounts of the plan's rows that are
  active and flat: withdrawn prices, metered ones and prices of other plans do not count. The entry
  is a debit of one cent if the new price is higher, a credit of one cent if it is lower, and there
  is none if they are equal. A repetition with the same key changes nothing.
\<close>

theorem change_plan_prorates:
  assumes s: "ready s" and r: "r \<in> set (subscriptions (db s))"
    and st: "sub_status r \<noteq> canceled" "sub_status r \<noteq> unpaid"
    and p: "p \<in> set (plans (db s))" "published_at p \<noteq> None" "sub_plan_id r \<noteq> plan_id p"
    and ko: "\<not> outbox_key_taken (''plan_change:'' @ k @ '':plan_changed'') (db s)"
    and fu: "fresh_ids 1 s"
    and fk: "\<forall>e \<in> set (ledger_entries (db s)).
      le_idempotency_key e \<noteq> ''plan_change:'' @ k @ '':proration_debit'' \<and>
      le_idempotency_key e \<noteq> ''plan_change:'' @ k @ '':proration_credit''"
  shows "\<exists>t es. change_plan (sub_id r) (plan_id p) ''immediate'' k s = (Inr (), t) \<and> ready t \<and>
    r\<lparr>sub_plan_id := plan_id p, sub_updated_at := tx_now s\<rparr> \<in> set (subscriptions (db t)) \<and>
    ledger_entries (db t) = ledger_entries (db s) @ es \<and>
    (let po = (\<Sum>q \<leftarrow> [q \<leftarrow> prices (db s). price_plan_id q = sub_plan_id r \<and> price_is_active q \<and>
           pricing_model q = ''flat'']. unit_amount_cents q);
         pn = (\<Sum>q \<leftarrow> [q \<leftarrow> prices (db s). price_plan_id q = plan_id p \<and> price_is_active q \<and>
           pricing_model q = ''flat'']. unit_amount_cents q)
     in map (\<lambda>e. (entry_type e, amount_cents e, le_subscription_id e)) es =
          (if po < pn then [(proration_debit, 1, Some (sub_id r))]
           else if pn < po then [(proration_credit, -1, Some (sub_id r))] else [])) \<and>
    change_plan (sub_id r) pid ''immediate'' k t = (Inr (), t)"
proof -
  let ?po = "plan_flat_price_cents (sub_plan_id r) (db s)"
  let ?pn = "plan_flat_price_cents (plan_id p) (db s)"
  let ?f = "\<lambda>r::subscription. r\<lparr>sub_plan_id := plan_id p\<rparr>"
  obtain u es where u: "post_proration r (plan_id p) k ?po ?pn s = (Inr (), u)" "ready u"
    "ledger_frame (db s) (db u)" "ledger_entries (db u) = ledger_entries (db s) @ es"
    "map (\<lambda>e. (entry_type e, amount_cents e, le_subscription_id e)) es =
      (if ?po < ?pn then [(proration_debit, 1, Some (sub_id r))]
       else if ?pn < ?po then [(proration_credit, -1, Some (sub_id r))] else [])" "tx_now u = tx_now s"
    using post_proration_run [OF s r fu fk] by blast
  note same = ledger_frameD [OF u(3)]
  let ?v = "u\<lparr>db := upd_subscription (sub_id r) (tx_now s) ?f (db u)\<rparr>"
  have sp: "set_subscription_plan (sub_id r) (plan_id p) u = (Inr (), ?v)"
    using u(2,6) p(1) same(3) by (simp add: set_subscription_plan_def refers_iff readyD)
  have v: "ready ?v"
    using p(1) same(3) by (intro ready_upd_subscription [OF u(2)]) (simp_all add: same_identity_def)
  obtain g where "g \<in> set (organizations (db ?v))" "org_id g = sub_organization_id r"
    using subscription_organization [OF readyD(2) [OF s] r] same(2) by auto
  from enqueue_plan_changed_run [OF v this] obtain t where
    e: "enqueue_plan_changed r (plan_id p) ''immediate'' k ?v = (Inr (), t)" and
    rec: "event_recorded (''plan_change:'' @ k @ '':plan_changed'') ?v t" by blast
  have "filter (\<lambda>m. ob_idempotency_key m = Some (''plan_change:'' @ k @ '':plan_changed''))
      (outbox_messages (db s)) = []"
    using ko by (auto simp: outbox_key_taken_def refers_def list_ex_iff filter_empty_conv)
  then have "find_plan_changed_outbox k s = (Inr None, s)"
    using find_plan_changed_outbox_run [OF s] by simp
  then have t: "change_plan (sub_id r) (plan_id p) ''immediate'' k s = (Inr (), t)"
    using load_subscription_run [OF readyD(1,2) [OF s] r] find_plan_found [OF readyD(1,2) [OF s] p(1)]
      st p(2,3) u(1) sp e readyD(1) [OF s]
    by (auto simp: change_plan_def FORBIDDEN_STATUSES_def)
  have db: "subscriptions (db t) = subscriptions (db ?v)" "ledger_entries (db t) = ledger_entries (db u)"
    using rec outbox_onlyD(1,2) [of "db ?v" "db t"] by (simp_all add: event_recorded_def)
  have "?f r \<noteq> r" using p(3) by (auto dest: arg_cong [of _ _ sub_plan_id])
  with r same(1) have "r\<lparr>sub_plan_id := plan_id p, sub_updated_at := tx_now s\<rparr> \<in> set (subscriptions (db t))"
    using upd_subscription_rows(1) [of r "db u" ?f "tx_now s"] db(1) by simp
  moreover have "change_plan (sub_id r) pid ''immediate'' k t = (Inr (), t)"
    using rec by (intro change_plan_repeated) (simp_all add: event_recorded_def)
  moreover have "ready t" using rec by (simp add: event_recorded_def)
  ultimately show ?thesis
    using t u(4,5) db(2) unfolding Let_def plan_flat_price_cents_def [symmetric] by auto
qed

section \<open>The primary subscription\<close>

text \<open>The subscription of the organization changed last, the younger one of two changed together.\<close>

definition newest_subscription :: "int \<Rightarrow> database \<Rightarrow> subscription \<Rightarrow> bool" where
  "newest_subscription oi d r \<longleftrightarrow> r \<in> set (subscriptions d) \<and> sub_organization_id r = oi \<and>
     (\<forall>q \<in> set (subscriptions d). sub_organization_id q = oi \<and> q \<noteq> r \<longrightarrow>
        sub_updated_at q < sub_updated_at r \<or> sub_updated_at q = sub_updated_at r \<and> sub_id q < sub_id r)"

lemma sort_key_hd_filter:
  assumes "sort_key f xs = h # hs"
  shows "h \<in> set xs" "\<forall>x \<in> set xs. f h \<le> f x" "\<exists>ys. filter (\<lambda>x. f x = f h) xs = h # ys"
proof -
  have "set (h # hs) = set xs" using assms set_sort [of f xs] by metis
  moreover have "sorted (map f (h # hs))" using assms sorted_sort_key [of f xs] by simp
  ultimately show "h \<in> set xs" "\<forall>x \<in> set xs. f h \<le> f x" by auto
  have "filter (\<lambda>x. f x = f h) (h # hs) = filter (\<lambda>x. f x = f h) xs"
    using assms sort_key_stable [of f "f h" xs] by (metis (mono_tags, lifting))
  then show "\<exists>ys. filter (\<lambda>x. f x = f h) xs = h # ys" by (metis (mono_tags, lifting) filter.simps(2))
qed

lemma primary_subscriptionI:
  assumes "newest_subscription oi d r"
  shows "primary_subscription oi d = Some r"
proof -
  let ?xs = "filter (\<lambda>r. sub_organization_id r = oi) (subscriptions d)"
  let ?ys = "sort_key (\<lambda>r. - sub_id r) ?xs" and ?u = "\<lambda>r. - sub_updated_at r"
  have r: "r \<in> set ?xs" "\<And>q. \<lbrakk>q \<in> set ?xs; q \<noteq> r\<rbrakk> \<Longrightarrow>
      sub_updated_at q < sub_updated_at r \<or> sub_updated_at q = sub_updated_at r \<and> sub_id q < sub_id r"
    using assms by (auto simp: newest_subscription_def)
  have "set (sort_key ?u ?ys) \<noteq> {}" using r(1) by auto
  then obtain h hs where h: "sort_key ?u ?ys = h # hs" by (cases "sort_key ?u ?ys") auto
  have "h = r"
  proof (rule ccontr)
    assume ne: "h \<noteq> r"
    have m: "h \<in> set ?xs" "sub_updated_at r \<le> sub_updated_at h"
      using sort_key_hd_filter(1,2) [OF h] r(1) by auto
    then have eq: "sub_updated_at h = sub_updated_at r" "sub_id h < sub_id r" using r(2) [OF _ ne] by auto
    obtain zs where zs: "filter (\<lambda>x. ?u x = ?u h) ?ys = h # zs" using sort_key_hd_filter(3) [OF h] by blast
    have "sorted (map (\<lambda>r. - sub_id r) (filter (\<lambda>x. ?u x = ?u h) ?ys))"
      by (intro sorted_filter sorted_sort_key)
    moreover have "r \<in> set (filter (\<lambda>x. ?u x = ?u h) ?ys)" using r(1) eq(1) by simp
    ultimately have "- sub_id h \<le> - sub_id r" unfolding zs by auto
    with eq(2) show False by simp
  qed
  then show ?thesis using h by (simp add: primary_subscription_def order_by_desc_def first_row_def)
qed

section \<open>Witnesses\<close>

lemma sample_ready: "ready sample_session"
  by (simp add: ready_def sample_ok sample_sequences)

lemma sample_can_create: "can_create sample_session sample_org"
  by (simp add: can_create_def sample_ok sample_sequences upcoming_uuid_def generate_uuidv7_def)

theorem create_subscription_starts_witness:
  "\<exists>r t. create_subscription 1 201 ''k1'' None sample_session = (Inr r, t) \<and>
     subscriptions (db t) = [sample_sub, r] \<and> sub_status r = trialing \<and>
     trial_end r = Some (current_period_start r + 14 * day_us)"
  using create_subscription_starts [OF sample_can_create, of sample_plan "''k1''" None]
  by (auto simp: sample_plan_def sample_sub_def)

theorem create_subscription_idempotent_witness:
  "\<exists>r t. create_subscription 1 201 ''k1'' None sample_session = (Inr r, t) \<and>
     create_subscription 1 999 ''k1'' None t = (Inr r, t)"
proof -
  let ?r = "created_subscription sample_session sample_org sample_plan ''k1'' []"
  let ?u = "created_session sample_session ?r"
  have k: "\<forall>r \<in> set (subscriptions (db sample_session)). sub_idempotency_key r \<noteq> Some ''k1''"
    by (simp add: sample_sub_def)
  have u: "ready ?u" using created_session_ready [OF sample_can_create _ k] by simp
  obtain t where "enqueue_trial_started ?r ?u = (Inr (), t)"
    using enqueue_trial_started_run [OF u, of sample_org ?r]
    by (auto simp: created_subscription_fields add_subscription_def)
  then have rt: "create_subscription 1 201 ''k1'' None sample_session = (Inr ?r, t)"
    using create_subscription_run [OF sample_can_create _ _ k refl, of sample_plan None]
    by (simp add: created_subscription_fields sample_plan_def)
  with create_subscription_idempotent [OF _ _ rt] show ?thesis by (auto simp: sample_ok)
qed

theorem cancel_subscription_immediate_witness:
  "\<exists>t. cancel_subscription 1 False sample_session = (Inr (), t) \<and>
     sample_sub\<lparr>sub_status := canceled, canceled_at := Some (5 * day_us), sub_updated_at := 5 * day_us\<rparr>
       \<in> set (subscriptions (db t))"
  using cancel_subscription_immediate [OF sample_ready, of sample_sub]
  by (auto simp: sample_sub_def)

definition upgrade_session :: session where
  "upgrade_session = sample_session\<lparr>db := sample_db\<lparr>
     plans := [sample_plan, sample_plan\<lparr>plan_id := 202\<rparr>],
     prices := [\<lparr>price_id = 1, price_plan_id = 202, price_currency = ''USD'', unit_amount_cents = 4900,
       pricing_model = ''flat'', metered_feature_key = None, external_price_id = None,
       price_is_active = True\<rparr>,
       \<lparr>price_id = 2, price_plan_id = 201, price_currency = ''USD'', unit_amount_cents = 9900,
       pricing_model = ''flat'', metered_feature_key = None, external_price_id = None,
       price_is_active = False\<rparr>]\<rparr>\<rparr>"

lemma upgrade_ready: "ready upgrade_session"
proof -
  have "db_ok (sample_db\<lparr>plans := [sample_plan, sample_plan\<lparr>plan_id := 202\<rparr>]\<rparr>)"
    using sample_ok by (simp add: integrity_defs unique_by_def List.map_filter_simps)
  then show ?thesis
    by (simp add: upgrade_session_def ready_def integrity_defs sequence_ahead_def)
qed

theorem change_plan_prorates_witness:
  "\<exists>t e. change_plan 1 202 ''immediate'' ''up'' upgrade_session = (Inr (), t) \<and>
     (\<exists>q \<in> set (subscriptions (db t)). sub_id q = 1 \<and> sub_plan_id q = 202) \<and>
     ledger_entries (db t) = [e] \<and> entry_type e = proration_debit \<and> amount_cents e = 1"
proof -
  let ?p = "sample_plan\<lparr>plan_id := 202\<rparr>"
  have r: "sample_sub \<in> set (subscriptions (db upgrade_session))"
    and p: "?p \<in> set (plans (db upgrade_session))" "published_at ?p \<noteq> None"
      "sub_plan_id sample_sub \<noteq> plan_id ?p"
    and st: "sub_status sample_sub \<noteq> canceled" "sub_status sample_sub \<noteq> unpaid"
    and m: "\<not> outbox_key_taken (''plan_change:'' @ ''up'' @ '':plan_changed'') (db upgrade_session)"
    and l: "ledger_entries (db upgrade_session) = []"
    by (simp_all add: upgrade_session_def sample_plan_def outbox_key_taken_def refers_def)
  have pr: "(\<Sum>q \<leftarrow> [q \<leftarrow> prices (db upgrade_session). price_plan_id q = 201 \<and> price_is_active q \<and>
      pricing_model q = ''flat'']. unit_amount_cents q) = 0"
    "(\<Sum>q \<leftarrow> [q \<leftarrow> prices (db upgrade_session). price_plan_id q = 202 \<and> price_is_active q \<and>
      pricing_model q = ''flat'']. unit_amount_cents q) = 4900"
    by (simp_all add: upgrade_session_def)
  have fr: "fresh_ids 1 upgrade_session"
    by (rule fresh_small_ids) (auto simp: used_ids_def upgrade_session_def sample_db_def)
  from change_plan_prorates [where pid = 0, OF upgrade_ready r st p m fr] obtain t es where
    t: "change_plan 1 202 ''immediate'' ''up'' upgrade_session = (Inr (), t)"
      "sample_sub\<lparr>sub_plan_id := 202, sub_updated_at := tx_now upgrade_session\<rparr> \<in> set (subscriptions (db t))"
      "ledger_entries (db t) = es"
      "map (\<lambda>e. (entry_type e, amount_cents e, le_subscription_id e)) es = [(proration_debit, 1, Some 1)]"
    by (auto simp: l pr)
  from t(2) have "\<exists>q \<in> set (subscriptions (db t)). sub_id q = 1 \<and> sub_plan_id q = 202"
    by (intro bexI) auto
  with t(1,3,4) show ?thesis by auto
qed

end
