(* ===== verification/Caches.thy ===== *)
theory Caches
  imports Subscriptions
begin

text \<open>
  The two cache levels of the hot path: process-local maps with a time to live
  (\<^verbatim>\<open>services/hotpath_cache.py\<close>) and Redis (\<^verbatim>\<open>integrations/redis_cache.py\<close>), and the fixed-window
  rate limiter that counts in Redis (\<^verbatim>\<open>services/rate_limit.py\<close>). The state of a process is its
  database session, its maps, the readings of its monotonic clock, and Redis: keys with a value and
  possibly an expiry on the server's clock. Times are in microseconds. Of Redis the model uses
  the documented effect of the commands the code sends: GET, SET (with NX and EX), SETNX, INCR,
  DEL, EXPIRE and TTL.
\<close>

section \<open>Cached values\<close>

text \<open>The snapshot dictionary that the evaluator builds (\<^verbatim>\<open>_build_snapshot\<close>), features in plan order.\<close>

record feature_data =
  fd_feature_type :: string
  fd_reset_interval :: "string option"
  fd_limit :: "int option"
  fd_used :: int
  fd_seats :: "int option"
  fd_is_enabled :: bool
  fd_enforcement_mode :: string

record snapshot =
  snap_status :: subscription_status
  snap_grace_active :: bool
  snap_features :: "(string \<times> feature_data) list"
  cache_version :: "int option"

record auth_context =
  auth_organization_id :: "int option"
  auth_role :: string
  auth_key_prefix :: string
  auth_api_key_id :: uuid
  auth_organization_public_id :: "uuid option"
  auth_expires_at :: "instant option"

text \<open>A Redis value is the decimal text of an integer or the JSON text of a snapshot.\<close>

datatype redis_value = RInt int | RDict snapshot

type_synonym redis_store = "string \<rightharpoonup> redis_value \<times> int option"

record app =
  app_session :: session
  auth_by_digest :: "string \<rightharpoonup> auth_context \<times> int"
  auth_by_key_id :: "uuid \<rightharpoonup> string"
  snapshot_l1 :: "int \<rightharpoonup> snapshot \<times> int"
  org_l1 :: "uuid \<rightharpoonup> int \<times> uuid \<times> int"
  org_l1_by_id :: "int \<rightharpoonup> uuid"
  monotonic :: "nat \<Rightarrow> int"
  mono_pos :: nat
  redis_now :: int
  redis_data :: redis_store

type_synonym 'a app_op = "(app, 'a) sm"

definition on_session :: "'a op \<Rightarrow> 'a app_op" where
  "on_session m = (\<lambda>a. case m (app_session a) of (r, s) \<Rightarrow> (r, a\<lparr>app_session := s\<rparr>))"

definition time_monotonic :: "int app_op" where
  "time_monotonic = (\<lambda>a. (Inr (monotonic a (mono_pos a)), a\<lparr>mono_pos := Suc (mono_pos a)\<rparr>))"

definition setting :: "(settings \<Rightarrow> 'v) \<Rightarrow> 'v app_op" where
  "setting f = getE (\<lambda>a. f (settings (app_session a)))"

section \<open>Process-local maps\<close>

definition clear_hotpath_caches :: "unit app_op" where
  "clear_hotpath_caches = modifyE (\<lambda>a. a\<lparr>auth_by_digest := Map.empty, auth_by_key_id := Map.empty,
     snapshot_l1 := Map.empty, org_l1 := Map.empty, org_l1_by_id := Map.empty\<rparr>)"

definition drop_digest :: "string \<Rightarrow> unit app_op" where
  "drop_digest digest = modifyE (\<lambda>a. a\<lparr>auth_by_digest := (auth_by_digest a)(digest := None)\<rparr>)"

definition drop_key_id :: "uuid \<Rightarrow> unit app_op" where
  "drop_key_id kid = modifyE (\<lambda>a. a\<lparr>auth_by_key_id := (auth_by_key_id a)(kid := None)\<rparr>)"

definition cache_auth_context :: "string \<Rightarrow> auth_context \<Rightarrow> unit app_op" where
  "cache_auth_context digest ctx =
     bindE (setting auth_cache_ttl_seconds) (\<lambda>ttl.
     if ttl \<le> 0 then returnE ()
     else
       bindE (getE (\<lambda>a. auth_by_key_id a (auth_api_key_id ctx))) (\<lambda>previous.
       thenE (case previous of None \<Rightarrow> returnE () | Some p \<Rightarrow> whenE (p \<noteq> digest) (drop_digest p))
       (bindE time_monotonic (\<lambda>m.
       modifyE (\<lambda>a. a\<lparr>auth_by_digest := (auth_by_digest a)(digest \<mapsto> (ctx, m + ttl * second_us)),
                      auth_by_key_id := (auth_by_key_id a)(auth_api_key_id ctx \<mapsto> digest)\<rparr>)))))"

definition invalidate_auth_context :: "uuid \<Rightarrow> unit app_op" where
  "invalidate_auth_context kid =
     bindE (getE (\<lambda>a. auth_by_key_id a kid)) (\<lambda>digest.
     thenE (drop_key_id kid)
     (case digest of None \<Rightarrow> returnE () | Some d \<Rightarrow> drop_digest d))"

definition get_cached_auth_context :: "string \<Rightarrow> auth_context option app_op" where
  "get_cached_auth_context digest =
     bindE (getE (\<lambda>a. auth_by_digest a digest)) (\<lambda>item.
     case item of None \<Rightarrow> returnE None
     | Some (ctx, expires) \<Rightarrow>
         bindE time_monotonic (\<lambda>m.
         if expires \<le> m
         then
           thenE (drop_digest digest)
           (bindE (getE (\<lambda>a. auth_by_key_id a (auth_api_key_id ctx))) (\<lambda>d.
           thenE (whenE (d = Some digest) (drop_key_id (auth_api_key_id ctx))) (returnE None)))
         else
           (case auth_expires_at ctx of None \<Rightarrow> returnE (Some ctx)
            | Some t \<Rightarrow>
                bindE (on_session now_utc) (\<lambda>now.
                if t \<le> now
                then thenE (invalidate_auth_context (auth_api_key_id ctx)) (returnE None)
                else returnE (Some ctx)))))"

definition drop_snapshot :: "int \<Rightarrow> unit app_op" where
  "drop_snapshot oi = modifyE (\<lambda>a. a\<lparr>snapshot_l1 := (snapshot_l1 a)(oi := None)\<rparr>)"

definition get_l1_snapshot :: "int \<Rightarrow> snapshot option app_op" where
  "get_l1_snapshot oi =
     bindE (getE (\<lambda>a. snapshot_l1 a oi)) (\<lambda>item.
     case item of None \<Rightarrow> returnE None
     | Some (snap, expires) \<Rightarrow>
         bindE time_monotonic (\<lambda>m.
         if expires \<le> m then thenE (drop_snapshot oi) (returnE None) else returnE (Some snap)))"

definition set_l1_snapshot :: "int \<Rightarrow> snapshot \<Rightarrow> unit app_op" where
  "set_l1_snapshot oi snap =
     bindE (setting entitlement_l1_ttl_seconds) (\<lambda>ttl.
     if ttl \<le> 0 then returnE ()
     else bindE time_monotonic (\<lambda>m.
       modifyE (\<lambda>a. a\<lparr>snapshot_l1 := (snapshot_l1 a)(oi \<mapsto> (snap, m + ttl * second_us))\<rparr>)))"

definition drop_org :: "uuid \<Rightarrow> unit app_op" where
  "drop_org u = modifyE (\<lambda>a. a\<lparr>org_l1 := (org_l1 a)(u := None)\<rparr>)"

definition drop_org_id :: "int \<Rightarrow> unit app_op" where
  "drop_org_id oi = modifyE (\<lambda>a. a\<lparr>org_l1_by_id := (org_l1_by_id a)(oi := None)\<rparr>)"

definition drop_l1_snapshot :: "int \<Rightarrow> unit app_op" where
  "drop_l1_snapshot oi =
     thenE (drop_snapshot oi)
     (bindE (getE (\<lambda>a. org_l1_by_id a oi)) (\<lambda>u.
     thenE (drop_org_id oi)
     (case u of None \<Rightarrow> returnE () | Some u \<Rightarrow> drop_org u)))"

definition get_l1_org :: "uuid \<Rightarrow> (int \<times> uuid) option app_op" where
  "get_l1_org u =
     bindE (getE (\<lambda>a. org_l1 a u)) (\<lambda>item.
     case item of None \<Rightarrow> returnE None
     | Some (oi, stored, expires) \<Rightarrow>
         bindE time_monotonic (\<lambda>m.
         if expires \<le> m
         then
           thenE (drop_org u)
           (bindE (getE (\<lambda>a. org_l1_by_id a oi)) (\<lambda>v.
           thenE (whenE (v = Some u) (drop_org_id oi)) (returnE None)))
         else returnE (Some (oi, stored))))"

definition set_l1_org :: "uuid \<Rightarrow> int \<Rightarrow> unit app_op" where
  "set_l1_org u oi =
     bindE (setting entitlement_l1_ttl_seconds) (\<lambda>ttl.
     if ttl \<le> 0 then returnE ()
     else
       bindE (getE (\<lambda>a. org_l1_by_id a oi)) (\<lambda>previous.
       thenE (case previous of None \<Rightarrow> returnE () | Some p \<Rightarrow> whenE (p \<noteq> u) (drop_org p))
       (bindE time_monotonic (\<lambda>m.
       modifyE (\<lambda>a. a\<lparr>org_l1 := (org_l1 a)(u \<mapsto> (oi, u, m + ttl * second_us)),
                      org_l1_by_id := (org_l1_by_id a)(oi \<mapsto> u)\<rparr>)))))"

section \<open>Redis commands\<close>

fun live_at :: "int \<Rightarrow> (redis_value \<times> int option) option \<Rightarrow> redis_value option" where
  "live_at now None = None"
| "live_at now (Some (v, None)) = Some v"
| "live_at now (Some (v, Some e)) = (if now < e then Some v else None)"

definition redis_live :: "app \<Rightarrow> string \<Rightarrow> redis_value option" where
  "redis_live a k = live_at (redis_now a) (redis_data a k)"

definition redis_get :: "string \<Rightarrow> redis_value option app_op" where
  "redis_get k = getE (\<lambda>a. redis_live a k)"

definition redis_set :: "string \<Rightarrow> redis_value \<Rightarrow> int option \<Rightarrow> unit app_op" where
  "redis_set k v ex = modifyE (\<lambda>a. a\<lparr>redis_data :=
     (redis_data a)(k \<mapsto> (v, map_option (\<lambda>secs. redis_now a + secs * second_us) ex))\<rparr>)"

definition redis_set_nx :: "string \<Rightarrow> redis_value \<Rightarrow> int option \<Rightarrow> bool app_op" where
  "redis_set_nx k v ex =
     bindE (redis_get k) (\<lambda>old.
     case old of Some _ \<Rightarrow> returnE False | None \<Rightarrow> thenE (redis_set k v ex) (returnE True))"

definition redis_delete :: "string \<Rightarrow> unit app_op" where
  "redis_delete k = modifyE (\<lambda>a. a\<lparr>redis_data := (redis_data a)(k := None)\<rparr>)"

text \<open>INCR keeps the expiry of a key that exists and creates a missing key without one.\<close>

definition redis_expiry :: "app \<Rightarrow> string \<Rightarrow> int option" where
  "redis_expiry a k = (if redis_live a k = None then None else case redis_data a k of None \<Rightarrow> None | Some (_, e) \<Rightarrow> e)"

definition redis_incr :: "string \<Rightarrow> int app_op" where
  "redis_incr k =
     bindE (getE (\<lambda>a. (redis_live a k, redis_expiry a k))) (\<lambda>(old, e).
     case old of
       Some (RDict _) \<Rightarrow> raiseE ResponseError ''value is not an integer or out of range''
     | Some (RInt i) \<Rightarrow>
         if i + 1 \<ge> 2 ^ 63 then raiseE ResponseError ''increment or decrement would overflow''
         else thenE (modifyE (\<lambda>a. a\<lparr>redis_data := (redis_data a)(k \<mapsto> (RInt (i + 1), e))\<rparr>)) (returnE (i + 1))
     | None \<Rightarrow> thenE (modifyE (\<lambda>a. a\<lparr>redis_data := (redis_data a)(k \<mapsto> (RInt 1, None))\<rparr>)) (returnE 1))"

definition redis_expire :: "string \<Rightarrow> int \<Rightarrow> unit app_op" where
  "redis_expire k secs = modifyE (\<lambda>a.
     case redis_live a k of None \<Rightarrow> a
     | Some v \<Rightarrow> a\<lparr>redis_data := (redis_data a)(k \<mapsto> (v, Some (redis_now a + secs * second_us)))\<rparr>)"

text \<open>TTL: the remaining time in whole seconds (rounded), -1 without expiry, -2 without key.\<close>

definition redis_ttl :: "string \<Rightarrow> int app_op" where
  "redis_ttl k = getE (\<lambda>a.
     case redis_live a k of None \<Rightarrow> - 2
     | Some _ \<Rightarrow> (case redis_expiry a k of None \<Rightarrow> - 1
                  | Some e \<Rightarrow> (e - redis_now a + 500000) div second_us))"

section \<open>The entitlement cache in Redis\<close>

definition BUILD_LOCK_TTL_SECONDS :: int where "BUILD_LOCK_TTL_SECONDS = 5"

definition LOCK_WAIT_ATTEMPTS :: nat where "LOCK_WAIT_ATTEMPTS = 50"

definition entitlement_version_key :: "int \<Rightarrow> string" where
  "entitlement_version_key oi = ''ent:org:'' @ str_int oi @ '':version''"

definition entitlement_snapshot_key :: "int \<Rightarrow> string" where
  "entitlement_snapshot_key oi = ''ent:org:'' @ str_int oi @ '':snapshot''"

definition entitlement_build_lock_key :: "int \<Rightarrow> string" where
  "entitlement_build_lock_key oi = ''ent:org:'' @ str_int oi @ '':build_lock''"

definition get_entitlement_version :: "int \<Rightarrow> int app_op" where
  "get_entitlement_version oi =
     bindE (redis_get (entitlement_version_key oi)) (\<lambda>raw.
     case raw of None \<Rightarrow> returnE 1 | Some (RInt i) \<Rightarrow> returnE i
     | Some (RDict _) \<Rightarrow> raiseE ValueError ''invalid literal for int() with base 10'')"

definition increment_entitlement_version :: "int \<Rightarrow> int app_op" where
  "increment_entitlement_version oi =
     thenE (redis_set_nx (entitlement_version_key oi) (RInt 1) None)
     (bindE (redis_incr (entitlement_version_key oi)) (\<lambda>v.
     thenE (redis_delete (entitlement_snapshot_key oi))
     (thenE (drop_l1_snapshot oi) (returnE v))))"

definition get_cached_value :: "string \<Rightarrow> snapshot option app_op" where
  "get_cached_value k =
     bindE (redis_get k) (\<lambda>raw.
     returnE (case raw of Some (RDict d) \<Rightarrow> Some d | _ \<Rightarrow> None))"

definition set_cached_value :: "string \<Rightarrow> snapshot \<Rightarrow> int \<Rightarrow> unit app_op" where
  "set_cached_value k v ttl = redis_set k (RDict v) (Some ttl)"

definition stamp_cache_version :: "int \<Rightarrow> snapshot \<Rightarrow> snapshot app_op" where
  "stamp_cache_version oi snap =
     bindE (get_entitlement_version oi) (\<lambda>v. returnE (snap\<lparr>cache_version := Some v\<rparr>))"

text \<open>
  While a process sleeps, Redis moves on: \<open>others n\<close> is what the other clients and the clock do to
  it during the sleep with \<open>n\<close> attempts left.
\<close>

type_synonym others = "nat \<Rightarrow> int \<times> redis_store \<Rightarrow> int \<times> redis_store"

definition sleep :: "others \<Rightarrow> nat \<Rightarrow> unit app_op" where
  "sleep others n = modifyE (\<lambda>a.
     let (now, data) = others n (redis_now a, redis_data a) in a\<lparr>redis_now := now, redis_data := data\<rparr>)"

fun wait_for_snapshot :: "others \<Rightarrow> string \<Rightarrow> nat \<Rightarrow> snapshot option app_op" where
  "wait_for_snapshot others k 0 = returnE None"
| "wait_for_snapshot others k (Suc n) =
     thenE (sleep others n)
     (bindE (get_cached_value k) (\<lambda>cached.
     case cached of Some d \<Rightarrow> returnE (Some d) | None \<Rightarrow> wait_for_snapshot others k n))"

definition build_and_store :: "int \<Rightarrow> int \<Rightarrow> snapshot app_op \<Rightarrow> (snapshot \<times> bool) app_op" where
  "build_and_store oi ttl builder =
     bindE (get_cached_value (entitlement_snapshot_key oi)) (\<lambda>cached.
     case cached of Some d \<Rightarrow> returnE (d, True)
     | None \<Rightarrow>
         bindE (bindE builder (stamp_cache_version oi)) (\<lambda>snap.
         thenE (set_cached_value (entitlement_snapshot_key oi) snap ttl) (returnE (snap, False))))"

definition get_or_build_cached_snapshot ::
  "others \<Rightarrow> int \<Rightarrow> int \<Rightarrow> snapshot app_op \<Rightarrow> (snapshot \<times> bool) app_op" where
  "get_or_build_cached_snapshot others oi ttl builder =
     bindE (get_cached_value (entitlement_snapshot_key oi)) (\<lambda>cached.
     case cached of Some d \<Rightarrow> returnE (d, True)
     | None \<Rightarrow>
         bindE (redis_set_nx (entitlement_build_lock_key oi) (RInt 1) (Some BUILD_LOCK_TTL_SECONDS)) (\<lambda>acquired.
         if acquired
         then finallyE (build_and_store oi ttl builder) (redis_delete (entitlement_build_lock_key oi))
         else
           bindE (wait_for_snapshot others (entitlement_snapshot_key oi) LOCK_WAIT_ATTEMPTS) (\<lambda>waited.
           case waited of Some d \<Rightarrow> returnE (d, True)
           | None \<Rightarrow> bindE (bindE builder (stamp_cache_version oi)) (\<lambda>snap. returnE (snap, False)))))"

section \<open>Rate limiting\<close>

definition WINDOW_SECONDS :: int where "WINDOW_SECONDS = 60"

record rate_limit_decision =
  rl_allowed :: bool
  rl_remaining :: int
  retry_after_seconds :: "int option"

text \<open>\<^verbatim>\<open>strftime("%Y%m%d%H%M")\<close>; the key's identity is its text.\<close>

definition minute_stamp :: "instant \<Rightarrow> string" where
  "minute_stamp t = pad 4 (year_of t) @ pad 2 (month_of t) @ pad 2 (day_of t)
     @ pad 2 (t mod day_us div hour_us) @ pad 2 (t mod day_us div minute_us mod 60)"

definition rate_limit_window_key :: "string \<Rightarrow> instant \<Rightarrow> string" where
  "rate_limit_window_key kid now = ''rl:api_key:'' @ kid @ '':'' @ minute_stamp now"

definition incr_with_expire :: "string \<Rightarrow> int \<Rightarrow> int app_op" where
  "incr_with_expire k secs =
     bindE (redis_incr k) (\<lambda>count.
     thenE (whenE (count = 1) (redis_expire k secs)) (returnE count))"

definition check_rate_limit :: "string \<Rightarrow> int \<Rightarrow> instant \<Rightarrow> rate_limit_decision app_op" where
  "check_rate_limit kid limit now =
     (if limit \<le> 0
      then returnE \<lparr>rl_allowed = True, rl_remaining = limit, retry_after_seconds = None\<rparr>
      else
        let k = rate_limit_window_key kid now in
        bindE (incr_with_expire k WINDOW_SECONDS) (\<lambda>count.
        let allowed = (count \<le> limit);
            remaining = (if allowed then max 0 (limit - count) else 0) in
        bindE (if allowed then returnE None
               else bindE (redis_ttl k) (\<lambda>ttl.
                 returnE (Some (if 0 < ttl then max 1 ttl else WINDOW_SECONDS)))) (\<lambda>retry.
        returnE \<lparr>rl_allowed = allowed, rl_remaining = remaining, retry_after_seconds = retry\<rparr>)))"

definition rate_limit_headers :: "rate_limit_decision \<Rightarrow> int \<Rightarrow> (string \<times> string) list" where
  "rate_limit_headers d limit =
     [(''X-RateLimit-Limit'', str_int limit), (''X-RateLimit-Remaining'', str_int (rl_remaining d))]
     @ (case retry_after_seconds d of None \<Rightarrow> [] | Some r \<Rightarrow> [(''Retry-After'', str_int r)])"

definition resolve_api_rate_limit_per_minute :: "string \<Rightarrow> settings \<Rightarrow> int" where
  "resolve_api_rate_limit_per_minute role cfg =
     (if role = ''platform_admin'' then api_rate_limit_platform_admin_per_minute cfg
      else api_rate_limit_per_minute cfg)"

section \<open>Evaluation\<close>

lemma on_session_run [simp]: "m (app_session a) = (r, s) \<Longrightarrow> on_session m a = (r, a\<lparr>app_session := s\<rparr>)"
  by (simp add: on_session_def)

lemma app_primitives_run [simp]:
  "time_monotonic a = (Inr (monotonic a (mono_pos a)), a\<lparr>mono_pos := Suc (mono_pos a)\<rparr>)"
  "setting f a = (Inr (f (settings (app_session a))), a)"
  "drop_digest d a = (Inr (), a\<lparr>auth_by_digest := (auth_by_digest a)(d := None)\<rparr>)"
  "drop_key_id kid a = (Inr (), a\<lparr>auth_by_key_id := (auth_by_key_id a)(kid := None)\<rparr>)"
  "drop_snapshot oi a = (Inr (), a\<lparr>snapshot_l1 := (snapshot_l1 a)(oi := None)\<rparr>)"
  "drop_org u a = (Inr (), a\<lparr>org_l1 := (org_l1 a)(u := None)\<rparr>)"
  "drop_org_id oi a = (Inr (), a\<lparr>org_l1_by_id := (org_l1_by_id a)(oi := None)\<rparr>)"
  "redis_get k a = (Inr (redis_live a k), a)"
  "redis_set k v ex a = (Inr (), a\<lparr>redis_data :=
     (redis_data a)(k \<mapsto> (v, map_option (\<lambda>secs. redis_now a + secs * second_us) ex))\<rparr>)"
  "redis_delete k a = (Inr (), a\<lparr>redis_data := (redis_data a)(k := None)\<rparr>)"
  by (simp_all add: time_monotonic_def setting_def drop_digest_def drop_key_id_def drop_snapshot_def
      drop_org_def drop_org_id_def redis_get_def redis_set_def redis_delete_def)

lemma redis_live_cong [simp]:
  "redis_live (a\<lparr>app_session := s\<rparr>) k = redis_live a k"
  "redis_live (a\<lparr>mono_pos := n\<rparr>) k = redis_live a k"
  "redis_live (a\<lparr>snapshot_l1 := sl\<rparr>) k = redis_live a k"
  "redis_live (a\<lparr>org_l1 := ol\<rparr>) k = redis_live a k"
  "redis_live (a\<lparr>org_l1_by_id := oi\<rparr>) k = redis_live a k"
  by (simp_all add: redis_live_def)

lemma redis_live_update [simp]:
  "redis_live (a\<lparr>redis_data := (redis_data a)(k := None)\<rparr>) k' = (if k' = k then None else redis_live a k')"
  "redis_live (a\<lparr>redis_data := (redis_data a)(k \<mapsto> (v, None))\<rparr>) k' = (if k' = k then Some v else redis_live a k')"
  "redis_live (a\<lparr>redis_data := (redis_data a)(k \<mapsto> (v, Some e))\<rparr>) k' =
     (if k' = k then if redis_now a < e then Some v else None else redis_live a k')"
  by (simp_all add: redis_live_def)

text \<open>The keys of the entitlement cache are distinct, within and across organizations.\<close>

lemma str_int_colon: "CHR '':'' \<notin> set (str_int i)"
proof -
  have "CHR '':'' \<notin> set (str_nat n)" for n
    using isdigit_str_nat [of n] by (auto simp: isdigit_def list_all_iff is_digit_def)
  then show ?thesis by (simp add: str_int_def)
qed

lemma colon_split:
  assumes "CHR '':'' \<notin> set u" "CHR '':'' \<notin> set u'"
  shows "u @ CHR '':'' # v = u' @ CHR '':'' # v' \<longleftrightarrow> u = u' \<and> v = v'"
proof
  assume eq: "u @ CHR '':'' # v = u' @ CHR '':'' # v'"
  have "u = u'"
  proof -
    have "takeWhile (\<lambda>c. c \<noteq> CHR '':'') (w @ CHR '':'' # z) = w" if "CHR '':'' \<notin> set w" for w z
      using that by (induction w) auto
    then show ?thesis using eq assms by metis
  qed
  with eq show "u = u' \<and> v = v'" by simp
qed simp

lemma entitlement_keys [simp]:
  "entitlement_version_key i \<noteq> entitlement_snapshot_key j" "entitlement_snapshot_key i \<noteq> entitlement_version_key j"
  "entitlement_version_key i \<noteq> entitlement_build_lock_key j" "entitlement_build_lock_key i \<noteq> entitlement_version_key j"
  "entitlement_snapshot_key i \<noteq> entitlement_build_lock_key j" "entitlement_build_lock_key i \<noteq> entitlement_snapshot_key j"
  "entitlement_snapshot_key i = entitlement_snapshot_key j \<longleftrightarrow> i = j"
  "entitlement_version_key i = entitlement_version_key j \<longleftrightarrow> i = j"
  using str_int_colon colon_split [OF str_int_colon str_int_colon]
  by (simp_all add: entitlement_version_key_def entitlement_snapshot_key_def entitlement_build_lock_key_def
      inj_str_int)

section \<open>The maps stay consistent\<close>

text \<open>
  The reverse map knows every entry of the forward map, so dropping an entry by its identity
  leaves nothing behind.
\<close>

definition indexed :: "('y \<Rightarrow> 'k) \<Rightarrow> ('x \<rightharpoonup> 'y) \<Rightarrow> ('k \<rightharpoonup> 'x) \<Rightarrow> bool" where
  "indexed key f g \<longleftrightarrow> (\<forall>x y. f x = Some y \<longrightarrow> g (key y) = Some x)"

fun without :: "('x \<rightharpoonup> 'y) \<Rightarrow> 'x option \<Rightarrow> ('x \<rightharpoonup> 'y)" where
  "without f None = f"
| "without f (Some x) = f(x := None)"

lemma without_Some: "without f v x = Some y \<longleftrightarrow> f x = Some y \<and> v \<noteq> Some x"
  by (cases v) auto

lemma indexedD: "indexed key f g \<Longrightarrow> f x = Some y \<Longrightarrow> g (key y) = Some x"
  by (simp add: indexed_def)

lemma indexed_drop:
  assumes "indexed key f g"
  shows "indexed key (without f (g k)) (g(k := None))"
    and "g k = Some x \<Longrightarrow> indexed key (f(x := None)) (g(k := None))"
    and "indexed key (f(z := None)) g"
  using indexedD [OF assms] by (auto simp: indexed_def without_Some)

lemma indexed_put:
  assumes "indexed key f g"
  shows "g (key y) = None \<Longrightarrow> indexed key (f(x \<mapsto> y)) (g(key y \<mapsto> x))"
    and "g (key y) = Some x \<Longrightarrow> indexed key (f(x \<mapsto> y)) g"
    and "g (key y) = Some p \<Longrightarrow> indexed key (f(p := None, x \<mapsto> y)) (g(key y \<mapsto> x))"
  using indexedD [OF assms] by (auto simp: indexed_def) fastforce+

lemma indexed_gone:
  assumes "indexed key f g" "without f (g k) z = Some y"
  shows "key y \<noteq> k"
  using indexedD [OF assms(1), of z y] assms(2) by (auto simp: without_Some)

abbreviation auth_key :: "auth_context \<times> int \<Rightarrow> uuid" where
  "auth_key item \<equiv> auth_api_key_id (fst item)"

definition caches_ok :: "app \<Rightarrow> bool" where
  "caches_ok a \<longleftrightarrow> indexed auth_key (auth_by_digest a) (auth_by_key_id a) \<and>
     indexed fst (org_l1 a) (org_l1_by_id a) \<and> (\<forall>u i v e. org_l1 a u = Some (i, v, e) \<longrightarrow> v = u)"

abbreviation keeps_caches :: "'a app_op \<Rightarrow> bool" where
  "keeps_caches \<equiv> keeps (\<lambda>a b. caches_ok a \<longrightarrow> caches_ok b)"

interpretation caches_inv: step_preorder "\<lambda>a b. caches_ok a \<longrightarrow> caches_ok b"
  by unfold_locales simp_all

lemma caches_ok_other [simp]:
  "caches_ok (a\<lparr>app_session := s\<rparr>) = caches_ok a" "caches_ok (a\<lparr>mono_pos := n\<rparr>) = caches_ok a"
  "caches_ok (a\<lparr>snapshot_l1 := sl\<rparr>) = caches_ok a" "caches_ok (a\<lparr>redis_data := rd\<rparr>) = caches_ok a"
  "caches_ok (a\<lparr>redis_now := t, redis_data := rd\<rparr>) = caches_ok a"
  by (simp_all add: caches_ok_def)

lemma cache_auth_context_ok: "keeps_caches (cache_auth_context d ctx)"
proof (rule keepsI, rule impI)
  fix a assume ok: "caches_ok a"
  then have ix: "indexed auth_key (auth_by_digest a) (auth_by_key_id a)" by (simp add: caches_ok_def)
  show "caches_ok (snd (cache_auth_context d ctx a))"
  proof (cases "auth_by_key_id a (auth_api_key_id ctx)")
    case None
    with ok indexed_put(1) [OF ix, of "(ctx, e)" for e] show ?thesis
      by (simp add: cache_auth_context_def caches_ok_def)
  next
    case (Some p)
    with ok indexed_put(3) [OF ix, of "(ctx, e)" p for e] indexed_put(2) [OF ix, of "(ctx, e)" for e]
    show ?thesis by (cases "p = d") (simp_all add: cache_auth_context_def caches_ok_def fun_upd_idem)
  qed
qed

lemma invalidate_auth_context_run:
  "invalidate_auth_context kid a = (Inr (), a\<lparr>auth_by_key_id := (auth_by_key_id a)(kid := None),
     auth_by_digest := without (auth_by_digest a) (auth_by_key_id a kid)\<rparr>)"
  by (cases "auth_by_key_id a kid") (simp_all add: invalidate_auth_context_def)

lemma invalidate_auth_context_ok: "keeps_caches (invalidate_auth_context kid)"
  using indexed_drop(1) by (intro keepsI) (auto simp: invalidate_auth_context_run caches_ok_def)

lemma get_cached_auth_context_ok: "keeps_caches (get_cached_auth_context d)"
proof (rule keepsI, rule impI)
  fix a assume ok: "caches_ok a"
  then have ix: "indexed auth_key (auth_by_digest a) (auth_by_key_id a)" by (simp add: caches_ok_def)
  show "caches_ok (snd (get_cached_auth_context d a))"
  proof (cases "auth_by_digest a d")
    case None
    with ok show ?thesis by (simp add: get_cached_auth_context_def)
  next
    case (Some item)
    obtain ctx e where item: "item = (ctx, e)" by fastforce
    have g: "auth_by_key_id a (auth_api_key_id ctx) = Some d" using indexedD [OF ix Some] item by simp
    show ?thesis
    proof (cases "e \<le> monotonic a (mono_pos a)")
      case True
      with ok Some item g indexed_drop(2) [OF ix g] show ?thesis
        by (simp add: get_cached_auth_context_def caches_ok_def)
    next
      case False
      with ok Some item g indexed_drop(2) [OF ix g] show ?thesis
        by (cases "auth_expires_at ctx")
          (simp_all add: get_cached_auth_context_def invalidate_auth_context_run caches_ok_def)
    qed
  qed
qed

lemma drop_l1_snapshot_run:
  "drop_l1_snapshot oi a = (Inr (), a\<lparr>snapshot_l1 := (snapshot_l1 a)(oi := None),
     org_l1_by_id := (org_l1_by_id a)(oi := None),
     org_l1 := without (org_l1 a) (org_l1_by_id a oi)\<rparr>)"
  by (cases "org_l1_by_id a oi") (simp_all add: drop_l1_snapshot_def)

lemma drop_l1_snapshot_ok: "keeps_caches (drop_l1_snapshot oi)"
proof (rule keepsI, rule impI)
  fix a assume ok: "caches_ok a"
  let ?f = "without (org_l1 a) (org_l1_by_id a oi)"
  have "\<forall>u i v e. ?f u = Some (i, v, e) \<longrightarrow> v = u" using ok by (auto simp: caches_ok_def without_Some)
  moreover have "indexed fst ?f ((org_l1_by_id a)(oi := None))"
    using ok by (intro indexed_drop(1)) (simp add: caches_ok_def)
  ultimately show "caches_ok (snd (drop_l1_snapshot oi a))"
    using ok by (simp add: drop_l1_snapshot_run caches_ok_def)
qed

lemma set_l1_org_ok: "keeps_caches (set_l1_org u oi)"
proof (rule keepsI, rule impI)
  fix a assume ok: "caches_ok a"
  then have ix: "indexed fst (org_l1 a) (org_l1_by_id a)" by (simp add: caches_ok_def)
  show "caches_ok (snd (set_l1_org u oi a))"
  proof (cases "org_l1_by_id a oi")
    case None
    with ok indexed_put(1) [OF ix, of "(oi, u, e)" for e] show ?thesis
      by (simp add: set_l1_org_def caches_ok_def)
  next
    case (Some p)
    with ok indexed_put(3) [OF ix, of "(oi, u, e)" p for e] indexed_put(2) [OF ix, of "(oi, u, e)" for e]
    show ?thesis by (cases "p = u") (simp_all add: set_l1_org_def caches_ok_def fun_upd_idem)
  qed
qed

lemma get_l1_org_ok: "keeps_caches (get_l1_org u)"
proof (rule keepsI, rule impI)
  fix a assume ok: "caches_ok a"
  then have ix: "indexed fst (org_l1 a) (org_l1_by_id a)" by (simp add: caches_ok_def)
  show "caches_ok (snd (get_l1_org u a))"
  proof (cases "org_l1 a u")
    case None
    with ok show ?thesis by (simp add: get_l1_org_def)
  next
    case (Some item)
    obtain oi v e where item: "item = (oi, v, e)" by (cases item) auto
    have g: "org_l1_by_id a oi = Some u" using indexedD [OF ix Some] item by simp
    with ok Some item indexed_drop(2) [OF ix g] show ?thesis
      by (simp add: get_l1_org_def caches_ok_def)
  qed
qed

section \<open>Properties\<close>

lemma get_cached_auth_context_Some:
  assumes "get_cached_auth_context d a = (Inr (Some ctx), b)"
  shows "\<exists>e. auth_by_digest a d = Some (ctx, e) \<and> monotonic a (mono_pos a) < e \<and>
    (\<forall>t. auth_expires_at ctx = Some t \<longrightarrow> clock (app_session a) (clock_pos (app_session a)) < t)"
  using assms
  by (auto simp: get_cached_auth_context_def bindE_def thenE_def invalidate_auth_context_run
      split: option.splits prod.splits if_splits)

text \<open>
  A revoked or rotated key is not served from the process cache. The reverse map is kept in
  step with the forward map, so after \<^verbatim>\<open>invalidate_auth_context(api_key_id)\<close> no bearer digest
  yields a cached context of that key, and whatever context the cache does serve is not past the
  expiry of its entry or of its key.
\<close>

theorem invalidated_key_not_served:
  assumes ok: "caches_ok a" and inv: "invalidate_auth_context kid a = (r, b)"
  shows "caches_ok b \<and> (\<forall>d ctx c. get_cached_auth_context d b = (Inr (Some ctx), c) \<longrightarrow>
    auth_api_key_id ctx \<noteq> kid \<and>
    (\<forall>t. auth_expires_at ctx = Some t \<longrightarrow> clock (app_session b) (clock_pos (app_session b)) < t))"
proof (intro conjI allI impI)
  show "caches_ok b" using keepsD [OF invalidate_auth_context_ok inv] ok by simp
  fix d ctx c assume g: "get_cached_auth_context d b = (Inr (Some ctx), c)"
  from get_cached_auth_context_Some [OF g] obtain e where e: "auth_by_digest b d = Some (ctx, e)" by blast
  have ix: "indexed auth_key (auth_by_digest a) (auth_by_key_id a)" using ok by (simp add: caches_ok_def)
  have "without (auth_by_digest a) (auth_by_key_id a kid) d = Some (ctx, e)"
    using e inv by (auto simp: invalidate_auth_context_run)
  from indexed_gone [OF ix this] show "auth_api_key_id ctx \<noteq> kid" by simp
  fix t assume "auth_expires_at ctx = Some t"
  with get_cached_auth_context_Some [OF g] show "clock (app_session b) (clock_pos (app_session b)) < t" by blast
qed

text \<open>The version Redis holds for an organization; an absent key counts as 1.\<close>

definition version_of :: "app \<Rightarrow> int \<Rightarrow> int option" where
  "version_of a oi = (case redis_live a (entitlement_version_key oi) of None \<Rightarrow> Some 1
     | Some (RInt i) \<Rightarrow> Some i | Some (RDict _) \<Rightarrow> None)"

lemma redis_incr_live:
  assumes "redis_live a k = Some (RInt i)" "i + 1 < 2 ^ 63"
  shows "redis_incr k a = (Inr (i + 1), a\<lparr>redis_data := (redis_data a)(k \<mapsto> (RInt (i + 1), redis_expiry a k))\<rparr>)"
  using assms by (simp add: redis_incr_def)

lemma redis_expiry_live:
  assumes "redis_live a k = Some v"
  shows "redis_live (a\<lparr>redis_data := (redis_data a)(k \<mapsto> (w, redis_expiry a k))\<rparr>) k = Some w"
proof -
  obtain e where e: "redis_data a k = Some (v, e)" "e = None \<or> (\<exists>t. e = Some t \<and> redis_now a < t)"
    using assms unfolding redis_live_def
    by (cases "(redis_now a, redis_data a k)" rule: live_at.cases) (auto split: if_splits)
  then show ?thesis using assms by (auto simp: redis_expiry_def)
qed

lemma redis_live_expiry_other:
  "k' \<noteq> k \<Longrightarrow> redis_live (a\<lparr>redis_data := (redis_data a)(k \<mapsto> x)\<rparr>) k' = redis_live a k'"
  by (simp add: redis_live_def)

lemma increment_entitlement_version_run:
  assumes v: "version_of a oi = Some v" "v + 1 < 2 ^ 63"
  shows "\<exists>b. increment_entitlement_version oi a = (Inr (v + 1), b) \<and> app_session b = app_session a \<and>
    redis_live b (entitlement_version_key oi) = Some (RInt (v + 1)) \<and>
    (\<forall>k. k \<noteq> entitlement_version_key oi \<longrightarrow>
       redis_live b k = (if k = entitlement_snapshot_key oi then None else redis_live a k)) \<and>
    snapshot_l1 b = (snapshot_l1 a)(oi := None) \<and> org_l1_by_id b = (org_l1_by_id a)(oi := None) \<and>
    org_l1 b = without (org_l1 a) (org_l1_by_id a oi)"
proof -
  let ?k = "entitlement_version_key oi"
  obtain a' where a': "redis_set_nx ?k (RInt 1) None a = (Inr (redis_live a ?k = None), a')"
    and live: "redis_live a' ?k = Some (RInt v)"
    and rest: "a' = a\<lparr>redis_data := redis_data a'\<rparr>" "\<And>k'. k' \<noteq> ?k \<Longrightarrow> redis_live a' k' = redis_live a k'"
  proof (cases "redis_live a ?k")
    case None
    let ?a = "a\<lparr>redis_data := (redis_data a)(?k \<mapsto> (RInt 1, None))\<rparr>"
    from None v have "v = 1" by (simp add: version_of_def)
    with None show ?thesis by (intro that [of ?a]) (simp_all add: redis_set_nx_def)
  next
    case (Some x)
    with v have "x = RInt v" by (auto simp: version_of_def split: redis_value.splits)
    with Some show ?thesis by (intro that [of a]) (simp_all add: redis_set_nx_def)
  qed
  let ?a2 = "a'\<lparr>redis_data := (redis_data a')(?k \<mapsto> (RInt (v + 1), redis_expiry a' ?k))\<rparr>"
  let ?a3 = "?a2\<lparr>redis_data := (redis_data ?a2)(entitlement_snapshot_key oi := None)\<rparr>"
  let ?b = "snd (drop_l1_snapshot oi ?a3)"
  have run: "increment_entitlement_version oi a = (Inr (v + 1), ?b)"
    using a' redis_incr_live [OF live v(2)] by (simp add: increment_entitlement_version_def drop_l1_snapshot_run)
  have l2: "redis_live ?a2 ?k = Some (RInt (v + 1))" using redis_expiry_live [OF live] .
  have lb: "redis_live ?b k' = (if k' = entitlement_snapshot_key oi then None else redis_live ?a2 k')" for k'
    by (simp add: drop_l1_snapshot_run redis_live_def)
  have l3: "redis_live ?a2 k' = redis_live a k'" if "k' \<noteq> ?k" for k'
    using that rest(2) by (simp add: redis_live_expiry_other)
  have ab: "org_l1 a' = org_l1 a" "org_l1_by_id a' = org_l1_by_id a" "snapshot_l1 a' = snapshot_l1 a"
    "app_session a' = app_session a"
    by (subst rest(1), simp)+
  show ?thesis
    using run l2 l3 lb ab by (intro exI [of _ ?b]) (auto simp: drop_l1_snapshot_run)
qed

text \<open>
  Bumping the version invalidates both cache levels. Whatever Redis held (an integer below its
  maximum, or nothing), the version of the organization grows by exactly one, the snapshot is gone
  from Redis and from the process, and so is the cached identity of the organization; other
  organizations keep their versions and their snapshots.
\<close>

theorem increment_entitlement_version_invalidates:
  assumes ok: "caches_ok a" and v: "version_of a oi = Some v" "v + 1 < 2 ^ 63"
  shows "\<exists>b. increment_entitlement_version oi a = (Inr (v + 1), b) \<and> version_of b oi = Some (v + 1) \<and>
    redis_live b (entitlement_snapshot_key oi) = None \<and> snapshot_l1 b oi = None \<and>
    (\<forall>u i w e. org_l1 b u = Some (i, w, e) \<longrightarrow> i \<noteq> oi) \<and>
    (\<forall>j. j \<noteq> oi \<longrightarrow> version_of b j = version_of a j \<and> snapshot_l1 b j = snapshot_l1 a j \<and>
       redis_live b (entitlement_snapshot_key j) = redis_live a (entitlement_snapshot_key j))"
proof -
  obtain b where b: "increment_entitlement_version oi a = (Inr (v + 1), b)"
    "redis_live b (entitlement_version_key oi) = Some (RInt (v + 1))"
    "\<forall>k. k \<noteq> entitlement_version_key oi \<longrightarrow>
       redis_live b k = (if k = entitlement_snapshot_key oi then None else redis_live a k)"
    "snapshot_l1 b = (snapshot_l1 a)(oi := None)" "org_l1 b = without (org_l1 a) (org_l1_by_id a oi)"
    using increment_entitlement_version_run [OF v] by blast
  have ix: "indexed fst (org_l1 a) (org_l1_by_id a)" using ok by (simp add: caches_ok_def)
  have "i \<noteq> oi" if "org_l1 b u = Some (i, w, e)" for u i w e
    using indexed_gone [OF ix, of oi u "(i, w, e)"] that b(5) by simp
  with b show ?thesis by (intro exI [of _ b]) (auto simp: version_of_def)
qed

text \<open>
  C27: The build lock is released. Whatever the builder does, also when it raises, after
  \<^verbatim>\<open>get_or_build_cached_snapshot\<close> has taken the lock of an organization the lock is gone again, so a
  failing build does not block the next request.
\<close>

theorem build_lock_released:
  assumes "redis_live a (entitlement_snapshot_key oi) = None" "redis_live a (entitlement_build_lock_key oi) = None"
    and "get_or_build_cached_snapshot others oi ttl builder a = (r, b)"
  shows "redis_live b (entitlement_build_lock_key oi) = None"
proof -
  let ?l = "entitlement_build_lock_key oi"
  let ?a = "a\<lparr>redis_data := (redis_data a)(?l \<mapsto> (RInt 1, Some (redis_now a + BUILD_LOCK_TTL_SECONDS * second_us)))\<rparr>"
  obtain q c where q: "build_and_store oi ttl builder ?a = (q, c)" by fastforce
  have "get_cached_value (entitlement_snapshot_key oi) a = (Inr None, a)"
    using assms(1) by (simp add: get_cached_value_def)
  moreover have "redis_set_nx ?l (RInt 1) (Some BUILD_LOCK_TTL_SECONDS) a = (Inr True, ?a)"
    using assms(2) by (simp add: redis_set_nx_def)
  ultimately have "get_or_build_cached_snapshot others oi ttl builder a =
      (q, c\<lparr>redis_data := (redis_data c)(?l := None)\<rparr>)"
    using q by (simp add: get_or_build_cached_snapshot_def)
  with assms(3) show ?thesis by auto
qed

text \<open>
  Requests of one key: each has its wall-clock time and the time that has passed on the Redis
  server since the previous one.
\<close>

definition serve_request :: "string \<Rightarrow> int \<Rightarrow> instant \<times> int \<Rightarrow> rate_limit_decision list \<Rightarrow> rate_limit_decision list app_op" where
  "serve_request kid limit req acc =
     thenE (modifyE (\<lambda>a. a\<lparr>redis_now := redis_now a + snd req\<rparr>))
     (bindE (check_rate_limit kid limit (fst req)) (\<lambda>d. returnE (acc @ [d])))"

definition serve_requests :: "string \<Rightarrow> int \<Rightarrow> (instant \<times> int) list \<Rightarrow> rate_limit_decision list app_op" where
  "serve_requests kid limit reqs = foldE (serve_request kid limit) reqs []"

text \<open>What the limiter should answer to the request with number \<open>n\<close> (from 1) of a window.\<close>

definition fair_decision :: "int \<Rightarrow> int \<Rightarrow> rate_limit_decision \<Rightarrow> bool" where
  "fair_decision limit n d \<longleftrightarrow> (rl_allowed d \<longleftrightarrow> n \<le> limit) \<and> rl_remaining d = max 0 (limit - n) \<and>
     (case retry_after_seconds d of None \<Rightarrow> n \<le> limit | Some r \<Rightarrow> limit < n \<and> 1 \<le> r \<and> r \<le> WINDOW_SECONDS)"

definition counting :: "string \<Rightarrow> int \<Rightarrow> int \<Rightarrow> app \<Rightarrow> bool" where
  "counting k c e a \<longleftrightarrow> redis_data a k = Some (RInt c, Some e) \<and> redis_now a < e \<and>
     e \<le> redis_now a + WINDOW_SECONDS * second_us"

lemma retry_bounds:
  assumes "0 < d" "d \<le> 60 * second_us"
  shows "(d + 500000) div second_us \<le> 60"
  using assms by linarith

lemma check_rate_limit_counted:
  assumes "0 < limit" "counting (rate_limit_window_key kid now) c e a"
  shows "\<exists>d. bindE (if c \<le> limit then returnE None
       else bindE (redis_ttl (rate_limit_window_key kid now)) (\<lambda>ttl.
         returnE (Some (if 0 < ttl then max 1 ttl else WINDOW_SECONDS)))) (\<lambda>retry.
     returnE \<lparr>rl_allowed = c \<le> limit, rl_remaining = if c \<le> limit then max 0 (limit - c) else 0,
       retry_after_seconds = retry\<rparr>) a = (Inr d, a) \<and> fair_decision limit c d"
proof (cases "c \<le> limit")
  case True
  then show ?thesis by (simp add: fair_decision_def)
next
  case False
  let ?k = "rate_limit_window_key kid now" and ?d = "e - redis_now a"
  have live: "redis_live a ?k = Some (RInt c)" "redis_expiry a ?k = Some e"
    using assms(2) by (simp_all add: counting_def redis_live_def redis_expiry_def)
  have "0 < ?d" "?d \<le> 60 * second_us" using assms(2) by (simp_all add: counting_def WINDOW_SECONDS_def)
  from retry_bounds [OF this] False live show ?thesis
    by (auto simp: redis_ttl_def fair_decision_def WINDOW_SECONDS_def)
qed

lemma check_rate_limit_first:
  assumes "0 < limit" "redis_live a (rate_limit_window_key kid now) = None"
  shows "\<exists>d b e. check_rate_limit kid limit now a = (Inr d, b) \<and> fair_decision limit 1 d \<and>
    counting (rate_limit_window_key kid now) 1 e b \<and> redis_now b = redis_now a \<and> e = redis_now a + WINDOW_SECONDS * second_us"
proof -
  let ?k = "rate_limit_window_key kid now" and ?e = "redis_now a + WINDOW_SECONDS * second_us"
  let ?b = "a\<lparr>redis_data := (redis_data a)(?k \<mapsto> (RInt 1, Some ?e))\<rparr>"
  have inc: "incr_with_expire ?k WINDOW_SECONDS a = (Inr 1, ?b)"
    using assms(2) by (simp add: incr_with_expire_def redis_incr_def redis_expire_def)
  have c: "counting ?k 1 ?e ?b" by (simp add: counting_def WINDOW_SECONDS_def)
  show ?thesis
    using check_rate_limit_counted [OF assms(1) c] inc c assms(1)
    by (auto simp: check_rate_limit_def Let_def)
qed

lemma check_rate_limit_next:
  assumes "0 < limit" "counting (rate_limit_window_key kid now) c e a" "0 < c" "c + 1 < 2 ^ 63"
  shows "\<exists>d b. check_rate_limit kid limit now a = (Inr d, b) \<and> fair_decision limit (c + 1) d \<and>
    counting (rate_limit_window_key kid now) (c + 1) e b \<and> redis_now b = redis_now a"
proof -
  let ?k = "rate_limit_window_key kid now"
  let ?b = "a\<lparr>redis_data := (redis_data a)(?k \<mapsto> (RInt (c + 1), Some e))\<rparr>"
  have "redis_live a ?k = Some (RInt c)" "redis_expiry a ?k = Some e"
    using assms(2) by (simp_all add: counting_def redis_live_def redis_expiry_def)
  then have inc: "incr_with_expire ?k WINDOW_SECONDS a = (Inr (c + 1), ?b)"
    using redis_incr_live [of a ?k c] assms(3,4) by (simp add: incr_with_expire_def)
  have cb: "counting ?k (c + 1) e ?b" using assms(2) by (simp add: counting_def)
  show ?thesis
    using check_rate_limit_counted [OF assms(1) cb] inc cb assms(1)
    by (auto simp: check_rate_limit_def Let_def)
qed

lemma serve_requests_counting:
  assumes "0 < limit" "counting k c e a" "0 < c" "c + int (length reqs) < 2 ^ 63"
    and "\<forall>req \<in> set reqs. rate_limit_window_key kid (fst req) = k \<and> 0 \<le> snd req"
    and "redis_now a + sum_list (map snd reqs) < e"
  shows "\<exists>ds b. foldE (serve_request kid limit) reqs acc a = (Inr (acc @ ds), b) \<and> length ds = length reqs \<and>
    (\<forall>i < length ds. fair_decision limit (c + int i + 1) (ds ! i))"
  using assms(2-)
proof (induction reqs arbitrary: a c acc)
  case Nil
  then show ?case by simp
next
  case (Cons req reqs)
  let ?a = "a\<lparr>redis_now := redis_now a + snd req\<rparr>"
  have key: "rate_limit_window_key kid (fst req) = k" and dt: "0 \<le> snd req"
    and later: "0 \<le> sum_list (map snd reqs)"
    using Cons.prems(4) by (auto intro!: sum_list_nonneg)
  have "counting k c e ?a" using Cons.prems(1,5) dt later by (simp add: counting_def)
  then obtain d b where d: "check_rate_limit kid limit (fst req) ?a = (Inr d, b)" "fair_decision limit (c + 1) d"
    and b: "counting k (c + 1) e b" "redis_now b = redis_now ?a"
    using check_rate_limit_next [OF assms(1), of kid "fst req" c e ?a] Cons.prems(2,3) key by auto
  obtain ds b' where ds: "foldE (serve_request kid limit) reqs (acc @ [d]) b = (Inr ((acc @ [d]) @ ds), b')"
    "length ds = length reqs" "\<forall>i < length ds. fair_decision limit (c + 1 + int i + 1) (ds ! i)"
    using Cons.IH [OF b(1), of "acc @ [d]"] Cons.prems b(2) by auto
  have "fair_decision limit (c + int i + 1) ((d # ds) ! i)" if "i < length (d # ds)" for i
    using that ds(3) d(2) by (cases i) (auto simp: algebra_simps)
  moreover have "serve_request kid limit req acc a = (Inr (acc @ [d]), b)"
    using d(1) by (simp add: serve_request_def)
  ultimately show ?case
    using ds(1,2) by (intro exI [of _ "d # ds"] exI [of _ b']) simp
qed

text \<open>
  C28: The limiter lets through exactly the limit. For requests of one API key in one minute, the
  first of which finds no live counter and all of which arrive before the counter expires, the
  request with number n is allowed if and only if n is at most the limit, the remaining count
  falls by one each time down to 0, and every refusal carries a retry time between 1 and 60
  seconds.
\<close>

theorem rate_limit_window:
  assumes "0 < limit" "redis_live a (rate_limit_window_key kid t) = None" "int (length reqs) + 1 < 2 ^ 63"
    and "\<forall>req \<in> set reqs. rate_limit_window_key kid (fst req) = rate_limit_window_key kid t \<and> 0 \<le> snd req"
    and "sum_list (map snd reqs) < 60 * second_us"
  shows "\<exists>ds b. serve_requests kid limit ((t, 0) # reqs) a = (Inr ds, b) \<and> length ds = Suc (length reqs) \<and>
    (\<forall>i < length ds. fair_decision limit (int i + 1) (ds ! i))"
proof -
  obtain d b e where d: "check_rate_limit kid limit t a = (Inr d, b)" "fair_decision limit 1 d"
    and b: "counting (rate_limit_window_key kid t) 1 e b" "redis_now b = redis_now a"
      "e = redis_now a + WINDOW_SECONDS * second_us"
    using check_rate_limit_first [OF assms(1,2)] by blast
  obtain ds b' where ds: "foldE (serve_request kid limit) reqs ([] @ [d]) b = (Inr (([] @ [d]) @ ds), b')"
    "length ds = length reqs" "\<forall>i < length ds. fair_decision limit (1 + int i + 1) (ds ! i)"
    using serve_requests_counting [OF assms(1) b(1), of reqs kid "[] @ [d]"] assms(3-5) b(2,3)
    by (auto simp: WINDOW_SECONDS_def)
  have "fair_decision limit (int i + 1) ((d # ds) ! i)" if "i < length (d # ds)" for i
    using that ds(3) d(2) by (cases i) (auto simp: algebra_simps)
  moreover have "serve_request kid limit (t, 0) [] a = (Inr ([] @ [d]), b)"
    using d(1) by (simp add: serve_request_def)
  with ds(1) have "serve_requests kid limit ((t, 0) # reqs) a = (Inr (d # ds), b')"
    by (simp add: serve_requests_def)
  ultimately show ?thesis using ds(2) by (intro exI [of _ "d # ds"] exI [of _ b']) simp
qed

section \<open>Witnesses\<close>

definition sample_app :: app where
  "sample_app = \<lparr>app_session = sample_session, auth_by_digest = Map.empty, auth_by_key_id = Map.empty,
     snapshot_l1 = Map.empty, org_l1 = Map.empty, org_l1_by_id = Map.empty, monotonic = (\<lambda>n. int n),
     mono_pos = 0, redis_now = 0, redis_data = Map.empty\<rparr>"

definition sample_context :: auth_context where
  "sample_context = \<lparr>auth_organization_id = Some 1, auth_role = ''product_service'', auth_key_prefix = ''bp_demo1'',
     auth_api_key_id = 501, auth_organization_public_id = Some 101, auth_expires_at = None\<rparr>"

lemma sample_app_simps [simp]:
  "redis_live sample_app k = None" "redis_now sample_app = 0" "redis_data sample_app = Map.empty"
  "app_session sample_app = sample_session" "snapshot_l1 sample_app = Map.empty"
  by (simp_all add: sample_app_def redis_live_def)

lemma sample_caches_ok: "caches_ok sample_app"
  by (simp add: caches_ok_def indexed_def sample_app_def)

theorem invalidated_key_not_served_witness:
  "\<exists>a b. cache_auth_context ''d1'' sample_context sample_app = (Inr (), a) \<and>
     auth_by_digest a ''d1'' \<noteq> None \<and> invalidate_auth_context 501 a = (Inr (), b) \<and>
     (\<forall>d ctx c. get_cached_auth_context d b = (Inr (Some ctx), c) \<longrightarrow> auth_api_key_id ctx \<noteq> 501)"
proof -
  let ?a = "snd (cache_auth_context ''d1'' sample_context sample_app)"
  have a: "cache_auth_context ''d1'' sample_context sample_app = (Inr (), ?a)" "auth_by_digest ?a ''d1'' \<noteq> None"
    by (simp_all add: cache_auth_context_def default_settings_def) (simp_all add: sample_app_def)
  have "caches_ok ?a" using keepsD [OF cache_auth_context_ok a(1)] sample_caches_ok by simp
  from invalidated_key_not_served [OF this invalidate_auth_context_run] a invalidate_auth_context_run
  show ?thesis by blast
qed

theorem increment_entitlement_version_invalidates_witness:
  "\<exists>b. increment_entitlement_version 1 sample_app = (Inr 2, b) \<and> version_of b 1 = Some 2"
  using increment_entitlement_version_invalidates [OF sample_caches_ok, of 1 1] by (auto simp: version_of_def)

theorem build_lock_released_witness:
  "\<exists>b. get_or_build_cached_snapshot (\<lambda>_ x. x) 1 60 (raiseE SubscriptionNotFoundError ''none'') sample_app =
       (Inl (Exc SubscriptionNotFoundError ''none''), b) \<and> redis_live b (entitlement_build_lock_key 1) = None"
proof -
  let ?m = "get_or_build_cached_snapshot (\<lambda>_ x. x) 1 60 (raiseE SubscriptionNotFoundError ''none'')"
  have "fst (?m sample_app) = Inl (Exc SubscriptionNotFoundError ''none'')"
    by (simp add: get_or_build_cached_snapshot_def get_cached_value_def redis_set_nx_def build_and_store_def
        finallyE_def redis_live_def sample_app_def)
  then obtain b where "?m sample_app = (Inl (Exc SubscriptionNotFoundError ''none''), b)" by (metis prod.collapse)
  from build_lock_released [OF _ _ this] this show ?thesis by simp
qed

theorem rate_limit_window_witness:
  "\<exists>ds b. serve_requests ''k'' 2 [(0, 0), (1000000, 1000000), (2000000, 1000000)] sample_app = (Inr ds, b) \<and>
     map rl_allowed ds = [True, True, False]"
proof -
  have "rate_limit_window_key ''k'' 1000000 = rate_limit_window_key ''k'' 0"
    "rate_limit_window_key ''k'' 2000000 = rate_limit_window_key ''k'' 0"
    by (simp_all add: rate_limit_window_key_def minute_stamp_def year_of_def month_of_def day_of_def date_of_def)
  then obtain ds b where ds: "serve_requests ''k'' 2 [(0, 0), (1000000, 1000000), (2000000, 1000000)] sample_app = (Inr ds, b)"
    "length ds = 3" "\<forall>i < length ds. fair_decision 2 (int i + 1) (ds ! i)"
    using rate_limit_window [of 2 sample_app "''k''" 0 "[(1000000, 1000000), (2000000, 1000000)]"] by auto
  then obtain x y z where "ds = [x, y, z]" by (auto simp: numeral_3_eq_3 length_Suc_conv)
  with ds show ?thesis by (simp add: fair_decision_def All_less_Suc numeral_3_eq_3)
qed

end
