(* ===== verification/Signature.thy ===== *)
theory Signature
  imports Store
begin

unbundle bit_operations_syntax

text \<open>
  Webhook signatures (\<^verbatim>\<open>integrations/mock_stripe/signature.py\<close>): the header carries a timestamp
  and HMAC-SHA256 digests of timestamp and body; a request is accepted if the timestamp is recent
  and some digest fits the current or the previous secret. SHA-256 and HMAC are the functions
  \<^verbatim>\<open>hashlib\<close> and \<^verbatim>\<open>hmac\<close> provide (FIPS 180-4, RFC 2104), on byte strings.
\<close>

section \<open>SHA-256\<close>

type_synonym w32 = "32 word"

definition rotr :: "nat \<Rightarrow> w32 \<Rightarrow> w32" where
  "rotr n x = drop_bit n x OR push_bit (32 - n) x"

text \<open>
  The round constants and the initial state: the first 32 bits of the fractional parts of the cube
  roots of the first 64 primes, and of the square roots of the first 8, in decimal.
\<close>

definition sha256_k :: "w32 list" where
  "sha256_k =
     [1116352408, 1899447441, 3049323471, 3921009573, 961987163, 1508970993, 2453635748, 2870763221,
      3624381080, 310598401, 607225278, 1426881987, 1925078388, 2162078206, 2614888103, 3248222580,
      3835390401, 4022224774, 264347078, 604807628, 770255983, 1249150122, 1555081692, 1996064986,
      2554220882, 2821834349, 2952996808, 3210313671, 3336571891, 3584528711, 113926993, 338241895,
      666307205, 773529912, 1294757372, 1396182291, 1695183700, 1986661051, 2177026350, 2456956037,
      2730485921, 2820302411, 3259730800, 3345764771, 3516065817, 3600352804, 4094571909, 275423344,
      430227734, 506948616, 659060556, 883997877, 958139571, 1322822218, 1537002063, 1747873779,
      1955562222, 2024104815, 2227730452, 2361852424, 2428436474, 2756734187, 3204031479, 3329325298]"

definition sha256_h0 :: "w32 list" where
  "sha256_h0 =
     [1779033703, 3144134277, 1013904242, 2773480762, 1359893119, 2600822924, 528734635, 1541459225]"

definition byte_word :: "char \<Rightarrow> w32" where
  "byte_word c = word_of_nat (of_char c)"

text \<open>\<open>be_bytes k v\<close>: the \<open>k\<close> low bytes of \<open>v\<close>, most significant first.\<close>

fun be_bytes :: "nat \<Rightarrow> nat \<Rightarrow> string" where
  "be_bytes 0 v = []"
| "be_bytes (Suc k) v = be_bytes k (v div 256) @ [char_of (v mod 256)]"

definition sha256_pad :: "string \<Rightarrow> string" where
  "sha256_pad m = m @ [CHR 0x80] @ replicate ((119 - length m mod 64) mod 64) (CHR 0x00)
     @ be_bytes 8 (8 * length m)"

fun sha256_words :: "string \<Rightarrow> w32 list" where
  "sha256_words (a # b # c # d # rest) =
     (push_bit 24 (byte_word a) OR push_bit 16 (byte_word b) OR push_bit 8 (byte_word c) OR byte_word d)
       # sha256_words rest"
| "sha256_words _ = []"

text \<open>
  The message schedule, as a window of the last 16 words: one round consumes the first word and
  appends the next one.
\<close>

definition sha256_next :: "w32 list \<Rightarrow> w32" where
  "sha256_next w =
     (let w0 = w ! 0; w1 = w ! 1; w9 = w ! 9; w14 = w ! 14;
          s0 = rotr 7 w1 XOR rotr 18 w1 XOR drop_bit 3 w1;
          s1 = rotr 17 w14 XOR rotr 19 w14 XOR drop_bit 10 w14
      in w0 + s0 + w9 + s1)"

type_synonym sha_state = "w32 \<times> w32 \<times> w32 \<times> w32 \<times> w32 \<times> w32 \<times> w32 \<times> w32"

definition sha256_round :: "w32 \<Rightarrow> w32 \<Rightarrow> sha_state \<Rightarrow> sha_state" where
  "sha256_round k w st =
     (case st of (a, b, c, d, e, f, g, h) \<Rightarrow>
        let s1 = rotr 6 e XOR rotr 11 e XOR rotr 25 e;
            ch = (e AND f) XOR (NOT e AND g);
            t1 = h + s1 + ch + k + w;
            s0 = rotr 2 a XOR rotr 13 a XOR rotr 22 a;
            maj = (a AND b) XOR (a AND c) XOR (b AND c);
            t2 = s0 + maj
        in (t1 + t2, a, b, c, d + t1, e, f, g))"

fun sha256_rounds :: "w32 list \<Rightarrow> w32 list \<Rightarrow> sha_state \<Rightarrow> sha_state" where
  "sha256_rounds [] w st = st"
| "sha256_rounds (k # ks) w st =
     sha256_rounds ks (tl w @ [sha256_next w]) (sha256_round k (hd w) st)"

definition sha256_block :: "w32 list \<Rightarrow> sha_state \<Rightarrow> sha_state" where
  "sha256_block w st =
     (case st of (a, b, c, d, e, f, g, h) \<Rightarrow>
      case sha256_rounds sha256_k w st of (a', b', c', d', e', f', g', h') \<Rightarrow>
        (a + a', b + b', c + c', d + d', e + e', f + f', g + g', h + h'))"

function sha256_blocks :: "w32 list \<Rightarrow> sha_state \<Rightarrow> sha_state" where
  "sha256_blocks ws st =
     (if length ws < 16 then st else sha256_blocks (drop 16 ws) (sha256_block (take 16 ws) st))"
  by pat_completeness auto
termination by (relation "measure (\<lambda>(ws, st). length ws)") auto

declare sha256_blocks.simps [simp del]

definition sha256 :: "string \<Rightarrow> string" where
  "sha256 m =
     (case sha256_h0 of [a, b, c, d, e, f, g, h] \<Rightarrow>
        (case sha256_blocks (sha256_words (sha256_pad m)) (a, b, c, d, e, f, g, h) of
           (a, b, c, d, e, f, g, h) \<Rightarrow>
             concat (map (\<lambda>x. be_bytes 4 (unat x)) [a, b, c, d, e, f, g, h]))
      | _ \<Rightarrow> [])"

section \<open>HMAC\<close>

definition xor_byte :: "nat \<Rightarrow> char \<Rightarrow> char" where
  "xor_byte n c = char_of (n XOR of_char c)"

definition hmac_sha256 :: "string \<Rightarrow> string \<Rightarrow> string" where
  "hmac_sha256 key msg =
     (let k0 = (if length key > 64 then sha256 key else key);
          k = k0 @ replicate (64 - length k0) (CHR 0x00)
      in sha256 (map (xor_byte 0x5c) k @ sha256 (map (xor_byte 0x36) k @ msg)))"

definition hexdigest :: "string \<Rightarrow> string" where
  "hexdigest bs = concat (map (\<lambda>c. hex_pad 2 (of_char c)) bs)"

section \<open>Signing and verifying\<close>

text \<open>\<^verbatim>\<open>str.encode()\<close> of text whose characters are code points below 256, and \<^verbatim>\<open>str.split(sep)\<close>.\<close>

definition utf8_char :: "char \<Rightarrow> string" where
  "utf8_char c =
     (let n = of_char c :: nat
      in if n < 128 then [c] else [char_of (192 + n div 64), char_of (128 + n mod 64)])"

definition encode_utf8 :: "string \<Rightarrow> string" where
  "encode_utf8 s = concat (map utf8_char s)"

fun split_on :: "char \<Rightarrow> string \<Rightarrow> string list" where
  "split_on sep [] = [[]]"
| "split_on sep (c # cs) =
     (if c = sep then [] # split_on sep cs
      else case split_on sep cs of [] \<Rightarrow> [[c]] | w # ws \<Rightarrow> (c # w) # ws)"

definition is_ascii :: "string \<Rightarrow> bool" where
  "is_ascii s = list_all (\<lambda>c. (of_char c :: nat) < 128) s"

definition digest_of :: "string \<Rightarrow> string \<Rightarrow> string \<Rightarrow> string" where
  "digest_of payload timestamp secret =
     hexdigest (hmac_sha256 (encode_utf8 secret) (encode_utf8 (timestamp @ ''.'') @ payload))"

definition sign_stripe_payload :: "string \<Rightarrow> string \<Rightarrow> int \<Rightarrow> string" where
  "sign_stripe_payload payload secret timestamp =
     ''t='' @ str_int timestamp @ '',v1='' @ digest_of payload (str_int timestamp) secret"

text \<open>
  \<^verbatim>\<open>any(hmac.compare_digest(expected, sig) for sig in signatures)\<close>: comparing with text that is not
  ASCII raises \<^verbatim>\<open>TypeError\<close>.
\<close>

fun any_digest :: "string \<Rightarrow> string list \<Rightarrow> py_error + bool" where
  "any_digest expected [] = Inr False"
| "any_digest expected (sig # sigs) =
     (if \<not> is_ascii sig
      then Inl (Exc TypeError ''comparing strings with non-ASCII characters is not supported'')
      else if sig = expected then Inr True
      else any_digest expected sigs)"

definition v1_signature_matches :: "string \<Rightarrow> string \<Rightarrow> string \<Rightarrow> string list \<Rightarrow> py_error + bool" where
  "v1_signature_matches payload timestamp secret sigs =
     any_digest (digest_of payload timestamp secret) sigs"

text \<open>One element of the header: the last timestamp wins, digests accumulate.\<close>

definition header_element :: "string \<Rightarrow> string option \<times> string list \<Rightarrow> string option \<times> string list" where
  "header_element element acc =
     (let e = strip element; key = takeWhile (\<lambda>c. c \<noteq> CHR ''='') e;
          val = tl (dropWhile (\<lambda>c. c \<noteq> CHR ''='') e)
      in if CHR ''='' \<notin> set e then acc
         else if key = ''t'' then (Some val, snd acc)
         else if key = ''v1'' then (fst acc, snd acc @ [val])
         else acc)"

definition parse_header :: "string \<Rightarrow> string option \<times> string list" where
  "parse_header header = fold header_element (split_on (CHR '','') header) (None, [])"

fun any_secret :: "string \<Rightarrow> string \<Rightarrow> string list \<Rightarrow> string list \<Rightarrow> py_error + bool" where
  "any_secret payload timestamp sigs [] = Inr False"
| "any_secret payload timestamp sigs (secret # secrets) =
     (case v1_signature_matches payload timestamp secret sigs of
        Inl e \<Rightarrow> Inl e
      | Inr ok \<Rightarrow> if ok then Inr True else any_secret payload timestamp sigs secrets)"

text \<open>\<open>now\<close> is \<^verbatim>\<open>int(time.time())\<close>.\<close>

definition verify_stripe_signature ::
  "string \<Rightarrow> string \<Rightarrow> string \<Rightarrow> int \<Rightarrow> string option \<Rightarrow> int \<Rightarrow> py_error + unit" where
  "verify_stripe_signature payload header secret tolerance previous now =
     (if secret = [] then Inl (Exc InvalidWebhookSignature ''webhook secret is not configured'')
      else
        case parse_header header of (timestamp, sigs) \<Rightarrow>
          (case timestamp of
             None \<Rightarrow> Inl (Exc InvalidWebhookSignature ''missing timestamp or v1 signature'')
           | Some ts \<Rightarrow>
               if sigs = [] then Inl (Exc InvalidWebhookSignature ''missing timestamp or v1 signature'')
               else
                 (case py_int ts of
                    None \<Rightarrow> Inl (Exc InvalidWebhookSignature ''invalid timestamp'')
                  | Some n \<Rightarrow>
                      if \<bar>now - n\<bar> > tolerance
                      then Inl (Exc InvalidWebhookSignature ''timestamp outside tolerance window'')
                      else
                        (case any_secret payload ts sigs
                               (secret # (case previous of None \<Rightarrow> [] | Some [] \<Rightarrow> [] | Some p \<Rightarrow> [p])) of
                           Inl e \<Rightarrow> Inl e
                         | Inr ok \<Rightarrow>
                             if ok then Inr ()
                             else Inl (Exc InvalidWebhookSignature ''signature mismatch'')))))"

section \<open>Properties\<close>

lemma hex_digit_code: "d < 16 \<Longrightarrow> (of_char (hex_digit d) :: nat) \<in> {48..57} \<union> {97..102}"
  by (auto simp: of_char_hex_digit)

lemma hex_pad_code: "c \<in> set (hex_pad k v) \<Longrightarrow> (of_char c :: nat) \<in> {48..57} \<union> {97..102}"
proof (induction k v rule: hex_pad.induct)
  case (2 k v)
  have "(of_char (hex_digit (v mod 16)) :: nat) \<in> {48..57} \<union> {97..102}" by (rule hex_digit_code) simp
  with 2 show ?case by (auto simp: hex_pad.simps)
qed (simp add: hex_pad.simps)

lemma hexdigest_code:
  assumes "c \<in> set (hexdigest bs)"
  shows "(of_char c :: nat) \<in> {48..57} \<union> {97..102}"
  using assms hex_pad_code unfolding hexdigest_def by auto

lemma split_on_no_sep: "sep \<notin> set cs \<Longrightarrow> split_on sep cs = [cs]"
  by (induction cs) auto

lemma split_on_append: "sep \<notin> set u \<Longrightarrow> split_on sep (u @ sep # v) = u # split_on sep v"
  by (induction u) auto

lemma str_int_code: "c \<in> set (str_int i) \<Longrightarrow> c = CHR ''-'' \<or> is_digit c"
  using isdigit_str_nat [of "nat i"] isdigit_str_nat [of "nat (- i)"]
  by (auto simp: str_int_def isdigit_def list_all_iff split: if_splits)

lemma header_element_pair:
  assumes "CHR ''='' \<notin> set key" "strip (key @ ''='' @ val) = key @ ''='' @ val"
  shows "header_element (key @ ''='' @ val) acc =
    (if key = ''t'' then (Some val, snd acc) else if key = ''v1'' then (fst acc, snd acc @ [val]) else acc)"
proof -
  have "takeWhile (\<lambda>c. c \<noteq> CHR ''='') (key @ ''='' @ val) = key"
    "dropWhile (\<lambda>c. c \<noteq> CHR ''='') (key @ ''='' @ val) = ''='' @ val"
    using assms(1) by (auto simp: takeWhile_append dropWhile_append)
  then show ?thesis using assms(2) by (simp add: header_element_def Let_def)
qed

lemma code_not_space: "(of_char c :: nat) \<in> {33..126} \<Longrightarrow> \<not> is_space c \<and> (of_char c :: nat) < 128"
  by (auto simp: is_space_def)

lemma strip_tidy:
  assumes "s \<noteq> []" "\<forall>c \<in> set s. (of_char c :: nat) \<in> {33..126}"
  shows "strip s = s"
  using assms code_not_space by (intro strip_id) auto

lemma digit_code: "is_digit c \<Longrightarrow> (of_char c :: nat) \<in> {48..57}"
  by (auto simp: is_digit_def)

text \<open>A header made by \<^verbatim>\<open>sign_stripe_payload\<close> is read back.\<close>

lemma parse_signed_header:
  "parse_header (sign_stripe_payload payload secret ts) =
     (Some (str_int ts), [digest_of payload (str_int ts) secret])"
proof -
  let ?d = "digest_of payload (str_int ts) secret"
  have d: "(of_char c :: nat) \<in> {48..57} \<union> {97..102}" if "c \<in> set ?d" for c
    using that hexdigest_code unfolding digest_of_def by blast
  have i: "(of_char c :: nat) \<in> {45..57}" if "c \<in> set (str_int ts)" for c
    using str_int_code [OF that] digit_code by fastforce
  have comma: "CHR '','' \<notin> set (''t='' @ str_int ts)" "CHR '','' \<notin> set (''v1='' @ ?d)"
    using d [of "CHR '',''"] i [of "CHR '',''"] by auto
  have "sign_stripe_payload payload secret ts = (''t='' @ str_int ts) @ CHR '','' # (''v1='' @ ?d)"
    by (simp add: sign_stripe_payload_def)
  then have sp: "split_on (CHR '','') (sign_stripe_payload payload secret ts) =
      [''t='' @ str_int ts, ''v1='' @ ?d]"
    by (simp only: split_on_append [OF comma(1)] split_on_no_sep [OF comma(2)])
  have st: "strip (''t'' @ ''='' @ str_int ts) = ''t'' @ ''='' @ str_int ts"
    using i by (intro strip_tidy) fastforce+
  have sv: "strip (''v1'' @ ''='' @ ?d) = ''v1'' @ ''='' @ ?d"
    using d by (intro strip_tidy) fastforce+
  have "header_element (''t'' @ ''='' @ str_int ts) acc = (Some (str_int ts), snd acc)"
    "header_element (''v1'' @ ''='' @ ?d) acc = (fst acc, snd acc @ [?d])" for acc
    using header_element_pair [OF _ st, of acc] header_element_pair [OF _ sv, of acc] by simp_all
  then show ?thesis unfolding parse_header_def sp by simp
qed

lemma digest_ascii: "is_ascii (digest_of payload ts secret)"
proof -
  have "(of_char c :: nat) < 128" if "c \<in> set (digest_of payload ts secret)" for c
    using that hexdigest_code [of c] unfolding digest_of_def by fastforce
  then show ?thesis by (simp add: is_ascii_def list_all_iff)
qed

lemma signed_accepted:
  assumes "secret \<noteq> []" "current \<noteq> []" "\<bar>now - ts\<bar> \<le> tolerance"
  shows "verify_stripe_signature payload (sign_stripe_payload payload secret ts) secret tolerance previous now
      = Inr () \<and>
    verify_stripe_signature payload (sign_stripe_payload payload secret ts) current tolerance (Some secret) now
      = Inr ()"
proof -
  let ?d = "digest_of payload (str_int ts) secret"
  have hit: "v1_signature_matches payload (str_int ts) secret [?d] = Inr True"
    by (simp add: v1_signature_matches_def digest_ascii)
  have "\<exists>b. v1_signature_matches payload (str_int ts) current [?d] = Inr b"
    by (cases "?d = digest_of payload (str_int ts) current")
      (auto simp: v1_signature_matches_def digest_ascii)
  with hit assms show ?thesis
    by (auto simp: verify_stripe_signature_def parse_signed_header py_int_str_int neq_Nil_conv split: list.splits)
qed

text \<open>
  A signed payload verifies. For every body, non-empty secret and timestamp, the header that
  \<^verbatim>\<open>sign_stripe_payload\<close> makes is accepted as long as the clock is within the tolerance, by a
  verifier that has the secret as its current one or, during a rotation, as its previous one.
\<close>

theorem signed_payload_verifies:
  assumes "secret \<noteq> []" "current \<noteq> []" "\<bar>now - ts\<bar> \<le> tolerance"
  shows "verify_stripe_signature payload (sign_stripe_payload payload secret ts) secret tolerance previous now
      = Inr () \<and>
    verify_stripe_signature payload (sign_stripe_payload payload secret ts) current tolerance (Some secret) now
      = Inr ()"
  using signed_accepted [OF assms] .

theorem signed_payload_verifies_witness:
  "verify_stripe_signature ''{}'' (sign_stripe_payload ''{}'' ''old'' 1700000000) ''new'' 300 (Some ''old'')
     1700000299 = Inr ()"
  using signed_payload_verifies [of "''old''" "''new''" 1700000299 1700000000 300 "''{}''" None] by simp

lemma any_digest_True: "any_digest e sigs = Inr True \<Longrightarrow> e \<in> set sigs"
  by (induction e sigs rule: any_digest.induct) (auto split: if_splits)

lemma any_secret_True:
  "any_secret payload ts sigs secrets = Inr True \<Longrightarrow>
     \<exists>secret \<in> set secrets. digest_of payload ts secret \<in> set sigs"
  by (induction payload ts sigs secrets rule: any_secret.induct)
    (auto simp: v1_signature_matches_def split: sum.splits if_splits dest: any_digest_True)

text \<open>
  C23: Only signed payloads verify. Whenever a request is accepted, the secret is configured, the
  header carries a timestamp that is an integer within the tolerance of the clock, and one of its
  digests is the HMAC-SHA256 of that timestamp and the body under the current or the (non-empty)
  previous secret.
\<close>

theorem verified_payload_signed:
  assumes "verify_stripe_signature payload header secret tolerance previous now = Inr ()"
  shows "secret \<noteq> [] \<and> (\<exists>ts n key. fst (parse_header header) = Some ts \<and> py_int ts = Some n \<and>
    \<bar>now - n\<bar> \<le> tolerance \<and> (key = secret \<or> previous = Some key) \<and> key \<noteq> [] \<and>
    digest_of payload ts key \<in> set (snd (parse_header header)))"
proof -
  obtain t sigs where ph: "parse_header header = (t, sigs)" by fastforce
  from assms ph obtain ts n where *: "secret \<noteq> []" "t = Some ts" "py_int ts = Some n" "\<bar>now - n\<bar> \<le> tolerance"
    "any_secret payload ts sigs
       (secret # (case previous of None \<Rightarrow> [] | Some [] \<Rightarrow> [] | Some (c # cs) \<Rightarrow> [c # cs])) = Inr True"
    by (auto simp: verify_stripe_signature_def split: if_splits option.splits sum.splits list.splits)
  from any_secret_True [OF *(5)] obtain key where
    "key \<in> set (secret # (case previous of None \<Rightarrow> [] | Some [] \<Rightarrow> [] | Some (c # cs) \<Rightarrow> [c # cs]))"
    "digest_of payload ts key \<in> set sigs" by blast
  then have "(key = secret \<or> previous = Some key) \<and> key \<noteq> [] \<and> digest_of payload ts key \<in> set sigs"
    using *(1) by (auto split: option.splits list.splits)
  with * ph show ?thesis by auto
qed

theorem verified_payload_signed_witness:
  "\<exists>key. (key = ''new'' \<or> Some ''old'' = Some key) \<and>
     digest_of ''{}'' (str_int 1700000000) key \<in>
       set (snd (parse_header (sign_stripe_payload ''{}'' ''old'' 1700000000)))"
proof -
  have h: "any_secret ''{}'' (str_int 1700000000) [digest_of ''{}'' (str_int 1700000000) ''old'']
      [''new'', ''old''] = Inr True"
    by (simp add: v1_signature_matches_def digest_ascii)
  have "verify_stripe_signature ''{}'' (sign_stripe_payload ''{}'' ''old'' 1700000000) ''new'' 300
      (Some ''old'') 1700000299 = Inr ()"
    using h by (simp add: verify_stripe_signature_def parse_signed_header py_int_str_int)
  from verified_payload_signed [OF this] show ?thesis by (auto simp: parse_signed_header)
qed

end
