(* ===== verification/Invoices.thy ===== *)
theory Invoices
  imports Subscriptions
begin

text \<open>
  Invoices (\<^verbatim>\<open>services/invoices.py\<close>) and their transfer to the payment provider
  (\<^verbatim>\<open>services/invoice_sync.py\<close>): drafts are created once per idempotency key, line items are added
  to drafts only and every addition recomputes the total; the transfer writes the provider's id and
  the time, never an amount.
\<close>

section \<open>Operations\<close>

definition line_total_cents :: "int \<Rightarrow> int \<Rightarrow> int" where
  "line_total_cents quantity unit = quantity * unit"

definition find_invoice_by_idempotency_key :: "string \<Rightarrow> invoice option op" where
  "find_invoice_by_idempotency_key k =
     bindE (query (\<lambda>d. filter (\<lambda>v. inv_idempotency_key v = k) (invoices d))) scalar_one_or_none"

definition draft_invoice ::
  "int \<Rightarrow> uuid \<Rightarrow> int \<Rightarrow> string \<Rightarrow> instant \<Rightarrow> instant \<Rightarrow> string \<Rightarrow> int option \<Rightarrow> instant \<Rightarrow> invoice" where
  "draft_invoice i u oi currency start stop k si t =
     \<lparr>inv_id = i, inv_public_id = u, inv_organization_id = oi, inv_subscription_id = si, inv_status = draft,
      inv_currency = upper currency, period_start = start, period_end = stop, total_amount_cents = 0,
      external_invoice_id = None, synced_at = None, inv_idempotency_key = k, inv_created_at = t,
      inv_updated_at = t\<rparr>"

definition flush_invoice :: "invoice \<Rightarrow> invoice op" where
  "flush_invoice v =
     catchE (thenE (insert_checked (invoice_ok v) (add_invoice v)) (returnE v)) (\<lambda>e.
       if exc_class_of e \<noteq> IntegrityError then reraiseE e
       else thenE rollback
         (bindE (find_invoice_by_idempotency_key (inv_idempotency_key v)) (\<lambda>existing.
          case existing of Some w \<Rightarrow> returnE w | None \<Rightarrow> reraiseE e)))"

definition create_draft_invoice ::
  "int \<Rightarrow> string \<Rightarrow> instant \<Rightarrow> instant \<Rightarrow> string \<Rightarrow> int option \<Rightarrow> invoice op" where
  "create_draft_invoice oi currency start stop k si =
     bindE (find_invoice_by_idempotency_key k) (\<lambda>existing.
     case existing of Some v \<Rightarrow> returnE v
     | None \<Rightarrow>
         bindE new_uuid (\<lambda>u. bindE (next_id INVOICES) (\<lambda>i. bindE (getE tx_now) (\<lambda>t.
         flush_invoice (draft_invoice i u oi currency start stop k si t)))))"

definition item_sum :: "int \<Rightarrow> database \<Rightarrow> int" where
  "item_sum i d = (\<Sum>l\<leftarrow>filter (\<lambda>l. li_invoice_id l = i) (invoice_line_items d). li_amount_cents l)"

definition recompute_invoice_total :: "int \<Rightarrow> unit op" where
  "recompute_invoice_total i =
     bindE (query (item_sum i)) (\<lambda>total.
     bindE (bindE (query (\<lambda>d. filter (\<lambda>v. inv_id v = i) (invoices d))) scalar_one) (\<lambda>v.
     bindE (getE tx_now) (\<lambda>t.
     thenE (update_db (upd_invoice i t (\<lambda>r. r\<lparr>total_amount_cents := total\<rparr>))) flush)))"

definition new_line_item :: "uuid \<Rightarrow> int \<Rightarrow> string \<Rightarrow> int \<Rightarrow> int \<Rightarrow> string option \<Rightarrow> instant \<Rightarrow> invoice_line_item" where
  "new_line_item u i description quantity unit fk t =
     \<lparr>li_id = u, li_invoice_id = i, li_description = description, li_quantity = decimal_of_int quantity,
      li_unit_amount_cents = unit, li_amount_cents = line_total_cents quantity unit, li_feature_key = fk,
      li_price_id = None, li_usage_period_id = None, li_created_at = t\<rparr>"

definition add_line_item :: "int \<Rightarrow> string \<Rightarrow> int \<Rightarrow> int \<Rightarrow> string option \<Rightarrow> invoice_line_item op" where
  "add_line_item i description quantity unit fk =
     bindE (bindE (query (\<lambda>d. filter (\<lambda>v. inv_id v = i) (invoices d))) scalar_one_or_none) (\<lambda>found.
     case found of
       None \<Rightarrow> raiseE InvoiceNotFoundError (''invoice '' @ str_int i @ '' not found'')
     | Some v \<Rightarrow>
         if inv_status v \<noteq> draft
         then raiseE InvoiceNotMutableError
           (''cannot add line items to invoice in status '' @ invoice_status_value (inv_status v))
         else
           bindE new_uuid (\<lambda>u. bindE (getE tx_now) (\<lambda>t.
           let l = new_line_item u i description quantity unit fk t
           in thenE (insert_checked (line_item_ok l) (add_line_item_row l))
             (thenE (recompute_invoice_total i) (returnE l)))))"

definition get_invoice_by_public_id :: "uuid \<Rightarrow> invoice option op" where
  "get_invoice_by_public_id u =
     bindE (query (\<lambda>d. filter (\<lambda>v. inv_public_id v = u) (invoices d))) scalar_one_or_none"

definition list_invoices_for_organization :: "int \<Rightarrow> nat \<Rightarrow> nat \<Rightarrow> invoice list op" where
  "list_invoices_for_organization oi limit offset =
     query (\<lambda>d. page limit offset (order_by_desc inv_created_at (order_by_desc inv_id
       (filter (\<lambda>v. inv_organization_id v = oi) (invoices d)))))"

definition list_line_items_for_invoice :: "int \<Rightarrow> invoice_line_item list op" where
  "list_line_items_for_invoice i =
     query (\<lambda>d. order_by li_created_at (order_by li_id
       (filter (\<lambda>l. li_invoice_id l = i) (invoice_line_items d))))"

text \<open>
  The provider's answers are parameters: the customer id for an organization and an e-mail address,
  and the invoice id for a customer, an amount, a currency and an idempotency key.
\<close>

record payment_provider =
  create_customer :: "string \<Rightarrow> string \<Rightarrow> py_error + string"
  create_invoice :: "string \<Rightarrow> int \<Rightarrow> string \<Rightarrow> string \<Rightarrow> py_error + string"

definition get_invoice :: "int \<Rightarrow> invoice option op" where
  "get_invoice i = query (\<lambda>d. first_row (filter (\<lambda>v. inv_id v = i) (invoices d)))"

definition billing_contact :: "organization \<Rightarrow> string" where
  "billing_contact g =
     (case org_billing_email g of
        None \<Rightarrow> ''org-'' @ uuid_str (org_public_id g) @ ''@billing.local''
      | Some e \<Rightarrow> if e = [] then ''org-'' @ uuid_str (org_public_id g) @ ''@billing.local'' else e)"

definition sync_ok :: "int \<Rightarrow> string \<Rightarrow> database \<Rightarrow> bool" where
  "sync_ok i ext d \<longleftrightarrow> (\<forall>v \<in> set (invoices d). inv_id v \<noteq> i \<longrightarrow> external_invoice_id v \<noteq> Some ext)"

definition set_synced :: "int \<Rightarrow> string \<Rightarrow> instant \<Rightarrow> database \<Rightarrow> database" where
  "set_synced i ext t d =
     d\<lparr>invoices := update_rows (\<lambda>v. inv_id v = i)
         (\<lambda>v. v\<lparr>external_invoice_id := Some ext, synced_at := Some t, inv_updated_at := t\<rparr>) (invoices d)\<rparr>"

definition sync_invoice_to_mock_stripe :: "payment_provider \<Rightarrow> int \<Rightarrow> string op" where
  "sync_invoice_to_mock_stripe provider i =
     bindE (get_invoice i) (\<lambda>found.
     case found of
       None \<Rightarrow> raiseE InvoiceNotFoundError (''invoice '' @ str_int i @ '' not found'')
     | Some v \<Rightarrow>
         (case external_invoice_id v of Some ext \<Rightarrow> returnE ext
          | None \<Rightarrow>
              bindE (bindE (query (\<lambda>d. filter (\<lambda>g. org_id g = inv_organization_id v) (organizations d))) scalar_one) (\<lambda>g.
              bindE (liftE (create_customer provider (uuid_str (org_public_id g)) (billing_contact g))) (\<lambda>customer.
              bindE (liftE (create_invoice provider customer (total_amount_cents v) (inv_currency v)
                (inv_idempotency_key v))) (\<lambda>ext.
              bindE now_utc (\<lambda>now.
              thenE (insert_checked (sync_ok i ext) (set_synced i ext now))
              (bindE (get_invoice i) (\<lambda>refreshed.
               case refreshed of
                 None \<Rightarrow> raiseE InvoiceNotFoundError (''invoice '' @ str_int i @ '' not found after sync'')
               | Some w \<Rightarrow>
                   if total_amount_cents w \<noteq> total_amount_cents v
                   then raiseE RuntimeError ''invoice amount mutated during mock Stripe sync''
                   else returnE ext))))))))"

section \<open>Write footprint\<close>

text \<open>
  A client of the invoices inserts empty drafts, adds a line item to a draft together with the new
  total, sets statuses other than draft and records transfers.
\<close>

definition itemized :: "invoice_line_item \<Rightarrow> instant \<Rightarrow> database \<Rightarrow> database" where
  "itemized l t d =
     upd_invoice (li_invoice_id l) t (\<lambda>r. r\<lparr>total_amount_cents := item_sum (li_invoice_id l) (add_line_item_row l d)\<rparr>)
       (add_line_item_row l d)"

definition set_invoice_status :: "int \<Rightarrow> instant \<Rightarrow> invoice_status \<Rightarrow> database \<Rightarrow> database" where
  "set_invoice_status i t st = upd_invoice i t (\<lambda>r. r\<lparr>inv_status := st\<rparr>)"

locale invoice_client = db_preorder +
  assumes invoice_insert: "invoice_ok v d \<Longrightarrow> inv_status v = draft \<Longrightarrow> total_amount_cents v = 0 \<Longrightarrow>
      D d (add_invoice v d)"
    and invoice_itemize: "line_item_ok l d \<Longrightarrow>
      (\<forall>v \<in> set (invoices d). inv_id v = li_invoice_id l \<longrightarrow> inv_status v = draft) \<Longrightarrow> D d (itemized l t d)"
    and invoice_issue: "st \<noteq> draft \<Longrightarrow> D d (set_invoice_status i t st d)"
    and invoice_synced: "sync_ok i ext d \<Longrightarrow> D d (set_synced i ext t d)"
begin

lemma find_invoice_by_idempotency_key: "keeps_db D (find_invoice_by_idempotency_key k)"
  unfolding find_invoice_by_idempotency_key_def by (intro primitives)

lemma insert_draft: "keeps_db D (insert_checked (invoice_ok (draft_invoice i u oi c a b k si t))
    (add_invoice (draft_invoice i u oi c a b k si t)))"
  by (intro insert_checked invoice_insert) (simp_all add: draft_invoice_def)

lemma create_draft_invoice: "keeps_tx D (create_draft_invoice oi c a b k si)"
  unfolding create_draft_invoice_def flush_invoice_def
  by (intro transactions in_transaction insert_draft find_invoice_by_idempotency_key new_uuid next_id)

lemma sync_invoice_to_mock_stripe: "keeps_db D (sync_invoice_to_mock_stripe p i)"
  unfolding sync_invoice_to_mock_stripe_def get_invoice_def by (intro primitives invoice_synced)

end

text \<open>
  Adding a line item either fails with the rows as they were or has the effect of one itemization:
  the row just found to be the draft is still the only one with its id when the total is written.
\<close>

lemma invoices_add_line_item_row [simp]: "invoices (add_line_item_row l d) = invoices d"
  by (simp add: add_line_item_row_def)

lemma itemization_run:
  assumes nf: "\<not> tx_failed s" and one: "filter (\<lambda>w. inv_id w = i) (invoices (db s)) = [v]"
    and l: "li_invoice_id l = i" "line_item_ok l (db s)"
  shows "thenE (insert_checked (line_item_ok l) (add_line_item_row l)) (thenE (recompute_invoice_total i) (returnE l)) s =
    (Inr l, s\<lparr>db := itemized l (tx_now s) (db s)\<rparr>)"
  using nf one l by (simp add: recompute_invoice_total_def itemized_def)

lemma add_line_item_cases:
  assumes "add_line_item i desc q a fk s = (r, t)"
  shows "(db t = db s \<and> committed t = committed s \<and> (\<exists>e. r = Inl e)) \<or>
    (\<exists>l v. r = Inr l \<and> \<not> tx_failed s \<and> line_item_ok l (db s) \<and> li_invoice_id l = i \<and>
       l = new_line_item (upcoming_uuid s) i desc q a fk (tx_now s) \<and>
       filter (\<lambda>w. inv_id w = i) (invoices (db s)) = [v] \<and> inv_status v = draft \<and>
       t = (after_uuid s)\<lparr>db := itemized l (tx_now s) (db s)\<rparr>)"
proof (cases "tx_failed s")
  case True
  then show ?thesis using assms by (auto simp: add_line_item_def)
next
  case False
  consider "filter (\<lambda>w. inv_id w = i) (invoices (db s)) = []"
    | v where "filter (\<lambda>w. inv_id w = i) (invoices (db s)) = [v]"
    | v w vs where "filter (\<lambda>w. inv_id w = i) (invoices (db s)) = v # w # vs"
    by (metis neq_Nil_conv)
  then show ?thesis
  proof cases
    case (2 v)
    let ?l = "new_line_item (upcoming_uuid s) i desc q a fk (tx_now s)"
    have i: "li_invoice_id ?l = i" by (simp add: new_line_item_def)
    show ?thesis
    proof (cases "inv_status v = draft")
      case True
      show ?thesis
      proof (cases "line_item_ok ?l (db s)")
        case ok: True
        then have "add_line_item i desc q a fk s =
            (Inr ?l, (after_uuid s)\<lparr>db := itemized ?l (tx_now s) (db s)\<rparr>)"
          using itemization_run [of "after_uuid s" i v ?l] 2 False True i by (simp add: add_line_item_def Let_def)
        with assms ok i 2 True False show ?thesis by auto
      next
        case nok: False
        then show ?thesis using assms 2 False True by (auto simp: add_line_item_def Let_def)
      qed
    next
      case nd: False
      then show ?thesis using assms 2 False by (auto simp: add_line_item_def)
    qed
  next
    case 1
    then show ?thesis using assms False by (auto simp: add_line_item_def)
  next
    case 3
    then show ?thesis using assms False by (auto simp: add_line_item_def scalar_one_or_none_def)
  qed
qed

context invoice_client
begin

lemma add_line_item: "keeps_db D (add_line_item i desc q a fk)"
proof (rule keepsI)
  fix s
  obtain r t where rt: "add_line_item i desc q a fk s = (r, t)" by fastforce
  from add_line_item_cases [OF rt] have "committed t = committed s \<and> D (db s) (db t)"
  proof (elim disjE exE conjE)
    fix l v assume l: "line_item_ok l (db s)" "li_invoice_id l = i" "inv_status v = draft"
      "filter (\<lambda>w. inv_id w = i) (invoices (db s)) = [v]"
      "t = (after_uuid s)\<lparr>db := itemized l (tx_now s) (db s)\<rparr>"
    have "w = v" if "w \<in> set (invoices (db s))" "inv_id w = i" for w
    proof -
      have "w \<in> set (filter (\<lambda>w. inv_id w = i) (invoices (db s)))" using that by simp
      then show ?thesis unfolding l(4) by simp
    qed
    then have "\<forall>w \<in> set (invoices (db s)). inv_id w = li_invoice_id l \<longrightarrow> inv_status w = draft" using l(2,3) by auto
    with l(1) have "D (db s) (itemized l (tx_now s) (db s))" by (rule invoice_itemize)
    with l(5) show ?thesis by simp
  qed (auto intro: db_refl)
  with rt show "committed (snd (add_line_item i desc q a fk s)) = committed s \<and>
      D (db s) (db (snd (add_line_item i desc q a fk s)))" by simp
qed

end

section \<open>Instances\<close>

lemmas invoice_write_defs = write_defs itemized_def set_invoice_status_def set_synced_def

interpretation invoice_log: invoice_client ledger_extends
  by unfold_locales (simp_all add: ledger_extends_def invoice_write_defs)

interpretation invoice_lifecycle: invoice_client lifecycle_kept
  by unfold_locales (auto simp: invoice_write_defs intro: lifecycle_kept_same)

lemma ball_update_rows:
  assumes "\<And>v. P (f v) = P v"
  shows "(\<forall>v \<in> set (update_rows sel f rows). P v) = (\<forall>v \<in> set rows. P v)"
  using assms by (induction rows) auto

lemma db_ok_upd_invoice:
  assumes "\<And>v. inv_id (f v) = inv_id v" "\<And>v. inv_idempotency_key (f v) = inv_idempotency_key v"
    "\<And>v. inv_organization_id (f v) = inv_organization_id v"
  shows "db_ok (d\<lparr>invoices := update_rows sel f (invoices d)\<rparr>) = db_ok d"
  using assms by (simp add: integrity_defs unique_update_rows ball_update_rows)

lemma db_ok_add_invoice: "invoice_ok v d \<Longrightarrow> db_ok d \<Longrightarrow> db_ok (add_invoice v d)"
  by (simp add: integrity_defs add_invoice_def invoice_ok_def unique_key_snoc refers_iff)

lemma db_ok_add_line_item_row: "db_ok (add_line_item_row l d) = db_ok d"
  by (simp add: integrity_defs add_line_item_row_def)

lemma db_ok_itemized: "db_ok (itemized l t d) = db_ok d"
  unfolding itemized_def upd_invoice_def by (subst db_ok_upd_invoice) (simp_all add: db_ok_add_line_item_row)

interpretation invoice_integrity: invoice_client stays_ok
  by unfold_locales
    (simp_all add: stays_ok_def db_ok_add_invoice db_ok_itemized upd_invoice_def db_ok_upd_invoice
      set_invoice_status_def set_synced_def)

section \<open>Totals\<close>

text \<open>Every total is the sum of the line items, and every line item belongs to an invoice.\<close>

definition totals_ok :: "database \<Rightarrow> bool" where
  "totals_ok d \<longleftrightarrow> unique_key inv_id (invoices d) \<and>
     (\<forall>v \<in> set (invoices d). total_amount_cents v = item_sum (inv_id v) d) \<and>
     (\<forall>l \<in> set (invoice_line_items d). li_invoice_id l \<in> inv_id ` set (invoices d))"

text \<open>
  An invoice that is not a draft stays one that is not, and keeps its total and its line items.
\<close>

definition items_of :: "int \<Rightarrow> database \<Rightarrow> invoice_line_item list" where
  "items_of i d = filter (\<lambda>l. li_invoice_id l = i) (invoice_line_items d)"

definition issued_kept :: "database \<Rightarrow> database \<Rightarrow> bool" where
  "issued_kept d e \<longleftrightarrow> (\<forall>v \<in> set (invoices d). inv_status v \<noteq> draft \<longrightarrow>
     (\<exists>w \<in> set (invoices e). inv_id w = inv_id v \<and> inv_public_id w = inv_public_id v \<and> inv_status w \<noteq> draft \<and>
        total_amount_cents w = total_amount_cents v \<and> inv_currency w = inv_currency v \<and>
        items_of (inv_id v) e = items_of (inv_id v) d))"

definition totals_kept :: "database \<Rightarrow> database \<Rightarrow> bool" where
  "totals_kept d e \<longleftrightarrow> (totals_ok d \<longrightarrow> totals_ok e) \<and> issued_kept d e"

lemma issued_kept_update:
  assumes "\<And>v. v \<in> set (invoices d) \<Longrightarrow> inv_status v \<noteq> draft \<Longrightarrow> sel v \<Longrightarrow> inv_id (f v) = inv_id v \<and>
      inv_public_id (f v) = inv_public_id v \<and> inv_status (f v) \<noteq> draft \<and>
      total_amount_cents (f v) = total_amount_cents v \<and> inv_currency (f v) = inv_currency v"
  shows "issued_kept d (d\<lparr>invoices := update_rows sel f (invoices d)\<rparr>)"
  unfolding issued_kept_def
proof (intro ballI impI)
  fix v assume v: "v \<in> set (invoices d)" "inv_status v \<noteq> draft"
  show "\<exists>w \<in> set (invoices (d\<lparr>invoices := update_rows sel f (invoices d)\<rparr>)). inv_id w = inv_id v \<and>
      inv_public_id w = inv_public_id v \<and> inv_status w \<noteq> draft \<and> total_amount_cents w = total_amount_cents v \<and>
      inv_currency w = inv_currency v \<and>
      items_of (inv_id v) (d\<lparr>invoices := update_rows sel f (invoices d)\<rparr>) = items_of (inv_id v) d"
    using assms [OF v] v by (intro bexI [of _ "if sel v then f v else v"]) (auto simp: set_update_rows items_of_def)
qed

lemma totals_ok_update:
  assumes "\<And>v. inv_id (f v) = inv_id v" "\<And>v. total_amount_cents (f v) = total_amount_cents v"
  shows "totals_ok (d\<lparr>invoices := update_rows sel f (invoices d)\<rparr>) = totals_ok d"
  using assms by (simp add: totals_ok_def unique_update_rows image_update_rows ball_update_rows item_sum_def)

lemma totals_ok_add_invoice:
  assumes "totals_ok d" "invoice_ok v d" "total_amount_cents v = 0"
  shows "totals_ok (add_invoice v d)"
proof -
  have n: "inv_id v \<notin> inv_id ` set (invoices d)" using assms(2) by (auto simp: invoice_ok_def fresh_iff)
  then have "filter (\<lambda>l. li_invoice_id l = inv_id v) (invoice_line_items d) = []"
    using assms(1) unfolding totals_ok_def filter_empty_conv by metis
  then have "item_sum (inv_id v) d = 0" by (simp add: item_sum_def)
  moreover have "item_sum i (add_invoice v d) = item_sum i d" for i by (simp add: item_sum_def add_invoice_def)
  ultimately show ?thesis
    using assms by (auto simp: totals_ok_def invoice_ok_def unique_key_snoc) (auto simp: add_invoice_def unique_key_snoc)
qed

lemma item_sum_other: "li_invoice_id l \<noteq> i \<Longrightarrow> item_sum i (add_line_item_row l d) = item_sum i d"
  by (simp add: item_sum_def add_line_item_row_def)

lemma item_sum_same: "item_sum (li_invoice_id l) (add_line_item_row l d) = item_sum (li_invoice_id l) d + li_amount_cents l"
  by (simp add: item_sum_def add_line_item_row_def)

lemma totals_ok_itemized:
  assumes "totals_ok d" "line_item_ok l d"
  shows "totals_ok (itemized l t d)"
proof -
  let ?d = "add_line_item_row l d" and ?i = "li_invoice_id l"
  let ?f = "\<lambda>r. if r\<lparr>total_amount_cents := item_sum ?i ?d\<rparr> = r then r
      else r\<lparr>total_amount_cents := item_sum ?i ?d, inv_updated_at := t\<rparr>"
  have inv: "invoices (itemized l t d) = update_rows (\<lambda>r. inv_id r = ?i) ?f (invoices d)"
    by (simp add: itemized_def upd_invoice_def)
  have items: "invoice_line_items (itemized l t d) = invoice_line_items d @ [l]"
    by (simp add: itemized_def upd_invoice_def add_line_item_row_def)
  then have sums: "item_sum i (itemized l t d) = item_sum i ?d" for i
    by (simp add: item_sum_def add_line_item_row_def)
  have tot: "total_amount_cents (?f v) = item_sum ?i ?d" for v
  proof (cases "v\<lparr>total_amount_cents := item_sum ?i ?d\<rparr> = v")
    case True
    then have "item_sum ?i ?d = total_amount_cents v"
      by (metis invoice.select_convs(9) invoice.surjective invoice.update_convs(9))
    with True show ?thesis by simp
  qed simp
  have "total_amount_cents w = item_sum (inv_id w) ?d" if w: "w \<in> set (invoices (itemized l t d))" for w
  proof -
    from w obtain v where v: "v \<in> set (invoices d)" "w = (if inv_id v = ?i then ?f v else v)"
      by (auto simp: inv set_update_rows)
    then show ?thesis
      using tot [of v] assms(1) item_sum_other [of l "inv_id v" d]
      by (cases "inv_id v = ?i") (simp_all add: totals_ok_def)
  qed
  moreover have "inv_id ` set (invoices (itemized l t d)) = inv_id ` set (invoices d)"
    unfolding inv by (rule image_update_rows) simp
  moreover have "unique_key inv_id (invoices (itemized l t d))"
    using assms(1) by (simp add: inv unique_update_rows totals_ok_def)
  ultimately show ?thesis
    using assms by (simp add: totals_ok_def sums items line_item_ok_def refers_iff)
qed

lemma issued_kept_itemized:
  assumes "\<forall>v \<in> set (invoices d). inv_id v = li_invoice_id l \<longrightarrow> inv_status v = draft"
  shows "issued_kept d (itemized l t d)"
  unfolding issued_kept_def
proof (intro ballI impI)
  fix v assume v: "v \<in> set (invoices d)" "inv_status v \<noteq> draft"
  then have "inv_id v \<noteq> li_invoice_id l" using assms by auto
  then have "v \<in> set (invoices (itemized l t d))" "items_of (inv_id v) (itemized l t d) = items_of (inv_id v) d"
    using v(1) by (force simp: itemized_def upd_invoice_def set_update_rows items_of_def add_line_item_row_def)+
  then show "\<exists>w \<in> set (invoices (itemized l t d)). inv_id w = inv_id v \<and> inv_public_id w = inv_public_id v \<and>
      inv_status w \<noteq> draft \<and> total_amount_cents w = total_amount_cents v \<and> inv_currency w = inv_currency v \<and>
      items_of (inv_id v) (itemized l t d) = items_of (inv_id v) d" using v(2) by auto
qed

lemma issued_kept_refl: "issued_kept d d"
  by (auto simp: issued_kept_def)

lemma issued_kept_trans: "issued_kept d e \<Longrightarrow> issued_kept e f \<Longrightarrow> issued_kept d f"
  unfolding issued_kept_def by metis

interpretation invoice_totals: invoice_client totals_kept
proof unfold_locales
  show "totals_kept d d" for d by (simp add: totals_kept_def issued_kept_refl)
  show "totals_kept d f" if "totals_kept d e" "totals_kept e f" for d e f
    using that unfolding totals_kept_def by (blast intro: issued_kept_trans)
  show "totals_kept d (add_invoice v d)" if "invoice_ok v d" "total_amount_cents v = 0" for v d
    using that totals_ok_add_invoice [of d v]
    by (auto simp: totals_kept_def issued_kept_def add_invoice_def items_of_def)
  show "totals_kept d (itemized l t d)" if "line_item_ok l d"
    "\<forall>v \<in> set (invoices d). inv_id v = li_invoice_id l \<longrightarrow> inv_status v = draft" for l d t
    using that totals_ok_itemized issued_kept_itemized by (simp add: totals_kept_def)
  show "totals_kept d (set_invoice_status i t st d)" if "st \<noteq> draft" for st d i t
    using that unfolding totals_kept_def set_invoice_status_def upd_invoice_def
    by (simp add: totals_ok_update issued_kept_update)
  show "totals_kept d (set_synced i ext t d)" for i ext d t
    unfolding totals_kept_def set_synced_def by (simp add: totals_ok_update issued_kept_update)
qed

section \<open>Properties\<close>

lemma itemized_total:
  assumes "totals_ok d" "v \<in> set (invoices d)" "inv_id v = li_invoice_id l" "line_item_ok l d"
  shows "\<exists>w \<in> set (invoices (itemized l t d)). inv_id w = li_invoice_id l \<and>
    total_amount_cents w = total_amount_cents v + li_amount_cents l \<and>
    total_amount_cents w = item_sum (li_invoice_id l) (itemized l t d)"
proof -
  have "inv_id ` set (invoices (itemized l t d)) = inv_id ` set (invoices d)"
    by (simp add: itemized_def upd_invoice_def image_update_rows)
  with assms(2,3) have "li_invoice_id l \<in> inv_id ` set (invoices (itemized l t d))" by force
  then obtain w where w: "w \<in> set (invoices (itemized l t d))" "inv_id w = li_invoice_id l" by auto
  have "item_sum (li_invoice_id l) (itemized l t d) = item_sum (li_invoice_id l) (add_line_item_row l d)"
    by (simp add: item_sum_def itemized_def upd_invoice_def)
  moreover have "total_amount_cents w = item_sum (li_invoice_id l) (itemized l t d)"
    using w totals_ok_itemized [OF assms(1,4), of t] by (auto simp: totals_ok_def)
  moreover have "total_amount_cents v = item_sum (li_invoice_id l) d"
    using assms by (auto simp: totals_ok_def)
  ultimately show ?thesis using w by (intro bexI [of _ w]) (simp_all add: item_sum_same)
qed

lemma itemized_others:
  "filter (\<lambda>w. inv_id w \<noteq> li_invoice_id l) (invoices (itemized l t d)) =
     filter (\<lambda>w. inv_id w \<noteq> li_invoice_id l) (invoices d)"
proof -
  have "update_rows (\<lambda>r. inv_id r = i) f rows = rows" if "\<forall>r \<in> set rows. inv_id r \<noteq> i" for i f and rows :: "invoice list"
    using that by (induction rows) auto
  then show ?thesis by (simp add: itemized_def upd_invoice_def filter_update_rows)
qed

text \<open>
  Adding a line item on every branch: an unknown invoice and an issued one are refused with
  their error and nothing is written; on a draft the item is stored with the product of quantity
  and unit price as its amount, the draft's total becomes the sum of its items, which is what it was
  plus that amount, and every other invoice and line item stays as it was.
\<close>

theorem add_line_item_branches:
  assumes s: "ready s" "totals_ok (db s)" "fresh_ids (Suc n) s"
  shows "(i \<notin> inv_id ` set (invoices (db s)) \<and> add_line_item i desc q a fk s =
        (Inl (Exc InvoiceNotFoundError (''invoice '' @ str_int i @ '' not found'')), s)) \<or>
    (\<exists>v \<in> set (invoices (db s)). inv_id v = i \<and> inv_status v \<noteq> draft \<and> add_line_item i desc q a fk s =
        (Inl (Exc InvoiceNotMutableError (''cannot add line items to invoice in status '' @
          invoice_status_value (inv_status v))), s)) \<or>
    (\<exists>v \<in> set (invoices (db s)). \<exists>l t. inv_id v = i \<and> inv_status v = draft \<and>
        add_line_item i desc q a fk s = (Inr l, t) \<and> li_amount_cents l = q * a \<and> li_invoice_id l = i \<and>
        invoice_line_items (db t) = invoice_line_items (db s) @ [l] \<and>
        (\<exists>w \<in> set (invoices (db t)). inv_id w = i \<and> total_amount_cents w = total_amount_cents v + q * a \<and>
           total_amount_cents w = item_sum i (db t)) \<and>
        filter (\<lambda>w. inv_id w \<noteq> i) (invoices (db t)) = filter (\<lambda>w. inv_id w \<noteq> i) (invoices (db s)))"
proof (rule unique_key_filter_cases [OF keys_uniqueD(12) [OF readyD(2) [OF s(1)]], of i])
  assume none: "filter (\<lambda>v. inv_id v = i) (invoices (db s)) = []"
  then have "i \<notin> inv_id ` set (invoices (db s))" by (auto simp: filter_empty_conv)
  with none readyD(1) [OF s(1)] show ?thesis by (simp add: add_line_item_def)
next
  fix v assume v: "v \<in> set (invoices (db s))" "inv_id v = i" "filter (\<lambda>v. inv_id v = i) (invoices (db s)) = [v]"
  show ?thesis
  proof (cases "inv_status v = draft")
    case False
    then have "add_line_item i desc q a fk s = (Inl (Exc InvoiceNotMutableError
        (''cannot add line items to invoice in status '' @ invoice_status_value (inv_status v))), s)"
      using v readyD(1) [OF s(1)] by (simp add: add_line_item_def)
    with False v(1,2) show ?thesis by blast
  next
    case True
    let ?l = "new_line_item (upcoming_uuid s) i desc q a fk (tx_now s)"
    have l: "li_invoice_id ?l = i" "li_amount_cents ?l = q * a" "li_id ?l = upcoming_uuid s"
      by (simp_all add: new_line_item_def line_total_cents_def)
    have "upcoming_uuid s \<notin> li_id ` set (invoice_line_items (db s))"
      using fresh_idsD [OF s(3)] by (simp add: used_ids_def)
    then have ok: "line_item_ok ?l (db s)"
      using v(1,2) by (simp add: line_item_ok_def fresh_iff refers_iff l) (metis imageI)
    let ?t = "(after_uuid s)\<lparr>db := itemized ?l (tx_now s) (db s)\<rparr>"
    have run: "add_line_item i desc q a fk s = (Inr ?l, ?t)"
      using itemization_run [of "after_uuid s" i v ?l] v(3) True readyD(1) [OF s(1)] l(1) ok
      by (simp add: add_line_item_def Let_def)
    have items: "invoice_line_items (itemized ?l (tx_now s) (db s)) = invoice_line_items (db s) @ [?l]"
      by (simp add: itemized_def upd_invoice_def add_line_item_row_def)
    show ?thesis
      using itemized_total [OF s(2) v(1) _ ok, of "tx_now s"] itemized_others [of ?l "tx_now s" "db s"] run items v(1,2) True l
      by (intro disjI2 bexI [of _ v] exI [of _ ?l] exI [of _ ?t]) auto
  qed
qed

text \<open>The sample session with one empty draft.\<close>

definition draft_session :: session where
  "draft_session = sample_session\<lparr>db := sample_db\<lparr>invoices :=
     [draft_invoice 1 401 1 ''usd'' 0 (30 * day_us) ''close-1'' (Some 1) 0]\<rparr>\<rparr>"

lemma draft_session_ready: "ready draft_session"
  by (simp add: ready_def draft_session_def sequence_ahead_def)
    (simp add: integrity_defs unique_by_def List.map_filter_simps sample_org_def sample_sub_def draft_invoice_def)

lemma draft_session_fresh: "fresh_ids 100 draft_session"
  by (rule fresh_small_ids) (auto simp: used_ids_def draft_session_def sample_db_def draft_invoice_def)

theorem add_line_item_branches_witness:
  "\<exists>l t. add_line_item 1 ''Usage: api_calls'' 3 25 (Some ''api_calls'') draft_session = (Inr l, t) \<and>
     li_amount_cents l = 75 \<and> (\<exists>w \<in> set (invoices (db t)). inv_id w = 1 \<and> total_amount_cents w = 75)"
proof -
  have i: "invoices (db draft_session) = [draft_invoice 1 401 1 ''usd'' 0 (30 * day_us) ''close-1'' (Some 1) 0]"
    "invoice_line_items (db draft_session) = []" by (simp_all add: draft_session_def sample_db_def)
  then have "totals_ok (db draft_session)"
    by (simp add: totals_ok_def item_sum_def draft_invoice_def unique_by_def List.map_filter_simps)
  moreover have "fresh_ids (Suc 0) draft_session" by (rule fresh_ids_le [OF draft_session_fresh]) simp
  ultimately show ?thesis
    using add_line_item_branches [OF draft_session_ready, of 0 1 "''Usage: api_calls''" 3 25 "Some ''api_calls''"] i
    by (simp add: draft_invoice_def) blast
qed

end
