(* ===== verification/Catalog.thy ===== *)
theory Catalog
  imports Invoices "HOL-Library.List_Lexorder" "HOL-Library.Char_ord"
begin

text \<open>
  The product catalog (\<^verbatim>\<open>services/catalog.py\<close>): products, versioned plans that are drafts until
  they are published, prices and features of a plan, and the snapshot of what is published. Once a
  plan is published neither the plan nor its prices nor its features can be changed.
\<close>

section \<open>Constraints and writes\<close>

definition product_ok :: "product \<Rightarrow> database \<Rightarrow> bool" where
  "product_ok r d \<longleftrightarrow> fresh prod_id r (products d) \<and> fresh prod_key r (products d)"

definition plan_ok :: "plan \<Rightarrow> database \<Rightarrow> bool" where
  "plan_ok r d \<longleftrightarrow>
     fresh plan_id r (plans d) \<and> fresh (\<lambda>p. (plan_product_id p, plan_key p, plan_version p)) r (plans d) \<and>
     refers prod_id (plan_product_id r) (products d)"

definition price_ok :: "price \<Rightarrow> database \<Rightarrow> bool" where
  "price_ok r d \<longleftrightarrow> fresh price_id r (prices d) \<and> refers plan_id (price_plan_id r) (plans d)"

definition feature_ok :: "feature \<Rightarrow> database \<Rightarrow> bool" where
  "feature_ok r d \<longleftrightarrow> fresh feat_id r (features d) \<and> fresh feat_key r (features d)"

definition plan_feature_ok :: "plan_feature \<Rightarrow> database \<Rightarrow> bool" where
  "plan_feature_ok r d \<longleftrightarrow>
     fresh pf_id r (plan_features d) \<and> fresh (\<lambda>l. (pf_plan_id l, pf_feature_id l)) r (plan_features d) \<and>
     refers plan_id (pf_plan_id r) (plans d) \<and> refers feat_id (pf_feature_id r) (features d)"

definition add_product :: "product \<Rightarrow> database \<Rightarrow> database" where
  "add_product r d = d\<lparr>products := products d @ [r]\<rparr>"

definition add_plan :: "plan \<Rightarrow> database \<Rightarrow> database" where
  "add_plan r d = d\<lparr>plans := plans d @ [r]\<rparr>"

definition add_price :: "price \<Rightarrow> database \<Rightarrow> database" where
  "add_price r d = d\<lparr>prices := prices d @ [r]\<rparr>"

definition add_feature :: "feature \<Rightarrow> database \<Rightarrow> database" where
  "add_feature r d = d\<lparr>features := features d @ [r]\<rparr>"

definition add_plan_feature :: "plan_feature \<Rightarrow> database \<Rightarrow> database" where
  "add_plan_feature r d = d\<lparr>plan_features := plan_features d @ [r]\<rparr>"

definition upd_plan :: "uuid \<Rightarrow> (plan \<Rightarrow> plan) \<Rightarrow> database \<Rightarrow> database" where
  "upd_plan u f d = d\<lparr>plans := update_rows (\<lambda>p. plan_id p = u) f (plans d)\<rparr>"

definition upd_plan_feature :: "uuid \<Rightarrow> (plan_feature \<Rightarrow> plan_feature) \<Rightarrow> database \<Rightarrow> database" where
  "upd_plan_feature u f d = d\<lparr>plan_features := update_rows (\<lambda>l. pf_id l = u) f (plan_features d)\<rparr>"

lemmas catalog_write_defs =
  add_product_def add_plan_def add_price_def add_feature_def add_plan_feature_def upd_plan_def
  upd_plan_feature_def

section \<open>Operations\<close>

definition ALLOWED_FEATURE_TYPES :: "string list" where
  "ALLOWED_FEATURE_TYPES = [''boolean'', ''quota'', ''rate_limit'', ''seat'']"

record plan_feature_input =
  pfi_feature_id :: uuid
  pfi_limit_value :: "int option"
  pfi_is_enabled :: bool
  pfi_enforcement_mode :: string

record catalog_snapshot =
  cs_products :: "product list"
  cs_plans :: "plan list"
  cs_prices :: "price list"
  cs_features :: "feature list"
  cs_plan_features :: "plan_feature list"

definition create_product :: "string \<Rightarrow> string \<Rightarrow> string option \<Rightarrow> bool \<Rightarrow> product op" where
  "create_product k name description is_active =
     bindE new_uuid (\<lambda>u.
     let r = \<lparr>prod_id = u, prod_key = k, prod_name = name, prod_description = description,
              prod_is_active = is_active\<rparr>
     in thenE (insert_checked (product_ok r) (add_product r)) (returnE r))"

definition get_product_or_raise :: "uuid \<Rightarrow> product op" where
  "get_product_or_raise pr =
     bindE (bindE (query (\<lambda>d. filter (\<lambda>r. prod_id r = pr) (products d))) scalar_one_or_none) (\<lambda>found.
     case found of
       None \<Rightarrow> raiseE ProductNotFoundError (''product '' @ uuid_str pr @ '' not found'')
     | Some r \<Rightarrow> returnE r)"

definition get_plan_or_raise :: "uuid \<Rightarrow> plan op" where
  "get_plan_or_raise pid =
     bindE (find_plan pid) (\<lambda>found.
     case found of
       None \<Rightarrow> raiseE PlanNotFoundError (''plan '' @ uuid_str pid @ '' not found'')
     | Some p \<Rightarrow> returnE p)"

definition assert_plan_is_draft :: "plan \<Rightarrow> unit op" where
  "assert_plan_is_draft p =
     (if published_at p \<noteq> None
      then raiseE PlanNotDraftError (''plan '' @ uuid_str (plan_id p) @ '' is not a draft'')
      else returnE ())"

definition draft_of :: "uuid \<Rightarrow> string \<Rightarrow> plan \<Rightarrow> bool" where
  "draft_of pr k p \<longleftrightarrow> plan_product_id p = pr \<and> plan_key p = k \<and> published_at p = None"

text \<open>\<^verbatim>\<open>coalesce(max(version), 0) + 1\<close> over the plans with the product and key.\<close>

definition next_version :: "uuid \<Rightarrow> string \<Rightarrow> database \<Rightarrow> int" where
  "next_version pr k d =
     (case map plan_version (filter (\<lambda>p. plan_product_id p = pr \<and> plan_key p = k) (plans d)) of
        [] \<Rightarrow> 0 | v # vs \<Rightarrow> fold max vs v) + 1"

definition draft_plan_row ::
  "uuid \<Rightarrow> uuid \<Rightarrow> string \<Rightarrow> string \<Rightarrow> int option \<Rightarrow> int \<Rightarrow> json_object option \<Rightarrow> json_object option \<Rightarrow> int \<Rightarrow> plan" where
  "draft_plan_row u pr k interval trial grace dunning entitlement v =
     \<lparr>plan_id = u, plan_product_id = pr, plan_key = k, billing_interval = interval, trial_days = trial,
      grace_period_days = grace, dunning_policy = (case dunning of None \<Rightarrow> [] | Some m \<Rightarrow> m),
      entitlement_policy = (case entitlement of None \<Rightarrow> [] | Some m \<Rightarrow> m), plan_version = v,
      published_at = None\<rparr>"

definition create_plan ::
  "uuid \<Rightarrow> string \<Rightarrow> string \<Rightarrow> int option \<Rightarrow> int \<Rightarrow> json_object option \<Rightarrow> json_object option \<Rightarrow> plan op" where
  "create_plan pr k interval trial grace dunning entitlement =
     thenE (get_product_or_raise pr)
     (bindE (bindE (query (\<lambda>d. filter (draft_of pr k) (plans d))) scalar_one_or_none) (\<lambda>draft.
      if draft \<noteq> None
      then raiseE PlanDraftExistsError
             (''draft plan already exists for product '' @ uuid_str pr @ '' key '' @ k)
      else
        bindE (query (next_version pr k)) (\<lambda>v.
        bindE new_uuid (\<lambda>u.
        let p = draft_plan_row u pr k interval trial grace dunning entitlement v
        in thenE (insert_checked (plan_ok p) (add_plan p)) (returnE p)))))"

definition new_price ::
  "uuid \<Rightarrow> uuid \<Rightarrow> int \<Rightarrow> string \<Rightarrow> string \<Rightarrow> string option \<Rightarrow> string option \<Rightarrow> bool \<Rightarrow> price" where
  "new_price u pid amount currency model metered external is_active =
     \<lparr>price_id = u, price_plan_id = pid, price_currency = currency, unit_amount_cents = amount,
      pricing_model = model, metered_feature_key = metered, external_price_id = external,
      price_is_active = is_active\<rparr>"

definition create_price ::
  "uuid \<Rightarrow> int \<Rightarrow> string \<Rightarrow> string \<Rightarrow> string option \<Rightarrow> string option \<Rightarrow> bool \<Rightarrow> price op" where
  "create_price pid amount currency model metered external is_active =
     bindE (get_plan_or_raise pid) (\<lambda>p.
     thenE (assert_plan_is_draft p)
     (bindE new_uuid (\<lambda>u.
      let r = new_price u pid amount currency model metered external is_active
      in thenE (insert_checked (price_ok r) (add_price r)) (returnE r))))"

definition quoted :: "string \<Rightarrow> string" where
  "quoted k = [CHR 0x27] @ k @ [CHR 0x27]"

definition create_feature :: "string \<Rightarrow> string \<Rightarrow> int option \<Rightarrow> string option \<Rightarrow> feature op" where
  "create_feature k ft limit reset =
     (if ft \<notin> set ALLOWED_FEATURE_TYPES
      then raiseE InvalidFeatureTypeError
             (''feature_type must be one of ['' @ quoted ''boolean'' @ '', '' @ quoted ''quota'' @ '', ''
                @ quoted ''rate_limit'' @ '', '' @ quoted ''seat'' @ '']'')
      else
        bindE new_uuid (\<lambda>u.
        let r = \<lparr>feat_id = u, feat_key = k, feature_type = ft, default_limit = limit, reset_interval = reset\<rparr>
        in thenE (insert_checked (feature_ok r) (add_feature r)) (returnE r)))"

text \<open>
  One item of \<^verbatim>\<open>set_plan_features\<close>. A pending row is written by the next query or by the final
  flush; nothing observable lies in between, so it is written here. \<open>existing\<close> is the dictionary of
  the rows found at the start, and is not extended by new rows.
\<close>

definition apply_input :: "plan_feature_input \<Rightarrow> plan_feature \<Rightarrow> plan_feature" where
  "apply_input item l =
     l\<lparr>limit_value := pfi_limit_value item, is_enabled := pfi_is_enabled item,
       enforcement_mode := pfi_enforcement_mode item\<rparr>"

definition plan_feature_row :: "uuid \<Rightarrow> uuid \<Rightarrow> plan_feature_input \<Rightarrow> plan_feature" where
  "plan_feature_row u pid item =
     \<lparr>pf_id = u, pf_plan_id = pid, pf_feature_id = pfi_feature_id item, limit_value = pfi_limit_value item,
      is_enabled = pfi_is_enabled item, enforcement_mode = pfi_enforcement_mode item\<rparr>"

definition set_feature_step ::
  "uuid \<Rightarrow> (uuid \<times> uuid) list \<Rightarrow> plan_feature_input \<Rightarrow> uuid list \<Rightarrow> uuid list op" where
  "set_feature_step pid existing item updated =
     bindE (bindE (query (\<lambda>d. filter (\<lambda>f. feat_id f = pfi_feature_id item) (features d))) scalar_one_or_none)
       (\<lambda>found.
     if found = None
     then raiseE FeatureNotFoundError (''feature '' @ uuid_str (pfi_feature_id item) @ '' not found'')
     else
       case map_of existing (pfi_feature_id item) of
         Some u \<Rightarrow> thenE (update_db (upd_plan_feature u (apply_input item))) (returnE (updated @ [u]))
       | None \<Rightarrow>
           bindE new_uuid (\<lambda>u.
           let l = plan_feature_row u pid item
           in thenE (insert_checked (plan_feature_ok l) (add_plan_feature l)) (returnE (updated @ [u]))))"

text \<open>The result lists the mapped objects, with the attributes they have in the end.\<close>

definition set_plan_features :: "uuid \<Rightarrow> plan_feature_input list \<Rightarrow> plan_feature list op" where
  "set_plan_features pid items =
     bindE (get_plan_or_raise pid) (\<lambda>p.
     thenE (assert_plan_is_draft p)
     (bindE (query (\<lambda>d. dict_of pf_feature_id pf_id (filter (\<lambda>l. pf_plan_id l = pid) (plan_features d)))) (\<lambda>existing.
      bindE (foldE (set_feature_step pid existing) items []) (\<lambda>updated.
      thenE flush
      (getE (\<lambda>s. concat (map (\<lambda>u. filter (\<lambda>l. pf_id l = u) (plan_features (db s))) updated)))))))"

definition publish_plan :: "uuid \<Rightarrow> plan op" where
  "publish_plan pid =
     bindE (get_plan_or_raise pid) (\<lambda>p.
     if published_at p \<noteq> None
     then raiseE PlanNotDraftError (''plan '' @ uuid_str pid @ '' is already published'')
     else
       bindE now_utc (\<lambda>now.
       thenE (update_db (upd_plan pid (\<lambda>p. p\<lparr>published_at := Some now\<rparr>)))
       (thenE flush (returnE (p\<lparr>published_at := Some now\<rparr>)))))"

text \<open>
  \<^verbatim>\<open>get_catalog_snapshot\<close>: the published plans and what belongs to them. Texts are ordered by code
  points, as in the database's C collation.
\<close>

definition catalog_snapshot_of :: "database \<Rightarrow> catalog_snapshot" where
  "catalog_snapshot_of d =
     (let ps = order_by (\<lambda>p. the (published_at p)) (filter (\<lambda>p. published_at p \<noteq> None) (plans d));
          pids = map plan_id ps;
          pfs = order_by pf_plan_id (filter (\<lambda>l. pf_plan_id l \<in> set pids) (plan_features d))
      in \<lparr>cs_products = order_by prod_key (filter (\<lambda>r. prod_id r \<in> set (map plan_product_id ps)) (products d)),
          cs_plans = ps,
          cs_prices = order_by price_plan_id (filter (\<lambda>r. price_plan_id r \<in> set pids) (prices d)),
          cs_features = order_by feat_key (filter (\<lambda>f. feat_id f \<in> set (map pf_feature_id pfs)) (features d)),
          cs_plan_features = pfs\<rparr>)"

definition get_catalog_snapshot :: "catalog_snapshot op" where
  "get_catalog_snapshot = query catalog_snapshot_of"

section \<open>Write footprint\<close>

text \<open>
  A client of the catalog inserts products and features, inserts a draft plan where there is none
  for its product and key, adds prices and features to drafts, sets features of drafts, and
  publishes drafts.
\<close>

definition is_draft :: "uuid \<Rightarrow> database \<Rightarrow> bool" where
  "is_draft pid d \<longleftrightarrow> (\<forall>p \<in> set (plans d). plan_id p = pid \<longrightarrow> published_at p = None)"

definition linked :: "uuid \<Rightarrow> database \<Rightarrow> uuid set" where
  "linked pid d = {pf_id l | l. l \<in> set (plan_features d) \<and> pf_plan_id l = pid}"

definition published :: "instant \<Rightarrow> plan \<Rightarrow> plan" where
  "published t p = p\<lparr>published_at := Some t\<rparr>"

locale catalog_client = db_preorder +
  assumes product_insert: "product_ok r d \<Longrightarrow> D d (add_product r d)"
    and plan_insert: "plan_ok p d \<Longrightarrow> published_at p = None \<Longrightarrow>
      filter (draft_of (plan_product_id p) (plan_key p)) (plans d) = [] \<Longrightarrow> D d (add_plan p d)"
    and price_insert: "price_ok c d \<Longrightarrow> is_draft (price_plan_id c) d \<Longrightarrow> D d (add_price c d)"
    and feature_insert: "feature_ok f d \<Longrightarrow> D d (add_feature f d)"
    and plan_feature_insert:
      "plan_feature_ok l d \<Longrightarrow> is_draft (pf_plan_id l) d \<Longrightarrow> D d (add_plan_feature l d)"
    and plan_feature_set:
      "is_draft pid d \<Longrightarrow> u \<in> linked pid d \<Longrightarrow> D d (upd_plan_feature u (apply_input item) d)"
    and plan_publish: "is_draft pid d \<Longrightarrow> D d (upd_plan pid (published t) d)"
begin

lemma create_product: "keeps_db D (create_product k n ds a)"
  unfolding create_product_def by (intro primitives product_insert)

lemma create_feature: "keeps_db D (create_feature k ft l r)"
  unfolding create_feature_def by (intro primitives feature_insert)

lemma get_product_or_raise: "keeps_db D (get_product_or_raise pr)"
  unfolding get_product_or_raise_def by (intro primitives)

lemma get_plan_or_raise: "keeps_db D (get_plan_or_raise pid)"
  unfolding get_plan_or_raise_def find_plan_def by (intro primitives)

lemma get_catalog_snapshot: "keeps_db D get_catalog_snapshot"
  unfolding get_catalog_snapshot_def by (intro primitives)

lemma db_preorder_drafting:
  "db_preorder (\<lambda>d e. is_draft pid d \<and> U \<subseteq> linked pid d \<longrightarrow> D d e \<and> is_draft pid e \<and> U \<subseteq> linked pid e)"
  by unfold_locales (auto intro: db_refl db_trans)

end

text \<open>Between the check that a plan is a draft and the last write, the plan stays a draft.\<close>

sublocale catalog_client \<subseteq> drafting: db_preorder
  "\<lambda>d e. is_draft pid d \<and> U \<subseteq> linked pid d \<longrightarrow> D d e \<and> is_draft pid e \<and> U \<subseteq> linked pid e" for pid U
  by (rule db_preorder_drafting)

lemma find_plan_InrD:
  "find_plan pid s = (Inr x, t) \<Longrightarrow>
     t = s \<and> \<not> tx_failed s \<and> x = first_row (filter (\<lambda>p. plan_id p = pid) (plans (db s))) \<and>
     length (filter (\<lambda>p. plan_id p = pid) (plans (db s))) \<le> 1"
  by (cases "tx_failed s")
    (auto simp: find_plan_def scalar_one_or_none_def split: list.splits)

lemma get_plan_or_raise_InrD:
  assumes "get_plan_or_raise pid s = (Inr p, t)"
  shows "t = s" "\<not> tx_failed s" "filter (\<lambda>p. plan_id p = pid) (plans (db s)) = [p]"
proof -
  from assms obtain x u where x: "find_plan pid s = (Inr x, u)" "x = Some p" "u = t"
    unfolding get_plan_or_raise_def by (elim bindE_InrE) (auto split: option.splits)
  from find_plan_InrD [OF x(1)] x(2,3)
  show "t = s" "\<not> tx_failed s" "filter (\<lambda>p. plan_id p = pid) (plans (db s)) = [p]"
    by (auto simp: first_row_def split: list.splits)
qed

lemma is_draft_found: "filter (\<lambda>p. plan_id p = pid) (plans d) = [p] \<Longrightarrow> published_at p = None \<Longrightarrow> is_draft pid d"
proof (unfold is_draft_def, intro ballI impI)
  fix q assume one: "filter (\<lambda>p. plan_id p = pid) (plans d) = [p]" "published_at p = None"
    and q: "q \<in> set (plans d)" "plan_id q = pid"
  have "q \<in> set (filter (\<lambda>p. plan_id p = pid) (plans d))" using q by simp
  with one show "published_at q = None" by simp
qed

lemma linked_upd [simp]: "linked pid (upd_plan_feature u (apply_input item) d) = linked pid d"
proof -
  define g where "g l = (if pf_id l = u then apply_input item l else l)" for l
  have "pf_id (g l) = pf_id l" "pf_plan_id (g l) = pf_plan_id l" for l by (simp_all add: g_def apply_input_def)
  moreover have "set (plan_features (upd_plan_feature u (apply_input item) d)) = g ` set (plan_features d)"
    by (simp add: upd_plan_feature_def set_update_rows g_def [abs_def])
  ultimately show ?thesis unfolding linked_def by (auto simp: image_iff) metis
qed

lemma linked_add [simp]: "linked pid (add_plan_feature l d) = (if pf_plan_id l = pid then {pf_id l} else {}) \<union> linked pid d"
  by (auto simp: linked_def add_plan_feature_def)

lemma is_draft_links [simp]:
  "is_draft pid (upd_plan_feature u f d) = is_draft pid d" "is_draft pid (add_plan_feature l d) = is_draft pid d"
  by (simp_all add: is_draft_def catalog_write_defs)

lemma assert_then_draft:
  "thenE (assert_plan_is_draft p) m = (if published_at p \<noteq> None
     then raiseE PlanNotDraftError (''plan '' @ uuid_str (plan_id p) @ '' is not a draft'') else m)"
  by (rule ext) (simp add: assert_plan_is_draft_def)

context catalog_client
begin

lemma draft_checked:
  assumes "\<And>p s. is_draft pid (db s) \<Longrightarrow> \<not> tx_failed s \<Longrightarrow>
    committed (snd (m p s)) = committed s \<and> D (db s) (db (snd (m p s)))"
  shows "keeps_db D (bindE (get_plan_or_raise pid) (\<lambda>p. if published_at p \<noteq> None then raiseE c (msg p) else m p))"
proof (rule keepsI)
  fix s
  let ?m = "bindE (get_plan_or_raise pid) (\<lambda>p. if published_at p \<noteq> None then raiseE c (msg p) else m p)"
  obtain r t where rt: "get_plan_or_raise pid s = (r, t)" by fastforce
  show "committed (snd (?m s)) = committed s \<and> D (db s) (db (snd (?m s)))"
  proof (cases r)
    case (Inl e)
    with rt keepsD [OF get_plan_or_raise rt] show ?thesis by simp
  next
    case (Inr p)
    note g = get_plan_or_raise_InrD [OF rt [unfolded Inr]]
    show ?thesis
    proof (cases "published_at p = None")
      case True
      then show ?thesis using assms [OF is_draft_found [OF g(3) True] g(2)] rt Inr g(1) by simp
    next
      case False
      then show ?thesis using rt Inr g(1) by (simp add: db_refl)
    qed
  qed
qed

lemma create_price: "keeps_db D (create_price pid a cu mo me ex ac)"
  unfolding create_price_def assert_then_draft Let_def
proof (rule draft_checked)
  fix p and s :: session assume d: "is_draft pid (db s)" and nf: "\<not> tx_failed s"
  let ?r = "new_price (upcoming_uuid s) pid a cu mo me ex ac"
  have "D (db s) (add_price ?r (db s))" if "price_ok ?r (db s)"
    using that d by (intro price_insert) (simp_all add: new_price_def)
  with nf show "committed (snd (bindE new_uuid (\<lambda>u. thenE (insert_checked (price_ok (new_price u pid a cu mo me ex ac))
      (add_price (new_price u pid a cu mo me ex ac))) (returnE (new_price u pid a cu mo me ex ac))) s)) = committed s \<and>
    D (db s) (db (snd (bindE new_uuid (\<lambda>u. thenE (insert_checked (price_ok (new_price u pid a cu mo me ex ac))
      (add_price (new_price u pid a cu mo me ex ac))) (returnE (new_price u pid a cu mo me ex ac))) s)))"
    by (cases "price_ok ?r (db s)") (simp_all add: db_refl)
qed

lemma publish_plan: "keeps_db D (publish_plan pid)"
  unfolding publish_plan_def
proof (rule draft_checked)
  fix p and s :: session assume d: "is_draft pid (db s)" and nf: "\<not> tx_failed s"
  from plan_publish [OF d] nf
  show "committed (snd (bindE now_utc (\<lambda>now. thenE (update_db (upd_plan pid (\<lambda>p. p\<lparr>published_at := Some now\<rparr>)))
      (thenE flush (returnE (p\<lparr>published_at := Some now\<rparr>)))) s)) = committed s \<and>
    D (db s) (db (snd (bindE now_utc (\<lambda>now. thenE (update_db (upd_plan pid (\<lambda>p. p\<lparr>published_at := Some now\<rparr>)))
      (thenE flush (returnE (p\<lparr>published_at := Some now\<rparr>)))) s)))"
    by (simp add: published_def [abs_def])
qed

abbreviation drafting_step :: "uuid \<Rightarrow> uuid set \<Rightarrow> database \<Rightarrow> database \<Rightarrow> bool" where
  "drafting_step pid U d e \<equiv> is_draft pid d \<and> U \<subseteq> linked pid d \<longrightarrow> D d e \<and> is_draft pid e \<and> U \<subseteq> linked pid e"

lemma drafting_update: "u \<in> U \<Longrightarrow> drafting_step pid U d (upd_plan_feature u (apply_input item) d)"
  using plan_feature_set [of pid d u item] by (auto simp: linked_upd is_draft_links)

lemma drafting_insert:
  "plan_feature_ok (plan_feature_row u pid item) d \<Longrightarrow> drafting_step pid U d (add_plan_feature (plan_feature_row u pid item) d)"
  using plan_feature_insert [of "plan_feature_row u pid item" d]
  by (auto simp: linked_add is_draft_links plan_feature_row_def)

lemma set_feature_step:
  assumes "snd ` set existing \<subseteq> U"
  shows "keeps_db (drafting_step pid U) (set_feature_step pid existing item acc)"
proof (cases "map_of existing (pfi_feature_id item)")
  case None
  show ?thesis unfolding set_feature_step_def None option.case
    by (intro drafting.primitives drafting_insert)
next
  case (Some u)
  then have "u \<in> U" using assms by (force dest: map_of_SomeD)
  then show ?thesis unfolding set_feature_step_def Some option.case
    by (intro drafting.primitives drafting_update)
qed

lemma set_features:
  assumes "snd ` set existing \<subseteq> U"
  shows "keeps_db (drafting_step pid U) (bindE (foldE (set_feature_step pid existing) items []) (\<lambda>updated.
    thenE flush (getE (\<lambda>s. concat (map (\<lambda>u. filter (\<lambda>l. pf_id l = u) (plan_features (db s))) updated)))))"
  by (intro drafting.primitives set_feature_step assms)

lemma set_plan_features: "keeps_db D (set_plan_features pid items)"
  unfolding set_plan_features_def assert_then_draft
proof (rule draft_checked)
  fix p and s :: session assume d: "is_draft pid (db s)" and nf: "\<not> tx_failed s"
  let ?ex = "dict_of pf_feature_id pf_id (filter (\<lambda>l. pf_plan_id l = pid) (plan_features (db s)))"
  let ?m = "\<lambda>existing. bindE (foldE (set_feature_step pid existing) items []) (\<lambda>updated.
    thenE flush (getE (\<lambda>s. concat (map (\<lambda>u. filter (\<lambda>l. pf_id l = u) (plan_features (db s))) updated))))"
  have "snd ` set ?ex \<subseteq> linked pid (db s)"
    by (auto simp: linked_def dest!: set_dict_of)
  then have k: "keeps_db (drafting_step pid (snd ` set ?ex)) (?m ?ex)" "snd ` set ?ex \<subseteq> linked pid (db s)"
    by (auto intro: set_features)
  obtain r t where rt: "?m ?ex s = (r, t)" by fastforce
  from keepsD [OF k(1) rt] d k(2) have "committed t = committed s \<and> D (db s) (db t)" by blast
  with rt nf show "committed (snd (bindE (query (\<lambda>d. dict_of pf_feature_id pf_id
      (filter (\<lambda>l. pf_plan_id l = pid) (plan_features d)))) ?m s)) = committed s \<and>
    D (db s) (db (snd (bindE (query (\<lambda>d. dict_of pf_feature_id pf_id
      (filter (\<lambda>l. pf_plan_id l = pid) (plan_features d)))) ?m s)))" by simp
qed

end

lemma get_product_or_raise_run:
  assumes "\<not> tx_failed s" "unique_key prod_id (products (db s))"
  shows "get_product_or_raise pr s =
    (case first_row (filter (\<lambda>r. prod_id r = pr) (products (db s))) of
       None \<Rightarrow> (Inl (Exc ProductNotFoundError (''product '' @ uuid_str pr @ '' not found'')), s)
     | Some r \<Rightarrow> (Inr r, s))"
  using assms(1) by (cases rule: unique_key_filter_cases [OF assms(2), of pr]) (simp_all add: get_product_or_raise_def)

lemma get_product_or_raise_state: "snd (get_product_or_raise pr s) = s"
proof -
  consider "filter (\<lambda>r. prod_id r = pr) (products (db s)) = []"
    | q where "filter (\<lambda>r. prod_id r = pr) (products (db s)) = [q]"
    | q q' qs where "filter (\<lambda>r. prod_id r = pr) (products (db s)) = q # q' # qs" by (metis neq_Nil_conv)
  then show ?thesis
    by cases (cases "tx_failed s"; simp add: get_product_or_raise_def scalar_one_or_none_def)+
qed

lemma create_plan_cases:
  assumes "create_plan pr k iv tr gr du en s = (r, t)"
  defines "p \<equiv> draft_plan_row (upcoming_uuid s) pr k iv tr gr du en (next_version pr k (db s))"
  shows "(db t = db s \<and> committed t = committed s \<and> (\<exists>e. r = Inl e)) \<or>
    (r = Inr p \<and> plan_ok p (db s) \<and> filter (draft_of pr k) (plans (db s)) = [] \<and>
     t = (after_uuid s)\<lparr>db := add_plan p (db s)\<rparr>)"
proof -
  obtain x u where g: "get_product_or_raise pr s = (x, u)" by fastforce
  then have u: "u = s" using get_product_or_raise_state [of pr s] by simp
  show ?thesis
  proof (cases "tx_failed s \<or> (\<exists>e. x = Inl e)")
    case True
    then show ?thesis using assms(1) g u
      by (cases x) (auto simp: create_plan_def)
  next
    case False
    then obtain a where a: "x = Inr a" "\<not> tx_failed s" by (cases x) auto
    consider "filter (draft_of pr k) (plans (db s)) = []"
      | q where "filter (draft_of pr k) (plans (db s)) = [q]"
      | q q' qs where "filter (draft_of pr k) (plans (db s)) = q # q' # qs" by (metis neq_Nil_conv)
    then show ?thesis
    proof cases
      case 1
      then show ?thesis using assms(1) g u a
        by (cases "plan_ok p (db s)") (auto simp: create_plan_def p_def Let_def)
    next
      case 2
      then show ?thesis using assms(1) g u a by (auto simp: create_plan_def)
    next
      case 3
      then show ?thesis using assms(1) g u a by (auto simp: create_plan_def scalar_one_or_none_def)
    qed
  qed
qed

context catalog_client
begin

lemma create_plan: "keeps_db D (create_plan pr k iv tr gr du en)"
proof (rule keepsI)
  fix s :: session
  obtain r t where rt: "create_plan pr k iv tr gr du en s = (r, t)" by fastforce
  from create_plan_cases [OF rt]
  have "committed t = committed s \<and> D (db s) (db t)"
    using plan_insert by (auto simp: draft_plan_row_def db_refl)
  with rt show "committed (snd (create_plan pr k iv tr gr du en s)) = committed s \<and>
      D (db s) (db (snd (create_plan pr k iv tr gr du en s)))" by simp
qed

end

section \<open>Instances\<close>

interpretation catalog_log: catalog_client ledger_extends
  by unfold_locales (simp_all add: ledger_extends_def catalog_write_defs)

interpretation catalog_lifecycle: catalog_client lifecycle_kept
  by unfold_locales (auto simp: catalog_write_defs intro: lifecycle_kept_same)

interpretation catalog_totals: catalog_client totals_kept
  by unfold_locales
    (auto simp: totals_kept_def issued_kept_def totals_ok_def items_of_def item_sum_def catalog_write_defs)

lemma plan_id_published: "plan_id (published t p) = plan_id p"
  by (simp add: published_def)

lemma db_ok_catalog:
  "db_ok (add_product r d) = db_ok d" "db_ok (add_price c d) = db_ok d" "db_ok (add_feature f d) = db_ok d"
  "db_ok (add_plan_feature l d) = db_ok d" "db_ok (upd_plan_feature u g d) = db_ok d"
  "db_ok (upd_plan pid (published t) d) = db_ok d"
  by (simp_all add: integrity_defs catalog_write_defs unique_update_rows plan_id_published image_update_rows)

lemma db_ok_add_plan: "db_ok d \<Longrightarrow> plan_ok p d \<Longrightarrow> db_ok (add_plan p d)"
  by (auto simp: integrity_defs add_plan_def plan_ok_def unique_key_snoc)

interpretation catalog_integrity: catalog_client stays_ok
  by unfold_locales (simp_all add: stays_ok_def db_ok_catalog db_ok_add_plan)

section \<open>Published plans\<close>

text \<open>
  The catalog is well formed: the constraints hold, and there is at most one draft per product and
  key (which no constraint demands, only the check in \<^verbatim>\<open>create_plan\<close>).
\<close>

definition draft_key :: "plan \<Rightarrow> (uuid \<times> string) option" where
  "draft_key p = (if published_at p = None then Some (plan_product_id p, plan_key p) else None)"

definition catalog_ok :: "database \<Rightarrow> bool" where
  "catalog_ok d \<longleftrightarrow>
     unique_key prod_id (products d) \<and> unique_key prod_key (products d) \<and>
     unique_key plan_id (plans d) \<and> unique_key (\<lambda>p. (plan_product_id p, plan_key p, plan_version p)) (plans d) \<and>
     unique_by draft_key (plans d) \<and> unique_key price_id (prices d) \<and>
     unique_key feat_id (features d) \<and> unique_key feat_key (features d) \<and>
     unique_key pf_id (plan_features d) \<and> unique_key (\<lambda>l. (pf_plan_id l, pf_feature_id l)) (plan_features d) \<and>
     (\<forall>p \<in> set (plans d). plan_product_id p \<in> prod_id ` set (products d)) \<and>
     (\<forall>c \<in> set (prices d). price_plan_id c \<in> plan_id ` set (plans d)) \<and>
     (\<forall>l \<in> set (plan_features d). pf_plan_id l \<in> plan_id ` set (plans d) \<and> pf_feature_id l \<in> feat_id ` set (features d))"

text \<open>A published plan stays as it is, with its prices and its features.\<close>

definition plan_prices :: "uuid \<Rightarrow> database \<Rightarrow> price list" where
  "plan_prices pid d = filter (\<lambda>c. price_plan_id c = pid) (prices d)"

definition plan_links :: "uuid \<Rightarrow> database \<Rightarrow> plan_feature list" where
  "plan_links pid d = filter (\<lambda>l. pf_plan_id l = pid) (plan_features d)"

definition offers_kept :: "database \<Rightarrow> database \<Rightarrow> bool" where
  "offers_kept d e \<longleftrightarrow> (\<forall>p \<in> set (plans d). published_at p \<noteq> None \<longrightarrow>
     p \<in> set (plans e) \<and> plan_prices (plan_id p) e = plan_prices (plan_id p) d \<and>
     plan_links (plan_id p) e = plan_links (plan_id p) d)"

definition catalog_kept :: "database \<Rightarrow> database \<Rightarrow> bool" where
  "catalog_kept d e \<longleftrightarrow> (catalog_ok d \<longrightarrow> catalog_ok e \<and> offers_kept d e)"

lemma draft_not_published:
  assumes "is_draft pid d" "p \<in> set (plans d)" "published_at p \<noteq> None"
  shows "plan_id p \<noteq> pid"
  using assms by (auto simp: is_draft_def)

lemma offers_kept_refl: "offers_kept d d"
  by (simp add: offers_kept_def)

lemma offers_kept_trans: "offers_kept d e \<Longrightarrow> offers_kept e f \<Longrightarrow> offers_kept d f"
  unfolding offers_kept_def by metis

lemma offers_kept_price: "is_draft (price_plan_id c) d \<Longrightarrow> offers_kept d (add_price c d)"
  using draft_not_published by (fastforce simp: offers_kept_def plan_prices_def plan_links_def add_price_def)

lemma offers_kept_link: "is_draft (pf_plan_id l) d \<Longrightarrow> offers_kept d (add_plan_feature l d)"
  using draft_not_published by (fastforce simp: offers_kept_def plan_prices_def plan_links_def add_plan_feature_def)

lemma offers_kept_publish: "is_draft pid d \<Longrightarrow> offers_kept d (upd_plan pid f d)"
  using draft_not_published
  by (force simp: offers_kept_def plan_prices_def plan_links_def upd_plan_def set_update_rows image_iff)

lemma apply_input_simps [simp]:
  "pf_id (apply_input item l) = pf_id l" "pf_plan_id (apply_input item l) = pf_plan_id l"
  "pf_feature_id (apply_input item l) = pf_feature_id l"
  by (simp_all add: apply_input_def)

lemma offers_kept_set:
  assumes ok: "catalog_ok d" and d: "is_draft pid d" "u \<in> linked pid d"
  shows "offers_kept d (upd_plan_feature u (apply_input item) d)"
proof -
  from d(2) obtain l where l: "l \<in> set (plan_features d)" "pf_plan_id l = pid" "pf_id l = u" by (auto simp: linked_def)
  have one: "q = l" if "q \<in> set (plan_features d)" "pf_id q = u" for q
    using unique_by_same [of "\<lambda>r. Some (pf_id r)" "plan_features d" l q] ok l that by (simp add: catalog_ok_def)
  have "plan_links (plan_id p) (upd_plan_feature u (apply_input item) d) = plan_links (plan_id p) d"
    if "p \<in> set (plans d)" "published_at p \<noteq> None" for p
  proof -
    have "\<not> pf_plan_id q = plan_id p \<and> \<not> pf_plan_id (apply_input item q) = plan_id p"
      if "q \<in> set (plan_features d)" "pf_id q = u" for q
      using draft_not_published [OF d(1) \<open>p \<in> set (plans d)\<close> \<open>published_at p \<noteq> None\<close>] one [OF that] l(2) by simp
    then show ?thesis unfolding plan_links_def upd_plan_feature_def by (simp add: filter_update_other)
  qed
  then show ?thesis by (simp add: offers_kept_def plan_prices_def upd_plan_feature_def)
qed

lemma unique_draft_publish: "unique_by draft_key ps \<Longrightarrow> unique_by draft_key (update_rows sel (published t) ps)"
proof (induction ps)
  case (Cons p ps)
  have "draft_key (published t q) = None" for q by (simp add: draft_key_def published_def)
  then have "set (List.map_filter draft_key (update_rows sel (published t) ps)) \<subseteq> set (List.map_filter draft_key ps)"
    by (auto simp: set_map_filter set_update_rows split: if_splits)
  with Cons \<open>\<And>q. draft_key (published t q) = None\<close> show ?case
    by (auto simp: unique_by_def List.map_filter_simps split: option.splits)
qed simp

lemma catalog_ok_writes:
  assumes "catalog_ok d"
  shows "product_ok r d \<Longrightarrow> catalog_ok (add_product r d)"
    and "plan_ok p d \<Longrightarrow> filter (draft_of (plan_product_id p) (plan_key p)) (plans d) = [] \<Longrightarrow> catalog_ok (add_plan p d)"
    and "price_ok c d \<Longrightarrow> catalog_ok (add_price c d)"
    and "feature_ok f d \<Longrightarrow> catalog_ok (add_feature f d)"
    and "plan_feature_ok l d \<Longrightarrow> catalog_ok (add_plan_feature l d)"
    and "catalog_ok (upd_plan_feature u (apply_input item) d)"
    and "catalog_ok (upd_plan pid (published t) d)"
proof -
  show "catalog_ok (add_product r d)" if "product_ok r d"
    using assms that by (auto simp: catalog_ok_def add_product_def product_ok_def unique_key_snoc)
  show "catalog_ok (add_price c d)" if "price_ok c d"
    using assms that by (auto simp: catalog_ok_def add_price_def price_ok_def unique_key_snoc refers_iff)
  show "catalog_ok (add_feature f d)" if "feature_ok f d"
    using assms that by (auto simp: catalog_ok_def add_feature_def feature_ok_def unique_key_snoc)
  show "catalog_ok (add_plan_feature l d)" if "plan_feature_ok l d"
    using assms that by (auto simp: catalog_ok_def add_plan_feature_def plan_feature_ok_def unique_key_snoc refers_iff)
  show "catalog_ok (add_plan p d)"
    if "plan_ok p d" "filter (draft_of (plan_product_id p) (plan_key p)) (plans d) = []"
  proof -
    have "fresh_opt draft_key p (plans d)"
      using that(2) by (auto simp: fresh_opt_iff draft_key_def draft_of_def filter_empty_conv)
    with assms that(1) show ?thesis
      by (auto simp: catalog_ok_def add_plan_def plan_ok_def unique_key_snoc unique_opt_snoc refers_iff)
  qed
  show "catalog_ok (upd_plan_feature u (apply_input item) d)"
    using assms by (auto simp: catalog_ok_def upd_plan_feature_def unique_update_rows set_update_rows)
  have "plan_id (published t q) = plan_id q" "plan_product_id (published t q) = plan_product_id q"
    "plan_key (published t q) = plan_key q" "plan_version (published t q) = plan_version q" for q
    by (simp_all add: published_def)
  moreover have "plan_id ` set (update_rows (\<lambda>p. plan_id p = pid) (published t) (plans d)) = plan_id ` set (plans d)"
    by (rule image_update_rows) (simp add: plan_id_published)
  moreover have "\<forall>p \<in> set (update_rows (\<lambda>p. plan_id p = pid) (published t) (plans d)).
      plan_product_id p \<in> prod_id ` set (products d)"
    using assms by (auto simp: catalog_ok_def set_update_rows published_def)
  ultimately show "catalog_ok (upd_plan pid (published t) d)"
    using assms unfolding catalog_ok_def upd_plan_def
    by (simp add: unique_update_rows unique_draft_publish)
qed

interpretation catalog_offers: catalog_client catalog_kept
proof unfold_locales
  show "catalog_kept d e \<Longrightarrow> catalog_kept e f \<Longrightarrow> catalog_kept d f" for d e f
    unfolding catalog_kept_def by (blast intro: offers_kept_trans)
  show "is_draft pid d \<Longrightarrow> u \<in> linked pid d \<Longrightarrow> catalog_kept d (upd_plan_feature u (apply_input item) d)" for pid d u item
    unfolding catalog_kept_def by (blast intro: catalog_ok_writes offers_kept_set)
qed (auto simp: catalog_kept_def offers_kept_refl
    intro: catalog_ok_writes offers_kept_price offers_kept_link offers_kept_publish,
    auto simp: offers_kept_def plan_prices_def plan_links_def catalog_write_defs)

section \<open>Properties\<close>

definition versions_of :: "uuid \<Rightarrow> string \<Rightarrow> database \<Rightarrow> int set" where
  "versions_of pr k d = plan_version ` {p \<in> set (plans d). plan_product_id p = pr \<and> plan_key p = k}"

lemma next_version_cases: "next_version pr k d = (if versions_of pr k d = {} then 1 else Max (versions_of pr k d) + 1)"
proof -
  define vs where "vs = map plan_version (filter (\<lambda>p. plan_product_id p = pr \<and> plan_key p = k) (plans d))"
  have "versions_of pr k d = set vs" by (auto simp: versions_of_def vs_def)
  moreover have "next_version pr k d = (case vs of [] \<Rightarrow> 0 | v # vs \<Rightarrow> fold max vs v) + 1"
    by (simp add: next_version_def vs_def)
  ultimately show ?thesis by (cases vs) (simp_all only: list.case Max.set_eq_fold list.distinct set_empty if_True if_False, simp_all)
qed

text \<open>
  Drafting a plan. In a well-formed catalog, creating a plan fails for an unknown product and
  where the product already has a draft under the key, changing nothing. Otherwise it appends
  exactly one row: an unpublished plan with the given fields, whose version is 1 for the first plan
  of that product and key and otherwise one more than the greatest version so far; the catalog stays
  well formed.
\<close>

theorem create_plan_numbers_versions:
  assumes s: "\<not> tx_failed s" "catalog_ok (db s)" "fresh_ids 1 s"
  shows "if pr \<notin> prod_id ` set (products (db s))
    then create_plan pr k iv tr gr du en s = (Inl (Exc ProductNotFoundError (''product '' @ uuid_str pr @ '' not found'')), s)
    else if \<exists>p \<in> set (plans (db s)). draft_of pr k p
    then create_plan pr k iv tr gr du en s =
      (Inl (Exc PlanDraftExistsError (''draft plan already exists for product '' @ uuid_str pr @ '' key '' @ k)), s)
    else \<exists>p t. create_plan pr k iv tr gr du en s = (Inr p, t) \<and> \<not> tx_failed t \<and> db t = add_plan p (db s) \<and>
      catalog_ok (db t) \<and> plan_product_id p = pr \<and> plan_key p = k \<and> billing_interval p = iv \<and> trial_days p = tr \<and>
      grace_period_days p = gr \<and> published_at p = None \<and>
      plan_version p = (if versions_of pr k (db s) = {} then 1 else Max (versions_of pr k (db s)) + 1)"
proof -
  let ?ps = "filter (draft_of pr k) (plans (db s))"
  note ok = s(2) [unfolded catalog_ok_def]
  consider (none) "pr \<notin> prod_id ` set (products (db s))"
    | (draft) q where "pr \<in> prod_id ` set (products (db s))" "q \<in> set (plans (db s))" "draft_of pr k q"
    | (new) "pr \<in> prod_id ` set (products (db s))" "\<forall>p \<in> set (plans (db s)). \<not> draft_of pr k p" by blast
  then show ?thesis
  proof cases
    case none
    then have "filter (\<lambda>r. prod_id r = pr) (products (db s)) = []" by (auto simp: filter_empty_conv)
    with none s(1) ok show ?thesis by (simp add: create_plan_def get_product_or_raise_run)
  next
    case draft
    from draft(1) obtain g where "filter (\<lambda>r. prod_id r = pr) (products (db s)) = [g]"
      using unique_key_filter [of prod_id "products (db s)"] ok by blast
    moreover have "?ps = filter (\<lambda>p. draft_key p = Some (pr, k)) (plans (db s))"
      by (rule filter_cong) (auto simp: draft_of_def draft_key_def)
    then have "?ps = [q]"
      using unique_by_lookup [of draft_key "plans (db s)" q "(pr, k)"] ok draft(2,3)
      by (simp add: draft_of_def draft_key_def)
    ultimately show ?thesis using draft s(1) ok by (auto simp: create_plan_def get_product_or_raise_run)
  next
    case new
    from new(1) obtain g where g: "filter (\<lambda>r. prod_id r = pr) (products (db s)) = [g]"
      using unique_key_filter [of prod_id "products (db s)"] ok by blast
    have nd: "?ps = []" using new(2) by (simp add: filter_empty_conv)
    let ?p = "draft_plan_row (upcoming_uuid s) pr k iv tr gr du en (next_version pr k (db s))"
    note v = next_version_cases [of pr k "db s"]
    have "plan_version q \<noteq> next_version pr k (db s)"
      if "q \<in> set (plans (db s))" "plan_product_id q = pr" "plan_key q = k" for q
    proof -
      have q: "plan_version q \<in> versions_of pr k (db s)" using that by (auto simp: versions_of_def)
      then have "plan_version q \<le> Max (versions_of pr k (db s))" by (intro Max_ge) (simp_all add: versions_of_def)
      with q v show ?thesis by (auto split: if_splits)
    qed
    moreover have "upcoming_uuid s \<notin> plan_id ` set (plans (db s))"
      using fresh_idsD [OF s(3) [unfolded One_nat_def]] by (simp add: used_ids_def)
    ultimately have "plan_ok ?p (db s)"
      using new(1) by (auto simp: plan_ok_def fresh_iff refers_iff draft_plan_row_def) (metis imageI)
    moreover from this have "catalog_ok (add_plan ?p (db s))"
      using catalog_ok_writes(2) [OF s(2), of ?p] nd by (simp add: draft_plan_row_def)
    moreover from calculation have "create_plan pr k iv tr gr du en s = (Inr ?p, (after_uuid s)\<lparr>db := add_plan ?p (db s)\<rparr>)"
      using s(1) ok g nd by (simp add: create_plan_def get_product_or_raise_run Let_def)
    moreover have "\<not> tx_failed ((after_uuid s)\<lparr>db := add_plan ?p (db s)\<rparr>)" using s(1) by simp
    ultimately show ?thesis using new v
      by (auto intro!: exI [of _ ?p] exI [of _ "(after_uuid s)\<lparr>db := add_plan ?p (db s)\<rparr>"] simp: draft_plan_row_def)
  qed
qed

definition sample_product :: product where
  "sample_product = \<lparr>prod_id = 200, prod_key = ''app'', prod_name = ''App'', prod_description = None,
     prod_is_active = True\<rparr>"

definition catalog_session :: session where
  "catalog_session = sample_session\<lparr>db := sample_db\<lparr>products := [sample_product]\<rparr>,
     committed := sample_db\<lparr>products := [sample_product]\<rparr>\<rparr>"

lemma catalog_session_ok: "catalog_ok (db catalog_session)" "\<not> tx_failed catalog_session" "fresh_ids 100 catalog_session"
proof -
  show "catalog_ok (db catalog_session)"
    by (simp add: catalog_session_def catalog_ok_def unique_by_def List.map_filter_simps draft_key_def sample_plan_def
        sample_product_def sample_db_def)
  show "\<not> tx_failed catalog_session" by (simp add: catalog_session_def)
  show "fresh_ids 100 catalog_session"
    by (rule fresh_small_ids) (auto simp: used_ids_def catalog_session_def sample_db_def sample_product_def)
qed

theorem create_plan_numbers_versions_witness:
  "(\<exists>p t. create_plan 200 ''pro'' ''month'' None 7 None None catalog_session = (Inr p, t) \<and> plan_version p = 2 \<and>
     published_at p = None) \<and>
   fst (create_plan 999 ''pro'' ''month'' None 7 None None catalog_session) =
     Inl (Exc ProductNotFoundError (''product '' @ uuid_str 999 @ '' not found''))"
proof -
  have fr: "fresh_ids 1 catalog_session" by (rule fresh_ids_le [OF catalog_session_ok(3)]) simp
  note c = create_plan_numbers_versions [OF catalog_session_ok(2,1) fr]
  have t: "products (db catalog_session) = [sample_product]" "plans (db catalog_session) = [sample_plan]"
    by (simp_all add: catalog_session_def)
  have "{p \<in> set [sample_plan]. plan_product_id p = 200 \<and> plan_key p = ''pro''} = {sample_plan}"
    by (auto simp: sample_plan_def)
  then have v: "versions_of 200 ''pro'' (db catalog_session) = {1}"
    unfolding versions_of_def t by (simp add: sample_plan_def)
  have d: "\<not> (\<exists>p \<in> set (plans (db catalog_session)). draft_of 200 ''pro'' p)"
    by (simp add: t draft_of_def sample_plan_def)
  have m: "200 \<in> prod_id ` set (products (db catalog_session))" "999 \<notin> prod_id ` set (products (db catalog_session))"
    by (simp_all add: t sample_product_def)
  obtain p u where p: "create_plan 200 ''pro'' ''month'' None 7 None None catalog_session = (Inr p, u)"
    "published_at p = None" "plan_version p = (if {1} = ({} :: int set) then 1 else Max {1} + 1)"
    using c [of 200 "''pro''" "''month''" None 7 None None] d m(1) unfolding v by auto
  then show ?thesis using c [of 999 "''pro''" "''month''" None 7 None None] m(2) by simp
qed

end
