(* ===== verification/Identity.thy ===== *)
theory Identity
  imports Caches Signature Catalog
begin

text \<open>
  API keys (\<^verbatim>\<open>services/api_keys.py\<close>) and organizations (\<^verbatim>\<open>services/organizations.py\<close>): issuing,
  rotating and revoking keys, of which the SHA-256 digest and the first eight characters are stored, authentication of a
  bearer token, and the idempotent creation of organizations.
\<close>

section \<open>Constraints and writes\<close>

definition api_key_ok :: "api_key \<Rightarrow> database \<Rightarrow> bool" where
  "api_key_ok k d \<longleftrightarrow> fresh key_id k (api_keys d) \<and> fresh key_hash k (api_keys d) \<and>
     refers_opt org_id (key_organization_id k) (organizations d)"

definition add_api_key :: "api_key \<Rightarrow> database \<Rightarrow> database" where
  "add_api_key k d = d\<lparr>api_keys := api_keys d @ [k]\<rparr>"

definition upd_api_key :: "uuid \<Rightarrow> (api_key \<Rightarrow> api_key) \<Rightarrow> database \<Rightarrow> database" where
  "upd_api_key kid f d = d\<lparr>api_keys := update_rows (\<lambda>k. key_id k = kid) f (api_keys d)\<rparr>"

definition upd_organization :: "int \<Rightarrow> instant \<Rightarrow> (organization \<Rightarrow> organization) \<Rightarrow> database \<Rightarrow> database" where
  "upd_organization i t f d =
     d\<lparr>organizations := update_rows (\<lambda>g. org_id g = i)
         (\<lambda>g. if f g = g then g else (f g)\<lparr>org_updated_at := t\<rparr>) (organizations d)\<rparr>"

lemmas identity_write_defs = add_organization_def add_api_key_def upd_api_key_def upd_organization_def

section \<open>Keys\<close>

definition PLATFORM_ADMIN :: string where "PLATFORM_ADMIN = ''platform_admin''"
definition REVOPS_READ :: string where "REVOPS_READ = ''revops_read''"
definition DUNNING_OPERATOR :: string where "DUNNING_OPERATOR = ''dunning_operator''"

definition API_KEY_ROLES :: "string list" where
  "API_KEY_ROLES = [PLATFORM_ADMIN, REVOPS_READ, ''product_service'', ''webhook_ingest'', ''support_read'',
     DUNNING_OPERATOR]"

definition hash_api_key :: "string \<Rightarrow> string" where
  "hash_api_key raw = hexdigest (sha256 (encode_utf8 raw))"

definition verify_api_key :: "string \<Rightarrow> string \<Rightarrow> py_error + bool" where
  "verify_api_key raw digest =
     (if \<not> is_ascii digest
      then Inl (Exc TypeError ''comparing strings with non-ASCII characters is not supported'')
      else Inr (hash_api_key raw = digest))"

text \<open>\<^verbatim>\<open>secrets.token_urlsafe(32)\<close>: 32 random bytes in base 64 with the URL-safe alphabet, unpadded.\<close>

fun sextets :: "nat list \<Rightarrow> nat list" where
  "sextets [] = []"
| "sextets [a] = [a div 4, a mod 4 * 16]"
| "sextets [a, b] = [a div 4, a mod 4 * 16 + b div 16, b mod 16 * 4]"
| "sextets (a # b # c # rest) =
     [a div 4, a mod 4 * 16 + b div 16, b mod 16 * 4 + c div 64, c mod 64] @ sextets rest"

definition urlsafe_char :: "nat \<Rightarrow> char" where
  "urlsafe_char n =
     (if n < 26 then char_of (65 + n) else if n < 52 then char_of (71 + n)
      else if n < 62 then char_of (n - 4) else if n = 62 then CHR ''-'' else CHR ''_'')"

definition token_urlsafe :: "nat \<Rightarrow> string op" where
  "token_urlsafe n =
     bindE (randbits (8 * n)) (\<lambda>v. returnE (map urlsafe_char (sextets (map of_char (be_bytes n v)))))"

definition generate_raw_api_key :: "string op" where
  "generate_raw_api_key = bindE (token_urlsafe 32) (\<lambda>token. returnE (''bp_'' @ token))"

definition parse_role :: "string \<Rightarrow> py_error + string" where
  "parse_role role =
     (if role \<in> set API_KEY_ROLES then Inr role
      else Inl (Exc ValueError (''invalid role '' @ quoted role
        @ ''; expected one of: dunning_operator, platform_admin, product_service, revops_read, support_read, webhook_ingest'')))"

definition new_api_key :: "uuid \<Rightarrow> int option \<Rightarrow> string \<Rightarrow> string \<Rightarrow> instant \<Rightarrow> api_key" where
  "new_api_key u oi raw role t =
     \<lparr>key_id = u, key_organization_id = oi, key_hash = hash_api_key raw, key_prefix = take 8 raw,
      key_role = role, key_expires_at = None, key_revoked_at = None, key_created_at = t\<rparr>"

definition create_api_key :: "int option \<Rightarrow> string \<Rightarrow> string option \<Rightarrow> (api_key \<times> string) op" where
  "create_api_key oi role raw =
     bindE (liftE (parse_role role)) (\<lambda>parsed.
     if parsed \<noteq> PLATFORM_ADMIN \<and> oi = None
     then raiseE ValueError ''organization_id is required for non-platform_admin keys''
     else
       bindE (case raw of Some k \<Rightarrow> returnE k | None \<Rightarrow> generate_raw_api_key) (\<lambda>raw_key.
       if \<not> prefix ''bp_'' raw_key then raiseE ValueError (''API key must start with '' @ quoted ''bp_'')
       else
         bindE new_uuid (\<lambda>u. bindE (getE tx_now) (\<lambda>t.
         let k = new_api_key u oi raw_key parsed t
         in thenE (insert_checked (api_key_ok k) (add_api_key k)) (returnE (k, raw_key))))))"

definition load_active_api_key :: "uuid \<Rightarrow> api_key op" where
  "load_active_api_key kid =
     bindE (bindE (query (\<lambda>d. filter (\<lambda>k. key_id k = kid \<and> key_revoked_at k = None) (api_keys d))) scalar_one_or_none)
       (\<lambda>found. case found of None \<Rightarrow> raiseE ValueError ''api key not found'' | Some k \<Rightarrow> returnE k)"

definition assert_key_belongs_to_organization :: "api_key \<Rightarrow> int \<Rightarrow> unit op" where
  "assert_key_belongs_to_organization k oi =
     (if key_organization_id k \<noteq> None \<and> key_organization_id k \<noteq> Some oi
      then raiseE ValueError ''api key does not belong to organization'' else returnE ())"

definition rotate_api_key :: "int \<Rightarrow> uuid \<Rightarrow> (api_key \<times> string) app_op" where
  "rotate_api_key oi kid =
     bindE (on_session (bindE (load_active_api_key kid) (\<lambda>k.
       thenE (assert_key_belongs_to_organization k oi)
         (create_api_key (key_organization_id k) (key_role k) None)))) (\<lambda>issued.
     thenE (invalidate_auth_context kid) (returnE issued))"

definition set_revoked :: "instant \<Rightarrow> api_key \<Rightarrow> api_key" where
  "set_revoked t k = k\<lparr>key_revoked_at := Some t\<rparr>"

definition revoke_row :: "int \<Rightarrow> uuid \<Rightarrow> api_key op" where
  "revoke_row oi kid =
     bindE (load_active_api_key kid) (\<lambda>k.
     thenE (assert_key_belongs_to_organization k oi)
     (bindE now_utc (\<lambda>now.
      thenE (update_db (upd_api_key kid (set_revoked now))) (thenE flush (returnE (set_revoked now k))))))"

definition revoke_api_key :: "int \<Rightarrow> uuid \<Rightarrow> api_key app_op" where
  "revoke_api_key oi kid =
     bindE (on_session (revoke_row oi kid)) (\<lambda>k. thenE (invalidate_auth_context kid) (returnE k))"

text \<open>The keys with the digest that are not revoked, outer-joined with their organization.\<close>

definition key_rows :: "string \<Rightarrow> database \<Rightarrow> (api_key \<times> organization option) list" where
  "key_rows digest d =
     concat (map (\<lambda>k.
       (case filter (\<lambda>g. key_organization_id k = Some (org_id g)) (organizations d) of
          [] \<Rightarrow> [(k, None)] | gs \<Rightarrow> map (\<lambda>g. (k, Some g)) gs))
       (filter (\<lambda>k. key_hash k = digest \<and> key_revoked_at k = None) (api_keys d)))"

definition context_of :: "api_key \<Rightarrow> organization option \<Rightarrow> auth_context" where
  "context_of k g =
     \<lparr>auth_organization_id = key_organization_id k, auth_role = key_role k, auth_key_prefix = key_prefix k,
      auth_api_key_id = key_id k, auth_organization_public_id = map_option org_public_id g,
      auth_expires_at = key_expires_at k\<rparr>"

definition find_context :: "string \<Rightarrow> auth_context op" where
  "find_context digest =
     bindE (bindE (query (key_rows digest)) scalar_one_or_none) (\<lambda>row.
     case row of None \<Rightarrow> raiseE ValueError ''invalid or expired API key''
     | Some (k, g) \<Rightarrow>
         (case key_expires_at k of None \<Rightarrow> returnE (context_of k g)
          | Some e \<Rightarrow> bindE now_utc (\<lambda>now.
              if e \<le> now then raiseE ValueError ''invalid or expired API key'' else returnE (context_of k g))))"

definition authenticate :: "string \<Rightarrow> auth_context app_op" where
  "authenticate bearer =
     (if bearer = [] then raiseE ValueError ''missing bearer token''
      else
        let lookup = hash_api_key bearer in
        bindE (on_session (find_context lookup)) (\<lambda>ctx.
        thenE (cache_auth_context lookup ctx) (returnE ctx)))"

section \<open>Organizations\<close>

definition resolve_organization_by_public_id :: "uuid \<Rightarrow> organization option op" where
  "resolve_organization_by_public_id u =
     bindE (query (\<lambda>d. filter (\<lambda>g. org_public_id g = u \<and> org_deleted_at g = None) (organizations d))) scalar_one_or_none"

definition get_organization_by_public_id :: "uuid \<Rightarrow> organization option op" where
  "get_organization_by_public_id u = resolve_organization_by_public_id u"

definition find_existing_organization :: "string \<Rightarrow> string \<Rightarrow> organization option op" where
  "find_existing_organization idem external =
     bindE (bindE (query (\<lambda>d. filter (\<lambda>g. org_idempotency_key g = Some idem) (organizations d))) scalar_one_or_none)
       (\<lambda>found. case found of Some g \<Rightarrow> returnE (Some g)
        | None \<Rightarrow> bindE (query (\<lambda>d. filter (\<lambda>g. org_external_id g = Some external) (organizations d))) scalar_one_or_none)"

definition new_organization ::
  "int \<Rightarrow> uuid \<Rightarrow> string \<Rightarrow> string \<Rightarrow> string \<Rightarrow> string option \<Rightarrow> json_object option \<Rightarrow> instant \<Rightarrow> organization" where
  "new_organization i u name external idem email metadata t =
     \<lparr>org_id = i, org_public_id = u, org_external_id = Some external, org_idempotency_key = Some idem,
      org_name = name, org_billing_email = email, org_metadata = (case metadata of None \<Rightarrow> [] | Some m \<Rightarrow> m),
      org_created_at = t, org_updated_at = t, org_deleted_at = None\<rparr>"

definition flush_organization :: "organization \<Rightarrow> string \<Rightarrow> string \<Rightarrow> organization op" where
  "flush_organization g idem external =
     catchE (thenE (insert_checked (organization_ok g) (add_organization g)) (returnE g)) (\<lambda>e.
       if exc_class_of e \<noteq> IntegrityError then reraiseE e
       else thenE rollback (bindE (find_existing_organization idem external) (\<lambda>found.
         case found of Some q \<Rightarrow> returnE q | None \<Rightarrow> reraiseE e)))"

definition create_organization ::
  "string \<Rightarrow> string \<Rightarrow> string \<Rightarrow> string option \<Rightarrow> json_object option \<Rightarrow> uuid option \<Rightarrow> organization op" where
  "create_organization name external idem email metadata public_id =
     bindE (find_existing_organization idem external) (\<lambda>existing.
     case existing of Some g \<Rightarrow> returnE g
     | None \<Rightarrow>
         bindE (case public_id of None \<Rightarrow> new_uuid | Some u \<Rightarrow> returnE u) (\<lambda>u.
         bindE (next_id ORGANIZATIONS) (\<lambda>i. bindE (getE tx_now) (\<lambda>t.
         flush_organization (new_organization i u name external idem email metadata t) idem external))))"

definition patch_organization ::
  "string option \<Rightarrow> string option \<Rightarrow> json_object option \<Rightarrow> organization \<Rightarrow> organization" where
  "patch_organization name email metadata g =
     g\<lparr>org_name := (case name of None \<Rightarrow> org_name g | Some n \<Rightarrow> n),
       org_billing_email := (case email of None \<Rightarrow> org_billing_email g | Some e \<Rightarrow> Some e),
       org_metadata := (case metadata of None \<Rightarrow> org_metadata g | Some m \<Rightarrow> m)\<rparr>"

definition update_organization_metadata ::
  "int \<Rightarrow> string option \<Rightarrow> string option \<Rightarrow> json_object option \<Rightarrow> unit op" where
  "update_organization_metadata i name email metadata =
     bindE (getE tx_now) (\<lambda>t.
     thenE (update_db (upd_organization i t (patch_organization name email metadata))) flush)"

section \<open>Write footprint\<close>

text \<open>Keys are added and revoked, organizations added and patched; nothing else is written.\<close>

locale identity_client = db_preorder +
  assumes key_insert: "api_key_ok k d \<Longrightarrow> key_revoked_at k = None \<Longrightarrow> D d (add_api_key k d)"
    and key_revoke: "D d (upd_api_key kid (set_revoked t) d)"
    and organization_insert: "organization_ok g d \<Longrightarrow> D d (add_organization g d)"
    and organization_patch: "D d (upd_organization i t (patch_organization n m md) d)"
begin

lemma generate_raw_api_key: "keeps_db D generate_raw_api_key"
  unfolding generate_raw_api_key_def token_urlsafe_def
  by (intro primitives keepsI) (simp add: db_refl)

lemma create_api_key: "keeps_db D (create_api_key oi role raw)"
  unfolding create_api_key_def
  by (intro primitives generate_raw_api_key key_insert) (simp_all add: new_api_key_def)

lemma load_active_api_key: "keeps_db D (load_active_api_key kid)"
  unfolding load_active_api_key_def by (intro primitives)

lemma issue_replacement:
  "keeps_db D (bindE (load_active_api_key kid) (\<lambda>k. thenE (assert_key_belongs_to_organization k oi)
     (create_api_key (key_organization_id k) (key_role k) None)))"
  unfolding assert_key_belongs_to_organization_def by (intro primitives load_active_api_key create_api_key)

lemma revoke_row: "keeps_db D (revoke_row oi kid)"
  unfolding revoke_row_def assert_key_belongs_to_organization_def
  by (intro primitives load_active_api_key key_revoke)

lemma find_context: "keeps_db D (find_context h)"
  unfolding find_context_def by (intro primitives)

lemma find_existing_organization: "keeps_db D (find_existing_organization a b)"
  unfolding find_existing_organization_def by (intro primitives)

lemma create_organization: "keeps_tx D (create_organization n x i e m u)"
  unfolding create_organization_def flush_organization_def
  by (intro transactions in_transaction insert_checked organization_insert find_existing_organization new_uuid next_id)

lemma update_organization_metadata: "keeps_db D (update_organization_metadata i n e m)"
  unfolding update_organization_metadata_def by (intro primitives organization_patch)

end

section \<open>Instances\<close>

interpretation identity_log: identity_client ledger_extends
  by unfold_locales (simp_all add: ledger_extends_def identity_write_defs)

interpretation identity_lifecycle: identity_client lifecycle_kept
  by unfold_locales (auto simp: identity_write_defs intro: lifecycle_kept_same)

interpretation identity_totals: identity_client totals_kept
  by unfold_locales
    (auto simp: totals_kept_def issued_kept_def totals_ok_def items_of_def item_sum_def identity_write_defs)

interpretation identity_offers: identity_client catalog_kept
  by unfold_locales
    (auto simp: catalog_kept_def catalog_ok_def offers_kept_def plan_prices_def plan_links_def identity_write_defs)

lemma patch_organization_simps [simp]:
  "org_id (patch_organization n e m g) = org_id g" "org_public_id (patch_organization n e m g) = org_public_id g"
  "org_external_id (patch_organization n e m g) = org_external_id g"
  "org_idempotency_key (patch_organization n e m g) = org_idempotency_key g"
  by (simp_all add: patch_organization_def)

lemma db_ok_identity:
  "db_ok (add_api_key k d) = db_ok d" "db_ok (upd_api_key kid f d) = db_ok d"
  "db_ok (upd_organization i t (patch_organization n e m) d) = db_ok d"
  by (simp_all add: integrity_defs identity_write_defs unique_update_rows image_update_rows)

lemma db_ok_add_organization: "db_ok d \<Longrightarrow> organization_ok g d \<Longrightarrow> db_ok (add_organization g d)"
  by (auto simp: integrity_defs add_organization_def organization_ok_def unique_key_snoc unique_opt_snoc)

interpretation identity_integrity: identity_client stays_ok
  by unfold_locales (simp_all add: stays_ok_def db_ok_identity db_ok_add_organization)

section \<open>Keys over time\<close>

text \<open>
  A key keeps its identity, digest, role and organization, and once revoked stays revoked; there is
  one key per digest.
\<close>

definition keys_ok :: "database \<Rightarrow> bool" where
  "keys_ok d \<longleftrightarrow> unique_key key_id (api_keys d) \<and> unique_key key_hash (api_keys d)"

definition same_key :: "api_key \<Rightarrow> api_key \<Rightarrow> bool" where
  "same_key k k' \<longleftrightarrow> key_id k' = key_id k \<and> key_hash k' = key_hash k \<and> key_role k' = key_role k \<and>
     key_organization_id k' = key_organization_id k \<and> key_prefix k' = key_prefix k \<and>
     key_expires_at k' = key_expires_at k \<and> (key_revoked_at k \<noteq> None \<longrightarrow> key_revoked_at k' \<noteq> None)"

definition keys_kept :: "database \<Rightarrow> database \<Rightarrow> bool" where
  "keys_kept d e \<longleftrightarrow> (keys_ok d \<longrightarrow> keys_ok e) \<and> (\<forall>k \<in> set (api_keys d). \<exists>k' \<in> set (api_keys e). same_key k k')"

lemma same_key_refl [simp]: "same_key k k"
  by (simp add: same_key_def)

lemma same_key_trans: "same_key k l \<Longrightarrow> same_key l m \<Longrightarrow> same_key k m"
  by (simp add: same_key_def)

lemma keys_kept_same: "api_keys e = api_keys d \<Longrightarrow> keys_kept d e"
  unfolding keys_kept_def keys_ok_def using same_key_refl by fastforce

lemma keys_kept_trans: "keys_kept d e \<Longrightarrow> keys_kept e f \<Longrightarrow> keys_kept d f"
  unfolding keys_kept_def by (meson same_key_trans)

lemma keys_kept_revoke: "keys_kept d (upd_api_key kid (set_revoked t) d)"
proof -
  define g where "g k = (if key_id k = kid then set_revoked t k else k)" for k
  have "same_key k (g k)" for k by (simp add: g_def same_key_def set_revoked_def)
  moreover have "set (api_keys (upd_api_key kid (set_revoked t) d)) = g ` set (api_keys d)"
    by (simp add: upd_api_key_def set_update_rows g_def [abs_def])
  ultimately have "\<forall>k \<in> set (api_keys d). \<exists>k' \<in> set (api_keys (upd_api_key kid (set_revoked t) d)). same_key k k'"
    by auto
  then show ?thesis
    by (simp add: keys_kept_def keys_ok_def upd_api_key_def unique_update_rows set_revoked_def)
qed

interpretation identity_keys: identity_client keys_kept
proof unfold_locales
  show "keys_kept d e \<Longrightarrow> keys_kept e f \<Longrightarrow> keys_kept d f" for d e f by (rule keys_kept_trans)
  show "keys_kept d (upd_api_key kid (set_revoked t) d)" for d kid t by (rule keys_kept_revoke)
  show "keys_kept d (add_api_key k d)" if "api_key_ok k d" for k d
    using that same_key_refl unfolding keys_kept_def keys_ok_def add_api_key_def api_key_ok_def
    by (fastforce simp: unique_key_snoc)
qed (auto simp: identity_write_defs intro: keys_kept_same)

lemma active_key_unique:
  assumes "keys_ok d" "k \<in> set (api_keys d)"
  shows "filter (\<lambda>q. key_hash q = key_hash k \<and> key_revoked_at q = None) (api_keys d) =
    (if key_revoked_at k = None then [k] else [])"
proof -
  have "filter (\<lambda>q. key_hash q = key_hash k) (api_keys d) = [k]"
    using assms unfolding keys_ok_def by (blast intro: unique_key_filter)
  then have "filter (\<lambda>q. key_revoked_at q = None) (filter (\<lambda>q. key_hash q = key_hash k) (api_keys d)) =
      (if key_revoked_at k = None then [k] else [])" by simp
  then show ?thesis by (simp add: conj_commute)
qed

lemma key_rows_unique:
  assumes ok: "keys_ok d" "unique_key org_id (organizations d)" and k: "k \<in> set (api_keys d)" "key_revoked_at k = None"
    and r: "refers_opt org_id (key_organization_id k) (organizations d)"
  shows "\<exists>g. key_rows (key_hash k) d = [(k, g)] \<and> map_option org_id g = key_organization_id k \<and>
    (\<forall>h. g = Some h \<longrightarrow> h \<in> set (organizations d))"
proof (cases "key_organization_id k")
  case None
  then show ?thesis using active_key_unique [OF ok(1) k(1)] k(2) by (simp add: key_rows_def)
next
  case (Some i)
  with r obtain g where g: "g \<in> set (organizations d)" "org_id g = i" by (auto simp: refers_opt_def refers_iff)
  then have "filter (\<lambda>h. i = org_id h) (organizations d) = [g]"
    using unique_key_filter [OF ok(2) g(1)] by (simp add: eq_commute)
  with Some g show ?thesis using active_key_unique [OF ok(1) k(1)] k(2) by (simp add: key_rows_def)
qed

lemma revoked_rows:
  assumes "keys_ok d" "k \<in> set (api_keys d)" "key_revoked_at k \<noteq> None" "keys_kept d e"
  shows "key_rows (key_hash k) e = []"
proof -
  from assms(2,3,4) obtain l where l: "l \<in> set (api_keys e)" "same_key k l" by (auto simp: keys_kept_def)
  then have "key_hash l = key_hash k" "key_revoked_at l \<noteq> None" using assms(3) by (auto simp: same_key_def)
  moreover have "keys_ok e" using assms(1,4) by (simp add: keys_kept_def)
  ultimately have "filter (\<lambda>q. key_hash q = key_hash k \<and> key_revoked_at q = None) (api_keys e) = []"
    using active_key_unique [OF _ l(1)] by auto
  then show ?thesis by (simp add: key_rows_def)
qed

lemma generate_raw_api_key_run:
  "\<exists>x. generate_raw_api_key s = (Inr (''bp_'' @ x), s\<lparr>rnd_pos := Suc (rnd_pos s)\<rparr>)"
  by (simp add: generate_raw_api_key_def token_urlsafe_def)

lemma create_api_key_InrD:
  assumes "create_api_key oi role raw s = (Inr (k, secret), t)"
  shows "\<exists>u. k = new_api_key u oi secret role (tx_now s) \<and> api_key_ok k (db s) \<and> db t = add_api_key k (db s) \<and>
    \<not> tx_failed t \<and> prefix ''bp_'' secret \<and> role \<in> set API_KEY_ROLES \<and> (role = PLATFORM_ADMIN \<or> oi \<noteq> None)"
proof -
  let ?gen = "case raw of Some k \<Rightarrow> returnE k | None \<Rightarrow> generate_raw_api_key"
  have role: "parse_role role = Inr role" "role \<in> set API_KEY_ROLES" "role = PLATFORM_ADMIN \<or> oi \<noteq> None"
    using assms by (auto simp: create_api_key_def parse_role_def bindE_def split: if_splits)
  obtain x s' where x: "?gen s = (Inr x, s')" "db s' = db s" "tx_now s' = tx_now s" "tx_failed s' = tx_failed s"
    using generate_raw_api_key_run [of s] by (cases raw) auto
  let ?k = "new_api_key (upcoming_uuid s') oi x role (tx_now s)"
  from role(1,3) x(1) have "create_api_key oi role raw s =
    (if \<not> prefix ''bp_'' x then raiseE ValueError (''API key must start with '' @ quoted ''bp_'')
     else thenE (\<lambda>s. (Inr (), after_uuid s)) (thenE (insert_checked (api_key_ok ?k) (add_api_key ?k)) (returnE (?k, x)))) s'"
    using x(3) by (auto simp: create_api_key_def Let_def)
  with assms x(2,4) role(2,3) show ?thesis
    by (auto simp: insert_checked_def thenE_def bindE_def split: if_splits)
qed

lemma cache_auth_context_state: "\<exists>b. cache_auth_context h ctx a = (Inr (), b) \<and> app_session b = app_session a"
  by (cases "auth_by_key_id a (auth_api_key_id ctx)")
    (auto simp: cache_auth_context_def setting_def time_monotonic_def drop_digest_def thenE_def bindE_def)

text \<open>
  C29: A key authenticates from the moment it is issued. When a key is created, whether for a given
  or for a random secret, its role is one of the known ones and only a platform administrator's key
  is without organization. The table gets exactly one row and nothing else changes: of the secret the
  row holds the SHA-256 digest in hexadecimal and the first eight characters, next to the role, the
  organization and the time; it has no expiry and is not revoked. Authenticating with the returned
  secret yields the context of exactly this key: its id, role and organization with that
  organization's public id.
\<close>

theorem issued_key_authenticates:
  assumes ok: "keys_ok (db s)" "db_ok (db s)" and c: "create_api_key oi role raw s = (Inr (k, secret), t)"
  shows "\<exists>ctx b g. authenticate secret (a\<lparr>app_session := t\<rparr>) = (Inr ctx, b) \<and>
    db t = (db s)\<lparr>api_keys := api_keys (db s) @ [k]\<rparr> \<and>
    k = \<lparr>key_id = auth_api_key_id ctx, key_organization_id = oi,
      key_hash = hexdigest (sha256 (encode_utf8 secret)), key_prefix = take 8 secret, key_role = role,
      key_expires_at = None, key_revoked_at = None, key_created_at = tx_now s\<rparr> \<and>
    role \<in> set API_KEY_ROLES \<and> (oi = None \<longrightarrow> role = PLATFORM_ADMIN) \<and>
    auth_role ctx = role \<and> auth_organization_id ctx = oi \<and>
    auth_organization_public_id ctx = map_option org_public_id g \<and> map_option org_id g = oi \<and>
    (\<forall>h. g = Some h \<longrightarrow> h \<in> set (organizations (db t)))"
proof -
  obtain u where k: "k = new_api_key u oi secret role (tx_now s)" "api_key_ok k (db s)" "db t = add_api_key k (db s)"
    "\<not> tx_failed t" "prefix ''bp_'' secret" "role \<in> set API_KEY_ROLES" "role = PLATFORM_ADMIN \<or> oi \<noteq> None"
    using create_api_key_InrD [OF c] by blast
  have kk: "keys_ok (db t)" using identity_keys.key_insert [OF k(2)] ok(1) k(1,3) by (simp add: keys_kept_def new_api_key_def)
  have og: "organizations (db t) = organizations (db s)" "k \<in> set (api_keys (db t))" by (simp_all add: k(3) add_api_key_def)
  obtain g where g: "key_rows (key_hash k) (db t) = [(k, g)]" "map_option org_id g = key_organization_id k"
    "\<forall>h. g = Some h \<longrightarrow> h \<in> set (organizations (db t))"
    using key_rows_unique [OF kk _ og(2)] keys_uniqueD(1) [OF ok(2)] k(1,2) og(1)
    by (auto simp: new_api_key_def api_key_ok_def)
  have f: "find_context (key_hash k) t = (Inr (context_of k g), t)"
    using g(1) k(1,4) by (simp add: find_context_def new_api_key_def)
  have h: "key_hash k = hash_api_key secret" "secret \<noteq> []" using k(1,5) by (auto simp: new_api_key_def prefix_def)
  obtain b where "cache_auth_context (hash_api_key secret) (context_of k g) (a\<lparr>app_session := t\<rparr>) = (Inr (), b)"
    using cache_auth_context_state by blast
  with f h have "authenticate secret (a\<lparr>app_session := t\<rparr>) = (Inr (context_of k g), b)"
    by (simp add: authenticate_def on_session_def Let_def)
  with k h g show ?thesis
    by (intro exI [of _ "context_of k g"] exI [of _ b] exI [of _ g]) (auto simp: context_of_def new_api_key_def
        add_api_key_def hash_api_key_def)
qed

definition sample_key :: api_key where
  "sample_key = new_api_key (upcoming_uuid sample_session) (Some 1) ''bp_local_demo'' ''product_service'' (5 * day_us)"

lemma sample_issue:
  "create_api_key (Some 1) ''product_service'' (Some ''bp_local_demo'') sample_session =
    (Inr (sample_key, ''bp_local_demo''), (after_uuid sample_session)\<lparr>db := add_api_key sample_key sample_db\<rparr>)"
proof -
  have "api_key_ok sample_key sample_db"
    by (simp add: api_key_ok_def sample_key_def new_api_key_def fresh_def refers_opt_def refers_iff sample_db_def)
  then show ?thesis
    by (simp add: create_api_key_def parse_role_def API_KEY_ROLES_def PLATFORM_ADMIN_def REVOPS_READ_def
        sample_key_def Let_def)
qed

theorem issued_key_authenticates_witness:
  "\<exists>ctx b. authenticate ''bp_local_demo''
      (sample_app\<lparr>app_session := (after_uuid sample_session)\<lparr>db := add_api_key sample_key sample_db\<rparr>\<rparr>) = (Inr ctx, b) \<and>
    auth_role ctx = ''product_service'' \<and> auth_organization_id ctx = Some 1"
  using issued_key_authenticates [OF _ _ sample_issue, of sample_app] sample_ok
  by (auto simp: keys_ok_def sample_db_def)

end
