(* ===== verification/Access.thy ===== *)
theory Access
  imports Identity
begin

text \<open>
  Who may do what (\<^verbatim>\<open>api/deps.py\<close>, \<^verbatim>\<open>middleware/rate_limit.py\<close>, \<^verbatim>\<open>db/replica.py\<close>): the choice
  between primary and replica for reads, the authentication of a request from its bearer token
  through the process cache and a read session, rate limiting per key, and the checks on roles and
  tenants that the routes make. Binding the organization to the log context is left out.
\<close>

section \<open>Read sessions\<close>

text \<open>
  A replica: the rows it has replayed and the answer to the lag query, in microseconds
  (\<^verbatim>\<open>None\<close> if it is not a standby), or the error of the query.
\<close>

record replica =
  rep_db :: database
  rep_lag :: "py_error + int option"

datatype read_route = Primary | Replica

definition should_use_replica :: "int option \<Rightarrow> int \<Rightarrow> bool" where
  "should_use_replica lag threshold = (case lag of None \<Rightarrow> False | Some l \<Rightarrow> l < threshold)"

definition get_replica_lag_seconds :: "settings \<Rightarrow> replica \<Rightarrow> int option" where
  "get_replica_lag_seconds cfg rep =
     (if \<not> replica_configured cfg then None
      else case rep_lag rep of Inl _ \<Rightarrow> None | Inr l \<Rightarrow> l)"

definition select_read_session_factory :: "bool \<Rightarrow> settings \<Rightarrow> replica \<Rightarrow> read_route" where
  "select_read_session_factory allow_stale cfg rep =
     (if \<not> replica_configured cfg then Primary
      else if allow_stale then Replica
      else if should_use_replica (get_replica_lag_seconds cfg rep) (replica_lag_threshold_seconds cfg * second_us)
      then Replica else Primary)"

text \<open>
  \<^verbatim>\<open>get_read_session\<close>: a session of its own, on the committed rows of the primary or on the
  replica, whose changes are never committed. The clock and the random source go on.
\<close>

definition read_view :: "replica \<Rightarrow> session \<Rightarrow> database" where
  "read_view rep s =
     (case select_read_session_factory False (settings s) rep of Primary \<Rightarrow> committed s | Replica \<Rightarrow> rep_db rep)"

definition on_read_session :: "replica \<Rightarrow> 'a app_op \<Rightarrow> 'a app_op" where
  "on_read_session rep m = (\<lambda>a.
     let s = app_session a in
     case m (a\<lparr>app_session := s\<lparr>db := read_view rep s, tx_failed := False\<rparr>\<rparr>) of (r, b) \<Rightarrow>
       (r, b\<lparr>app_session := (app_session b)\<lparr>db := db s, committed := committed s, tx_failed := tx_failed s\<rparr>\<rparr>))"

section \<open>Rate limits\<close>

definition http_error :: "nat \<Rightarrow> string \<Rightarrow> ('s, 'a) sm" where
  "http_error code detail = raiseE (HTTPException code) detail"

definition EXEMPT_PATHS :: "string list" where
  "EXEMPT_PATHS = [''/health/live'', ''/health/ready'']"

definition is_rate_limit_exempt :: "string \<Rightarrow> bool" where
  "is_rate_limit_exempt path \<longleftrightarrow> path \<in> set EXEMPT_PATHS"

text \<open>\<^verbatim>\<open>ResponseError\<close> is the subclass of \<^verbatim>\<open>RedisError\<close> that the commands modelled here can raise.\<close>

definition enforce_rate_limit_for_api_key :: "uuid \<Rightarrow> int \<Rightarrow> (string \<times> string) list option app_op" where
  "enforce_rate_limit_for_api_key kid limit =
     (if limit \<le> 0 then returnE None
      else
        bindE (on_session now_utc) (\<lambda>now.
        bindE (catchE (check_rate_limit (uuid_str kid) limit now) (\<lambda>e.
          if exc_class_of e = ResponseError then http_error 503 ''rate limiting temporarily unavailable''
          else reraiseE e)) (\<lambda>decision.
        if \<not> rl_allowed decision
        then thenE (on_session (emit_metric HttpRateLimited)) (http_error 429 ''rate limit exceeded'')
        else returnE (Some (rate_limit_headers decision limit)))))"

section \<open>Authentication of a request\<close>

definition lower_char :: "char \<Rightarrow> char" where
  "lower_char c = (let n = of_char c :: nat in if 65 \<le> n \<and> n \<le> 90 then char_of (n + 32) else c)"

definition lower :: "string \<Rightarrow> string" where
  "lower = map lower_char"

definition authenticate_bearer :: "replica \<Rightarrow> string \<Rightarrow> auth_context app_op" where
  "authenticate_bearer rep bearer =
     catchE (on_read_session rep (authenticate bearer)) (\<lambda>e.
       if exc_class_of e = ValueError then http_error 401 (str_exc e) else reraiseE e)"

text \<open>\<open>credentials\<close> are the scheme and the token of the Authorization header.\<close>

definition get_auth_context :: "replica \<Rightarrow> string \<Rightarrow> (string \<times> string) option \<Rightarrow> auth_context app_op" where
  "get_auth_context rep path credentials =
     (case credentials of
        None \<Rightarrow> http_error 401 ''missing or invalid authorization header''
      | Some (scheme, token) \<Rightarrow>
          if lower scheme \<noteq> ''bearer'' then http_error 401 ''missing or invalid authorization header''
          else
            let bearer = strip token in
            bindE (get_cached_auth_context (hash_api_key bearer)) (\<lambda>cached.
            bindE (case cached of Some ctx \<Rightarrow> returnE ctx | None \<Rightarrow> authenticate_bearer rep bearer) (\<lambda>ctx.
            if is_rate_limit_exempt path then returnE ctx
            else
              bindE (getE (\<lambda>a. resolve_api_rate_limit_per_minute (auth_role ctx) (settings (app_session a)))) (\<lambda>limit.
              thenE (enforce_rate_limit_for_api_key (auth_api_key_id ctx) limit) (returnE ctx)))))"

section \<open>Roles and tenants\<close>

definition require_platform_admin :: "auth_context \<Rightarrow> ('s, unit) sm" where
  "require_platform_admin ctx =
     (if auth_role ctx \<noteq> PLATFORM_ADMIN then http_error 403 ''only platform_admin may access catalog admin routes''
      else returnE ())"

definition require_dunning_operator :: "auth_context \<Rightarrow> ('s, unit) sm" where
  "require_dunning_operator ctx =
     (if auth_role ctx \<noteq> PLATFORM_ADMIN \<and> auth_role ctx \<noteq> DUNNING_OPERATOR
      then http_error 403 ''only platform_admin or dunning_operator may manage dunning campaigns''
      else returnE ())"

definition assert_tenant_access_org_id :: "auth_context \<Rightarrow> int \<Rightarrow> ('s, unit) sm" where
  "assert_tenant_access_org_id ctx oi =
     (if auth_role ctx = PLATFORM_ADMIN then returnE ()
      else if auth_organization_id ctx = None \<or> auth_organization_id ctx \<noteq> Some oi
      then http_error 403 ''cross-tenant access denied''
      else returnE ())"

definition assert_tenant_access :: "auth_context \<Rightarrow> organization \<Rightarrow> ('s, unit) sm" where
  "assert_tenant_access ctx g = assert_tenant_access_org_id ctx (org_id g)"

definition assert_ledger_read_access :: "auth_context \<Rightarrow> organization \<Rightarrow> ('s, unit) sm" where
  "assert_ledger_read_access ctx g =
     (if auth_role ctx = PLATFORM_ADMIN \<or> auth_role ctx = REVOPS_READ then returnE ()
      else assert_tenant_access ctx g)"

definition may_access :: "auth_context \<Rightarrow> int \<Rightarrow> bool" where
  "may_access ctx oi \<longleftrightarrow> auth_role ctx = PLATFORM_ADMIN \<or> auth_organization_id ctx = Some oi"

lemma assert_tenant_access_run [simp, sm_simps]:
  "assert_tenant_access ctx g s =
     (if may_access ctx (org_id g) then (Inr (), s)
      else (Inl (Exc (HTTPException 403) ''cross-tenant access denied''), s))"
  by (simp add: assert_tenant_access_def assert_tenant_access_org_id_def may_access_def http_error_def)

lemma http_error_run [simp, sm_simps]: "http_error c d s = (Inl (Exc (HTTPException c) d), s)"
  by (simp add: http_error_def)

section \<open>Properties\<close>

text \<open>Every cached context is that of a key of the database with the digest it is filed under.\<close>

definition cache_faithful :: "app \<Rightarrow> database \<Rightarrow> bool" where
  "cache_faithful a d \<longleftrightarrow> (\<forall>digest ctx e. auth_by_digest a digest = Some (ctx, e) \<longrightarrow>
     (\<exists>k \<in> set (api_keys d). key_hash k = digest \<and> key_id k = auth_api_key_id ctx))"

lemma revoke_row_InrD:
  assumes "revoke_row oi kid s = (Inr k, t)"
  shows "\<exists>k0 now. k0 \<in> set (api_keys (db s)) \<and> key_id k0 = kid \<and> k = set_revoked now k0 \<and> \<not> tx_failed t \<and>
    db t = upd_api_key kid (set_revoked now) (db s) \<and> settings t = settings s"
proof -
  have nf: "\<not> tx_failed s" using assms by (auto simp: revoke_row_def load_active_api_key_def)
  let ?rows = "filter (\<lambda>k. key_id k = kid \<and> key_revoked_at k = None) (api_keys (db s))"
  have "\<exists>k0. ?rows = [k0]"
    using assms nf by (cases ?rows; cases "tl ?rows")
      (auto simp: revoke_row_def load_active_api_key_def scalar_one_or_none_def)
  then obtain k0 where k0: "?rows = [k0]" ..
  then have "k0 \<in> set (api_keys (db s))" "key_id k0 = kid" by (auto dest: filter_singletonD)
  with assms nf k0 show ?thesis
    by (intro exI [of _ k0] exI [of _ "clock s (clock_pos s)"])
      (auto simp: revoke_row_def load_active_api_key_def assert_key_belongs_to_organization_def thenE_def bindE_def
        raiseE_def split: if_splits)
qed

lemma find_context_none:
  assumes "\<not> tx_failed s" "key_rows h (db s) = []"
  shows "find_context h s = (Inl (Exc ValueError ''invalid or expired API key''), s)"
  using assms by (simp add: find_context_def)

text \<open>
  C4: A revoked key is refused. Take a process whose key cache is in step with the database. After
  a key has been revoked and the revocation committed, a request with a bearer token of that key is
  answered 401 by this process, whether the token is looked up on the primary or on a replica that
  has replayed the revocation, and also after any further changes to the keys: revocation cannot be
  undone, and the process cache does not keep serving the key.
\<close>

theorem revoked_key_refused:
  assumes ok: "caches_ok a" "keys_ok (db (app_session a))" "cache_faithful a (db (app_session a))"
    and r: "revoke_api_key oi kid a = (Inr k, b)" and h: "hash_api_key (strip token) = key_hash k"
    and c: "app_session c = s" "auth_by_digest c = auth_by_digest b" "keys_kept (db (app_session b)) (read_view rep s)"
  shows "\<exists>detail d. get_auth_context rep path (Some (''Bearer'', token)) c = (Inl (Exc (HTTPException 401) detail), d)"
proof -
  let ?digest = "key_hash k"
  obtain t where t: "revoke_row oi kid (app_session a) = (Inr k, t)" "app_session b = t"
    "auth_by_digest b = without (auth_by_digest a) (auth_by_key_id a kid)"
    using r by (cases "revoke_row oi kid (app_session a)"; cases "fst (revoke_row oi kid (app_session a))")
      (auto simp: revoke_api_key_def on_session_def invalidate_auth_context_run)
  from revoke_row_InrD [OF t(1)] obtain k0 now where k: "k0 \<in> set (api_keys (db (app_session a)))" "key_id k0 = kid"
    "k = set_revoked now k0" "db t = upd_api_key kid (set_revoked now) (db (app_session a))" by blast
  have kb: "k \<in> set (api_keys (db t))" "key_revoked_at k \<noteq> None"
    using k by (auto simp: upd_api_key_def set_update_rows set_revoked_def)
  have "keys_ok (db t)" using identity_keys.key_revoke [of "db (app_session a)" kid now] ok(2) k(4) by (simp add: keys_kept_def)
  then have rows: "key_rows ?digest (read_view rep s) = []" using revoked_rows kb c(3) t(2) by blast
  have "auth_by_digest c ?digest = None"
  proof (rule ccontr)
    assume "auth_by_digest c ?digest \<noteq> None"
    then obtain ctx e where x: "without (auth_by_digest a) (auth_by_key_id a kid) ?digest = Some (ctx, e)"
      using c(2) t(3) by auto
    then have "auth_by_digest a ?digest = Some (ctx, e)" by (simp add: without_Some)
    with ok(3) obtain q where q: "q \<in> set (api_keys (db (app_session a)))" "key_hash q = ?digest" "key_id q = auth_api_key_id ctx"
      by (auto simp: cache_faithful_def)
    have "key_hash q = key_hash k0" using q(2) k(3) by (simp add: set_revoked_def)
    then have "q = k0" using ok(2) q(1) k(1) unique_by_same [of "\<lambda>r. Some (key_hash r)"] by (fastforce simp: keys_ok_def)
    moreover have "auth_key (ctx, e) \<noteq> kid" using indexed_gone [of auth_key "auth_by_digest a" "auth_by_key_id a" kid ?digest "(ctx, e)"] x ok(1)
      by (simp add: caches_ok_def)
    ultimately show False using q(3) k(2) by simp
  qed
  then have cached: "get_cached_auth_context ?digest c = (Inr None, c)" by (simp add: get_cached_auth_context_def)
  have "\<exists>detail d. authenticate_bearer rep (strip token) c = (Inl (Exc (HTTPException 401) detail), d)"
    using rows c(1) h find_context_none [of "s\<lparr>db := read_view rep s, tx_failed := False\<rparr>" ?digest]
    by (cases "strip token = []") (auto simp: authenticate_bearer_def on_read_session_def authenticate_def Let_def)
  then obtain detail d where "authenticate_bearer rep (strip token) c = (Inl (Exc (HTTPException 401) detail), d)" by blast
  moreover have "lower ''Bearer'' = ''bearer''" by code_simp
  ultimately show ?thesis using cached h by (simp add: get_auth_context_def Let_def)
qed

text \<open>The sample organization with one key, revoked and committed.\<close>

definition keyed_db :: database where
  "keyed_db = add_api_key sample_key sample_db"

definition keyed_app :: app where
  "keyed_app = sample_app\<lparr>app_session := sample_session\<lparr>db := keyed_db, committed := keyed_db\<rparr>\<rparr>"

definition revoked_db :: database where
  "revoked_db = upd_api_key (key_id sample_key) (set_revoked (5 * day_us)) keyed_db"

definition revoked_app :: app where
  "revoked_app = keyed_app\<lparr>app_session := (app_session keyed_app)\<lparr>db := revoked_db, clock_pos := 1\<rparr>,
     auth_by_key_id := (Map.empty)(key_id sample_key := None)\<rparr>"

lemma keyed_ok: "caches_ok keyed_app" "keys_ok (db (app_session keyed_app))" "cache_faithful keyed_app (db (app_session keyed_app))"
  by (simp_all add: keyed_app_def caches_ok_def indexed_def sample_app_def keys_ok_def keyed_db_def add_api_key_def
      sample_db_def unique_by_def List.map_filter_simps cache_faithful_def)

lemma keyed_revoke:
  "revoke_api_key 1 (key_id sample_key) keyed_app = (Inr (set_revoked (5 * day_us) sample_key), revoked_app)"
proof -
  have k: "key_revoked_at sample_key = None" "key_organization_id sample_key = Some 1"
    by (simp_all add: sample_key_def new_api_key_def)
  have "api_keys keyed_db = [sample_key]" by (simp add: keyed_db_def add_api_key_def sample_db_def)
  then have "revoke_row 1 (key_id sample_key) (app_session keyed_app) =
      (Inr (set_revoked (5 * day_us) sample_key), (app_session keyed_app)\<lparr>clock_pos := 1, db := revoked_db\<rparr>)"
    using k by (simp add: revoke_row_def load_active_api_key_def assert_key_belongs_to_organization_def keyed_app_def
        revoked_db_def)
  then show ?thesis
    by (simp add: revoke_api_key_def invalidate_auth_context_run revoked_app_def keyed_app_def sample_app_def)
qed

theorem revoked_key_refused_witness:
  "\<exists>detail d. get_auth_context \<lparr>rep_db = sample_db, rep_lag = Inr None\<rparr> ''/v1/usage'' (Some (''Bearer'', ''bp_local_demo''))
     (revoked_app\<lparr>app_session := (app_session revoked_app)\<lparr>committed := revoked_db\<rparr>\<rparr>) =
     (Inl (Exc (HTTPException 401) detail), d)"
proof (rule revoked_key_refused [OF keyed_ok keyed_revoke _ refl])
  have "strip ''bp_local_demo'' = ''bp_local_demo''" by code_simp
  then show "hash_api_key (strip ''bp_local_demo'') = key_hash (set_revoked (5 * day_us) sample_key)"
    by (simp add: set_revoked_def sample_key_def new_api_key_def)
  show "keys_kept (db (app_session revoked_app)) (read_view \<lparr>rep_db = sample_db, rep_lag = Inr None\<rparr>
      (app_session (revoked_app\<lparr>app_session := (app_session revoked_app)\<lparr>committed := revoked_db\<rparr>\<rparr>)))"
    by (simp add: read_view_def select_read_session_factory_def revoked_app_def keyed_app_def default_settings_def keys_kept_same)
qed simp

end
