(* ===== verification/Grace.thy ===== *)
theory Grace
  imports Subscriptions
begin

text \<open>
  The grace period of a past-due subscription and what happens when it is over
  (\<^verbatim>\<open>services/grace.py\<close>): access is revoked, the subscription becomes unpaid (or canceled, if a
  cancellation was pending), and a zero-amount marker and an event record it.
\<close>

section \<open>The window\<close>

definition compute_grace_until :: "instant \<Rightarrow> int \<Rightarrow> instant" where
  "compute_grace_until entered days = entered + timedelta_days days"

definition is_grace_active :: "subscription_status \<Rightarrow> int \<Rightarrow> instant option \<Rightarrow> instant \<Rightarrow> bool" where
  "is_grace_active status days entered now =
     (if status \<noteq> past_due then False
      else case entered of None \<Rightarrow> False | Some e \<Rightarrow> now < compute_grace_until e days)"

section \<open>Revoking access\<close>

definition load_revoked_feature_keys :: "uuid \<Rightarrow> database \<Rightarrow> string list" where
  "load_revoked_feature_keys pid d =
     concat (map (\<lambda>f. map (\<lambda>_. feat_key f)
       (filter (\<lambda>l. pf_feature_id l = feat_id f \<and> pf_plan_id l = pid \<and> is_enabled l)
          (plan_features d))) (features d))"

definition revoke_target :: "subscription \<Rightarrow> subscription_status" where
  "revoke_target r = (if cancel_at_period_end r then canceled else unpaid)"

text \<open>The assignments besides the status.\<close>

definition revoke_fields :: "subscription_status \<Rightarrow> instant \<Rightarrow> subscription \<Rightarrow> subscription" where
  "revoke_fields target now r =
     (if target = canceled
      then r\<lparr>canceled_at := Some now, cancel_at_period_end := False, past_due_entered_at := None\<rparr>
      else r\<lparr>past_due_entered_at := None\<rparr>)"

definition grace_key :: "subscription \<Rightarrow> string" where
  "grace_key r = ''grace_expiry:'' @ uuid_str (sub_public_id r)"

definition revoke_data :: "subscription \<Rightarrow> subscription_status \<Rightarrow> string list \<Rightarrow> json_object" where
  "revoke_data r target revoked =
     [(''subscription_public_id'', JStr (uuid_str (sub_public_id r))),
      (''previous_status'', JStr (subscription_status_value past_due)),
      (''new_status'', JStr (subscription_status_value target)),
      (''revoked_features'', JList (map JStr revoked))]"

definition revoke_event :: "subscription \<Rightarrow> uuid \<Rightarrow> subscription_status \<Rightarrow> string list \<Rightarrow> json_object" where
  "revoke_event r org_public target revoked =
     [(''subscription_public_id'', JStr (uuid_str (sub_public_id r))),
      (''organization_public_id'', JStr (uuid_str org_public)),
      (''previous_status'', JStr (subscription_status_value past_due)),
      (''new_status'', JStr (subscription_status_value target)),
      (''revoked_features'', JList (map JStr revoked))]"

definition revoke_expired_subscription :: "int \<Rightarrow> plan \<Rightarrow> instant \<Rightarrow> unit op" where
  "revoke_expired_subscription i p now =
     bindE (load_subscription i) (\<lambda>r.
     if sub_status r \<noteq> past_due then returnE ()
     else
       let target = revoke_target r in
       bindE (liftE (case transition (sub_status r) target of
                Inl e \<Rightarrow> Inl (Exc RuntimeError (str_exc e)) | Inr new \<Rightarrow> Inr new)) (\<lambda>_.
       thenE (move_subscription i target (revoke_fields target now))
       (bindE (organization_public_id (sub_organization_id r)) (\<lambda>org_public.
       bindE (query (load_revoked_feature_keys (plan_id p))) (\<lambda>revoked.
       thenE (post_entry (sub_organization_id r) access_revoked_marker 0 ''USD''
                (grace_key r @ '':ledger:access_revoked_marker'') (grace_key r) (Some (sub_id r))
                None None (revoke_data r target revoked))
       (enqueue_outbox ''subscription'' (uuid_str (sub_public_id r)) ''subscription.access_revoked''
          (revoke_event r org_public target revoked)
          (grace_key r @ '':subscription.access_revoked'') (str_int (sub_organization_id r))))))))"

text \<open>
  The candidates are past-due subscriptions joined with their plan; \<open>skip\<close> says which subscriptions
  (or their plans) another transaction has locked (\<^verbatim>\<open>SKIP LOCKED\<close>).
\<close>

definition grace_candidates :: "(int \<Rightarrow> bool) \<Rightarrow> database \<Rightarrow> (subscription \<times> plan) list" where
  "grace_candidates skip d =
     concat (map (\<lambda>r. map (\<lambda>p. (r, p)) (filter (\<lambda>p. plan_id p = sub_plan_id r) (plans d)))
       (filter (\<lambda>r. sub_status r = past_due \<and> past_due_entered_at r \<noteq> None \<and> \<not> skip (sub_id r))
          (subscriptions d)))"

definition grace_over :: "instant \<Rightarrow> subscription \<Rightarrow> plan \<Rightarrow> bool" where
  "grace_over now r p =
     (case past_due_entered_at r of None \<Rightarrow> False
      | Some e \<Rightarrow> \<not> now < compute_grace_until e (grace_period_days p))"

definition grace_step ::
  "instant \<Rightarrow> subscription \<times> plan \<Rightarrow> nat \<times> int set \<Rightarrow> (nat \<times> int set) op" where
  "grace_step now row acc =
     (case row of (r, p) \<Rightarrow> case acc of (processed, orgs) \<Rightarrow>
        if grace_over now r p
        then thenE (revoke_expired_subscription (sub_id r) p now)
               (returnE (Suc processed, insert (sub_organization_id r) orgs))
        else returnE (processed, orgs))"

text \<open>A naive \<^verbatim>\<open>now\<close> is taken to be in UTC.\<close>

definition enforce_grace_expiry :: "(int \<Rightarrow> bool) \<Rightarrow> pydatetime \<Rightarrow> (nat \<times> int set) op" where
  "enforce_grace_expiry skip now =
     bindE (query (grace_candidates skip)) (\<lambda>rows.
       foldE (grace_step (astimezone_utc now)) rows (0, {}))"

section \<open>Write footprint\<close>

lemma subscription_update_revoke: "subscription_update (revoke_fields target now)"
  by (simp add: subscription_update_def revoke_fields_def same_identity_def)

context subscriptions_client
begin

lemma revoke_expired_subscription: "keeps_db D (revoke_expired_subscription i p now)"
  unfolding revoke_expired_subscription_def
  by (intro primitives load_subscription move_subscription organization_public_id post_entry
      enqueue_outbox subscription_update_revoke)

lemma enforce_grace_expiry: "keeps_db D (enforce_grace_expiry skip now)"
  unfolding enforce_grace_expiry_def grace_step_def
  by (intro primitives revoke_expired_subscription)

end

section \<open>Revoking one subscription\<close>

definition revoked_row :: "instant \<Rightarrow> instant \<Rightarrow> subscription \<Rightarrow> subscription" where
  "revoked_row t now r =
     (revoke_fields (revoke_target r) now r)\<lparr>sub_status := revoke_target r, sub_updated_at := t\<rparr>"

definition marker_key :: "subscription \<Rightarrow> string" where
  "marker_key r = grace_key r @ '':ledger:access_revoked_marker''"

lemma marker_key_inj: "marker_key r = marker_key q \<longleftrightarrow> sub_public_id r = sub_public_id q"
  by (simp add: marker_key_def grace_key_def inj_uuid_str)

lemma revoke_target_legal:
  "sub_status r = past_due \<Longrightarrow> transition (sub_status r) (revoke_target r) = Inr (revoke_target r)"
  by (simp add: revoke_target_def)

lemma upd_subscription_one:
  assumes "unique_key sub_id (subscriptions d)" "r \<in> set (subscriptions d)" "f r \<noteq> r"
  shows "subscriptions (upd_subscription (sub_id r) t f d) =
    map (\<lambda>q. if q = r then (f r)\<lparr>sub_updated_at := t\<rparr> else q) (subscriptions d)"
proof -
  have "q = r" if "q \<in> set (subscriptions d)" "sub_id q = sub_id r" for q
    using unique_by_same [OF assms(1,2) that(1)] that(2) by simp
  then show ?thesis
    using assms(3) by (auto simp: upd_subscription_def update_rows_def)
qed

text \<open>The subscription row is moved first.\<close>

lemma revoke_moves:
  assumes s: "ready s" and fr: "fresh_ids n s" and r: "r \<in> set (subscriptions (db s))" and st: "sub_status r = past_due"
    and v: "v = s\<lparr>db := upd_subscription (sub_id r) (tx_now s)
      (legal_move (revoke_target r) (revoke_fields (revoke_target r) now)) (db s)\<rparr>"
  shows "move_subscription (sub_id r) (revoke_target r) (revoke_fields (revoke_target r) now) s = (Inr (), v)"
    and "ready v" "fresh_ids n v" "sub_id ` set (subscriptions (db v)) = sub_id ` set (subscriptions (db s))"
    and "subscriptions (db v) = map (\<lambda>q. if q = r then revoked_row (tx_now s) now r else q) (subscriptions (db s))"
proof -
  let ?f = "legal_move (revoke_target r) (revoke_fields (revoke_target r) now)"
  have tr: "transition (sub_status r) (revoke_target r) = Inr (revoke_target r)" using st by (rule revoke_target_legal)
  have id: "same_identity q (?f q) \<and> sub_plan_id (?f q) = sub_plan_id q" for q
    by (rule same_identity_legal_move [OF subscription_update_revoke])
  show "ready v" unfolding v using id by (intro ready_upd_subscription [OF s]) simp_all
  show "fresh_ids n v" unfolding v
    using id by (intro fresh_ids_same [OF fr]) (simp_all add: used_ids_upd_subscription)
  show "move_subscription (sub_id r) (revoke_target r) (revoke_fields (revoke_target r) now) s = (Inr (), v)"
    using move_subscription_run [OF readyD(1,2) [OF s] r] tr v by simp
  show "sub_id ` set (subscriptions (db v)) = sub_id ` set (subscriptions (db s))"
    using id unfolding same_identity_def by (simp add: v upd_subscription_def image_update_rows)
  have ne: "?f r \<noteq> r"
  proof
    assume "?f r = r"
    then have "sub_status (?f r) = past_due" using st by simp
    with tr st show False by (simp add: legal_move_def revoke_target_def split: if_splits)
  qed
  have row: "(?f r)\<lparr>sub_updated_at := tx_now s\<rparr> = revoked_row (tx_now s) now r"
    using tr by (simp add: legal_move_def revoked_row_def)
  show "subscriptions (db v) = map (\<lambda>q. if q = r then revoked_row (tx_now s) now r else q) (subscriptions (db s))"
    using upd_subscription_one [where f = ?f, OF keys_uniqueD(3) [OF readyD(2) [OF s]] r ne, of "tx_now s"]
    unfolding row by (simp add: v)
qed

lemma revoke_expired_subscription_run:
  assumes s: "ready s" and fr: "fresh_ids (Suc k) s" and r: "r \<in> set (subscriptions (db s))"
    and st: "sub_status r = past_due"
    and key: "\<forall>e \<in> set (ledger_entries (db s)). le_idempotency_key e \<noteq> marker_key r"
  shows "\<exists>t e. revoke_expired_subscription (sub_id r) p now s = (Inr (), t) \<and> ready t \<and>
    fresh_ids k t \<and> tx_now t = tx_now s \<and> plans (db t) = plans (db s) \<and>
    subscriptions (db t) = map (\<lambda>q. if q = r then revoked_row (tx_now s) now r else q) (subscriptions (db s)) \<and>
    ledger_entries (db t) = ledger_entries (db s) @ [e] \<and> entry_type e = access_revoked_marker \<and>
    amount_cents e = 0 \<and> le_idempotency_key e = marker_key r \<and>
    outbox_key_taken (grace_key r @ '':subscription.access_revoked'') (db t)"
proof -
  let ?tg = "revoke_target r"
  let ?f = "legal_move ?tg (revoke_fields ?tg now)"
  let ?v = "s\<lparr>db := upd_subscription (sub_id r) (tx_now s) ?f (db s)\<rparr>"
  let ?rv = "load_revoked_feature_keys (plan_id p) (db ?v)"
  have tr: "transition past_due ?tg = Inr ?tg" using revoke_target_legal [OF st] unfolding st .
  note mv = revoke_moves [OF s fr r st refl, of now] and v = revoke_moves(2) [OF s fr r st refl, of now]
  obtain g where g: "g \<in> set (organizations (db ?v))" "org_id g = sub_organization_id r"
    using subscription_organization [OF readyD(2) [OF s] r] by auto
  have si: "\<forall>i. Some (sub_id r) = Some i \<longrightarrow> i \<in> sub_id ` set (subscriptions (db ?v))"
    using r unfolding mv(4) by simp
  let ?e = "new_entry ?v (org_id g) access_revoked_marker 0 (upper ''USD'') (marker_key r) (grace_key r)
    (Some (sub_id r)) None None None (revoke_data r ?tg ?rv)"
  have key': "\<forall>e \<in> set (ledger_entries (db ?v)). le_idempotency_key e \<noteq> marker_key r" using key by simp
  obtain u where p: "post_entry (org_id g) access_revoked_marker 0 ''USD'' (marker_key r) (grace_key r)
      (Some (sub_id r)) None None (revoke_data r ?tg ?rv) ?v = (Inr ?e, u)" and u: "entry_recorded ?e ?v u"
    using post_entry_recorded [OF can_postI [OF v mv(3) g(1)] key' si refl] by blast
  have "ready u" using u by (simp add: entry_recorded_def)
  from enqueue_outbox_recorded [OF this] obtain t where
    e: "enqueue_outbox ''subscription'' (uuid_str (sub_public_id r)) ''subscription.access_revoked''
      (revoke_event r (org_public_id g) ?tg ?rv) (grace_key r @ '':subscription.access_revoked'')
      (str_int (sub_organization_id r)) u = (Inr (), t)"
    and t: "event_recorded (grace_key r @ '':subscription.access_revoked'') u t" by blast
  have og: "organization_public_id (sub_organization_id r) ?v = (Inr (org_public_id g), ?v)"
    using organization_public_id_run [OF readyD(1,2) [OF v] g] .
  have lf: "(case transition past_due ?tg of Inl e \<Rightarrow> Inl (Exc RuntimeError (str_exc e)) | Inr new \<Rightarrow> Inr new)
      = Inr ?tg" unfolding tr by simp
  have run: "revoke_expired_subscription (sub_id r) p now s = (Inr (), t)"
    using load_subscription_run [OF readyD(1,2) [OF s] r] st lf mv(1) og p e readyD(1) [OF v] g(2)
    by (simp add: revoke_expired_subscription_def Let_def marker_key_def)
  have fu: "fresh_ids k u" using entry_recorded_fresh [OF u _ mv(3)] by simp
  have fr_u: "ledger_frame (db ?v) (db u)" using u by (simp add: entry_recorded_def)
  have fr_t: "outbox_only (db u) (db t)" using t by (simp add: event_recorded_def)
  have subs: "subscriptions (db t) =
      map (\<lambda>q. if q = r then revoked_row (tx_now s) now r else q) (subscriptions (db s))"
    using ledger_frameD(1) [OF fr_u] outbox_onlyD(2) [OF fr_t] mv(5) by simp
  have "plans (db t) = plans (db s)" "ledger_entries (db t) = ledger_entries (db s) @ [?e]"
    using ledger_frameD(3) [OF fr_u] outbox_onlyD(5,1) [OF fr_t] u by (simp_all add: entry_recorded_def)
  then show ?thesis
    using run subs t u event_recorded_fresh [OF t fu]
    by (intro exI [of _ t] exI [of _ ?e]) (simp add: event_recorded_def entry_recorded_def)
qed

section \<open>The sweep\<close>

definition overdue :: "instant \<Rightarrow> (subscription \<times> plan) list \<Rightarrow> subscription list" where
  "overdue now rows = map fst (filter (\<lambda>(r, p). grace_over now r p) rows)"

lemma overdue_simps [simp]:
  "overdue now [] = []"
  "overdue now ((r, p) # rows) = (if grace_over now r p then r # overdue now rows else overdue now rows)"
  by (simp_all add: overdue_def)

lemma set_overdue: "set (overdue now rows) \<subseteq> fst ` set rows"
  by (auto simp: overdue_def)

lemma same_public_id:
  assumes "db_ok d" "r \<in> set (subscriptions d)" "q \<in> set (subscriptions d)" "sub_public_id r = sub_public_id q"
  shows "q = r"
proof -
  have "unique_key sub_public_id (subscriptions d)" using assms(1) by (simp add: integrity_defs)
  from unique_by_same [OF this assms(2,3)] assms(4) show ?thesis by simp
qed

lemma revoked_row_status: "sub_status (revoked_row t now r) \<noteq> past_due"
  by (simp add: revoked_row_def revoke_target_def)

text \<open>The rows still to come keep their markers unused.\<close>

lemma markers_unused:
  assumes "db_ok d" "r \<in> set (subscriptions d)" "r \<notin> R" "R \<subseteq> set (subscriptions d)" "le_idempotency_key e = marker_key r"
    and "\<forall>q \<in> R. \<forall>x \<in> set es. le_idempotency_key x \<noteq> marker_key q"
  shows "\<forall>q \<in> R. \<forall>x \<in> set (es @ [e]). le_idempotency_key x \<noteq> marker_key q"
proof (intro ballI)
  fix q x assume q: "q \<in> R" and x: "x \<in> set (es @ [e])"
  from q have "q \<in> set (subscriptions d)" "q \<noteq> r" using assms(3,4) by auto
  then have "marker_key q \<noteq> marker_key r" using same_public_id [OF assms(1,2)] by (metis marker_key_inj)
  with x q assms(5,6) show "le_idempotency_key x \<noteq> marker_key q" by auto
qed

lemma grace_sweep:
  assumes "ready s" "fresh_ids (length (overdue now rows)) s" "distinct (map fst rows)"
    and "\<forall>r \<in> fst ` set rows. r \<in> set (subscriptions (db s)) \<and> sub_status r = past_due"
    and "\<forall>r \<in> fst ` set rows. \<forall>e \<in> set (ledger_entries (db s)). le_idempotency_key e \<noteq> marker_key r"
  shows "\<exists>t es. foldE (grace_step now) rows (n, S) s =
      (Inr (n + length (overdue now rows), S \<union> sub_organization_id ` set (overdue now rows)), t) \<and> ready t \<and>
    subscriptions (db t) = map (\<lambda>q. if q \<in> set (overdue now rows) then revoked_row (tx_now s) now q else q)
      (subscriptions (db s)) \<and>
    ledger_entries (db t) = ledger_entries (db s) @ es \<and>
    map (\<lambda>e. (entry_type e, amount_cents e, le_idempotency_key e)) es =
      map (\<lambda>r. (access_revoked_marker, 0, marker_key r)) (overdue now rows)"
  using assms
proof (induction rows arbitrary: s n S)
  case Nil
  then show ?case by simp
next
  case (Cons row rows)
  obtain r p where row: "row = (r, p)" by fastforce
  show ?case
  proof (cases "grace_over now r p")
    case False
    then have eq: "foldE (grace_step now) (row # rows) (n, S) s = foldE (grace_step now) rows (n, S) s"
      "overdue now (row # rows) = overdue now rows" by (simp_all add: row grace_step_def)
    have "distinct (map fst rows)" using Cons.prems(3) by simp
    moreover have "\<forall>r \<in> fst ` set rows. r \<in> set (subscriptions (db s)) \<and> sub_status r = past_due"
      "\<forall>r \<in> fst ` set rows. \<forall>e \<in> set (ledger_entries (db s)). le_idempotency_key e \<noteq> marker_key r"
      using Cons.prems(4,5) by simp_all
    ultimately show ?thesis
      unfolding eq by (rule Cons.IH [OF Cons.prems(1) Cons.prems(2) [unfolded eq]])
  next
    case True
    have r: "r \<in> set (subscriptions (db s))" "sub_status r = past_due" and
      fr: "fresh_ids (Suc (length (overdue now rows))) s" and
      k: "\<forall>e \<in> set (ledger_entries (db s)). le_idempotency_key e \<noteq> marker_key r"
      using Cons.prems row True by simp_all
    from revoke_expired_subscription_run [OF Cons.prems(1) fr r k, of p now] obtain u e where
      u: "revoke_expired_subscription (sub_id r) p now s = (Inr (), u)" "ready u"
        "fresh_ids (length (overdue now rows)) u" "tx_now u = tx_now s"
      and su: "subscriptions (db u) =
        map (\<lambda>q. if q = r then revoked_row (tx_now s) now r else q) (subscriptions (db s))"
      and e: "ledger_entries (db u) = ledger_entries (db s) @ [e]" "entry_type e = access_revoked_marker"
        "amount_cents e = 0" "le_idempotency_key e = marker_key r" by blast
    have nr: "r \<notin> fst ` set rows" using Cons.prems(3) row by simp
    have in_u: "\<forall>q \<in> fst ` set rows. q \<in> set (subscriptions (db u)) \<and> sub_status q = past_due"
      using Cons.prems(4) nr unfolding su row by force
    have "fst ` set rows \<subseteq> set (subscriptions (db s))" using Cons.prems(4) by auto
    then have keys: "\<forall>q \<in> fst ` set rows. \<forall>x \<in> set (ledger_entries (db u)). le_idempotency_key x \<noteq> marker_key q"
      unfolding e(1) using Cons.prems(5) by (intro markers_unused [OF readyD(2) [OF Cons.prems(1)] r(1) nr _ e(4)]) simp_all
    have dr: "distinct (map fst rows)" using Cons.prems(3) by simp
    obtain t es where t: "foldE (grace_step now) rows (Suc n, insert (sub_organization_id r) S) u =
        (Inr (Suc n + length (overdue now rows),
           insert (sub_organization_id r) S \<union> sub_organization_id ` set (overdue now rows)), t)" "ready t"
      "subscriptions (db t) = map (\<lambda>q. if q \<in> set (overdue now rows) then revoked_row (tx_now u) now q else q)
        (subscriptions (db u))"
      "ledger_entries (db t) = ledger_entries (db u) @ es"
      "map (\<lambda>e. (entry_type e, amount_cents e, le_idempotency_key e)) es =
        map (\<lambda>r. (access_revoked_marker, 0, marker_key r)) (overdue now rows)"
      using Cons.IH [OF u(2,3) dr in_u keys, of "Suc n" "insert (sub_organization_id r) S"] by blast
    have "revoked_row (tx_now s) now r \<notin> set (overdue now rows)"
      using in_u set_overdue [of now rows] revoked_row_status by blast
    then have "subscriptions (db t) = map (\<lambda>q. if q \<in> set (overdue now (row # rows))
        then revoked_row (tx_now s) now q else q) (subscriptions (db s))"
      unfolding t(3) su u(4) row using True by auto
    moreover have "foldE (grace_step now) (row # rows) (n, S) s =
        (Inr (n + length (overdue now (row # rows)),
           S \<union> sub_organization_id ` set (overdue now (row # rows))), t)"
      using t(1) u(1) True by (simp add: row grace_step_def)
    ultimately show ?thesis
      using t(2,4,5) e True
      by (intro exI [of _ t] exI [of _ "e # es"]) (simp add: row)
  qed
qed

text \<open>The subscriptions whose grace period is over, stated on the tables.\<close>

definition grace_expired :: "(int \<Rightarrow> bool) \<Rightarrow> instant \<Rightarrow> database \<Rightarrow> subscription \<Rightarrow> bool" where
  "grace_expired skip now d r \<longleftrightarrow> sub_status r = past_due \<and> \<not> skip (sub_id r) \<and>
     (\<exists>p \<in> set (plans d). plan_id p = sub_plan_id r \<and>
        (\<exists>e. past_due_entered_at r = Some e \<and> e + grace_period_days p * day_us \<le> now))"

lemma set_grace_candidates:
  "(r, p) \<in> set (grace_candidates skip d) \<longleftrightarrow>
     r \<in> set (subscriptions d) \<and> p \<in> set (plans d) \<and> plan_id p = sub_plan_id r \<and>
     sub_status r = past_due \<and> past_due_entered_at r \<noteq> None \<and> \<not> skip (sub_id r)"
  by (auto simp: grace_candidates_def)

lemma set_overdue_candidates:
  "r \<in> set (overdue now (grace_candidates skip d)) \<longleftrightarrow>
     r \<in> set (subscriptions d) \<and> grace_expired skip now d r"
  unfolding overdue_def grace_expired_def set_map set_filter
  by (force simp: set_grace_candidates grace_over_def compute_grace_until_def timedelta_days_def
      split: option.splits)

lemma distinct_unique_key: "unique_key key rows \<Longrightarrow> distinct rows"
  by (induction rows) (auto simp: unique_by_def List.map_filter_simps set_map_filter)

lemma distinct_concat_small:
  assumes "\<And>r. f r = [] \<or> f r = [r]" "distinct rs"
  shows "distinct (concat (map f rs)) \<and> set (concat (map f rs)) \<subseteq> set rs"
  using assms(2)
proof (induction rs)
  case (Cons r rs)
  then show ?case using assms(1) [of r] by auto
qed simp

lemma distinct_grace_candidates:
  assumes "db_ok d"
  shows "distinct (map fst (grace_candidates skip d))"
proof -
  have d: "distinct (filter (\<lambda>r. sub_status r = past_due \<and> past_due_entered_at r \<noteq> None \<and> \<not> skip (sub_id r))
      (subscriptions d))"
    using distinct_unique_key [OF keys_uniqueD(3) [OF assms]] by simp
  let ?f = "\<lambda>r. map fst (map (\<lambda>p. (r, p)) (filter (\<lambda>p. plan_id p = sub_plan_id r) (plans d)))"
  have "?f r = [] \<or> ?f r = [r]" for r
    by (rule unique_key_filter_cases [OF keys_uniqueD(2) [OF assms], of "sub_plan_id r"]) auto
  from distinct_concat_small [of ?f, OF this d] show ?thesis
    by (simp add: grace_candidates_def map_concat comp_def)
qed

text \<open>
  C16: The grace sweep. In a usable transaction on an intact database, provided the identifiers
  drawn for the markers are new and no marker exists yet for the expired subscriptions,
  \<^verbatim>\<open>enforce_grace_expiry\<close> returns the number of expired subscriptions and the set of their
  organizations; every past-due subscription (not locked by another transaction) whose entry time
  plus the plan's grace days has passed becomes unpaid, or canceled if a cancellation was pending,
  every other subscription stays as it is, and the ledger gets one zero-amount marker for each.
\<close>

theorem enforce_grace_expiry_revokes:
  assumes s: "ready s"
    and fr: "fresh_ids (length (filter (grace_expired skip (astimezone_utc now) (db s)) (subscriptions (db s)))) s"
    and mk: "\<forall>r \<in> set (subscriptions (db s)). \<forall>e \<in> set (ledger_entries (db s)).
      sub_status r = past_due \<longrightarrow> le_idempotency_key e \<noteq> marker_key r"
  shows "\<exists>t es. enforce_grace_expiry skip now s =
      (Inr (length (filter (grace_expired skip (astimezone_utc now) (db s)) (subscriptions (db s))),
            sub_organization_id ` set (filter (grace_expired skip (astimezone_utc now) (db s))
              (subscriptions (db s)))), t) \<and> ready t \<and>
    subscriptions (db t) = map (\<lambda>r. if grace_expired skip (astimezone_utc now) (db s) r
      then (if cancel_at_period_end r
            then r\<lparr>sub_status := canceled, canceled_at := Some (astimezone_utc now),
                   cancel_at_period_end := False, past_due_entered_at := None, sub_updated_at := tx_now s\<rparr>
            else r\<lparr>sub_status := unpaid, past_due_entered_at := None, sub_updated_at := tx_now s\<rparr>)
      else r) (subscriptions (db s)) \<and>
    ledger_entries (db t) = ledger_entries (db s) @ es \<and>
    (\<forall>e \<in> set es. entry_type e = access_revoked_marker \<and> amount_cents e = 0) \<and>
    length es = length (filter (grace_expired skip (astimezone_utc now) (db s)) (subscriptions (db s)))"
proof -
  let ?now = "astimezone_utc now" and ?d = "db s"
  let ?rows = "grace_candidates skip ?d"
  let ?E = "filter (grace_expired skip ?now ?d) (subscriptions ?d)"
  have ok: "db_ok ?d" using s by (rule readyD)
  have sets: "set (overdue ?now ?rows) = set ?E" by (auto simp: set_overdue_candidates)
  have "distinct (overdue ?now ?rows)"
    using distinct_grace_candidates [OF ok, of skip] unfolding overdue_def by (simp add: distinct_map_filter)
  moreover have "distinct ?E" using distinct_unique_key [OF keys_uniqueD(3) [OF ok]] by simp
  ultimately have len: "length (overdue ?now ?rows) = length ?E"
    using sets by (metis distinct_card)
  have in_s: "\<forall>r \<in> fst ` set ?rows. r \<in> set (subscriptions ?d) \<and> sub_status r = past_due"
    by (auto simp: set_grace_candidates)
  have keys: "\<forall>r \<in> fst ` set ?rows. \<forall>e \<in> set (ledger_entries ?d). le_idempotency_key e \<noteq> marker_key r"
    using in_s mk by blast
  from grace_sweep [OF s fr [folded len] distinct_grace_candidates [OF ok] in_s keys, of 0 "{}"]
  obtain t es where t: "foldE (grace_step ?now) ?rows (0, {}) s =
      (Inr (length ?E, sub_organization_id ` set ?E), t)" "ready t"
    "subscriptions (db t) = map (\<lambda>q. if q \<in> set ?E then revoked_row (tx_now s) ?now q else q) (subscriptions ?d)"
    "ledger_entries (db t) = ledger_entries ?d @ es"
    "map (\<lambda>e. (entry_type e, amount_cents e, le_idempotency_key e)) es =
       map (\<lambda>r. (access_revoked_marker, 0, marker_key r)) (overdue ?now ?rows)"
    unfolding sets len by auto
  have run: "enforce_grace_expiry skip now s = (Inr (length ?E, sub_organization_id ` set ?E), t)"
    using t(1) readyD(1) [OF s] by (simp add: enforce_grace_expiry_def)
  have "length es = length ?E" using arg_cong [OF t(5), of length] len by simp
  moreover have "\<forall>e \<in> set es. entry_type e = access_revoked_marker \<and> amount_cents e = 0"
  proof
    fix e assume "e \<in> set es"
    then have "(entry_type e, amount_cents e, le_idempotency_key e) \<in>
        set (map (\<lambda>r. (access_revoked_marker, 0, marker_key r)) (overdue ?now ?rows))"
      unfolding t(5) [symmetric] by auto
    then show "entry_type e = access_revoked_marker \<and> amount_cents e = 0" by auto
  qed
  ultimately show ?thesis
    using run t(2-4)
    by (intro exI [of _ t] exI [of _ es])
      (auto simp: revoked_row_def revoke_fields_def revoke_target_def)
qed

lemma past_due_ready: "ready past_due_session"
  by (simp add: ready_def past_due_ok past_due_sequences)

theorem enforce_grace_expiry_revokes_witness:
  "\<exists>t es. enforce_grace_expiry (\<lambda>_. False) (Aware (8 * day_us) 0) past_due_session = (Inr (1, {1}), t) \<and>
     map sub_status (subscriptions (db t)) = [unpaid] \<and> length (ledger_entries (db t)) = 1"
proof -
  have x: "filter (grace_expired (\<lambda>_. False) (8 * day_us) (db past_due_session))
      (subscriptions (db past_due_session)) = [past_due_sub]"
    by (simp add: grace_expired_def)
  have fr: "fresh_ids (Suc 0) past_due_session" using fresh_ids_le [OF past_due_fresh] by simp
  have fr': "fresh_ids (length (filter (grace_expired (\<lambda>_. False) (astimezone_utc (Aware (8 * day_us) 0))
      (db past_due_session)) (subscriptions (db past_due_session)))) past_due_session"
    using fr x by simp
  from enforce_grace_expiry_revokes [OF past_due_ready fr'] x show ?thesis
    by (auto simp: grace_expired_def)
qed

end
