(* ===== verification/Dunning.thy ===== *)
theory Dunning
  imports Grace
begin

text \<open>
  Dunning campaigns (\<^verbatim>\<open>services/dunning.py\<close>): after a failed payment, attempts to collect are
  scheduled 1, 3 and 7 days after the start; operators may pause and resume a campaign; due attempts
  ask the payment provider to retry the open invoice.
\<close>

section \<open>Campaigns\<close>

definition schedule_attempt_offsets_days :: "int list" where
  "schedule_attempt_offsets_days = [1, 3, 7]"

definition refresh_dunning_active_metric :: "unit op" where
  "refresh_dunning_active_metric =
     bindE (query (\<lambda>d. length (filter (\<lambda>c. camp_status c = CAMPAIGN_ACTIVE) (dunning_campaigns d))))
       (\<lambda>n. emit_metric (DunningCampaignsActive (int n)))"

definition find_campaign_by_idempotency_key :: "string \<Rightarrow> dunning_campaign option op" where
  "find_campaign_by_idempotency_key key =
     bindE (query (\<lambda>d. filter (\<lambda>c. camp_idempotency_key c = key) (dunning_campaigns d)))
       scalar_one_or_none"

definition find_active_campaign_for_subscription :: "int \<Rightarrow> dunning_campaign option op" where
  "find_active_campaign_for_subscription i =
     bindE (query (\<lambda>d. filter (\<lambda>c. camp_subscription_id c = i \<and> camp_status c = CAMPAIGN_ACTIVE)
       (dunning_campaigns d))) scalar_one_or_none"

definition get_campaign_by_id :: "uuid \<Rightarrow> int \<Rightarrow> dunning_campaign option op" where
  "get_campaign_by_id u oi =
     bindE (query (\<lambda>d. filter (\<lambda>c. camp_id c = u \<and> camp_organization_id c = oi) (dunning_campaigns d)))
       scalar_one_or_none"

definition append_campaign_audit :: "string \<Rightarrow> uuid \<Rightarrow> instant \<Rightarrow> json_object \<Rightarrow> json_object" where
  "append_campaign_audit action actor at snapshot =
     (let history = (case obj_get snapshot ''operator_history'' of JList xs \<Rightarrow> xs | _ \<Rightarrow> []);
          entry = JObj [(''action'', JStr action), (''actor_key_id'', JStr (uuid_str actor)),
                        (''at'', JStr (isoformat at))]
      in obj_set ''operator_history'' (JList (history @ [entry])) snapshot)"

definition new_attempt :: "dunning_campaign \<Rightarrow> nat \<Rightarrow> int \<Rightarrow> uuid \<Rightarrow> instant \<Rightarrow> dunning_attempt" where
  "new_attempt c no offset u t =
     \<lparr>att_id = u, att_campaign_id = camp_id c, attempt_no = int no,
      scheduled_at = started_at c + timedelta_days offset, executed_at = None, att_result = None,
      external_charge_id = None,
      att_idempotency_key = uuid_str (camp_id c) @ '':'' @ str_nat no, att_created_at = t\<rparr>"

definition insert_attempt :: "dunning_campaign \<Rightarrow> nat \<Rightarrow> int \<Rightarrow> dunning_attempt op" where
  "insert_attempt c no offset =
     bindE new_uuid (\<lambda>u. bindE (getE tx_now) (\<lambda>t.
     let a = new_attempt c no offset u t
     in thenE (insert_checked (attempt_ok a) (add_attempt a)) (returnE a)))"

definition schedule_campaign_attempts :: "dunning_campaign \<Rightarrow> dunning_attempt list op" where
  "schedule_campaign_attempts c =
     foldE (\<lambda>x acc. case x of (no, offset) \<Rightarrow>
         bindE (insert_attempt c no offset) (\<lambda>a. returnE (acc @ [a])))
       (enumerate 1 schedule_attempt_offsets_days) []"

definition campaign_subscription :: "int \<Rightarrow> int \<Rightarrow> database \<Rightarrow> (subscription \<times> plan) list" where
  "campaign_subscription i oi d =
     concat (map (\<lambda>r. map (\<lambda>p. (r, p)) (filter (\<lambda>p. plan_id p = sub_plan_id r) (plans d)))
       (filter (\<lambda>r. sub_id r = i \<and> sub_organization_id r = oi) (subscriptions d)))"

definition new_campaign ::
  "subscription \<Rightarrow> plan \<Rightarrow> int \<Rightarrow> int \<Rightarrow> string \<Rightarrow> instant \<Rightarrow> uuid \<Rightarrow> instant \<Rightarrow> dunning_campaign" where
  "new_campaign r p i oi key start u t =
     \<lparr>camp_id = u, camp_subscription_id = i, camp_organization_id = oi,
      camp_status = CAMPAIGN_ACTIVE,
      camp_grace_until = map_option (\<lambda>e. compute_grace_until e (grace_period_days p))
        (past_due_entered_at r),
      policy_snapshot = dunning_policy p, camp_idempotency_key = key, started_at = start,
      camp_created_at = t\<rparr>"

text \<open>
  The campaign and its attempts are inserted in a savepoint; after a constraint violation the
  campaign of a concurrent call is looked up.
\<close>

definition insert_campaign :: "dunning_campaign \<Rightarrow> dunning_campaign option op" where
  "insert_campaign c =
     catchE
       (begin_nested
         (thenE (insert_checked (campaign_ok c) (add_campaign c))
         (thenE (schedule_campaign_attempts c) (returnE None))))
       (\<lambda>e. if exc_class_of e = IntegrityError
             then bindE (find_campaign_by_idempotency_key (camp_idempotency_key c)) (\<lambda>x.
               case x of Some q \<Rightarrow> returnE (Some q)
               | None \<Rightarrow> bindE (find_active_campaign_for_subscription (camp_subscription_id c)) (\<lambda>y.
                   case y of Some q \<Rightarrow> returnE (Some q) | None \<Rightarrow> reraiseE e))
             else reraiseE e)"

definition start_campaign ::
  "int \<Rightarrow> int \<Rightarrow> string \<Rightarrow> instant option \<Rightarrow> dunning_campaign option op" where
  "start_campaign i oi key start =
     bindE (getE (\<lambda>s. dunning_enabled (settings s))) (\<lambda>enabled.
     if \<not> enabled then returnE None
     else
       bindE (find_campaign_by_idempotency_key key) (\<lambda>existing.
       case existing of Some c \<Rightarrow> returnE (Some c)
       | None \<Rightarrow>
           bindE (find_active_campaign_for_subscription i) (\<lambda>running.
           case running of Some c \<Rightarrow> returnE (Some c)
           | None \<Rightarrow>
               bindE (bindE (query (campaign_subscription i oi)) scalar_one_or_none) (\<lambda>row.
               case row of
                 None \<Rightarrow> raiseE ValueError (''subscription '' @ str_int i
                           @ '' not found for organization '' @ str_int oi)
               | Some rp \<Rightarrow>
                   bindE (case start of Some t \<Rightarrow> returnE t | None \<Rightarrow> now_utc) (\<lambda>begins.
                   bindE new_uuid (\<lambda>u.
                   bindE (getE tx_now) (\<lambda>t.
                   let c = new_campaign (fst rp) (snd rp) i oi key begins u t in
                   bindE (insert_campaign c) (\<lambda>other.
                     case other of Some q \<Rightarrow> returnE (Some q)
                     | None \<Rightarrow> thenE refresh_dunning_active_metric (returnE (Some c))))))))))"

definition list_campaigns ::
  "int option \<Rightarrow> int option \<Rightarrow> nat \<Rightarrow> nat \<Rightarrow> dunning_campaign list op" where
  "list_campaigns oi si limit offset =
     query (\<lambda>d. page limit offset (order_by_desc started_at
       (filter (\<lambda>c. (case oi of None \<Rightarrow> True | Some i \<Rightarrow> camp_organization_id c = i) \<and>
                    (case si of None \<Rightarrow> True | Some i \<Rightarrow> camp_subscription_id c = i))
          (dunning_campaigns d))))"

definition set_campaign :: "uuid \<Rightarrow> (dunning_campaign \<Rightarrow> dunning_campaign) \<Rightarrow> unit op" where
  "set_campaign u f = thenE (update_db (upd_campaign u f)) flush"

text \<open>A change to the status \<^verbatim>\<open>active\<close> is checked against the unique index.\<close>

definition no_other_active :: "uuid \<Rightarrow> database \<Rightarrow> bool" where
  "no_other_active u d =
     list_all (\<lambda>c. camp_id c = u \<longrightarrow>
       list_all (\<lambda>q. camp_id q \<noteq> u \<longrightarrow> active_subscription q \<noteq> Some (camp_subscription_id c))
         (dunning_campaigns d)) (dunning_campaigns d)"

definition pause_campaign :: "uuid \<Rightarrow> int \<Rightarrow> uuid \<Rightarrow> unit op" where
  "pause_campaign u oi actor =
     bindE (get_campaign_by_id u oi) (\<lambda>found.
     case found of
       None \<Rightarrow> raiseE ValueError ''dunning campaign not found''
     | Some c \<Rightarrow>
         if camp_status c \<noteq> CAMPAIGN_ACTIVE
         then raiseE ValueError (''cannot pause campaign in status ''
                @ campaign_status_value (camp_status c))
         else
           bindE now_utc (\<lambda>now.
           thenE (set_campaign u (\<lambda>c. c\<lparr>camp_status := CAMPAIGN_PAUSED,
                    policy_snapshot := append_campaign_audit ''pause'' actor now (policy_snapshot c)\<rparr>))
             refresh_dunning_active_metric))"

definition resume_campaign :: "uuid \<Rightarrow> int \<Rightarrow> uuid \<Rightarrow> unit op" where
  "resume_campaign u oi actor =
     bindE (get_campaign_by_id u oi) (\<lambda>found.
     case found of
       None \<Rightarrow> raiseE ValueError ''dunning campaign not found''
     | Some c \<Rightarrow>
         if camp_status c \<noteq> CAMPAIGN_PAUSED
         then raiseE ValueError (''cannot resume campaign in status ''
                @ campaign_status_value (camp_status c))
         else
           bindE (find_active_campaign_for_subscription (camp_subscription_id c)) (\<lambda>other.
           if (case other of None \<Rightarrow> False | Some q \<Rightarrow> camp_id q \<noteq> camp_id c)
           then raiseE ValueError ''another active dunning campaign exists for subscription''
           else
             bindE now_utc (\<lambda>now.
             thenE (insert_checked (no_other_active u) (upd_campaign u
                      (\<lambda>c. c\<lparr>camp_status := CAMPAIGN_ACTIVE,
                         policy_snapshot := append_campaign_audit ''resume'' actor now (policy_snapshot c)\<rparr>)))
               refresh_dunning_active_metric)))"

section \<open>Attempts\<close>

definition find_open_invoice_for_subscription :: "int \<Rightarrow> database \<Rightarrow> invoice option" where
  "find_open_invoice_for_subscription i d =
     first_row (order_by_desc inv_created_at
       (filter (\<lambda>v. inv_subscription_id v = Some i \<and> inv_status v = open_invoice \<and>
                    external_invoice_id v \<noteq> None) (invoices d)))"

definition event_type_for_attempt :: "int \<Rightarrow> bool \<Rightarrow> string" where
  "event_type_for_attempt no retry_succeeded =
     (if no = 1 then ''dunning.attempt_scheduled''
      else if no = 3 then ''dunning.final_notice''
      else if retry_succeeded then ''dunning.attempt_succeeded''
      else ''dunning.attempt_failed'')"

text \<open>
  The provider's answer to \<^verbatim>\<open>retry_invoice_payment\<close> is a parameter: for the attempt that makes the
  call and the external invoice id, an exception or a JSON object.
\<close>

type_synonym payment_retry = "uuid \<Rightarrow> string \<Rightarrow> py_error + json_object"

definition retry_payment ::
  "payment_retry \<Rightarrow> dunning_attempt \<Rightarrow> invoice option \<Rightarrow> (bool \<times> string option) op" where
  "retry_payment provider a invo =
     (case invo of None \<Rightarrow> returnE (False, None)
      | Some v \<Rightarrow>
          (case external_invoice_id v of None \<Rightarrow> returnE (False, None)
           | Some x \<Rightarrow>
               bindE (liftE (provider (att_id a) x)) (\<lambda>res.
               returnE (obj_get res ''status'' = JStr ''paid'', json_str (obj_get res ''latest_charge'')))))"

definition load_campaign :: "uuid \<Rightarrow> dunning_campaign op" where
  "load_campaign u = bindE (query (\<lambda>d. filter (\<lambda>c. camp_id c = u) (dunning_campaigns d))) scalar_one"

definition attempt_event :: "dunning_attempt \<Rightarrow> dunning_campaign \<Rightarrow> uuid \<Rightarrow> uuid \<Rightarrow> bool \<Rightarrow> string option \<Rightarrow> json_object" where
  "attempt_event a c org_public sub_public ok charge =
     [(''campaign_id'', JStr (uuid_str (camp_id c))),
      (''organization_public_id'', JStr (uuid_str org_public)),
      (''subscription_public_id'', JStr (uuid_str sub_public)),
      (''attempt_no'', JInt (attempt_no a)),
      (''result'', JStr (attempt_result_value (if ok then SUCCEEDED else ATTEMPT_FAILED))),
      (''external_charge_id'', opt_str charge)]"

definition set_attempt :: "uuid \<Rightarrow> (dunning_attempt \<Rightarrow> dunning_attempt) \<Rightarrow> unit op" where
  "set_attempt u f = thenE (update_db (upd_attempt u f)) flush"

definition subscription_public_id :: "int \<Rightarrow> uuid op" where
  "subscription_public_id i =
     bindE (query (\<lambda>d. map sub_public_id (filter (\<lambda>r. sub_id r = i) (subscriptions d)))) scalar_one"

definition execute_attempt :: "payment_retry \<Rightarrow> dunning_attempt \<Rightarrow> instant \<Rightarrow> nat op" where
  "execute_attempt provider a now =
     bindE (load_campaign (att_campaign_id a)) (\<lambda>c.
     bindE (query (find_open_invoice_for_subscription (camp_subscription_id c))) (\<lambda>invo.
     bindE (retry_payment provider a invo) (\<lambda>outcome.
     case outcome of (ok, charge) \<Rightarrow>
     thenE (set_attempt (att_id a) (\<lambda>a. a\<lparr>executed_at := Some now,
              att_result := Some (if ok then SUCCEEDED else ATTEMPT_FAILED), external_charge_id := charge\<rparr>))
     (bindE (organization_public_id (camp_organization_id c)) (\<lambda>org_public.
     bindE (subscription_public_id (camp_subscription_id c)) (\<lambda>sub_public.
     thenE (enqueue_outbox ''dunning_campaign'' (uuid_str (camp_id c))
              (event_type_for_attempt (attempt_no a) ok)
              (attempt_event a c org_public sub_public ok charge)
              (''dunning:'' @ uuid_str (camp_id c) @ '':attempt:'' @ str_int (attempt_no a))
              (str_int (camp_organization_id c)))
     (thenE (if ok then set_campaign (camp_id c) (\<lambda>c. c\<lparr>camp_status := CAMPAIGN_COMPLETED\<rparr>)
             else if attempt_no a = 3
             then set_campaign (camp_id c) (\<lambda>c. c\<lparr>camp_status := CAMPAIGN_EXHAUSTED\<rparr>)
             else returnE ())
     (thenE flush (returnE 1)))))))))"

text \<open>\<open>skip\<close>: attempts another transaction has locked.\<close>

definition attempt_due :: "(uuid \<Rightarrow> bool) \<Rightarrow> instant \<Rightarrow> database \<Rightarrow> dunning_attempt \<Rightarrow> bool" where
  "attempt_due skip now d a =
     (list_ex (\<lambda>c. camp_id c = att_campaign_id a \<and> camp_status c = CAMPAIGN_ACTIVE)
        (dunning_campaigns d) \<and>
      executed_at a = None \<and> scheduled_at a \<le> now \<and> \<not> skip (att_id a))"

definition due_attempts :: "(uuid \<Rightarrow> bool) \<Rightarrow> instant \<Rightarrow> database \<Rightarrow> dunning_attempt list" where
  "due_attempts skip now d =
     order_by scheduled_at (order_by attempt_no (filter (attempt_due skip now d) (dunning_attempts d)))"

definition attempt_step :: "payment_retry \<Rightarrow> instant \<Rightarrow> dunning_attempt \<Rightarrow> nat \<Rightarrow> nat op" where
  "attempt_step provider now a processed =
     bindE (execute_attempt provider a now) (\<lambda>k. returnE (processed + k))"

definition process_due_attempts ::
  "payment_retry \<Rightarrow> (uuid \<Rightarrow> bool) \<Rightarrow> instant \<Rightarrow> nat op" where
  "process_due_attempts provider skip now =
     bindE (getE (\<lambda>s. dunning_enabled (settings s))) (\<lambda>enabled.
     if \<not> enabled then returnE 0
     else
       bindE (query (due_attempts skip now)) (\<lambda>attempts.
       bindE (foldE (attempt_step provider now) attempts 0)
         (\<lambda>processed. thenE refresh_dunning_active_metric (returnE processed))))"

section \<open>Write footprint\<close>

text \<open>
  Campaigns and attempts are inserted subject to their constraints; an update keeps the columns
  that identify the row; a campaign becomes active again only if no other one is active for its
  subscription.
\<close>

definition campaign_update :: "(dunning_campaign \<Rightarrow> dunning_campaign) \<Rightarrow> bool" where
  "campaign_update f \<longleftrightarrow> (\<forall>c. camp_id (f c) = camp_id c \<and>
     camp_subscription_id (f c) = camp_subscription_id c \<and>
     camp_organization_id (f c) = camp_organization_id c \<and>
     camp_idempotency_key (f c) = camp_idempotency_key c)"

definition attempt_update :: "(dunning_attempt \<Rightarrow> dunning_attempt) \<Rightarrow> bool" where
  "attempt_update f \<longleftrightarrow> (\<forall>a. att_id (f a) = att_id a \<and> att_campaign_id (f a) = att_campaign_id a \<and>
     attempt_no (f a) = attempt_no a \<and> att_idempotency_key (f a) = att_idempotency_key a)"

locale dunning_client = subscriptions_client +
  assumes campaign_insert: "campaign_ok c d \<Longrightarrow> D d (add_campaign c d)"
    and attempt_insert: "attempt_ok a d \<Longrightarrow> D d (add_attempt a d)"
    and campaign_close: "campaign_update f \<Longrightarrow> (\<And>c. camp_status (f c) \<noteq> CAMPAIGN_ACTIVE) \<Longrightarrow>
      D d (upd_campaign u f d)"
    and campaign_resume: "campaign_update f \<Longrightarrow> no_other_active u d \<Longrightarrow> D d (upd_campaign u f d)"
    and attempt_executed: "attempt_update g \<Longrightarrow> D d (upd_attempt u g d)"
begin

lemma campaign_lookups:
  "keeps_db D (find_campaign_by_idempotency_key k)" "keeps_db D (find_active_campaign_for_subscription i)"
  "keeps_db D (get_campaign_by_id u oi)" "keeps_db D (load_campaign u)"
  "keeps_db D (subscription_public_id i)" "keeps_db D refresh_dunning_active_metric"
  unfolding find_campaign_by_idempotency_key_def find_active_campaign_for_subscription_def
    get_campaign_by_id_def load_campaign_def subscription_public_id_def refresh_dunning_active_metric_def
  by (intro primitives)+

lemma insert_attempt: "keeps_db D (insert_attempt c no offset)"
  unfolding insert_attempt_def by (intro primitives attempt_insert)

lemma schedule_campaign_attempts: "keeps_db D (schedule_campaign_attempts c)"
  unfolding schedule_campaign_attempts_def by (intro primitives insert_attempt)

lemma insert_campaign: "keeps_db D (insert_campaign c)"
  unfolding insert_campaign_def
  by (intro primitives campaign_lookups schedule_campaign_attempts campaign_insert)

lemma start_campaign: "keeps_db D (start_campaign i oi key start)"
  unfolding start_campaign_def
  by (intro primitives campaign_lookups insert_campaign)

lemma set_campaign:
  assumes "campaign_update f" "\<And>c. camp_status (f c) \<noteq> CAMPAIGN_ACTIVE"
  shows "keeps_db D (set_campaign u f)"
  unfolding set_campaign_def by (intro primitives campaign_close assms)

lemma set_attempt: "attempt_update f \<Longrightarrow> keeps_db D (set_attempt u f)"
  unfolding set_attempt_def by (intro primitives attempt_executed)

lemma pause_campaign: "keeps_db D (pause_campaign u oi actor)"
  unfolding pause_campaign_def
  by (intro primitives campaign_lookups set_campaign) (simp_all add: campaign_update_def)

lemma resume_campaign: "keeps_db D (resume_campaign u oi actor)"
  unfolding resume_campaign_def
  by (intro primitives campaign_lookups campaign_resume) (simp_all add: campaign_update_def)

lemma retry_payment: "keeps_db D (retry_payment provider a invo)"
  unfolding retry_payment_def by (intro primitives)

lemma execute_attempt: "keeps_db D (execute_attempt provider a now)"
  unfolding execute_attempt_def
  by (intro primitives campaign_lookups retry_payment set_attempt set_campaign organization_public_id
      enqueue_outbox) (simp_all add: campaign_update_def attempt_update_def)

lemma process_due_attempts: "keeps_db D (process_due_attempts provider skip now)"
  unfolding process_due_attempts_def attempt_step_def
  by (intro primitives execute_attempt campaign_lookups)

end

interpretation dunning_log: dunning_client ledger_extends
  by unfold_locales (auto simp: ledger_extends_def write_defs)

interpretation dunning_lifecycle: dunning_client lifecycle_kept
  by unfold_locales (auto simp: write_defs intro: lifecycle_kept_same)

lemma db_ok_add_campaign:
  assumes "db_ok d" "campaign_ok c d"
  shows "db_ok (add_campaign c d)"
  using assms
  by (simp add: integrity_defs add_campaign_def campaign_ok_def unique_key_snoc unique_opt_snoc refers_iff)

lemma db_ok_add_attempt:
  assumes "db_ok d" "attempt_ok a d"
  shows "db_ok (add_attempt a d)"
  using assms by (simp add: integrity_defs add_attempt_def attempt_ok_def unique_key_snoc refers_iff)

lemma unique_active_update:
  assumes u: "unique_key camp_id cs" "unique_by active_subscription cs" and f: "campaign_update f"
    and free: "\<forall>c \<in> set cs. camp_id c = i \<longrightarrow> camp_status (f c) = CAMPAIGN_ACTIVE \<longrightarrow>
      (\<forall>q \<in> set cs. camp_id q \<noteq> i \<longrightarrow> active_subscription q \<noteq> Some (camp_subscription_id c))"
  shows "unique_by active_subscription (update_rows (\<lambda>c. camp_id c = i) f cs)"
  using assms
proof (induction cs)
  case (Cons c cs)
  let ?g = "\<lambda>c. if camp_id c = i then f c else c"
  have sub: "unique_key camp_id cs" "unique_by active_subscription cs"
    using Cons.prems by (auto simp: unique_by_def List.map_filter_simps split: option.splits)
  have one: "camp_id q \<noteq> camp_id c" if "q \<in> set cs" for q
    using Cons.prems(1) that by (auto simp: unique_by_def List.map_filter_simps set_map_filter)
  have act: "active_subscription q \<noteq> active_subscription c" if "q \<in> set cs" "active_subscription c \<noteq> None" for q
    using Cons.prems(2) that
    by (auto simp: unique_by_def List.map_filter_simps set_map_filter split: option.splits)
  have tl: "unique_by active_subscription (update_rows (\<lambda>c. camp_id c = i) f cs)"
    using Cons sub by simp
  have ne': "active_subscription (?g q) \<noteq> active_subscription (?g c)"
    if q: "q \<in> set cs" and ac: "active_subscription (?g c) \<noteq> None" for q
  proof (cases "camp_id c = i")
    case True
    with one q have ne: "camp_id q \<noteq> i" by auto
    have "camp_status (f c) = CAMPAIGN_ACTIVE"
      using ac True by (simp add: active_subscription_def split: if_splits)
    moreover have "camp_subscription_id (f c) = camp_subscription_id c"
      using f by (simp add: campaign_update_def)
    ultimately show ?thesis
      using Cons.prems(4) True ne q by (simp add: active_subscription_def)
  next
    case False
    show ?thesis
    proof (cases "camp_id q = i")
      case True
      have "camp_subscription_id (f q) = camp_subscription_id q" using f by (simp add: campaign_update_def)
      with Cons.prems(4) True False ac q show ?thesis
        by (auto simp: active_subscription_def split: if_splits)
    next
      case False
      with \<open>camp_id c \<noteq> i\<close> act [OF q] ac show ?thesis by simp
    qed
  qed
  have "\<forall>q \<in> set (update_rows (\<lambda>c. camp_id c = i) f cs). active_subscription (?g c) \<noteq> None \<longrightarrow>
      active_subscription q \<noteq> active_subscription (?g c)"
  proof (intro ballI impI)
    fix q assume "q \<in> set (update_rows (\<lambda>c. camp_id c = i) f cs)" "active_subscription (?g c) \<noteq> None"
    moreover from this obtain p where "p \<in> set cs" "q = ?g p" by (auto simp only: set_update_rows)
    ultimately show "active_subscription q \<noteq> active_subscription (?g c)" using ne' by blast
  qed
  with tl show ?case
    by (auto simp: unique_by_def List.map_filter_simps set_map_filter split: option.splits)
qed simp

lemma db_ok_upd_campaign:
  assumes ok: "db_ok d" and f: "campaign_update f"
    and free: "no_other_active u d \<or> (\<forall>c. camp_status (f c) \<noteq> CAMPAIGN_ACTIVE)"
  shows "db_ok (upd_campaign u f d)"
proof -
  let ?rows = "update_rows (\<lambda>c. camp_id c = u) f (dunning_campaigns d)"
  note same = f [unfolded campaign_update_def, rule_format]
  have a: "unique_by active_subscription ?rows"
    using ok free by (intro unique_active_update [OF _ _ f])
      (auto simp: integrity_defs no_other_active_def list_all_iff)
  have ids: "camp_id ` set ?rows = camp_id ` set (dunning_campaigns d)"
    by (intro image_update_rows) (simp add: same)
  have "unique_key camp_id ?rows" "unique_key camp_idempotency_key ?rows"
    using ok by (simp_all add: unique_update_rows same integrity_defs)
  moreover have "\<forall>c \<in> set ?rows. camp_subscription_id c \<in> sub_id ` set (subscriptions d) \<and>
      camp_organization_id c \<in> org_id ` set (organizations d)"
    using ok same by (auto simp: integrity_defs set_update_rows)
  ultimately show ?thesis
    using ok a ids by (simp add: integrity_defs upd_campaign_def)
qed

lemma db_ok_upd_attempt:
  assumes ok: "db_ok d" and f: "attempt_update f"
  shows "db_ok (upd_attempt u f d)"
proof -
  let ?rows = "update_rows (\<lambda>a. att_id a = u) f (dunning_attempts d)"
  note same = f [unfolded attempt_update_def, rule_format]
  have "unique_key att_id ?rows" using ok by (simp add: unique_update_rows same integrity_defs)
  moreover have "\<forall>a \<in> set ?rows. att_campaign_id a \<in> camp_id ` set (dunning_campaigns d)"
    using ok same by (auto simp: integrity_defs set_update_rows)
  ultimately show ?thesis using ok by (simp add: integrity_defs upd_attempt_def)
qed

interpretation dunning_integrity: dunning_client stays_ok
  by unfold_locales
    (blast intro: stays_okI db_ok_add_campaign db_ok_add_attempt db_ok_upd_campaign db_ok_upd_attempt)+

section \<open>Starting a campaign\<close>

text \<open>Attempt keys are derived from the campaign and the number.\<close>

definition attempt_keys :: "database \<Rightarrow> bool" where
  "attempt_keys d \<longleftrightarrow> (\<forall>a \<in> set (dunning_attempts d).
     att_idempotency_key a = uuid_str (att_campaign_id a) @ '':'' @ str_int (attempt_no a))"

lemma str_int_of_nat: "str_int (int n) = str_nat n"
  by (simp add: str_int_def)

lemma attempt_key_inj:
  "uuid_str u @ '':'' @ x = uuid_str v @ '':'' @ y \<longleftrightarrow> u = v \<and> x = y"
  using append_eq_append_conv [of "uuid_str u" "uuid_str v" "'':'' @ x" "'':'' @ y"]
  by (auto simp: length_uuid_str inj_uuid_str)

lemma used_ids_add:
  "used_ids (add_attempt a d) = insert (att_id a) (used_ids d)"
  "used_ids (add_campaign c d) = insert (camp_id c) (used_ids d)"
  by (auto simp: used_ids_def add_attempt_def add_campaign_def)

lemma not_used_attempt: "u \<notin> used_ids d \<Longrightarrow> a \<in> set (dunning_attempts d) \<Longrightarrow> att_id a \<noteq> u"
  and not_used_campaign: "u \<notin> used_ids d \<Longrightarrow> c \<in> set (dunning_campaigns d) \<Longrightarrow> camp_id c \<noteq> u"
  by (auto simp: used_ids_def)

lemma insert_attempt_run:
  assumes s: "ready s" and fr: "fresh_ids (Suc k) s" and c: "c \<in> set (dunning_campaigns (db s))"
    and keys: "attempt_keys (db s)"
    and no: "\<forall>a \<in> set (dunning_attempts (db s)). att_campaign_id a = camp_id c \<longrightarrow> attempt_no a < int no"
    and a: "a = new_attempt c no offset (upcoming_uuid s) (tx_now s)"
    and t: "t = (after_uuid s)\<lparr>db := add_attempt a (db s)\<rparr>"
  shows "insert_attempt c no offset s = (Inr a, t)" "ready t" "fresh_ids k t" "attempt_keys (db t)"
    "\<forall>a \<in> set (dunning_attempts (db t)). att_campaign_id a = camp_id c \<longrightarrow> attempt_no a < int (Suc no)"
proof -
  have f: "fresh att_id a (dunning_attempts (db s))"
    using not_used_attempt [OF fresh_idsD [OF fr]] by (auto simp: fresh_iff a new_attempt_def)
  have n: "fresh (\<lambda>a. (att_campaign_id a, attempt_no a)) a (dunning_attempts (db s))"
    using no by (auto simp: fresh_iff a new_attempt_def)
  have "fresh att_idempotency_key a (dunning_attempts (db s))"
    unfolding fresh_iff
  proof
    fix q assume q: "q \<in> set (dunning_attempts (db s))"
    then have k: "att_idempotency_key q = uuid_str (att_campaign_id q) @ '':'' @ str_int (attempt_no q)"
      using keys by (simp add: attempt_keys_def)
    have ak: "att_idempotency_key a = uuid_str (camp_id c) @ '':'' @ str_int (int no)"
      by (simp add: a new_attempt_def str_int_of_nat)
    show "att_idempotency_key q \<noteq> att_idempotency_key a"
      using no q unfolding k ak attempt_key_inj inj_str_int by auto
  qed
  with f n c have ok: "attempt_ok a (db s)"
    by (auto simp: attempt_ok_def refers_iff a new_attempt_def)
  then show "insert_attempt c no offset s = (Inr a, t)"
    using readyD(1) [OF s] by (simp add: insert_attempt_def Let_def a t)
  show "ready t"
    using s db_ok_add_attempt [OF _ ok] by (simp add: t ready_def sequence_ahead_def add_attempt_def)
  have "att_id a = uuid_draw s (clock_pos s) (rnd_pos s)"
    by (simp add: a new_attempt_def upcoming_uuid_draw)
  then show "fresh_ids k t"
    by (intro fresh_ids_drawn [where c = "clock_pos s", OF fr])
      (simp_all add: t after_uuid_def used_ids_add subset_insertI)
  show "attempt_keys (db t)" using keys
    by (simp add: attempt_keys_def t add_attempt_def a new_attempt_def str_int_of_nat)
  show "\<forall>a \<in> set (dunning_attempts (db t)). att_campaign_id a = camp_id c \<longrightarrow> attempt_no a < int (Suc no)"
    using no by (auto simp: t add_attempt_def a new_attempt_def)
qed

lemma schedule_campaign_attempts_run:
  assumes s: "ready s" and fr: "fresh_ids 3 s" and c: "c \<in> set (dunning_campaigns (db s))"
    and keys: "attempt_keys (db s)"
    and none: "\<forall>a \<in> set (dunning_attempts (db s)). att_campaign_id a \<noteq> camp_id c"
  shows "\<exists>t as. schedule_campaign_attempts c s = (Inr as, t) \<and> ready t \<and>
    dunning_attempts (db t) = dunning_attempts (db s) @ as \<and>
    dunning_campaigns (db t) = dunning_campaigns (db s) \<and>
    map attempt_no as = [1, 2, 3] \<and>
    map scheduled_at as = [started_at c + 1 * day_us, started_at c + 3 * day_us, started_at c + 7 * day_us] \<and>
    (\<forall>a \<in> set as. att_campaign_id a = camp_id c \<and> executed_at a = None)"
proof -
  define a1 where "a1 = new_attempt c 1 1 (upcoming_uuid s) (tx_now s)"
  define s1 where "s1 = (after_uuid s)\<lparr>db := add_attempt a1 (db s)\<rparr>"
  define a2 where "a2 = new_attempt c 2 3 (upcoming_uuid s1) (tx_now s1)"
  define s2 where "s2 = (after_uuid s1)\<lparr>db := add_attempt a2 (db s1)\<rparr>"
  define a3 where "a3 = new_attempt c 3 7 (upcoming_uuid s2) (tx_now s2)"
  define s3 where "s3 = (after_uuid s2)\<lparr>db := add_attempt a3 (db s2)\<rparr>"
  have f3: "fresh_ids (Suc 2) s" using fr by (simp add: numeral_3_eq_3 numeral_2_eq_2)
  have n0: "\<forall>a \<in> set (dunning_attempts (db s)). att_campaign_id a = camp_id c \<longrightarrow> attempt_no a < int 1"
    using none by auto
  note r1 = insert_attempt_run [OF s f3 c keys n0 a1_def s1_def]
  have c1: "c \<in> set (dunning_campaigns (db s1))" using c by (simp add: s1_def add_attempt_def)
  have f2: "fresh_ids (Suc 1) s1" using r1(3) by (simp add: numeral_2_eq_2)
  have n1: "\<forall>a \<in> set (dunning_attempts (db s1)). att_campaign_id a = camp_id c \<longrightarrow> attempt_no a < int 2"
    using r1(5) by (simp add: numeral_2_eq_2)
  note r2 = insert_attempt_run [OF r1(2) f2 c1 r1(4) n1 a2_def s2_def]
  have c2: "c \<in> set (dunning_campaigns (db s2))" using c1 by (simp add: s2_def add_attempt_def)
  have f1: "fresh_ids (Suc 0) s2" using r2(3) by simp
  have n2: "\<forall>a \<in> set (dunning_attempts (db s2)). att_campaign_id a = camp_id c \<longrightarrow> attempt_no a < int 3"
    using r2(5) by (simp add: numeral_3_eq_3)
  note r3 = insert_attempt_run [OF r2(2) f1 c2 r2(4) n2 a3_def s3_def]
  have e: "enumerate 1 schedule_attempt_offsets_days = [(1, 1), (2, 3), (3, 7)]"
    by (simp add: schedule_attempt_offsets_days_def numeral_2_eq_2 numeral_3_eq_3)
  have "schedule_campaign_attempts c s = (Inr [a1, a2, a3], s3)"
    unfolding schedule_campaign_attempts_def e using r1(1) r2(1) r3(1) by simp
  moreover have "dunning_attempts (db s3) = dunning_attempts (db s) @ [a1, a2, a3]"
    "dunning_campaigns (db s3) = dunning_campaigns (db s)"
    by (simp_all add: s3_def s2_def s1_def add_attempt_def)
  ultimately show ?thesis using r3(2)
    by (intro exI [of _ s3] exI [of _ "[a1, a2, a3]"])
      (simp add: a1_def a2_def a3_def new_attempt_def timedelta_days_def)
qed

lemma find_campaign_by_idempotency_key_run:
  assumes "ready s"
  shows "find_campaign_by_idempotency_key k s =
    (Inr (first_row (filter (\<lambda>c. camp_idempotency_key c = k) (dunning_campaigns (db s)))), s)"
  using scalar_one_or_none_unique [OF keys_uniqueD(15) [OF readyD(2) [OF assms]], of k] readyD(1) [OF assms]
  by (simp add: find_campaign_by_idempotency_key_def)

lemma active_subscription_filter:
  "(\<lambda>c. camp_subscription_id c = i \<and> camp_status c = CAMPAIGN_ACTIVE) =
   (\<lambda>c. active_subscription c = Some i)"
  by (auto simp: active_subscription_def fun_eq_iff)

lemma find_active_campaign_run:
  assumes "ready s"
  shows "find_active_campaign_for_subscription i s =
    (Inr (first_row (filter (\<lambda>c. active_subscription c = Some i) (dunning_campaigns (db s)))), s)"
  using scalar_one_or_none_unique [OF keys_uniqueD(16) [OF readyD(2) [OF assms]], of i] readyD(1) [OF assms]
  by (simp add: find_active_campaign_for_subscription_def active_subscription_filter)

lemma campaign_subscription_one:
  assumes ok: "db_ok d" and r: "r \<in> set (subscriptions d)" and p: "p \<in> set (plans d)"
    and "plan_id p = sub_plan_id r"
  shows "campaign_subscription (sub_id r) (sub_organization_id r) d = [(r, p)]"
proof -
  have "filter (\<lambda>q. sub_id q = sub_id r \<and> sub_organization_id q = sub_organization_id r) (subscriptions d) =
      filter (\<lambda>q. sub_organization_id q = sub_organization_id r)
        (filter (\<lambda>q. sub_id q = sub_id r) (subscriptions d))"
    by (simp add: conj_commute)
  then show ?thesis
    using unique_key_filter [OF keys_uniqueD(3) [OF ok] r] unique_key_filter [OF keys_uniqueD(2) [OF ok] p] assms(4)
    by (simp add: campaign_subscription_def)
qed

lemma new_campaign_stored:
  assumes s: "ready s" "fresh_ids (Suc 3) s" "attempt_keys (db s)" and r: "r \<in> set (subscriptions (db s))"
    and nk: "\<forall>c \<in> set (dunning_campaigns (db s)). camp_idempotency_key c \<noteq> k"
    and na: "\<forall>c \<in> set (dunning_campaigns (db s)). active_subscription c \<noteq> Some (sub_id r)"
    and c: "c = new_campaign r p (sub_id r) (sub_organization_id r) k begins (upcoming_uuid s) (tx_now s)"
    and u: "u = (after_uuid s)\<lparr>db := add_campaign c (db s)\<rparr>"
  shows "campaign_ok c (db s)" "ready u" "fresh_ids 3 u" "c \<in> set (dunning_campaigns (db u))" "attempt_keys (db u)"
    and "\<forall>a \<in> set (dunning_attempts (db u)). att_campaign_id a \<noteq> camp_id c"
proof -
  have ok: "db_ok (db s)" using s(1) by (rule readyD)
  have id: "\<forall>q \<in> set (dunning_campaigns (db s)). camp_id q \<noteq> camp_id c"
    using not_used_campaign [OF fresh_idsD [OF s(2)]] by (simp add: c new_campaign_def)
  have "active_subscription c = Some (sub_id r)" by (simp add: c new_campaign_def active_subscription_def)
  moreover have "sub_organization_id r \<in> org_id ` set (organizations (db s))" using ok r by (simp add: integrity_defs)
  moreover have "camp_idempotency_key c = k" "camp_subscription_id c = sub_id r" "camp_organization_id c = sub_organization_id r"
    by (simp_all add: c new_campaign_def)
  ultimately show cok: "campaign_ok c (db s)"
    using id nk na r by (auto simp: campaign_ok_def fresh_iff fresh_opt_iff refers_iff)
  show "ready u" using s(1) db_ok_add_campaign [OF ok cok]
    by (simp add: u ready_def sequence_ahead_def add_campaign_def)
  show "fresh_ids 3 u"
    by (rule fresh_ids_drawn [where c = "clock_pos s", OF s(2)])
      (auto simp: u after_uuid_def used_ids_add c new_campaign_def upcoming_uuid_draw)
  show "c \<in> set (dunning_campaigns (db u))" by (simp add: u add_campaign_def)
  show "attempt_keys (db u)" using s(3) by (simp add: u attempt_keys_def add_campaign_def)
  show "\<forall>a \<in> set (dunning_attempts (db u)). att_campaign_id a \<noteq> camp_id c"
    using ok id by (fastforce simp: u add_campaign_def integrity_defs)
qed

text \<open>
  C17: Starting a campaign. With dunning enabled, for an existing subscription with its plan, no
  campaign under the key and none active for the subscription (and new identifiers), the call
  creates one active campaign whose grace deadline is the entry into past due plus the plan's grace
  days, together with exactly three attempts numbered 1, 2 and 3 that are scheduled 1, 3 and 7 days
  after the start. With dunning disabled it does nothing.
\<close>

theorem start_campaign_schedules:
  assumes s: "ready s" and fr: "fresh_ids 4 s" and keys: "attempt_keys (db s)"
    and r: "r \<in> set (subscriptions (db s))" and p: "p \<in> set (plans (db s))" "plan_id p = sub_plan_id r"
    and nk: "\<forall>c \<in> set (dunning_campaigns (db s)). camp_idempotency_key c \<noteq> k"
    and na: "\<forall>c \<in> set (dunning_campaigns (db s)). active_subscription c \<noteq> Some (sub_id r)"
  shows "if dunning_enabled (settings s)
    then \<exists>c as t. start_campaign (sub_id r) (sub_organization_id r) k (Some begins) s = (Inr (Some c), t) \<and>
      ready t \<and> dunning_campaigns (db t) = dunning_campaigns (db s) @ [c] \<and>
      camp_status c = CAMPAIGN_ACTIVE \<and> camp_subscription_id c = sub_id r \<and> camp_idempotency_key c = k \<and>
      camp_grace_until c = map_option (\<lambda>e. e + grace_period_days p * day_us) (past_due_entered_at r) \<and>
      dunning_attempts (db t) = dunning_attempts (db s) @ as \<and> map attempt_no as = [1, 2, 3] \<and>
      map scheduled_at as = [begins + 1 * day_us, begins + 3 * day_us, begins + 7 * day_us] \<and>
      (\<forall>a \<in> set as. att_campaign_id a = camp_id c \<and> executed_at a = None)
    else start_campaign (sub_id r) (sub_organization_id r) k (Some begins) s = (Inr None, s)"
proof (cases "dunning_enabled (settings s)")
  case False
  then show ?thesis by (simp add: start_campaign_def)
next
  case True
  let ?d = "db s" and ?i = "sub_id r" and ?o = "sub_organization_id r"
  define c where "c = new_campaign r p ?i ?o k begins (upcoming_uuid s) (tx_now s)"
  define u where "u = (after_uuid s)\<lparr>db := add_campaign c ?d\<rparr>"
  have "fresh_ids (Suc 3) s" using fr by (simp add: eval_nat_numeral)
  note stored = new_campaign_stored [OF s this keys r nk na c_def u_def]
  obtain t as where t: "schedule_campaign_attempts c u = (Inr as, t)" "ready t"
    "dunning_attempts (db t) = dunning_attempts (db u) @ as" "dunning_campaigns (db t) = dunning_campaigns (db u)"
    "map attempt_no as = [1, 2, 3]"
    "map scheduled_at as = [started_at c + 1 * day_us, started_at c + 3 * day_us, started_at c + 7 * day_us]"
    "\<forall>a \<in> set as. att_campaign_id a = camp_id c \<and> executed_at a = None"
    using schedule_campaign_attempts_run [OF stored(2-6)] by (elim exE conjE) (rule that)
  let ?t = "t\<lparr>metrics := metrics t @ [DunningCampaignsActive (int (length
    (filter (\<lambda>c. camp_status c = CAMPAIGN_ACTIVE) (dunning_campaigns (db t)))))]\<rparr>"
  have ins: "insert_checked (campaign_ok c) (add_campaign c) (after_uuid s) = (Inr (), u)"
    using stored(1) readyD(1) [OF s] by (simp add: u_def)
  have f1: "filter (\<lambda>c. camp_idempotency_key c = k) (dunning_campaigns ?d) = []"
    and f2: "filter (\<lambda>c. active_subscription c = Some ?i) (dunning_campaigns ?d) = []"
    using nk na by (simp_all add: filter_empty_conv)
  have "insert_campaign c (after_uuid s) = (Inr None, t)"
    using ins t(1) by (simp add: insert_campaign_def begin_nested_def)
  then have run: "start_campaign ?i ?o k (Some begins) s = (Inr (Some c), ?t)"
    using True find_campaign_by_idempotency_key_run [OF s, of k] find_active_campaign_run [OF s, of ?i]
      campaign_subscription_one [OF readyD(2) [OF s] r p] f1 f2 readyD(1) [OF s] readyD(1) [OF t(2)]
    by (simp add: start_campaign_def Let_def c_def refresh_dunning_active_metric_def)
  have "ready ?t" "dunning_campaigns (db ?t) = dunning_campaigns ?d @ [c]"
    "dunning_attempts (db ?t) = dunning_attempts ?d @ as"
    using t(2-4) by (simp_all add: ready_def sequence_ahead_def u_def add_campaign_def)
  moreover have "camp_status c = CAMPAIGN_ACTIVE" "camp_subscription_id c = sub_id r"
    "camp_idempotency_key c = k" "started_at c = begins"
    "camp_grace_until c = map_option (\<lambda>e. e + grace_period_days p * day_us) (past_due_entered_at r)"
    by (simp_all add: c_def new_campaign_def compute_grace_until_def timedelta_days_def)
  ultimately have all: "start_campaign ?i ?o k (Some begins) s = (Inr (Some c), ?t) \<and>
      ready ?t \<and> dunning_campaigns (db ?t) = dunning_campaigns (db s) @ [c] \<and>
      camp_status c = CAMPAIGN_ACTIVE \<and> camp_subscription_id c = sub_id r \<and> camp_idempotency_key c = k \<and>
      camp_grace_until c = map_option (\<lambda>e. e + grace_period_days p * day_us) (past_due_entered_at r) \<and>
      dunning_attempts (db ?t) = dunning_attempts (db s) @ as \<and> map attempt_no as = [1, 2, 3] \<and>
      map scheduled_at as = [begins + 1 * day_us, begins + 3 * day_us, begins + 7 * day_us] \<and>
      (\<forall>a \<in> set as. att_campaign_id a = camp_id c \<and> executed_at a = None)"
    using run t(5-7) by simp
  show ?thesis unfolding if_P [OF True] by (intro exI) (rule all)
qed

section \<open>Executing attempts\<close>

text \<open>What the provider answers for an attempt, given the rows the attempt reads.\<close>

definition attempt_outcome ::
  "payment_retry \<Rightarrow> database \<Rightarrow> dunning_attempt \<Rightarrow> bool \<times> string option" where
  "attempt_outcome provider d a =
     (case first_row (filter (\<lambda>c. camp_id c = att_campaign_id a) (dunning_campaigns d)) of
        None \<Rightarrow> (False, None)
      | Some c \<Rightarrow>
          (case find_open_invoice_for_subscription (camp_subscription_id c) d of None \<Rightarrow> (False, None)
           | Some v \<Rightarrow>
               (case external_invoice_id v of None \<Rightarrow> (False, None)
                | Some x \<Rightarrow>
                    (case provider (att_id a) x of Inl e \<Rightarrow> (False, None)
                     | Inr res \<Rightarrow> (obj_get res ''status'' = JStr ''paid'',
                                  json_str (obj_get res ''latest_charge''))))))"

definition executed_row :: "instant \<Rightarrow> bool \<times> string option \<Rightarrow> dunning_attempt \<Rightarrow> dunning_attempt" where
  "executed_row now oc a = a\<lparr>executed_at := Some now,
     att_result := Some (if fst oc then SUCCEEDED else ATTEMPT_FAILED), external_charge_id := snd oc\<rparr>"

text \<open>Rows an attempt leaves alone, and the identity of the campaigns.\<close>

definition dunning_frame :: "database \<Rightarrow> database \<Rightarrow> bool" where
  "dunning_frame d e \<longleftrightarrow> ledger_entries e = ledger_entries d \<and> subscriptions e = subscriptions d \<and>
     invoices e = invoices d \<and> organizations e = organizations d \<and>
     map (\<lambda>c. (camp_id c, camp_subscription_id c, camp_organization_id c)) (dunning_campaigns e) =
     map (\<lambda>c. (camp_id c, camp_subscription_id c, camp_organization_id c)) (dunning_campaigns d) \<and>
     (\<forall>k. outbox_key_taken k d \<longrightarrow> outbox_key_taken k e)"

lemma dunning_frame_refl: "dunning_frame d d"
  and dunning_frame_trans: "dunning_frame d e \<Longrightarrow> dunning_frame e f \<Longrightarrow> dunning_frame d f"
  by (auto simp: dunning_frame_def)

lemma first_row_campaign:
  "map_option camp_subscription_id (first_row (filter (\<lambda>c. camp_id c = u) cs)) =
   map_option (\<lambda>(i, si, oi). si)
     (first_row (filter (\<lambda>(i, si, oi). i = u)
        (map (\<lambda>c. (camp_id c, camp_subscription_id c, camp_organization_id c)) cs)))"
  by (induction cs) auto

lemma attempt_outcome_frame:
  assumes "dunning_frame d e"
  shows "attempt_outcome provider e a = attempt_outcome provider d a"
proof -
  have "map_option camp_subscription_id (first_row (filter (\<lambda>c. camp_id c = att_campaign_id a) (dunning_campaigns e))) =
      map_option camp_subscription_id (first_row (filter (\<lambda>c. camp_id c = att_campaign_id a) (dunning_campaigns d)))"
    using assms unfolding first_row_campaign dunning_frame_def by simp
  moreover have "invoices e = invoices d" using assms by (simp add: dunning_frame_def)
  ultimately show ?thesis
    by (auto simp: attempt_outcome_def find_open_invoice_for_subscription_def split: option.splits)
qed

lemma upd_campaign_frame:
  assumes "campaign_update f"
  shows "dunning_frame d (upd_campaign u f d)"
  using assms by (auto simp: dunning_frame_def upd_campaign_def update_rows_def campaign_update_def
      outbox_key_taken_def)

lemma upd_attempt_frame: "dunning_frame d (upd_attempt u f d)"
  by (simp add: dunning_frame_def upd_attempt_def outbox_key_taken_def)

lemma outbox_only_dunning_frame: "outbox_only d e \<Longrightarrow> dunning_frame d e"
  using outbox_onlyD [of d e] ledger_frameD(9) [OF outbox_ledger_frame, of d e]
  by (auto simp: dunning_frame_def)

lemma ready_upd_campaign:
  assumes "ready s" "campaign_update f" "\<And>c. camp_status (f c) \<noteq> CAMPAIGN_ACTIVE"
  shows "ready (s\<lparr>db := upd_campaign u f (db s)\<rparr>)"
  using assms(1) db_ok_upd_campaign [OF readyD(2) [OF assms(1)] assms(2)] assms(3)
  by (simp add: ready_def sequence_ahead_def upd_campaign_def)

lemma ready_upd_attempt:
  assumes "ready s" "attempt_update f"
  shows "ready (s\<lparr>db := upd_attempt u f (db s)\<rparr>)"
  using assms(1) db_ok_upd_attempt [OF readyD(2) [OF assms(1)] assms(2)]
  by (simp add: ready_def sequence_ahead_def upd_attempt_def)

lemma attempt_campaign:
  assumes "db_ok d" "a \<in> set (dunning_attempts d)"
  obtains c g r where "c \<in> set (dunning_campaigns d)" "camp_id c = att_campaign_id a"
    "g \<in> set (organizations d)" "org_id g = camp_organization_id c"
    "r \<in> set (subscriptions d)" "sub_id r = camp_subscription_id c"
proof -
  from assms obtain c where c: "c \<in> set (dunning_campaigns d)" "camp_id c = att_campaign_id a"
    by (auto simp: db_ok_def references_ok_def)
  moreover from assms(1) c(1) obtain g r where "g \<in> set (organizations d)" "org_id g = camp_organization_id c"
    "r \<in> set (subscriptions d)" "sub_id r = camp_subscription_id c"
    by (auto simp: db_ok_def references_ok_def)
  ultimately show ?thesis by (rule that)
qed

definition answers :: "payment_retry \<Rightarrow> bool" where
  "answers provider \<longleftrightarrow> (\<forall>u x. \<exists>res. provider u x = Inr res)"

lemma retry_payment_run:
  assumes "answers provider" "c \<in> set (dunning_campaigns d)" "camp_id c = att_campaign_id a" "db_ok d"
  shows "retry_payment provider a (find_open_invoice_for_subscription (camp_subscription_id c) d) s =
    (Inr (attempt_outcome provider d a), s)"
proof -
  have f: "filter (\<lambda>q. camp_id q = att_campaign_id a) (dunning_campaigns d) = [c]"
    using unique_key_filter [OF keys_uniqueD(14) [OF assms(4)] assms(2)] assms(3) by simp
  obtain res where "\<And>x. provider (att_id a) x = Inr (res x)"
    using assms(1) unfolding answers_def by metis
  then show ?thesis
    by (auto simp: retry_payment_def attempt_outcome_def f split: option.splits)
qed

definition attempt_event_key :: "dunning_attempt \<Rightarrow> string" where
  "attempt_event_key a =
     ''dunning:'' @ uuid_str (att_campaign_id a) @ '':attempt:'' @ str_int (attempt_no a)"

text \<open>The campaign's status after an attempt.\<close>

definition campaign_after ::
  "bool \<Rightarrow> dunning_attempt \<Rightarrow> dunning_campaign list \<Rightarrow> dunning_campaign list" where
  "campaign_after ok a cs =
     (if ok then update_rows (\<lambda>c. camp_id c = att_campaign_id a) (\<lambda>c. c\<lparr>camp_status := CAMPAIGN_COMPLETED\<rparr>) cs
      else if attempt_no a = 3
      then update_rows (\<lambda>c. camp_id c = att_campaign_id a) (\<lambda>c. c\<lparr>camp_status := CAMPAIGN_EXHAUSTED\<rparr>) cs
      else cs)"

text \<open>An attempt that succeeds completes its campaign; a third that fails exhausts it.\<close>

definition settled :: "bool \<Rightarrow> dunning_attempt \<Rightarrow> uuid \<Rightarrow> database \<Rightarrow> database" where
  "settled ok a ci d =
     (if ok then upd_campaign ci (\<lambda>c. c\<lparr>camp_status := CAMPAIGN_COMPLETED\<rparr>) d
      else if attempt_no a = 3 then upd_campaign ci (\<lambda>c. c\<lparr>camp_status := CAMPAIGN_EXHAUSTED\<rparr>) d else d)"

lemma settle_campaign:
  assumes v: "ready v" and ci: "ci = att_campaign_id a" and t: "t = v\<lparr>db := settled ok a ci (db v)\<rparr>"
  shows "(if ok then set_campaign ci (\<lambda>c. c\<lparr>camp_status := CAMPAIGN_COMPLETED\<rparr>)
      else if attempt_no a = 3 then set_campaign ci (\<lambda>c. c\<lparr>camp_status := CAMPAIGN_EXHAUSTED\<rparr>)
      else returnE ()) v = (Inr (), t)"
    and "ready t" "dunning_frame (db v) (db t)" "dunning_attempts (db t) = dunning_attempts (db v)"
    and "dunning_campaigns (db t) = campaign_after ok a (dunning_campaigns (db v))"
proof -
  show "(if ok then set_campaign ci (\<lambda>c. c\<lparr>camp_status := CAMPAIGN_COMPLETED\<rparr>)
      else if attempt_no a = 3 then set_campaign ci (\<lambda>c. c\<lparr>camp_status := CAMPAIGN_EXHAUSTED\<rparr>)
      else returnE ()) v = (Inr (), t)"
    using readyD(1) [OF v] by (simp add: set_campaign_def t settled_def)
  show "ready t" using v ready_upd_campaign [OF v, of _ ci] by (simp add: t settled_def campaign_update_def)
  show "dunning_frame (db v) (db t)"
    using upd_campaign_frame by (simp add: t settled_def dunning_frame_refl campaign_update_def)
  show "dunning_attempts (db t) = dunning_attempts (db v)" by (simp add: t settled_def upd_campaign_def)
  show "dunning_campaigns (db t) = campaign_after ok a (dunning_campaigns (db v))"
    by (simp add: t settled_def campaign_after_def upd_campaign_def ci)
qed

lemma executed_rows:
  assumes "ready s" "a \<in> set (dunning_attempts (db s))" "oc = (ok, charge)"
  shows "dunning_attempts (upd_attempt (att_id a) (\<lambda>a. a\<lparr>executed_at := Some now,
      att_result := Some (if ok then SUCCEEDED else ATTEMPT_FAILED), external_charge_id := charge\<rparr>) (db s)) =
    map (\<lambda>q. if q = a then executed_row now oc q else q) (dunning_attempts (db s))"
proof -
  have "q = a" if "q \<in> set (dunning_attempts (db s))" "att_id q = att_id a" for q
    using unique_by_same [OF keys_uniqueD(17) [OF readyD(2) [OF assms(1)]] assms(2) that(1)] that(2) by simp
  then show ?thesis by (auto simp: upd_attempt_def update_rows_def executed_row_def assms(3))
qed

lemma execute_attempt_run:
  assumes s: "ready s" and p: "answers provider" and a: "a \<in> set (dunning_attempts (db s))"
  shows "\<exists>t. execute_attempt provider a now s = (Inr 1, t) \<and> ready t \<and> dunning_frame (db s) (db t) \<and>
    dunning_attempts (db t) =
      map (\<lambda>q. if q = a then executed_row now (attempt_outcome provider (db s) a) q else q)
        (dunning_attempts (db s)) \<and>
    dunning_campaigns (db t) =
      campaign_after (fst (attempt_outcome provider (db s) a)) a (dunning_campaigns (db s)) \<and>
    outbox_key_taken (attempt_event_key a) (db t)"
proof -
  obtain c g r where c: "c \<in> set (dunning_campaigns (db s))" "camp_id c = att_campaign_id a"
    and g: "g \<in> set (organizations (db s))" "org_id g = camp_organization_id c"
    and r: "r \<in> set (subscriptions (db s))" "sub_id r = camp_subscription_id c"
    using attempt_campaign [OF readyD(2) [OF s] a] .
  obtain ok charge where oc: "attempt_outcome provider (db s) a = (ok, charge)" by fastforce
  let ?f = "\<lambda>a::dunning_attempt. a\<lparr>executed_at := Some now,
      att_result := Some (if ok then SUCCEEDED else ATTEMPT_FAILED), external_charge_id := charge\<rparr>"
  define u where "u = s\<lparr>db := upd_attempt (att_id a) ?f (db s)\<rparr>"
  have u: "ready u" unfolding u_def by (rule ready_upd_attempt [OF s]) (simp add: attempt_update_def)
  have du: "dunning_frame (db s) (db u)" by (simp add: u_def upd_attempt_frame)
  have lc: "load_campaign (att_campaign_id a) s = (Inr c, s)"
    using unique_key_filter [OF keys_uniqueD(14) [OF readyD(2) [OF s]] c(1)] c(2) readyD(1) [OF s]
    by (simp add: load_campaign_def)
  have og: "organization_public_id (camp_organization_id c) u = (Inr (org_public_id g), u)"
    using organization_public_id_run [OF readyD(1,2) [OF u]] g by (simp add: u_def upd_attempt_def)
  have sg: "subscription_public_id (camp_subscription_id c) u = (Inr (sub_public_id r), u)"
    using unique_key_filter [OF keys_uniqueD(3) [OF readyD(2) [OF s]] r(1)] r(2) readyD(1) [OF s]
    by (simp add: subscription_public_id_def u_def upd_attempt_def)
  obtain v where v: "enqueue_outbox ''dunning_campaign'' (uuid_str (camp_id c))
      (event_type_for_attempt (attempt_no a) ok)
      (attempt_event a c (org_public_id g) (sub_public_id r) ok charge)
      (''dunning:'' @ uuid_str (camp_id c) @ '':attempt:'' @ str_int (attempt_no a))
      (str_int (camp_organization_id c)) u = (Inr (), v)"
    and ev: "event_recorded (''dunning:'' @ uuid_str (camp_id c) @ '':attempt:'' @ str_int (attempt_no a)) u v"
    using enqueue_outbox_recorded [OF u] by blast
  define t where "t = v\<lparr>db := settled ok a (camp_id c) (db v)\<rparr>"
  have rv: "ready v" and oo: "outbox_only (db u) (db v)" using ev by (simp_all add: event_recorded_def)
  note st = settle_campaign [OF rv c(2) t_def]
  have dv: "dunning_frame (db u) (db v)" using oo by (rule outbox_only_dunning_frame)
  have "execute_attempt provider a now s = (Inr 1, t)"
    using lc retry_payment_run [OF p c readyD(2) [OF s]] oc og sg v st(1) readyD(1) [OF s] readyD(1) [OF st(2)]
    by (simp add: execute_attempt_def set_attempt_def u_def)
  moreover have "dunning_attempts (db t) = map (\<lambda>q. if q = a
      then executed_row now (attempt_outcome provider (db s) a) q else q) (dunning_attempts (db s))"
    using st(4) outbox_onlyD(8) [OF oo] executed_rows [OF s a oc] by (simp add: u_def)
  moreover have "dunning_campaigns (db t) =
      campaign_after (fst (attempt_outcome provider (db s) a)) a (dunning_campaigns (db s))"
    using st(5) outbox_onlyD(7) [OF oo] by (simp add: u_def upd_attempt_def oc)
  moreover have "outbox_key_taken (attempt_event_key a) (db t)"
    using ev st(3) c(2) by (simp add: event_recorded_def attempt_event_key_def dunning_frame_def)
  ultimately show ?thesis
    using st(2) dunning_frame_trans [OF du dunning_frame_trans [OF dv st(3)]] by blast
qed

lemma execute_attempts_run:
  assumes "ready s" "answers provider" "distinct (map att_id as)" "set as \<subseteq> set (dunning_attempts (db s))"
  shows "\<exists>t. foldE (attempt_step provider now) as n s =
      (Inr (n + length as), t) \<and> ready t \<and> dunning_frame (db s) (db t) \<and>
    dunning_attempts (db t) = map (\<lambda>q. if q \<in> set as
      then executed_row now (attempt_outcome provider (db s) q) q else q) (dunning_attempts (db s)) \<and>
    dunning_campaigns (db t) = fold (\<lambda>a. campaign_after (fst (attempt_outcome provider (db s) a)) a) as
      (dunning_campaigns (db s)) \<and>
    (\<forall>a \<in> set as. outbox_key_taken (attempt_event_key a) (db t))"
  using assms
proof (induction as arbitrary: s n)
  case Nil
  then show ?case by (simp add: dunning_frame_refl)
next
  case (Cons a as)
  obtain u where u: "execute_attempt provider a now s = (Inr 1, u)" "ready u" "dunning_frame (db s) (db u)"
    and au: "dunning_attempts (db u) = map (\<lambda>q. if q = a
      then executed_row now (attempt_outcome provider (db s) a) q else q) (dunning_attempts (db s))"
    and cu: "dunning_campaigns (db u) =
      campaign_after (fst (attempt_outcome provider (db s) a)) a (dunning_campaigns (db s))"
    and ku: "outbox_key_taken (attempt_event_key a) (db u)"
    using execute_attempt_run [OF Cons.prems(1,2), of a now] Cons.prems(4) by auto
  have na: "a \<notin> set as" using Cons.prems(3) by auto
  have sub: "set as \<subseteq> set (dunning_attempts (db u))"
    using Cons.prems(4) na unfolding au by force
  have er: "executed_row now oc a \<notin> set as" for oc
  proof -
    have "att_id (executed_row now oc a) = att_id a" by (simp add: executed_row_def)
    then show ?thesis using Cons.prems(3) by (metis distinct.simps(2) image_eqI list.simps(9) set_map)
  qed
  have dist: "distinct (map att_id as)" using Cons.prems(3) by simp
  obtain t where t: "foldE (attempt_step provider now) as (n + 1) u =
      (Inr (n + 1 + length as), t)" "ready t" "dunning_frame (db u) (db t)"
    and at: "dunning_attempts (db t) = map (\<lambda>q. if q \<in> set as
      then executed_row now (attempt_outcome provider (db u) q) q else q) (dunning_attempts (db u))"
    and ct: "dunning_campaigns (db t) = fold (\<lambda>a. campaign_after (fst (attempt_outcome provider (db u) a)) a) as
      (dunning_campaigns (db u))"
    and kt: "\<forall>a \<in> set as. outbox_key_taken (attempt_event_key a) (db t)"
    using Cons.IH [OF u(2) Cons.prems(2) dist sub, of "n + 1"] by blast
  have "dunning_attempts (db t) = map (\<lambda>q. if q \<in> set (a # as)
      then executed_row now (attempt_outcome provider (db s) q) q else q) (dunning_attempts (db s))"
    unfolding at au attempt_outcome_frame [OF u(3)] using er na by auto
  moreover have "outbox_key_taken (attempt_event_key a) (db t)"
    using ku t(3) by (simp add: dunning_frame_def)
  moreover have "dunning_campaigns (db t) = fold (\<lambda>a. campaign_after (fst (attempt_outcome provider (db s) a)) a)
      (a # as) (dunning_campaigns (db s))"
    unfolding ct cu attempt_outcome_frame [OF u(3)] by simp
  moreover have "attempt_step provider now a n s = (Inr (n + 1), u)"
    using u(1) by (simp add: attempt_step_def)
  ultimately show ?case
    using t kt dunning_frame_trans [OF u(3) t(3)] by (intro exI [of _ t]) simp
qed

lemma set_due_attempts [simp]:
  "set (due_attempts skip now d) = {a \<in> set (dunning_attempts d). attempt_due skip now d a}"
  by (auto simp: due_attempts_def)

lemma distinct_due_attempts:
  assumes "db_ok d"
  shows "distinct (map att_id (due_attempts skip now d))"
proof -
  have "inj_on att_id (set (dunning_attempts d))"
    using unique_by_same [OF keys_uniqueD(17) [OF assms]] by (auto simp: inj_on_def)
  moreover have "distinct (due_attempts skip now d)"
    using distinct_unique_key [OF keys_uniqueD(17) [OF assms]]
    by (simp add: due_attempts_def order_by_def)
  ultimately show ?thesis
    by (simp add: distinct_map inj_on_def)
qed

lemma process_due_attempts_run:
  assumes s: "ready s" and en: "dunning_enabled (settings s)" and p: "answers provider"
  shows "\<exists>t. process_due_attempts provider skip now s =
      (Inr (length (due_attempts skip now (db s))), t) \<and> ready t \<and> dunning_frame (db s) (db t) \<and>
    dunning_attempts (db t) = map (\<lambda>q. if q \<in> set (due_attempts skip now (db s))
      then executed_row now (attempt_outcome provider (db s) q) q else q) (dunning_attempts (db s)) \<and>
    dunning_campaigns (db t) = fold (\<lambda>a. campaign_after (fst (attempt_outcome provider (db s) a)) a)
      (due_attempts skip now (db s)) (dunning_campaigns (db s)) \<and>
    (\<forall>a \<in> set (due_attempts skip now (db s)). outbox_key_taken (attempt_event_key a) (db t))"
proof -
  let ?as = "due_attempts skip now (db s)"
  obtain t where t: "foldE (attempt_step provider now) ?as 0 s = (Inr (length ?as), t)" "ready t"
    "dunning_frame (db s) (db t)"
    and at: "dunning_attempts (db t) = map (\<lambda>q. if q \<in> set ?as
      then executed_row now (attempt_outcome provider (db s) q) q else q) (dunning_attempts (db s))"
    and ct: "dunning_campaigns (db t) = fold (\<lambda>a. campaign_after (fst (attempt_outcome provider (db s) a)) a) ?as
      (dunning_campaigns (db s))"
    and kt: "\<forall>a \<in> set ?as. outbox_key_taken (attempt_event_key a) (db t)"
    using execute_attempts_run [OF s p distinct_due_attempts [OF readyD(2) [OF s]], of skip now now 0] by auto
  let ?t = "t\<lparr>metrics := metrics t @ [DunningCampaignsActive (int (length
    (filter (\<lambda>c. camp_status c = CAMPAIGN_ACTIVE) (dunning_campaigns (db t)))))]\<rparr>"
  have "process_due_attempts provider skip now s = (Inr (length ?as), ?t)"
    using en t(1) readyD(1) [OF s] readyD(1) [OF t(2)]
    by (simp add: process_due_attempts_def refresh_dunning_active_metric_def)
  moreover have "ready ?t" using t(2) by (simp add: ready_def sequence_ahead_def)
  ultimately show ?thesis using t(3) at ct kt by (intro exI [of _ ?t]) simp
qed

text \<open>
  The attempts a run has to execute, and what it may record for one: the provider is asked for the
  newest open invoice of the campaign's subscription that has an external id; without such an
  invoice the attempt fails and there is no charge.
\<close>

definition awaits_execution ::
  "(uuid \<Rightarrow> bool) \<Rightarrow> instant \<Rightarrow> database \<Rightarrow> dunning_attempt \<Rightarrow> bool" where
  "awaits_execution skip now d a \<longleftrightarrow> executed_at a = None \<and> scheduled_at a \<le> now \<and> \<not> skip (att_id a) \<and>
     (\<exists>c \<in> set (dunning_campaigns d). camp_id c = att_campaign_id a \<and> camp_status c = CAMPAIGN_ACTIVE)"

definition collectable :: "database \<Rightarrow> int \<Rightarrow> invoice set" where
  "collectable d i = {v \<in> set (invoices d). inv_subscription_id v = Some i \<and>
     inv_status v = open_invoice \<and> external_invoice_id v \<noteq> None}"

definition collects ::
  "payment_retry \<Rightarrow> database \<Rightarrow> dunning_attempt \<Rightarrow> bool \<Rightarrow> string option \<Rightarrow> bool" where
  "collects provider d a won charge \<longleftrightarrow>
     (\<exists>c \<in> set (dunning_campaigns d). camp_id c = att_campaign_id a \<and>
       (collectable d (camp_subscription_id c) = {} \<and> \<not> won \<and> charge = None \<or>
        (\<exists>v \<in> collectable d (camp_subscription_id c). \<exists>x res.
           (\<forall>w \<in> collectable d (camp_subscription_id c). inv_created_at w \<le> inv_created_at v) \<and>
           external_invoice_id v = Some x \<and> provider (att_id a) x = Inr res \<and>
           won = (obj_get res ''status'' = JStr ''paid'') \<and>
           charge = json_str (obj_get res ''latest_charge''))))"

lemma attempt_due_awaits: "attempt_due = awaits_execution"
  by (intro ext) (auto simp: attempt_due_def awaits_execution_def list_ex_iff)

lemma first_row_newest:
  assumes "first_row (order_by_desc key rows) = Some v"
  shows "v \<in> set rows" "w \<in> set rows \<Longrightarrow> key w \<le> key v"
proof -
  obtain vs where vs: "order_by_desc key rows = v # vs"
    using assms by (cases "order_by_desc key rows") (auto simp: first_row_def)
  then show "v \<in> set rows" using set_order_by_desc [of key rows] by auto
  have "sorted (map (\<lambda>r. - key r) (v # vs))"
    using vs unfolding order_by_desc_def by (metis sorted_sort_key)
  then show "w \<in> set rows \<Longrightarrow> key w \<le> key v"
    using vs set_order_by_desc [of key rows] by auto
qed

lemma attempt_outcome_collects:
  assumes "answers provider" and "awaits_execution skip now d a"
  shows "collects provider d a (fst (attempt_outcome provider d a)) (snd (attempt_outcome provider d a))"
proof -
  have "filter (\<lambda>c. camp_id c = att_campaign_id a) (dunning_campaigns d) \<noteq> []"
    using assms(2) by (auto simp: awaits_execution_def filter_empty_conv)
  then obtain c where c: "first_row (filter (\<lambda>c. camp_id c = att_campaign_id a) (dunning_campaigns d)) = Some c"
    by (auto simp: neq_Nil_conv first_row_def)
  then have m: "c \<in> set (dunning_campaigns d)" "camp_id c = att_campaign_id a"
    by (auto simp: first_row_def filter_eq_Cons_iff split: list.splits)
  let ?rows = "filter (\<lambda>v. inv_subscription_id v = Some (camp_subscription_id c) \<and>
    inv_status v = open_invoice \<and> external_invoice_id v \<noteq> None) (invoices d)"
  have set: "set ?rows = collectable d (camp_subscription_id c)" by (auto simp: collectable_def)
  show ?thesis
  proof (cases "find_open_invoice_for_subscription (camp_subscription_id c) d")
    case None
    then have "set ?rows = {}"
      using set_order_by_desc [of inv_created_at ?rows]
      unfolding find_open_invoice_for_subscription_def first_row_None by simp
    with m set None c show ?thesis by (auto simp: collects_def attempt_outcome_def)
  next
    case (Some v)
    note v = first_row_newest [OF Some [unfolded find_open_invoice_for_subscription_def]]
    from v(1) obtain x where x: "external_invoice_id v = Some x" by auto
    obtain res where res: "provider (att_id a) x = Inr res"
      using assms(1) by (auto simp: answers_def)
    have "v \<in> collectable d (camp_subscription_id c)"
      "\<forall>w \<in> collectable d (camp_subscription_id c). inv_created_at w \<le> inv_created_at v"
      using v unfolding set by blast+
    with m x res Some c show ?thesis by (auto simp: collects_def attempt_outcome_def)
  qed
qed

text \<open>
  C18: Processing due attempts. With dunning enabled and a provider that answers every call, exactly
  the attempts that were not executed, are scheduled by now, are not locked by another transaction
  and belong to an active campaign are executed: each gets the time of the run, the result
  succeeded if and only if the provider reports the newest open invoice of the subscription paid
  (failed without such an invoice), and the provider's charge id, and has its event in the outbox.
  Every other attempt, in particular of a paused, completed or exhausted campaign, stays as it is,
  and neither the ledger nor a subscription changes.
\<close>

theorem process_due_attempts_executes:
  assumes s: "ready s" and en: "dunning_enabled (settings s)" and p: "answers provider"
  shows "\<exists>t. process_due_attempts provider skip now s =
      (Inr (length (filter (awaits_execution skip now (db s)) (dunning_attempts (db s)))), t) \<and> ready t \<and>
    list_all2 (\<lambda>a b. if awaits_execution skip now (db s) a
        then \<exists>won charge. collects provider (db s) a won charge \<and>
          b = a\<lparr>executed_at := Some now,
            att_result := Some (if won then SUCCEEDED else ATTEMPT_FAILED), external_charge_id := charge\<rparr>
        else b = a) (dunning_attempts (db s)) (dunning_attempts (db t)) \<and>
    (\<forall>a \<in> set (dunning_attempts (db s)). awaits_execution skip now (db s) a \<longrightarrow>
       outbox_key_taken (attempt_event_key a) (db t)) \<and>
    ledger_entries (db t) = ledger_entries (db s) \<and> subscriptions (db t) = subscriptions (db s)"
proof -
  have n: "length (due_attempts skip now (db s)) =
      length (filter (awaits_execution skip now (db s)) (dunning_attempts (db s)))"
    by (simp add: due_attempts_def order_by_def attempt_due_awaits)
  from process_due_attempts_run [OF assms, of skip now] obtain t where
    t: "process_due_attempts provider skip now s = (Inr (length (due_attempts skip now (db s))), t)" "ready t"
    and fr: "dunning_frame (db s) (db t)"
    and at: "dunning_attempts (db t) = map (\<lambda>q. if q \<in> set (due_attempts skip now (db s))
      then executed_row now (attempt_outcome provider (db s) q) q else q) (dunning_attempts (db s))"
    and ob: "\<forall>a \<in> set (due_attempts skip now (db s)). outbox_key_taken (attempt_event_key a) (db t)"
    by auto
  have due: "set (due_attempts skip now (db s)) =
      {a \<in> set (dunning_attempts (db s)). awaits_execution skip now (db s) a}"
    by (auto simp: due_attempts_def attempt_due_awaits)
  have "list_all2 (\<lambda>a b. if awaits_execution skip now (db s) a
        then \<exists>won charge. collects provider (db s) a won charge \<and>
          b = a\<lparr>executed_at := Some now,
            att_result := Some (if won then SUCCEEDED else ATTEMPT_FAILED), external_charge_id := charge\<rparr>
        else b = a) (dunning_attempts (db s)) (dunning_attempts (db t))"
    unfolding at list.rel_map(2)
  proof (rule list.rel_refl_strong)
    fix a assume a: "a \<in> set (dunning_attempts (db s))"
    show "if awaits_execution skip now (db s) a
        then \<exists>won charge. collects provider (db s) a won charge \<and>
          (if a \<in> set (due_attempts skip now (db s))
             then executed_row now (attempt_outcome provider (db s) a) a else a) =
            a\<lparr>executed_at := Some now,
              att_result := Some (if won then SUCCEEDED else ATTEMPT_FAILED), external_charge_id := charge\<rparr>
        else (if a \<in> set (due_attempts skip now (db s))
             then executed_row now (attempt_outcome provider (db s) a) a else a) = a"
    proof (cases "awaits_execution skip now (db s) a")
      case True
      have "a \<in> set (due_attempts skip now (db s))" using a True due by simp
      then show ?thesis
        using True attempt_outcome_collects [OF p True]
        by (simp only: if_True executed_row_def) (rule exI, rule exI, erule conjI, rule refl)
    qed (use due in simp)
  qed
  moreover have "\<forall>a \<in> set (dunning_attempts (db s)). awaits_execution skip now (db s) a \<longrightarrow>
      outbox_key_taken (attempt_event_key a) (db t)"
    using ob due by blast
  ultimately show ?thesis using t fr n unfolding dunning_frame_def by (intro exI [of _ t]) simp
qed

section \<open>Witnesses\<close>

definition dunning_session :: session where
  "dunning_session = past_due_session\<lparr>settings := default_settings\<lparr>dunning_enabled := True\<rparr>\<rparr>"

lemma dunning_session_simps [simp]:
  "db dunning_session = sample_db\<lparr>subscriptions := [past_due_sub]\<rparr>"
  "dunning_enabled (settings dunning_session)"
  by (simp_all add: dunning_session_def)

lemma dunning_session_ready: "ready dunning_session"
  using past_due_ready by (simp add: ready_def sequence_ahead_def dunning_session_def)

lemma dunning_session_fresh: "fresh_ids 100 dunning_session"
  by (rule fresh_small_ids) (auto simp: used_ids_def dunning_session_def past_due_session_def sample_db_def)

theorem start_campaign_schedules_witness:
  "\<exists>c as t. start_campaign 1 1 ''evt_1:dunning'' (Some 0) dunning_session = (Inr (Some c), t) \<and>
     dunning_campaigns (db t) = [c] \<and> camp_grace_until c = Some (7 * day_us) \<and>
     dunning_attempts (db t) = as \<and> map scheduled_at as = [day_us, 3 * day_us, 7 * day_us]"
proof -
  have fr: "fresh_ids 4 dunning_session" using fresh_ids_le [OF dunning_session_fresh] by simp
  have k: "attempt_keys (db dunning_session)" by (simp add: attempt_keys_def)
  have r: "past_due_sub \<in> set (subscriptions (db dunning_session))"
    and p: "sample_plan \<in> set (plans (db dunning_session))" "plan_id sample_plan = sub_plan_id past_due_sub"
    by simp_all
  from start_campaign_schedules [OF dunning_session_ready fr k r p, of "''evt_1:dunning''" 0]
  show ?thesis by auto
qed

definition sample_campaign :: dunning_campaign where
  "sample_campaign = new_campaign past_due_sub sample_plan 1 1 ''evt_1:dunning'' 0 501 0"

text \<open>
  Two attempts of the running campaign are overdue, one of them without an answer that pays, and so
  is one of a paused campaign.
\<close>

definition paused_campaign :: dunning_campaign where
  "paused_campaign = sample_campaign\<lparr>camp_id := 502, camp_status := CAMPAIGN_PAUSED,
     camp_idempotency_key := ''evt_0:dunning''\<rparr>"

definition late_session :: session where
  "late_session = dunning_session\<lparr>db := sample_db\<lparr>subscriptions := [past_due_sub],
     dunning_campaigns := [sample_campaign, paused_campaign],
     dunning_attempts := [(new_attempt sample_campaign 2 3 512 0), (new_attempt paused_campaign 2 3 514 0),
       (new_attempt sample_campaign 3 7 513 0)],
     invoices := [\<lparr>inv_id = 1, inv_public_id = 601, inv_organization_id = 1, inv_subscription_id = Some 1,
       inv_status = open_invoice, inv_currency = ''USD'', period_start = 0, period_end = 30 * day_us,
       total_amount_cents = 2900, external_invoice_id = Some ''in_1'', synced_at = None,
       inv_idempotency_key = ''inv-1'', inv_created_at = 0, inv_updated_at = 0\<rparr>]\<rparr>\<rparr>"

definition pays_once :: payment_retry where
  "pays_once u x = Inr (if u = 512 then [(''status'', JStr ''paid''), (''latest_charge'', JStr ''ch_1'')]
                        else [(''status'', JStr ''open'')])"

lemma late_ready: "ready late_session"
proof -
  have "db_ok (db late_session)"
    using past_due_ok
    by (simp add: late_session_def integrity_defs unique_by_def List.map_filter_simps sample_campaign_def
        paused_campaign_def new_campaign_def new_attempt_def active_subscription_def)
  then show ?thesis
    by (simp add: ready_def sequence_ahead_def late_session_def dunning_session_def past_due_session_def)
qed

lemma late_simps:
  "dunning_attempts (db late_session) = [new_attempt sample_campaign 2 3 512 0,
     new_attempt paused_campaign 2 3 514 0, new_attempt sample_campaign 3 7 513 0]"
  "awaits_execution (\<lambda>_. False) 691200000000 (db late_session) (new_attempt sample_campaign 2 3 512 0)"
  "awaits_execution (\<lambda>_. False) 691200000000 (db late_session) (new_attempt sample_campaign 3 7 513 0)"
  "\<not> awaits_execution (\<lambda>_. False) 691200000000 (db late_session) (new_attempt paused_campaign 2 3 514 0)"
  by (simp_all add: late_session_def awaits_execution_def new_attempt_def sample_campaign_def
      paused_campaign_def new_campaign_def timedelta_days_def)

lemma late_collectable:
  "v \<in> collectable (db late_session) 1 \<longleftrightarrow> v = hd (invoices (db late_session))"
  by (auto simp: collectable_def late_session_def)

lemma late_collects:
  "collects pays_once (db late_session) (new_attempt sample_campaign 2 3 512 0) won charge \<longleftrightarrow>
     won \<and> charge = Some ''ch_1''"
  "collects pays_once (db late_session) (new_attempt sample_campaign 3 7 513 0) won charge \<longleftrightarrow>
     \<not> won \<and> charge = None"
proof -
  have c: "dunning_campaigns (db late_session) = [sample_campaign, paused_campaign]"
    "external_invoice_id (hd (invoices (db late_session))) = Some ''in_1''"
    by (simp_all add: late_session_def)
  have n: "collectable (db late_session) 1 \<noteq> {}" using late_collectable by blast
  have i: "camp_id sample_campaign = 501" "camp_id paused_campaign = 502" "camp_subscription_id sample_campaign = 1"
    by (simp_all add: sample_campaign_def paused_campaign_def new_campaign_def)
  show "collects pays_once (db late_session) (new_attempt sample_campaign 2 3 512 0) won charge \<longleftrightarrow>
      won \<and> charge = Some ''ch_1''"
    "collects pays_once (db late_session) (new_attempt sample_campaign 3 7 513 0) won charge \<longleftrightarrow>
      \<not> won \<and> charge = None"
    by (auto simp: collects_def c i n late_collectable Bex_def Ball_def new_attempt_def pays_once_def obj_get_def)
qed

theorem process_due_attempts_executes_witness:
  "\<exists>t. process_due_attempts pays_once (\<lambda>_. False) (8 * day_us) late_session = (Inr 2, t) \<and>
     map att_result (dunning_attempts (db t)) = [Some SUCCEEDED, None, Some ATTEMPT_FAILED] \<and>
     map external_charge_id (dunning_attempts (db t)) = [Some ''ch_1'', None, None]"
proof -
  have en: "dunning_enabled (settings late_session)" by (simp add: late_session_def)
  have an: "answers pays_once" by (simp add: answers_def pays_once_def)
  have no: "att_result (new_attempt paused_campaign 2 3 514 0) = None"
    "external_charge_id (new_attempt paused_campaign 2 3 514 0) = None" by (simp_all add: new_attempt_def)
  from process_due_attempts_executes [OF late_ready en an, of "\<lambda>_. False" "8 * day_us"]
  show ?thesis by (auto simp: late_simps late_collects list_all2_Cons1 no)
qed

end
