(* ===== verification/Webhooks.thy ===== *)
theory Webhooks
  imports Dunning Signature
begin

text \<open>
  Webhooks are stored before they are processed (\<^verbatim>\<open>services/webhooks.py\<close>); processing
  (\<^verbatim>\<open>services/webhook_processor.py\<close>) moves the subscription, posts to the ledger, enqueues events
  and starts dunning, and records its outcome in the row.
\<close>

section \<open>Text of JSON values\<close>

text \<open>
  \<^verbatim>\<open>str(v)\<close> of a decoded JSON value: text is itself, other values are written as Python writes
  them (\<^verbatim>\<open>repr\<close> inside containers). A number that is not an integer keeps its numeral.
\<close>

definition repr_char :: "char \<Rightarrow> char \<Rightarrow> string" where
  "repr_char q c =
     (if c = q \<or> c = CHR 0x5C then [CHR 0x5C, c]
      else if c = CHR 0x0A then [CHR 0x5C, CHR ''n'']
      else if c = CHR 0x0D then [CHR 0x5C, CHR ''r'']
      else if c = CHR 0x09 then [CHR 0x5C, CHR ''t'']
      else if (of_char c :: nat) < 32 \<or> (127 \<le> (of_char c :: nat) \<and> (of_char c :: nat) < 161) \<or> c = CHR 0xAD
      then [CHR 0x5C, CHR ''x''] @ hex_pad 2 (of_char c)
      else [c])"

definition repr_str :: "string \<Rightarrow> string" where
  "repr_str s =
     (let q = (if CHR 0x27 \<in> set s \<and> CHR 0x22 \<notin> set s then CHR 0x22 else CHR 0x27)
      in [q] @ concat (map (repr_char q) s) @ [q])"

fun join :: "string \<Rightarrow> string list \<Rightarrow> string" where
  "join sep [] = []"
| "join sep [x] = x"
| "join sep (x # y # xs) = x @ sep @ join sep (y # xs)"

primrec py_repr :: "json \<Rightarrow> string" where
  "py_repr JNull = ''None''"
| "py_repr (JBool b) = (if b then ''True'' else ''False'')"
| "py_repr (JInt i) = str_int i"
| "py_repr (JFloat n) = n"
| "py_repr (JStr s) = repr_str s"
| "py_repr (JList vs) = ''['' @ join '', '' (map py_repr vs) @ '']''"
| "py_repr (JObj kvs) =
     ''{'' @ join '', '' (map (\<lambda>(k, r). repr_str k @ '': '' @ r) (map (map_prod id py_repr) kvs)) @ ''}''"

definition py_str :: "json \<Rightarrow> string" where
  "py_str v = (case v of JStr s \<Rightarrow> s | _ \<Rightarrow> py_repr v)"

section \<open>Storing\<close>

definition provider_event_taken :: "string \<Rightarrow> database \<Rightarrow> bool" where
  "provider_event_taken e d = refers provider_event_id e (webhook_events d)"

definition persist_webhook ::
  "string \<Rightarrow> string \<Rightarrow> json_object \<Rightarrow> string \<Rightarrow> webhook_event option op" where
  "persist_webhook event_id event_type payload provider =
     bindE new_uuid (\<lambda>u. bindE (getE tx_now) (\<lambda>t.
     let w = \<lparr>wh_id = u, wh_provider = provider, provider_event_id = event_id,
              wh_event_type = event_type, wh_payload = payload, wh_status = RECEIVED,
              processing_attempts = 0, wh_last_error = None, received_at = t, processed_at = None\<rparr>
     in bindE (insert_or_ignore (provider_event_taken event_id) (webhook_event_ok w) (add_webhook_event w))
          (\<lambda>inserted. returnE (if inserted then Some w else None))))"

section \<open>Processing\<close>

definition TERMINAL_STATUSES :: "webhook_status list" where
  "TERMINAL_STATUSES = [PROCESSED, SKIPPED, FAILED]"

definition find_webhook :: "uuid \<Rightarrow> webhook_event option op" where
  "find_webhook u =
     bindE (query (\<lambda>d. filter (\<lambda>w. wh_id w = u) (webhook_events d))) scalar_one_or_none"

definition set_webhook :: "uuid \<Rightarrow> (webhook_event \<Rightarrow> webhook_event) \<Rightarrow> unit op" where
  "set_webhook u f = update_db (upd_webhook_event u f)"

definition extract_data_object :: "json_object \<Rightarrow> json_object op" where
  "extract_data_object payload =
     (case obj_get payload ''data'' of
        JObj data \<Rightarrow>
          (case obj_get data ''object'' of
             JObj ob \<Rightarrow> returnE ob
           | _ \<Rightarrow> raiseE WebhookProcessingError ''payload missing data.object'')
      | _ \<Rightarrow> raiseE WebhookProcessingError ''payload missing data object'')"

definition find_subscription_by_external_id :: "string \<Rightarrow> subscription op" where
  "find_subscription_by_external_id x =
     bindE (bindE (query (\<lambda>d. filter (\<lambda>r. external_subscription_id r = Some x) (subscriptions d)))
              scalar_one_or_none) (\<lambda>found.
     case found of
       None \<Rightarrow> raiseE WebhookProcessingError (''subscription not found for external id '' @ x)
     | Some r \<Rightarrow> returnE r)"

definition past_due_fields :: "subscription_status \<Rightarrow> instant \<Rightarrow> subscription \<Rightarrow> subscription" where
  "past_due_fields new now r =
     (if new = past_due then r\<lparr>past_due_entered_at := Some now\<rparr>
      else if new = active then r\<lparr>past_due_entered_at := None\<rparr>
      else r)"

definition transition_subscription :: "int \<Rightarrow> subscription_status \<Rightarrow> unit op" where
  "transition_subscription i new =
     bindE (load_subscription i) (\<lambda>r.
     bindE (liftE (case transition (sub_status r) new of
              Inl e \<Rightarrow> Inl (Exc WebhookProcessingError (str_exc e)) | Inr x \<Rightarrow> Inr x)) (\<lambda>_.
     bindE now_utc (\<lambda>now. move_subscription i new (past_due_fields new now))))"

definition load_plan :: "uuid \<Rightarrow> plan op" where
  "load_plan pid =
     bindE (find_plan pid) (\<lambda>found.
     case found of None \<Rightarrow> raiseE WebhookProcessingError (''plan '' @ uuid_str pid @ '' not found'')
     | Some p \<Rightarrow> returnE p)"

definition external_subscription_of :: "string \<Rightarrow> json_object \<Rightarrow> string op" where
  "external_subscription_of event ob =
     (case obj_get ob ''subscription'' of
        JStr x \<Rightarrow> if x = [] then raiseE WebhookProcessingError (event @ '' missing subscription id'')
                 else returnE x
      | _ \<Rightarrow> raiseE WebhookProcessingError (event @ '' missing subscription id''))"

definition webhook_key :: "webhook_event \<Rightarrow> string" where
  "webhook_key w = ''webhook:'' @ uuid_str (wh_id w)"

definition invoice_text_id :: "json_object \<Rightarrow> string" where
  "invoice_text_id ob = (case map_of ob ''id'' of None \<Rightarrow> [] | Some v \<Rightarrow> py_str v)"

definition paid_amount :: "json_object \<Rightarrow> int" where
  "paid_amount ob = (case json_int (obj_get ob ''amount_paid'') of None \<Rightarrow> 0 | Some i \<Rightarrow> i)"

definition paid_currency :: "json_object \<Rightarrow> string" where
  "paid_currency ob = (case obj_get ob ''currency'' of JStr c \<Rightarrow> upper c | _ \<Rightarrow> ''USD'')"

definition handle_invoice_paid :: "webhook_event \<Rightarrow> int set op" where
  "handle_invoice_paid w =
     bindE (extract_data_object (wh_payload w)) (\<lambda>ob.
     bindE (external_subscription_of ''invoice.paid'' ob) (\<lambda>x.
     bindE (find_subscription_by_external_id x) (\<lambda>r.
     thenE (transition_subscription (sub_id r) active)
     (bindE (organization_public_id (sub_organization_id r)) (\<lambda>org_public.
     thenE (enqueue_outbox ''subscription'' (uuid_str (sub_public_id r)) ''subscription.activated''
              [(''subscription_public_id'', JStr (uuid_str (sub_public_id r))),
               (''organization_public_id'', JStr (uuid_str org_public)),
               (''webhook_id'', JStr (uuid_str (wh_id w)))]
              (webhook_key w @ '':subscription.activated'') (str_int (sub_organization_id r)))
     (thenE (post_entry (sub_organization_id r) invoice_paid (paid_amount ob) (paid_currency ob)
              (webhook_key w @ '':ledger:invoice_paid'') (uuid_str (wh_id w)) (Some (sub_id r)) None None
              [(''invoice_external_id'', JStr (invoice_text_id ob)),
               (''subscription_public_id'', JStr (uuid_str (sub_public_id r))),
               (''webhook_id'', JStr (uuid_str (wh_id w)))])
     (returnE {sub_organization_id r})))))))"

definition keep_int :: "json \<Rightarrow> json" where
  "keep_int v = (case json_int v of None \<Rightarrow> JNull | Some _ \<Rightarrow> v)"

definition keep_str :: "json \<Rightarrow> json" where
  "keep_str v = (case v of JStr _ \<Rightarrow> v | _ \<Rightarrow> JNull)"

definition handle_invoice_payment_failed :: "webhook_event \<Rightarrow> int set op" where
  "handle_invoice_payment_failed w =
     bindE (extract_data_object (wh_payload w)) (\<lambda>ob.
     bindE (external_subscription_of ''invoice.payment_failed'' ob) (\<lambda>x.
     bindE (find_subscription_by_external_id x) (\<lambda>r.
     thenE (transition_subscription (sub_id r) past_due)
     (bindE (load_plan (sub_plan_id r)) (\<lambda>p.
     bindE (load_subscription (sub_id r)) (\<lambda>q.
     let grace_until = map_option (\<lambda>e. compute_grace_until e (grace_period_days p)) (past_due_entered_at q) in
     bindE (organization_public_id (sub_organization_id r)) (\<lambda>org_public.
     thenE (enqueue_outbox ''subscription'' (uuid_str (sub_public_id r)) ''subscription.payment_failed''
              [(''subscription_public_id'', JStr (uuid_str (sub_public_id r))),
               (''organization_public_id'', JStr (uuid_str org_public)),
               (''webhook_id'', JStr (uuid_str (wh_id w))),
               (''attempt_count'', keep_int (obj_get ob ''attempt_count'')),
               (''next_retry'', keep_str (obj_get ob ''next_payment_attempt''))]
              (webhook_key w @ '':subscription.payment_failed'') (str_int (sub_organization_id r)))
     (thenE (enqueue_outbox ''subscription'' (uuid_str (sub_public_id r)) ''subscription.past_due''
              [(''subscription_public_id'', JStr (uuid_str (sub_public_id r))),
               (''organization_public_id'', JStr (uuid_str org_public)),
               (''webhook_id'', JStr (uuid_str (wh_id w))),
               (''grace_until'', opt_str (map_option iso_z grace_until))]
              (webhook_key w @ '':subscription.past_due'') (str_int (sub_organization_id r)))
     (bindE (getE (\<lambda>s. dunning_enabled (settings s))) (\<lambda>enabled.
     thenE (if enabled
            then thenE (start_campaign (sub_id r) (sub_organization_id r)
                    (webhook_key w @ '':dunning_campaign'') None) (returnE ())
            else returnE ())
       (returnE {sub_organization_id r})))))))))))"

definition dispatch_event :: "webhook_event \<Rightarrow> int set op" where
  "dispatch_event w =
     (if wh_event_type w = ''invoice.paid'' then handle_invoice_paid w
      else if wh_event_type w = ''invoice.payment_failed'' then handle_invoice_payment_failed w
      else thenE (set_webhook (wh_id w) (\<lambda>w. w\<lparr>wh_status := SKIPPED\<rparr>)) (returnE {}))"

text \<open>
  The second \<^verbatim>\<open>except\<close> clause catches every exception, so both do the same. What happens after the
  handler is \<open>finish_webhook\<close>; an exception raised there is not caught.
\<close>

definition finish_webhook :: "webhook_event \<Rightarrow> py_error + int set \<Rightarrow> int set op" where
  "finish_webhook w outcome =
     (case outcome of
        Inl e \<Rightarrow>
          thenE (set_webhook (wh_id w) (\<lambda>w. w\<lparr>wh_status := FAILED, wh_last_error := Some (str_exc e)\<rparr>))
          (thenE flush (returnE {}))
      | Inr orgs \<Rightarrow>
          bindE (query (\<lambda>d. map wh_status (filter (\<lambda>q. wh_id q = wh_id w) (webhook_events d)))) (\<lambda>sts.
          if sts = [SKIPPED] then thenE flush (returnE {})
          else
            bindE now_utc (\<lambda>now.
            thenE (set_webhook (wh_id w) (\<lambda>w. w\<lparr>wh_status := PROCESSED, processed_at := Some now\<rparr>))
            (thenE flush (returnE orgs)))))"

definition process_webhook :: "uuid \<Rightarrow> int set op" where
  "process_webhook u =
     bindE (find_webhook u) (\<lambda>found.
     case found of None \<Rightarrow> returnE {}
     | Some w \<Rightarrow>
         if wh_status w \<in> set TERMINAL_STATUSES then returnE {}
         else
           thenE (set_webhook u (\<lambda>w. w\<lparr>wh_status := PROCESSING, processing_attempts := processing_attempts w + 1\<rparr>))
           (bindE (catchE (bindE (dispatch_event w) (\<lambda>orgs. returnE (Inr orgs))) (\<lambda>e. returnE (Inl e)))
             (finish_webhook w)))"

section \<open>Replaying\<close>

datatype replay_outcome = replayed | already_processed

record webhook_replay_result =
  replay_webhook_id :: uuid
  replay_outcome :: replay_outcome
  replay_status :: webhook_status
  orgs_to_invalidate :: "int set"

definition replay_webhook :: "uuid \<Rightarrow> webhook_replay_result op" where
  "replay_webhook u =
     bindE (find_webhook u) (\<lambda>found.
     case found of None \<Rightarrow> raiseE WebhookNotFoundError (uuid_str u)
     | Some w \<Rightarrow>
         if wh_status w = PROCESSED \<or> wh_status w = SKIPPED
         then returnE \<lparr>replay_webhook_id = wh_id w, replay_outcome = already_processed,
                       replay_status = wh_status w, orgs_to_invalidate = {}\<rparr>
         else
           thenE (if wh_status w = FAILED \<or> wh_status w = PROCESSING
                  then thenE (set_webhook u (\<lambda>w. w\<lparr>wh_status := RECEIVED, wh_last_error := None\<rparr>)) flush
                  else returnE ())
           (bindE (process_webhook (wh_id w)) (\<lambda>orgs.
           bindE (bindE (query (\<lambda>d. filter (\<lambda>q. wh_id q = u) (webhook_events d))) scalar_one) (\<lambda>q.
           returnE \<lparr>replay_webhook_id = wh_id q, replay_outcome = replayed, replay_status = wh_status q,
                    orgs_to_invalidate = orgs\<rparr>))))"

section \<open>Write footprint\<close>

definition webhook_update :: "(webhook_event \<Rightarrow> webhook_event) \<Rightarrow> bool" where
  "webhook_update f \<longleftrightarrow> (\<forall>w. wh_id (f w) = wh_id w \<and> provider_event_id (f w) = provider_event_id w)"

locale webhook_client = dunning_client +
  assumes webhook_insert: "webhook_event_ok w d \<Longrightarrow> fresh provider_event_id w (webhook_events d) \<Longrightarrow>
      D d (add_webhook_event w d)"
    and webhook_status: "webhook_update h \<Longrightarrow> D d (upd_webhook_event u h d)"
begin

lemma persist_webhook: "keeps_db D (persist_webhook e et p pr)"
  unfolding persist_webhook_def
  by (intro primitives webhook_insert)
    (auto simp: provider_event_taken_def refers_def list_ex_iff fresh_iff)

lemma set_webhook: "webhook_update f \<Longrightarrow> keeps_db D (set_webhook u f)"
  unfolding set_webhook_def by (intro primitives webhook_status)

lemma find_webhook: "keeps_db D (find_webhook u)"
  unfolding find_webhook_def by (intro primitives)

lemma extract_data_object: "keeps_db D (extract_data_object p)"
  unfolding extract_data_object_def by (auto intro: primitives split: json.split)

lemma external_subscription_of: "keeps_db D (external_subscription_of ev ob)"
  unfolding external_subscription_of_def by (auto intro: primitives split: json.split)

lemma find_subscription_by_external_id: "keeps_db D (find_subscription_by_external_id x)"
  unfolding find_subscription_by_external_id_def by (intro primitives)

lemma transition_subscription: "keeps_db D (transition_subscription i new)"
  unfolding transition_subscription_def
  by (intro primitives load_subscription move_subscription)
    (simp add: subscription_update_def same_identity_def past_due_fields_def)

lemma load_plan: "keeps_db D (load_plan pid)"
  unfolding load_plan_def by (intro primitives find_plan)

lemma handle_invoice_paid: "keeps_db D (handle_invoice_paid w)"
  unfolding handle_invoice_paid_def
  by (intro primitives extract_data_object external_subscription_of find_subscription_by_external_id
      transition_subscription organization_public_id enqueue_outbox post_entry)

lemma handle_invoice_payment_failed: "keeps_db D (handle_invoice_payment_failed w)"
  unfolding handle_invoice_payment_failed_def
  by (intro primitives extract_data_object external_subscription_of find_subscription_by_external_id
      transition_subscription load_plan load_subscription organization_public_id enqueue_outbox
      start_campaign)

lemma dispatch_event: "keeps_db D (dispatch_event w)"
  unfolding dispatch_event_def
  by (intro primitives handle_invoice_paid handle_invoice_payment_failed set_webhook)
    (simp add: webhook_update_def)

lemma finish_webhook: "keeps_db D (finish_webhook w outcome)"
  unfolding finish_webhook_def
  by (intro primitives set_webhook) (simp_all add: webhook_update_def)

lemma process_webhook: "keeps_db D (process_webhook u)"
  unfolding process_webhook_def
  by (intro primitives find_webhook set_webhook dispatch_event finish_webhook) (simp add: webhook_update_def)

lemma replay_webhook: "keeps_db D (replay_webhook u)"
  unfolding replay_webhook_def
  by (intro primitives find_webhook set_webhook process_webhook) (simp add: webhook_update_def)

end

interpretation webhook_log: webhook_client ledger_extends
  by unfold_locales (auto simp: ledger_extends_def write_defs)

interpretation webhook_lifecycle: webhook_client lifecycle_kept
  by unfold_locales (auto simp: write_defs intro: lifecycle_kept_same)

lemma db_ok_add_webhook_event:
  assumes "db_ok d" "webhook_event_ok w d" "fresh provider_event_id w (webhook_events d)"
  shows "db_ok (add_webhook_event w d)"
  using assms by (simp add: integrity_defs add_webhook_event_def webhook_event_ok_def unique_key_snoc)

lemma db_ok_upd_webhook_event:
  assumes "db_ok d" "webhook_update f"
  shows "db_ok (upd_webhook_event u f d)"
  using assms by (simp add: integrity_defs upd_webhook_event_def unique_update_rows webhook_update_def)

interpretation webhook_integrity: webhook_client stays_ok
  by unfold_locales (blast intro: stays_okI db_ok_add_webhook_event db_ok_upd_webhook_event)+

section \<open>Evaluation\<close>

lemma find_webhook_run:
  assumes "\<not> tx_failed s" "db_ok (db s)" "w \<in> set (webhook_events (db s))"
  shows "find_webhook (wh_id w) s = (Inr (Some w), s)"
  using assms unique_key_filter [OF keys_uniqueD(10) [OF assms(2)] assms(3)]
  by (simp add: find_webhook_def)

definition marked :: "webhook_event \<Rightarrow> session \<Rightarrow> session" where
  "marked w s = s\<lparr>db := upd_webhook_event (wh_id w)
     (\<lambda>w. w\<lparr>wh_status := PROCESSING, processing_attempts := processing_attempts w + 1\<rparr>) (db s)\<rparr>"

lemma upd_webhook_event_frame [simp]:
  "subscriptions (upd_webhook_event u f d) = subscriptions d"
  "organizations (upd_webhook_event u f d) = organizations d"
  "ledger_entries (upd_webhook_event u f d) = ledger_entries d"
  "outbox_messages (upd_webhook_event u f d) = outbox_messages d"
  "plans (upd_webhook_event u f d) = plans d" "invoices (upd_webhook_event u f d) = invoices d"
  "dunning_campaigns (upd_webhook_event u f d) = dunning_campaigns d"
  "dunning_attempts (upd_webhook_event u f d) = dunning_attempts d"
  by (simp_all add: upd_webhook_event_def)

lemma ready_upd_webhook_event:
  assumes "ready s" "webhook_update f"
  shows "ready (s\<lparr>db := upd_webhook_event u f (db s)\<rparr>)"
  using assms(1) db_ok_upd_webhook_event [OF readyD(2) [OF assms(1)] assms(2)]
  by (simp add: ready_def sequence_ahead_def)

lemma used_ids_upd_webhook_event:
  assumes "webhook_update f"
  shows "used_ids (upd_webhook_event u f d) = used_ids d"
proof -
  have "wh_id ` set (webhook_events (upd_webhook_event u f d)) = wh_id ` set (webhook_events d)"
    using assms by (simp add: upd_webhook_event_def image_update_rows webhook_update_def)
  then show ?thesis by (simp add: used_ids_def upd_webhook_event_def)
qed

lemma marking: "webhook_update (\<lambda>w. w\<lparr>wh_status := st, processing_attempts := processing_attempts w + k\<rparr>)"
  "webhook_update (\<lambda>w. w\<lparr>wh_status := st, wh_last_error := le\<rparr>)"
  "webhook_update (\<lambda>w. w\<lparr>wh_status := st, processed_at := pa\<rparr>)"
  by (simp_all add: webhook_update_def)

lemma marked_ready: "ready s \<Longrightarrow> ready (marked w s)"
  unfolding marked_def by (rule ready_upd_webhook_event) (simp_all add: marking)

lemma marked_simps [simp]:
  "subscriptions (db (marked w s)) = subscriptions (db s)"
  "organizations (db (marked w s)) = organizations (db s)"
  "ledger_entries (db (marked w s)) = ledger_entries (db s)"
  "outbox_messages (db (marked w s)) = outbox_messages (db s)" "plans (db (marked w s)) = plans (db s)"
  "clock (marked w s) = clock s" "clock_pos (marked w s) = clock_pos s" "tx_now (marked w s) = tx_now s"
  "tx_failed (marked w s) = tx_failed s"
  by (simp_all add: marked_def)

lemma process_webhook_run:
  assumes s: "ready s" and w: "w \<in> set (webhook_events (db s))" and st: "wh_status w \<notin> set TERMINAL_STATUSES"
  shows "process_webhook (wh_id w) s =
    bindE (catchE (bindE (dispatch_event w) (\<lambda>orgs. returnE (Inr orgs))) (\<lambda>e. returnE (Inl e)))
      (finish_webhook w) (marked w s)"
  using find_webhook_run [OF readyD(1,2) [OF s] w] st
  by (simp add: process_webhook_def set_webhook_def marked_def)

section \<open>Properties\<close>

text \<open>
  A webhook is processed once. A row whose status is processed, skipped or failed is left
  alone: the call returns no organization and changes nothing, so a second delivery of an event
  has no effect.
\<close>

theorem process_webhook_terminal:
  assumes "\<not> tx_failed s" "db_ok (db s)" "w \<in> set (webhook_events (db s))"
    and "wh_status w \<in> {PROCESSED, SKIPPED, FAILED}"
  shows "process_webhook (wh_id w) s = (Inr {}, s)"
  using find_webhook_run [OF assms(1-3)] assms(4)
  by (auto simp: process_webhook_def TERMINAL_STATUSES_def)

lemma catch_dispatch_Inl:
  "dispatch_event w s = (Inl e, u) \<Longrightarrow>
   catchE (bindE (dispatch_event w) (\<lambda>orgs. returnE (Inr orgs))) (\<lambda>e. returnE (Inl e)) s = (Inr (Inl e), u)"
  by simp

text \<open>
  The poison guard: an exception of the handler that leaves the transaction usable fails the row
  with its text, on top of whatever the handler had already written. If the handler's exception
  left the transaction failed, writing the row raises in turn and nothing is recorded.
\<close>

lemma process_webhook_guard:
  assumes s: "ready s" and w: "w \<in> set (webhook_events (db s))"
    and st: "wh_status w \<in> {RECEIVED, PROCESSING}" and h: "dispatch_event w (marked w s) = (Inl e, u)"
  shows "\<not> tx_failed u \<Longrightarrow> process_webhook (wh_id w) s = (Inr {}, u\<lparr>db := upd_webhook_event (wh_id w)
      (\<lambda>w. w\<lparr>wh_status := FAILED, wh_last_error := Some (str_exc e)\<rparr>) (db u)\<rparr>)"
    and "tx_failed u \<Longrightarrow> \<exists>e' t. process_webhook (wh_id w) s = (Inl e', t) \<and> tx_failed t \<and> committed t = committed u"
proof -
  have "wh_status w \<notin> set TERMINAL_STATUSES" using st by (auto simp: TERMINAL_STATUSES_def)
  note run = process_webhook_run [OF s w this] catch_dispatch_Inl [OF h]
  from run show "\<not> tx_failed u \<Longrightarrow> process_webhook (wh_id w) s = (Inr {}, u\<lparr>db := upd_webhook_event (wh_id w)
      (\<lambda>w. w\<lparr>wh_status := FAILED, wh_last_error := Some (str_exc e)\<rparr>) (db u)\<rparr>)"
    by (simp add: finish_webhook_def set_webhook_def)
  from run show "tx_failed u \<Longrightarrow> \<exists>e' t. process_webhook (wh_id w) s = (Inl e', t) \<and> tx_failed t \<and> committed t = committed u"
    by (simp add: finish_webhook_def set_webhook_def flush_def thenE_def)
qed

lemma extract_data_object_run:
  assumes "obj_get p ''data'' = JObj data" "obj_get data ''object'' = JObj ob"
  shows "extract_data_object p s = (Inr ob, s)"
  using assms by (simp add: extract_data_object_def)

lemma find_subscription_by_external_id_run:
  assumes "\<not> tx_failed s" "db_ok (db s)" "r \<in> set (subscriptions (db s))"
    and "external_subscription_id r = Some x"
  shows "find_subscription_by_external_id x s = (Inr r, s)"
  using assms unique_by_lookup [OF keys_uniqueD(4) [OF assms(2)] assms(3,4)]
  by (simp add: find_subscription_by_external_id_def)

lemma transition_subscription_illegal:
  assumes "\<not> tx_failed s" "db_ok (db s)" "r \<in> set (subscriptions (db s))"
    and "new \<notin> set (ALLOWED_TRANSITIONS (sub_status r))"
  shows "transition_subscription (sub_id r) new s =
    (Inl (Exc WebhookProcessingError (illegal_transition_msg (sub_status r) new)), s)"
proof -
  have "transition (sub_status r) new = Inl (Exc IllegalTransition (illegal_transition_msg (sub_status r) new))"
    using assms(4) by (simp add: transition_Inl)
  then show ?thesis
    using load_subscription_run [OF assms(1-3)] by (simp add: transition_subscription_def)
qed

text \<open>The webhook names the subscription \<open>r\<close> in its payload's \<^verbatim>\<open>data.object\<close>.\<close>

definition about_subscription :: "webhook_event \<Rightarrow> json_object \<Rightarrow> subscription \<Rightarrow> bool" where
  "about_subscription w ob r \<longleftrightarrow>
     (\<exists>data x. obj_get (wh_payload w) ''data'' = JObj data \<and> obj_get data ''object'' = JObj ob \<and>
        obj_get ob ''subscription'' = JStr x \<and> x \<noteq> [] \<and> external_subscription_id r = Some x)"

lemma about_subscription_run:
  assumes "about_subscription w ob r" "\<not> tx_failed s" "db_ok (db s)" "r \<in> set (subscriptions (db s))"
  shows "bindE (extract_data_object (wh_payload w)) (\<lambda>ob.
      bindE (external_subscription_of ev ob) (\<lambda>x. bindE (find_subscription_by_external_id x) (f ob))) s = f ob r s"
proof -
  from assms(1) obtain data x where "obj_get (wh_payload w) ''data'' = JObj data"
    "obj_get data ''object'' = JObj ob" and x: "obj_get ob ''subscription'' = JStr x" "x \<noteq> []"
    "external_subscription_id r = Some x" by (auto simp: about_subscription_def)
  from extract_data_object_run [OF this(1,2)] find_subscription_by_external_id_run [OF assms(2-4) x(3)] x
  show ?thesis by (simp add: external_subscription_of_def)
qed

text \<open>
  Why an event about an invoice cannot be applied, with the text that is kept: its payload names no
  subscription, or one that is not known, or one whose status the event does not lead out of.
\<close>

inductive unusable :: "database \<Rightarrow> webhook_event \<Rightarrow> string \<Rightarrow> bool" for d w where
  no_data: "(\<And>data. obj_get (wh_payload w) ''data'' \<noteq> JObj data) \<Longrightarrow>
    unusable d w ''payload missing data object''"
| no_object: "\<lbrakk>obj_get (wh_payload w) ''data'' = JObj data; \<And>ob. obj_get data ''object'' \<noteq> JObj ob\<rbrakk> \<Longrightarrow>
    unusable d w ''payload missing data.object''"
| no_subscription: "\<lbrakk>obj_get (wh_payload w) ''data'' = JObj data; obj_get data ''object'' = JObj ob;
    \<And>x. obj_get ob ''subscription'' = JStr x \<Longrightarrow> x = []\<rbrakk> \<Longrightarrow>
    unusable d w (wh_event_type w @ '' missing subscription id'')"
| unknown: "\<lbrakk>obj_get (wh_payload w) ''data'' = JObj data; obj_get data ''object'' = JObj ob;
    obj_get ob ''subscription'' = JStr x; x \<noteq> []; \<And>r. r \<in> set (subscriptions d) \<Longrightarrow> external_subscription_id r \<noteq> Some x\<rbrakk> \<Longrightarrow>
    unusable d w (''subscription not found for external id '' @ x)"
| paid_twice: "\<lbrakk>wh_event_type w = ''invoice.paid''; about_subscription w ob r; r \<in> set (subscriptions d);
    sub_status r \<in> {active, canceled, unpaid}\<rbrakk> \<Longrightarrow>
    unusable d w (''illegal transition: '' @ subscription_status_value (sub_status r) @ '' -> active'')"
| not_active: "\<lbrakk>wh_event_type w = ''invoice.payment_failed''; about_subscription w ob r; r \<in> set (subscriptions d);
    sub_status r \<noteq> active\<rbrakk> \<Longrightarrow>
    unusable d w (''illegal transition: '' @ subscription_status_value (sub_status r) @ '' -> past_due'')"

lemma extract_data_object_raises:
  "(\<And>data. obj_get p ''data'' \<noteq> JObj data) \<Longrightarrow>
    extract_data_object p s = (Inl (Exc WebhookProcessingError ''payload missing data object''), s)"
  "\<lbrakk>obj_get p ''data'' = JObj data; \<And>ob. obj_get data ''object'' \<noteq> JObj ob\<rbrakk> \<Longrightarrow>
    extract_data_object p s = (Inl (Exc WebhookProcessingError ''payload missing data.object''), s)"
  by (simp_all add: extract_data_object_def split: json.split)

lemma external_subscription_of_raises:
  "(\<And>x. obj_get ob ''subscription'' = JStr x \<Longrightarrow> x = []) \<Longrightarrow> external_subscription_of event ob s =
    (Inl (Exc WebhookProcessingError (event @ '' missing subscription id'')), s)"
  by (simp add: external_subscription_of_def split: json.split)

lemma find_subscription_by_external_id_raises:
  assumes "\<not> tx_failed s" "\<And>r. r \<in> set (subscriptions (db s)) \<Longrightarrow> external_subscription_id r \<noteq> Some x"
  shows "find_subscription_by_external_id x s =
    (Inl (Exc WebhookProcessingError (''subscription not found for external id '' @ x)), s)"
proof -
  have "filter (\<lambda>r. external_subscription_id r = Some x) (subscriptions (db s)) = []"
    using assms(2) by (simp add: filter_empty_conv)
  then show ?thesis using assms(1) by (simp add: find_subscription_by_external_id_def)
qed

lemma unusable_dispatch:
  assumes u: "unusable (db s) w reason" and s: "\<not> tx_failed s" "db_ok (db s)"
    and ty: "wh_event_type w \<in> {''invoice.paid'', ''invoice.payment_failed''}"
  shows "dispatch_event w s = (Inl (Exc WebhookProcessingError reason), s)"
proof -
  note defs = dispatch_event_def handle_invoice_paid_def handle_invoice_payment_failed_def
  from u show ?thesis
  proof cases
    case no_data
    then show ?thesis using ty extract_data_object_raises(1) [of "wh_payload w" s] by (auto simp: defs)
  next
    case no_object
    then show ?thesis using ty extract_data_object_raises(2) [of "wh_payload w" _ s] by (auto simp: defs)
  next
    case (no_subscription data ob)
    from no_subscription(4) have "external_subscription_of ev ob s =
        (Inl (Exc WebhookProcessingError (ev @ '' missing subscription id'')), s)" for ev
      by (rule external_subscription_of_raises)
    then show ?thesis using ty no_subscription(1) extract_data_object_run [OF no_subscription(2) no_subscription(3)]
      by (auto simp: defs)
  next
    case (unknown data ob x)
    have "external_subscription_of ev ob s = (Inr x, s)" for ev
      using unknown by (simp add: external_subscription_of_def)
    moreover have "find_subscription_by_external_id x s =
        (Inl (Exc WebhookProcessingError (''subscription not found for external id '' @ x)), s)"
      using s(1) unknown by (intro find_subscription_by_external_id_raises) auto
    ultimately show ?thesis using ty unknown(1) extract_data_object_run [OF unknown(2,3)] by (auto simp: defs)
  next
    case (paid_twice ob r)
    have "active \<notin> set (ALLOWED_TRANSITIONS (sub_status r))" using paid_twice(5) by auto
    from transition_subscription_illegal [OF s paid_twice(4) this]
    have "handle_invoice_paid w s = (Inl (Exc WebhookProcessingError (illegal_transition_msg (sub_status r) active)), s)"
      unfolding handle_invoice_paid_def about_subscription_run [OF paid_twice(3) s paid_twice(4)] by simp
    then show ?thesis using paid_twice(1,2) by (simp add: dispatch_event_def illegal_transition_msg_def)
  next
    case (not_active ob r)
    have "past_due \<notin> set (ALLOWED_TRANSITIONS (sub_status r))" using not_active(5) by (cases "sub_status r") auto
    from transition_subscription_illegal [OF s not_active(4) this]
    have "handle_invoice_payment_failed w s = (Inl (Exc WebhookProcessingError (illegal_transition_msg (sub_status r) past_due)), s)"
      unfolding handle_invoice_payment_failed_def about_subscription_run [OF not_active(3) s not_active(4)] by simp
    then show ?thesis using not_active(1,2) by (simp add: dispatch_event_def illegal_transition_msg_def)
  qed
qed

text \<open>
  C20: An event that cannot be applied is put aside. If an invoice event waits for processing and
  its payload has no object, names no subscription or an unknown one, or the subscription's status
  does not allow the step (a payment for an active, canceled or unpaid subscription, a failure for
  one that is not active), then processing returns normally with no organization to invalidate. The
  whole effect on the database is that this event's row becomes failed, with one attempt more and
  the reason as its error; processing it again changes nothing.
\<close>

theorem process_webhook_sets_aside:
  assumes s: "ready s" and w: "w \<in> set (webhook_events (db s))" and st: "wh_status w \<in> {RECEIVED, PROCESSING}"
    and ty: "wh_event_type w \<in> {''invoice.paid'', ''invoice.payment_failed''}" and un: "unusable (db s) w reason"
  shows "\<exists>t. process_webhook (wh_id w) s = (Inr {}, t) \<and>
    t = s\<lparr>db := (db s)\<lparr>webhook_events := map (\<lambda>q. if wh_id q = wh_id w
      then q\<lparr>wh_status := FAILED, processing_attempts := processing_attempts q + 1, wh_last_error := Some reason\<rparr>
      else q) (webhook_events (db s))\<rparr>\<rparr> \<and>
    process_webhook (wh_id w) t = (Inr {}, t)"
proof -
  let ?m = "marked w s"
  have m: "\<not> tx_failed ?m" "db_ok (db ?m)" using marked_ready [OF s] by (simp_all add: ready_def)
  have "unusable (db ?m) w reason" using un by (auto elim!: unusable.cases intro: unusable.intros)
  from unusable_dispatch [OF this m ty]
  have h: "dispatch_event w ?m = (Inl (Exc WebhookProcessingError reason), ?m)" .
  let ?t = "?m\<lparr>db := upd_webhook_event (wh_id w)
    (\<lambda>w. w\<lparr>wh_status := FAILED, wh_last_error := Some reason\<rparr>) (db ?m)\<rparr>"
  have run: "process_webhook (wh_id w) s = (Inr {}, ?t)"
    using process_webhook_guard(1) [OF s w st h m(1)] by simp
  have t: "?t = s\<lparr>db := (db s)\<lparr>webhook_events := map (\<lambda>q. if wh_id q = wh_id w
      then q\<lparr>wh_status := FAILED, processing_attempts := processing_attempts q + 1, wh_last_error := Some reason\<rparr>
      else q) (webhook_events (db s))\<rparr>\<rparr>"
    by (simp add: marked_def upd_webhook_event_def update_rows_def)
  let ?w = "w\<lparr>wh_status := FAILED, processing_attempts := processing_attempts w + 1, wh_last_error := Some reason\<rparr>"
  have "ready ?t" using ready_upd_webhook_event [OF marked_ready [OF s] marking(2)] .
  moreover have "?w \<in> set (webhook_events (db ?t))" using w unfolding t by (auto intro!: image_eqI [of _ _ w])
  ultimately have "process_webhook (wh_id ?w) ?t = (Inr {}, ?t)"
    by (intro process_webhook_terminal) (simp_all add: ready_def del: upd_webhook_event_frame)
  then show ?thesis using run t by (intro exI [of _ ?t]) simp
qed

text \<open>
  C21: A payment for a subscription that is already active is not recorded. The handler of
  \<^verbatim>\<open>invoice.paid\<close> first moves the subscription to active, and the state machine has no step from
  active to active; so for an active subscription (the ordinary renewal) the webhook ends failed
  with the text of the illegal transition, and neither the ledger, nor the outbox, nor a
  subscription changes.
\<close>

theorem invoice_paid_active_fails:
  assumes s: "ready s" and w: "w \<in> set (webhook_events (db s))" and st: "wh_status w \<in> {RECEIVED, PROCESSING}"
    and ty: "wh_event_type w = ''invoice.paid''" and ab: "about_subscription w ob r"
    and r: "r \<in> set (subscriptions (db s))" "sub_status r = active"
  shows "\<exists>t. process_webhook (wh_id w) s = (Inr {}, t) \<and>
    ledger_entries (db t) = ledger_entries (db s) \<and> outbox_messages (db t) = outbox_messages (db s) \<and>
    subscriptions (db t) = subscriptions (db s) \<and>
    w\<lparr>wh_status := FAILED, processing_attempts := processing_attempts w + 1,
      wh_last_error := Some ''illegal transition: active -> active''\<rparr> \<in> set (webhook_events (db t))"
proof -
  let ?s = "marked w s"
  let ?e = "Exc WebhookProcessingError (illegal_transition_msg active active)"
  have m: "\<not> tx_failed ?s" "db_ok (db ?s)" using marked_ready [OF s] by (simp_all add: ready_def)
  have r': "r \<in> set (subscriptions (db ?s))" using r by simp
  have "handle_invoice_paid w ?s = (Inl ?e, ?s)"
    unfolding handle_invoice_paid_def about_subscription_run [OF ab m r']
    using transition_subscription_illegal [OF m r', of active] r(2) by simp
  then have h: "dispatch_event w ?s = (Inl ?e, ?s)" by (simp add: dispatch_event_def ty)
  have "wh_status w \<notin> set TERMINAL_STATUSES" using st by (auto simp: TERMINAL_STATUSES_def)
  from process_webhook_run [OF s w this] catch_dispatch_Inl [OF h] m(1)
  have run: "process_webhook (wh_id w) s = (Inr {}, ?s\<lparr>db := upd_webhook_event (wh_id w)
      (\<lambda>w. w\<lparr>wh_status := FAILED, wh_last_error := Some (illegal_transition_msg active active)\<rparr>) (db ?s)\<rparr>)"
    by (simp add: finish_webhook_def set_webhook_def)
  let ?w = "w\<lparr>wh_status := FAILED, processing_attempts := processing_attempts w + 1,
      wh_last_error := Some ''illegal transition: active -> active''\<rparr>"
  have "?w \<in> set (webhook_events (upd_webhook_event (wh_id w)
      (\<lambda>w. w\<lparr>wh_status := FAILED, wh_last_error := Some (illegal_transition_msg active active)\<rparr>) (db ?s)))"
    using w by (auto simp: upd_webhook_event_def marked_def update_rows_def illegal_transition_msg_def
        intro!: image_eqI [of _ _ w])
  then show ?thesis unfolding run by simp
qed

section \<open>A payment that is recorded\<close>

definition paid_row :: "instant \<Rightarrow> subscription \<Rightarrow> subscription" where
  "paid_row t r = r\<lparr>sub_status := active, past_due_entered_at := None, sub_updated_at := t\<rparr>"

lemma transition_subscription_active:
  assumes s: "ready s" and r: "r \<in> set (subscriptions (db s))"
    and st: "sub_status r \<in> {trialing, incomplete, past_due}" and fr: "fresh_ids k s"
  shows "\<exists>t. transition_subscription (sub_id r) active s = (Inr (), t) \<and> ready t \<and> fresh_ids k t \<and>
    t = s\<lparr>clock_pos := Suc (clock_pos s), db := db t\<rparr> \<and>
    subscriptions (db t) = map (\<lambda>q. if q = r then paid_row (tx_now s) r else q) (subscriptions (db s)) \<and>
    db t = (db s)\<lparr>subscriptions := subscriptions (db t)\<rparr>"
proof -
  let ?u = "s\<lparr>clock_pos := Suc (clock_pos s)\<rparr>"
  let ?g = "past_due_fields active (clock s (clock_pos s))"
  let ?f = "legal_move active ?g"
  let ?t = "?u\<lparr>db := upd_subscription (sub_id r) (tx_now s) ?f (db s)\<rparr>"
  have u: "ready ?u" using s by (simp add: ready_def sequence_ahead_def)
  have "subscription_update ?g"
    by (simp add: subscription_update_def same_identity_def past_due_fields_def)
  then have id: "same_identity q (?f q) \<and> sub_plan_id (?f q) = sub_plan_id q" for q
    by (rule same_identity_legal_move)
  have tr: "active \<in> set (ALLOWED_TRANSITIONS (sub_status r))" using st by auto
  then have lf: "(case transition (sub_status r) active of
      Inl e \<Rightarrow> Inl (Exc WebhookProcessingError (str_exc e)) | Inr x \<Rightarrow> Inr x) = Inr active"
    by (simp add: transition_def)
  have run: "transition_subscription (sub_id r) active s = (Inr (), ?t)"
    using load_subscription_run [OF readyD(1,2) [OF s] r] lf
      move_subscription_run [OF readyD(1,2) [OF u], of r active ?g] r tr
    by (simp add: transition_subscription_def)
  have "ready ?t" using id ready_upd_subscription [OF u, of ?f] by simp
  moreover have "fresh_ids k ?t"
    using id by (intro fresh_ids_same [OF fr]) (simp_all add: used_ids_upd_subscription)
  moreover have ne: "?f r \<noteq> r"
  proof
    assume "?f r = r"
    then have "sub_status (?f r) = sub_status r" by simp
    with tr st show False by (auto simp: legal_move_def)
  qed
  moreover have row: "(?f r)\<lparr>sub_updated_at := tx_now s\<rparr> = paid_row (tx_now s) r"
    using tr by (simp add: legal_move_def paid_row_def past_due_fields_def)
  ultimately show ?thesis
    using run upd_subscription_one [where f = ?f, OF keys_uniqueD(3) [OF readyD(2) [OF s]] r ne, of "tx_now s"]
    unfolding row by (intro exI [of _ ?t]) (simp add: upd_subscription_def)
qed

lemma handle_invoice_paid_run:
  assumes s: "ready s" and fr: "fresh_ids 1 s" and ab: "about_subscription w ob r"
    and r: "r \<in> set (subscriptions (db s))" "sub_status r \<in> {trialing, incomplete, past_due}"
    and key: "\<forall>e \<in> set (ledger_entries (db s)). le_idempotency_key e \<noteq> webhook_key w @ '':ledger:invoice_paid''"
  shows "\<exists>t e. handle_invoice_paid w s = (Inr {sub_organization_id r}, t) \<and> ready t \<and>
    subscriptions (db t) = map (\<lambda>q. if q = r then paid_row (tx_now s) r else q) (subscriptions (db s)) \<and>
    ledger_entries (db t) = ledger_entries (db s) @ [e] \<and> entry_type e = invoice_paid \<and>
    amount_cents e = paid_amount ob \<and> le_currency e = upper (paid_currency ob) \<and>
    le_organization_id e = sub_organization_id r \<and> le_subscription_id e = Some (sub_id r) \<and>
    obj_get (le_metadata e) ''invoice_external_id'' = JStr (invoice_text_id ob) \<and>
    outbox_key_taken (webhook_key w @ '':subscription.activated'') (db t) \<and>
    webhook_events (db t) = webhook_events (db s) \<and> clock t = clock s \<and> clock_pos t = clock_pos s + 2"
proof -
  let ?ko = "webhook_key w @ '':subscription.activated''" and ?kl = "webhook_key w @ '':ledger:invoice_paid''"
  obtain v where tr: "transition_subscription (sub_id r) active s = (Inr (), v)" and v: "ready v" "fresh_ids 1 v"
    and vs: "v = s\<lparr>clock_pos := Suc (clock_pos s), db := db v\<rparr>"
    and sub: "subscriptions (db v) = map (\<lambda>q. if q = r then paid_row (tx_now s) r else q) (subscriptions (db s))"
    and dv: "db v = (db s)\<lparr>subscriptions := subscriptions (db v)\<rparr>"
    using transition_subscription_active [OF s r fr] by blast
  have fv: "clock v = clock s" "clock_pos v = Suc (clock_pos s)" "organizations (db v) = organizations (db s)"
    "ledger_entries (db v) = ledger_entries (db s)" "webhook_events (db v) = webhook_events (db s)"
    using arg_cong [OF vs, of clock] arg_cong [OF vs, of clock_pos] arg_cong [OF dv, of organizations]
      arg_cong [OF dv, of ledger_entries] arg_cong [OF dv, of webhook_events] by simp_all
  obtain g where g: "g \<in> set (organizations (db v))" "org_id g = sub_organization_id r"
    using subscription_organization [OF readyD(2) [OF s] r(1)] fv(3) by auto
  have og: "organization_public_id (sub_organization_id r) v = (Inr (org_public_id g), v)"
    using organization_public_id_run [OF readyD(1,2) [OF v(1)] g] .
  obtain u where e: "enqueue_outbox ''subscription'' (uuid_str (sub_public_id r)) ''subscription.activated''
      [(''subscription_public_id'', JStr (uuid_str (sub_public_id r))),
       (''organization_public_id'', JStr (uuid_str (org_public_id g))),
       (''webhook_id'', JStr (uuid_str (wh_id w)))] ?ko (str_int (sub_organization_id r)) v = (Inr (), u)"
    and u: "event_recorded ?ko v u" using enqueue_outbox_recorded [OF v(1)] by blast
  have oo: "outbox_only (db v) (db u)" and ru: "ready u" "outbox_key_taken ?ko (db u)" "clock u = clock v"
    "clock_pos u = clock_pos v" using u by (simp_all add: event_recorded_def)
  have fu: "fresh_ids (Suc 0) u" using event_recorded_fresh [OF u v(2)] by simp
  let ?md = "[(''invoice_external_id'', JStr (invoice_text_id ob)),
    (''subscription_public_id'', JStr (uuid_str (sub_public_id r))), (''webhook_id'', JStr (uuid_str (wh_id w)))]"
  let ?e = "new_entry u (org_id g) invoice_paid (paid_amount ob) (upper (paid_currency ob)) ?kl
    (uuid_str (wh_id w)) (Some (sub_id r)) None None None ?md"
  have "g \<in> set (organizations (db u))" using g(1) outbox_onlyD(3) [OF oo] by simp
  note can = can_postI [OF ru(1) fu this]
  have k: "\<forall>e \<in> set (ledger_entries (db u)). le_idempotency_key e \<noteq> ?kl"
    using key outbox_onlyD(1) [OF oo] fv(4) by simp
  have "sub_id r \<in> sub_id ` set (subscriptions (db v))" unfolding sub using r(1) by (force simp: paid_row_def)
  then have si: "\<forall>i. Some (sub_id r) = Some i \<longrightarrow> i \<in> sub_id ` set (subscriptions (db u))"
    using outbox_onlyD(2) [OF oo] by simp
  obtain t where pe: "post_entry (org_id g) invoice_paid (paid_amount ob) (paid_currency ob) ?kl
      (uuid_str (wh_id w)) (Some (sub_id r)) None None ?md u = (Inr ?e, t)" and t: "entry_recorded ?e u t"
    using post_entry_recorded [OF can k si refl] by blast
  have lf: "ledger_frame (db u) (db t)" using t by (simp add: entry_recorded_def)
  have "handle_invoice_paid w s = (Inr {sub_organization_id r}, t)"
    unfolding handle_invoice_paid_def about_subscription_run [OF ab readyD(1,2) [OF s] r(1)]
    using tr og e pe g(2) by simp
  moreover have "subscriptions (db t) = subscriptions (db v)" "webhook_events (db t) = webhook_events (db s)"
    "ledger_entries (db t) = ledger_entries (db s) @ [?e]" "outbox_key_taken ?ko (db t)" "ready t"
    "clock t = clock s" "clock_pos t = clock_pos s + 2"
    using ledger_frameD(1,4) [OF lf] ledger_frameD(9) [OF lf ru(2)] outbox_onlyD(1,2,4) [OF oo] t fv ru(3,4)
    by (simp_all add: entry_recorded_def)
  ultimately show ?thesis
    using g(2) sub by (intro exI [of _ t] exI [of _ ?e]) (simp add: new_entry_simps obj_get_def new_entry_def)
qed

lemma marked_webhooks:
  assumes "ready s" "w \<in> set (webhook_events (db s))"
  shows "filter (\<lambda>q. wh_id q = wh_id w) (webhook_events (db (marked w s))) =
    [w\<lparr>wh_status := PROCESSING, processing_attempts := processing_attempts w + 1\<rparr>]"
proof -
  have "filter (\<lambda>q. wh_id q = wh_id w) (webhook_events (db s)) = [w]"
    using unique_key_filter [OF keys_uniqueD(10) [OF readyD(2) [OF assms(1)]] assms(2)] .
  then show ?thesis by (simp add: marked_def upd_webhook_event_def filter_update_rows)
qed

lemma fresh_ids_marked: "fresh_ids k s \<Longrightarrow> fresh_ids k (marked w s)"
  by (erule fresh_ids_same) (simp_all add: marked_def used_ids_upd_webhook_event marking)

lemma process_invoice_paid:
  assumes s: "ready s" and fr: "fresh_ids 1 s" and w: "w \<in> set (webhook_events (db s))"
    and st: "wh_status w \<in> {RECEIVED, PROCESSING}"
    and ty: "wh_event_type w = ''invoice.paid''" and ab: "about_subscription w ob r"
    and r: "r \<in> set (subscriptions (db s))" "sub_status r \<in> {trialing, incomplete, past_due}"
    and key: "\<forall>e \<in> set (ledger_entries (db s)). le_idempotency_key e \<noteq> webhook_key w @ '':ledger:invoice_paid''"
  shows "\<exists>t e. process_webhook (wh_id w) s = (Inr {sub_organization_id r}, t) \<and>
    subscriptions (db t) = map (\<lambda>q. if q = r then r\<lparr>sub_status := active, past_due_entered_at := None,
      sub_updated_at := tx_now s\<rparr> else q) (subscriptions (db s)) \<and>
    ledger_entries (db t) = ledger_entries (db s) @ [e] \<and> entry_type e = invoice_paid \<and>
    amount_cents e = paid_amount ob \<and> le_currency e = upper (paid_currency ob) \<and>
    le_organization_id e = sub_organization_id r \<and> le_subscription_id e = Some (sub_id r) \<and>
    obj_get (le_metadata e) ''invoice_external_id'' = JStr (invoice_text_id ob) \<and> \<not> tx_failed t \<and>
    outbox_key_taken (webhook_key w @ '':subscription.activated'') (db t) \<and>
    w\<lparr>wh_status := PROCESSED, processing_attempts := processing_attempts w + 1,
      processed_at := Some (clock s (clock_pos s + 2))\<rparr> \<in> set (webhook_events (db t))"
proof -
  let ?s = "marked w s" and ?w = "w\<lparr>wh_status := PROCESSING, processing_attempts := processing_attempts w + 1\<rparr>"
  have r': "r \<in> set (subscriptions (db ?s))" using r by simp
  have key': "\<forall>e \<in> set (ledger_entries (db ?s)). le_idempotency_key e \<noteq> webhook_key w @ '':ledger:invoice_paid''"
    using key by simp
  obtain u e where h: "handle_invoice_paid w ?s = (Inr {sub_organization_id r}, u)" and u: "ready u"
    "subscriptions (db u) = map (\<lambda>q. if q = r then paid_row (tx_now s) r else q) (subscriptions (db s))"
    "ledger_entries (db u) = ledger_entries (db s) @ [e]" "entry_type e = invoice_paid"
    "amount_cents e = paid_amount ob" "le_currency e = upper (paid_currency ob)"
    "le_organization_id e = sub_organization_id r" "le_subscription_id e = Some (sub_id r)"
    "obj_get (le_metadata e) ''invoice_external_id'' = JStr (invoice_text_id ob)"
    "outbox_key_taken (webhook_key w @ '':subscription.activated'') (db u)"
    "webhook_events (db u) = webhook_events (db ?s)" "clock u = clock s" "clock_pos u = clock_pos s + 2"
    using handle_invoice_paid_run [OF marked_ready [OF s] fresh_ids_marked [OF fr] ab r' r(2) key']
    by (auto simp del: marked_ready)
  have d: "catchE (bindE (dispatch_event w) (\<lambda>orgs. returnE (Inr orgs))) (\<lambda>e. returnE (Inl e)) ?s =
      (Inr (Inr {sub_organization_id r}), u)" using h by (simp add: dispatch_event_def ty)
  have "wh_status w \<notin> set TERMINAL_STATUSES" using st by (auto simp: TERMINAL_STATUSES_def)
  note run = process_webhook_run [OF s w this]
  let ?f = "\<lambda>w. w\<lparr>wh_status := PROCESSED, processed_at := Some (clock s (clock_pos s + 2))\<rparr>"
  let ?t = "u\<lparr>clock_pos := Suc (clock_pos u), db := upd_webhook_event (wh_id w) ?f (db u)\<rparr>"
  have fin: "process_webhook (wh_id w) s = (Inr {sub_organization_id r}, ?t)"
    unfolding run using d marked_webhooks [OF s w] readyD(1) [OF u(1)] u(11-13)
    by (simp add: finish_webhook_def set_webhook_def)
  have "?w \<in> set (webhook_events (db ?s))"
    using filter_singletonD [OF marked_webhooks [OF s w]] by simp
  then have "?f ?w \<in> set (webhook_events (upd_webhook_event (wh_id w) ?f (db u)))"
    unfolding upd_webhook_event_def u(11) [symmetric] by (auto simp: update_rows_def intro!: image_eqI [of _ _ ?w])
  then have "w\<lparr>wh_status := PROCESSED, processing_attempts := processing_attempts w + 1,
      processed_at := Some (clock s (clock_pos s + 2))\<rparr> \<in> set (webhook_events (db ?t))" by (cases w) simp
  with fin u show ?thesis
    by (intro exI [of _ ?t] exI [of _ e])
      (simp add: paid_row_def outbox_key_taken_def readyD)
qed

text \<open>
  A payment is recorded. For a subscription that is past due, trialing or incomplete,
  \<^verbatim>\<open>invoice.paid\<close> makes it active and clears its past-due time, leaves every other subscription
  alone, appends to the ledger exactly one entry with the paid amount (0 if it is not an integer)
  and the currency of the payload, reports the activation in the outbox, marks the webhook
  processed, and returns the subscription's organization for cache invalidation.
\<close>

theorem invoice_paid_recorded:
  assumes s: "ready s" and fr: "fresh_ids 1 s" and w: "w \<in> set (webhook_events (db s))"
    and st: "wh_status w \<in> {RECEIVED, PROCESSING}"
    and ty: "wh_event_type w = ''invoice.paid''" and ab: "about_subscription w ob r"
    and r: "r \<in> set (subscriptions (db s))" "sub_status r \<in> {trialing, incomplete, past_due}"
    and key: "\<forall>e \<in> set (ledger_entries (db s)). le_idempotency_key e \<noteq> webhook_key w @ '':ledger:invoice_paid''"
  shows "\<exists>t e. process_webhook (wh_id w) s = (Inr {sub_organization_id r}, t) \<and>
    subscriptions (db t) = map (\<lambda>q. if q = r then r\<lparr>sub_status := active, past_due_entered_at := None,
      sub_updated_at := tx_now s\<rparr> else q) (subscriptions (db s)) \<and>
    ledger_entries (db t) = ledger_entries (db s) @ [e] \<and> entry_type e = invoice_paid \<and>
    amount_cents e = paid_amount ob \<and> le_currency e = upper (paid_currency ob) \<and>
    le_organization_id e = sub_organization_id r \<and> le_subscription_id e = Some (sub_id r) \<and>
    outbox_key_taken (webhook_key w @ '':subscription.activated'') (db t) \<and>
    w\<lparr>wh_status := PROCESSED, processing_attempts := processing_attempts w + 1,
      processed_at := Some (clock s (clock_pos s + 2))\<rparr> \<in> set (webhook_events (db t))"
  using process_invoice_paid [OF assms] by blast

lemma persist_webhook_new:
  assumes "\<not> tx_failed s" "fresh_ids (Suc k) s" "e \<notin> provider_event_id ` set (webhook_events (db s))"
    and w: "w = \<lparr>wh_id = upcoming_uuid s, wh_provider = pr, provider_event_id = e, wh_event_type = et, wh_payload = p,
      wh_status = RECEIVED, processing_attempts = 0, wh_last_error = None, received_at = tx_now s, processed_at = None\<rparr>"
  shows "persist_webhook e et p pr s = (Inr (Some w), (after_uuid s)\<lparr>db := add_webhook_event w (db s)\<rparr>)"
    and "webhook_event_ok w (db s)"
proof -
  have "upcoming_uuid s \<notin> wh_id ` set (webhook_events (db s))"
    using fresh_idsD [OF assms(2)] by (simp add: used_ids_def)
  then show ok: "webhook_event_ok w (db s)"
    unfolding webhook_event_ok_def fresh_iff w by (metis imageI webhook_event.select_convs(1))
  have "\<not> provider_event_taken e (db s)" using assms(3) by (simp add: provider_event_taken_def refers_iff)
  with ok show "persist_webhook e et p pr s = (Inr (Some w), (after_uuid s)\<lparr>db := add_webhook_event w (db s)\<rparr>)"
    using assms(1) unfolding w by (simp add: persist_webhook_def Let_def)
qed

text \<open>
  C22: An event of the provider is stored once. With a usable transaction and a new identifier,
  \<^verbatim>\<open>persist\<close> stores an event id it has not seen as a received row and returns it; a further call
  with that event id, whatever else it carries, returns nothing and leaves every table as it is.
\<close>

theorem persist_webhook_once:
  assumes nf: "\<not> tx_failed s" and fr: "fresh_ids (Suc k) s"
    and new: "e \<notin> provider_event_id ` set (webhook_events (db s))"
  shows "\<exists>w t u. persist_webhook e et p pr s = (Inr (Some w), t) \<and>
    db t = (db s)\<lparr>webhook_events := webhook_events (db s) @ [w]\<rparr> \<and>
    wh_status w = RECEIVED \<and> provider_event_id w = e \<and> wh_payload w = p \<and> processing_attempts w = 0 \<and>
    persist_webhook e et' p' pr' t = (Inr None, u) \<and> db u = db t"
proof -
  let ?w = "\<lparr>wh_id = upcoming_uuid s, wh_provider = pr, provider_event_id = e, wh_event_type = et,
    wh_payload = p, wh_status = RECEIVED, processing_attempts = 0, wh_last_error = None,
    received_at = tx_now s, processed_at = None\<rparr>"
  let ?t = "(after_uuid s)\<lparr>db := add_webhook_event ?w (db s)\<rparr>"
  have "persist_webhook e et p pr s = (Inr (Some ?w), ?t)" using persist_webhook_new(1) [OF nf fr new refl] .
  moreover have "persist_webhook e et' p' pr' ?t = (Inr None, after_uuid ?t)"
    using nf by (simp add: persist_webhook_def Let_def provider_event_taken_def refers_iff add_webhook_event_def)
  ultimately show ?thesis 
    by (intro exI [of _ ?w] exI [of _ ?t] exI [of _ "after_uuid ?t"]) (simp add: add_webhook_event_def)
qed

section \<open>Witnesses\<close>

definition paid_object :: json_object where
  "paid_object = [(''id'', JStr ''in_1''), (''subscription'', JStr ''sub_demo_seed_001''),
     (''amount_paid'', JInt 2900), (''currency'', JStr ''usd'')]"

definition paid_hook :: webhook_event where
  "paid_hook = \<lparr>wh_id = 401, wh_provider = ''mock_stripe'', provider_event_id = ''evt_1'',
     wh_event_type = ''invoice.paid'', wh_payload = [(''data'', JObj [(''object'', JObj paid_object)])],
     wh_status = RECEIVED, processing_attempts = 0, wh_last_error = None, received_at = 0,
     processed_at = None\<rparr>"

definition hook_session :: "subscription \<Rightarrow> webhook_event \<Rightarrow> session" where
  "hook_session r w = sample_session\<lparr>db := sample_db\<lparr>subscriptions := [r], webhook_events := [w]\<rparr>\<rparr>"

lemma hook_session_simps [simp]:
  "subscriptions (db (hook_session r w)) = [r]" "webhook_events (db (hook_session r w)) = [w]"
  "ledger_entries (db (hook_session r w)) = []" "outbox_messages (db (hook_session r w)) = []"
  "tx_failed (hook_session r w) = False" "clock (hook_session r w) = clock sample_session"
  "clock_pos (hook_session r w) = 0"
  by (simp_all add: hook_session_def)

lemma paid_hook_simps [simp]:
  "wh_id paid_hook = 401" "wh_status paid_hook = RECEIVED" "wh_event_type paid_hook = ''invoice.paid''"
  "processing_attempts paid_hook = 0" "provider_event_id paid_hook = ''evt_1''"
  by (simp_all add: paid_hook_def)

lemma hook_session_ready: "r \<in> {sample_sub, past_due_sub} \<Longrightarrow> ready (hook_session r w)"
  by (auto simp: ready_def hook_session_def integrity_defs unique_by_def List.map_filter_simps
      sequence_ahead_def sample_org_def past_due_sub_def sample_sub_def)

lemma hook_session_fresh: "r \<in> {sample_sub, past_due_sub} \<Longrightarrow> fresh_ids 100 (hook_session r paid_hook)"
  by (rule fresh_small_ids) (auto simp: used_ids_def hook_session_def sample_db_def)

lemma paid_hook_about: "r \<in> {sample_sub, past_due_sub} \<Longrightarrow> about_subscription paid_hook paid_object r"
  by (auto simp: about_subscription_def paid_hook_def paid_object_def obj_get_def)

theorem process_webhook_terminal_witness:
  "process_webhook 401 (hook_session sample_sub (paid_hook\<lparr>wh_status := FAILED\<rparr>)) =
     (Inr {}, hook_session sample_sub (paid_hook\<lparr>wh_status := FAILED\<rparr>))"
  using process_webhook_terminal [of "hook_session sample_sub (paid_hook\<lparr>wh_status := FAILED\<rparr>)"
      "paid_hook\<lparr>wh_status := FAILED\<rparr>"]
    hook_session_ready [of sample_sub "paid_hook\<lparr>wh_status := FAILED\<rparr>"] by (simp add: ready_def)

theorem process_webhook_sets_aside_witness:
  "\<exists>t. process_webhook 401 (hook_session sample_sub (paid_hook\<lparr>wh_payload := []\<rparr>)) = (Inr {}, t) \<and>
     map (\<lambda>w. (wh_status w, wh_last_error w)) (webhook_events (db t)) =
       [(FAILED, Some ''payload missing data object'')] \<and> ledger_entries (db t) = []"
proof -
  let ?w = "paid_hook\<lparr>wh_payload := []\<rparr>"
  have "unusable (db (hook_session sample_sub ?w)) ?w ''payload missing data object''"
    by (rule unusable.no_data) (simp add: obj_get_def)
  from process_webhook_sets_aside [OF hook_session_ready _ _ _ this] show ?thesis by auto
qed

theorem invoice_paid_active_fails_witness:
  "\<exists>t. process_webhook 401 (hook_session sample_sub paid_hook) = (Inr {}, t) \<and> ledger_entries (db t) = []"
  using invoice_paid_active_fails [OF hook_session_ready _ _ _ paid_hook_about, of sample_sub paid_hook] by auto

theorem invoice_paid_recorded_witness:
  "\<exists>t e. process_webhook 401 (hook_session past_due_sub paid_hook) = (Inr {1}, t) \<and>
     map sub_status (subscriptions (db t)) = [active] \<and> ledger_entries (db t) = [e] \<and>
     amount_cents e = 2900 \<and> le_currency e = ''USD''"
proof -
  have "upper (paid_currency paid_object) = ''USD''" by code_simp
  moreover have "paid_amount paid_object = 2900" by (simp add: paid_amount_def paid_object_def obj_get_def)
  moreover have "fresh_ids 1 (hook_session past_due_sub paid_hook)"
    by (rule fresh_ids_le [OF hook_session_fresh]) simp_all
  ultimately show ?thesis
    using invoice_paid_recorded [OF hook_session_ready _ _ _ _ paid_hook_about, of past_due_sub paid_hook] by auto
qed

theorem persist_webhook_once_witness:
  "\<exists>w t u. persist_webhook ''evt_2'' ''invoice.paid'' [] ''mock_stripe'' (hook_session sample_sub paid_hook) = (Inr (Some w), t) \<and>
     webhook_events (db t) = [paid_hook, w] \<and>
     persist_webhook ''evt_2'' ''invoice.paid'' [] ''mock_stripe'' t = (Inr None, u) \<and> webhook_events (db u) = [paid_hook, w]"
  using persist_webhook_once [of "hook_session sample_sub paid_hook" 99 "''evt_2''"] hook_session_fresh [of sample_sub]
  by fastforce

end
