(* ===== verification/Entitlements.thy ===== *)
theory Entitlements
  imports Caches Grace
begin

text \<open>
  The entitlement evaluator (\<^verbatim>\<open>services/entitlements.py\<close>): the pure decisions on limits and on the
  subscription's status, the snapshot built from the database, and the evaluation of a request
  through the process cache, Redis and, on a miss, the database.
\<close>

section \<open>Decisions\<close>

record check =
  check_feature_key :: string
  check_quantity :: int

record feature_decision =
  dec_allowed :: bool
  dec_limit :: "int option"
  dec_used :: "int option"
  dec_remaining :: "int option"
  dec_reason :: "string option"

record access_decision =
  access_allowed :: bool
  access_mode :: string

record evaluate_result =
  ev_feature_key :: string
  ev_feature_type :: string
  ev_allowed :: bool
  ev_limit :: "int option"
  ev_used :: "int option"
  ev_remaining :: "int option"
  ev_reason :: "string option"

record evaluate_response =
  resp_organization_public_id :: string
  resp_status :: subscription_status
  resp_results :: "evaluate_result list"
  resp_cache_hit :: bool
  resp_evaluated_at :: instant
  resp_version :: int

definition remaining_of :: "int option \<Rightarrow> int \<Rightarrow> int option" where
  "remaining_of limit used = (case limit of None \<Rightarrow> None | Some l \<Rightarrow> Some (max 0 (l - used)))"

definition subscription_seat_quantity :: "subscription \<Rightarrow> int option" where
  "subscription_seat_quantity r =
     (let quantity = (case obj_get (sub_metadata r) ''seat_quantity'' of
          JInt i \<Rightarrow> Some i | JStr t \<Rightarrow> py_int t | _ \<Rightarrow> None)
      in case quantity of None \<Rightarrow> None | Some q \<Rightarrow> if 0 \<le> q then Some q else None)"

definition rate_window_start :: "string option \<Rightarrow> instant \<Rightarrow> instant \<Rightarrow> instant" where
  "rate_window_start interval now pstart =
     (if interval = Some ''hour'' then trunc_hour now
      else if interval = Some ''day'' then trunc_day now
      else if interval = Some ''month'' then trunc_month now
      else pstart)"

definition effective_limit :: "string \<Rightarrow> int option \<Rightarrow> int option \<Rightarrow> int option" where
  "effective_limit ft limit seats = (if ft = ''seat'' \<and> seats \<noteq> None then seats else limit)"

definition decide_numeric_feature ::
  "string \<Rightarrow> int option \<Rightarrow> int \<Rightarrow> string \<Rightarrow> int \<Rightarrow> int option \<Rightarrow> feature_decision" where
  "decide_numeric_feature ft limit used enforcement quantity seats =
     (let eff = effective_limit ft limit seats;
          remaining = remaining_of eff used;
          exhausted = (if ft = ''rate_limit'' then ''rate_limit_exhausted''
                       else if ft = ''seat'' then ''seat_exhausted'' else ''quota_exhausted'');
          soft = (if ft = ''rate_limit'' then ''rate_limit_exceeded_soft''
                  else if ft = ''seat'' then ''seat_exceeded_soft'' else ''quota_exceeded_soft'')
      in case eff of
           None \<Rightarrow> \<lparr>dec_allowed = True, dec_limit = eff, dec_used = Some used, dec_remaining = remaining,
                    dec_reason = None\<rparr>
         | Some l \<Rightarrow>
             if l \<le> used
             then (if enforcement = ''hard''
                   then \<lparr>dec_allowed = False, dec_limit = eff, dec_used = Some used, dec_remaining = Some 0,
                         dec_reason = Some exhausted\<rparr>
                   else \<lparr>dec_allowed = True, dec_limit = eff, dec_used = Some used, dec_remaining = Some 0,
                         dec_reason = Some soft\<rparr>)
             else if l < used + quantity \<and> enforcement = ''hard''
             then \<lparr>dec_allowed = False, dec_limit = eff, dec_used = Some used, dec_remaining = remaining,
                   dec_reason = Some exhausted\<rparr>
             else \<lparr>dec_allowed = True, dec_limit = eff, dec_used = Some used, dec_remaining = remaining,
                   dec_reason = None\<rparr>)"

definition decide_feature ::
  "string \<Rightarrow> int option \<Rightarrow> int \<Rightarrow> string \<Rightarrow> int \<Rightarrow> bool \<Rightarrow> int option \<Rightarrow> feature_decision" where
  "decide_feature ft limit used enforcement quantity enabled seats =
     (if ft = ''boolean''
      then (if \<not> enabled
            then \<lparr>dec_allowed = False, dec_limit = None, dec_used = None, dec_remaining = None,
                  dec_reason = Some ''feature_disabled''\<rparr>
            else \<lparr>dec_allowed = True, dec_limit = None, dec_used = None, dec_remaining = None,
                  dec_reason = None\<rparr>)
      else if \<not> enabled
      then \<lparr>dec_allowed = False, dec_limit = limit, dec_used = Some used,
            dec_remaining = remaining_of limit used, dec_reason = Some ''feature_disabled''\<rparr>
      else if ft \<in> {''quota'', ''rate_limit'', ''seat''}
      then decide_numeric_feature ft limit used enforcement quantity seats
      else \<lparr>dec_allowed = False, dec_limit = limit, dec_used = Some used,
            dec_remaining = remaining_of limit used, dec_reason = Some ''feature_misconfigured''\<rparr>)"

definition decide_access :: "subscription_status \<Rightarrow> bool \<Rightarrow> string \<Rightarrow> access_decision" where
  "decide_access status grace enforcement =
     (if status = active \<or> status = trialing then \<lparr>access_allowed = True, access_mode = ''full''\<rparr>
      else if status = past_due
      then (if grace
            then (if enforcement = ''degraded'' then \<lparr>access_allowed = True, access_mode = ''degraded''\<rparr>
                  else \<lparr>access_allowed = True, access_mode = ''full''\<rparr>)
            else \<lparr>access_allowed = False, access_mode = ''denied''\<rparr>)
      else \<lparr>access_allowed = False, access_mode = ''denied''\<rparr>)"

definition bump_entitlement_version :: "int \<Rightarrow> int app_op" where
  "bump_entitlement_version oi = increment_entitlement_version oi"

section \<open>The snapshot\<close>

definition load_subscription_plan :: "int \<Rightarrow> (subscription \<times> plan) op" where
  "load_subscription_plan oi =
     bindE (get_primary_subscription oi) (\<lambda>found.
     case found of None \<Rightarrow> raiseE SubscriptionNotFoundError (''no subscription for organization '' @ str_int oi)
     | Some r \<Rightarrow>
         bindE (bindE (query (\<lambda>d. filter (\<lambda>p. plan_id p = sub_plan_id r) (plans d))) scalar_one) (\<lambda>p.
         returnE (r, p)))"

definition usage_in_window :: "int \<Rightarrow> string \<Rightarrow> instant \<Rightarrow> instant \<Rightarrow> database \<Rightarrow> numeric6" where
  "usage_in_window oi k start stop d =
     (\<Sum>u\<leftarrow>filter (\<lambda>u. ua_organization_id u = oi \<and> ua_feature_key u = k \<and>
        start \<le> hour_start u \<and> hour_start u < stop) (usage_aggregates d). ua_quantity u)"

definition sum_usage_for_window :: "int \<Rightarrow> string \<Rightarrow> instant \<Rightarrow> instant \<Rightarrow> int op" where
  "sum_usage_for_window oi k start stop = query (\<lambda>d. int_of_decimal (usage_in_window oi k start stop d))"

definition usage_window_start :: "feature_data \<Rightarrow> instant \<Rightarrow> instant \<Rightarrow> instant" where
  "usage_window_start f now pstart =
     (if fd_feature_type f = ''rate_limit''
      then max (trunc_hour pstart) (rate_window_start (fd_reset_interval f) now pstart)
      else trunc_hour pstart)"

definition feature_usage_step ::
  "int \<Rightarrow> subscription \<Rightarrow> instant \<Rightarrow> string \<times> feature_data \<Rightarrow> (string \<times> int) list \<Rightarrow> (string \<times> int) list op" where
  "feature_usage_step oi r now kf usage =
     (if fd_feature_type (snd kf) = ''boolean'' then returnE usage
      else
        bindE (sum_usage_for_window oi (fst kf)
                 (usage_window_start (snd kf) now (current_period_start r)) (current_period_end r)) (\<lambda>n.
        returnE (AList.update (fst kf) n usage)))"

definition load_feature_usage :: "int \<Rightarrow> subscription \<Rightarrow> (string \<times> feature_data) list \<Rightarrow> (string \<times> int) list op" where
  "load_feature_usage oi r fs =
     bindE now_utc (\<lambda>now. foldE (feature_usage_step oi r now) fs [])"

definition plan_feature_data :: "plan_feature \<Rightarrow> feature \<Rightarrow> feature_data" where
  "plan_feature_data l f =
     \<lparr>fd_feature_type = feature_type f, fd_reset_interval = reset_interval f, fd_limit = limit_value l,
      fd_used = 0, fd_seats = None, fd_is_enabled = is_enabled l, fd_enforcement_mode = enforcement_mode l\<rparr>"

definition plan_feature_rows :: "uuid \<Rightarrow> database \<Rightarrow> (plan_feature \<times> feature) list" where
  "plan_feature_rows pid d =
     concat (map (\<lambda>l. map (\<lambda>f. (l, f)) (filter (\<lambda>f. feat_id f = pf_feature_id l) (features d)))
       (filter (\<lambda>l. pf_plan_id l = pid) (plan_features d)))"

definition load_plan_features :: "uuid \<Rightarrow> (string \<times> feature_data) list op" where
  "load_plan_features pid =
     query (\<lambda>d. dict_of (\<lambda>(l, f). feat_key f) (\<lambda>(l, f). plan_feature_data l f) (plan_feature_rows pid d))"

definition fill_feature :: "(string \<times> int) list \<Rightarrow> int option \<Rightarrow> string \<times> feature_data \<Rightarrow> string \<times> feature_data" where
  "fill_feature usage seats kf =
     (fst kf, (snd kf)\<lparr>fd_used := (case map_of usage (fst kf) of None \<Rightarrow> 0 | Some n \<Rightarrow> n),
        fd_seats := (if fd_feature_type (snd kf) = ''seat'' then seats else fd_seats (snd kf))\<rparr>)"

definition build_snapshot :: "int \<Rightarrow> snapshot op" where
  "build_snapshot oi =
     bindE (load_subscription_plan oi) (\<lambda>(r, p).
     bindE now_utc (\<lambda>now.
     let grace = is_grace_active (sub_status r) (grace_period_days p) (past_due_entered_at r) now in
     bindE (load_plan_features (plan_id p)) (\<lambda>fs.
     bindE (load_feature_usage oi r fs) (\<lambda>usage.
     returnE \<lparr>snap_status = sub_status r, snap_grace_active = grace,
              snap_features = map (fill_feature usage (subscription_seat_quantity r)) fs,
              cache_version = None\<rparr>))))"

section \<open>Evaluation of a request\<close>

definition evaluate_check :: "snapshot \<Rightarrow> check \<Rightarrow> evaluate_result" where
  "evaluate_check snap c =
     (case map_of (snap_features snap) (check_feature_key c) of
        None \<Rightarrow> \<lparr>ev_feature_key = check_feature_key c, ev_feature_type = ''unknown'', ev_allowed = False,
                 ev_limit = None, ev_used = None, ev_remaining = None, ev_reason = Some ''feature_not_in_plan''\<rparr>
      | Some f \<Rightarrow>
          if \<not> access_allowed (decide_access (snap_status snap) (snap_grace_active snap) (fd_enforcement_mode f))
          then \<lparr>ev_feature_key = check_feature_key c, ev_feature_type = fd_feature_type f, ev_allowed = False,
                ev_limit = fd_limit f, ev_used = Some (fd_used f),
                ev_remaining = remaining_of (fd_limit f) (fd_used f),
                ev_reason = Some ''subscription_access_revoked''\<rparr>
          else
            let d = decide_feature (fd_feature_type f) (fd_limit f) (fd_used f) (fd_enforcement_mode f)
                      (check_quantity c) (fd_is_enabled f) (fd_seats f)
            in \<lparr>ev_feature_key = check_feature_key c, ev_feature_type = fd_feature_type f,
                ev_allowed = dec_allowed d, ev_limit = dec_limit d, ev_used = dec_used d,
                ev_remaining = dec_remaining d, ev_reason = dec_reason d\<rparr>)"

definition evaluate_checks :: "snapshot \<Rightarrow> check list \<Rightarrow> evaluate_result list" where
  "evaluate_checks snap checks = map (evaluate_check snap) checks"

text \<open>
  The caller passes a session, a provider of sessions (which may yield none), or neither.
\<close>

datatype db_source = Given_session | Session_provider bool | No_database

definition snapshot_builder :: "db_source \<Rightarrow> int \<Rightarrow> snapshot app_op" where
  "snapshot_builder src oi =
     (case src of
        Given_session \<Rightarrow> on_session (build_snapshot oi)
      | Session_provider yields \<Rightarrow>
          if yields then on_session (build_snapshot oi)
          else raiseE RuntimeError ''session provider yielded no session''
      | No_database \<Rightarrow> raiseE RuntimeError ''entitlement snapshot miss requires a database session'')"

definition cached_snapshot :: "others \<Rightarrow> db_source \<Rightarrow> int \<Rightarrow> (snapshot \<times> bool) app_op" where
  "cached_snapshot others src oi =
     bindE (get_l1_snapshot oi) (\<lambda>l1.
     case l1 of Some snap \<Rightarrow> returnE (snap, True)
     | None \<Rightarrow>
         bindE (setting entitlement_cache_ttl_seconds) (\<lambda>ttl.
         bindE (get_or_build_cached_snapshot others oi ttl (snapshot_builder src oi)) (\<lambda>(snap, hit).
         thenE (set_l1_snapshot oi snap) (returnE (snap, hit)))))"

definition evaluate :: "others \<Rightarrow> db_source \<Rightarrow> int \<Rightarrow> uuid \<Rightarrow> check list \<Rightarrow> evaluate_response app_op" where
  "evaluate others src oi org_public checks =
     bindE (cached_snapshot others src oi) (\<lambda>(snap, hit).
     bindE (on_session now_utc) (\<lambda>now.
     thenE (on_session (emit_metric (EntitlementEvaluate hit)))
     (returnE \<lparr>resp_organization_public_id = uuid_str org_public, resp_status = snap_status snap,
               resp_results = evaluate_checks snap checks, resp_cache_hit = hit, resp_evaluated_at = now,
               resp_version = (case cache_version snap of None \<Rightarrow> 1 | Some v \<Rightarrow> v)\<rparr>)))"

section \<open>Limits\<close>

text \<open>
  Limits hold. For an enabled quota, rate limit or seat feature, the decision is positive
  exactly when the enforcement is not hard, or there is no limit, or the usage is below the
  effective limit and the requested quantity still fits; the limit reported is the effective one
  (the seats of the subscription for a seat feature that has them), and the remainder is what is
  left of it, never negative.
\<close>

theorem decide_feature_limits:
  assumes "ft \<in> {''quota'', ''rate_limit'', ''seat''}"
  shows "(dec_allowed (decide_feature ft limit used enf quantity True seats) \<longleftrightarrow>
      enf \<noteq> ''hard'' \<or> (case effective_limit ft limit seats of None \<Rightarrow> True
        | Some l \<Rightarrow> used < l \<and> used + quantity \<le> l)) \<and>
    dec_limit (decide_feature ft limit used enf quantity True seats) = effective_limit ft limit seats \<and>
    dec_used (decide_feature ft limit used enf quantity True seats) = Some used \<and>
    dec_remaining (decide_feature ft limit used enf quantity True seats) =
      map_option (\<lambda>l. max 0 (l - used)) (effective_limit ft limit seats)"
proof -
  have "decide_feature ft limit used enf quantity True seats = decide_numeric_feature ft limit used enf quantity seats"
    using assms by (auto simp: decide_feature_def)
  then show ?thesis
    by (cases "effective_limit ft limit seats") (auto simp: decide_numeric_feature_def remaining_of_def Let_def)
qed

theorem decide_feature_limits_witness:
  "dec_allowed (decide_feature ''quota'' (Some 10) 9 ''hard'' 1 True None) \<and>
   \<not> dec_allowed (decide_feature ''quota'' (Some 10) 9 ''hard'' 2 True None) \<and>
   dec_remaining (decide_feature ''seat'' (Some 3) 4 ''soft'' 1 True (Some 5)) = Some 1"
  using decide_feature_limits [of "''quota''" "Some 10" 9 "''hard''" 1 None]
    decide_feature_limits [of "''quota''" "Some 10" 9 "''hard''" 2 None]
    decide_feature_limits [of "''seat''" "Some 3" 4 "''soft''" 1 "Some 5"]
  by (simp add: effective_limit_def)

section \<open>The policy\<close>

text \<open>
  What the evaluator promises, without its order of tests and reasons: a check is granted if the
  feature is in the plan and enabled, the subscription's status gives access, and the feature is a
  boolean one, or a numeric one within its limit.
\<close>

definition status_grants :: "subscription_status \<Rightarrow> bool \<Rightarrow> bool" where
  "status_grants st grace \<longleftrightarrow> st = active \<or> st = trialing \<or> st = past_due \<and> grace"

definition within_limit :: "feature_data \<Rightarrow> int \<Rightarrow> bool" where
  "within_limit f q \<longleftrightarrow> fd_enforcement_mode f \<noteq> ''hard'' \<or>
     (case effective_limit (fd_feature_type f) (fd_limit f) (fd_seats f) of None \<Rightarrow> True
      | Some l \<Rightarrow> fd_used f < l \<and> fd_used f + q \<le> l)"

definition entitled :: "snapshot \<Rightarrow> check \<Rightarrow> bool" where
  "entitled snap c \<longleftrightarrow> (\<exists>f. map_of (snap_features snap) (check_feature_key c) = Some f \<and>
     status_grants (snap_status snap) (snap_grace_active snap) \<and> fd_is_enabled f \<and>
     (fd_feature_type f = ''boolean'' \<or>
      fd_feature_type f \<in> {''quota'', ''rate_limit'', ''seat''} \<and> within_limit f (check_quantity c)))"

lemma decide_access_grants: "access_allowed (decide_access st grace enf) \<longleftrightarrow> status_grants st grace"
  by (auto simp: decide_access_def status_grants_def)

lemma decide_feature_allowed:
  "dec_allowed (decide_feature ft limit used enf q enabled seats) \<longleftrightarrow>
     enabled \<and> (ft = ''boolean'' \<or> ft \<in> {''quota'', ''rate_limit'', ''seat''} \<and>
       (enf \<noteq> ''hard'' \<or> (case effective_limit ft limit seats of None \<Rightarrow> True
          | Some l \<Rightarrow> used < l \<and> used + q \<le> l)))"
  by (cases "effective_limit ft limit seats")
    (auto simp: decide_feature_def decide_numeric_feature_def Let_def)

lemma evaluate_check_entitled: "ev_allowed (evaluate_check snap c) \<longleftrightarrow> entitled snap c"
proof (cases "map_of (snap_features snap) (check_feature_key c)")
  case None
  then show ?thesis by (simp add: evaluate_check_def entitled_def)
next
  case (Some f)
  then show ?thesis
    by (simp add: evaluate_check_def entitled_def decide_access_grants decide_feature_allowed within_limit_def Let_def)
qed

lemma evaluate_check_key: "ev_feature_key (evaluate_check snap c) = check_feature_key c"
  by (simp add: evaluate_check_def Let_def split: option.split)

text \<open>
  C24: The evaluator implements the policy. The answers stand in the order of the checks, one for
  each, under the key that was asked for, and each is positive exactly when the policy grants it;
  in particular nothing is granted once the subscription is canceled, unpaid, incomplete or past
  due without grace.
\<close>

theorem evaluate_checks_refines_policy:
  "map (\<lambda>e. (ev_feature_key e, ev_allowed e)) (evaluate_checks snap checks) =
     map (\<lambda>c. (check_feature_key c, entitled snap c)) checks \<and>
   (snap_status snap \<in> {canceled, unpaid, incomplete} \<or> snap_status snap = past_due \<and> \<not> snap_grace_active snap
     \<longrightarrow> (\<forall>e \<in> set (evaluate_checks snap checks). \<not> ev_allowed e))"
proof -
  have "\<not> entitled snap c" if "snap_status snap \<in> {canceled, unpaid, incomplete} \<or>
      snap_status snap = past_due \<and> \<not> snap_grace_active snap" for c
    using that by (auto simp: entitled_def status_grants_def)
  then show ?thesis
    by (auto simp: evaluate_checks_def evaluate_check_entitled evaluate_check_key)
qed

section \<open>Building the snapshot\<close>

definition window_usage :: "int \<Rightarrow> subscription \<Rightarrow> instant \<Rightarrow> database \<Rightarrow> string \<times> feature_data \<Rightarrow> int" where
  "window_usage oi r now d kf = int_of_decimal (usage_in_window oi (fst kf)
     (usage_window_start (snd kf) now (current_period_start r)) (current_period_end r) d)"

primrec count_usage :: "(string \<times> feature_data \<Rightarrow> int) \<Rightarrow> (string \<times> feature_data) list \<Rightarrow>
  (string \<times> int) list \<Rightarrow> (string \<times> int) list" where
  "count_usage g [] usage = usage"
| "count_usage g (kf # fs) usage = count_usage g fs
     (if fd_feature_type (snd kf) = ''boolean'' then usage else AList.update (fst kf) (g kf) usage)"

lemma feature_usage_steps:
  assumes "\<not> tx_failed s"
  shows "foldE (feature_usage_step oi r now) fs acc s = (Inr (count_usage (window_usage oi r now (db s)) fs acc), s)"
  using assms
  by (induction fs arbitrary: acc) (simp_all add: feature_usage_step_def sum_usage_for_window_def window_usage_def)

lemma map_of_count_usage:
  assumes "distinct (map fst fs)" "k \<in> fst ` set fs \<Longrightarrow> map_of acc k = None"
  shows "map_of (count_usage g fs acc) k = (case map_of fs k of None \<Rightarrow> map_of acc k
     | Some f \<Rightarrow> if fd_feature_type f = ''boolean'' then None else Some (g (k, f)))"
  using assms
proof (induction fs arbitrary: acc)
  case (Cons kf fs)
  let ?acc = "if fd_feature_type (snd kf) = ''boolean'' then acc else AList.update (fst kf) (g kf) acc"
  show ?case
  proof (cases "fst kf = k")
    case True
    then have k: "k \<notin> fst ` set fs" using Cons.prems(1) by auto
    then have "map_of fs k = None" by (simp add: map_of_eq_None_iff)
    moreover have "map_of acc k = None" using Cons.prems(2) True by auto
    ultimately show ?thesis
      using Cons.IH [of ?acc] Cons.prems(1) True k by (cases kf) (auto simp: update_conv')
  next
    case False
    then have "map_of ?acc k = map_of acc k" by (simp add: update_conv')
    moreover have "map_of (kf # fs) k = map_of fs k" using False by (cases kf) simp
    moreover have "map_of (count_usage g fs ?acc) k = (case map_of fs k of None \<Rightarrow> map_of ?acc k
        | Some f \<Rightarrow> if fd_feature_type f = ''boolean'' then None else Some (g (k, f)))"
      using Cons.prems calculation(1) by (intro Cons.IH) auto
    ultimately show ?thesis by (simp only: count_usage.simps)
  qed
qed simp

lemma load_plan_features_run:
  assumes "\<not> tx_failed s"
  shows "\<exists>fs. load_plan_features pid s = (Inr fs, s) \<and> distinct (map fst fs) \<and>
    fst ` set fs = (\<lambda>(l, f). feat_key f) ` set (plan_feature_rows pid (db s)) \<and>
    (\<forall>kf \<in> set fs. \<exists>l f. (l, f) \<in> set (plan_feature_rows pid (db s)) \<and> kf = (feat_key f, plan_feature_data l f))"
proof -
  let ?fs = "dict_of (\<lambda>(l, f). feat_key f) (\<lambda>(l, f). plan_feature_data l f) (plan_feature_rows pid (db s))"
  have "\<exists>l f. (l, f) \<in> set (plan_feature_rows pid (db s)) \<and> kf = (feat_key f, plan_feature_data l f)"
    if "kf \<in> set ?fs" for kf
    using set_dict_of [OF that] by auto
  then show ?thesis
    using assms by (intro exI [of _ ?fs] conjI ballI)
      (simp_all add: load_plan_features_def distinct_dict_of keys_dict_of)
qed

lemma usage_window_start_update [simp]:
  "usage_window_start (f\<lparr>fd_used := n\<rparr>) = usage_window_start f"
  "usage_window_start (f\<lparr>fd_seats := m\<rparr>) = usage_window_start f"
  by (simp_all add: usage_window_start_def fun_eq_iff)

text \<open>
  The hours whose usage counts against a feature: from the hour in which the period starts up to the
  period's end. A rate limit counts from the current hour, day or month if that begins later, and
  without such an interval from the very start of the period.
\<close>

definition counted_hour :: "subscription \<Rightarrow> feature \<Rightarrow> instant \<Rightarrow> instant \<Rightarrow> bool" where
  "counted_hour r ft now h \<longleftrightarrow>
     current_period_start r div hour_us * hour_us \<le> h \<and> h < current_period_end r \<and>
     (feature_type ft = ''rate_limit'' \<longrightarrow>
        (case reset_interval ft of None \<Rightarrow> current_period_start r \<le> h
         | Some i \<Rightarrow>
             if i = ''hour'' then now div hour_us * hour_us \<le> h
             else if i = ''day'' then now div day_us * day_us \<le> h
             else if i = ''month'' then first_of_month (year_of now) (month_of now) \<le> h
             else current_period_start r \<le> h))"

definition counted_usage :: "subscription \<Rightarrow> feature \<Rightarrow> instant \<Rightarrow> database \<Rightarrow> numeric6" where
  "counted_usage r ft now d =
     (\<Sum>u\<leftarrow>[u\<leftarrow>usage_aggregates d. ua_organization_id u = sub_organization_id r \<and>
        ua_feature_key u = feat_key ft \<and> counted_hour r ft now (hour_start u)]. ua_quantity u)"

lemma trunc_to_multiple: "t - t mod m = t div m * m" for t m :: int
  by (simp add: minus_mod_eq_div_mult)

lemma plan_feature_data_type: "fd_feature_type (plan_feature_data l ft) = feature_type ft"
  by (simp add: plan_feature_data_def)

lemma window_counted:
  "usage_window_start (plan_feature_data l ft) now (current_period_start r) \<le> h \<and> h < current_period_end r
     \<longleftrightarrow> counted_hour r ft now h"
proof -
  have le: "current_period_start r div hour_us * hour_us \<le> current_period_start r"
    using trunc_to_multiple [of "current_period_start r" hour_us] by simp
  show ?thesis
    using le by (auto simp: usage_window_start_def rate_window_start_def counted_hour_def plan_feature_data_def
        trunc_hour_def trunc_day_def trunc_month_def trunc_to_multiple split: option.splits)
qed

lemma window_usage_counted:
  "window_usage (sub_organization_id r) r now d (feat_key ft, plan_feature_data l ft) =
     int_of_decimal (counted_usage r ft now d)"
  unfolding window_usage_def usage_in_window_def counted_usage_def fst_conv snd_conv
  using window_counted [of l ft now r] by (simp add: conj_assoc)

text \<open>
  C25: The snapshot counts the usage of its window. For an organization whose last changed
  subscription is \<open>r\<close>, building the snapshot changes no row and gives the subscription's status, whether
  it is past due with its grace period still running, and one entry for the key of each feature of
  its plan. The entry takes type, interval, limit, switch and enforcement mode from the plan's row,
  and as used the whole units of the organization's own hourly totals for that key in the counted
  hours: from the hour in which the period starts, or for a rate limit from the start of the
  current hour, day or month if that is later, up to the period's end. Boolean features use nothing,
  and a seat feature gets the subscription's seats.
\<close>

theorem build_snapshot_counts_usage:
  assumes s: "ready s" and r: "newest_subscription oi (db s) r"
    and p: "p \<in> set (plans (db s))" "plan_id p = sub_plan_id r"
  shows "\<exists>snap t. build_snapshot oi s = (Inr snap, t) \<and> db t = db s \<and> snap_status snap = sub_status r \<and>
    (snap_grace_active snap \<longleftrightarrow> sub_status r = past_due \<and>
       (\<exists>e. past_due_entered_at r = Some e \<and> clock s (clock_pos s) < e + grace_period_days p * day_us)) \<and>
    distinct (map fst (snap_features snap)) \<and>
    fst ` set (snap_features snap) = {feat_key ft | l ft. l \<in> set (plan_features (db s)) \<and>
       pf_plan_id l = plan_id p \<and> ft \<in> set (features (db s)) \<and> feat_id ft = pf_feature_id l} \<and>
    (\<forall>kf \<in> set (snap_features snap). \<exists>l ft. l \<in> set (plan_features (db s)) \<and> pf_plan_id l = plan_id p \<and>
       ft \<in> set (features (db s)) \<and> feat_id ft = pf_feature_id l \<and>
       kf = (feat_key ft, \<lparr>fd_feature_type = feature_type ft, fd_reset_interval = reset_interval ft,
         fd_limit = limit_value l,
         fd_used = (if feature_type ft = ''boolean'' then 0
           else int_of_decimal (counted_usage r ft (clock s (Suc (clock_pos s))) (db s))),
         fd_seats = (if feature_type ft = ''seat'' then subscription_seat_quantity r else None),
         fd_is_enabled = is_enabled l, fd_enforcement_mode = enforcement_mode l\<rparr>))"
proof -
  let ?u = "s\<lparr>clock_pos := Suc (clock_pos s)\<rparr>" and ?now = "clock s (Suc (clock_pos s))"
  let ?t = "s\<lparr>clock_pos := Suc (Suc (clock_pos s))\<rparr>" and ?rows = "plan_feature_rows (plan_id p) (db s)"
  have nf: "\<not> tx_failed s" using s by (rule readyD(1))
  have rows: "(l, ft) \<in> set ?rows \<longleftrightarrow> l \<in> set (plan_features (db s)) \<and> pf_plan_id l = plan_id p \<and>
      ft \<in> set (features (db s)) \<and> feat_id ft = pf_feature_id l" for l ft
    by (auto simp: plan_feature_rows_def)
  have oi: "sub_organization_id r = oi" using r by (simp add: newest_subscription_def)
  have fp: "filter (\<lambda>q. plan_id q = sub_plan_id r) (plans (db s)) = [p]"
    using unique_key_filter [OF keys_uniqueD(2) [OF readyD(2) [OF s]] p(1)] p(2) by simp
  have load: "load_subscription_plan oi s = (Inr (r, p), s)"
    using nf primary_subscriptionI [OF r] fp by (simp add: load_subscription_plan_def get_primary_subscription_def)
  obtain fs where fs: "load_plan_features (plan_id p) ?u = (Inr fs, ?u)" "distinct (map fst fs)"
    "fst ` set fs = (\<lambda>(l, f). feat_key f) ` set ?rows"
    "\<forall>kf \<in> set fs. \<exists>l f. (l, f) \<in> set ?rows \<and> kf = (feat_key f, plan_feature_data l f)"
    using load_plan_features_run [of ?u "plan_id p"] nf by auto
  define g where "g = window_usage oi r ?now (db s)"
  define usage where "usage = count_usage g fs []"
  let ?seats = "subscription_seat_quantity r" and ?grace = "is_grace_active (sub_status r)
    (grace_period_days p) (past_due_entered_at r) (clock s (clock_pos s))"
  let ?snap = "\<lparr>snap_status = sub_status r, snap_grace_active = ?grace,
    snap_features = map (fill_feature usage ?seats) fs, cache_version = None\<rparr>"
  have "load_feature_usage oi r fs ?u = (Inr usage, ?t)"
    using feature_usage_steps [of ?t oi r ?now fs "[]"] nf by (simp add: load_feature_usage_def usage_def g_def)
  then have run: "build_snapshot oi s = (Inr ?snap, ?t)"
    using load fs(1) by (simp add: build_snapshot_def Let_def)
  have used: "(case map_of usage k of None \<Rightarrow> 0 | Some n \<Rightarrow> n) =
      (if fd_feature_type f = ''boolean'' then 0 else g (k, f))" if "(k, f) \<in> set fs" for k f
    using map_of_count_usage [OF fs(2), of k "[]" g] map_of_is_SomeI [OF fs(2) that]
    by (simp add: usage_def)
  have grace: "?grace \<longleftrightarrow> sub_status r = past_due \<and>
      (\<exists>e. past_due_entered_at r = Some e \<and> clock s (clock_pos s) < e + grace_period_days p * day_us)"
    by (auto simp: is_grace_active_def compute_grace_until_def timedelta_days_def split: option.splits)
  have entry: "\<exists>l ft. (l, ft) \<in> set ?rows \<and>
       kf = (feat_key ft, \<lparr>fd_feature_type = feature_type ft, fd_reset_interval = reset_interval ft,
         fd_limit = limit_value l,
         fd_used = (if feature_type ft = ''boolean'' then 0
           else int_of_decimal (counted_usage r ft ?now (db s))),
         fd_seats = (if feature_type ft = ''seat'' then ?seats else None),
         fd_is_enabled = is_enabled l, fd_enforcement_mode = enforcement_mode l\<rparr>)"
    if kf: "kf \<in> set (snap_features ?snap)" for kf
  proof -
    obtain kf0 where kf0: "kf0 \<in> set fs" "kf = fill_feature usage ?seats kf0" using kf by auto
    with fs(4) obtain l ft where lf: "(l, ft) \<in> set ?rows" "kf0 = (feat_key ft, plan_feature_data l ft)" by blast
    have "g (feat_key ft, plan_feature_data l ft) = int_of_decimal (counted_usage r ft ?now (db s))"
      unfolding g_def oi [symmetric] by (rule window_usage_counted)
    with used [OF kf0(1) [unfolded lf(2)]]
    have n: "(case map_of usage (feat_key ft) of None \<Rightarrow> 0 | Some n \<Rightarrow> n) =
        (if feature_type ft = ''boolean'' then 0 else int_of_decimal (counted_usage r ft ?now (db s)))"
      by (simp add: plan_feature_data_type)
    have "kf = (feat_key ft, \<lparr>fd_feature_type = feature_type ft,
         fd_reset_interval = reset_interval ft, fd_limit = limit_value l,
         fd_used = (if feature_type ft = ''boolean'' then 0
           else int_of_decimal (counted_usage r ft ?now (db s))),
         fd_seats = (if feature_type ft = ''seat'' then ?seats else None),
         fd_is_enabled = is_enabled l, fd_enforcement_mode = enforcement_mode l\<rparr>)"
      unfolding kf0(2) lf(2) fill_feature_def fst_conv snd_conv n by (simp add: plan_feature_data_def)
    with lf(1) show ?thesis by blast
  qed
  have keys: "fst \<circ> fill_feature usage ?seats = fst" "\<And>x. fst (fill_feature usage ?seats x) = fst x"
    by (simp_all add: fill_feature_def fun_eq_iff)
  have "fst ` set (snap_features ?snap) = {feat_key ft | l ft. (l, ft) \<in> set ?rows}"
    using fs(3) keys by (auto simp: image_image)
  with run fs(2) grace entry keys show ?thesis
    unfolding rows by (intro exI [of _ ?snap] exI [of _ ?t]) (simp add: conj_assoc)
qed

section \<open>Reading through the caches\<close>

lemma evaluate_checks_version: "evaluate_checks (snap\<lparr>cache_version := v\<rparr>) checks = evaluate_checks snap checks"
  by (simp add: evaluate_checks_def evaluate_check_def split: option.split)

lemma snapshot_builder_run:
  assumes "src = Given_session \<or> src = Session_provider True" "build_snapshot oi (app_session a) = (Inr snap, s)"
  shows "snapshot_builder src oi a = (Inr snap, a\<lparr>app_session := s\<rparr>)"
  using assms by (auto simp: snapshot_builder_def)

lemma get_or_build_miss:
  assumes miss: "redis_live a (entitlement_snapshot_key oi) = None" "redis_live a (entitlement_build_lock_key oi) = None"
    and v: "redis_live a (entitlement_version_key oi) = Some (RInt v)" and ttl: "0 < ttl"
    and b: "\<And>rd. builder (a\<lparr>redis_data := rd\<rparr>) = (Inr snap, a\<lparr>redis_data := rd, app_session := s\<rparr>)"
  shows "\<exists>c. get_or_build_cached_snapshot others oi ttl builder a = (Inr (snap\<lparr>cache_version := Some v\<rparr>, False), c) \<and>
    redis_live c (entitlement_snapshot_key oi) = Some (RDict (snap\<lparr>cache_version := Some v\<rparr>)) \<and>
    redis_live c (entitlement_build_lock_key oi) = None \<and> c = a\<lparr>redis_data := redis_data c, app_session := s\<rparr>"
proof -
  let ?l = "entitlement_build_lock_key oi" and ?k = "entitlement_snapshot_key oi"
  let ?s = "snap\<lparr>cache_version := Some v\<rparr>"
  let ?rd = "(redis_data a)(?l \<mapsto> (RInt 1, Some (redis_now a + BUILD_LOCK_TTL_SECONDS * second_us)))"
  let ?a = "a\<lparr>redis_data := ?rd\<rparr>"
  let ?c = "a\<lparr>redis_data := ?rd(?k \<mapsto> (RDict ?s, Some (redis_now a + ttl * second_us)), ?l := None), app_session := s\<rparr>"
  have g: "get_cached_value ?k x = (Inr (case redis_live x ?k of Some (RDict d) \<Rightarrow> Some d | _ \<Rightarrow> None), x)" for x
    by (simp add: get_cached_value_def)
  have live: "redis_live ?a ?k = None" "redis_live (?a\<lparr>app_session := s\<rparr>) (entitlement_version_key oi) = Some (RInt v)"
    using miss(1) v by (simp_all add: redis_live_def)
  have st: "stamp_cache_version oi snap (?a\<lparr>app_session := s\<rparr>) = (Inr ?s, ?a\<lparr>app_session := s\<rparr>)"
    using live(2) by (simp add: stamp_cache_version_def get_entitlement_version_def)
  have nx: "redis_set_nx ?l (RInt 1) (Some BUILD_LOCK_TTL_SECONDS) a = (Inr True, ?a)"
    using miss(2) by (simp add: redis_set_nx_def)
  have bs: "build_and_store oi ttl builder ?a = (Inr (?s, False),
      (?a\<lparr>app_session := s\<rparr>)\<lparr>redis_data := ?rd(?k \<mapsto> (RDict ?s, Some (redis_now a + ttl * second_us)))\<rparr>)"
    using live(1) b [of ?rd] st by (simp add: build_and_store_def g set_cached_value_def)
  have "get_or_build_cached_snapshot others oi ttl builder a = (Inr (?s, False), ?c)"
    using nx bs by (simp add: get_or_build_cached_snapshot_def g miss(1))
  then show ?thesis using ttl by (intro exI [of _ ?c]) (simp add: redis_live_def)
qed

text \<open>
  C26: After an invalidation the next evaluation sees the database. Once the version of an
  organization has been bumped (as every committed change does), an evaluation that can take the
  build lock answers from a snapshot built from the database at that moment, not from a cached
  one: it reports a miss and the new version, and it leaves the new snapshot in Redis for the
  others.
\<close>

theorem evaluate_after_bump_fresh:
  assumes v: "version_of a oi = Some v" "v + 1 < 2 ^ 63"
    and lock: "redis_live a (entitlement_build_lock_key oi) = None"
    and ttl: "0 < entitlement_cache_ttl_seconds (settings (app_session a))"
    and b: "build_snapshot oi (app_session a) = (Inr snap, s)"
    and src: "src = Given_session \<or> src = Session_provider True"
  shows "\<exists>b resp c. bump_entitlement_version oi a = (Inr (v + 1), b) \<and>
    evaluate others src oi u checks b = (Inr resp, c) \<and> resp_results resp = evaluate_checks snap checks \<and>
    resp_status resp = snap_status snap \<and> resp_version resp = v + 1 \<and> \<not> resp_cache_hit resp \<and>
    redis_live c (entitlement_snapshot_key oi) = Some (RDict (snap\<lparr>cache_version := Some (v + 1)\<rparr>))"
proof -
  obtain x where x: "increment_entitlement_version oi a = (Inr (v + 1), x)" "app_session x = app_session a"
    "redis_live x (entitlement_version_key oi) = Some (RInt (v + 1))"
    "\<forall>k. k \<noteq> entitlement_version_key oi \<longrightarrow>
       redis_live x k = (if k = entitlement_snapshot_key oi then None else redis_live a k)"
    "snapshot_l1 x oi = None"
    using increment_entitlement_version_run [OF v] by auto
  have miss: "redis_live x (entitlement_snapshot_key oi) = None" "redis_live x (entitlement_build_lock_key oi) = None"
    using x(4) lock by simp_all
  have bd: "snapshot_builder src oi (x\<lparr>redis_data := rd\<rparr>) = (Inr snap, x\<lparr>redis_data := rd, app_session := s\<rparr>)" for rd
    using snapshot_builder_run [OF src, of oi "x\<lparr>redis_data := rd\<rparr>"] b x(2) by simp
  let ?s = "snap\<lparr>cache_version := Some (v + 1)\<rparr>"
  obtain y where y: "get_or_build_cached_snapshot others oi (entitlement_cache_ttl_seconds (settings (app_session a)))
      (snapshot_builder src oi) x = (Inr (?s, False), y)"
    "redis_live y (entitlement_snapshot_key oi) = Some (RDict ?s)"
    using get_or_build_miss [OF miss x(3) ttl bd] by blast
  obtain z where z: "set_l1_snapshot oi ?s y = (Inr (), z)" "redis_live z = redis_live y"
    by (cases "entitlement_l1_ttl_seconds (settings (app_session y)) \<le> 0")
      (auto simp: set_l1_snapshot_def redis_live_def fun_eq_iff)
  have "cached_snapshot others src oi x = (Inr (?s, False), z)"
    using x(2,5) y(1) z(1) by (simp add: cached_snapshot_def get_l1_snapshot_def)
  then show ?thesis
    using x(1) y(2) z(2)
    by (auto simp: bump_entitlement_version_def evaluate_def evaluate_checks_version)
qed

text \<open>
  A hit needs no database. While the process holds a snapshot that has not expired, an
  evaluation answers from it, reports a hit, and touches neither Redis nor a row.
\<close>

theorem evaluate_hit_local:
  assumes "snapshot_l1 a oi = Some (snap, e)" "monotonic a (mono_pos a) < e"
  shows "\<exists>resp b. evaluate others src oi u checks a = (Inr resp, b) \<and> resp_cache_hit resp \<and>
    resp_results resp = evaluate_checks snap checks \<and> db (app_session b) = db (app_session a) \<and>
    redis_data b = redis_data a \<and> snapshot_l1 b = snapshot_l1 a"
  using assms by (simp add: evaluate_def cached_snapshot_def get_l1_snapshot_def)

section \<open>Witnesses\<close>

lemma sample_primary: "primary_subscription 1 sample_db = Some sample_sub"
  by (simp add: primary_subscription_def order_by_desc_def)

lemma sample_snapshot:
  "\<exists>snap t. build_snapshot 1 sample_session = (Inr snap, t) \<and> snap_status snap = active"
  using sample_primary
  by (simp add: build_snapshot_def load_subscription_plan_def get_primary_subscription_def load_plan_features_def
      load_feature_usage_def plan_feature_rows_def sample_db_def Let_def)

text \<open>
  A period that starts half past the hour, three units in that hour, two before it, and five of
  another organization.
\<close>

definition api_feature :: feature where
  "api_feature = \<lparr>feat_id = 401, feat_key = ''api'', feature_type = ''quota'', default_limit = None, reset_interval = None\<rparr>"

definition api_limit :: plan_feature where
  "api_limit = \<lparr>pf_id = 402, pf_plan_id = 201, pf_feature_id = 401, limit_value = Some 100, is_enabled = True,
     enforcement_mode = ''hard''\<rparr>"

definition hourly_total :: "int \<Rightarrow> int \<Rightarrow> instant \<Rightarrow> int \<Rightarrow> usage_aggregate" where
  "hourly_total i oi h n = \<lparr>ua_id = i, ua_public_id = of_int (600 + i), ua_organization_id = oi, ua_feature_key = ''api'',
     hour_start = h, ua_quantity = decimal_of_int n\<rparr>"

definition used_session :: session where
  "used_session = sample_session\<lparr>db := sample_db\<lparr>
     organizations := [sample_org, sample_org\<lparr>org_id := 2, org_public_id := 102, org_external_id := None,
       org_idempotency_key := None\<rparr>],
     subscriptions := [sample_sub\<lparr>current_period_start := day_us + hour_us div 2\<rparr>],
     features := [api_feature], plan_features := [api_limit],
     usage_aggregates := [hourly_total 1 1 day_us 3, hourly_total 2 1 0 2, hourly_total 3 2 day_us 5]\<rparr>\<rparr>"

lemma used_ready: "ready used_session"
  by (simp add: ready_def used_session_def sequence_ahead_def hourly_total_def)
    (simp add: integrity_defs unique_by_def List.map_filter_simps sample_org_def sample_sub_def api_limit_def
      api_feature_def hourly_total_def)

theorem build_snapshot_counts_usage_witness:
  "\<exists>snap t. build_snapshot 1 used_session = (Inr snap, t) \<and> db t = db used_session \<and> snap_status snap = active \<and>
     (\<lambda>kf. (fst kf, fd_used (snd kf), fd_limit (snd kf))) ` set (snap_features snap) = {(''api'', 3, Some 100)}"
proof -
  let ?r = "sample_sub\<lparr>current_period_start := day_us + hour_us div 2\<rparr>"
  have r: "newest_subscription 1 (db used_session) ?r"
    by (simp add: newest_subscription_def used_session_def)
  have p: "sample_plan \<in> set (plans (db used_session))" "plan_id sample_plan = sub_plan_id ?r"
    by (simp_all add: used_session_def)
  have fs: "features (db used_session) = [api_feature]" "plan_features (db used_session) = [api_limit]"
    by (simp_all add: used_session_def)
  have c: "int_of_decimal (counted_usage ?r api_feature now (db used_session)) = 3" for now
    by (simp add: counted_usage_def used_session_def counted_hour_def api_feature_def hourly_total_def sample_sub_def
        decimal_of_int_def int_of_decimal_def)
  have k: "feat_key api_feature = ''api''" "feature_type api_feature = ''quota''" "feat_id api_feature = 401"
    "pf_feature_id api_limit = 401" "pf_plan_id api_limit = plan_id sample_plan" "limit_value api_limit = Some 100"
    by (simp_all add: api_feature_def api_limit_def)
  from build_snapshot_counts_usage [OF used_ready r p] obtain snap t where
    b: "build_snapshot 1 used_session = (Inr snap, t)" "db t = db used_session" "snap_status snap = sub_status ?r"
    and ks: "fst ` set (snap_features snap) = {feat_key ft | l ft. l \<in> set (plan_features (db used_session)) \<and>
       pf_plan_id l = plan_id sample_plan \<and> ft \<in> set (features (db used_session)) \<and> feat_id ft = pf_feature_id l}"
    and es: "\<forall>kf \<in> set (snap_features snap). \<exists>l ft. l \<in> set (plan_features (db used_session)) \<and>
       pf_plan_id l = plan_id sample_plan \<and> ft \<in> set (features (db used_session)) \<and> feat_id ft = pf_feature_id l \<and>
       kf = (feat_key ft, \<lparr>fd_feature_type = feature_type ft, fd_reset_interval = reset_interval ft,
         fd_limit = limit_value l,
         fd_used = (if feature_type ft = ''boolean'' then 0
           else int_of_decimal (counted_usage ?r ft (clock used_session (Suc (clock_pos used_session))) (db used_session))),
         fd_seats = (if feature_type ft = ''seat'' then subscription_seat_quantity ?r else None),
         fd_is_enabled = is_enabled l, fd_enforcement_mode = enforcement_mode l\<rparr>)"
    by (elim exE conjE)
  have "fst ` set (snap_features snap) = {''api''}" using ks by (simp add: fs k)
  moreover have "(fst kf, fd_used (snd kf), fd_limit (snd kf)) = (''api'', 3, Some 100)"
    if "kf \<in> set (snap_features snap)" for kf
  proof -
    from bspec [OF es that] obtain l ft where "l = api_limit" "ft = api_feature"
      "feat_key ft = fst kf" "limit_value l = fd_limit (snd kf)"
      "fd_used (snd kf) = (if feature_type ft = ''boolean'' then 0
         else int_of_decimal (counted_usage ?r ft (clock used_session (Suc (clock_pos used_session))) (db used_session)))"
      unfolding fs by (elim exE conjE) simp
    then show ?thesis using c k by simp
  qed
  ultimately have "(\<lambda>kf. (fst kf, fd_used (snd kf), fd_limit (snd kf))) ` set (snap_features snap) = {(''api'', 3, Some 100)}"
    by (metis (no_types, lifting) image_constant_conv image_cong image_is_empty insert_not_empty)
  then show ?thesis using b by (intro exI [of _ snap] exI [of _ t]) simp
qed

theorem evaluate_checks_refines_policy_witness:
  "list_all (\<lambda>e. \<not> ev_allowed e) (evaluate_checks \<lparr>snap_status = unpaid, snap_grace_active = False,
      snap_features = [], cache_version = None\<rparr> [\<lparr>check_feature_key = ''api'', check_quantity = 1\<rparr>])"
  using evaluate_checks_refines_policy [of "\<lparr>snap_status = unpaid, snap_grace_active = False,
      snap_features = [], cache_version = None\<rparr>" "[\<lparr>check_feature_key = ''api'', check_quantity = 1\<rparr>]"]
  by (simp add: list_all_iff)

theorem evaluate_after_bump_fresh_witness:
  "\<exists>b resp c. bump_entitlement_version 1 sample_app = (Inr 2, b) \<and>
     evaluate (\<lambda>_ x. x) Given_session 1 101 [] b = (Inr resp, c) \<and> resp_version resp = 2 \<and> \<not> resp_cache_hit resp"
proof -
  obtain snap t where "build_snapshot 1 (app_session sample_app) = (Inr snap, t)" using sample_snapshot by auto
  from evaluate_after_bump_fresh [of sample_app 1 1, OF _ _ _ _ this, of Given_session "\<lambda>_ x. x" 101 "[]"]
  show ?thesis by (auto simp: version_of_def default_settings_def)
qed

theorem evaluate_hit_local_witness:
  "\<exists>resp b. evaluate (\<lambda>_ x. x) No_database 1 101 []
       (sample_app\<lparr>snapshot_l1 := [1 \<mapsto> (\<lparr>snap_status = active, snap_grace_active = False, snap_features = [],
          cache_version = None\<rparr>, 5)]\<rparr>) = (Inr resp, b) \<and> resp_cache_hit resp"
  using evaluate_hit_local [of "sample_app\<lparr>snapshot_l1 := [1 \<mapsto> (\<lparr>snap_status = active,
      snap_grace_active = False, snap_features = [], cache_version = None\<rparr>, 5)]\<rparr>" 1 _ 5 "\<lambda>_ x. x" No_database 101 "[]"]
  by (auto simp: sample_app_def)

end
