(* ===== verification/Usage.thy ===== *)
theory Usage
  imports Ledger "HOL-Library.List_Lexorder" "HOL-Library.Char_ord"
begin

text \<open>
  Usage metering (\<^verbatim>\<open>services/usage.py\<close>, \<^verbatim>\<open>services/usage_partitions.py\<close>): events are ingested in
  batches, at most one per organization and idempotency key, into monthly partitions that are
  created on demand; hourly totals are recomputed from the events, and summed per feature for a
  billing period.
\<close>

section \<open>Partitions\<close>

text \<open>
  \<^verbatim>\<open>datetime(year, month, 1)\<close> raises for numbers that are no month, and so does the start of the month
  after December 9999.
\<close>

definition check_month :: "int \<Rightarrow> int \<Rightarrow> py_error + unit" where
  "check_month y m =
     (if y < 1 \<or> y > 9999 then Inl (Exc ValueError (''year '' @ str_int y @ '' is out of range''))
      else if m < 1 \<or> m > 12 then Inl (Exc ValueError ''month must be in 1..12'')
      else if y = 9999 \<and> m = 12 then Inl (Exc ValueError ''year 10000 is out of range'')
      else Inr ())"

definition month_bounds :: "pydatetime \<Rightarrow> py_error + instant \<times> instant" where
  "month_bounds dt =
     (if \<not> has_tz dt then Inl (Exc ValueError ''dt must be timezone-aware'')
      else
        let t = astimezone_utc dt; (y, m) = next_month (year_of t) (month_of t)
        in case check_month (year_of t) (month_of t) of Inl e \<Rightarrow> Inl e
           | Inr _ \<Rightarrow> Inr (trunc_month t, first_of_month y m))"

text \<open>The half-open range of instants that the partition of a month takes.\<close>

definition partition_takes :: "int \<times> int \<Rightarrow> instant \<Rightarrow> bool" where
  "partition_takes ym t \<longleftrightarrow> first_of_month (fst ym) (snd ym) \<le> t \<and>
     t < first_of_month (fst (next_month (fst ym) (snd ym))) (snd (next_month (fst ym) (snd ym)))"

definition partition_name :: "int \<Rightarrow> int \<Rightarrow> string" where
  "partition_name y m = ''usage_events_'' @ pad 4 y @ ''_'' @ pad 2 m"

definition create_partition :: "int \<times> int \<Rightarrow> database \<Rightarrow> database" where
  "create_partition ym d =
     (if ym \<in> set (usage_partitions d) then d else d\<lparr>usage_partitions := usage_partitions d @ [ym]\<rparr>)"

text \<open>
  The advisory lock only orders concurrent callers; \<^verbatim>\<open>CREATE TABLE IF NOT EXISTS ... PARTITION OF\<close>
  and the unique index on organization and key follow.
\<close>

definition ensure_usage_partition :: "int \<Rightarrow> int \<Rightarrow> string op" where
  "ensure_usage_partition y m =
     thenE (liftE (check_month y m))
     (thenE flush (thenE (update_db (create_partition (y, m))) (returnE (partition_name y m))))"

definition ensure_step :: "instant \<Rightarrow> string list \<Rightarrow> string list op" where
  "ensure_step t acc =
     bindE (ensure_usage_partition (year_of t) (month_of t)) (\<lambda>n. returnE (acc @ [n]))"

definition ensure_current_and_next_partitions :: "string list op" where
  "ensure_current_and_next_partitions =
     bindE now_utc (\<lambda>now.
     bindE (liftE (month_bounds (Aware now 0))) (\<lambda>(current, nxt).
     foldE ensure_step [current, nxt] []))"

section \<open>Ingestion\<close>

record usage_event_in =
  uin_feature_key :: string
  uin_quantity :: int
  uin_idempotency_key :: string
  uin_recorded_at :: "pydatetime option"

record usage_batch_result =
  batch_accepted :: int
  batch_duplicates :: int
  batch_public_ids :: "string list"

definition normalized_time :: "instant \<Rightarrow> usage_event_in \<Rightarrow> py_error + instant" where
  "normalized_time dflt e =
     (let at = (case uin_recorded_at e of None \<Rightarrow> Aware dflt 0 | Some t \<Rightarrow> t)
      in if \<not> has_tz at then Inl (Exc ValueError ''recorded_at must be timezone-aware'')
         else Inr (astimezone_utc at))"

definition normalize_step :: "instant \<Rightarrow> usage_event_in \<Rightarrow> (usage_event_in \<times> instant) list \<Rightarrow>
  (usage_event_in \<times> instant) list op" where
  "normalize_step dflt e acc =
     bindE (liftE (normalized_time dflt e)) (\<lambda>t. returnE (acc @ [(e, t)]))"

definition public_ids_by_key :: "int \<Rightarrow> string list \<Rightarrow> database \<Rightarrow> (string \<times> string) list" where
  "public_ids_by_key oi keys d =
     dict_of ue_idempotency_key (\<lambda>u. uuid_str (ue_public_id u))
       (filter (\<lambda>u. ue_organization_id u = oi \<and> ue_idempotency_key u \<in> set keys) (usage_events d))"

record usage_row =
  ur_public_id :: uuid
  ur_feature_key :: string
  ur_quantity :: numeric6
  ur_recorded_at :: instant
  ur_idempotency_key :: string

text \<open>The rows to insert; the keys already in it are the pending ones.\<close>

definition row_step :: "(string \<times> string) list \<Rightarrow> usage_event_in \<times> instant \<Rightarrow> usage_row list \<Rightarrow> usage_row list op" where
  "row_step known et rows =
     (if map_of known (uin_idempotency_key (fst et)) \<noteq> None \<or>
         uin_idempotency_key (fst et) \<in> ur_idempotency_key ` set rows
      then returnE rows
      else bindE new_uuid (\<lambda>u. returnE (rows @
        [\<lparr>ur_public_id = u, ur_feature_key = uin_feature_key (fst et),
          ur_quantity = decimal_of_int (uin_quantity (fst et)), ur_recorded_at = snd et,
          ur_idempotency_key = uin_idempotency_key (fst et)\<rparr>])))"

definition row_months :: "usage_row list \<Rightarrow> (int \<times> int) list" where
  "row_months rows =
     order_by (\<lambda>(y, m). y * 100 + m)
       (remdups (map (\<lambda>r. (year_of (ur_recorded_at r), month_of (ur_recorded_at r))) rows))"

text \<open>
  Insertion: a row is routed to its partition; there the primary key, the public id and the pair
  of organization and idempotency key are unique.
\<close>

definition same_partition :: "database \<Rightarrow> instant \<Rightarrow> instant \<Rightarrow> bool" where
  "same_partition d t t' \<longleftrightarrow> (\<exists>ym \<in> set (usage_partitions d). partition_takes ym t \<and> partition_takes ym t')"

definition usage_conflict :: "usage_event \<Rightarrow> database \<Rightarrow> bool" where
  "usage_conflict r d \<longleftrightarrow> same_partition d (recorded_at r) (recorded_at r) \<and>
     (\<exists>q \<in> set (usage_events d). same_partition d (recorded_at q) (recorded_at r) \<and>
        (ue_organization_id q = ue_organization_id r \<and> ue_idempotency_key q = ue_idempotency_key r \<or>
         recorded_at q = recorded_at r \<and> (ue_id q = ue_id r \<or> ue_public_id q = ue_public_id r)))"

definition usage_event_ok :: "usage_event \<Rightarrow> database \<Rightarrow> bool" where
  "usage_event_ok r d \<longleftrightarrow> same_partition d (recorded_at r) (recorded_at r) \<and>
     refers org_id (ue_organization_id r) (organizations d) \<and>
     refers_opt sub_id (ue_subscription_id r) (subscriptions d)"

definition add_usage_event :: "usage_event \<Rightarrow> database \<Rightarrow> database" where
  "add_usage_event r d = d\<lparr>usage_events := usage_events d @ [r]\<rparr>"

definition insert_usage_row :: "int \<Rightarrow> usage_row \<Rightarrow> int \<Rightarrow> int op" where
  "insert_usage_row oi row n =
     bindE (next_id USAGE_EVENTS) (\<lambda>i. bindE (getE tx_now) (\<lambda>t.
     let r = \<lparr>ue_id = i, ue_public_id = ur_public_id row, ue_organization_id = oi, ue_subscription_id = None,
              ue_feature_key = ur_feature_key row, ue_quantity = ur_quantity row,
              recorded_at = ur_recorded_at row, ue_idempotency_key = ur_idempotency_key row,
              ue_metadata = [], ingested_at = t\<rparr>
     in bindE (insert_or_ignore (usage_conflict r) (usage_event_ok r) (add_usage_event r))
          (\<lambda>inserted. returnE (if inserted then n + 1 else n))))"

text \<open>\<^verbatim>\<open>[public_ids_by_key[event.idempotency_key] for event in events]\<close>.\<close>

definition lookup_step :: "(string \<times> string) list \<Rightarrow> usage_event_in \<Rightarrow> string list \<Rightarrow> string list op" where
  "lookup_step known e acc =
     (case map_of known (uin_idempotency_key e) of
        None \<Rightarrow> raiseE KeyError (uin_idempotency_key e)
      | Some p \<Rightarrow> returnE (acc @ [p]))"

definition ensure_month :: "int \<times> int \<Rightarrow> unit \<Rightarrow> unit op" where
  "ensure_month ym x = thenE (ensure_usage_partition (fst ym) (snd ym)) (returnE x)"

definition ingest_usage_batch :: "int \<Rightarrow> usage_event_in list \<Rightarrow> usage_batch_result op" where
  "ingest_usage_batch oi events =
     bindE now_utc (\<lambda>dflt.
     bindE (foldE (normalize_step dflt) events []) (\<lambda>normalized.
     if normalized = []
     then returnE \<lparr>batch_accepted = 0, batch_duplicates = 0, batch_public_ids = []\<rparr>
     else
       let keys = map uin_idempotency_key events in
       bindE (query (public_ids_by_key oi keys)) (\<lambda>known.
       bindE (foldE (row_step known) normalized []) (\<lambda>rows.
       thenE (foldE ensure_month (row_months rows) ())
       (if rows = []
        then bindE (foldE (lookup_step known) events []) (\<lambda>ids.
          returnE \<lparr>batch_accepted = 0, batch_duplicates = int (length events), batch_public_ids = ids\<rparr>)
        else
          bindE (foldE (insert_usage_row oi) rows 0) (\<lambda>accepted.
          bindE (query (public_ids_by_key oi keys)) (\<lambda>known'.
          bindE (foldE (lookup_step known') events []) (\<lambda>ids.
          thenE (whenE (accepted \<noteq> 0) (emit_metric (UsageEventsIngested accepted)))
          (returnE \<lparr>batch_accepted = accepted, batch_duplicates = int (length events) - accepted,
                    batch_public_ids = ids\<rparr>)))))))))"

section \<open>Hourly totals\<close>

definition normalize_hour_start :: "pydatetime \<Rightarrow> py_error + instant" where
  "normalize_hour_start t =
     (if \<not> has_tz t then Inl (Exc ValueError ''hour_start must be timezone-aware'')
      else Inr (trunc_hour (astimezone_utc t)))"

definition events_between :: "int \<Rightarrow> string \<Rightarrow> instant \<Rightarrow> instant \<Rightarrow> database \<Rightarrow> usage_event list" where
  "events_between oi k start stop d =
     filter (\<lambda>u. ue_organization_id u = oi \<and> ue_feature_key u = k \<and> start \<le> recorded_at u \<and> recorded_at u < stop)
       (usage_events d)"

definition aggregate_key :: "usage_aggregate \<Rightarrow> int \<times> string \<times> instant" where
  "aggregate_key u = (ua_organization_id u, ua_feature_key u, hour_start u)"

definition usage_aggregate_ok :: "usage_aggregate \<Rightarrow> database \<Rightarrow> bool" where
  "usage_aggregate_ok r d \<longleftrightarrow> fresh ua_id r (usage_aggregates d) \<and> fresh ua_public_id r (usage_aggregates d) \<and>
     fresh aggregate_key r (usage_aggregates d) \<and> refers org_id (ua_organization_id r) (organizations d)"

definition add_usage_aggregate :: "usage_aggregate \<Rightarrow> database \<Rightarrow> database" where
  "add_usage_aggregate r d = d\<lparr>usage_aggregates := usage_aggregates d @ [r]\<rparr>"

definition set_aggregate_quantity :: "int \<times> string \<times> instant \<Rightarrow> numeric6 \<Rightarrow> database \<Rightarrow> database" where
  "set_aggregate_quantity k q d =
     d\<lparr>usage_aggregates := update_rows (\<lambda>r. aggregate_key r = k) (\<lambda>r. r\<lparr>ua_quantity := q\<rparr>) (usage_aggregates d)\<rparr>"

text \<open>\<^verbatim>\<open>INSERT ... ON CONFLICT (organization_id, feature_key, hour_start) DO UPDATE SET quantity\<close>.\<close>

definition upsert_aggregate :: "usage_aggregate \<Rightarrow> usage_aggregate op" where
  "upsert_aggregate r =
     bindE (query (\<lambda>d. filter (\<lambda>q. aggregate_key q = aggregate_key r) (usage_aggregates d))) (\<lambda>old.
     thenE (if old = [] then insert_checked (usage_aggregate_ok r) (add_usage_aggregate r)
            else update_db (set_aggregate_quantity (aggregate_key r) (ua_quantity r)))
     (bindE (query (\<lambda>d. filter (\<lambda>q. aggregate_key q = aggregate_key r) (usage_aggregates d))) scalar_one))"

definition aggregate_hour :: "int \<Rightarrow> string \<Rightarrow> pydatetime \<Rightarrow> usage_aggregate op" where
  "aggregate_hour oi k t =
     bindE (liftE (normalize_hour_start t)) (\<lambda>start.
     bindE (query (\<lambda>d. \<Sum>u\<leftarrow>events_between oi k start (start + timedelta_hours 1) d. ue_quantity u)) (\<lambda>q.
     bindE new_uuid (\<lambda>u. bindE (next_id USAGE_AGGREGATES) (\<lambda>i.
     bindE (upsert_aggregate \<lparr>ua_id = i, ua_public_id = u, ua_organization_id = oi, ua_feature_key = k,
        hour_start = start, ua_quantity = q\<rparr>) (\<lambda>r.
     thenE flush (returnE r))))))"

definition pending_hours :: "instant \<Rightarrow> instant \<Rightarrow> database \<Rightarrow> (int \<times> string \<times> instant) list" where
  "pending_hours since until d =
     remdups (map (\<lambda>u. (ue_organization_id u, ue_feature_key u, trunc_hour (recorded_at u)))
       (filter (\<lambda>u. since \<le> recorded_at u \<and> recorded_at u < until) (usage_events d)))"

definition aggregate_step :: "int \<times> string \<times> instant \<Rightarrow> int \<Rightarrow> int op" where
  "aggregate_step bucket n =
     (case bucket of (oi, k, t) \<Rightarrow> thenE (aggregate_hour oi k (Aware t 0)) (returnE (n + 1)))"

text \<open>A naive \<^verbatim>\<open>now\<close> is taken to be in UTC.\<close>

definition aggregate_pending_hours :: "int \<Rightarrow> pydatetime option \<Rightarrow> int op" where
  "aggregate_pending_hours lookback now =
     bindE (case now of None \<Rightarrow> now_utc | Some t \<Rightarrow> returnE (astimezone_utc t)) (\<lambda>reference.
     bindE (query (pending_hours (reference - timedelta_hours lookback) reference)) (\<lambda>buckets.
     foldE aggregate_step buckets 0))"

record usage_period_aggregate =
  upa_feature_key :: string
  upa_period_start :: instant
  upa_period_end :: instant
  upa_quantity :: numeric6

text \<open>\<^verbatim>\<open>GROUP BY feature_key\<close> with the sum of the quantities.\<close>

definition feature_sums :: "usage_aggregate list \<Rightarrow> (string \<times> numeric6) list" where
  "feature_sums rows =
     map (\<lambda>k. (k, \<Sum>u\<leftarrow>filter (\<lambda>u. ua_feature_key u = k) rows. ua_quantity u)) (remdups (map ua_feature_key rows))"

definition aggregates_between :: "int \<Rightarrow> instant \<Rightarrow> instant \<Rightarrow> database \<Rightarrow> usage_aggregate list" where
  "aggregates_between oi start stop d =
     filter (\<lambda>u. ua_organization_id u = oi \<and> start \<le> hour_start u \<and> hour_start u < stop) (usage_aggregates d)"

definition list_usage_aggregates_for_period :: "int \<Rightarrow> pydatetime \<Rightarrow> pydatetime \<Rightarrow> usage_period_aggregate list op" where
  "list_usage_aggregates_for_period oi start stop =
     (if \<not> has_tz start \<or> \<not> has_tz stop then raiseE ValueError ''period bounds must be timezone-aware''
      else
        let s = astimezone_utc start; e = astimezone_utc stop in
        bindE (query (\<lambda>d. order_by fst (feature_sums (aggregates_between oi (trunc_hour s) e d)))) (\<lambda>sums.
        returnE (map (\<lambda>(k, q). \<lparr>upa_feature_key = k, upa_period_start = s, upa_period_end = e, upa_quantity = q\<rparr>)
          (filter (\<lambda>(k, q). 0 < q) sums))))"

section \<open>Write footprint\<close>

lemmas usage_write_defs = add_usage_event_def add_usage_aggregate_def set_aggregate_quantity_def create_partition_def

locale usage_client = db_preorder +
  assumes usage_insert: "usage_event_ok r d \<Longrightarrow> \<not> usage_conflict r d \<Longrightarrow> D d (add_usage_event r d)"
    and aggregate_insert: "usage_aggregate_ok a d \<Longrightarrow> D d (add_usage_aggregate a d)"
    and aggregate_set: "D d (set_aggregate_quantity k q d)"
    and partition_create: "D d (create_partition ym d)"
begin

lemma ensure_usage_partition: "keeps_db D (ensure_usage_partition y m)"
  unfolding ensure_usage_partition_def by (intro primitives partition_create)

lemma ensure_current_and_next_partitions: "keeps_db D ensure_current_and_next_partitions"
  unfolding ensure_current_and_next_partitions_def ensure_step_def
  by (intro primitives ensure_usage_partition)

lemma ingest_usage_batch: "keeps_db D (ingest_usage_batch oi events)"
  unfolding ingest_usage_batch_def normalize_step_def row_step_def ensure_month_def insert_usage_row_def
    lookup_step_def
  by (intro primitives ensure_usage_partition usage_insert)

lemma aggregate_hour: "keeps_db D (aggregate_hour oi k t)"
  unfolding aggregate_hour_def upsert_aggregate_def by (intro primitives aggregate_insert aggregate_set)

lemma aggregate_pending_hours: "keeps_db D (aggregate_pending_hours h now)"
  unfolding aggregate_pending_hours_def aggregate_step_def by (intro primitives aggregate_hour)

end

interpretation usage_log: usage_client ledger_extends
  by unfold_locales (simp_all add: ledger_extends_def usage_write_defs)

lemma db_ok_usage:
  "db_ok (add_usage_event r d) = db_ok d" "db_ok (add_usage_aggregate a d) = db_ok d"
  "db_ok (set_aggregate_quantity k q d) = db_ok d" "db_ok (create_partition ym d) = db_ok d"
  by (simp_all add: integrity_defs usage_write_defs)

interpretation usage_integrity: usage_client stays_ok
  by unfold_locales (simp_all add: stays_ok_def db_ok_usage)

section \<open>Ingesting a batch\<close>

lemma normalize_steps:
  assumes "\<forall>e \<in> set events. \<exists>t. normalized_time dflt e = Inr t"
  shows "foldE (normalize_step dflt) events acc s =
    (Inr (acc @ map (\<lambda>e. (e, projr (normalized_time dflt e))) events), s)"
  using assms
proof (induction events arbitrary: acc)
  case (Cons e events)
  then obtain t where t: "normalized_time dflt e = Inr t" by auto
  then have "normalize_step dflt e acc s = (Inr (acc @ [(e, t)]), s)" by (simp add: normalize_step_def)
  with Cons t show ?case by simp
qed simp

text \<open>Identifiers drawn one after the other.\<close>

definition draws :: "nat \<Rightarrow> session \<Rightarrow> session" where
  "draws k s = s\<lparr>clock_pos := clock_pos s + k, rnd_pos := rnd_pos s + 2 * k\<rparr>"

lemma draws_0 [simp]: "draws 0 s = s"
  by (simp add: draws_def)

lemma draws_simps [simp]:
  "db (draws k s) = db s" "tx_failed (draws k s) = tx_failed s" "seqs (draws k s) = seqs s"
  "tx_now (draws k s) = tx_now s" "settings (draws k s) = settings s"
  by (simp_all add: draws_def)

lemma after_uuid_draws: "after_uuid (draws k s) = draws (Suc k) s"
  by (simp add: after_uuid_def draws_def)

lemma upcoming_uuid_draws: "upcoming_uuid (draws k s) = uuid_draw s (clock_pos s + k) (rnd_pos s + 2 * k)"
  by (simp add: upcoming_uuid_def uuid_draw_def draws_def)

definition rows_ok :: "session \<Rightarrow> (string \<times> string) list \<Rightarrow> (usage_event_in \<times> instant) list \<Rightarrow> usage_row list \<Rightarrow> bool" where
  "rows_ok s known ets rows \<longleftrightarrow>
     (\<forall>i < length rows. ur_public_id (rows ! i) = uuid_draw s (clock_pos s + i) (rnd_pos s + 2 * i)) \<and>
     distinct (map ur_idempotency_key rows) \<and>
     ur_idempotency_key ` set rows = (uin_idempotency_key \<circ> fst) ` set ets - dom (map_of known) \<and>
     (\<forall>r \<in> set rows. \<exists>(e, t) \<in> set ets. ur_feature_key r = uin_feature_key e \<and>
        ur_quantity r = decimal_of_int (uin_quantity e) \<and> ur_idempotency_key r = uin_idempotency_key e \<and>
        ur_recorded_at r = t)"

lemma row_step_ok:
  assumes "rows_ok s known seen rows"
  shows "\<exists>rows'. row_step known et rows (draws (length rows) s) = (Inr rows', draws (length rows') s) \<and>
    rows_ok s known (seen @ [et]) rows'"
proof (cases "map_of known (uin_idempotency_key (fst et)) \<noteq> None \<or>
    uin_idempotency_key (fst et) \<in> ur_idempotency_key ` set rows")
  case True
  then have k: "uin_idempotency_key (fst et) \<in> dom (map_of known) \<or>
      uin_idempotency_key (fst et) \<in> ur_idempotency_key ` set rows" by auto
  have "rows_ok s known (seen @ [et]) rows"
    unfolding rows_ok_def
  proof (intro conjI)
    show "ur_idempotency_key ` set rows = (uin_idempotency_key \<circ> fst) ` set (seen @ [et]) - dom (map_of known)"
      using assms k unfolding rows_ok_def by auto
  qed (use assms in \<open>auto simp: rows_ok_def\<close>)
  with True show ?thesis by (intro exI [of _ rows]) (auto simp: row_step_def)
next
  case False
  let ?u = "uuid_draw s (clock_pos s + length rows) (rnd_pos s + 2 * length rows)"
  let ?r = "\<lparr>ur_public_id = ?u, ur_feature_key = uin_feature_key (fst et),
      ur_quantity = decimal_of_int (uin_quantity (fst et)), ur_recorded_at = snd et,
      ur_idempotency_key = uin_idempotency_key (fst et)\<rparr>"
  have "row_step known et rows (draws (length rows) s) = (Inr (rows @ [?r]), draws (length (rows @ [?r])) s)"
    using False by (simp add: row_step_def upcoming_uuid_draws after_uuid_draws)
  moreover have "rows_ok s known (seen @ [et]) (rows @ [?r])"
    unfolding rows_ok_def
  proof (intro conjI)
    have "uin_idempotency_key (fst et) \<notin> dom (map_of known)" using False by (simp add: domIff)
    then show "ur_idempotency_key ` set (rows @ [?r]) =
        (uin_idempotency_key \<circ> fst) ` set (seen @ [et]) - dom (map_of known)"
      using assms unfolding rows_ok_def by auto
    show "\<forall>i < length (rows @ [?r]). ur_public_id ((rows @ [?r]) ! i) =
        uuid_draw s (clock_pos s + i) (rnd_pos s + 2 * i)"
      using assms by (auto simp: rows_ok_def nth_append less_Suc_eq)
    show "distinct (map ur_idempotency_key (rows @ [?r]))" using assms False by (simp add: rows_ok_def)
    show "\<forall>r \<in> set (rows @ [?r]). \<exists>(e, t) \<in> set (seen @ [et]). ur_feature_key r = uin_feature_key e \<and>
        ur_quantity r = decimal_of_int (uin_quantity e) \<and> ur_idempotency_key r = uin_idempotency_key e \<and>
        ur_recorded_at r = t"
      using assms by (cases et) (auto simp: rows_ok_def)
  qed
  ultimately show ?thesis by blast
qed

lemma row_steps_ok:
  assumes "rows_ok s known seen rows"
  shows "\<exists>rows'. foldE (row_step known) ets rows (draws (length rows) s) = (Inr rows', draws (length rows') s) \<and>
    rows_ok s known (seen @ ets) rows'"
  using assms
proof (induction ets arbitrary: seen rows)
  case Nil
  then show ?case by auto
next
  case (Cons et ets)
  from row_step_ok [OF Cons.prems, of et] obtain rows' where
    r: "row_step known et rows (draws (length rows) s) = (Inr rows', draws (length rows') s)"
    "rows_ok s known (seen @ [et]) rows'" by blast
  from Cons.IH [OF r(2)] r(1) show ?case by simp
qed

lemma create_partitions:
  "\<exists>ps. fold create_partition yms d = d\<lparr>usage_partitions := ps\<rparr> \<and> set ps = set (usage_partitions d) \<union> set yms"
proof (induction yms arbitrary: d)
  case Nil
  then show ?case by (intro exI [of _ "usage_partitions d"]) simp
next
  case (Cons ym yms)
  from Cons.IH [of "create_partition ym d"] obtain ps where
    "fold create_partition yms (create_partition ym d) = (create_partition ym d)\<lparr>usage_partitions := ps\<rparr>"
    "set ps = set (usage_partitions (create_partition ym d)) \<union> set yms" by blast
  moreover have "(create_partition ym d)\<lparr>usage_partitions := ps\<rparr> = d\<lparr>usage_partitions := ps\<rparr>"
    "set (usage_partitions (create_partition ym d)) = insert ym (set (usage_partitions d))"
    by (auto simp: create_partition_def)
  ultimately show ?case by (intro exI [of _ ps]) auto
qed

lemma ensure_months:
  assumes "\<not> tx_failed s" "\<forall>ym \<in> set yms. check_month (fst ym) (snd ym) = Inr ()"
  shows "foldE ensure_month yms () s = (Inr (), s\<lparr>db := fold create_partition yms (db s)\<rparr>)"
  using assms by (induction yms arbitrary: s) (simp_all add: ensure_month_def ensure_usage_partition_def)

lemma partition_takes_month: "partition_takes (year_of t, month_of t) t"
  using month_contains [of t] by (simp add: partition_takes_def trunc_month_def)

lemma set_row_months: "set (row_months rows) = (\<lambda>r. (year_of (ur_recorded_at r), month_of (ur_recorded_at r))) ` set rows"
  by (simp add: row_months_def)

definition stored_event :: "int \<Rightarrow> instant \<Rightarrow> int \<Rightarrow> usage_row \<Rightarrow> usage_event" where
  "stored_event oi t i row = \<lparr>ue_id = i, ue_public_id = ur_public_id row, ue_organization_id = oi,
     ue_subscription_id = None, ue_feature_key = ur_feature_key row, ue_quantity = ur_quantity row,
     recorded_at = ur_recorded_at row, ue_idempotency_key = ur_idempotency_key row, ue_metadata = [], ingested_at = t\<rparr>"

lemma stored_event_simps [simp]:
  "ue_id (stored_event oi t i row) = i" "ue_public_id (stored_event oi t i row) = ur_public_id row"
  "ue_organization_id (stored_event oi t i row) = oi" "ue_subscription_id (stored_event oi t i row) = None"
  "ue_feature_key (stored_event oi t i row) = ur_feature_key row" "ue_quantity (stored_event oi t i row) = ur_quantity row"
  "recorded_at (stored_event oi t i row) = ur_recorded_at row"
  "ue_idempotency_key (stored_event oi t i row) = ur_idempotency_key row"
  by (simp_all add: stored_event_def)

text \<open>Rows that can be inserted: partitions exist, and neither keys nor identifiers are taken.\<close>

definition insertable :: "int \<Rightarrow> session \<Rightarrow> usage_row list \<Rightarrow> bool" where
  "insertable oi s rows \<longleftrightarrow> \<not> tx_failed s \<and> refers org_id oi (organizations (db s)) \<and>
     (\<forall>r \<in> set rows. same_partition (db s) (ur_recorded_at r) (ur_recorded_at r)) \<and>
     distinct (map ur_idempotency_key rows) \<and> distinct (map ur_public_id rows) \<and>
     (\<forall>u \<in> set (usage_events (db s)). ue_id u < seqs s USAGE_EVENTS \<and>
        ue_public_id u \<notin> ur_public_id ` set rows \<and>
        (ue_organization_id u = oi \<longrightarrow> ue_idempotency_key u \<notin> ur_idempotency_key ` set rows))"

lemma insert_usage_row_run:
  assumes "insertable oi s (row # rows)"
  shows "\<exists>t. insert_usage_row oi row n s = (Inr (n + 1), t) \<and> insertable oi t rows \<and>
    db t = add_usage_event (stored_event oi (tx_now s) (seqs s USAGE_EVENTS) row) (db s) \<and>
    t = s\<lparr>seqs := seqs t, db := db t\<rparr>"
proof -
  let ?r = "stored_event oi (tx_now s) (seqs s USAGE_EVENTS) row"
  let ?t = "s\<lparr>seqs := (seqs s)(USAGE_EVENTS := seqs s USAGE_EVENTS + 1), db := add_usage_event ?r (db s)\<rparr>"
  have "\<not> usage_conflict ?r (db s)"
    using assms by (fastforce simp: insertable_def usage_conflict_def)
  moreover have "usage_event_ok ?r (db s)"
    using assms by (simp add: insertable_def usage_event_ok_def refers_opt_def)
  ultimately have "insert_usage_row oi row n s = (Inr (n + 1), ?t)"
    using assms by (simp add: insert_usage_row_def Let_def insertable_def stored_event_def)
  moreover have "insertable oi ?t rows"
    using assms by (auto simp: insertable_def add_usage_event_def same_partition_def intro: less_trans [OF _ less_add_one])
  ultimately show ?thesis by (intro exI [of _ ?t]) simp
qed

lemma insert_usage_rows_run:
  assumes "insertable oi s rows"
  shows "\<exists>t news. foldE (insert_usage_row oi) rows n s = (Inr (n + int (length rows)), t) \<and> \<not> tx_failed t \<and>
    db t = (db s)\<lparr>usage_events := usage_events (db s) @ news\<rparr> \<and>
    map (\<lambda>u. (ue_organization_id u, ue_feature_key u, ue_quantity u, recorded_at u, ue_idempotency_key u)) news =
      map (\<lambda>r. (oi, ur_feature_key r, ur_quantity r, ur_recorded_at r, ur_idempotency_key r)) rows"
  using assms
proof (induction rows arbitrary: s n)
  case Nil
  then show ?case by (simp add: insertable_def)
next
  case (Cons row rows)
  let ?r = "stored_event oi (tx_now s) (seqs s USAGE_EVENTS) row"
  obtain t where t: "insert_usage_row oi row n s = (Inr (n + 1), t)" "insertable oi t rows"
    "db t = add_usage_event ?r (db s)"
    using insert_usage_row_run [OF Cons.prems] by blast
  obtain u news where u: "foldE (insert_usage_row oi) rows (n + 1) t = (Inr (n + 1 + int (length rows)), u)" "\<not> tx_failed u"
    "db u = (db t)\<lparr>usage_events := usage_events (db t) @ news\<rparr>"
    "map (\<lambda>u. (ue_organization_id u, ue_feature_key u, ue_quantity u, recorded_at u, ue_idempotency_key u)) news =
      map (\<lambda>r. (oi, ur_feature_key r, ur_quantity r, ur_recorded_at r, ur_idempotency_key r)) rows"
    using Cons.IH [OF t(2)] by blast
  show ?case
    using t(1,3) u by (intro exI [of _ u] exI [of _ "?r # news"]) (simp add: add_usage_event_def)
qed

lemma lookup_steps:
  assumes "\<forall>e \<in> set events. map_of known (uin_idempotency_key e) \<noteq> None"
  shows "foldE (lookup_step known) events acc s =
    (Inr (acc @ map (\<lambda>e. the (map_of known (uin_idempotency_key e))) events), s)"
  using assms by (induction events arbitrary: acc) (auto simp: lookup_step_def)

lemma dom_public_ids_by_key:
  "map_of (public_ids_by_key oi keys d) k \<noteq> None \<longleftrightarrow>
     k \<in> set keys \<and> (\<exists>u \<in> set (usage_events d). ue_organization_id u = oi \<and> ue_idempotency_key u = k)"
  unfolding map_of_eq_None_iff public_ids_by_key_def keys_dict_of by auto

lemma row_steps_known:
  assumes "\<forall>et \<in> set ets. map_of known (uin_idempotency_key (fst et)) \<noteq> None"
  shows "foldE (row_step known) ets [] s = (Inr [], s)"
  using assms by (induction ets) (auto simp: row_step_def)

text \<open>The months that Python's datetimes can hold together with the month after.\<close>

definition month_storable :: "instant \<Rightarrow> bool" where
  "month_storable t \<longleftrightarrow> 1 \<le> year_of t \<and> year_of t \<le> 9999 \<and> \<not> (year_of t = 9999 \<and> month_of t = 12)"

lemma check_month_storable: "month_storable t \<Longrightarrow> check_month (year_of t) (month_of t) = Inr ()"
  using date_of_correct(2,3) [of t] by (auto simp: check_month_def month_storable_def)

definition event_time :: "instant \<Rightarrow> usage_event_in \<Rightarrow> instant" where
  "event_time dflt e = (case uin_recorded_at e of None \<Rightarrow> dflt | Some t \<Rightarrow> astimezone_utc t)"

text \<open>What an ingestion relies on: the organization exists and the identifiers to come are new.\<close>

definition can_ingest :: "nat \<Rightarrow> int \<Rightarrow> session \<Rightarrow> bool" where
  "can_ingest n oi s \<longleftrightarrow> \<not> tx_failed s \<and> refers org_id oi (organizations (db s)) \<and> fresh_ids n s \<and>
     (\<forall>u \<in> set (usage_events (db s)). ue_id u < seqs s USAGE_EVENTS)"

lemma usage_event_used: "u \<in> set (usage_events d) \<Longrightarrow> ue_public_id u \<in> used_ids d"
  by (simp add: used_ids_def)

lemma rows_insertable:
  assumes s: "\<not> tx_failed s" "refers org_id oi (organizations (db s))"
    "\<forall>u \<in> set (usage_events (db s)). ue_id u < seqs s USAGE_EVENTS"
    and ok: "rows_ok s (public_ids_by_key oi keys (db s)) ets rows"
    and keys: "(uin_idempotency_key \<circ> fst) ` set ets \<subseteq> set keys"
    and ps: "set (row_months rows) \<subseteq> set ps" and fr: "fresh_ids (length rows) s"
  shows "insertable oi ((draws k s)\<lparr>db := (db s)\<lparr>usage_partitions := ps\<rparr>\<rparr>) rows"
proof -
  have ids: "ur_public_id (rows ! i) = uuid_draw s (clock_pos s + i) (rnd_pos s + 2 * i)" if "i < length rows" for i
    using ok that by (simp add: rows_ok_def)
  have dist: "distinct (map ur_public_id rows)"
    unfolding distinct_conv_nth
  proof (intro allI impI)
    fix i j assume i: "i < length (map ur_public_id rows)" and j: "j < length (map ur_public_id rows)" and ij: "i \<noteq> j"
    from fr i j ij have "uuid_draw s (clock_pos s + i) (rnd_pos s + 2 * i) \<noteq>
        uuid_draw s (clock_pos s + j) (rnd_pos s + 2 * j)"
      unfolding fresh_ids_def by simp
    then show "map ur_public_id rows ! i \<noteq> map ur_public_id rows ! j" using ids i j by simp
  qed
  have "ur_public_id r \<notin> used_ids (db s)" if r: "r \<in> set rows" for r
  proof -
    from r obtain i where i: "i < length rows" "r = rows ! i" by (metis in_set_conv_nth)
    with fr have "uuid_draw s (clock_pos s + i) (rnd_pos s + 2 * i) \<notin> used_ids (db s)"
      unfolding fresh_ids_def by simp
    with i ids show ?thesis by simp
  qed
  then have pub: "ue_public_id u \<notin> ur_public_id ` set rows" if "u \<in> set (usage_events (db s))" for u
    using usage_event_used [OF that] by force
  have key: "ue_idempotency_key u \<notin> ur_idempotency_key ` set rows"
    if "u \<in> set (usage_events (db s))" "ue_organization_id u = oi" for u
  proof
    let ?known = "public_ids_by_key oi keys (db s)"
    assume "ue_idempotency_key u \<in> ur_idempotency_key ` set rows"
    then have "ue_idempotency_key u \<in> (uin_idempotency_key \<circ> fst) ` set ets" "ue_idempotency_key u \<notin> dom (map_of ?known)"
      using ok unfolding rows_ok_def by blast+
    with keys have "ue_idempotency_key u \<in> set keys" "map_of ?known (ue_idempotency_key u) = None" by (blast, simp add: domIff)
    with that dom_public_ids_by_key [of oi keys "db s"] show False by blast
  qed
  have "same_partition ((db s)\<lparr>usage_partitions := ps\<rparr>) (ur_recorded_at r) (ur_recorded_at r)" if "r \<in> set rows" for r
    using ps that partition_takes_month unfolding set_row_months by (force simp: same_partition_def)
  then show ?thesis using s ok dist pub key by (simp add: insertable_def rows_ok_def)
qed

lemma rows_ok_length:
  assumes "rows_ok s known ets rows"
  shows "length rows \<le> length ets"
proof -
  have "length rows = card (ur_idempotency_key ` set rows)"
    using assms distinct_card [of "map ur_idempotency_key rows"] unfolding rows_ok_def by simp
  also have "\<dots> \<le> card ((uin_idempotency_key \<circ> fst) ` set ets)"
    using assms by (intro card_mono) (auto simp: rows_ok_def)
  also have "\<dots> \<le> card (set ets)" by (rule card_image_le) simp
  finally show ?thesis using card_length [of ets] by simp
qed

text \<open>The rows of a batch as they are stored.\<close>

definition stored_as :: "int \<Rightarrow> usage_row list \<Rightarrow> usage_event list \<Rightarrow> bool" where
  "stored_as oi rows news \<longleftrightarrow>
     map (\<lambda>u. (ue_organization_id u, ue_feature_key u, ue_quantity u, recorded_at u, ue_idempotency_key u)) news =
     map (\<lambda>r. (oi, ur_feature_key r, ur_quantity r, ur_recorded_at r, ur_idempotency_key r)) rows"

lemma stored_as_facts:
  assumes "stored_as oi rows news"
  shows "length news = length rows" "map ue_idempotency_key news = map ur_idempotency_key rows"
    and "ue_idempotency_key ` set news = ur_idempotency_key ` set rows"
    and "u \<in> set news \<Longrightarrow> ue_organization_id u = oi \<and> (\<exists>r \<in> set rows. ue_feature_key u = ur_feature_key r \<and>
      ue_quantity u = ur_quantity r \<and> ue_idempotency_key u = ur_idempotency_key r)"
proof -
  note nw = assms [unfolded stored_as_def]
  show "length news = length rows" using arg_cong [OF nw, of length] by simp
  show nk: "map ue_idempotency_key news = map ur_idempotency_key rows"
    using arg_cong [OF nw, of "map (\<lambda>(a, b, c, d, e). e)"] by (simp add: comp_def)
  show "ue_idempotency_key ` set news = ur_idempotency_key ` set rows" using arg_cong [OF nk, of set] by simp
  assume "u \<in> set news"
  then have "(ue_organization_id u, ue_feature_key u, ue_quantity u, recorded_at u, ue_idempotency_key u) \<in>
      set (map (\<lambda>r. (oi, ur_feature_key r, ur_quantity r, ur_recorded_at r, ur_idempotency_key r)) rows)"
    unfolding nw [symmetric] by force
  then show "ue_organization_id u = oi \<and> (\<exists>r \<in> set rows. ue_feature_key u = ur_feature_key r \<and>
      ue_quantity u = ur_quantity r \<and> ue_idempotency_key u = ur_idempotency_key r)" by auto
qed

text \<open>The keys of an organization's stored events.\<close>

abbreviation used_keys :: "int \<Rightarrow> database \<Rightarrow> string set" where
  "used_keys oi d \<equiv> ue_idempotency_key ` {u \<in> set (usage_events d). ue_organization_id u = oi}"

lemma stored_batch:
  assumes ok: "rows_ok x (public_ids_by_key oi (map uin_idempotency_key events) d) ets rows"
    and ets: "fst ` set ets = set events" and nw: "stored_as oi rows news"
  shows "distinct (map ue_idempotency_key news)"
    and "ue_idempotency_key ` set news = uin_idempotency_key ` set events - used_keys oi d"
    and "u \<in> set news \<Longrightarrow> \<exists>e \<in> set events. ue_feature_key u = uin_feature_key e \<and>
      ue_quantity u = decimal_of_int (uin_quantity e) \<and> ue_idempotency_key u = uin_idempotency_key e"
proof -
  show "distinct (map ue_idempotency_key news)" using stored_as_facts(2) [OF nw] ok by (simp add: rows_ok_def)
  have k: "(uin_idempotency_key \<circ> fst) ` set ets = uin_idempotency_key ` set events" using ets by (metis image_comp)
  have "map_of (public_ids_by_key oi (map uin_idempotency_key events) d) k' \<noteq> None \<longleftrightarrow>
      k' \<in> uin_idempotency_key ` set events \<and> k' \<in> used_keys oi d" for k'
    using dom_public_ids_by_key [of oi "map uin_idempotency_key events" d k'] by force
  then show "ue_idempotency_key ` set news = uin_idempotency_key ` set events - used_keys oi d"
    using ok k unfolding stored_as_facts(3) [OF nw] rows_ok_def dom_def by auto
  assume "u \<in> set news"
  then obtain r where r: "r \<in> set rows" "ue_feature_key u = ur_feature_key r" "ue_quantity u = ur_quantity r"
    "ue_idempotency_key u = ur_idempotency_key r" using stored_as_facts(4) [OF nw] by blast
  with ok obtain e t where "(e, t) \<in> set ets" "ur_feature_key r = uin_feature_key e"
    "ur_quantity r = decimal_of_int (uin_quantity e)" "ur_idempotency_key r = uin_idempotency_key e"
    unfolding rows_ok_def by blast
  with r ets show "\<exists>e \<in> set events. ue_feature_key u = uin_feature_key e \<and>
      ue_quantity u = decimal_of_int (uin_quantity e) \<and> ue_idempotency_key u = uin_idempotency_key e"
    by (metis fst_conv image_eqI)
qed

text \<open>Once the batch is stored, each of its keys has a public identifier.\<close>

lemma batch_known:
  assumes "usage_events d' = usage_events d @ news" "\<forall>u \<in> set news. ue_organization_id u = oi"
    and "ue_idempotency_key ` set news = uin_idempotency_key ` set events - used_keys oi d"
  shows "\<forall>e \<in> set events. map_of (public_ids_by_key oi (map uin_idempotency_key events) d') (uin_idempotency_key e) \<noteq> None"
proof
  fix e assume e: "e \<in> set events"
  have "uin_idempotency_key e \<in> used_keys oi d \<or> uin_idempotency_key e \<in> ue_idempotency_key ` set news"
    unfolding assms(3) using e by blast
  then have "\<exists>u \<in> set (usage_events d'). ue_organization_id u = oi \<and> ue_idempotency_key u = uin_idempotency_key e"
    using assms(1,2) by auto
  then show "map_of (public_ids_by_key oi (map uin_idempotency_key events) d') (uin_idempotency_key e) \<noteq> None"
    unfolding dom_public_ids_by_key using e by auto
qed

lemma ingest_prepared:
  assumes can: "can_ingest (Suc (length events)) oi s" and ne: "events \<noteq> []"
    and aware: "\<forall>e \<in> set events. \<forall>t. uin_recorded_at e = Some t \<longrightarrow> has_tz t"
    and months: "\<forall>e \<in> set events. month_storable (event_time (clock s (clock_pos s)) e)"
    and s': "s' = s\<lparr>clock_pos := Suc (clock_pos s)\<rparr>" and known: "known = public_ids_by_key oi (map uin_idempotency_key events) (db s)"
  shows "\<exists>ets rows ps v. foldE (normalize_step (clock s (clock_pos s))) events [] s' = (Inr ets, s') \<and> ets \<noteq> [] \<and>
    fst ` set ets = set events \<and> rows_ok s' known ets rows \<and>
    foldE (row_step known) ets [] s' = (Inr rows, draws (length rows) s') \<and>
    fold create_partition (row_months rows) (db s) = (db s)\<lparr>usage_partitions := ps\<rparr> \<and>
    v = (draws (length rows) s')\<lparr>db := (db s)\<lparr>usage_partitions := ps\<rparr>\<rparr> \<and>
    foldE ensure_month (row_months rows) () (draws (length rows) s') = (Inr (), v) \<and> insertable oi v rows"
proof -
  let ?now = "clock s (clock_pos s)"
  define ets where "ets = map (\<lambda>e. (e, projr (normalized_time ?now e))) events"
  have nt: "\<forall>e \<in> set events. \<exists>t. normalized_time ?now e = Inr t"
    using aware by (auto simp: normalized_time_def Let_def split: option.splits)
  have norm: "foldE (normalize_step ?now) events [] s' = (Inr ets, s')" and ets: "ets \<noteq> []" "fst ` set ets = set events"
    using normalize_steps [OF nt, of "[]" s'] ne by (simp_all add: ets_def image_image)
  have "rows_ok s' known [] []" by (simp add: rows_ok_def)
  from row_steps_ok [OF this, of ets] obtain rows where
    rs: "foldE (row_step known) ets [] s' = (Inr rows, draws (length rows) s')" and ok: "rows_ok s' known ets rows" by auto
  have len: "length rows \<le> length events" using rows_ok_length [OF ok] by (simp add: ets_def)
  obtain ps where ps: "fold create_partition (row_months rows) (db s) = (db s)\<lparr>usage_partitions := ps\<rparr>"
    "set ps = set (usage_partitions (db s)) \<union> set (row_months rows)" using create_partitions by blast
  let ?v = "(draws (length rows) s')\<lparr>db := (db s)\<lparr>usage_partitions := ps\<rparr>\<rparr>"
  have "month_storable (snd et)" if "et \<in> set ets" for et
    using that aware months
    by (auto simp: ets_def normalized_time_def event_time_def Let_def split: option.splits)
  then have row_months_ok: "\<forall>ym \<in> set (row_months rows). check_month (fst ym) (snd ym) = Inr ()"
    using ok unfolding set_row_months rows_ok_def by (force intro!: check_month_storable)
  have en: "foldE ensure_month (row_months rows) () (draws (length rows) s') = (Inr (), ?v)"
    using ensure_months [of "draws (length rows) s'"] can ps(1) row_months_ok by (simp add: can_ingest_def s')
  have "fresh_ids (length rows) s"
    using can len by (intro fresh_ids_le [of "Suc (length events)" s "length rows"]) (simp_all add: can_ingest_def)
  then have fr: "fresh_ids (length rows) s'" by (rule fresh_ids_same) (simp_all add: s')
  have k: "(uin_idempotency_key \<circ> fst) ` set ets = uin_idempotency_key ` set events" using ets(2) by (metis image_comp)
  have "insertable oi ?v rows"
    using rows_insertable [of s' oi "map uin_idempotency_key events" ets rows ps "length rows"] can ok k ps(2) fr
    by (simp add: can_ingest_def s' known)
  with norm ets rs ok ps(1) en show ?thesis
    by (intro exI [of _ ets] exI [of _ rows] exI [of _ ps] exI [of _ ?v]) simp
qed

lemma ingest_usage_batch_run:
  assumes can: "can_ingest (Suc (length events)) oi s" and ne: "events \<noteq> []"
    and aware: "\<forall>e \<in> set events. \<forall>t. uin_recorded_at e = Some t \<longrightarrow> has_tz t"
    and months: "\<forall>e \<in> set events. month_storable (event_time (clock s (clock_pos s)) e)"
  shows "\<exists>res t news. ingest_usage_batch oi events s = (Inr res, t) \<and> \<not> tx_failed t \<and>
    usage_events (db t) = usage_events (db s) @ news \<and>
    batch_accepted res = int (length news) \<and> batch_duplicates res = int (length events) - int (length news) \<and>
    batch_public_ids res = map (\<lambda>e. the (map_of (public_ids_by_key oi (map uin_idempotency_key events) (db t))
      (uin_idempotency_key e))) events \<and>
    distinct (map ue_idempotency_key news) \<and>
    ue_idempotency_key ` set news = uin_idempotency_key ` set events - used_keys oi (db s) \<and>
    (\<forall>u \<in> set news. ue_organization_id u = oi \<and> (\<exists>e \<in> set events. ue_feature_key u = uin_feature_key e \<and>
       ue_quantity u = decimal_of_int (uin_quantity e) \<and> ue_idempotency_key u = uin_idempotency_key e))"
proof -
  let ?s = "s\<lparr>clock_pos := Suc (clock_pos s)\<rparr>" and ?keys = "map uin_idempotency_key events"
  let ?known = "public_ids_by_key oi ?keys (db s)"
  have nf: "\<not> tx_failed s" using can by (simp add: can_ingest_def)
  obtain ets rows ps v where norm: "foldE (normalize_step (clock s (clock_pos s))) events [] ?s = (Inr ets, ?s)" "ets \<noteq> []"
    and ets: "fst ` set ets = set events" and ok: "rows_ok ?s ?known ets rows"
    and rs: "foldE (row_step ?known) ets [] ?s = (Inr rows, draws (length rows) ?s)"
    and ps: "fold create_partition (row_months rows) (db s) = (db s)\<lparr>usage_partitions := ps\<rparr>"
    and v: "v = (draws (length rows) ?s)\<lparr>db := (db s)\<lparr>usage_partitions := ps\<rparr>\<rparr>"
    and en: "foldE ensure_month (row_months rows) () (draws (length rows) ?s) = (Inr (), v)" and ins: "insertable oi v rows"
    using ingest_prepared [OF assms refl refl] by blast
  obtain w news where w: "foldE (insert_usage_row oi) rows 0 v = (Inr (0 + int (length rows)), w)" "\<not> tx_failed w"
    "db w = (db v)\<lparr>usage_events := usage_events (db v) @ news\<rparr>" and nw: "stored_as oi rows news"
    using insert_usage_rows_run [OF ins, of 0] unfolding stored_as_def by blast
  note facts = stored_as_facts [OF nw] and batch = stored_batch [OF ok ets nw]
  have ue: "usage_events (db w) = usage_events (db s) @ news" using w(3) by (simp add: v)
  let ?ids = "map (\<lambda>e. the (map_of (public_ids_by_key oi ?keys (db w)) (uin_idempotency_key e))) events"
  have ids: "foldE (lookup_step (public_ids_by_key oi ?keys (db w))) events [] x = (Inr ?ids, x)" for x :: session
    using lookup_steps [OF batch_known [OF ue _ batch(2)], of "[]" x] facts(4) by simp
  let ?res = "\<lparr>batch_accepted = int (length news), batch_duplicates = int (length events) - int (length news),
    batch_public_ids = ?ids\<rparr>"
  obtain t where t: "ingest_usage_batch oi events s = (Inr ?res, t)" "db t = db w" "\<not> tx_failed t"
  proof (cases "rows = []")
    case True
    then have rm: "row_months [] = []" "row_months rows = []" by (simp_all add: row_months_def order_by_def)
    have "ps = usage_partitions (db s)" using arg_cong [OF ps, of usage_partitions] rm by simp
    then have dbw: "db w = db s" using w(1) True by (auto simp: v)
    have "ingest_usage_batch oi events s = (Inr ?res, ?s)"
      using norm rs ids [of ?s, unfolded dbw] nf rm facts(1) True dbw by (simp add: ingest_usage_batch_def Let_def)
    then show ?thesis using that nf dbw by simp
  next
    case False
    have "ingest_usage_batch oi events s = (Inr ?res, w\<lparr>metrics := metrics w @ [UsageEventsIngested (int (length rows))]\<rparr>)"
      using norm rs en nf False facts(1) ids w(1,2) by (simp add: ingest_usage_batch_def Let_def v)
    then show ?thesis using that w(2) by simp
  qed
  show ?thesis
    using t ue batch facts(4) by (intro exI [of _ ?res] exI [of _ t] exI [of _ news]) simp
qed

text \<open>
  C30: Usage is counted exactly once. A batch of events with aware times before December 9999 (the
  current time where none is given) for an existing organization is stored: for every idempotency key of the batch that the organization has not used
  yet exactly one event, with the feature and quantity that the batch gives under that key; the
  result counts the new ones and the duplicates and lists one public id per event. Sending the same
  batch again stores nothing, counts every event as a duplicate and returns the same public ids.
\<close>

theorem ingest_usage_batch_exactly_once:
  assumes can: "can_ingest (Suc (length events)) oi s" and ne: "events \<noteq> []"
    and aware: "\<forall>e \<in> set events. \<forall>t. uin_recorded_at e = Some t \<longrightarrow> has_tz t"
    and months: "\<forall>e \<in> set events. month_storable (event_time (clock s (clock_pos s)) e)"
  shows "\<exists>res t news u. ingest_usage_batch oi events s = (Inr res, t) \<and>
    usage_events (db t) = usage_events (db s) @ news \<and>
    batch_accepted res = int (length news) \<and> batch_duplicates res = int (length events) - int (length news) \<and>
    length (batch_public_ids res) = length events \<and> distinct (map ue_idempotency_key news) \<and>
    ue_idempotency_key ` set news = uin_idempotency_key ` set events -
      ue_idempotency_key ` {u \<in> set (usage_events (db s)). ue_organization_id u = oi} \<and>
    (\<forall>u \<in> set news. ue_organization_id u = oi \<and> (\<exists>e \<in> set events. ue_feature_key u = uin_feature_key e \<and>
       ue_quantity u = decimal_of_int (uin_quantity e) \<and> ue_idempotency_key u = uin_idempotency_key e)) \<and>
    ingest_usage_batch oi events t = (Inr \<lparr>batch_accepted = 0, batch_duplicates = int (length events),
      batch_public_ids = batch_public_ids res\<rparr>, u) \<and> db u = db t"
proof -
  let ?keys = "map uin_idempotency_key events"
  obtain res t news where f: "ingest_usage_batch oi events s = (Inr res, t)" "\<not> tx_failed t"
    "usage_events (db t) = usage_events (db s) @ news"
    "batch_accepted res = int (length news)" "batch_duplicates res = int (length events) - int (length news)"
    "batch_public_ids res = map (\<lambda>e. the (map_of (public_ids_by_key oi ?keys (db t)) (uin_idempotency_key e))) events"
    "distinct (map ue_idempotency_key news)"
    "ue_idempotency_key ` set news = uin_idempotency_key ` set events -
      ue_idempotency_key ` {u \<in> set (usage_events (db s)). ue_organization_id u = oi}"
    "\<forall>u \<in> set news. ue_organization_id u = oi \<and> (\<exists>e \<in> set events. ue_feature_key u = uin_feature_key e \<and>
       ue_quantity u = decimal_of_int (uin_quantity e) \<and> ue_idempotency_key u = uin_idempotency_key e)"
    using ingest_usage_batch_run [OF assms] by blast
  let ?now = "clock t (clock_pos t)" and ?t = "t\<lparr>clock_pos := Suc (clock_pos t)\<rparr>"
  let ?ets = "map (\<lambda>e. (e, projr (normalized_time ?now e))) events"
  have nt: "\<forall>e \<in> set events. \<exists>t. normalized_time ?now e = Inr t"
    using aware by (auto simp: normalized_time_def Let_def split: option.splits)
  have all: "map_of (public_ids_by_key oi ?keys (db t)) (uin_idempotency_key e) \<noteq> None" if e: "e \<in> set events" for e
  proof -
    have "uin_idempotency_key e \<in> ue_idempotency_key ` set news \<or>
        uin_idempotency_key e \<in> ue_idempotency_key ` {u \<in> set (usage_events (db s)). ue_organization_id u = oi}"
      using f(8) e by auto
    with e f(9) show ?thesis unfolding dom_public_ids_by_key f(3) by auto
  qed
  have "foldE (row_step (public_ids_by_key oi ?keys (db t))) ?ets [] ?t = (Inr [], ?t)"
    using all by (intro row_steps_known) auto
  moreover have "foldE (lookup_step (public_ids_by_key oi ?keys (db t))) events [] ?t = (Inr (batch_public_ids res), ?t)"
    using lookup_steps [of events "public_ids_by_key oi ?keys (db t)" "[]" ?t] all f(6) by simp
  ultimately have "ingest_usage_batch oi events t = (Inr \<lparr>batch_accepted = 0, batch_duplicates = int (length events),
      batch_public_ids = batch_public_ids res\<rparr>, ?t)"
    using normalize_steps [OF nt, of "[]" ?t] ne f(2)
    by (simp add: ingest_usage_batch_def Let_def row_months_def order_by_def)
  with f show ?thesis
    by (intro exI [of _ res] exI [of _ t] exI [of _ news] exI [of _ ?t]) simp
qed

text \<open>A batch with one event sent twice.\<close>

definition sample_batch :: "usage_event_in list" where
  "sample_batch =
     replicate 2 \<lparr>uin_feature_key = ''api_calls'', uin_quantity = 5, uin_idempotency_key = ''k1'', uin_recorded_at = None\<rparr>"

lemma sample_can_ingest: "can_ingest (Suc (length sample_batch)) 1 sample_session"
  using fresh_ids_le [OF sample_fresh, of 3]
  by (simp add: can_ingest_def sample_batch_def refers_iff) (simp add: sample_db_def)

theorem ingest_usage_batch_exactly_once_witness:
  "\<exists>res t news. ingest_usage_batch 1 sample_batch sample_session = (Inr res, t) \<and>
     usage_events (db t) = usage_events sample_db @ news \<and> ue_idempotency_key ` set news = {''k1''} \<and>
     distinct (map ue_idempotency_key news)"
proof -
  have b: "sample_batch \<noteq> []" "\<forall>e \<in> set sample_batch. \<forall>t. uin_recorded_at e = Some t \<longrightarrow> has_tz t"
    "uin_idempotency_key ` set sample_batch = {''k1''}" by (auto simp: sample_batch_def)
  moreover have "date_of (5 * day_us) = (1970, 1, 6)" by code_simp
  then have "\<forall>e \<in> set sample_batch. month_storable (event_time (clock sample_session (clock_pos sample_session)) e)"
    by (simp add: sample_batch_def event_time_def month_storable_def year_of_def month_of_def)
  moreover have "usage_events (db sample_session) = []" by (simp add: sample_db_def)
  ultimately show ?thesis
    using ingest_usage_batch_exactly_once [OF sample_can_ingest b(1,2)] by auto
qed

section \<open>Aggregating an hour\<close>

lemma aggregate_key_quantity [simp]: "aggregate_key (r\<lparr>ua_quantity := q\<rparr>) = aggregate_key r"
  by (simp add: aggregate_key_def)

lemma update_rows_other: "\<forall>r \<in> set rows. \<not> sel r \<Longrightarrow> update_rows sel f rows = rows"
  by (induction rows) simp_all

lemma upsert_aggregate_run:
  assumes nf: "\<not> tx_failed s" and uk: "unique_key aggregate_key (usage_aggregates (db s))"
    and ids: "fresh ua_id r (usage_aggregates (db s))" "fresh ua_public_id r (usage_aggregates (db s))"
    and org: "refers org_id (ua_organization_id r) (organizations (db s))"
  shows "\<exists>x t. upsert_aggregate r s = (Inr x, t) \<and> \<not> tx_failed t \<and> t = s\<lparr>db := db t\<rparr> \<and>
    db t = (db s)\<lparr>usage_aggregates := usage_aggregates (db t)\<rparr> \<and> ua_quantity x = ua_quantity r \<and>
    filter (\<lambda>q. aggregate_key q = aggregate_key r) (usage_aggregates (db t)) = [x] \<and>
    filter (\<lambda>q. aggregate_key q \<noteq> aggregate_key r) (usage_aggregates (db t)) =
      filter (\<lambda>q. aggregate_key q \<noteq> aggregate_key r) (usage_aggregates (db s)) \<and>
    unique_key aggregate_key (usage_aggregates (db t))"
proof (rule unique_key_filter_cases [OF uk, of "aggregate_key r"])
  assume none: "filter (\<lambda>q. aggregate_key q = aggregate_key r) (usage_aggregates (db s)) = []"
  then have "fresh aggregate_key r (usage_aggregates (db s))" by (auto simp: fresh_iff filter_empty_conv)
  then have "usage_aggregate_ok r (db s)" using ids org by (simp add: usage_aggregate_ok_def)
  moreover have "unique_key aggregate_key (usage_aggregates (db s) @ [r])"
    using uk \<open>fresh aggregate_key r _\<close> by (simp add: unique_key_snoc)
  ultimately show ?thesis
    using nf none
    by (intro exI [of _ r] exI [of _ "s\<lparr>db := add_usage_aggregate r (db s)\<rparr>"])
      (simp add: upsert_aggregate_def add_usage_aggregate_def)
next
  fix old assume old: "old \<in> set (usage_aggregates (db s))" "aggregate_key old = aggregate_key r"
    "filter (\<lambda>q. aggregate_key q = aggregate_key r) (usage_aggregates (db s)) = [old]"
  let ?f = "\<lambda>x. x\<lparr>ua_quantity := ua_quantity r\<rparr>" and ?rows = "usage_aggregates (db s)"
  let ?new = "update_rows (\<lambda>x. aggregate_key x = aggregate_key r) ?f ?rows"
  have one: "filter (\<lambda>q. aggregate_key q = aggregate_key r) ?new = [?f old]"
    using old by (simp add: filter_update_rows)
  have "filter (\<lambda>q. aggregate_key q \<noteq> aggregate_key r) ?new =
      filter (\<lambda>q. aggregate_key q \<noteq> aggregate_key r) ?rows"
    by (simp add: filter_update_rows update_rows_other)
  moreover have "unique_key aggregate_key ?new" using uk by (simp add: unique_update_rows)
  ultimately show ?thesis
    using nf old(3) one
    by (intro exI [of _ "?f old"] exI [of _ "s\<lparr>db := set_aggregate_quantity (aggregate_key r) (ua_quantity r) (db s)\<rparr>"])
      (simp add: upsert_aggregate_def set_aggregate_quantity_def)
qed

lemma same_hour: "trunc_hour t \<le> x \<and> x < trunc_hour t + timedelta_hours 1 \<longleftrightarrow> trunc_hour x = trunc_hour t"
proof
  assume b: "trunc_hour t \<le> x \<and> x < trunc_hour t + timedelta_hours 1"
  have m: "trunc_hour y = hour_us * (y div hour_us)" for y by (simp add: trunc_hour_def minus_mod_eq_mult_div)
  have "x div hour_us = t div hour_us"
    using b unfolding m timedelta_hours_def
    by (intro int_div_pos_eq [of x hour_us "t div hour_us" "x - hour_us * (t div hour_us)"]) linarith+
  then show "trunc_hour x = trunc_hour t" unfolding m by simp
next
  assume "trunc_hour x = trunc_hour t"
  then show "trunc_hour t \<le> x \<and> x < trunc_hour t + timedelta_hours 1"
    using trunc_hour_bounds [of x] by (simp add: timedelta_hours_def)
qed

text \<open>
  C31: The hourly total is the sum of the hour's events. For an existing organization and an aware
  time, aggregating leaves exactly one row for the organization, the feature and the hour that
  contains the time, whether there was one before or not, and its quantity is the sum of the events
  recorded in that hour; the rows of other hours, features and organizations and the events stay as
  they are. So aggregating again, also after late events, always gives the total of what is stored.
\<close>

theorem aggregate_hour_totals:
  assumes nf: "\<not> tx_failed s" and uk: "unique_key aggregate_key (usage_aggregates (db s))"
    and org: "oi \<in> org_id ` set (organizations (db s))" and tz: "has_tz t" and fr: "fresh_ids (Suc k') s"
    and ahead: "\<forall>a \<in> set (usage_aggregates (db s)). ua_id a < seqs s USAGE_AGGREGATES"
    and h: "h = trunc_hour (astimezone_utc t)"
  shows "\<exists>r u. aggregate_hour oi k t s = (Inr r, u) \<and>
    filter (\<lambda>a. aggregate_key a = (oi, k, h)) (usage_aggregates (db u)) = [r] \<and>
    ua_quantity r = (\<Sum>e\<leftarrow>filter (\<lambda>e. ue_organization_id e = oi \<and> ue_feature_key e = k \<and>
      trunc_hour (recorded_at e) = h) (usage_events (db s)). ue_quantity e) \<and>
    filter (\<lambda>a. aggregate_key a \<noteq> (oi, k, h)) (usage_aggregates (db u)) =
      filter (\<lambda>a. aggregate_key a \<noteq> (oi, k, h)) (usage_aggregates (db s)) \<and>
    usage_events (db u) = usage_events (db s) \<and> unique_key aggregate_key (usage_aggregates (db u))"
proof -
  let ?q = "\<Sum>u\<leftarrow>events_between oi k h (h + timedelta_hours 1) (db s). ue_quantity u"
  let ?r = "\<lparr>ua_id = seqs s USAGE_AGGREGATES, ua_public_id = upcoming_uuid s, ua_organization_id = oi,
    ua_feature_key = k, hour_start = h, ua_quantity = ?q\<rparr>"
  let ?s = "(after_uuid s)\<lparr>seqs := (seqs s)(USAGE_AGGREGATES := seqs s USAGE_AGGREGATES + 1)\<rparr>"
  have hour: "h \<le> x \<and> x < h + timedelta_hours 1 \<longleftrightarrow> trunc_hour x = h" for x
    unfolding h by (rule same_hour)
  have "upcoming_uuid s \<notin> ua_public_id ` set (usage_aggregates (db s))"
    using fresh_idsD [OF fr] by (simp add: used_ids_def)
  then have "fresh ua_public_id ?r (usage_aggregates (db ?s))" by (simp add: fresh_iff) (metis imageI)
  moreover have "fresh ua_id ?r (usage_aggregates (db ?s))" using ahead by (fastforce simp: fresh_iff)
  ultimately obtain x u where x: "upsert_aggregate ?r ?s = (Inr x, u)" "\<not> tx_failed u"
    "db u = (db ?s)\<lparr>usage_aggregates := usage_aggregates (db u)\<rparr>" "ua_quantity x = ?q"
    "filter (\<lambda>q. aggregate_key q = aggregate_key ?r) (usage_aggregates (db u)) = [x]"
    "filter (\<lambda>q. aggregate_key q \<noteq> aggregate_key ?r) (usage_aggregates (db u)) =
      filter (\<lambda>q. aggregate_key q \<noteq> aggregate_key ?r) (usage_aggregates (db ?s))"
    "unique_key aggregate_key (usage_aggregates (db u))"
    using upsert_aggregate_run [of ?s ?r] nf uk org by (auto simp: refers_iff)
  have "aggregate_hour oi k t s = (Inr x, u)"
    using nf tz x(1,2) by (simp add: aggregate_hour_def normalize_hour_start_def h)
  moreover have "aggregate_key ?r = (oi, k, h)" by (simp add: aggregate_key_def)
  moreover have "usage_events (db u) = usage_events (db s)" using arg_cong [OF x(3), of usage_events] by simp
  moreover have "events_between oi k h (h + timedelta_hours 1) (db s) =
      filter (\<lambda>e. ue_organization_id e = oi \<and> ue_feature_key e = k \<and> trunc_hour (recorded_at e) = h) (usage_events (db s))"
    unfolding events_between_def using hour by (intro filter_cong) auto
  ultimately show ?thesis using x(4-7) by auto
qed

theorem aggregate_hour_totals_witness:
  "\<exists>r u. aggregate_hour 1 ''api_calls'' (Aware (90 * 60 * 1000000) 0) sample_session = (Inr r, u) \<and>
     filter (\<lambda>a. aggregate_key a = (1, ''api_calls'', trunc_hour (90 * 60 * 1000000))) (usage_aggregates (db u)) = [r] \<and>
     ua_quantity r = 0"
proof -
  have t: "usage_aggregates sample_db = []" "usage_events sample_db = []" by (simp_all add: sample_db_def)
  have "fresh_ids (Suc 0) sample_session" by (rule fresh_ids_le [OF sample_fresh]) simp
  then show ?thesis
    using aggregate_hour_totals [of sample_session 1 "Aware (90 * 60 * 1000000) 0" 0
        "trunc_hour (90 * 60 * 1000000)" "''api_calls''"] t by auto
qed

end
