(* ===== verification/Period_Close.thy ===== *)
theory Period_Close
  imports Invoices Usage
begin

text \<open>
  Closing a billing period (\<^verbatim>\<open>services/period_close.py\<close>): the hourly totals of the period are summed
  per feature, priced by the plan's active per-unit prices into the line items of a new invoice, the
  invoice is issued, its total is charged to the ledger and the closing is reported, all in the
  caller's transaction and once per idempotency key.
\<close>

section \<open>Operations\<close>

definition USAGE_PERIOD_CLOSED_EVENT :: string where
  "USAGE_PERIOD_CLOSED_EVENT = ''usage.period_closed''"

record period_close_result =
  pcr_invoice_public_id :: uuid
  pcr_invoice_id :: int
  pcr_total_amount_cents :: int
  pcr_ledger_entry_public_id :: "uuid option"

definition normalize_period_bound :: "pydatetime \<Rightarrow> py_error + instant" where
  "normalize_period_bound t =
     (if \<not> has_tz t then Inl (Exc ValueError ''period bounds must be timezone-aware'') else Inr (astimezone_utc t))"

text \<open>The prices in table order; a later price for the same feature replaces an earlier one.\<close>

definition metered_price :: "uuid \<Rightarrow> price \<Rightarrow> bool" where
  "metered_price pid p \<longleftrightarrow> price_plan_id p = pid \<and> price_is_active p \<and> pricing_model p = ''per_unit'' \<and>
     metered_feature_key p \<noteq> None \<and> metered_feature_key p \<noteq> Some []"

definition metered_prices :: "uuid \<Rightarrow> database \<Rightarrow> (string \<times> price) list" where
  "metered_prices pid d = dict_of (\<lambda>p. the (metered_feature_key p)) (\<lambda>p. p) (filter (metered_price pid) (prices d))"

definition load_metered_prices :: "uuid \<Rightarrow> (string \<times> price) list op" where
  "load_metered_prices pid = query (metered_prices pid)"

definition usage_by_feature :: "int \<Rightarrow> instant \<Rightarrow> instant \<Rightarrow> database \<Rightarrow> (string \<times> numeric6) list" where
  "usage_by_feature oi start stop d = filter (\<lambda>kq. 0 < snd kq) (feature_sums (aggregates_between oi start stop d))"

definition snapshot_usage_by_feature :: "int \<Rightarrow> instant \<Rightarrow> instant \<Rightarrow> (string \<times> numeric6) list op" where
  "snapshot_usage_by_feature oi start stop = query (usage_by_feature oi start stop)"

definition period_closed_payload ::
  "uuid \<Rightarrow> uuid \<Rightarrow> invoice \<Rightarrow> instant \<Rightarrow> instant \<Rightarrow> (string \<times> numeric6) list \<Rightarrow> json_object" where
  "period_closed_payload org_public sub_public v start stop usage =
     [(''organization_public_id'', JStr (uuid_str org_public)),
      (''subscription_public_id'', JStr (uuid_str sub_public)),
      (''invoice_public_id'', JStr (uuid_str (inv_public_id v))),
      (''period_start'', JStr (iso_z start)),
      (''period_end'', JStr (iso_z stop)),
      (''total_amount_cents'', JInt (total_amount_cents v)),
      (''usage_quantities'', JObj (map (\<lambda>kq. (fst kq, JStr (decimal_str (snd kq)))) usage))]"

definition enqueue_period_closed ::
  "int \<Rightarrow> uuid \<Rightarrow> invoice \<Rightarrow> instant \<Rightarrow> instant \<Rightarrow> (string \<times> numeric6) list \<Rightarrow> string \<Rightarrow> unit op" where
  "enqueue_period_closed oi sub_public v start stop usage k =
     bindE (organization_public_id oi) (\<lambda>org_public.
     enqueue_outbox ''usage'' (uuid_str (inv_public_id v)) USAGE_PERIOD_CLOSED_EVENT
       (period_closed_payload org_public sub_public v start stop usage)
       (k @ '':usage.period_closed'') (str_int oi))"

definition result_from_existing_invoice :: "invoice \<Rightarrow> period_close_result op" where
  "result_from_existing_invoice v =
     bindE (query (\<lambda>d. first_row (filter (\<lambda>e. le_invoice_id e = Some (inv_id v) \<and> entry_type e = usage_charge)
       (ledger_entries d)))) (\<lambda>entry.
     returnE \<lparr>pcr_invoice_public_id = inv_public_id v, pcr_invoice_id = inv_id v,
       pcr_total_amount_cents = total_amount_cents v, pcr_ledger_entry_public_id = map_option le_public_id entry\<rparr>)"

definition invoice_currency :: "(string \<times> price) list \<Rightarrow> string" where
  "invoice_currency metered = (case metered of [] \<Rightarrow> ''USD'' | kp # _ \<Rightarrow> price_currency (snd kp))"

text \<open>The loop over the features in the order of their keys.\<close>

definition bill_feature :: "(string \<times> price) list \<Rightarrow> int \<Rightarrow> string \<times> numeric6 \<Rightarrow> unit \<Rightarrow> unit op" where
  "bill_feature metered i kq acc =
     (case map_of metered (fst kq) of
        None \<Rightarrow> returnE acc
      | Some p \<Rightarrow> thenE (add_line_item i (''Usage: '' @ fst kq) (int_of_decimal (snd kq)) (unit_amount_cents p)
          (Some (fst kq))) (returnE acc))"

text \<open>
  The attributes of the mapped invoice object: the totals that \<open>recompute_invoice_total\<close> wrote are
  seen on it, since the session holds one object per row.
\<close>

definition current_invoice :: "int \<Rightarrow> invoice op" where
  "current_invoice i = bindE (getE (\<lambda>s. filter (\<lambda>v. inv_id v = i) (invoices (db s)))) scalar_one"

definition issue_invoice :: "int \<Rightarrow> unit op" where
  "issue_invoice i = bindE (getE tx_now) (\<lambda>t. thenE (update_db (set_invoice_status i t open_invoice)) flush)"

definition charge_usage ::
  "int \<Rightarrow> subscription \<Rightarrow> int \<Rightarrow> instant \<Rightarrow> instant \<Rightarrow> (string \<times> numeric6) list \<Rightarrow> string \<Rightarrow> period_close_result op" where
  "charge_usage oi r i start stop usage k =
     bindE (current_invoice i) (\<lambda>v.
     bindE (post_entry oi usage_charge (total_amount_cents v) (inv_currency v) (k @ '':usage_charge'') k
       (Some (sub_id r)) (Some (inv_id v)) (Some (\<Sum>kq\<leftarrow>usage. snd kq))
       [(''invoice_public_id'', JStr (uuid_str (inv_public_id v))), (''period_start'', JStr (iso_z start)),
        (''period_end'', JStr (iso_z stop))]) (\<lambda>entry.
     thenE (enqueue_period_closed oi (sub_public_id r) v start stop usage k)
     (returnE \<lparr>pcr_invoice_public_id = inv_public_id v, pcr_invoice_id = inv_id v,
        pcr_total_amount_cents = total_amount_cents v, pcr_ledger_entry_public_id = Some (le_public_id entry)\<rparr>)))"

definition close_billing_period :: "int \<Rightarrow> pydatetime \<Rightarrow> pydatetime \<Rightarrow> string \<Rightarrow> period_close_result op" where
  "close_billing_period oi period_begin period_stop k =
     bindE (liftE (normalize_period_bound period_begin)) (\<lambda>start.
     bindE (liftE (normalize_period_bound period_stop)) (\<lambda>stop.
     bindE (find_invoice_by_idempotency_key k) (\<lambda>existing.
     case existing of Some v \<Rightarrow> result_from_existing_invoice v
     | None \<Rightarrow>
         bindE (get_primary_subscription oi) (\<lambda>sub.
         case sub of
           None \<Rightarrow> raiseE SubscriptionRequiredError (''no subscription for organization '' @ str_int oi)
         | Some r \<Rightarrow>
             bindE (load_metered_prices (sub_plan_id r)) (\<lambda>metered.
             bindE (snapshot_usage_by_feature oi start stop) (\<lambda>usage.
             bindE (create_draft_invoice oi (invoice_currency metered) start stop k (Some (sub_id r))) (\<lambda>v.
             thenE (foldE (bill_feature metered (inv_id v)) (order_by fst usage) ())
             (thenE (issue_invoice (inv_id v))
             (charge_usage oi r (inv_id v) start stop usage k)))))))))"

section \<open>Write footprint\<close>

locale billing_client = invoice_client D + ledger_client D for D :: "database \<Rightarrow> database \<Rightarrow> bool"
begin

lemma bill_feature: "keeps_db D (bill_feature metered i kq acc)"
  unfolding bill_feature_def by (intro primitives add_line_item)

lemma issue_invoice: "keeps_db D (issue_invoice i)"
  unfolding issue_invoice_def by (intro primitives invoice_issue) simp

lemma charge_usage: "keeps_db D (charge_usage oi r i start stop usage k)"
  unfolding charge_usage_def current_invoice_def enqueue_period_closed_def
  by (intro primitives post_entry organization_public_id enqueue_outbox)

lemma result_from_existing_invoice: "keeps_db D (result_from_existing_invoice v)"
  unfolding result_from_existing_invoice_def by (intro primitives)

lemma close_billing_period: "keeps_tx D (close_billing_period oi a b k)"
  unfolding close_billing_period_def get_primary_subscription_def load_metered_prices_def snapshot_usage_by_feature_def
  by (intro transactions in_transaction find_invoice_by_idempotency_key result_from_existing_invoice query
      create_draft_invoice step.foldE bill_feature issue_invoice charge_usage)

end

interpretation billing_log: billing_client ledger_extends
  by unfold_locales

interpretation billing_lifecycle: billing_client lifecycle_kept
  by unfold_locales

interpretation billing_integrity: billing_client stays_ok
  by unfold_locales

interpretation billing_totals: billing_client totals_kept
  by unfold_locales (simp_all add: totals_kept_def issued_kept_def totals_ok_def items_of_def item_sum_def write_defs, auto)

section \<open>The amount charged\<close>

definition feature_charge :: "(string \<times> price) list \<Rightarrow> string \<times> numeric6 \<Rightarrow> int" where
  "feature_charge metered kq =
     (case map_of metered (fst kq) of None \<Rightarrow> 0 | Some p \<Rightarrow> int_of_decimal (snd kq) * unit_amount_cents p)"

definition usage_total :: "(string \<times> price) list \<Rightarrow> (string \<times> numeric6) list \<Rightarrow> int" where
  "usage_total metered usage = (\<Sum>kq\<leftarrow>usage. feature_charge metered kq)"

lemma sum_list_insort: "sum_list (map f (insort_key g x xs)) = f x + sum_list (map f xs)" for f :: "'x \<Rightarrow> int"
  by (induction xs) simp_all

lemma usage_total_order_by [simp]: "usage_total metered (order_by g usage) = usage_total metered usage"
  by (induction usage) (simp_all add: usage_total_def order_by_def sum_list_insort)

lemma length_order_by [simp]: "length (order_by g xs) = length xs"
  by (simp add: order_by_def)

section \<open>The draft\<close>

lemma find_invoice_run:
  assumes "ready s"
  shows "find_invoice_by_idempotency_key k s = (Inr (first_row (filter (\<lambda>v. inv_idempotency_key v = k) (invoices (db s)))), s)"
  using readyD(1) [OF assms] scalar_one_or_none_unique [OF keys_uniqueD(13) [OF readyD(2) [OF assms]], of k]
  by (simp add: find_invoice_by_idempotency_key_def)

definition drafted :: "session \<Rightarrow> invoice \<Rightarrow> session" where
  "drafted s v = (after_uuid s)\<lparr>seqs := (seqs s)(INVOICES := seqs s INVOICES + 1), db := add_invoice v (db s)\<rparr>"

lemma create_draft_invoice_run:
  assumes s: "ready s" "fresh_ids (Suc n) s" and k: "\<forall>v \<in> set (invoices (db s)). inv_idempotency_key v \<noteq> k"
    and g: "oi \<in> org_id ` set (organizations (db s))" and si: "i \<in> sub_id ` set (subscriptions (db s))"
    and v: "v = draft_invoice (seqs s INVOICES) (upcoming_uuid s) oi c start stop k (Some i) (tx_now s)"
  shows "create_draft_invoice oi c start stop k (Some i) s = (Inr v, drafted s v)" "invoice_ok v (db s)"
proof -
  have nf: "\<not> tx_failed s" using s(1) by (rule readyD)
  have vs: "inv_id v = seqs s INVOICES" "inv_public_id v = upcoming_uuid s" "inv_idempotency_key v = k"
    "external_invoice_id v = None" "inv_organization_id v = oi" "inv_subscription_id v = Some i"
    by (simp_all add: v draft_invoice_def)
  have "upcoming_uuid s \<notin> inv_public_id ` set (invoices (db s))" using fresh_idsD [OF s(2)] by (simp add: used_ids_def)
  then have "fresh inv_public_id v (invoices (db s))" unfolding fresh_iff vs by (metis imageI)
  moreover have "fresh inv_id v (invoices (db s))" using fresh_sequence_ids(5) [OF readyD(3) [OF s(1)]] vs by simp
  ultimately show ok: "invoice_ok v (db s)"
    using k g si by (simp add: invoice_ok_def fresh_iff fresh_opt_iff refers_iff refers_opt_def vs)
  have "find_invoice_by_idempotency_key k s = (Inr None, s)"
    using find_invoice_run [OF s(1), of k] k by (simp add: first_row_None filter_empty_conv)
  then show "create_draft_invoice oi c start stop k (Some i) s = (Inr v, drafted s v)"
    using nf ok by (simp add: create_draft_invoice_def flush_invoice_def v drafted_def)
qed

lemma drafted_simps:
  "db (drafted s v) = add_invoice v (db s)" "tx_now (drafted s v) = tx_now s" "tx_failed (drafted s v) = tx_failed s"
  by (simp_all add: drafted_def)

lemma drafted_ready:
  assumes "ready s" "invoice_ok v (db s)" "inv_id v = seqs s INVOICES"
  shows "ready (drafted s v)"
proof -
  have "sequence_ahead (drafted s v)"
    using readyD(3) [OF assms(1)] assms(3)
    by (auto simp: sequence_ahead_def drafted_def add_invoice_def intro: less_trans [OF _ less_add_one])
  then show ?thesis
    using readyD(1,2) [OF assms(1)] db_ok_add_invoice [OF assms(2)] by (simp add: ready_def drafted_simps)
qed

lemma used_ids_invoices:
  "used_ids d = inv_public_id ` set (invoices d) \<union> li_id ` set (invoice_line_items d) \<union>
     used_ids (d\<lparr>invoices := [], invoice_line_items := []\<rparr>)"
  by (auto simp: used_ids_def)

lemma drafted_fresh:
  assumes "fresh_ids (Suc n) s" "inv_public_id v = upcoming_uuid s"
  shows "fresh_ids n (drafted s v)"
proof (rule fresh_ids_drawn [OF assms(1)])
  show "used_ids (db (drafted s v)) \<subseteq> insert (uuid_draw s (clock_pos s) (rnd_pos s)) (used_ids (db s))"
    unfolding used_ids_invoices [of "db (drafted s v)"] used_ids_invoices [of "db s"] using assms(2)
    by (auto simp: drafted_simps add_invoice_def upcoming_uuid_draw)
qed (simp_all add: drafted_def after_uuid_def)

section \<open>The line items\<close>

text \<open>
  While the features are billed, the draft \<open>v\<close> changes only in its total, which is \<open>a\<close> in the
  end; besides it only line items are added.
\<close>

definition invoice_frame :: "database \<Rightarrow> database \<Rightarrow> bool" where
  "invoice_frame d e \<longleftrightarrow> e\<lparr>invoices := [], invoice_line_items := []\<rparr> = d\<lparr>invoices := [], invoice_line_items := []\<rparr>"

lemma invoice_frameD:
  assumes "invoice_frame d e"
  shows "ledger_entries e = ledger_entries d" "organizations e = organizations d" "subscriptions e = subscriptions d"
    "outbox_messages e = outbox_messages d"
proof -
  have r: "f e = f d" if "\<And>x. f x = f (x\<lparr>invoices := [], invoice_line_items := []\<rparr>)" for f :: "database \<Rightarrow> 'z"
    using assms that unfolding invoice_frame_def by metis
  show "ledger_entries e = ledger_entries d" "organizations e = organizations d" "subscriptions e = subscriptions d"
    "outbox_messages e = outbox_messages d" by (rule r, simp)+
qed

definition billed :: "nat \<Rightarrow> invoice \<Rightarrow> int \<Rightarrow> session \<Rightarrow> session \<Rightarrow> bool" where
  "billed n v a s t \<longleftrightarrow> ready t \<and> totals_ok (db t) \<and> fresh_ids n t \<and> invoice_frame (db s) (db t) \<and>
     (\<exists>u. filter (\<lambda>w. inv_id w = inv_id v) (invoices (db t)) = [v\<lparr>total_amount_cents := a, inv_updated_at := u\<rparr>]) \<and>
     seqs t = seqs s \<and> tx_now t = tx_now s \<and> committed t = committed s"

lemma billedD:
  assumes "billed n v a s t"
  shows "ready t" "totals_ok (db t)" "fresh_ids n t" "invoice_frame (db s) (db t)"
    "\<exists>u. filter (\<lambda>w. inv_id w = inv_id v) (invoices (db t)) = [v\<lparr>total_amount_cents := a, inv_updated_at := u\<rparr>]"
    "seqs t = seqs s"
  using assms by (simp_all add: billed_def)

lemma new_line_item_ok:
  assumes "fresh_ids (Suc n) t" "i \<in> inv_id ` set (invoices (db t))"
  shows "line_item_ok (new_line_item (upcoming_uuid t) i desc q p fk x) (db t)"
proof -
  have "upcoming_uuid t \<notin> li_id ` set (invoice_line_items (db t))"
    using fresh_idsD [OF assms(1)] by (simp add: used_ids_def)
  then show ?thesis
    using assms(2) by (simp add: line_item_ok_def fresh_iff refers_iff new_line_item_def) (metis imageI)
qed

lemma itemized_ready: "ready t \<Longrightarrow> ready ((after_uuid t)\<lparr>db := itemized l x (db t)\<rparr>)"
proof -
  assume t: "ready t"
  have "sequence_ahead ((after_uuid t)\<lparr>db := itemized l x (db t)\<rparr>)"
    using readyD(3) [OF t]
    by (simp add: sequence_ahead_def itemized_def upd_invoice_def ball_update_rows) (simp add: add_line_item_row_def)
  with readyD(1,2) [OF t] show ?thesis by (simp add: ready_def db_ok_itemized)
qed

lemma itemized_fresh:
  assumes "fresh_ids (Suc n) t" "li_id l = upcoming_uuid t"
  shows "fresh_ids n ((after_uuid t)\<lparr>db := itemized l x (db t)\<rparr>)"
proof (rule fresh_ids_drawn [OF assms(1)])
  have "inv_public_id ` set (invoices (itemized l x (db t))) = inv_public_id ` set (invoices (db t))"
    unfolding itemized_def upd_invoice_def by (simp add: image_update_rows)
  moreover have "invoice_line_items (itemized l x (db t)) = invoice_line_items (db t) @ [l]"
    "(itemized l x (db t))\<lparr>invoices := [], invoice_line_items := []\<rparr> = (db t)\<lparr>invoices := [], invoice_line_items := []\<rparr>"
    by (simp_all add: itemized_def upd_invoice_def add_line_item_row_def)
  ultimately show "used_ids (db ((after_uuid t)\<lparr>db := itemized l x (db t)\<rparr>)) \<subseteq>
      insert (uuid_draw t (clock_pos t) (rnd_pos t)) (used_ids (db t))"
    unfolding used_ids_invoices [of "db ((after_uuid t)\<lparr>db := itemized l x (db t)\<rparr>)"] used_ids_invoices [of "db t"]
    using assms(2) by (auto simp: upcoming_uuid_draw)
qed (simp_all add: after_uuid_def)

lemma billed_add_line_item:
  assumes t: "billed (Suc n) v a s t" and dr: "inv_status v = draft"
  shows "\<exists>l u. add_line_item (inv_id v) desc q p fk t = (Inr l, u) \<and> billed n v (a + q * p) s u"
proof -
  let ?i = "inv_id v" and ?d = "db t"
  from billedD(5) [OF t] obtain u where one: "filter (\<lambda>w. inv_id w = ?i) (invoices ?d) =
      [v\<lparr>total_amount_cents := a, inv_updated_at := u\<rparr>]" by blast
  let ?w = "v\<lparr>total_amount_cents := a, inv_updated_at := u\<rparr>"
  let ?l = "new_line_item (upcoming_uuid t) ?i desc q p fk (tx_now t)"
  have l: "li_invoice_id ?l = ?i" "li_amount_cents ?l = q * p" "li_id ?l = upcoming_uuid t"
    by (simp_all add: new_line_item_def line_total_cents_def)
  have w: "?w \<in> set (invoices ?d)" using filter_singletonD [OF one] by simp
  have ok: "line_item_ok ?l ?d"
    using new_line_item_ok [OF billedD(3) [OF t], of ?i desc q p fk] imageI [OF w, of inv_id] by simp
  let ?e = "itemized ?l (tx_now t) ?d"
  let ?u = "(after_uuid t)\<lparr>db := ?e\<rparr>"
  have nf: "\<not> tx_failed t" using readyD(1) [OF billedD(1) [OF t]] .
  have "thenE (insert_checked (line_item_ok ?l) (add_line_item_row ?l)) (thenE (recompute_invoice_total ?i) (returnE ?l))
      (after_uuid t) = (Inr ?l, ?u)"
    using itemization_run [of "after_uuid t" ?i ?w ?l] one ok l(1) nf by simp
  then have run: "add_line_item ?i desc q p fk t = (Inr ?l, ?u)"
    using one nf dr by (simp add: add_line_item_def Let_def)
  have "item_sum ?i (add_line_item_row ?l ?d) = a + q * p"
    using item_sum_same [of ?l ?d] w billedD(2) [OF t] l by (fastforce simp: totals_ok_def)
  then have f: "filter (\<lambda>w. inv_id w = ?i) (invoices ?e) =
      [if ?w\<lparr>total_amount_cents := a + q * p\<rparr> = ?w then ?w else v\<lparr>total_amount_cents := a + q * p, inv_updated_at := tx_now t\<rparr>]"
    using one l(1) by (simp add: itemized_def upd_invoice_def filter_update_rows)
  have "\<exists>u. filter (\<lambda>w. inv_id w = ?i) (invoices ?e) = [v\<lparr>total_amount_cents := a + q * p, inv_updated_at := u\<rparr>]"
  proof (cases "?w\<lparr>total_amount_cents := a + q * p\<rparr> = ?w")
    case True
    then have "?w = v\<lparr>total_amount_cents := a + q * p, inv_updated_at := u\<rparr>" by (cases v) simp
    with f True show ?thesis by (intro exI [of _ u]) (simp only: if_True refl)
  next
    case False
    with f show ?thesis by (simp only: if_False) blast
  qed
  moreover have "invoice_frame (db s) ?e"
    using billedD(4) [OF t] by (simp add: invoice_frame_def itemized_def upd_invoice_def add_line_item_row_def)
  moreover have "totals_ok ?e" by (rule totals_ok_itemized [OF billedD(2) [OF t] ok])
  moreover have "ready ?u" using itemized_ready [OF billedD(1) [OF t]] by simp
  moreover have "fresh_ids n ?u" by (rule itemized_fresh [OF billedD(3) [OF t] l(3)])
  ultimately have "billed n v (a + q * p) s ?u" using t by (simp add: billed_def)
  with run show ?thesis by blast
qed

lemma billed_feature:
  assumes "billed (Suc n) v a s t" "inv_status v = draft"
  shows "\<exists>u. bill_feature metered (inv_id v) kq () t = (Inr (), u) \<and> billed n v (a + feature_charge metered kq) s u"
proof (cases "map_of metered (fst kq)")
  case None
  have "fresh_ids n t" using billedD(3) [OF assms(1)] by (rule fresh_ids_le) simp
  with assms(1) have "billed n v a s t" by (simp add: billed_def)
  with None show ?thesis by (simp add: bill_feature_def feature_charge_def)
next
  case (Some p)
  from billed_add_line_item [OF assms, of "''Usage: '' @ fst kq" "int_of_decimal (snd kq)" "unit_amount_cents p" "Some (fst kq)"]
  show ?thesis using Some by (auto simp: bill_feature_def feature_charge_def)
qed

lemma billed_features:
  assumes "billed (n + length kqs) v a s t" "inv_status v = draft"
  shows "\<exists>u. foldE (bill_feature metered (inv_id v)) kqs () t = (Inr (), u) \<and> billed n v (a + usage_total metered kqs) s u"
  using assms
proof (induction kqs arbitrary: a t)
  case Nil
  then show ?case by (simp add: usage_total_def)
next
  case (Cons kq kqs)
  then have "billed (Suc (n + length kqs)) v a s t" by simp
  from billed_feature [OF this Cons.prems(2), of metered kq] obtain u where
    u: "bill_feature metered (inv_id v) kq () t = (Inr (), u)" "billed (n + length kqs) v (a + feature_charge metered kq) s u"
    by blast
  from Cons.IH [OF u(2) Cons.prems(2)] u(1) show ?case by (simp add: usage_total_def add.assoc)
qed

section \<open>Closing\<close>

text \<open>
  A session in which the period can be closed under the key: the organization exists, no invoice
  has the key, no entry the derived one, and ledger entries refer to invoices that exist.
\<close>

definition can_close :: "nat \<Rightarrow> int \<Rightarrow> string \<Rightarrow> session \<Rightarrow> bool" where
  "can_close n oi k s \<longleftrightarrow> ready s \<and> totals_ok (db s) \<and> fresh_ids n s \<and> oi \<in> org_id ` set (organizations (db s)) \<and>
     (\<forall>v \<in> set (invoices (db s)). inv_idempotency_key v \<noteq> k) \<and>
     (\<forall>e \<in> set (ledger_entries (db s)). le_idempotency_key e \<noteq> k @ '':usage_charge'' \<and>
        (\<forall>i. le_invoice_id e = Some i \<longrightarrow> i < seqs s INVOICES))"

lemma totals_ok_ledger_frame:
  assumes "ledger_frame d e"
  shows "totals_ok e = totals_ok d"
proof -
  have "e\<lparr>outbox_messages := [], ledger_entries := []\<rparr> = d\<lparr>outbox_messages := [], ledger_entries := []\<rparr>"
    using assms by (simp add: ledger_frame_def)
  from arg_cong [OF this, of invoice_line_items] have "invoice_line_items e = invoice_line_items d" by simp
  then show ?thesis using ledger_frameD(5) [OF assms] by (simp add: totals_ok_def item_sum_def)
qed

lemma current_invoice_run:
  "filter (\<lambda>v. inv_id v = i) (invoices (db s)) = [v] \<Longrightarrow> current_invoice i s = (Inr v, s)"
  by (simp add: current_invoice_def)

lemma issue_invoice_run:
  assumes "\<not> tx_failed s"
  shows "issue_invoice i s = (Inr (), s\<lparr>db := set_invoice_status i (tx_now s) open_invoice (db s)\<rparr>)"
  using assms by (simp add: issue_invoice_def)

lemma issued_ready: "ready t \<Longrightarrow> ready (t\<lparr>db := set_invoice_status i x st (db t)\<rparr>)"
  by (simp add: ready_def sequence_ahead_def set_invoice_status_def upd_invoice_def db_ok_upd_invoice ball_update_rows)

lemma issued_fresh: "fresh_ids n t \<Longrightarrow> fresh_ids n (t\<lparr>db := set_invoice_status i x st (db t)\<rparr>)"
  by (erule fresh_ids_same)
    (simp_all add: used_ids_invoices [of "db t"] used_ids_invoices [of "set_invoice_status i x st (db t)"],
     auto simp: set_invoice_status_def upd_invoice_def image_update_rows)

lemma charge_usage_run:
  assumes s: "ready s" "fresh_ids (Suc n) s" and one: "filter (\<lambda>w. inv_id w = i) (invoices (db s)) = [v]"
    and g: "g \<in> set (organizations (db s))" and r: "r \<in> set (subscriptions (db s))"
    and k: "\<forall>e \<in> set (ledger_entries (db s)). le_idempotency_key e \<noteq> k @ '':usage_charge''"
  shows "\<exists>e t. charge_usage (org_id g) r i start stop usage k s =
      (Inr \<lparr>pcr_invoice_public_id = inv_public_id v, pcr_invoice_id = i,
        pcr_total_amount_cents = total_amount_cents v, pcr_ledger_entry_public_id = Some (le_public_id e)\<rparr>, t) \<and>
    ready t \<and> ledger_frame (db s) (db t) \<and> ledger_entries (db t) = ledger_entries (db s) @ [e] \<and>
    entry_type e = usage_charge \<and> amount_cents e = total_amount_cents v \<and> le_organization_id e = org_id g \<and>
    le_invoice_id e = Some i \<and> le_idempotency_key e = k @ '':usage_charge'' \<and>
    outbox_key_taken (k @ '':usage.period_closed'') (db t)"
proof -
  have i: "inv_id v = i" using filter_singletonD [OF one] by simp
  define md where "md = [(''invoice_public_id'', JStr (uuid_str (inv_public_id v))), (''period_start'', JStr (iso_z start)),
      (''period_end'', JStr (iso_z stop))]"
  define e where "e = new_entry s (org_id g) usage_charge (total_amount_cents v) (upper (inv_currency v))
      (k @ '':usage_charge'') k (Some (sub_id r)) (Some i) (Some (\<Sum>kq\<leftarrow>usage. snd kq)) None md"
  have "\<forall>j. Some (sub_id r) = Some j \<longrightarrow> j \<in> sub_id ` set (subscriptions (db s))" using r by simp
  from post_entry_recorded [OF can_postI [OF s g] k this e_def] obtain t where
    p: "post_entry (org_id g) usage_charge (total_amount_cents v) (inv_currency v) (k @ '':usage_charge'') k
      (Some (sub_id r)) (Some i) (Some (\<Sum>kq\<leftarrow>usage. snd kq)) md s = (Inr e, t)" "entry_recorded e s t" by blast
  have t: "ready t" "ledger_frame (db s) (db t)" "ledger_entries (db t) = ledger_entries (db s) @ [e]"
    using p(2) by (simp_all add: entry_recorded_def)
  have "g \<in> set (organizations (db t))" using g ledger_frameD(2) [OF t(2)] by simp
  from enqueue_for_organization_recorded [OF t(1) this refl, of "''usage''" "uuid_str (inv_public_id v)"
      USAGE_PERIOD_CLOSED_EVENT "\<lambda>o'. period_closed_payload o' (sub_public_id r) v start stop usage"
      "k @ '':usage.period_closed''" "str_int (org_id g)"]
  obtain u where u: "enqueue_period_closed (org_id g) (sub_public_id r) v start stop usage k t = (Inr (), u)"
    "event_recorded (k @ '':usage.period_closed'') t u"
    unfolding enqueue_period_closed_def by blast
  have f: "outbox_only (db t) (db u)" using u(2) by (simp add: event_recorded_def)
  have "charge_usage (org_id g) r i start stop usage k s =
      (Inr \<lparr>pcr_invoice_public_id = inv_public_id v, pcr_invoice_id = i,
        pcr_total_amount_cents = total_amount_cents v, pcr_ledger_entry_public_id = Some (le_public_id e)\<rparr>, u)"
    using current_invoice_run [OF one] p(1) u(1) by (simp add: charge_usage_def i md_def)
  moreover have "ledger_frame (db s) (db u)"
    using ledger_frame.db_trans [OF t(2) outbox_ledger_frame [OF f]] .
  moreover have "entry_type e = usage_charge" "amount_cents e = total_amount_cents v" "le_organization_id e = org_id g"
    "le_invoice_id e = Some i" "le_idempotency_key e = k @ '':usage_charge''" by (simp_all add: e_def new_entry_def)
  ultimately show ?thesis
    using u(2) t(3) outbox_onlyD(1) [OF f] by (intro exI [of _ e] exI [of _ u]) (simp add: event_recorded_def)
qed

lemma primary_subscription_in:
  assumes "primary_subscription oi d = Some r"
  shows "r \<in> set (subscriptions d)"
  using first_row_in [of _ r] assms unfolding primary_subscription_def by fastforce

lemma drafted_billed:
  assumes "ready s" "totals_ok (db s)" "fresh_ids (Suc n) s" "invoice_ok v (db s)" "inv_id v = seqs s INVOICES"
    and "inv_public_id v = upcoming_uuid s" "total_amount_cents v = 0"
  shows "billed n v 0 (drafted s v) (drafted s v)"
proof -
  have "\<forall>w \<in> set (invoices (db s)). inv_id w \<noteq> inv_id v" using assms(4) by (simp add: invoice_ok_def fresh_iff)
  moreover have "v = v\<lparr>total_amount_cents := 0, inv_updated_at := inv_updated_at v\<rparr>" using assms(7) by (cases v) simp
  ultimately have "filter (\<lambda>w. inv_id w = inv_id v) (invoices (db (drafted s v))) =
      [v\<lparr>total_amount_cents := 0, inv_updated_at := inv_updated_at v\<rparr>]"
    by (simp add: drafted_simps add_invoice_def)
  then show ?thesis
    using drafted_ready [OF assms(1,4,5)] drafted_fresh [OF assms(3,6)] totals_ok_add_invoice [OF assms(2,4,7)]
    unfolding billed_def by (intro conjI exI [of _ "inv_updated_at v"]) (simp_all add: drafted_simps invoice_frame_def)
qed

lemma issue_and_charge:
  assumes b: "billed (Suc n) v a s u" and dr: "inv_status v = draft" and g: "g \<in> set (organizations (db s))" and r: "r \<in> set (subscriptions (db s))"
    and k: "\<forall>e \<in> set (ledger_entries (db s)). le_idempotency_key e \<noteq> k @ '':usage_charge''"
  shows "\<exists>w e t. thenE (issue_invoice (inv_id v)) (charge_usage (org_id g) r (inv_id v) start stop usage k) u =
      (Inr \<lparr>pcr_invoice_public_id = inv_public_id w, pcr_invoice_id = inv_id w,
        pcr_total_amount_cents = total_amount_cents w, pcr_ledger_entry_public_id = Some (le_public_id e)\<rparr>, t) \<and>
    ready t \<and> w \<in> set (invoices (db t)) \<and> inv_status w = open_invoice \<and> inv_idempotency_key w = inv_idempotency_key v \<and>
    inv_organization_id w = inv_organization_id v \<and> inv_id w = inv_id v \<and> total_amount_cents w = a \<and> totals_ok (db t) \<and>
    ledger_entries (db t) = ledger_entries (db s) @ [e] \<and> entry_type e = usage_charge \<and> amount_cents e = a \<and>
    le_organization_id e = org_id g \<and> le_invoice_id e = Some (inv_id v) \<and>
    outbox_key_taken (k @ '':usage.period_closed'') (db t)"
proof -
  let ?u = "u\<lparr>db := set_invoice_status (inv_id v) (tx_now u) open_invoice (db u)\<rparr>"
  note D = billedD [OF b]
  from D(5) obtain x where x: "filter (\<lambda>w. inv_id w = inv_id v) (invoices (db u)) =
      [v\<lparr>total_amount_cents := a, inv_updated_at := x\<rparr>]" by blast
  let ?w = "v\<lparr>inv_status := open_invoice, total_amount_cents := a, inv_updated_at := tx_now u\<rparr>"
  have ne: "v\<lparr>total_amount_cents := a, inv_updated_at := x, inv_status := open_invoice\<rparr> \<noteq> v\<lparr>total_amount_cents := a, inv_updated_at := x\<rparr>"
    using dr by (metis invoice.select_convs(5) invoice.surjective invoice.update_convs(5) invoice_status.distinct(1) invoice.simps)
  have one: "filter (\<lambda>w. inv_id w = inv_id v) (invoices (db ?u)) = [?w]"
    using x dr ne by (simp add: set_invoice_status_def upd_invoice_def filter_update_rows)
  have frame: "ledger_entries (db ?u) = ledger_entries (db s)" "organizations (db ?u) = organizations (db s)"
    "subscriptions (db ?u) = subscriptions (db s)"
    using invoice_frameD [OF D(4)] by (simp_all add: set_invoice_status_def upd_invoice_def)
  have tot: "totals_ok (db ?u)"
    using D(2) by (simp add: set_invoice_status_def upd_invoice_def totals_ok_update)
  have g': "g \<in> set (organizations (db ?u))" and r': "r \<in> set (subscriptions (db ?u))" using g r frame by simp_all
  have k': "\<forall>e \<in> set (ledger_entries (db ?u)). le_idempotency_key e \<noteq> k @ '':usage_charge''" using k frame by simp
  from charge_usage_run [OF issued_ready [OF D(1)] issued_fresh [OF D(3)] one g' r' k'] obtain e t where
    t: "charge_usage (org_id g) r (inv_id v) start stop usage k ?u =
      (Inr \<lparr>pcr_invoice_public_id = inv_public_id ?w, pcr_invoice_id = inv_id v,
        pcr_total_amount_cents = total_amount_cents ?w, pcr_ledger_entry_public_id = Some (le_public_id e)\<rparr>, t)"
    "ready t" "ledger_frame (db ?u) (db t)" "ledger_entries (db t) = ledger_entries (db ?u) @ [e]"
    "entry_type e = usage_charge" "amount_cents e = total_amount_cents ?w" "le_organization_id e = org_id g"
    "le_invoice_id e = Some (inv_id v)" "outbox_key_taken (k @ '':usage.period_closed'') (db t)" by blast
  have "invoices (db t) = invoices (db ?u)" by (rule ledger_frameD(5) [OF t(3)])
  moreover have "totals_ok (db t)" using tot totals_ok_ledger_frame [OF t(3)] by simp
  ultimately show ?thesis
    using t issue_invoice_run [OF readyD(1) [OF D(1)]] filter_singletonD [OF one] frame(1)
    by (intro exI [of _ ?w] exI [of _ e] exI [of _ t]) simp
qed

text \<open>The first call, and what it leaves for a second one.\<close>

lemma close_billing_period_run:
  assumes can: "can_close (length usage + 2) oi k s" and tz: "has_tz a" "has_tz b"
    and r: "primary_subscription oi (db s) = Some r"
    and usage: "usage = usage_by_feature oi (astimezone_utc a) (astimezone_utc b) (db s)"
    and metered: "metered = metered_prices (sub_plan_id r) (db s)"
  shows "\<exists>v e t. close_billing_period oi a b k s =
      (Inr \<lparr>pcr_invoice_public_id = inv_public_id v, pcr_invoice_id = inv_id v,
        pcr_total_amount_cents = total_amount_cents v, pcr_ledger_entry_public_id = Some (le_public_id e)\<rparr>, t) \<and>
    ready t \<and> v \<in> set (invoices (db t)) \<and> inv_status v = open_invoice \<and> inv_idempotency_key v = k \<and>
    inv_organization_id v = oi \<and> total_amount_cents v = usage_total metered usage \<and> totals_ok (db t) \<and>
    ledger_entries (db t) = ledger_entries (db s) @ [e] \<and> entry_type e = usage_charge \<and>
    amount_cents e = usage_total metered usage \<and> le_organization_id e = oi \<and> le_invoice_id e = Some (inv_id v) \<and>
    (\<forall>e \<in> set (ledger_entries (db s)). le_invoice_id e \<noteq> Some (inv_id v)) \<and>
    outbox_key_taken (k @ '':usage.period_closed'') (db t)"
proof -
  let ?c = "invoice_currency metered" and ?start = "astimezone_utc a" and ?stop = "astimezone_utc b"
  define v where "v = draft_invoice (seqs s INVOICES) (upcoming_uuid s) oi ?c ?start ?stop k (Some (sub_id r)) (tx_now s)"
  have s: "ready s" "totals_ok (db s)" "fresh_ids (Suc (Suc (length usage))) s"
    using can by (simp_all add: can_close_def)
  have rs: "r \<in> set (subscriptions (db s))" by (rule primary_subscription_in [OF r])
  obtain g where g: "g \<in> set (organizations (db s))" "org_id g = oi" using can by (auto simp: can_close_def)
  have nk: "\<forall>v \<in> set (invoices (db s)). inv_idempotency_key v \<noteq> k"
    "\<forall>e \<in> set (ledger_entries (db s)). le_idempotency_key e \<noteq> k @ '':usage_charge''"
    using can by (simp_all add: can_close_def)
  have vs: "inv_id v = seqs s INVOICES" "inv_public_id v = upcoming_uuid s" "inv_status v = draft"
    "inv_idempotency_key v = k" "inv_organization_id v = oi" "total_amount_cents v = 0" by (simp_all add: v_def draft_invoice_def)
  have inv: "create_draft_invoice oi ?c ?start ?stop k (Some (sub_id r)) s = (Inr v, drafted s v)" "invoice_ok v (db s)"
    using create_draft_invoice_run [OF s(1,3) nk(1) _ _ v_def] g rs by blast+
  have "billed (Suc 0 + length (order_by fst usage)) v 0 (drafted s v) (drafted s v)"
    using drafted_billed [OF s inv(2) vs(1,2,6)] by simp
  from billed_features [OF this vs(3), of metered] obtain u where
    u: "foldE (bill_feature metered (inv_id v)) (order_by fst usage) () (drafted s v) = (Inr (), u)"
    "billed (Suc 0) v (usage_total metered usage) (drafted s v) u" by auto
  have d: "organizations (db (drafted s v)) = organizations (db s)" "subscriptions (db (drafted s v)) = subscriptions (db s)"
    "ledger_entries (db (drafted s v)) = ledger_entries (db s)" by (simp_all add: drafted_simps add_invoice_def)
  have "find_invoice_by_idempotency_key k s = (Inr None, s)"
    using find_invoice_run [OF s(1), of k] nk(1) by (simp add: first_row_None filter_empty_conv)
  then have "close_billing_period oi a b k s =
      thenE (issue_invoice (inv_id v)) (charge_usage oi r (inv_id v) ?start ?stop usage k) u"
    using tz r readyD(1) [OF s(1)] inv(1) u(1)
    by (simp add: close_billing_period_def normalize_period_bound_def get_primary_subscription_def load_metered_prices_def
        snapshot_usage_by_feature_def usage metered)
  moreover have "\<forall>e \<in> set (ledger_entries (db s)). le_invoice_id e \<noteq> Some (inv_id v)"
    using can vs(1) by (fastforce simp: can_close_def)
  ultimately show ?thesis
    using issue_and_charge [OF u(2) vs(3), unfolded d, OF g(1) rs nk(2), of ?start ?stop usage] vs(4,5) g(2)
    apply (elim exE conjE)
    subgoal for w e t by (intro exI [of _ w] exI [of _ e] exI [of _ t]) simp
    done
qed

text \<open>
  What a period costs, from the hourly totals and the price list. The hours of the period are those
  that begin in it: an hour that began before the period's start is not billed, even if it contains
  usage of the period.
\<close>

definition period_units :: "int \<Rightarrow> instant \<Rightarrow> instant \<Rightarrow> string \<Rightarrow> database \<Rightarrow> numeric6" where
  "period_units oi begins ends k d =
     (\<Sum>u\<leftarrow>[u\<leftarrow>usage_aggregates d. ua_organization_id u = oi \<and> ua_feature_key u = k \<and>
        begins \<le> hour_start u \<and> hour_start u < ends]. ua_quantity u)"

definition unit_price :: "uuid \<Rightarrow> string \<Rightarrow> database \<Rightarrow> int" where
  "unit_price pid k d =
     (let qs = [q\<leftarrow>prices d. price_plan_id q = pid \<and> price_is_active q \<and> pricing_model q = ''per_unit'' \<and>
        metered_feature_key q = Some k \<and> k \<noteq> []]
      in if qs = [] then 0 else unit_amount_cents (last qs))"

definition period_charge :: "int \<Rightarrow> uuid \<Rightarrow> instant \<Rightarrow> instant \<Rightarrow> database \<Rightarrow> int" where
  "period_charge oi pid begins ends d =
     (\<Sum>k \<in> ua_feature_key ` set (usage_aggregates d).
        if 0 < period_units oi begins ends k d
        then int_of_decimal (period_units oi begins ends k d) * unit_price pid k d else 0)"

lemma feature_sums_between:
  "feature_sums (aggregates_between oi begins ends d) =
     map (\<lambda>k. (k, period_units oi begins ends k d)) (remdups (map ua_feature_key (aggregates_between oi begins ends d)))"
  by (auto simp: feature_sums_def aggregates_between_def period_units_def conj_ac intro!: arg_cong [of _ _ sum_list]
      arg_cong2 [of _ _ _ _ map] filter_cong)

lemma period_units_other:
  "k \<notin> ua_feature_key ` set (aggregates_between oi begins ends d) \<Longrightarrow> period_units oi begins ends k d = 0"
  by (auto simp: period_units_def aggregates_between_def image_iff filter_empty_conv
      intro!: arg_cong [of _ "[]" sum_list, simplified])

lemma feature_charge_price:
  "feature_charge (metered_prices pid d) (k, q) = int_of_decimal q * unit_price pid k d"
proof -
  let ?qs = "[p\<leftarrow>prices d. price_plan_id p = pid \<and> price_is_active p \<and> pricing_model p = ''per_unit'' \<and>
    metered_feature_key p = Some k \<and> k \<noteq> []]"
  have "filter (\<lambda>p. the (metered_feature_key p) = k) (filter (metered_price pid) (prices d)) = ?qs"
    by (auto simp: metered_price_def intro!: filter_cong)
  then have "map_of (metered_prices pid d) k = (if ?qs = [] then None else Some (last ?qs))"
    unfolding metered_prices_def map_of_dict_of by (simp only:)
  then show ?thesis by (simp add: feature_charge_def unit_price_def Let_def)
qed

lemma usage_total_period:
  "usage_total (metered_prices pid d) (usage_by_feature oi begins ends d) = period_charge oi pid begins ends d"
proof -
  let ?rows = "aggregates_between oi begins ends d" and ?units = "\<lambda>k. period_units oi begins ends k d"
  let ?c = "\<lambda>k. if 0 < ?units k then int_of_decimal (?units k) * unit_price pid k d else 0"
  have "usage_total (metered_prices pid d) (usage_by_feature oi begins ends d) =
      (\<Sum>k\<leftarrow>remdups (map ua_feature_key ?rows). ?c k)"
    unfolding usage_total_def usage_by_feature_def feature_sums_between
    by (simp add: filter_map comp_def feature_charge_price sum_list_map_filter')
  also have "\<dots> = (\<Sum>k \<in> ua_feature_key ` set ?rows. ?c k)"
    by (simp add: sum_list_distinct_conv_sum_set)
  also have "\<dots> = (\<Sum>k \<in> ua_feature_key ` set (usage_aggregates d). ?c k)"
    by (rule sum.mono_neutral_left) (auto simp: aggregates_between_def period_units_other)
  finally show ?thesis by (simp add: period_charge_def)
qed

lemma usage_by_feature_length:
  "length (usage_by_feature oi begins ends d) \<le> card (ua_feature_key ` set (usage_aggregates d))"
proof -
  have "length (usage_by_feature oi begins ends d) \<le> length (remdups (map ua_feature_key (aggregates_between oi begins ends d)))"
    unfolding usage_by_feature_def feature_sums_between by (metis length_filter_le length_map)
  also have "\<dots> = card (ua_feature_key ` set (aggregates_between oi begins ends d))"
    by (simp add: length_remdups_card_conv)
  also have "\<dots> \<le> card (ua_feature_key ` set (usage_aggregates d))"
    by (rule card_mono) (auto simp: aggregates_between_def)
  finally show ?thesis .
qed

text \<open>
  C32: A period is charged once and exactly. For an existing organization with a subscription and
  aware bounds, under a key not used before, closing succeeds: it appends one ledger entry, a usage
  charge of the invoice's total; the invoice is issued under the key, its total is the sum of its
  line items and equals the sum over the features of the whole units used times the unit price. The
  units are the organization's hourly totals of the hours that begin at or after the period's start
  and before its end (an hour the start falls into is thus left out); the price is that of the
  plan's last active per-unit row for the feature, nothing without one. The closing event is in the
  outbox. Calling it again with the key, with any aware bounds, returns the same result and
  changes nothing.
\<close>

theorem close_billing_period_charges_once:
  assumes can: "can_close (card (ua_feature_key ` set (usage_aggregates (db s))) + 2) oi k s"
    and tz: "has_tz a" "has_tz b" "has_tz a'" "has_tz b'"
    and r: "newest_subscription oi (db s) r"
    and charge: "charge = period_charge oi (sub_plan_id r) (astimezone_utc a) (astimezone_utc b) (db s)"
  shows "\<exists>v e t res. close_billing_period oi a b k s = (Inr res, t) \<and>
    pcr_invoice_id res = inv_id v \<and> pcr_total_amount_cents res = charge \<and>
    pcr_ledger_entry_public_id res = Some (le_public_id e) \<and>
    v \<in> set (invoices (db t)) \<and> inv_status v = open_invoice \<and> inv_idempotency_key v = k \<and> inv_organization_id v = oi \<and>
    total_amount_cents v = charge \<and> total_amount_cents v = item_sum (inv_id v) (db t) \<and>
    ledger_entries (db t) = ledger_entries (db s) @ [e] \<and> entry_type e = usage_charge \<and>
    amount_cents e = charge \<and> le_organization_id e = oi \<and> le_invoice_id e = Some (inv_id v) \<and>
    outbox_key_taken (k @ '':usage.period_closed'') (db t) \<and>
    close_billing_period oi a' b' k t = (Inr res, t)"
proof -
  have can': "can_close (length (usage_by_feature oi (astimezone_utc a) (astimezone_utc b) (db s)) + 2) oi k s"
    using can usage_by_feature_length [of oi "astimezone_utc a" "astimezone_utc b" "db s"]
    unfolding can_close_def by (auto intro: fresh_ids_le)
  obtain v e t where f: "close_billing_period oi a b k s =
      (Inr \<lparr>pcr_invoice_public_id = inv_public_id v, pcr_invoice_id = inv_id v,
        pcr_total_amount_cents = total_amount_cents v, pcr_ledger_entry_public_id = Some (le_public_id e)\<rparr>, t)"
    "ready t" "v \<in> set (invoices (db t))" "inv_status v = open_invoice" "inv_idempotency_key v = k"
    "inv_organization_id v = oi" "total_amount_cents v = charge" "totals_ok (db t)"
    "ledger_entries (db t) = ledger_entries (db s) @ [e]" "entry_type e = usage_charge"
    "amount_cents e = charge" "le_organization_id e = oi" "le_invoice_id e = Some (inv_id v)"
    "\<forall>e \<in> set (ledger_entries (db s)). le_invoice_id e \<noteq> Some (inv_id v)"
    "outbox_key_taken (k @ '':usage.period_closed'') (db t)"
    using close_billing_period_run [OF can' tz(1,2) primary_subscriptionI [OF r] refl refl]
    unfolding usage_total_period charge [symmetric] by blast
  have "filter (\<lambda>w. inv_idempotency_key w = k) (invoices (db t)) = [v]"
    using unique_key_filter [OF keys_uniqueD(13) [OF readyD(2) [OF f(2)]] f(3)] f(5) by simp
  then have find: "find_invoice_by_idempotency_key k t = (Inr (Some v), t)" using find_invoice_run [OF f(2), of k] by simp
  have "filter (\<lambda>x. le_invoice_id x = Some (inv_id v) \<and> entry_type x = usage_charge) (ledger_entries (db t)) = [e]"
    using f(9,10,13,14) by (simp add: filter_empty_conv)
  then have "close_billing_period oi a' b' k t =
      (Inr \<lparr>pcr_invoice_public_id = inv_public_id v, pcr_invoice_id = inv_id v,
        pcr_total_amount_cents = total_amount_cents v, pcr_ledger_entry_public_id = Some (le_public_id e)\<rparr>, t)"
    using find tz(3,4) readyD(1) [OF f(2)]
    by (simp add: close_billing_period_def normalize_period_bound_def result_from_existing_invoice_def)
  moreover have "total_amount_cents v = item_sum (inv_id v) (db t)" using f(3,8) by (simp add: totals_ok_def)
  ultimately show ?thesis
    using f by (intro exI [of _ v] exI [of _ e] exI [of _ t]
      exI [of _ "\<lparr>pcr_invoice_public_id = inv_public_id v, pcr_invoice_id = inv_id v,
        pcr_total_amount_cents = total_amount_cents v, pcr_ledger_entry_public_id = Some (le_public_id e)\<rparr>"]) simp
qed

text \<open>The sample session with a metered price and hourly totals for two features, one of them
  priced, and a total of the hour after the period.\<close>

definition metered_session :: session where
  "metered_session = sample_session\<lparr>db := sample_db\<lparr>
     prices := [\<lparr>price_id = 501, price_plan_id = 201, price_currency = ''usd'', unit_amount_cents = 25,
       pricing_model = ''per_unit'', metered_feature_key = Some ''api_calls'', external_price_id = None,
       price_is_active = True\<rparr>],
     usage_aggregates :=
       [\<lparr>ua_id = 1, ua_public_id = 601, ua_organization_id = 1, ua_feature_key = ''api_calls'', hour_start = 0,
         ua_quantity = decimal_of_int 3\<rparr>,
        \<lparr>ua_id = 2, ua_public_id = 602, ua_organization_id = 1, ua_feature_key = ''exports'', hour_start = 0,
         ua_quantity = decimal_of_int 8\<rparr>,
        \<lparr>ua_id = 3, ua_public_id = 603, ua_organization_id = 1, ua_feature_key = ''api_calls'', hour_start = day_us,
         ua_quantity = decimal_of_int 4\<rparr>]\<rparr>\<rparr>"

lemma metered_session_values:
  "ua_feature_key ` set (usage_aggregates (db metered_session)) = {''api_calls'', ''exports''}"
  "period_units 1 0 day_us ''api_calls'' (db metered_session) = 3000000"
  "period_units 1 0 day_us ''exports'' (db metered_session) = 8000000"
  "unit_price 201 ''api_calls'' (db metered_session) = 25" "unit_price 201 ''exports'' (db metered_session) = 0"
  by (simp_all add: metered_session_def period_units_def unit_price_def decimal_of_int_def insert_commute)

lemma metered_session_charge: "period_charge 1 201 0 day_us (db metered_session) = 75"
  unfolding period_charge_def metered_session_values(1) by (simp add: metered_session_values int_of_decimal_def)

lemma metered_session_tables:
  "subscriptions (db metered_session) = [sample_sub]" "organizations (db metered_session) = [sample_org]"
  "invoices (db metered_session) = []" "ledger_entries (db metered_session) = []"
  "invoice_line_items (db metered_session) = []"
  by (simp_all add: metered_session_def) (simp add: sample_db_def)

lemma metered_session_can_close: "can_close (Suc (Suc (Suc (Suc 0)))) 1 ''p1'' metered_session"
proof -
  have "ready metered_session"
    by (simp add: ready_def metered_session_def sequence_ahead_def)
      (simp add: integrity_defs unique_by_def List.map_filter_simps sample_org_def sample_sub_def)
  moreover have "fresh_ids (Suc (Suc (Suc (Suc 0)))) metered_session"
    by (rule fresh_small_ids) (auto simp: used_ids_def metered_session_def sample_db_def)
  ultimately show ?thesis by (simp add: can_close_def totals_ok_def metered_session_tables)
qed

theorem close_billing_period_charges_once_witness:
  "\<exists>e t res. close_billing_period 1 (Aware 0 0) (Aware day_us 0) ''p1'' metered_session = (Inr res, t) \<and>
     pcr_total_amount_cents res = 75 \<and> ledger_entries (db t) = [e] \<and> amount_cents e = 75"
proof -
  have "newest_subscription 1 (db metered_session) sample_sub"
    by (simp add: newest_subscription_def metered_session_tables)
  then show ?thesis
    using close_billing_period_charges_once [of metered_session 1 "''p1''" "Aware 0 0" "Aware day_us 0"
        "Aware 0 0" "Aware day_us 0" sample_sub 75] metered_session_can_close
    by (auto simp: metered_session_values metered_session_charge metered_session_tables)
qed

end
