(* ===== verification/Reconciliation.thy ===== *)
theory Reconciliation
  imports Period_Close
begin

text \<open>
  Reconciliation (\<^verbatim>\<open>services/reconciliation.py\<close>, \<^verbatim>\<open>workers/tasks/reconciliation_daily.py\<close>): the
  provider's invoices are compared with the payments in the ledger, and the platform's invoices with
  the ledger's charges; the differences are recorded under a run and reported, and nothing else is
  written.
\<close>

section \<open>Comparison\<close>

definition RECONCILIATION_COMPLETED_EVENT :: string where
  "RECONCILIATION_COMPLETED_EVENT = ''reconciliation.completed''"

definition RECONCILIATION_MISMATCH_EVENT :: string where
  "RECONCILIATION_MISMATCH_EVENT = ''reconciliation.mismatch''"

record platform_invoice_record =
  pir_amount_cents :: int
  pir_currency :: string
  pir_status :: string
  pir_organization_id :: int

text \<open>A difference as it is passed on before it is stored; absent amounts are \<^verbatim>\<open>None\<close>.\<close>

record discrepancy_payload =
  dp_kind :: discrepancy_kind
  dp_external_invoice_id :: "string option"
  dp_expected :: "int option"
  dp_actual :: "int option"
  dp_delta :: "int option"
  dp_details :: json_object

text \<open>Expected, actual and their difference, when they differ.\<close>

definition compare_amounts :: "int \<Rightarrow> int \<Rightarrow> (int \<times> int \<times> int) option" where
  "compare_amounts expected actual =
     (if expected = actual then None else Some (expected, actual, expected - actual))"

definition compare_ledger_to_invoice :: "int \<Rightarrow> int \<Rightarrow> (int \<times> int \<times> int) option" where
  "compare_ledger_to_invoice ledger_total invoice_total =
     (if ledger_total = invoice_total then None else Some (invoice_total, ledger_total, invoice_total - ledger_total))"

definition stripe_invoice_amount_cents :: "json_object \<Rightarrow> int" where
  "stripe_invoice_amount_cents v =
     (let due = (case json_int (obj_get v ''amount_due'') of Some i \<Rightarrow> i | None \<Rightarrow> 0)
      in if obj_get v ''status'' = JStr ''paid''
         then (case json_int (obj_get v ''amount_paid'') of Some i \<Rightarrow> i | None \<Rightarrow> due)
         else due)"

definition stripe_invoice_status :: "json_object \<Rightarrow> string" where
  "stripe_invoice_status v = (case obj_get v ''status'' of JStr t \<Rightarrow> t | _ \<Rightarrow> ''unknown'')"

text \<open>\<^verbatim>\<open>x if isinstance(x, str) and x else None\<close>.\<close>

definition nonempty_str :: "json \<Rightarrow> string option" where
  "nonempty_str v = (case json_str v of Some t \<Rightarrow> if t = [] then None else Some t | None \<Rightarrow> None)"

definition payment_entry :: "ledger_entry \<Rightarrow> bool" where
  "payment_entry e \<longleftrightarrow> entry_type e = invoice_paid \<and> nonempty_str (obj_get (le_metadata e) ''invoice_external_id'') \<noteq> None"

definition platform_index :: "database \<Rightarrow> (string \<times> platform_invoice_record) list" where
  "platform_index d =
     dict_of (\<lambda>e. the (nonempty_str (obj_get (le_metadata e) ''invoice_external_id'')))
       (\<lambda>e. \<lparr>pir_amount_cents = amount_cents e, pir_currency = le_currency e, pir_status = ''paid'',
             pir_organization_id = le_organization_id e\<rparr>)
       (filter payment_entry (ledger_entries d))"

definition missing_in_platform :: "string \<Rightarrow> json_object \<Rightarrow> discrepancy_payload" where
  "missing_in_platform i v =
     \<lparr>dp_kind = MISSING_IN_PLATFORM, dp_external_invoice_id = Some i,
      dp_expected = Some (stripe_invoice_amount_cents v), dp_actual = None, dp_delta = None,
      dp_details = [(''stripe_status'', JStr (stripe_invoice_status v)), (''currency'', obj_get v ''currency'')]\<rparr>"

definition amount_mismatch :: "string \<Rightarrow> json_object \<Rightarrow> platform_invoice_record \<Rightarrow> discrepancy_payload list" where
  "amount_mismatch i v p =
     (case compare_amounts (stripe_invoice_amount_cents v) (pir_amount_cents p) of
        None \<Rightarrow> []
      | Some (expected, actual, delta) \<Rightarrow>
          [\<lparr>dp_kind = AMOUNT_MISMATCH, dp_external_invoice_id = Some i, dp_expected = Some expected,
            dp_actual = Some actual, dp_delta = Some delta,
            dp_details = [(''stripe_status'', JStr (stripe_invoice_status v)), (''platform_status'', JStr (pir_status p)),
              (''currency'', JStr (pir_currency p)), (''organization_id'', JInt (pir_organization_id p))]\<rparr>])"

definition status_mismatch :: "string \<Rightarrow> json_object \<Rightarrow> platform_invoice_record \<Rightarrow> discrepancy_payload list" where
  "status_mismatch i v p =
     (if stripe_invoice_status v = pir_status p then []
      else [\<lparr>dp_kind = STATUS_MISMATCH, dp_external_invoice_id = Some i,
             dp_expected = Some (stripe_invoice_amount_cents v), dp_actual = Some (pir_amount_cents p), dp_delta = None,
             dp_details = [(''stripe_status'', JStr (stripe_invoice_status v)), (''platform_status'', JStr (pir_status p)),
               (''organization_id'', JInt (pir_organization_id p))]\<rparr>])"

definition compare_invoice :: "(string \<times> platform_invoice_record) list \<Rightarrow> json_object \<Rightarrow> discrepancy_payload list" where
  "compare_invoice index v =
     (case nonempty_str (obj_get v ''id'') of
        None \<Rightarrow> []
      | Some i \<Rightarrow>
          (case map_of index i of
             None \<Rightarrow> [missing_in_platform i v]
           | Some p \<Rightarrow> amount_mismatch i v p @ status_mismatch i v p))"

definition missing_in_stripe :: "string \<times> platform_invoice_record \<Rightarrow> discrepancy_payload" where
  "missing_in_stripe ip =
     \<lparr>dp_kind = MISSING_IN_STRIPE, dp_external_invoice_id = Some (fst ip),
      dp_expected = Some (pir_amount_cents (snd ip)), dp_actual = None, dp_delta = None,
      dp_details = [(''platform_status'', JStr (pir_status (snd ip))), (''currency'', JStr (pir_currency (snd ip))),
        (''organization_id'', JInt (pir_organization_id (snd ip)))]\<rparr>"

definition detect_discrepancies :: "json_object list \<Rightarrow> (string \<times> platform_invoice_record) list \<Rightarrow> discrepancy_payload list" where
  "detect_discrepancies invs index =
     concat (map (compare_invoice index) invs) @
     map missing_in_stripe
       (filter (\<lambda>ip. Some (fst ip) \<notin> (\<lambda>v. nonempty_str (obj_get v ''id'')) ` set invs) index)"

definition sum_ledger_entries_for_invoice :: "int \<Rightarrow> ledger_entry_type \<Rightarrow> database \<Rightarrow> int" where
  "sum_ledger_entries_for_invoice i et d =
     (\<Sum>e\<leftarrow>filter (\<lambda>e. le_invoice_id e = Some i \<and> entry_type e = et) (ledger_entries d). amount_cents e)"

definition payment_by_external_id :: "string option \<Rightarrow> database \<Rightarrow> int" where
  "payment_by_external_id ext d =
     (case ext of
        None \<Rightarrow> 0
      | Some x \<Rightarrow>
          if x = [] then 0
          else (case first_row (filter (\<lambda>e. entry_type e = invoice_paid \<and>
                  obj_get (le_metadata e) ''invoice_external_id'' = JStr x) (ledger_entries d)) of
                  None \<Rightarrow> 0 | Some e \<Rightarrow> amount_cents e))"

definition ledger_total_for_invoice :: "invoice \<Rightarrow> database \<Rightarrow> int" where
  "ledger_total_for_invoice v d =
     (let usage = sum_ledger_entries_for_invoice (inv_id v) usage_charge d;
          paid = sum_ledger_entries_for_invoice (inv_id v) invoice_paid d
      in if usage > 0 then usage else if paid > 0 then paid else payment_by_external_id (external_invoice_id v) d)"

definition invoice_discrepancy :: "database \<Rightarrow> invoice \<Rightarrow> discrepancy_payload list" where
  "invoice_discrepancy d v =
     (case compare_ledger_to_invoice (ledger_total_for_invoice v d) (total_amount_cents v) of
        None \<Rightarrow> []
      | Some (expected, actual, delta) \<Rightarrow>
          [\<lparr>dp_kind = LEDGER_INVOICE_MISMATCH, dp_external_invoice_id = external_invoice_id v,
            dp_expected = Some expected, dp_actual = Some actual, dp_delta = Some delta,
            dp_details = [(''invoice_public_id'', JStr (uuid_str (inv_public_id v))),
              (''organization_id'', JInt (inv_organization_id v)),
              (''invoice_status'', JStr (invoice_status_value (inv_status v))),
              (''currency'', JStr (inv_currency v))]\<rparr>])"

definition detect_ledger_invoice_discrepancies :: "database \<Rightarrow> discrepancy_payload list" where
  "detect_ledger_invoice_discrepancies d = concat (map (invoice_discrepancy d) (invoices d))"

section \<open>Runs\<close>

definition get_run_by_idempotency_key :: "string \<Rightarrow> reconciliation_run option op" where
  "get_run_by_idempotency_key k =
     bindE (query (\<lambda>d. filter (\<lambda>r. run_idempotency_key r = k) (reconciliation_runs d))) scalar_one_or_none"

definition get_run_by_id :: "uuid \<Rightarrow> reconciliation_run option op" where
  "get_run_by_id u = bindE (query (\<lambda>d. filter (\<lambda>r. run_id r = u) (reconciliation_runs d))) scalar_one_or_none"

definition list_runs :: "nat \<Rightarrow> nat \<Rightarrow> reconciliation_run list op" where
  "list_runs limit offset = query (\<lambda>d. page limit offset (order_by_desc run_started_at (reconciliation_runs d)))"

definition list_discrepancies_for_run :: "uuid \<Rightarrow> nat \<Rightarrow> nat \<Rightarrow> reconciliation_discrepancy list op" where
  "list_discrepancies_for_run u limit offset =
     query (\<lambda>d. page limit offset (order_by disc_created_at
       (filter (\<lambda>c. disc_run_id c = u) (reconciliation_discrepancies d))))"

definition run_ok :: "reconciliation_run \<Rightarrow> database \<Rightarrow> bool" where
  "run_ok r d \<longleftrightarrow> fresh run_id r (reconciliation_runs d) \<and> fresh run_idempotency_key r (reconciliation_runs d)"

definition add_run :: "reconciliation_run \<Rightarrow> database \<Rightarrow> database" where
  "add_run r d = d\<lparr>reconciliation_runs := reconciliation_runs d @ [r]\<rparr>"

definition upd_run :: "uuid \<Rightarrow> (reconciliation_run \<Rightarrow> reconciliation_run) \<Rightarrow> database \<Rightarrow> database" where
  "upd_run u f d = d\<lparr>reconciliation_runs := update_rows (\<lambda>r. run_id r = u) f (reconciliation_runs d)\<rparr>"

definition discrepancy_ok :: "reconciliation_discrepancy \<Rightarrow> database \<Rightarrow> bool" where
  "discrepancy_ok c d \<longleftrightarrow> fresh disc_id c (reconciliation_discrepancies d) \<and>
     refers run_id (disc_run_id c) (reconciliation_runs d)"

definition add_discrepancy :: "reconciliation_discrepancy \<Rightarrow> database \<Rightarrow> database" where
  "add_discrepancy c d = d\<lparr>reconciliation_discrepancies := reconciliation_discrepancies d @ [c]\<rparr>"

definition store_discrepancy :: "uuid \<Rightarrow> discrepancy_payload \<Rightarrow> unit \<Rightarrow> unit op" where
  "store_discrepancy ru p x =
     bindE new_uuid (\<lambda>u. bindE (getE tx_now) (\<lambda>t.
     let c = \<lparr>disc_id = u, disc_run_id = ru, disc_kind = dp_kind p,
              disc_external_invoice_id = dp_external_invoice_id p, expected_amount_cents = dp_expected p,
              actual_amount_cents = dp_actual p, delta_cents = dp_delta p, disc_details = dp_details p,
              disc_created_at = t\<rparr>
     in thenE (insert_checked (discrepancy_ok c) (add_discrepancy c)) (returnE x)))"

definition total_delta :: "discrepancy_payload list \<Rightarrow> int" where
  "total_delta ps = (\<Sum>p\<leftarrow>ps. case dp_delta p of None \<Rightarrow> 0 | Some i \<Rightarrow> \<bar>i\<bar>)"

definition reconciliation_stats :: "nat \<Rightarrow> nat \<Rightarrow> discrepancy_payload list \<Rightarrow> discrepancy_payload list \<Rightarrow> json_object" where
  "reconciliation_stats n_stripe n_platform all ledger =
     [(''stripe_invoice_count'', JInt (int n_stripe)), (''platform_invoice_count'', JInt (int n_platform)),
      (''discrepancy_count'', JInt (int (length all))),
      (''ledger_invoice_discrepancy_count'', JInt (int (length ledger))),
      (''total_delta_cents'', JInt (total_delta all))]"

definition should_alert_recon_mismatch :: "int \<Rightarrow> int \<Rightarrow> bool" where
  "should_alert_recon_mismatch delta limit \<longleftrightarrow> \<bar>delta\<bar> \<ge> limit"

definition material_discrepancies :: "int \<Rightarrow> discrepancy_payload list \<Rightarrow> discrepancy_payload list" where
  "material_discrepancies limit ps =
     filter (\<lambda>p. case dp_delta p of None \<Rightarrow> False | Some i \<Rightarrow> should_alert_recon_mismatch i limit) ps"

definition run_summary :: "reconciliation_run \<Rightarrow> json_object" where
  "run_summary r =
     [(''run_id'', JStr (uuid_str (run_id r))), (''run_type'', JStr (run_type_value (run_kind r))),
      (''stats'', JObj (run_stats r))]"

definition enqueue_run_events :: "reconciliation_run \<Rightarrow> discrepancy_payload list \<Rightarrow> unit op" where
  "enqueue_run_events r ps =
     (let ru = uuid_str (run_id r) in
      thenE (enqueue_outbox ''reconciliation'' ru RECONCILIATION_COMPLETED_EVENT
        (run_summary r @ [(''organization_id'', JInt 0)]) (''reconciliation:'' @ ru @ '':completed'') ru)
      (bindE (getE (\<lambda>s. reconciliation_alert_amount_cents (settings s))) (\<lambda>limit.
       let material = material_discrepancies limit ps in
       whenE (material \<noteq> [])
         (enqueue_outbox ''reconciliation'' ru RECONCILIATION_MISMATCH_EVENT
           (run_summary r @ [(''organization_id'', JInt 0), (''material_discrepancy_count'', JInt (int (length material))),
              (''alert_threshold_cents'', JInt limit)])
           (''reconciliation:'' @ ru @ '':mismatch'') ru))))"

definition new_run :: "uuid \<Rightarrow> run_type \<Rightarrow> string \<Rightarrow> instant \<Rightarrow> reconciliation_run" where
  "new_run u kind k t =
     \<lparr>run_id = u, run_kind = kind, run_state = RUN_RUNNING, run_stats = [], run_idempotency_key = k,
      run_started_at = t, run_completed_at = None\<rparr>"

text \<open>\<open>provider\<close>: the provider's answer to \<^verbatim>\<open>list_invoices\<close>.\<close>

definition reconcile :: "py_error + json_object list \<Rightarrow> reconciliation_run \<Rightarrow> reconciliation_run op" where
  "reconcile provider r =
     bindE (liftE provider) (\<lambda>invs.
     bindE (query platform_index) (\<lambda>index.
     bindE (query detect_ledger_invoice_discrepancies) (\<lambda>ledger.
     let all = detect_discrepancies invs index @ ledger in
     bindE now_utc (\<lambda>now.
     thenE (foldE (store_discrepancy (run_id r)) all ())
     (let completed = r\<lparr>run_stats := reconciliation_stats (length invs) (length index) all ledger,
                   run_state := RUN_COMPLETED, run_completed_at := Some now\<rparr>
      in thenE (update_db (upd_run (run_id r) (\<lambda>_. completed)))
        (thenE flush
        (thenE (emit_metric (ReconciliationDiscrepancyAmount (total_delta all)))
        (thenE (enqueue_run_events completed all) (returnE completed)))))))))"

definition run_failed :: "uuid \<Rightarrow> py_error \<Rightarrow> 'a op" where
  "run_failed u e =
     bindE now_utc (\<lambda>now.
     thenE (update_db (upd_run u (\<lambda>r. r\<lparr>run_state := RUN_FAILED, run_completed_at := Some now\<rparr>)))
       (thenE flush (reraiseE e)))"

definition run_reconciliation :: "py_error + json_object list \<Rightarrow> run_type \<Rightarrow> string \<Rightarrow> reconciliation_run op" where
  "run_reconciliation provider kind k =
     bindE (get_run_by_idempotency_key k) (\<lambda>existing.
     case existing of Some r \<Rightarrow> returnE r
     | None \<Rightarrow>
         bindE new_uuid (\<lambda>u. bindE (getE tx_now) (\<lambda>t.
         let r = new_run u kind k t in
         thenE (insert_checked (run_ok r) (add_run r))
           (catchE (reconcile provider r) (run_failed u)))))"

text \<open>The daily task: one run per date, committed.\<close>

fun run_status_value :: "run_status \<Rightarrow> string" where
  "run_status_value RUN_RUNNING = ''running''"
| "run_status_value RUN_COMPLETED = ''completed''"
| "run_status_value RUN_FAILED = ''failed''"

definition daily_idempotency_key :: "instant \<Rightarrow> string" where
  "daily_idempotency_key t = ''recon:daily:'' @ isodate t"

definition run_daily_reconciliation :: "py_error + json_object list \<Rightarrow> instant \<Rightarrow> json_object op" where
  "run_daily_reconciliation provider run_date =
     bindE (run_reconciliation provider DAILY (daily_idempotency_key run_date)) (\<lambda>r.
     thenE commit (returnE
       [(''run_id'', JStr (uuid_str (run_id r))), (''run_type'', JStr (run_type_value (run_kind r))),
        (''status'', JStr (run_status_value (run_state r))), (''idempotency_key'', JStr (daily_idempotency_key run_date))]))"

text \<open>The task's argument, when it is given, is an instant of the date it was parsed to.\<close>

definition reconciliation_daily_task :: "py_error + json_object list \<Rightarrow> instant option \<Rightarrow> json_object op" where
  "reconciliation_daily_task provider run_date =
     bindE (case run_date of None \<Rightarrow> now_utc | Some t \<Rightarrow> returnE t) (run_daily_reconciliation provider)"

section \<open>Write footprint\<close>

locale reconciliation_client = outbox_client +
  assumes run_insert: "run_ok r d \<Longrightarrow> D d (add_run r d)"
    and run_update: "D d (upd_run u f d)"
    and discrepancy_insert: "discrepancy_ok c d \<Longrightarrow> D d (add_discrepancy c d)"
begin

lemma get_run_by_idempotency_key: "keeps_db D (get_run_by_idempotency_key k)"
  unfolding get_run_by_idempotency_key_def by (intro primitives)

lemma enqueue_run_events: "keeps_db D (enqueue_run_events r ps)"
  unfolding enqueue_run_events_def by (intro primitives enqueue_outbox)

lemma store_discrepancy: "keeps_db D (store_discrepancy ru p x)"
  unfolding store_discrepancy_def by (intro primitives discrepancy_insert)

lemma reconcile: "keeps_db D (reconcile provider r)"
  unfolding reconcile_def by (intro primitives store_discrepancy run_update enqueue_run_events)

lemma run_failed: "keeps_db D (run_failed u e)"
  unfolding run_failed_def by (intro primitives run_update)

lemma run_reconciliation: "keeps_db D (run_reconciliation provider kind k)"
  unfolding run_reconciliation_def
  by (intro primitives get_run_by_idempotency_key run_insert reconcile run_failed)

lemma reconciliation_daily_task: "keeps_tx D (reconciliation_daily_task provider t)"
  unfolding reconciliation_daily_task_def run_daily_reconciliation_def
  by (intro transactions in_transaction now_utc run_reconciliation)

end

text \<open>
  The strongest instance: everything but the runs, their discrepancies and the outbox stays exactly
  as it is, and the outbox only grows.
\<close>

definition detection_only :: "database \<Rightarrow> database \<Rightarrow> bool" where
  "detection_only d e \<longleftrightarrow>
     e\<lparr>reconciliation_runs := [], reconciliation_discrepancies := [], outbox_messages := []\<rparr> =
     d\<lparr>reconciliation_runs := [], reconciliation_discrepancies := [], outbox_messages := []\<rparr> \<and>
     prefix (outbox_messages d) (outbox_messages e) \<and> prefix (reconciliation_discrepancies d) (reconciliation_discrepancies e)"

lemmas reconciliation_write_defs = add_run_def upd_run_def add_discrepancy_def add_outbox_def

interpretation detection: reconciliation_client detection_only
  by unfold_locales
    (auto simp: detection_only_def reconciliation_write_defs intro: prefix_order.trans)

interpretation reconciliation_log: reconciliation_client ledger_extends
  by unfold_locales (simp_all add: ledger_extends_def reconciliation_write_defs)

interpretation reconciliation_lifecycle: reconciliation_client lifecycle_kept
  by unfold_locales (auto simp: reconciliation_write_defs intro: lifecycle_kept_same)

interpretation reconciliation_totals: reconciliation_client totals_kept
  by unfold_locales
    (auto simp: totals_kept_def issued_kept_def totals_ok_def items_of_def item_sum_def reconciliation_write_defs)

lemma db_ok_reconciliation:
  "db_ok (add_run r d) = db_ok d" "db_ok (upd_run u f d) = db_ok d" "db_ok (add_discrepancy c d) = db_ok d"
  by (simp_all add: integrity_defs add_run_def upd_run_def add_discrepancy_def)

interpretation reconciliation_integrity: reconciliation_client stays_ok
  by unfold_locales (simp_all add: stays_ok_def db_ok_reconciliation)

section \<open>Properties\<close>

text \<open>The two registries agree on every invoice they name.\<close>

definition registries_agree :: "json_object list \<Rightarrow> (string \<times> platform_invoice_record) list \<Rightarrow> bool" where
  "registries_agree invs index \<longleftrightarrow>
     (\<forall>v \<in> set invs. \<forall>i. nonempty_str (obj_get v ''id'') = Some i \<longrightarrow>
        (\<exists>p. map_of index i = Some p \<and> stripe_invoice_amount_cents v = pir_amount_cents p \<and>
           stripe_invoice_status v = pir_status p)) \<and>
     (\<forall>i p. (i, p) \<in> set index \<longrightarrow> (\<exists>v \<in> set invs. nonempty_str (obj_get v ''id'') = Some i))"

lemma mismatch_Nil:
  "amount_mismatch i v p = [] \<longleftrightarrow> stripe_invoice_amount_cents v = pir_amount_cents p"
  "status_mismatch i v p = [] \<longleftrightarrow> stripe_invoice_status v = pir_status p"
  by (simp_all add: amount_mismatch_def status_mismatch_def compare_amounts_def)

lemma compare_invoice_Nil:
  "compare_invoice index v = [] \<longleftrightarrow> (\<forall>i. nonempty_str (obj_get v ''id'') = Some i \<longrightarrow>
     (\<exists>p. map_of index i = Some p \<and> stripe_invoice_amount_cents v = pir_amount_cents p \<and>
        stripe_invoice_status v = pir_status p))"
  by (simp add: compare_invoice_def mismatch_Nil split: option.split)

text \<open>
  C36: The comparison with the provider is exact. It reports nothing if and only if every invoice the
  provider names is in the platform's index with the same amount and status and every invoice of the
  index is named by the provider; so no difference goes unnoticed and none is made up.
\<close>

theorem detect_discrepancies_exact:
  "detect_discrepancies invs index = [] \<longleftrightarrow> registries_agree invs index"
proof -
  let ?ids = "(\<lambda>v. nonempty_str (obj_get v ''id'')) ` set invs"
  have named: "Some i \<in> ?ids \<longleftrightarrow> (\<exists>v \<in> set invs. nonempty_str (obj_get v ''id'') = Some i)" for i
    unfolding image_iff by metis
  have "concat (map (compare_invoice index) invs) = [] \<longleftrightarrow> (\<forall>v \<in> set invs. compare_invoice index v = [])" by simp
  moreover have "filter (\<lambda>ip. Some (fst ip) \<notin> ?ids) index = [] \<longleftrightarrow> (\<forall>i p. (i, p) \<in> set index \<longrightarrow> Some i \<in> ?ids)"
    unfolding filter_empty_conv by (simp only: not_not Ball_def split_paired_All fst_conv)
  ultimately show ?thesis
    unfolding detect_discrepancies_def registries_agree_def compare_invoice_Nil named by simp
qed

section \<open>A run\<close>

text \<open>What a stored row says.\<close>

definition payload_of :: "reconciliation_discrepancy \<Rightarrow> discrepancy_payload" where
  "payload_of c =
     \<lparr>dp_kind = disc_kind c, dp_external_invoice_id = disc_external_invoice_id c, dp_expected = expected_amount_cents c,
      dp_actual = actual_amount_cents c, dp_delta = delta_cents c, dp_details = disc_details c\<rparr>"

lemma used_ids_discrepancies:
  "used_ids (d\<lparr>reconciliation_discrepancies := cs\<rparr>) \<subseteq> used_ids d \<union> disc_id ` set cs"
  by (auto simp: used_ids_def)

lemma used_ids_add_run: "used_ids (add_run r d) = insert (run_id r) (used_ids d)"
  by (auto simp: used_ids_def add_run_def)

text \<open>A new run does not change what is compared.\<close>

lemma detection_inputs:
  "platform_index (add_run r d) = platform_index d"
  "detect_ledger_invoice_discrepancies (add_run r d) = detect_ledger_invoice_discrepancies d"
proof -
  show "platform_index (add_run r d) = platform_index d" by (simp add: platform_index_def add_run_def)
  have l: "ledger_entries (add_run r d) = ledger_entries d" by (simp add: add_run_def)
  have "ledger_total_for_invoice v (add_run r d) = ledger_total_for_invoice v d" for v
    unfolding ledger_total_for_invoice_def sum_ledger_entries_for_invoice_def payment_by_external_id_def l by (rule refl)
  then have "invoice_discrepancy (add_run r d) = invoice_discrepancy d"
    unfolding invoice_discrepancy_def by (simp only:)
  then show "detect_ledger_invoice_discrepancies (add_run r d) = detect_ledger_invoice_discrepancies d"
    by (simp add: detect_ledger_invoice_discrepancies_def add_run_def)
qed

lemma dp_kind_payload_of [simp]: "dp_kind (payload_of c) = disc_kind c"
  by (simp add: payload_of_def)

lemma store_discrepancy_run:
  assumes s: "ready s" "fresh_ids (Suc n) s" and ru: "ru \<in> run_id ` set (reconciliation_runs (db s))"
  shows "\<exists>c t. store_discrepancy ru p () s = (Inr (), t) \<and> ready t \<and> fresh_ids n t \<and> settings t = settings s \<and>
    db t = add_discrepancy c (db s) \<and> payload_of c = p \<and> disc_run_id c = ru"
proof -
  define c where "c = \<lparr>disc_id = upcoming_uuid s, disc_run_id = ru, disc_kind = dp_kind p,
      disc_external_invoice_id = dp_external_invoice_id p, expected_amount_cents = dp_expected p,
      actual_amount_cents = dp_actual p, delta_cents = dp_delta p, disc_details = dp_details p, disc_created_at = tx_now s\<rparr>"
  have c: "disc_id c = upcoming_uuid s" "disc_run_id c = ru" "payload_of c = p" by (simp_all add: c_def payload_of_def)
  have "upcoming_uuid s \<notin> disc_id ` set (reconciliation_discrepancies (db s))"
    using fresh_idsD [OF s(2)] by (simp add: used_ids_def)
  then have ok: "discrepancy_ok c (db s)"
    using ru by (simp add: discrepancy_ok_def fresh_iff refers_iff c) (metis imageI)
  let ?t = "(after_uuid s)\<lparr>db := add_discrepancy c (db s)\<rparr>"
  have "store_discrepancy ru p () s = (Inr (), ?t)"
    using readyD(1) [OF s(1)] ok by (simp add: store_discrepancy_def Let_def c_def)
  moreover have "ready ?t"
    using s(1) by (simp add: ready_def db_ok_reconciliation sequence_ahead_def) (simp add: add_discrepancy_def)
  moreover have "fresh_ids n ?t"
  proof (rule fresh_ids_drawn [OF s(2)])
    show "used_ids (db ?t) \<subseteq> insert (uuid_draw s (clock_pos s) (rnd_pos s)) (used_ids (db s))"
      using used_ids_discrepancies [of "reconciliation_discrepancies (db s) @ [c]" "db s"] c(1)
      by (auto simp: add_discrepancy_def upcoming_uuid_draw used_ids_def)
  qed (simp_all add: after_uuid_def)
  ultimately show ?thesis using c by (intro exI [of _ c] exI [of _ ?t]) simp
qed

lemma store_discrepancies_run:
  assumes "ready s" "fresh_ids (n + length ps) s" "ru \<in> run_id ` set (reconciliation_runs (db s))"
  shows "\<exists>cs t. foldE (store_discrepancy ru) ps () s = (Inr (), t) \<and> ready t \<and> settings t = settings s \<and>
    db t = (db s)\<lparr>reconciliation_discrepancies := reconciliation_discrepancies (db s) @ cs\<rparr> \<and>
    map payload_of cs = ps \<and> (\<forall>c \<in> set cs. disc_run_id c = ru)"
  using assms
proof (induction ps arbitrary: s)
  case Nil
  then show ?case by simp
next
  case (Cons p ps)
  then have "fresh_ids (Suc (n + length ps)) s" by simp
  from store_discrepancy_run [OF Cons.prems(1) this Cons.prems(3), of p] obtain c u where
    u: "store_discrepancy ru p () s = (Inr (), u)" "ready u" "fresh_ids (n + length ps) u" "settings u = settings s"
    "db u = add_discrepancy c (db s)" "payload_of c = p" "disc_run_id c = ru" by blast
  have "ru \<in> run_id ` set (reconciliation_runs (db u))" using Cons.prems(3) u(5) by (simp add: add_discrepancy_def)
  from Cons.IH [OF u(2,3) this] obtain cs t where
    t: "foldE (store_discrepancy ru) ps () u = (Inr (), t)" "ready t" "settings t = settings u"
    "db t = (db u)\<lparr>reconciliation_discrepancies := reconciliation_discrepancies (db u) @ cs\<rparr>"
    "map payload_of cs = ps" "\<forall>c \<in> set cs. disc_run_id c = ru" by blast
  from u t show ?case by (intro exI [of _ "c # cs"] exI [of _ t]) (simp add: add_discrepancy_def)
qed

lemma enqueue_run_events_run:
  assumes "ready s"
  shows "\<exists>t. enqueue_run_events r ps s = (Inr (), t) \<and> ready t \<and> outbox_only (db s) (db t) \<and>
    outbox_key_taken (''reconciliation:'' @ uuid_str (run_id r) @ '':completed'') (db t) \<and>
    (material_discrepancies (reconciliation_alert_amount_cents (settings s)) ps \<noteq> [] \<longrightarrow>
       outbox_key_taken (''reconciliation:'' @ uuid_str (run_id r) @ '':mismatch'') (db t))"
proof -
  let ?ru = "uuid_str (run_id r)" and ?ck = "''reconciliation:'' @ uuid_str (run_id r) @ '':completed''"
  let ?limit = "reconciliation_alert_amount_cents (settings s)"
  obtain u where u: "enqueue_outbox ''reconciliation'' ?ru RECONCILIATION_COMPLETED_EVENT
      (run_summary r @ [(''organization_id'', JInt 0)]) ?ck ?ru s = (Inr (), u)" "event_recorded ?ck s u"
    using enqueue_outbox_recorded [OF assms] by blast
  have u2: "ready u" "outbox_only (db s) (db u)" "outbox_key_taken ?ck (db u)" "settings u = settings s"
    using u(2) by (simp_all add: event_recorded_def)
  show ?thesis
  proof (cases "material_discrepancies ?limit ps = []")
    case True
    then show ?thesis using u(1) u2 by (simp add: enqueue_run_events_def Let_def)
  next
    case False
    obtain t where t: "enqueue_outbox ''reconciliation'' ?ru RECONCILIATION_MISMATCH_EVENT
        (run_summary r @ [(''organization_id'', JInt 0),
          (''material_discrepancy_count'', JInt (int (length (material_discrepancies ?limit ps)))),
          (''alert_threshold_cents'', JInt ?limit)]) (''reconciliation:'' @ ?ru @ '':mismatch'') ?ru u = (Inr (), t)"
      "event_recorded (''reconciliation:'' @ ?ru @ '':mismatch'') u t"
      using enqueue_outbox_recorded [OF u2(1)] by blast
    have t2: "ready t" "outbox_only (db u) (db t)" "outbox_key_taken (''reconciliation:'' @ ?ru @ '':mismatch'') (db t)"
      using t(2) by (simp_all add: event_recorded_def)
    have "outbox_key_taken ?ck (db t)"
      using u2(3) outbox_onlyD(9) [OF t2(2)] by (auto simp: outbox_key_taken_def refers_iff)
    with u(1) u2 t(1) t2 False outbox_frame.db_trans [OF u2(2) t2(2)] show ?thesis
      by (simp add: enqueue_run_events_def Let_def)
  qed
qed

lemma reconcile_run:
  assumes s: "ready s" "fresh_ids (length all) s"
    and all: "all = detect_discrepancies invs (platform_index (db s)) @ detect_ledger_invoice_discrepancies (db s)"
    and r: "reconciliation_runs (db s) = rs @ [r]" "\<forall>q \<in> set rs. run_id q \<noteq> run_id r"
  shows "\<exists>q cs t. reconcile (Inr invs) r s = (Inr q, t) \<and> ready t \<and> run_state q = RUN_COMPLETED \<and> run_id q = run_id r \<and>
    run_idempotency_key q = run_idempotency_key r \<and> reconciliation_runs (db t) = rs @ [q] \<and>
    reconciliation_discrepancies (db t) = reconciliation_discrepancies (db s) @ cs \<and> map payload_of cs = all \<and>
    (\<forall>c \<in> set cs. disc_run_id c = run_id r) \<and>
    outbox_key_taken (''reconciliation:'' @ uuid_str (run_id r) @ '':completed'') (db t)"
proof -
  let ?now = "clock s (clock_pos s)" and ?s = "s\<lparr>clock_pos := Suc (clock_pos s)\<rparr>"
  let ?ledger = "detect_ledger_invoice_discrepancies (db s)" and ?index = "platform_index (db s)"
  define q where "q = r\<lparr>run_stats := reconciliation_stats (length invs) (length ?index) all ?ledger,
      run_state := RUN_COMPLETED, run_completed_at := Some ?now\<rparr>"
  have q: "run_id q = run_id r" "run_state q = RUN_COMPLETED" "run_idempotency_key q = run_idempotency_key r" by (simp_all add: q_def)
  have "ready ?s" using s(1) by (simp add: ready_def sequence_ahead_def)
  moreover have "fresh_ids (0 + length all) ?s" using s(2) by (simp add: fresh_ids_same)
  moreover have "run_id r \<in> run_id ` set (reconciliation_runs (db ?s))" by (simp add: r(1))
  ultimately obtain cs u where u: "foldE (store_discrepancy (run_id r)) all () ?s = (Inr (), u)" "ready u"
    "db u = (db s)\<lparr>reconciliation_discrepancies := reconciliation_discrepancies (db s) @ cs\<rparr>"
    "map payload_of cs = all" "\<forall>c \<in> set cs. disc_run_id c = run_id r"
    using store_discrepancies_run [of ?s 0 all "run_id r"] by auto
  let ?d = "upd_run (run_id r) (\<lambda>_. q) (db u)"
  let ?m = "ReconciliationDiscrepancyAmount (total_delta all)"
  let ?u = "u\<lparr>db := ?d, metrics := metrics u @ [?m]\<rparr>"
  have "update_rows (\<lambda>x. run_id x = run_id r) f rs = rs" for f using r(2) by (induction rs) auto
  then have runs: "reconciliation_runs ?d = rs @ [q]" using u(3) r(1) by (simp add: upd_run_def update_rows_def)
  have "ready ?u" using u(2) by (simp add: ready_def db_ok_reconciliation sequence_ahead_def) (simp add: upd_run_def)
  from enqueue_run_events_run [OF this, of q all] obtain t where
    t: "enqueue_run_events q all ?u = (Inr (), t)" "ready t" "outbox_only ?d (db t)"
    "outbox_key_taken (''reconciliation:'' @ uuid_str (run_id r) @ '':completed'') (db t)" using q(1) by auto
  have eq: "(db t)\<lparr>outbox_messages := []\<rparr> = ?d\<lparr>outbox_messages := []\<rparr>" using t(3) by (simp add: outbox_only_def)
  have "reconciliation_runs (db t) = rs @ [q]" using arg_cong [OF eq, of reconciliation_runs] runs by simp
  moreover have "reconciliation_discrepancies (db t) = reconciliation_discrepancies (db s) @ cs"
    using arg_cong [OF eq, of reconciliation_discrepancies] u(3) by (simp add: upd_run_def)
  moreover have "reconcile (Inr invs) r s = (Inr q, t)"
    using readyD(1) [OF s(1)] readyD(1) [OF u(2)] u(1) t(1)
    by (simp add: reconcile_def Let_def all [symmetric] q_def [symmetric])
  ultimately show ?thesis using q t u by blast
qed

text \<open>
  C37: A reconciliation run detects and only detects. On a usable session, under a new key and when
  the provider answers, the run completes, stores exactly one row per difference found, in order and
  under the run's id, and reports its completion; the subscriptions, invoices, ledger, usage and all
  other tables are unchanged. Running again with the key, whatever the provider answers, returns the
  same run and changes nothing.
\<close>

theorem run_reconciliation_detects:
  assumes s: "ready s" "fresh_ids (Suc (length all)) s"
    and uk: "unique_key run_idempotency_key (reconciliation_runs (db s))"
    and k: "\<forall>r \<in> set (reconciliation_runs (db s)). run_idempotency_key r \<noteq> k"
    and all: "all = detect_discrepancies invs (platform_index (db s)) @ detect_ledger_invoice_discrepancies (db s)"
  shows "\<exists>r cs t. run_reconciliation (Inr invs) kind k s = (Inr r, t) \<and> run_state r = RUN_COMPLETED \<and>
    reconciliation_runs (db t) = reconciliation_runs (db s) @ [r] \<and>
    reconciliation_discrepancies (db t) = reconciliation_discrepancies (db s) @ cs \<and> map payload_of cs = all \<and>
    (\<forall>c \<in> set cs. disc_run_id c = run_id r) \<and>
    outbox_key_taken (''reconciliation:'' @ uuid_str (run_id r) @ '':completed'') (db t) \<and>
    detection_only (db s) (db t) \<and> run_reconciliation provider kind' k t = (Inr r, t)"
proof -
  let ?r = "new_run (upcoming_uuid s) kind k (tx_now s)" and ?runs = "reconciliation_runs (db s)"
  let ?s = "(after_uuid s)\<lparr>db := add_run ?r (db s)\<rparr>"
  have r: "run_id ?r = upcoming_uuid s" "run_idempotency_key ?r = k" by (simp_all add: new_run_def)
  have "upcoming_uuid s \<notin> run_id ` set ?runs" using fresh_idsD [OF s(2)] by (simp add: used_ids_def)
  then have ids: "\<forall>q \<in> set ?runs. run_id q \<noteq> upcoming_uuid s" by (metis imageI)
  then have ok: "run_ok ?r (db s)" using k by (simp add: run_ok_def fresh_iff r)
  have "ready ?s" using s(1) by (simp add: ready_def db_ok_reconciliation sequence_ahead_def) (simp add: add_run_def)
  moreover have "fresh_ids (length all) ?s"
  proof (rule fresh_ids_drawn [OF s(2)])
    show "used_ids (db ?s) \<subseteq> insert (uuid_draw s (clock_pos s) (rnd_pos s)) (used_ids (db s))"
      unfolding upcoming_uuid_draw [symmetric] by (simp add: used_ids_add_run r subset_insertI)
  qed (simp_all add: after_uuid_def)
  moreover have "all = detect_discrepancies invs (platform_index (db ?s)) @ detect_ledger_invoice_discrepancies (db ?s)"
    unfolding all by (simp add: detection_inputs)
  moreover have "reconciliation_runs (db ?s) = ?runs @ [?r]" "\<forall>q \<in> set ?runs. run_id q \<noteq> run_id ?r"
    using ids r by (simp_all add: add_run_def)
  ultimately obtain q cs t where t: "reconcile (Inr invs) ?r ?s = (Inr q, t)" "ready t" "run_state q = RUN_COMPLETED"
    "run_id q = upcoming_uuid s" "run_idempotency_key q = k" "reconciliation_runs (db t) = ?runs @ [q]"
    "reconciliation_discrepancies (db t) = reconciliation_discrepancies (db s) @ cs" "map payload_of cs = all"
    "\<forall>c \<in> set cs. disc_run_id c = run_id q"
    "outbox_key_taken (''reconciliation:'' @ uuid_str (run_id q) @ '':completed'') (db t)"
    using reconcile_run [of ?s all invs ?runs ?r] r by (auto simp: add_run_def)
  have "filter (\<lambda>x. run_idempotency_key x = k) ?runs = []" using k by (simp add: filter_empty_conv)
  then have run: "run_reconciliation (Inr invs) kind k s = (Inr q, t)"
    using readyD(1) [OF s(1)] ok t(1)
    by (simp add: run_reconciliation_def get_run_by_idempotency_key_def Let_def)
  have "run_reconciliation provider kind' k t = (Inr q, t)"
    using readyD(1) [OF t(2)] t(5,6) \<open>filter _ ?runs = []\<close> by (simp add: run_reconciliation_def get_run_by_idempotency_key_def)
  moreover have "detection_only (db s) (db t)" by (rule keeps_dbD [OF detection.run_reconciliation run])
  ultimately show ?thesis using run t by blast
qed

theorem run_reconciliation_detects_witness:
  "\<exists>r t. run_reconciliation (Inr [[(''id'', JStr ''in_1''), (''amount_due'', JInt 500), (''status'', JStr ''open'')]]) MANUAL ''r1''
     sample_session = (Inr r, t) \<and> run_state r = RUN_COMPLETED \<and>
     map disc_kind (reconciliation_discrepancies (db t)) = [MISSING_IN_PLATFORM]"
proof -
  let ?invs = "[[(''id'', JStr ''in_1''), (''amount_due'', JInt 500), (''status'', JStr ''open'')]]"
  define all where "all = detect_discrepancies ?invs (platform_index (db sample_session)) @ detect_ledger_invoice_discrepancies (db sample_session)"
  have a: "all = [missing_in_platform ''in_1'' (hd ?invs)]"
    by (simp add: all_def detect_discrepancies_def platform_index_def detect_ledger_invoice_discrepancies_def
        compare_invoice_def nonempty_str_def obj_get_def)
  have t: "reconciliation_runs (db sample_session) = []" "reconciliation_discrepancies (db sample_session) = []"
    by (simp_all add: sample_db_def)
  have "fresh_ids (Suc (length all)) sample_session" by (rule fresh_ids_le [OF sample_fresh]) (simp add: a)
  from run_reconciliation_detects [OF sample_ready this _ _ all_def, of "''r1''" MANUAL "Inr []" MANUAL] t
  obtain r cs t' where "run_reconciliation (Inr ?invs) MANUAL ''r1'' sample_session = (Inr r, t')" "run_state r = RUN_COMPLETED"
    "reconciliation_discrepancies (db t') = cs" "map payload_of cs = all" by auto
  moreover have "map dp_kind (map payload_of cs) = map dp_kind all" using \<open>map payload_of cs = all\<close> by (rule arg_cong)
  then have "map disc_kind cs = [MISSING_IN_PLATFORM]" by (simp add: a missing_in_platform_def comp_def)
  ultimately show ?thesis by (intro exI [of _ r] exI [of _ t']) simp
qed

end
