(* ===== verification/Responses.thy ===== *)
theory Responses
  imports Identity Webhooks Entitlements Reconciliation
begin

text \<open>
  The response models of the HTTP routes (\<^verbatim>\<open>api/v1\<close>) and how they are filled from rows. Responses
  identify everything by public identifiers: no internal number and no key digest appears in them.
  The catalog models have exactly the columns of their rows, so there the row is the response.
\<close>

record organization_response =
  or_public_id :: uuid
  or_external_id :: "string option"
  or_name :: string
  or_billing_email :: "string option"
  or_metadata :: json_object
  or_created_at :: instant
  or_updated_at :: instant

definition organization_to_response :: "organization \<Rightarrow> organization_response" where
  "organization_to_response g =
     \<lparr>or_public_id = org_public_id g, or_external_id = org_external_id g, or_name = org_name g,
      or_billing_email = org_billing_email g, or_metadata = org_metadata g, or_created_at = org_created_at g,
      or_updated_at = org_updated_at g\<rparr>"

text \<open>The same fields for a created and for a rotated key: the only place where a raw key appears.\<close>

record api_key_issued_response =
  ki_id :: uuid
  ki_key_prefix :: string
  ki_role :: string
  ki_raw_key :: string

definition issued_to_response :: "api_key \<Rightarrow> string \<Rightarrow> api_key_issued_response" where
  "issued_to_response k raw = \<lparr>ki_id = key_id k, ki_key_prefix = key_prefix k, ki_role = key_role k, ki_raw_key = raw\<rparr>"

record api_key_revoked_response =
  kr_id :: uuid
  kr_key_prefix :: string
  kr_role :: string
  kr_revoked_at :: instant

record subscription_response =
  sr_public_id :: uuid
  sr_organization_public_id :: uuid
  sr_plan_id :: uuid
  sr_status :: string
  sr_current_period_start :: instant
  sr_current_period_end :: instant
  sr_cancel_at_period_end :: bool
  sr_canceled_at :: "instant option"
  sr_trial_end :: "instant option"
  sr_metadata :: json_object
  sr_created_at :: instant
  sr_updated_at :: instant

definition subscription_to_response :: "subscription \<Rightarrow> organization \<Rightarrow> subscription_response" where
  "subscription_to_response r g =
     \<lparr>sr_public_id = sub_public_id r, sr_organization_public_id = org_public_id g, sr_plan_id = sub_plan_id r,
      sr_status = subscription_status_value (sub_status r), sr_current_period_start = current_period_start r,
      sr_current_period_end = current_period_end r, sr_cancel_at_period_end = cancel_at_period_end r,
      sr_canceled_at = canceled_at r, sr_trial_end = trial_end r, sr_metadata = sub_metadata r,
      sr_created_at = sub_created_at r, sr_updated_at = sub_updated_at r\<rparr>"

record line_item_response =
  lir_id :: uuid
  lir_description :: string
  lir_quantity :: string
  lir_unit_amount_cents :: int
  lir_amount_cents :: int
  lir_feature_key :: "string option"
  lir_created_at :: instant

definition line_item_to_response :: "invoice_line_item \<Rightarrow> line_item_response" where
  "line_item_to_response l =
     \<lparr>lir_id = li_id l, lir_description = li_description l, lir_quantity = decimal_str (li_quantity l),
      lir_unit_amount_cents = li_unit_amount_cents l, lir_amount_cents = li_amount_cents l,
      lir_feature_key = li_feature_key l, lir_created_at = li_created_at l\<rparr>"

record invoice_summary_response =
  ir_public_id :: uuid
  ir_organization_public_id :: uuid
  ir_subscription_public_id :: "uuid option"
  ir_status :: string
  ir_currency :: string
  ir_period_start :: instant
  ir_period_end :: instant
  ir_total_amount_cents :: int
  ir_created_at :: instant
  ir_updated_at :: instant

record invoice_response = invoice_summary_response +
  ir_line_items :: "line_item_response list"

definition invoice_to_summary :: "invoice \<Rightarrow> organization \<Rightarrow> uuid option \<Rightarrow> invoice_summary_response" where
  "invoice_to_summary v g su =
     \<lparr>ir_public_id = inv_public_id v, ir_organization_public_id = org_public_id g, ir_subscription_public_id = su,
      ir_status = invoice_status_value (inv_status v), ir_currency = inv_currency v, ir_period_start = period_start v,
      ir_period_end = period_end v, ir_total_amount_cents = total_amount_cents v, ir_created_at = inv_created_at v,
      ir_updated_at = inv_updated_at v\<rparr>"

definition invoice_to_detail ::
  "invoice \<Rightarrow> organization \<Rightarrow> uuid option \<Rightarrow> invoice_line_item list \<Rightarrow> invoice_response" where
  "invoice_to_detail v g su items =
     invoice_summary_response.extend (invoice_to_summary v g su)
       (invoice_response.fields (map line_item_to_response items))"

record ledger_response =
  lr_public_id :: uuid
  lr_organization_public_id :: uuid
  lr_entry_type :: string
  lr_amount_cents :: int
  lr_currency :: string
  lr_subscription_public_id :: "uuid option"
  lr_reverses_entry_public_id :: "uuid option"
  lr_correlation_id :: string
  lr_metadata :: json_object
  lr_created_at :: instant

definition ledger_to_response :: "ledger_entry \<Rightarrow> uuid \<Rightarrow> uuid option \<Rightarrow> uuid option \<Rightarrow> ledger_response" where
  "ledger_to_response e gu su ru =
     \<lparr>lr_public_id = le_public_id e, lr_organization_public_id = gu,
      lr_entry_type = ledger_entry_type_value (entry_type e), lr_amount_cents = amount_cents e,
      lr_currency = le_currency e, lr_subscription_public_id = su, lr_reverses_entry_public_id = ru,
      lr_correlation_id = correlation_id e, lr_metadata = le_metadata e, lr_created_at = le_created_at e\<rparr>"

record run_response =
  rr_id :: uuid
  rr_run_type :: string
  rr_status :: string
  rr_stats :: json_object
  rr_started_at :: instant
  rr_completed_at :: "instant option"

definition run_to_response :: "reconciliation_run \<Rightarrow> run_response" where
  "run_to_response r =
     \<lparr>rr_id = run_id r, rr_run_type = run_type_value (run_kind r), rr_status = run_status_value (run_state r),
      rr_stats = run_stats r, rr_started_at = run_started_at r, rr_completed_at = run_completed_at r\<rparr>"

record discrepancy_response =
  dr_id :: uuid
  dr_run_id :: uuid
  dr_kind :: string
  dr_external_invoice_id :: "string option"
  dr_expected_amount_cents :: "int option"
  dr_actual_amount_cents :: "int option"
  dr_delta_cents :: "int option"
  dr_details :: json_object
  dr_created_at :: instant

definition discrepancy_to_response :: "reconciliation_discrepancy \<Rightarrow> discrepancy_response" where
  "discrepancy_to_response x =
     \<lparr>dr_id = disc_id x, dr_run_id = disc_run_id x, dr_kind = discrepancy_kind_value (disc_kind x),
      dr_external_invoice_id = disc_external_invoice_id x, dr_expected_amount_cents = expected_amount_cents x,
      dr_actual_amount_cents = actual_amount_cents x, dr_delta_cents = delta_cents x, dr_details = disc_details x,
      dr_created_at = disc_created_at x\<rparr>"

record campaign_response =
  cr_id :: uuid
  cr_subscription_public_id :: uuid
  cr_organization_public_id :: uuid
  cr_status :: string
  cr_grace_until :: "instant option"
  cr_started_at :: instant
  cr_created_at :: instant

definition campaign_response_of :: "dunning_campaign \<Rightarrow> uuid \<Rightarrow> organization \<Rightarrow> campaign_response" where
  "campaign_response_of c su g =
     \<lparr>cr_id = camp_id c, cr_subscription_public_id = su, cr_organization_public_id = org_public_id g,
      cr_status = campaign_status_value (camp_status c), cr_grace_until = camp_grace_until c,
      cr_started_at = started_at c, cr_created_at = camp_created_at c\<rparr>"

end
