(* ===== verification/Routes.thy ===== *)
theory Routes
  imports Access Responses
begin

text \<open>
  The HTTP routes (\<^verbatim>\<open>api/v1\<close>) from the authenticated request on: the checks they make, the service
  they call, the translation of exceptions into status codes, the commit, and the invalidation of
  cached entitlements after it. Path, query and body parameters are arguments that already have
  their declared type.
\<close>

section \<open>Shared by the routes\<close>

definition require_organization :: "uuid \<Rightarrow> organization op" where
  "require_organization u =
     bindE (get_organization_by_public_id u) (\<lambda>found.
     case found of None \<Rightarrow> http_error 404 ''organization not found'' | Some g \<Rightarrow> returnE g)"

definition load_organization_by_id :: "int \<Rightarrow> organization option op" where
  "load_organization_by_id i =
     bindE (query (\<lambda>d. filter (\<lambda>g. org_id g = i) (organizations d))) scalar_one_or_none"

definition require_organization_by_id :: "int \<Rightarrow> organization op" where
  "require_organization_by_id i =
     bindE (load_organization_by_id i) (\<lambda>found.
     case found of None \<Rightarrow> http_error 404 ''organization not found'' | Some g \<Rightarrow> returnE g)"

text \<open>\<^verbatim>\<open>except C as exc: raise HTTPException(code, str(exc))\<close> for the classes listed.\<close>

definition translate :: "(exc_class \<Rightarrow> nat option) \<Rightarrow> ('s, 'a) sm \<Rightarrow> ('s, 'a) sm" where
  "translate codes m = catchE m (\<lambda>e.
     case codes (exc_class_of e) of None \<Rightarrow> reraiseE e | Some c \<Rightarrow> http_error c (str_exc e))"

definition subscription_public_id :: "int option \<Rightarrow> uuid option op" where
  "subscription_public_id si =
     (case si of None \<Rightarrow> returnE None
      | Some i \<Rightarrow> bindE (query (\<lambda>d. map sub_public_id (filter (\<lambda>r. sub_id r = i) (subscriptions d)))) scalar_one_or_none)"

text \<open>
  Bumping the cached entitlements of organizations; an error of Redis is logged only. The set comes
  from a webhook and has at most one element.
\<close>

definition bump_organizations :: "int set \<Rightarrow> unit app_op" where
  "bump_organizations orgs =
     catchE (foldE (\<lambda>oi _. thenE (bump_entitlement_version oi) (returnE ())) (sorted_list_of_set orgs) ())
       (\<lambda>e. if exc_class_of e = ResponseError then returnE () else reraiseE e)"

section \<open>Organizations and keys\<close>

definition post_organization ::
  "auth_context \<Rightarrow> string \<Rightarrow> string \<Rightarrow> string option \<Rightarrow> json_object \<Rightarrow> string \<Rightarrow> organization_response op" where
  "post_organization ctx name external email metadata idem =
     (if auth_role ctx \<noteq> PLATFORM_ADMIN then http_error 403 ''only platform_admin may create organizations''
      else
        bindE (create_organization name external idem email (Some metadata) None) (\<lambda>g.
        thenE commit (returnE (organization_to_response g))))"

definition get_organization_route :: "auth_context \<Rightarrow> uuid \<Rightarrow> organization_response op" where
  "get_organization_route ctx u =
     bindE (require_organization u) (\<lambda>g. thenE (assert_tenant_access ctx g) (returnE (organization_to_response g)))"

text \<open>
  The response of an update is built from the mapped object after the commit; whether reading its
  \<^verbatim>\<open>updated_at\<close> then needs another load is a matter of the ORM, and the response is left out.
\<close>

definition patch_organization_route ::
  "auth_context \<Rightarrow> uuid \<Rightarrow> string option \<Rightarrow> string option \<Rightarrow> json_object option \<Rightarrow> unit op" where
  "patch_organization_route ctx u name email metadata =
     bindE (require_organization u) (\<lambda>g.
     if auth_role ctx \<noteq> PLATFORM_ADMIN then http_error 403 ''only platform_admin may update organizations''
     else thenE (update_organization_metadata (org_id g) name email metadata) commit)"

definition post_api_key :: "auth_context \<Rightarrow> uuid \<Rightarrow> string \<Rightarrow> api_key_issued_response op" where
  "post_api_key ctx u role =
     (if auth_role ctx \<noteq> PLATFORM_ADMIN then http_error 403 ''only platform_admin may issue api keys''
      else
        bindE (require_organization u) (\<lambda>g.
        bindE (translate (\<lambda>c. if c = ValueError then Some 400 else None)
          (create_api_key (if role = PLATFORM_ADMIN then None else Some (org_id g)) role None)) (\<lambda>(k, raw).
        thenE commit (returnE (issued_to_response k raw)))))"

definition READ_ONLY_ROLES :: "string list" where
  "READ_ONLY_ROLES = [REVOPS_READ, ''support_read'']"

definition load_api_key :: "uuid \<Rightarrow> api_key op" where
  "load_api_key kid =
     bindE (bindE (query (\<lambda>d. filter (\<lambda>k. key_id k = kid) (api_keys d))) scalar_one_or_none) (\<lambda>found.
     case found of None \<Rightarrow> http_error 404 ''api key not found''
     | Some k \<Rightarrow> if key_revoked_at k \<noteq> None then http_error 404 ''api key not found'' else returnE k)"

definition assert_rotate_access :: "auth_context \<Rightarrow> api_key \<Rightarrow> unit op" where
  "assert_rotate_access ctx k =
     (if auth_role ctx = PLATFORM_ADMIN then returnE ()
      else if auth_api_key_id ctx \<noteq> key_id k
      then http_error 403 ''only platform_admin or the key owner may rotate this api key''
      else if key_organization_id k = None \<or> auth_organization_id ctx \<noteq> key_organization_id k
      then http_error 403 ''cross-tenant access denied''
      else returnE ())"

definition assert_revoke_access :: "auth_context \<Rightarrow> api_key \<Rightarrow> unit op" where
  "assert_revoke_access ctx k =
     (if auth_role ctx = PLATFORM_ADMIN then returnE ()
      else if key_organization_id k = None then http_error 403 ''only platform_admin may revoke platform_admin keys''
      else if auth_organization_id ctx \<noteq> key_organization_id k then http_error 403 ''cross-tenant access denied''
      else if auth_api_key_id ctx = key_id k then returnE ()
      else if auth_role ctx \<in> set READ_ONLY_ROLES then http_error 403 ''read-only roles may not revoke other api keys''
      else if auth_role ctx = key_role k then returnE ()
      else http_error 403 ''only platform_admin, self-revoke, or same-role overlap revoke allowed'')"

definition resolve_organization_id :: "auth_context \<Rightarrow> api_key \<Rightarrow> int op" where
  "resolve_organization_id ctx k =
     (case key_organization_id k of
        None \<Rightarrow> http_error 400 ''platform_admin keys cannot be rotated via this endpoint''
      | Some i \<Rightarrow>
          bindE (bindE (query (\<lambda>d. filter (\<lambda>g. org_id g = i \<and> org_deleted_at g = None) (organizations d)))
            scalar_one_or_none) (\<lambda>found.
          case found of None \<Rightarrow> http_error 404 ''organization not found''
          | Some g \<Rightarrow> thenE (assert_tenant_access ctx g) (returnE (org_id g))))"

text \<open>\<^verbatim>\<open>"not found" in detail\<close> decides between 404 and another code.\<close>

definition translate_value_error :: "nat \<Rightarrow> ('s, 'a) sm \<Rightarrow> ('s, 'a) sm" where
  "translate_value_error other m = catchE m (\<lambda>e.
     if exc_class_of e = ValueError
     then http_error (if sublist ''not found'' (str_exc e) then 404 else other) (str_exc e)
     else reraiseE e)"

definition post_rotate_api_key :: "auth_context \<Rightarrow> uuid \<Rightarrow> api_key_issued_response app_op" where
  "post_rotate_api_key ctx kid =
     bindE (on_session (bindE (load_api_key kid) (\<lambda>k.
       thenE (assert_rotate_access ctx k) (resolve_organization_id ctx k)))) (\<lambda>oi.
     bindE (translate_value_error 400 (rotate_api_key oi kid)) (\<lambda>(k, raw).
     thenE (on_session commit) (returnE (issued_to_response k raw))))"

definition post_revoke_api_key :: "auth_context \<Rightarrow> uuid \<Rightarrow> api_key_revoked_response app_op" where
  "post_revoke_api_key ctx kid =
     bindE (on_session (bindE (load_api_key kid) (\<lambda>k.
       thenE (assert_revoke_access ctx k) (resolve_organization_id ctx k)))) (\<lambda>oi.
     bindE (translate_value_error 400 (revoke_api_key oi kid)) (\<lambda>k.
     thenE (on_session commit)
     (case key_revoked_at k of None \<Rightarrow> raiseE AssertionError []
      | Some t \<Rightarrow> returnE \<lparr>kr_id = key_id k, kr_key_prefix = key_prefix k, kr_role = key_role k, kr_revoked_at = t\<rparr>)))"

section \<open>Subscriptions\<close>

definition require_subscription :: "uuid \<Rightarrow> subscription op" where
  "require_subscription u =
     bindE (get_subscription_by_public_id u) (\<lambda>found.
     case found of None \<Rightarrow> http_error 404 ''subscription not found'' | Some r \<Rightarrow> returnE r)"

definition post_subscription ::
  "auth_context \<Rightarrow> uuid \<Rightarrow> uuid \<Rightarrow> json_object \<Rightarrow> string \<Rightarrow> subscription_response op" where
  "post_subscription ctx u pid metadata idem =
     bindE (require_organization u) (\<lambda>g.
     thenE (assert_tenant_access ctx g)
     (bindE (translate (\<lambda>c. if c = PlanNotPublishedError then Some 400 else None)
        (create_subscription (org_id g) pid idem (Some metadata))) (\<lambda>r.
      thenE commit (returnE (subscription_to_response r g)))))"

definition get_subscription_route :: "auth_context \<Rightarrow> uuid \<Rightarrow> subscription_response op" where
  "get_subscription_route ctx u =
     bindE (require_subscription u) (\<lambda>r.
     bindE (require_organization_by_id (sub_organization_id r)) (\<lambda>g.
     thenE (assert_tenant_access ctx g) (returnE (subscription_to_response r g))))"

definition list_organization_subscriptions :: "auth_context \<Rightarrow> uuid \<Rightarrow> subscription_response list op" where
  "list_organization_subscriptions ctx u =
     bindE (require_organization u) (\<lambda>g.
     thenE (assert_tenant_access ctx g)
     (bindE (list_subscriptions_for_organization (org_id g)) (\<lambda>rs.
      returnE (map (\<lambda>r. subscription_to_response r g) rs))))"

definition post_cancel_subscription :: "auth_context \<Rightarrow> uuid \<Rightarrow> bool \<Rightarrow> unit op" where
  "post_cancel_subscription ctx u at_period_end =
     bindE (require_subscription u) (\<lambda>r.
     bindE (require_organization_by_id (sub_organization_id r)) (\<lambda>g.
     thenE (whenE (auth_role ctx \<noteq> PLATFORM_ADMIN) (assert_tenant_access ctx g))
     (thenE (translate (\<lambda>c. if c = IllegalTransition then Some 409 else None)
        (cancel_subscription (sub_id r) at_period_end)) commit)))"

text \<open>The refreshed object is the row read again after the commit.\<close>

definition post_change_plan ::
  "auth_context \<Rightarrow> uuid \<Rightarrow> uuid \<Rightarrow> string \<Rightarrow> string \<Rightarrow> subscription_response app_op" where
  "post_change_plan ctx u pid effective idem =
     bindE (on_session (bindE (require_subscription u) (\<lambda>r.
       bindE (require_organization_by_id (sub_organization_id r)) (\<lambda>g.
       thenE (assert_tenant_access ctx g)
       (thenE (translate (\<lambda>c. if c = PlanNotPublishedError then Some 400
            else if c = PlanChangeNotAllowedError then Some 409 else None)
          (change_plan (sub_id r) pid effective idem))
       (thenE commit
       (bindE (load_subscription (sub_id r)) (\<lambda>q. returnE (q, g))))))))) (\<lambda>(q, g).
     thenE (bump_organizations {sub_organization_id q})
       (returnE (subscription_to_response q g)))"

section \<open>Usage\<close>

definition MAX_BATCH_SIZE :: nat where "MAX_BATCH_SIZE = 1000"

definition get_organization_usage :: "auth_context \<Rightarrow> uuid \<Rightarrow> (uuid \<times> usage_period_aggregate list) op" where
  "get_organization_usage ctx u =
     bindE (require_organization u) (\<lambda>g.
     thenE (assert_tenant_access ctx g)
     (bindE (get_primary_subscription (org_id g)) (\<lambda>found.
      case found of None \<Rightarrow> returnE (org_public_id g, [])
      | Some r \<Rightarrow>
          bindE (list_usage_aggregates_for_period (org_id g) (Aware (current_period_start r) 0)
            (Aware (current_period_end r) 0)) (\<lambda>rows. returnE (org_public_id g, rows)))))"

definition post_usage_events_batch :: "auth_context \<Rightarrow> uuid \<Rightarrow> usage_event_in list \<Rightarrow> usage_batch_result op" where
  "post_usage_events_batch ctx u events =
     (if auth_role ctx \<noteq> ''product_service'' \<and> auth_role ctx \<noteq> PLATFORM_ADMIN
      then http_error 403 ''only product_service or platform_admin may ingest usage''
      else if length events > MAX_BATCH_SIZE then http_error 400 ''usage batch cannot exceed 1000 events''
      else
        bindE (require_organization u) (\<lambda>g.
        thenE (assert_tenant_access ctx g)
        (bindE (ingest_usage_batch (org_id g) events) (\<lambda>res. thenE commit (returnE res)))))"

section \<open>Invoices\<close>

definition summary_step ::
  "organization \<Rightarrow> invoice \<Rightarrow> invoice_summary_response list \<Rightarrow> invoice_summary_response list op" where
  "summary_step g v acc =
     bindE (subscription_public_id (inv_subscription_id v)) (\<lambda>su. returnE (acc @ [invoice_to_summary v g su]))"

definition list_organization_invoices :: "auth_context \<Rightarrow> uuid \<Rightarrow> nat \<Rightarrow> nat \<Rightarrow> invoice_summary_response list op" where
  "list_organization_invoices ctx u limit offset =
     bindE (require_organization u) (\<lambda>g.
     thenE (assert_tenant_access ctx g)
     (bindE (list_invoices_for_organization (org_id g) limit offset) (\<lambda>vs.
      foldE (summary_step g) vs [])))"

definition get_invoice_route :: "auth_context \<Rightarrow> uuid \<Rightarrow> invoice_response op" where
  "get_invoice_route ctx u =
     bindE (get_invoice_by_public_id u) (\<lambda>found.
     case found of None \<Rightarrow> http_error 404 ''invoice not found''
     | Some v \<Rightarrow>
         bindE (require_organization_by_id (inv_organization_id v)) (\<lambda>g.
         thenE (assert_tenant_access ctx g)
         (bindE (list_line_items_for_invoice (inv_id v)) (\<lambda>items.
          bindE (subscription_public_id (inv_subscription_id v)) (\<lambda>su.
          returnE (invoice_to_detail v g su items))))))"

section \<open>Ledger\<close>

definition list_organization_ledger :: "auth_context \<Rightarrow> uuid \<Rightarrow> nat \<Rightarrow> nat \<Rightarrow> ledger_response list op" where
  "list_organization_ledger ctx u limit offset =
     bindE (require_organization u) (\<lambda>g.
     thenE (assert_ledger_read_access ctx g)
     (bindE (list_entries_for_organization (org_id g) limit offset) (\<lambda>es.
      bindE (if list_all (\<lambda>e. reverses_entry_id e = None) es then returnE []
             else query (\<lambda>d. map (\<lambda>e. (le_id e, le_public_id e))
               (filter (\<lambda>e. Some (le_id e) \<in> reverses_entry_id ` set es) (ledger_entries d)))) (\<lambda>reversed.
      bindE (if list_all (\<lambda>e. le_subscription_id e = None) es then returnE []
             else query (\<lambda>d. map (\<lambda>r. (sub_id r, sub_public_id r))
               (filter (\<lambda>r. Some (sub_id r) \<in> le_subscription_id ` set es) (subscriptions d)))) (\<lambda>subs.
      returnE (map (\<lambda>e. ledger_to_response e (org_public_id g) (Option.bind (le_subscription_id e) (map_of subs))
        (Option.bind (reverses_entry_id e) (map_of reversed))) es))))))"

definition get_ledger_entry :: "auth_context \<Rightarrow> uuid \<Rightarrow> ledger_response op" where
  "get_ledger_entry ctx u =
     bindE (get_entry_by_public_id u) (\<lambda>found.
     case found of None \<Rightarrow> http_error 404 ''ledger entry not found''
     | Some e \<Rightarrow>
         bindE (require_organization_by_id (le_organization_id e)) (\<lambda>g.
         thenE (assert_ledger_read_access ctx g)
         (bindE (case reverses_entry_id e of None \<Rightarrow> returnE None
            | Some i \<Rightarrow> bindE (query (\<lambda>d. map le_public_id (filter (\<lambda>q. le_id q = i) (ledger_entries d))))
                scalar_one_or_none) (\<lambda>reversed.
          bindE (subscription_public_id (le_subscription_id e)) (\<lambda>su.
          returnE (ledger_to_response e (org_public_id g) su reversed))))))"

end
