(* ===== verification/Admin.thy ===== *)
theory Admin
  imports Routes
begin

text \<open>
  The remaining routes: evaluation and invalidation of entitlements, the webhook endpoint, and the
  administration of catalog, webhooks, reconciliation and dunning campaigns.
\<close>

section \<open>Entitlements\<close>

definition entitlement_code :: "exc_class \<Rightarrow> nat option" where
  "entitlement_code c = (if c = OrganizationNotFoundError \<or> c = SubscriptionNotFoundError then Some 404 else None)"

text \<open>The organization of the request, if the context or the process cache knows it.\<close>

definition known_organization :: "auth_context \<Rightarrow> uuid \<Rightarrow> (int \<times> uuid) option app_op" where
  "known_organization ctx u =
     (case auth_organization_id ctx of
        Some oi \<Rightarrow>
          if auth_organization_public_id ctx = Some u then returnE (Some (oi, u))
          else bindE (get_l1_org u) (\<lambda>cached.
            case cached of None \<Rightarrow> returnE None
            | Some (i, v) \<Rightarrow> thenE (assert_tenant_access_org_id ctx i) (returnE (Some (i, v))))
      | None \<Rightarrow> bindE (get_l1_org u) (\<lambda>cached.
            case cached of None \<Rightarrow> returnE None
            | Some (i, v) \<Rightarrow> thenE (assert_tenant_access_org_id ctx i) (returnE (Some (i, v)))))"

text \<open>Without a known organization it is looked up on the read session that also serves a miss.\<close>

definition evaluate_unknown ::
  "others \<Rightarrow> auth_context \<Rightarrow> uuid \<Rightarrow> check list \<Rightarrow> evaluate_response app_op" where
  "evaluate_unknown others ctx u checks =
     bindE (on_session (get_organization_by_public_id u)) (\<lambda>found.
     case found of None \<Rightarrow> http_error 404 (''organization '' @ uuid_str u @ '' not found'')
     | Some g \<Rightarrow>
         thenE (assert_tenant_access ctx g)
         (thenE (set_l1_org (org_public_id g) (org_id g))
         (evaluate others Given_session (org_id g) (org_public_id g) checks)))"

definition evaluate_known ::
  "others \<Rightarrow> replica \<Rightarrow> int \<Rightarrow> uuid \<Rightarrow> check list \<Rightarrow> evaluate_response app_op" where
  "evaluate_known others rep oi u checks =
     bindE (get_l1_snapshot oi) (\<lambda>snap.
     if snap \<noteq> None then evaluate others No_database oi u checks
     else on_read_session rep (evaluate others (Session_provider True) oi u checks))"

definition post_evaluate ::
  "others \<Rightarrow> replica \<Rightarrow> auth_context \<Rightarrow> uuid \<Rightarrow> check list \<Rightarrow> evaluate_response app_op" where
  "post_evaluate others rep ctx u checks =
     (if auth_role ctx \<noteq> PLATFORM_ADMIN \<and> auth_organization_public_id ctx \<noteq> None \<and>
         auth_organization_public_id ctx \<noteq> Some u
      then http_error 403 ''cross-tenant access denied''
      else
        bindE (known_organization ctx u) (\<lambda>known.
        translate entitlement_code
          (case known of Some (oi, v) \<Rightarrow> evaluate_known others rep oi v checks
           | None \<Rightarrow> on_read_session rep (evaluate_unknown others ctx u checks))))"

definition post_invalidate :: "auth_context \<Rightarrow> uuid \<Rightarrow> (string \<times> int) app_op" where
  "post_invalidate ctx u =
     thenE (require_platform_admin ctx)
     (bindE (on_session (get_organization_by_public_id u)) (\<lambda>found.
      case found of None \<Rightarrow> http_error 404 (''organization '' @ uuid_str u @ '' not found'')
      | Some g \<Rightarrow> bindE (bump_entitlement_version (org_id g)) (\<lambda>v. returnE (uuid_str (org_public_id g), v))))"

section \<open>Webhooks\<close>

text \<open>\<^verbatim>\<open>json.loads\<close> is an argument: the decoded value, \<^verbatim>\<open>JSONDecodeError\<close>, or another error of decoding the bytes.\<close>

datatype decoded = Decoded json | Not_json | Undecodable py_error

text \<open>The truth value of a decoded JSON value.\<close>

definition truthy :: "json \<Rightarrow> bool" where
  "truthy v =
     (case v of JNull \<Rightarrow> False | JBool b \<Rightarrow> b | JInt i \<Rightarrow> i \<noteq> 0 | JStr s \<Rightarrow> s \<noteq> [] | JList vs \<Rightarrow> vs \<noteq> []
      | JObj kvs \<Rightarrow> kvs \<noteq> []
      | JFloat n \<Rightarrow> (let m = takeWhile (\<lambda>c. c \<noteq> CHR ''e'' \<and> c \<noteq> CHR ''E'') n
                    in list_ex is_digit m \<longrightarrow> list_ex (\<lambda>c. is_digit c \<and> c \<noteq> CHR ''0'') m))"

definition PROVIDER_MOCK_STRIPE :: string where "PROVIDER_MOCK_STRIPE = ''mock_stripe''"

definition accept_payload :: "json \<Rightarrow> int set op" where
  "accept_payload v =
     (case v of
        JObj p \<Rightarrow>
          if \<not> truthy (obj_get p ''id'') \<or> \<not> truthy (obj_get p ''type'')
          then http_error 400 ''payload must include id and type''
          else
            bindE (persist_webhook (py_str (obj_get p ''id'')) (py_str (obj_get p ''type'')) p PROVIDER_MOCK_STRIPE) (\<lambda>w.
            bindE (case w of None \<Rightarrow> returnE {} | Some w \<Rightarrow> process_webhook (wh_id w)) (\<lambda>orgs.
            thenE commit (returnE orgs)))
      | _ \<Rightarrow> http_error 400 ''payload must be a JSON object'')"

definition check_signature :: "string \<Rightarrow> string \<Rightarrow> unit op" where
  "check_signature body header =
     bindE (getE settings) (\<lambda>cfg. bindE now_utc (\<lambda>now.
     translate (\<lambda>c. if c = InvalidWebhookSignature then Some 400 else None)
       (liftE (verify_stripe_signature body header (mock_stripe_webhook_secret cfg)
          (webhook_timestamp_tolerance_seconds cfg) (mock_stripe_webhook_secret_previous cfg) (now div second_us)))))"

definition ingest_mock_stripe_webhook ::
  "(string \<Rightarrow> decoded) \<Rightarrow> string \<Rightarrow> string option \<Rightarrow> string app_op" where
  "ingest_mock_stripe_webhook json_loads body signature =
     (case signature of None \<Rightarrow> http_error 400 ''missing Stripe-Signature header''
      | Some header \<Rightarrow>
          thenE (on_session (check_signature body header))
          (case json_loads body of
             Not_json \<Rightarrow> http_error 400 ''invalid JSON payload''
           | Undecodable e \<Rightarrow> reraiseE e
           | Decoded v \<Rightarrow>
               bindE (on_session (accept_payload v)) (\<lambda>orgs.
               thenE (bump_organizations orgs) (returnE ''ok''))))"

definition replay_webhook_event :: "auth_context \<Rightarrow> uuid \<Rightarrow> webhook_replay_result app_op" where
  "replay_webhook_event ctx u =
     thenE (require_platform_admin ctx)
     (bindE (on_session (bindE (catchE (replay_webhook u) (\<lambda>e.
        if exc_class_of e = WebhookNotFoundError then http_error 404 ''webhook not found'' else reraiseE e)) (\<lambda>res.
        thenE commit (returnE res)))) (\<lambda>res.
      thenE (bump_organizations (orgs_to_invalidate res)) (returnE res)))"

section \<open>Catalog\<close>

definition catalog_code :: "exc_class \<Rightarrow> nat option" where
  "catalog_code c =
     (if c \<in> {ProductNotFoundError, PlanNotFoundError, FeatureNotFoundError} then Some 404
      else if c = PlanNotDraftError then Some 409
      else if c = PlanDraftExistsError then Some 409
      else if c = InvalidFeatureTypeError then Some 400
      else None)"

definition committed_admin :: "auth_context \<Rightarrow> 'a op \<Rightarrow> 'a op" where
  "committed_admin ctx m =
     thenE (require_platform_admin ctx) (bindE (translate catalog_code m) (\<lambda>x. thenE commit (returnE x)))"

definition post_product :: "auth_context \<Rightarrow> string \<Rightarrow> string \<Rightarrow> string option \<Rightarrow> bool \<Rightarrow> product op" where
  "post_product ctx k name description is_active =
     thenE (require_platform_admin ctx)
     (bindE (create_product k name description is_active) (\<lambda>r. thenE commit (returnE r)))"

definition post_plan ::
  "auth_context \<Rightarrow> uuid \<Rightarrow> string \<Rightarrow> string \<Rightarrow> int option \<Rightarrow> int \<Rightarrow> json_object \<Rightarrow> json_object \<Rightarrow> plan op" where
  "post_plan ctx pr k interval trial grace dunning entitlement =
     committed_admin ctx (create_plan pr k interval trial grace (Some dunning) (Some entitlement))"

definition post_price ::
  "auth_context \<Rightarrow> uuid \<Rightarrow> int \<Rightarrow> string \<Rightarrow> string \<Rightarrow> string option \<Rightarrow> string option \<Rightarrow> bool \<Rightarrow> price op" where
  "post_price ctx pid amount currency model metered external is_active =
     committed_admin ctx (create_price pid amount currency model metered external is_active)"

definition post_feature :: "auth_context \<Rightarrow> string \<Rightarrow> string \<Rightarrow> int option \<Rightarrow> string option \<Rightarrow> feature op" where
  "post_feature ctx k ft limit reset = committed_admin ctx (create_feature k ft limit reset)"

definition put_plan_features :: "auth_context \<Rightarrow> uuid \<Rightarrow> plan_feature_input list \<Rightarrow> plan_feature list op" where
  "put_plan_features ctx pid items = committed_admin ctx (set_plan_features pid items)"

definition post_publish_plan :: "auth_context \<Rightarrow> uuid \<Rightarrow> plan op" where
  "post_publish_plan ctx pid = committed_admin ctx (publish_plan pid)"

definition get_snapshot :: "auth_context \<Rightarrow> catalog_snapshot op" where
  "get_snapshot ctx =
     (if auth_role ctx \<noteq> PLATFORM_ADMIN then http_error 403 ''only platform_admin may read catalog snapshot''
      else get_catalog_snapshot)"

section \<open>Reconciliation\<close>

definition trigger_reconciliation_run ::
  "py_error + json_object list \<Rightarrow> auth_context \<Rightarrow> string \<Rightarrow> run_response op" where
  "trigger_reconciliation_run provider ctx idem =
     thenE (require_platform_admin ctx)
     (if strip idem = [] then http_error 400 ''Idempotency-Key header is required''
      else bindE (run_reconciliation provider MANUAL idem) (\<lambda>r. thenE commit (returnE (run_to_response r))))"

definition list_reconciliation_runs :: "auth_context \<Rightarrow> nat \<Rightarrow> nat \<Rightarrow> run_response list op" where
  "list_reconciliation_runs ctx limit offset = 
     thenE (require_platform_admin ctx) (bindE (list_runs limit offset) (\<lambda>rs. returnE (map run_to_response rs)))"

definition list_run_discrepancies :: "auth_context \<Rightarrow> uuid \<Rightarrow> nat \<Rightarrow> nat \<Rightarrow> discrepancy_response list op" where
  "list_run_discrepancies ctx u limit offset =
     thenE (require_platform_admin ctx)
     (bindE (get_run_by_id u) (\<lambda>found.
      case found of None \<Rightarrow> http_error 404 ''reconciliation run not found''
      | Some _ \<Rightarrow> bindE (list_discrepancies_for_run u limit offset) (\<lambda>xs. returnE (map discrepancy_to_response xs))))"

section \<open>Dunning campaigns\<close>

definition require_subscription_public_id :: "int \<Rightarrow> uuid op" where
  "require_subscription_public_id i =
     bindE (subscription_public_id (Some i)) (\<lambda>found.
     case found of None \<Rightarrow> http_error 404 ''subscription not found'' | Some u \<Rightarrow> returnE u)"

text \<open>The mapped campaign object has the attributes of its row.\<close>

definition campaign_to_response :: "uuid \<Rightarrow> organization \<Rightarrow> campaign_response op" where
  "campaign_to_response u g =
     bindE (bindE (getE (\<lambda>s. filter (\<lambda>c. camp_id c = u) (dunning_campaigns (db s)))) scalar_one) (\<lambda>c.
     bindE (require_subscription_public_id (camp_subscription_id c)) (\<lambda>su.
     returnE (campaign_response_of c su g)))"

definition load_campaign_and_assert_tenant :: "auth_context \<Rightarrow> uuid \<Rightarrow> organization op" where
  "load_campaign_and_assert_tenant ctx u =
     bindE (bindE (query (\<lambda>d. filter (\<lambda>c. camp_id c = u) (dunning_campaigns d))) scalar_one_or_none) (\<lambda>found.
     case found of None \<Rightarrow> http_error 404 ''dunning campaign not found''
     | Some c \<Rightarrow>
         bindE (require_organization_by_id (camp_organization_id c)) (\<lambda>g.
         thenE (assert_tenant_access ctx g) (returnE g)))"

definition resolve_actor_key_id :: "auth_context \<Rightarrow> uuid op" where
  "resolve_actor_key_id ctx =
     bindE (bindE (query (\<lambda>d. map key_id (filter (\<lambda>k. key_prefix k = auth_key_prefix ctx \<and> key_revoked_at k = None)
       (api_keys d)))) scalar_one_or_none) (\<lambda>found.
     case found of None \<Rightarrow> http_error 401 ''api key not found'' | Some kid \<Rightarrow> returnE kid)"

definition operate_campaign ::
  "(uuid \<Rightarrow> int \<Rightarrow> uuid \<Rightarrow> unit op) \<Rightarrow> auth_context \<Rightarrow> uuid \<Rightarrow> campaign_response op" where
  "operate_campaign operation ctx u =
     thenE (require_dunning_operator ctx)
     (bindE (load_campaign_and_assert_tenant ctx u) (\<lambda>g.
      bindE (resolve_actor_key_id ctx) (\<lambda>actor.
      thenE (translate_value_error 409 (operation u (org_id g) actor))
      (thenE commit (campaign_to_response u g)))))"

definition pause_dunning_campaign :: "auth_context \<Rightarrow> uuid \<Rightarrow> campaign_response op" where
  "pause_dunning_campaign = operate_campaign pause_campaign"

definition resume_dunning_campaign :: "auth_context \<Rightarrow> uuid \<Rightarrow> campaign_response op" where
  "resume_dunning_campaign = operate_campaign resume_campaign"

definition filter_by_organization :: "auth_context \<Rightarrow> uuid option \<Rightarrow> int option op" where
  "filter_by_organization ctx org_public =
     (case org_public of None \<Rightarrow> returnE None
      | Some u \<Rightarrow> bindE (require_organization u) (\<lambda>g. thenE (assert_tenant_access ctx g) (returnE (Some (org_id g)))))"

definition filter_by_subscription ::
  "auth_context \<Rightarrow> int option \<Rightarrow> uuid option \<Rightarrow> (int option \<times> int option) op" where
  "filter_by_subscription ctx oi sub_public =
     (case sub_public of None \<Rightarrow> returnE (oi, None)
      | Some u \<Rightarrow>
          bindE (require_subscription u) (\<lambda>r.
          bindE (require_organization_by_id (sub_organization_id r)) (\<lambda>g.
          thenE (assert_tenant_access ctx g)
          (if oi \<noteq> None \<and> oi \<noteq> Some (sub_organization_id r)
           then http_error 400 ''subscription does not belong to organization''
           else returnE (Some (sub_organization_id r), Some (sub_id r))))))"

definition resolve_list_filters ::
  "auth_context \<Rightarrow> uuid option \<Rightarrow> uuid option \<Rightarrow> (int option \<times> int option) op" where
  "resolve_list_filters ctx org_public sub_public =
     bindE (filter_by_organization ctx org_public) (\<lambda>oi.
     bindE (filter_by_subscription ctx oi sub_public) (\<lambda>(oi, si).
     if auth_role ctx \<noteq> PLATFORM_ADMIN
     then
       (case auth_organization_id ctx of None \<Rightarrow> http_error 403 ''cross-tenant access denied''
        | Some own \<Rightarrow>
            (case oi of None \<Rightarrow> returnE (Some own, si)
             | Some i \<Rightarrow> if i \<noteq> own then http_error 403 ''cross-tenant access denied'' else returnE (Some i, si)))
     else returnE (oi, si)))"

definition campaigns_to_responses :: "dunning_campaign list \<Rightarrow> campaign_response list op" where
  "campaigns_to_responses cs =
     (if cs = [] then returnE []
      else
        bindE (query (\<lambda>d. filter (\<lambda>g. org_id g \<in> camp_organization_id ` set cs) (organizations d))) (\<lambda>gs.
        bindE (query (\<lambda>d. map (\<lambda>r. (sub_id r, sub_public_id r))
          (filter (\<lambda>r. sub_id r \<in> camp_subscription_id ` set cs) (subscriptions d)))) (\<lambda>subs.
        returnE (List.map_filter (\<lambda>c.
          case (map_of (map (\<lambda>g. (org_id g, g)) gs) (camp_organization_id c), map_of subs (camp_subscription_id c)) of
            (Some g, Some su) \<Rightarrow> Some (campaign_response_of c su g)
          | _ \<Rightarrow> None) cs))))"

definition list_dunning_campaigns ::
  "auth_context \<Rightarrow> uuid option \<Rightarrow> uuid option \<Rightarrow> nat \<Rightarrow> nat \<Rightarrow> campaign_response list op" where
  "list_dunning_campaigns ctx org_public sub_public limit offset =
     thenE (require_dunning_operator ctx)
     (bindE (resolve_list_filters ctx org_public sub_public) (\<lambda>(oi, si).
      bindE (list_campaigns oi si limit offset) campaigns_to_responses))"

end
