(* ===== verification/Relay.thy ===== *)
theory Relay
  imports Ledger Signature
begin

unbundle bit_operations_syntax

text \<open>
  The outbox relay (\<^verbatim>\<open>outbox_relay/publisher.py\<close>, \<^verbatim>\<open>outbox_relay/dlq_replay.py\<close>,
  \<^verbatim>\<open>events/schemas/v1/envelope.py\<close>): unpublished rows are claimed oldest first, wrapped into an
  envelope and sent to Kafka; a row that cannot be sent is retried in later polls and moved to the
  dead letters after the last attempt, from where an operator can replay it.
\<close>

section \<open>Event identifiers\<close>

text \<open>SHA-1 (FIPS 180-4), on which \<^verbatim>\<open>uuid.uuid5\<close> is built; padding and words are those of SHA-256.\<close>

definition rotl :: "nat \<Rightarrow> w32 \<Rightarrow> w32" where
  "rotl n x = push_bit n x OR drop_bit (32 - n) x"

type_synonym sha1_state = "w32 \<times> w32 \<times> w32 \<times> w32 \<times> w32"

definition sha1_round :: "nat \<Rightarrow> w32 \<Rightarrow> sha1_state \<Rightarrow> sha1_state" where
  "sha1_round i w st =
     (case st of (a, b, c, d, e) \<Rightarrow>
        let (f, k) =
          (if i < 20 then ((b AND c) OR (NOT b AND d), 0x5A827999)
           else if i < 40 then (b XOR c XOR d, 0x6ED9EBA1)
           else if i < 60 then ((b AND c) OR (b AND d) OR (c AND d), 0x8F1BBCDC)
           else (b XOR c XOR d, 0xCA62C1D6))
        in (rotl 5 a + f + e + k + w, a, rotl 30 b, c, d))"

fun sha1_rounds :: "nat list \<Rightarrow> w32 list \<Rightarrow> sha1_state \<Rightarrow> sha1_state" where
  "sha1_rounds [] w st = st"
| "sha1_rounds (i # is) w st =
     sha1_rounds is (tl w @ [rotl 1 (w ! 13 XOR w ! 8 XOR w ! 2 XOR w ! 0)]) (sha1_round i (hd w) st)"

definition sha1_block :: "w32 list \<Rightarrow> sha1_state \<Rightarrow> sha1_state" where
  "sha1_block w st =
     (case st of (a, b, c, d, e) \<Rightarrow>
      case sha1_rounds [0..<80] w st of (a', b', c', d', e') \<Rightarrow> (a + a', b + b', c + c', d + d', e + e'))"

function sha1_blocks :: "w32 list \<Rightarrow> sha1_state \<Rightarrow> sha1_state" where
  "sha1_blocks ws st =
     (if length ws < 16 then st else sha1_blocks (drop 16 ws) (sha1_block (take 16 ws) st))"
  by pat_completeness auto
termination by (relation "measure (\<lambda>(ws, st). length ws)") auto

declare sha1_blocks.simps [simp del]

definition sha1 :: "string \<Rightarrow> w32 list" where
  "sha1 m =
     (case sha1_blocks (sha256_words (sha256_pad m)) (0x67452301, 0xEFCDAB89, 0x98BADCFE, 0x10325476, 0xC3D2E1F0) of
        (a, b, c, d, e) \<Rightarrow> [a, b, c, d, e])"

text \<open>\<^verbatim>\<open>uuid.uuid5(uuid.NAMESPACE_URL, name)\<close>: the first 128 bits of the digest with version 5 and the
  RFC 4122 variant set.\<close>

definition NAMESPACE_URL :: string where
  "NAMESPACE_URL = be_bytes 16 0x6ba7b8119dad11d180b400c04fd430c8"

definition uuid5_url :: "string \<Rightarrow> uuid" where
  "uuid5_url name =
     (let h = foldl (\<lambda>u w. push_bit 32 u OR ucast w) 0 (take 4 (sha1 (NAMESPACE_URL @ encode_utf8 name))) :: uuid;
          h1 = (h AND NOT (push_bit 62 3)) OR push_bit 62 2;
          h2 = (h1 AND NOT (push_bit 76 15)) OR push_bit 76 5
      in h2)"

definition stable_event_id :: "int \<Rightarrow> string" where
  "stable_event_id i = uuid_str (uuid5_url (''billing-platform:outbox:'' @ str_int i))"

section \<open>Envelopes\<close>

definition SCHEMA_VERSION :: int where
  "SCHEMA_VERSION = 1"

definition DLQ_TOPIC :: string where
  "DLQ_TOPIC = ''billing.dlq''"

definition startswith :: "string \<Rightarrow> string \<Rightarrow> bool" where
  "startswith s p = prefix p s"

definition resolve_topic :: "string \<Rightarrow> string" where
  "resolve_topic event_type =
     (if startswith event_type ''subscription.'' then ''billing.subscription.events''
      else if startswith event_type ''invoice.'' then ''billing.invoice.events''
      else if startswith event_type ''ledger.'' then ''billing.ledger.events''
      else if startswith event_type ''reconciliation.'' then ''billing.reconciliation.events''
      else if startswith event_type ''entitlement.'' \<or> startswith event_type ''subscription.access_''
      then ''billing.entitlement.events''
      else DLQ_TOPIC)"

record event_envelope =
  schema_version :: int
  event_id :: string
  event_type :: string
  occurred_at :: string
  env_organization_id :: string
  env_correlation_id :: string
  payload :: json_object

definition to_dict :: "event_envelope \<Rightarrow> json_object" where
  "to_dict e =
     [(''schema_version'', JInt (schema_version e)), (''event_id'', JStr (event_id e)),
      (''event_type'', JStr (event_type e)), (''occurred_at'', JStr (occurred_at e)),
      (''organization_id'', JStr (env_organization_id e)), (''correlation_id'', JStr (env_correlation_id e)),
      (''payload'', JObj (payload e))]"

definition extract_correlation_id :: "json_object \<Rightarrow> int \<Rightarrow> string" where
  "extract_correlation_id p i =
     (case obj_get p ''webhook_id'' of JStr w \<Rightarrow> if w \<noteq> [] then w else str_int i | _ \<Rightarrow> str_int i)"

definition build_envelope :: "outbox_message \<Rightarrow> string \<Rightarrow> event_envelope" where
  "build_envelope row org_public =
     \<lparr>schema_version = SCHEMA_VERSION, event_id = stable_event_id (ob_id row), event_type = ob_event_type row,
      occurred_at = iso_z (ob_created_at row), env_organization_id = org_public,
      env_correlation_id = extract_correlation_id (ob_payload row) (ob_id row), payload = ob_payload row\<rparr>"

section \<open>The relay and the broker\<close>

text \<open>
  The broker is not part of the sources. Its answer to the \<open>n\<close>-th send is a parameter: the record
  is delivered and acknowledged, refused, or delivered although the acknowledgement is lost and the
  client raises. \<open>topic_log\<close> holds the delivered records in order. The body is the dictionary that is
  serialised.
\<close>

datatype delivery = Delivered | Refused string | Unacknowledged string

record kafka_record =
  rec_topic :: string
  rec_key :: string
  rec_headers :: "(string \<times> string) list"
  rec_value :: json_object

record relay =
  relay_session :: session
  topic_log :: "kafka_record list"
  send_no :: nat

type_synonym 'a relay_op = "(relay, 'a) sm"
type_synonym broker = "nat \<Rightarrow> kafka_record \<Rightarrow> delivery"

definition with_session :: "'a op \<Rightarrow> 'a relay_op" where
  "with_session m = (\<lambda>a. case m (relay_session a) of (r, s) \<Rightarrow> (r, a\<lparr>relay_session := s\<rparr>))"

text \<open>\<^verbatim>\<open>async with session.begin()\<close>: commit at the end, roll back on an exception.\<close>

definition transaction :: "'a relay_op \<Rightarrow> 'a relay_op" where
  "transaction m =
     bindE (catchE m (\<lambda>e. thenE (with_session rollback) (reraiseE e))) (\<lambda>x.
     thenE (with_session commit) (returnE x))"

definition send_and_wait :: "broker \<Rightarrow> kafka_record \<Rightarrow> unit relay_op" where
  "send_and_wait broker k = (\<lambda>a.
     case broker (send_no a) k of
       Delivered \<Rightarrow> (Inr (), a\<lparr>topic_log := topic_log a @ [k], send_no := Suc (send_no a)\<rparr>)
     | Refused m \<Rightarrow> (Inl (Exc KafkaError m), a\<lparr>send_no := Suc (send_no a)\<rparr>)
     | Unacknowledged m \<Rightarrow>
         (Inl (Exc KafkaError m), a\<lparr>topic_log := topic_log a @ [k], send_no := Suc (send_no a)\<rparr>))"

definition envelope_record :: "string \<Rightarrow> outbox_message \<Rightarrow> event_envelope \<Rightarrow> kafka_record" where
  "envelope_record topic row e =
     \<lparr>rec_topic = topic, rec_key = str_int (ob_id row),
      rec_headers = [(''event_type'', encode_utf8 (event_type e)),
        (''schema_version'', str_int (schema_version e)), (''partition_key'', encode_utf8 (ob_partition_key row))],
      rec_value = to_dict e\<rparr>"

definition publish_envelope :: "broker \<Rightarrow> string \<Rightarrow> outbox_message \<Rightarrow> event_envelope \<Rightarrow> unit relay_op" where
  "publish_envelope broker topic row e = send_and_wait broker (envelope_record topic row e)"

definition suppress_exceptions :: "unit relay_op \<Rightarrow> unit relay_op" where
  "suppress_exceptions m = catchE m (\<lambda>_. returnE ())"

section \<open>Claiming and publishing\<close>

definition unpublished :: "database \<Rightarrow> outbox_message list" where
  "unpublished d = filter (\<lambda>m. ob_published_at m = None) (outbox_messages d)"

definition observe_outbox_backlog :: "unit op" where
  "observe_outbox_backlog =
     bindE (query (\<lambda>d. int (length (unpublished d)))) (\<lambda>n.
     bindE (query (\<lambda>d. map ob_created_at (unpublished d))) (\<lambda>ts.
     bindE (if ts = [] then returnE 0
            else bindE now_utc (\<lambda>now. returnE (max 0 (now - Min (set ts))))) (\<lambda>lag.
     thenE (emit_metric (OutboxUnpublishedCount n)) (emit_metric (OutboxLag lag)))))"

text \<open>\<open>skip\<close>: rows another relay has locked.\<close>

definition claimable :: "(int \<Rightarrow> bool) \<Rightarrow> int \<Rightarrow> outbox_message \<Rightarrow> bool" where
  "claimable skip max_attempts m \<longleftrightarrow>
     ob_published_at m = None \<and> publish_attempts m < max_attempts \<and> \<not> skip (ob_id m)"

definition claim_batch :: "(int \<Rightarrow> bool) \<Rightarrow> nat \<Rightarrow> int \<Rightarrow> database \<Rightarrow> outbox_message list" where
  "claim_batch skip limit max_attempts d =
     take limit (order_by ob_created_at (filter (claimable skip max_attempts) (outbox_messages d)))"

definition claim_outbox_batch :: "(int \<Rightarrow> bool) \<Rightarrow> nat \<Rightarrow> int \<Rightarrow> outbox_message list op" where
  "claim_outbox_batch skip limit max_attempts = query (claim_batch skip limit max_attempts)"

text \<open>
  \<^verbatim>\<open>key.isdigit()\<close> also holds for the superscript digits, which \<^verbatim>\<open>int(key)\<close> refuses.
\<close>

definition key_isdigit :: "string \<Rightarrow> bool" where
  "key_isdigit k \<longleftrightarrow> k \<noteq> [] \<and> list_all (\<lambda>c. is_digit c \<or> c \<in> {CHR 0xB2, CHR 0xB3, CHR 0xB9}) k"

fun key_ids :: "string list \<Rightarrow> py_error + int list" where
  "key_ids [] = Inr []"
| "key_ids (k # ks) =
     (if \<not> key_isdigit k then key_ids ks
      else case py_int k of
        None \<Rightarrow> Inl (Exc ValueError (''invalid literal for int() with base 10: '' @ k))
      | Some i \<Rightarrow> (case key_ids ks of Inl e \<Rightarrow> Inl e | Inr is \<Rightarrow> Inr (i # is)))"

definition org_public_ids :: "int list \<Rightarrow> database \<Rightarrow> (string \<times> string) list" where
  "org_public_ids ids d =
     dict_of (\<lambda>g. str_int (org_id g)) (\<lambda>g. uuid_str (org_public_id g))
       (filter (\<lambda>g. org_id g \<in> set ids) (organizations d))"

definition load_org_public_ids :: "string list \<Rightarrow> (string \<times> string) list op" where
  "load_org_public_ids keys =
     bindE (liftE (key_ids keys)) (\<lambda>ids. if ids = [] then returnE [] else query (org_public_ids ids))"

definition upd_message :: "int \<Rightarrow> (outbox_message \<Rightarrow> outbox_message) \<Rightarrow> database \<Rightarrow> database" where
  "upd_message i f d = d\<lparr>outbox_messages := update_rows (\<lambda>m. ob_id m = i) f (outbox_messages d)\<rparr>"

definition dead_letter_ok :: "outbox_dead_letter \<Rightarrow> database \<Rightarrow> bool" where
  "dead_letter_ok l d \<longleftrightarrow> fresh dl_id l (outbox_dead_letters d)"

definition add_dead_letter :: "outbox_dead_letter \<Rightarrow> database \<Rightarrow> database" where
  "add_dead_letter l d = d\<lparr>outbox_dead_letters := outbox_dead_letters d @ [l]\<rparr>"

text \<open>The row object already carries the attempts and the error of the failure just counted.\<close>

definition move_to_dead_letter :: "outbox_message \<Rightarrow> unit op" where
  "move_to_dead_letter row =
     bindE (next_id OUTBOX_DEAD_LETTERS) (\<lambda>i. bindE (getE tx_now) (\<lambda>t.
     let l = \<lparr>dl_id = i, dl_outbox_message_id = ob_id row, dl_aggregate_type = ob_aggregate_type row,
              dl_aggregate_id = ob_aggregate_id row, dl_event_type = ob_event_type row,
              dl_payload = ob_payload row, dl_partition_key = ob_partition_key row,
              dl_publish_attempts = publish_attempts row, dl_last_error = ob_last_error row,
              dl_moved_at = t, dl_replayed_at = None\<rparr>
     in bindE now_utc (\<lambda>now.
        thenE (insert_checked (dead_letter_ok l) (add_dead_letter l))
          (update_db (upd_message (ob_id row) (\<lambda>m. m\<lparr>ob_published_at := Some now\<rparr>))))))"

text \<open>One more attempt has failed; after the last one the row becomes a dead letter.\<close>

definition attempt_failed :: "string \<Rightarrow> outbox_message \<Rightarrow> outbox_message" where
  "attempt_failed msg m = m\<lparr>publish_attempts := publish_attempts m + 1, ob_last_error := Some msg\<rparr>"

definition count_failure :: "broker \<Rightarrow> int \<Rightarrow> outbox_message \<Rightarrow> event_envelope \<Rightarrow> string \<Rightarrow> unit relay_op" where
  "count_failure broker max_attempts row e msg =
     thenE (with_session (update_db (upd_message (ob_id row) (attempt_failed msg))))
     (whenE (publish_attempts row + 1 \<ge> max_attempts)
       (thenE (with_session (move_to_dead_letter (attempt_failed msg row)))
         (suppress_exceptions (publish_envelope broker DLQ_TOPIC row e))))"

definition relay_step :: "broker \<Rightarrow> int \<Rightarrow> (string \<times> string) list \<Rightarrow> outbox_message \<Rightarrow> int \<Rightarrow> int relay_op" where
  "relay_step broker max_attempts orgs row published =
     (case map_of orgs (ob_partition_key row) of
        None \<Rightarrow>
          thenE (count_failure broker max_attempts row (build_envelope row ''unknown'')
                  (''organization not found for partition_key='' @ ob_partition_key row))
            (returnE published)
      | Some org_public \<Rightarrow>
          (let e = build_envelope row org_public in
           bindE (catchE (thenE (publish_envelope broker (resolve_topic (ob_event_type row)) row e) (returnE None))
             (\<lambda>exc. returnE (Some exc))) (\<lambda>failure.
           case failure of
             Some exc \<Rightarrow> thenE (count_failure broker max_attempts row e (str_exc exc)) (returnE published)
           | None \<Rightarrow>
               bindE (with_session now_utc) (\<lambda>now.
               thenE (with_session (update_db (upd_message (ob_id row) (\<lambda>m. m\<lparr>ob_published_at := Some now\<rparr>))))
                 (returnE (published + 1))))))"

definition poll_body :: "broker \<Rightarrow> (int \<Rightarrow> bool) \<Rightarrow> nat \<Rightarrow> int \<Rightarrow> int relay_op" where
  "poll_body broker skip limit max_attempts =
     thenE (with_session observe_outbox_backlog)
     (bindE (with_session (claim_outbox_batch skip limit max_attempts)) (\<lambda>rows.
      if rows = [] then returnE 0
      else bindE (with_session (load_org_public_ids (remdups (map ob_partition_key rows)))) (\<lambda>orgs.
        foldE (relay_step broker max_attempts orgs) rows 0)))"

definition poll_and_publish :: "broker \<Rightarrow> (int \<Rightarrow> bool) \<Rightarrow> nat option \<Rightarrow> int relay_op" where
  "poll_and_publish broker skip batch_size =
     bindE (getE (\<lambda>a. settings (relay_session a))) (\<lambda>cfg.
     transaction (poll_body broker skip (case batch_size of None \<Rightarrow> outbox_batch_size cfg | Some n \<Rightarrow> n)
       (outbox_max_attempts cfg)))"

text \<open>The polling loop, for a number of rounds until the stop signal; an exception is logged only.\<close>

primrec relay_loop :: "broker \<Rightarrow> (int \<Rightarrow> bool) \<Rightarrow> nat \<Rightarrow> relay \<Rightarrow> relay" where
  "relay_loop broker skip 0 a = a"
| "relay_loop broker skip (Suc n) a =
     relay_loop broker skip n
       (snd (poll_and_publish broker skip (Some (outbox_batch_size (settings (relay_session a)))) a))"

section \<open>Replay\<close>

datatype replay_status = replayed | already_replayed | not_found | outbox_missing

record replay_result =
  rr_dlq_id :: int
  rr_status :: replay_status
  rr_outbox_message_id :: "int option"
  rr_event_type :: "string option"
  rr_replayed_at :: "string option"

definition upd_dead_letter :: "int \<Rightarrow> (outbox_dead_letter \<Rightarrow> outbox_dead_letter) \<Rightarrow> database \<Rightarrow> database" where
  "upd_dead_letter i f d = d\<lparr>outbox_dead_letters := update_rows (\<lambda>l. dl_id l = i) f (outbox_dead_letters d)\<rparr>"

definition replay_step :: "bool \<Rightarrow> outbox_dead_letter list \<Rightarrow> int \<Rightarrow> replay_result list \<Rightarrow> replay_result list op" where
  "replay_step dry_run rows i results =
     (case first_row (filter (\<lambda>l. dl_id l = i) rows) of
        None \<Rightarrow> returnE (results @ [\<lparr>rr_dlq_id = i, rr_status = not_found, rr_outbox_message_id = None,
                  rr_event_type = None, rr_replayed_at = None\<rparr>])
      | Some l \<Rightarrow>
          (case dl_replayed_at l of
             Some t \<Rightarrow> returnE (results @ [\<lparr>rr_dlq_id = i, rr_status = already_replayed,
                  rr_outbox_message_id = Some (dl_outbox_message_id l), rr_event_type = Some (dl_event_type l),
                  rr_replayed_at = Some (iso_z t)\<rparr>])
           | None \<Rightarrow>
               bindE (query (\<lambda>d. first_row (filter (\<lambda>m. ob_id m = dl_outbox_message_id l) (outbox_messages d)))) (\<lambda>found.
               case found of
                 None \<Rightarrow> returnE (results @ [\<lparr>rr_dlq_id = i, rr_status = outbox_missing,
                   rr_outbox_message_id = Some (dl_outbox_message_id l), rr_event_type = Some (dl_event_type l),
                   rr_replayed_at = None\<rparr>])
               | Some m \<Rightarrow>
                   bindE now_utc (\<lambda>now.
                   thenE (whenE (\<not> dry_run)
                     (thenE (update_db (upd_message (ob_id m)
                         (\<lambda>m. m\<lparr>ob_published_at := None, publish_attempts := 0, ob_last_error := None\<rparr>)))
                       (update_db (upd_dead_letter i (\<lambda>l. l\<lparr>dl_replayed_at := Some now\<rparr>)))))
                   (returnE (results @ [\<lparr>rr_dlq_id = i, rr_status = replayed, rr_outbox_message_id = Some (ob_id m),
                     rr_event_type = Some (dl_event_type l), rr_replayed_at = Some (iso_z now)\<rparr>]))))))"

text \<open>\<^verbatim>\<open>list(dict.fromkeys(dlq_ids))\<close>: the first occurrences, in order.\<close>

definition replay_dead_letters :: "int list \<Rightarrow> bool \<Rightarrow> replay_result list relay_op" where
  "replay_dead_letters dlq_ids dry_run =
     (if dlq_ids = [] then returnE []
      else
        let ids = rev (remdups (rev dlq_ids)) in
        transaction (with_session
          (bindE (query (\<lambda>d. filter (\<lambda>l. dl_id l \<in> set ids) (outbox_dead_letters d))) (\<lambda>rows.
           bindE (foldE (replay_step dry_run rows) ids []) (\<lambda>results.
           thenE (if dry_run then rollback else flush) (returnE results))))))"

section \<open>Write footprint\<close>

text \<open>The relay changes the delivery columns of outbox rows and the dead letters.\<close>

abbreviation keeps_relay :: "(database \<Rightarrow> database \<Rightarrow> bool) \<Rightarrow> 'a relay_op \<Rightarrow> bool" where
  "keeps_relay D \<equiv> keeps (\<lambda>a b. D (committed (relay_session a)) (db (relay_session a)) \<longrightarrow>
     D (committed (relay_session a)) (committed (relay_session b)) \<and> D (committed (relay_session b)) (db (relay_session b)))"

definition delivery_update :: "(outbox_message \<Rightarrow> outbox_message) \<Rightarrow> bool" where
  "delivery_update f \<longleftrightarrow> (\<forall>m. ob_id (f m) = ob_id m \<and> ob_idempotency_key (f m) = ob_idempotency_key m \<and>
     ob_payload (f m) = ob_payload m \<and> ob_event_type (f m) = ob_event_type m)"

locale relay_client = db_preorder +
  assumes message_update: "delivery_update f \<Longrightarrow> D d (upd_message i f d)"
    and letter_insert: "dead_letter_ok l d \<Longrightarrow> D d (add_dead_letter l d)"
    and letter_update: "D d (upd_dead_letter i g d)"
begin

lemma relay_preorder: "step_preorder (\<lambda>a b. D (committed (relay_session a)) (db (relay_session a)) \<longrightarrow>
     D (committed (relay_session a)) (committed (relay_session b)) \<and> D (committed (relay_session b)) (db (relay_session b)))"
  by unfold_locales (auto intro: db_refl db_trans)

lemma with_session_tx: "keeps_tx D m \<Longrightarrow> keeps_relay D (with_session m)"
  by (auto simp: keeps_def with_session_def split: prod.split)

lemma with_session_db: "keeps_db D m \<Longrightarrow> keeps_relay D (with_session m)"
  by (intro with_session_tx in_transaction)

lemma send_and_wait: "keeps_relay D (send_and_wait broker k)"
  by (simp add: keeps_def send_and_wait_def db_refl split: delivery.split)

end

sublocale relay_client \<subseteq> relay: step_preorder "\<lambda>a b. D (committed (relay_session a)) (db (relay_session a)) \<longrightarrow>
     D (committed (relay_session a)) (committed (relay_session b)) \<and> D (committed (relay_session b)) (db (relay_session b))"
  by (rule relay_preorder)

context relay_client
begin

lemma transaction: "keeps_relay D m \<Longrightarrow> keeps_relay D (transaction m)"
  unfolding transaction_def by (intro relay.combinators with_session_tx rollback commit)

lemma update_delivery: "delivery_update f \<Longrightarrow> keeps_db D (update_db (upd_message i f))"
  by (intro update_db message_update)

lemma move_to_dead_letter: "keeps_db D (move_to_dead_letter row)"
  unfolding move_to_dead_letter_def
  by (intro primitives letter_insert message_update) (simp_all add: delivery_update_def)

lemma count_failure: "keeps_relay D (count_failure broker mx row e msg)"
  unfolding count_failure_def publish_envelope_def suppress_exceptions_def
  by (intro relay.combinators with_session_db update_delivery move_to_dead_letter send_and_wait)
    (simp add: delivery_update_def attempt_failed_def)

lemma relay_step: "keeps_relay D (relay_step broker mx orgs row p)"
  unfolding relay_step_def publish_envelope_def
  by (intro relay.combinators with_session_db update_delivery now_utc count_failure send_and_wait)
    (simp add: delivery_update_def)

lemma poll_and_publish: "keeps_relay D (poll_and_publish broker skip bs)"
  unfolding poll_and_publish_def poll_body_def observe_outbox_backlog_def claim_outbox_batch_def load_org_public_ids_def
  by (intro relay.combinators transaction with_session_db primitives relay_step)

lemma replay_step: "keeps_db D (replay_step dry rows i res)"
  unfolding replay_step_def
  by (intro primitives message_update letter_update) (simp add: delivery_update_def)

lemma replay_dead_letters: "keeps_relay D (replay_dead_letters ids dry)"
  unfolding replay_dead_letters_def
  by (intro relay.combinators transaction with_session_tx transactions in_transaction query flush step.foldE replay_step)

end

lemmas relay_write_defs = upd_message_def add_dead_letter_def upd_dead_letter_def

interpretation relay_log: relay_client ledger_extends
  by unfold_locales (simp_all add: ledger_extends_def relay_write_defs)

lemma db_ok_upd_message: "delivery_update f \<Longrightarrow> db_ok (upd_message i f d) = db_ok d"
  by (simp add: integrity_defs upd_message_def unique_update_rows delivery_update_def)

interpretation relay_integrity: relay_client stays_ok
  by unfold_locales
    (simp_all add: stays_ok_def db_ok_upd_message, simp_all add: integrity_defs add_dead_letter_def upd_dead_letter_def)

section \<open>Evaluation\<close>

lemma with_session_run [simp, sm_simps]: "m (relay_session a) = (r, s) \<Longrightarrow> with_session m a = (r, a\<lparr>relay_session := s\<rparr>)"
  by (simp add: with_session_def)

lemma send_and_wait_cases:
  obtains "send_and_wait broker k a = (Inr (), a\<lparr>topic_log := topic_log a @ [k], send_no := Suc (send_no a)\<rparr>)"
  | msg extra where "send_and_wait broker k a =
      (Inl (Exc KafkaError msg), a\<lparr>topic_log := topic_log a @ extra, send_no := Suc (send_no a)\<rparr>)"
proof (cases "broker (send_no a) k")
  case Delivered
  then show ?thesis using that(1) by (simp add: send_and_wait_def)
next
  case (Refused m)
  then show ?thesis using that(2) [of m "[]"] by (simp add: send_and_wait_def)
next
  case (Unacknowledged m)
  then show ?thesis using that(2) [of m "[k]"] by (simp add: send_and_wait_def)
qed

lemma suppress_publish:
  "\<exists>extra. suppress_exceptions (publish_envelope broker topic row e) a =
     (Inr (), a\<lparr>topic_log := topic_log a @ extra, send_no := Suc (send_no a)\<rparr>)"
  unfolding suppress_exceptions_def publish_envelope_def
  by (rule send_and_wait_cases [of broker "envelope_record topic row e" a]) auto

text \<open>The polls a row still takes part in, whatever the broker answers.\<close>

definition remaining :: "int \<Rightarrow> outbox_message \<Rightarrow> nat" where
  "remaining mx m = (if ob_published_at m = None then nat (mx - publish_attempts m) else 0)"

text \<open>
  What handling one row does: it changes this row only, uses up one of its remaining attempts, and
  marks it published only if a record with its key was delivered or it was stored as a dead letter.
\<close>

definition row_handled :: "int \<Rightarrow> outbox_message \<Rightarrow> relay \<Rightarrow> relay \<Rightarrow> bool" where
  "row_handled mx row a b \<longleftrightarrow> (\<exists>f extra letters.
     db (relay_session b) = (db (relay_session a))\<lparr>
       outbox_messages := update_rows (\<lambda>m. ob_id m = ob_id row) f (outbox_messages (db (relay_session a))),
       outbox_dead_letters := outbox_dead_letters (db (relay_session a)) @ letters\<rparr> \<and>
     topic_log b = topic_log a @ extra \<and>
     (\<forall>m. ob_id (f m) = ob_id m \<and> ob_partition_key (f m) = ob_partition_key m) \<and>
     remaining mx (f row) < remaining mx row \<and>
     (\<forall>m. ob_published_at (f m) \<noteq> None \<longrightarrow> ob_published_at m \<noteq> None \<or>
        str_int (ob_id row) \<in> rec_key ` set extra \<or> ob_id row \<in> dl_outbox_message_id ` set letters))"

definition relaying :: "relay \<Rightarrow> bool" where
  "relaying a \<longleftrightarrow> \<not> tx_failed (relay_session a) \<and>
     (\<forall>l \<in> set (outbox_dead_letters (db (relay_session a))). dl_id l < seqs (relay_session a) OUTBOX_DEAD_LETTERS)"

text \<open>The parts of the session that handling a row leaves alone.\<close>

definition relay_frame :: "relay \<Rightarrow> relay \<Rightarrow> bool" where
  "relay_frame a b \<longleftrightarrow> committed (relay_session b) = committed (relay_session a) \<and>
     settings (relay_session b) = settings (relay_session a) \<and>
     organizations (db (relay_session b)) = organizations (db (relay_session a))"

lemma remaining_failed:
  assumes "0 < remaining mx row"
  shows "remaining mx (attempt_failed msg row) < remaining mx row"
  using assms by (auto simp: remaining_def attempt_failed_def split: if_splits)

lemma update_rows_twice:
  assumes "\<And>r. sel r \<Longrightarrow> sel (f r)"
  shows "update_rows sel g (update_rows sel f rows) = update_rows sel (\<lambda>r. g (f r)) rows"
  using assms by (induction rows) simp_all

lemma count_failure_run:
  assumes a: "relaying a" and r: "0 < remaining mx row"
  shows "\<exists>b. count_failure broker mx row e msg a = (Inr (), b) \<and> relaying b \<and> relay_frame a b \<and> row_handled mx row a b"
proof (cases "publish_attempts row + 1 \<ge> mx")
  case False
  let ?b = "a\<lparr>relay_session := (relay_session a)\<lparr>db := upd_message (ob_id row) (attempt_failed msg) (db (relay_session a))\<rparr>\<rparr>"
  have "row_handled mx row a ?b"
    unfolding row_handled_def using remaining_failed [OF r, of msg]
    by (intro exI [of _ "attempt_failed msg"] exI [of _ "[]"]) (simp add: upd_message_def attempt_failed_def)
  then show ?thesis using False a
    by (intro exI [of _ ?b]) (simp add: count_failure_def relaying_def relay_frame_def upd_message_def)
next
  case True
  let ?s = "relay_session a" and ?row = "attempt_failed msg row"
  define now where "now = clock ?s (clock_pos ?s)"
  define l where "l = \<lparr>dl_id = seqs ?s OUTBOX_DEAD_LETTERS, dl_outbox_message_id = ob_id row,
     dl_aggregate_type = ob_aggregate_type row, dl_aggregate_id = ob_aggregate_id row, dl_event_type = ob_event_type row,
     dl_payload = ob_payload row, dl_partition_key = ob_partition_key row, dl_publish_attempts = publish_attempts ?row,
     dl_last_error = ob_last_error ?row, dl_moved_at = tx_now ?s, dl_replayed_at = None\<rparr>"
  let ?f = "\<lambda>m. (attempt_failed msg m)\<lparr>ob_published_at := Some now\<rparr>"
  let ?d = "(db ?s)\<lparr>outbox_messages := update_rows (\<lambda>m. ob_id m = ob_id row) ?f (outbox_messages (db ?s)),
      outbox_dead_letters := outbox_dead_letters (db ?s) @ [l]\<rparr>"
  let ?t = "?s\<lparr>seqs := (seqs ?s)(OUTBOX_DEAD_LETTERS := seqs ?s OUTBOX_DEAD_LETTERS + 1),
      clock_pos := Suc (clock_pos ?s), db := ?d\<rparr>"
  let ?u = "?s\<lparr>db := upd_message (ob_id row) (attempt_failed msg) (db ?s)\<rparr>"
  have "dead_letter_ok l (db ?s)" using a by (fastforce simp: dead_letter_ok_def fresh_iff relaying_def l_def)
  then have "dead_letter_ok l (db ?u)" by (simp add: dead_letter_ok_def upd_message_def)
  then have "move_to_dead_letter ?row ?u = (Inr (), ?t)"
    using a unfolding move_to_dead_letter_def
    by (simp add: attempt_failed_def relaying_def l_def [unfolded attempt_failed_def, simplified, symmetric] Let_def
        upd_message_def add_dead_letter_def update_rows_twice now_def)
  moreover obtain extra where "suppress_exceptions (publish_envelope broker DLQ_TOPIC row e) (a\<lparr>relay_session := ?t\<rparr>) =
      (Inr (), a\<lparr>relay_session := ?t, topic_log := topic_log a @ extra, send_no := Suc (send_no a)\<rparr>)"
    using suppress_publish [of broker DLQ_TOPIC row e "a\<lparr>relay_session := ?t\<rparr>"] by auto
  ultimately have run: "count_failure broker mx row e msg a =
      (Inr (), a\<lparr>relay_session := ?t, topic_log := topic_log a @ extra, send_no := Suc (send_no a)\<rparr>)"
    using True by (simp add: count_failure_def)
  have "row_handled mx row a (a\<lparr>relay_session := ?t, topic_log := topic_log a @ extra, send_no := Suc (send_no a)\<rparr>)"
    unfolding row_handled_def
    using r by (intro exI [of _ ?f] exI [of _ extra] exI [of _ "[l]"]) (simp add: attempt_failed_def remaining_def l_def)
  moreover have "relaying (a\<lparr>relay_session := ?t, topic_log := topic_log a @ extra, send_no := Suc (send_no a)\<rparr>)"
    using a by (auto simp: relaying_def l_def)
  ultimately show ?thesis using run by (auto simp: relay_frame_def)
qed

lemma row_handled_sent:
  assumes "0 < remaining mx row"
  shows "row_handled mx row a (a\<lparr>topic_log := topic_log a @ [envelope_record topic row e], send_no := n,
     relay_session := s\<lparr>db := upd_message (ob_id row) (\<lambda>m. m\<lparr>ob_published_at := Some now\<rparr>) (db (relay_session a))\<rparr>\<rparr>)"
  unfolding row_handled_def using assms
  by (intro exI [of _ "\<lambda>m. m\<lparr>ob_published_at := Some now\<rparr>"] exI [of _ "[envelope_record topic row e]"] exI [of _ "[]"])
    (simp add: upd_message_def remaining_def envelope_record_def)

lemma row_handled_log:
  "row_handled mx row (a\<lparr>topic_log := topic_log a @ extra, send_no := n\<rparr>) b \<Longrightarrow> row_handled mx row a b"
  unfolding row_handled_def
  apply (elim exE conjE)
  subgoal for f extra' letters
    by (intro exI [of _ f] exI [of _ "extra @ extra'"] exI [of _ letters]) auto
  done

lemma relay_step_run:
  assumes a: "relaying a" and r: "0 < remaining mx row"
  shows "\<exists>p' b. relay_step broker mx orgs row p a = (Inr p', b) \<and> relaying b \<and> relay_frame a b \<and> row_handled mx row a b"
proof (cases "map_of orgs (ob_partition_key row)")
  case None
  then show ?thesis
    using count_failure_run [OF a r, of broker "build_envelope row ''unknown''"
        "''organization not found for partition_key='' @ ob_partition_key row"]
    by (auto simp: relay_step_def)
next
  case (Some g)
  let ?e = "build_envelope row g" and ?topic = "resolve_topic (ob_event_type row)"
  show ?thesis
  proof (rule send_and_wait_cases [of broker "envelope_record ?topic row ?e" a])
    let ?a = "a\<lparr>topic_log := topic_log a @ [envelope_record ?topic row ?e], send_no := Suc (send_no a)\<rparr>"
    assume "send_and_wait broker (envelope_record ?topic row ?e) a = (Inr (), ?a)"
    then have "relay_step broker mx orgs row p a = (Inr (p + 1), ?a\<lparr>relay_session :=
        (relay_session a)\<lparr>clock_pos := Suc (clock_pos (relay_session a)), db := upd_message (ob_id row)
          (\<lambda>m. m\<lparr>ob_published_at := Some (clock (relay_session a) (clock_pos (relay_session a)))\<rparr>) (db (relay_session a))\<rparr>\<rparr>)"
      using Some by (simp add: relay_step_def publish_envelope_def Let_def)
    moreover have "row_handled mx row a (?a\<lparr>relay_session :=
        (relay_session a)\<lparr>clock_pos := Suc (clock_pos (relay_session a)), db := upd_message (ob_id row)
          (\<lambda>m. m\<lparr>ob_published_at := Some (clock (relay_session a) (clock_pos (relay_session a)))\<rparr>) (db (relay_session a))\<rparr>\<rparr>)"
      by (rule row_handled_sent [OF r])
    ultimately show ?thesis using a by (simp add: relaying_def relay_frame_def upd_message_def)
  next
    fix msg extra
    let ?a = "a\<lparr>topic_log := topic_log a @ extra, send_no := Suc (send_no a)\<rparr>"
    assume "send_and_wait broker (envelope_record ?topic row ?e) a = (Inl (Exc KafkaError msg), ?a)"
    moreover obtain b where "count_failure broker mx row ?e msg ?a = (Inr (), b)" "relaying b" "relay_frame ?a b"
      "row_handled mx row ?a b"
      using count_failure_run [of ?a mx row broker ?e msg] a r by (auto simp: relaying_def)
    ultimately show ?thesis
      using Some row_handled_log by (auto simp: relay_step_def publish_envelope_def Let_def relay_frame_def)
  qed
qed

section \<open>A poll\<close>

definition backlog :: "int \<Rightarrow> database \<Rightarrow> nat" where
  "backlog mx d = (\<Sum>m\<leftarrow>outbox_messages d. remaining mx m)"

text \<open>
  Nothing is lost: a row counts as published only if a record with its key is in the log or a dead
  letter for it is stored.
\<close>

definition accounted :: "kafka_record list \<Rightarrow> database \<Rightarrow> bool" where
  "accounted log d \<longleftrightarrow> (\<forall>m \<in> set (outbox_messages d). ob_published_at m \<noteq> None \<longrightarrow>
     str_int (ob_id m) \<in> rec_key ` set log \<or> ob_id m \<in> dl_outbox_message_id ` set (outbox_dead_letters d))"

lemma sum_update_rows_less:
  assumes "unique_key key rows" "r \<in> set rows" "g (f r) < (g r :: nat)"
  shows "sum_list (map g (update_rows (\<lambda>q. key q = key r) f rows)) < sum_list (map g rows)"
  using assms
proof (induction rows)
  case (Cons q rows)
  have uk: "unique_key key rows" and nq: "\<forall>x \<in> set rows. key x \<noteq> key q"
    using Cons.prems(1) by (auto simp: unique_by_def List.map_filter_simps set_map_filter)
  show ?case
  proof (cases "q = r")
    case True
    then have "update_rows (\<lambda>q. key q = key r) f rows = rows" using nq by (induction rows) auto
    with True Cons.prems(3) show ?thesis by simp
  next
    case False
    with Cons.prems(2) have "r \<in> set rows" by simp
    with Cons.IH [OF uk this Cons.prems(3)] nq show ?thesis by auto
  qed
qed simp

lemma row_handled_effect:
  assumes h: "row_handled mx row a b" and uk: "unique_key ob_id (outbox_messages (db (relay_session a)))"
    and row: "row \<in> set (outbox_messages (db (relay_session a)))"
  shows "unique_key ob_id (outbox_messages (db (relay_session b)))"
    "backlog mx (db (relay_session b)) < backlog mx (db (relay_session a))"
    "accounted (topic_log a) (db (relay_session a)) \<Longrightarrow> accounted (topic_log b) (db (relay_session b))"
    "ob_partition_key ` set (outbox_messages (db (relay_session b))) = ob_partition_key ` set (outbox_messages (db (relay_session a)))"
    "\<forall>m \<in> set (outbox_messages (db (relay_session a))). ob_id m \<noteq> ob_id row \<longrightarrow> m \<in> set (outbox_messages (db (relay_session b)))"
    "prefix (topic_log a) (topic_log b)"
proof -
  let ?d = "db (relay_session a)"
  from h obtain f extra letters where f: "db (relay_session b) =
      ?d\<lparr>outbox_messages := update_rows (\<lambda>m. ob_id m = ob_id row) f (outbox_messages ?d),
        outbox_dead_letters := outbox_dead_letters ?d @ letters\<rparr>" "topic_log b = topic_log a @ extra"
    "\<forall>m. ob_id (f m) = ob_id m \<and> ob_partition_key (f m) = ob_partition_key m" "remaining mx (f row) < remaining mx row"
    "\<forall>m. ob_published_at (f m) \<noteq> None \<longrightarrow> ob_published_at m \<noteq> None \<or>
        str_int (ob_id row) \<in> rec_key ` set extra \<or> ob_id row \<in> dl_outbox_message_id ` set letters"
    unfolding row_handled_def by blast
  show "unique_key ob_id (outbox_messages (db (relay_session b)))"
    using uk f(1,3) by (simp add: unique_update_rows)
  show "backlog mx (db (relay_session b)) < backlog mx ?d"
    using sum_update_rows_less [OF uk row, of "remaining mx" f] f(1,4) by (simp add: backlog_def)
  show "ob_partition_key ` set (outbox_messages (db (relay_session b))) = ob_partition_key ` set (outbox_messages ?d)"
    using f(1,3) by (simp add: image_update_rows)
  show "\<forall>m \<in> set (outbox_messages ?d). ob_id m \<noteq> ob_id row \<longrightarrow> m \<in> set (outbox_messages (db (relay_session b)))"
    using f(1) by (auto simp: set_update_rows)
  show "prefix (topic_log a) (topic_log b)" using f(2) by simp
  show "accounted (topic_log b) (db (relay_session b))" if acc: "accounted (topic_log a) ?d"
    unfolding accounted_def
  proof (intro ballI impI)
    fix x assume x: "x \<in> set (outbox_messages (db (relay_session b)))" "ob_published_at x \<noteq> None"
    then obtain m where m: "m \<in> set (outbox_messages ?d)" "x = (if ob_id m = ob_id row then f m else m)"
      using f(1) by (auto simp: set_update_rows)
    have id: "ob_id x = ob_id m" using m(2) f(3) by simp
    show "str_int (ob_id x) \<in> rec_key ` set (topic_log b) \<or>
        ob_id x \<in> dl_outbox_message_id ` set (outbox_dead_letters (db (relay_session b)))"
    proof (cases "ob_published_at m = None")
      case True
      with m x(2) f(5) have "ob_id m = ob_id row" "str_int (ob_id row) \<in> rec_key ` set extra \<or>
          ob_id row \<in> dl_outbox_message_id ` set letters" by (auto split: if_splits)
      then show ?thesis unfolding id using f(1,2) by auto
    next
      case False
      with acc m(1) show ?thesis unfolding id accounted_def using f(1,2) by auto
    qed
  qed
qed

lemma py_int_digits:
  assumes "isdigit k"
  shows "py_int k = Some (int (digits_val k))"
proof -
  have d: "\<forall>c \<in> set k. is_digit c" "k \<noteq> []" using assms by (auto simp: isdigit_def list_all_iff)
  then have hd: "is_digit (hd k)" "is_digit (last k)" by auto
  then have "strip k = k" by (intro strip_id) (auto dest: is_digit_not_space)
  moreover have "hd k \<noteq> CHR ''-''" "hd k \<noteq> CHR ''+''" using hd(1) by (auto simp: is_digit_def)
  ultimately show ?thesis using digit_groups_digits [OF assms] by (simp add: py_int_def)
qed

text \<open>The partition keys of the code base are identifiers in decimal or hexadecimal notation.\<close>

definition keys_parse :: "string set \<Rightarrow> bool" where
  "keys_parse K \<longleftrightarrow> (\<forall>k \<in> K. key_isdigit k \<longrightarrow> isdigit k)"

lemma key_ids_parse: "keys_parse (set ks) \<Longrightarrow> \<exists>is. key_ids ks = Inr is"
  by (induction ks) (auto simp: keys_parse_def py_int_digits)

definition relay_ok :: "relay \<Rightarrow> bool" where
  "relay_ok a \<longleftrightarrow> relaying a \<and> unique_key ob_id (outbox_messages (db (relay_session a))) \<and>
     keys_parse (ob_partition_key ` set (outbox_messages (db (relay_session a))))"

definition polled :: "int \<Rightarrow> relay \<Rightarrow> relay \<Rightarrow> bool" where
  "polled mx a b \<longleftrightarrow> relay_ok b \<and> settings (relay_session b) = settings (relay_session a) \<and>
     (accounted (topic_log a) (db (relay_session a)) \<longrightarrow> accounted (topic_log b) (db (relay_session b))) \<and>
     backlog mx (db (relay_session b)) \<le> backlog mx (db (relay_session a)) \<and> prefix (topic_log a) (topic_log b)"

lemma polled_refl: "relay_ok a \<Longrightarrow> polled mx a a"
  by (simp add: polled_def)

lemma polled_trans: "polled mx a b \<Longrightarrow> polled mx b c \<Longrightarrow> polled mx a c"
  unfolding polled_def by (auto intro: prefix_order.trans)

lemma relay_steps_run:
  assumes "relay_ok a" "distinct (map ob_id rows)" "set rows \<subseteq> set (outbox_messages (db (relay_session a)))"
    "\<forall>row \<in> set rows. 0 < remaining mx row"
  shows "\<exists>p' b. foldE (relay_step broker mx orgs) rows p a = (Inr p', b) \<and> polled mx a b \<and>
    committed (relay_session b) = committed (relay_session a) \<and>
    (rows \<noteq> [] \<longrightarrow> backlog mx (db (relay_session b)) < backlog mx (db (relay_session a)))"
  using assms
proof (induction rows arbitrary: a p)
  case Nil
  then show ?case by (simp add: polled_refl)
next
  case (Cons row rows)
  have ok: "relaying a" "unique_key ob_id (outbox_messages (db (relay_session a)))"
    "keys_parse (ob_partition_key ` set (outbox_messages (db (relay_session a))))" "0 < remaining mx row"
    "row \<in> set (outbox_messages (db (relay_session a)))"
    using Cons.prems by (simp_all add: relay_ok_def)
  from relay_step_run [OF ok(1,4)] obtain p' b where
    b: "relay_step broker mx orgs row p a = (Inr p', b)" "relaying b" "relay_frame a b" "row_handled mx row a b" by blast
  note eff = row_handled_effect [OF b(4) ok(2,5)]
  have okb: "relay_ok b" using b(2) eff(1,4) ok(3) by (simp add: relay_ok_def)
  then have ab: "polled mx a b" using b(3) eff(2,3,6) by (simp add: polled_def relay_frame_def)
  have "set rows \<subseteq> set (outbox_messages (db (relay_session b)))"
  proof
    fix x assume x: "x \<in> set rows"
    with Cons.prems(2) have "ob_id x \<noteq> ob_id row" by (metis distinct.simps(2) image_eqI list.map(2) set_map)
    moreover have "x \<in> set (outbox_messages (db (relay_session a)))" using x Cons.prems(3) by auto
    ultimately show "x \<in> set (outbox_messages (db (relay_session b)))" using eff(5) by blast
  qed
  with Cons.IH [OF okb, of p'] Cons.prems obtain q c where
    c: "foldE (relay_step broker mx orgs) rows p' b = (Inr q, c)" "polled mx b c"
    "committed (relay_session c) = committed (relay_session b)" by auto
  have "backlog mx (db (relay_session c)) < backlog mx (db (relay_session a))"
    using c(2) eff(2) by (simp add: polled_def)
  then show ?case using b c polled_trans [OF ab c(2)] by (simp add: relay_frame_def)
qed

lemma claim_batch_rows:
  assumes "unique_key ob_id (outbox_messages d)"
  shows "set (claim_batch skip limit mx d) \<subseteq> {m \<in> set (outbox_messages d). claimable skip mx m}"
    "distinct (map ob_id (claim_batch skip limit mx d))"
proof -
  show "set (claim_batch skip limit mx d) \<subseteq> {m \<in> set (outbox_messages d). claimable skip mx m}"
    unfolding claim_batch_def by (auto dest!: in_set_takeD)
  have "distinct (map ob_id (outbox_messages d))"
    using assms by (simp add: unique_by_def map_filter_def comp_def)
  then have "distinct (map ob_id (filter (claimable skip mx) (outbox_messages d)))" by (rule distinct_map_filter)
  then have "distinct (map ob_id (order_by ob_created_at (filter (claimable skip mx) (outbox_messages d))))"
    by (simp add: distinct_map order_by_def)
  then show "distinct (map ob_id (claim_batch skip limit mx d))"
    unfolding claim_batch_def by (metis distinct_take take_map)
qed

lemma claimable_remaining: "claimable skip mx m \<Longrightarrow> 0 < remaining mx m"
  by (simp add: claimable_def remaining_def)

lemma observe_outbox_backlog_run:
  assumes "\<not> tx_failed s"
  shows "\<exists>t. observe_outbox_backlog s = (Inr (), t) \<and> db t = db s \<and> committed t = committed s \<and> \<not> tx_failed t \<and>
    settings t = settings s \<and> seqs t = seqs s"
  using assms by (simp add: observe_outbox_backlog_def)

abbreviation max_tries :: "relay \<Rightarrow> int" where
  "max_tries a \<equiv> outbox_max_attempts (settings (relay_session a))"

abbreviation relay_db :: "relay \<Rightarrow> database" where
  "relay_db a \<equiv> db (relay_session a)"

lemma load_org_public_ids_run:
  assumes "\<not> tx_failed s" "keys_parse (set ks)"
  shows "\<exists>orgs. load_org_public_ids ks s = (Inr orgs, s)"
  using key_ids_parse [OF assms(2)] assms(1) by (auto simp: load_org_public_ids_def)

lemma poll_body_run:
  assumes a: "relay_ok a"
  shows "\<exists>n b. poll_body broker skip limit mx a = (Inr n, b) \<and> polled mx a b \<and>
    committed (relay_session b) = committed (relay_session a) \<and>
    (claim_batch skip limit mx (relay_db a) \<noteq> [] \<longrightarrow> backlog mx (relay_db b) < backlog mx (relay_db a))"
proof -
  have nf: "\<not> tx_failed (relay_session a)" using a by (simp add: relay_ok_def relaying_def)
  from observe_outbox_backlog_run [OF nf] obtain s where
    s: "observe_outbox_backlog (relay_session a) = (Inr (), s)" "db s = relay_db a"
    "committed s = committed (relay_session a)" "\<not> tx_failed s" "settings s = settings (relay_session a)"
    "seqs s = seqs (relay_session a)" by blast
  let ?a = "a\<lparr>relay_session := s\<rparr>" and ?rows = "claim_batch skip limit mx (relay_db a)"
  have ok: "relay_ok ?a" using a s by (simp add: relay_ok_def relaying_def)
  have rows: "set ?rows \<subseteq> set (outbox_messages (relay_db ?a))" "distinct (map ob_id ?rows)"
    "\<forall>row \<in> set ?rows. 0 < remaining mx row"
    using claim_batch_rows [of "relay_db a" skip limit mx] a s(2) claimable_remaining by (auto simp: relay_ok_def)
  have pol: "polled mx a ?a" using ok s by (simp add: polled_def)
  show ?thesis
  proof (cases "?rows = []")
    case True
    then have "poll_body broker skip limit mx a = (Inr 0, ?a)"
      using s by (simp add: poll_body_def claim_outbox_batch_def)
    with True pol s(3) show ?thesis by auto
  next
    case False
    have "keys_parse (set (remdups (map ob_partition_key ?rows)))"
      using ok rows(1) by (auto simp: relay_ok_def keys_parse_def)
    from load_org_public_ids_run [OF s(4) this] obtain orgs where
      orgs: "load_org_public_ids (remdups (map ob_partition_key ?rows)) s = (Inr orgs, s)" by blast
    from relay_steps_run [OF ok rows(2,1,3), of broker orgs 0] False obtain n b where
      b: "foldE (relay_step broker mx orgs) ?rows 0 ?a = (Inr n, b)" "polled mx ?a b"
      "committed (relay_session b) = committed s" "backlog mx (relay_db b) < backlog mx (relay_db a)" using s(2) by auto
    have "poll_body broker skip limit mx a = (Inr n, b)"
      using s orgs b(1) False by (simp add: poll_body_def claim_outbox_batch_def)
    with b polled_trans [OF pol b(2)] s(3) show ?thesis by auto
  qed
qed

lemma transaction_run:
  assumes "m a = (Inr x, b)" "\<not> tx_failed (relay_session b)"
  shows "transaction m a = (Inr x, b\<lparr>relay_session := (relay_session b)\<lparr>committed := relay_db b,
    tx_now := clock (relay_session b) (clock_pos (relay_session b))\<rparr>\<rparr>)"
  using assms by (simp add: transaction_def)

lemma poll_run:
  assumes a: "relay_ok a" and limit: "limit = (case bs of None \<Rightarrow> outbox_batch_size (settings (relay_session a)) | Some n \<Rightarrow> n)"
  shows "\<exists>n b. poll_and_publish broker skip bs a = (Inr n, b) \<and> polled (max_tries a) a b \<and>
    committed (relay_session b) = relay_db b \<and>
    (claim_batch skip limit (max_tries a) (relay_db a) \<noteq> [] \<longrightarrow> backlog (max_tries a) (relay_db b) < backlog (max_tries a) (relay_db a))"
proof -
  from poll_body_run [OF a, of broker skip limit "max_tries a"] obtain n b where
    b: "poll_body broker skip limit (max_tries a) a = (Inr n, b)" "polled (max_tries a) a b"
    "claim_batch skip limit (max_tries a) (relay_db a) \<noteq> [] \<longrightarrow> backlog (max_tries a) (relay_db b) < backlog (max_tries a) (relay_db a)"
    by blast
  have nf: "\<not> tx_failed (relay_session b)" using b(2) by (simp add: polled_def relay_ok_def relaying_def)
  let ?b = "b\<lparr>relay_session := (relay_session b)\<lparr>committed := relay_db b,
    tx_now := clock (relay_session b) (clock_pos (relay_session b))\<rparr>\<rparr>"
  have "poll_and_publish broker skip bs a = (Inr n, ?b)"
    using transaction_run [of "poll_body broker skip limit (max_tries a)" a n b, OF b(1) nf] by (simp add: poll_and_publish_def limit [symmetric])
  moreover have "polled (max_tries a) a ?b" using b(2) by (simp add: polled_def relay_ok_def relaying_def)
  ultimately show ?thesis using b(3) by auto
qed

section \<open>Properties\<close>

lemma relay_loop_polled:
  assumes "relay_ok a"
  shows "polled (max_tries a) a (relay_loop broker skip n a)"
  using assms
proof (induction n arbitrary: a)
  case 0
  then show ?case by (simp add: polled_refl)
next
  case (Suc n)
  let ?bs = "Some (outbox_batch_size (settings (relay_session a)))"
  obtain b where b: "snd (poll_and_publish broker skip ?bs a) = b" "polled (max_tries a) a b"
    using poll_run [OF Suc.prems refl, of broker skip ?bs] by fastforce
  then have "polled (max_tries b) b (relay_loop broker skip n b)" by (intro Suc.IH) (simp add: polled_def)
  moreover have "max_tries b = max_tries a" using b(2) by (simp add: polled_def)
  ultimately show ?case using b polled_trans [of "max_tries a" a b] by simp
qed

lemma relay_drained:
  assumes "relay_ok a" "0 < outbox_batch_size (settings (relay_session a))" "backlog (max_tries a) (relay_db a) \<le> n"
  shows "backlog (max_tries a) (relay_db (relay_loop broker (\<lambda>_. False) n a)) = 0"
  using assms
proof (induction n arbitrary: a)
  case (Suc n)
  let ?limit = "outbox_batch_size (settings (relay_session a))" and ?mx = "max_tries a"
  let ?b = "snd (poll_and_publish broker (\<lambda>_. False) (Some ?limit) a)"
  obtain k where b: "poll_and_publish broker (\<lambda>_. False) (Some ?limit) a = (Inr k, ?b)" "polled ?mx a ?b"
    "claim_batch (\<lambda>_. False) ?limit ?mx (relay_db a) \<noteq> [] \<longrightarrow> backlog ?mx (relay_db ?b) < backlog ?mx (relay_db a)"
    using poll_run [OF Suc.prems(1), of ?limit "Some ?limit" broker "\<lambda>_. False"] by fastforce
  have "backlog ?mx (relay_db ?b) \<le> n"
  proof (cases "backlog ?mx (relay_db a) = 0")
    case True
    then show ?thesis using b(2) by (simp add: polled_def)
  next
    case False
    then obtain m where "m \<in> set (outbox_messages (relay_db a))" "remaining ?mx m \<noteq> 0"
      by (auto simp: backlog_def sum_list_eq_0_iff)
    then have "claimable (\<lambda>_. False) ?mx m" by (auto simp: claimable_def remaining_def split: if_splits)
    with \<open>m \<in> _\<close> have "m \<in> set (order_by ob_created_at (filter (claimable (\<lambda>_. False) ?mx) (outbox_messages (relay_db a))))"
      by simp
    then have "order_by ob_created_at (filter (claimable (\<lambda>_. False) ?mx) (outbox_messages (relay_db a))) \<noteq> []"
      by (metis empty_iff list.set(1))
    with Suc.prems(2) have "claim_batch (\<lambda>_. False) ?limit ?mx (relay_db a) \<noteq> []"
      by (simp add: claim_batch_def)
    with b(3) Suc.prems(3) show ?thesis by simp
  qed
  moreover have "settings (relay_session ?b) = settings (relay_session a)" "relay_ok ?b" using b(2) by (simp_all add: polled_def)
  ultimately show ?case using Suc.IH [of ?b] Suc.prems(2) by simp
qed simp

text \<open>
  C33: No event is lost. Whatever the broker answers (delivers, refuses, or delivers without
  acknowledging) and however often the relay polls, a row is marked published only if a record with
  its key has been delivered or it is stored as a dead letter; delivered records stay delivered.
\<close>

theorem relay_loses_nothing:
  assumes "relay_ok a" "accounted (topic_log a) (relay_db a)" "b = relay_loop broker skip n a"
  shows "prefix (topic_log a) (topic_log b) \<and>
    (\<forall>m \<in> set (outbox_messages (relay_db b)). ob_published_at m \<noteq> None \<longrightarrow>
      str_int (ob_id m) \<in> rec_key ` set (topic_log b) \<or>
      ob_id m \<in> dl_outbox_message_id ` set (outbox_dead_letters (relay_db b)))"
  using relay_loop_polled [OF assms(1), of broker skip n] assms(2,3) by (simp add: polled_def accounted_def)

text \<open>
  C34: The relay finishes. When no other relay holds rows and no new ones arrive, the number of polls
  that the rows can still take part in bounds the work: after that many rounds, whatever the broker
  answers, every row is published, or has used up its attempts in an earlier life and is never
  claimed again; and each published row was delivered or is a dead letter.
\<close>

theorem relay_terminates:
  assumes "relay_ok a" "accounted (topic_log a) (relay_db a)" "0 < outbox_batch_size (settings (relay_session a))"
    and "b = relay_loop broker (\<lambda>_. False) (backlog (max_tries a) (relay_db a)) a"
  shows "\<forall>m \<in> set (outbox_messages (relay_db b)). if ob_published_at m = None then max_tries a \<le> publish_attempts m
    else str_int (ob_id m) \<in> rec_key ` set (topic_log b) \<or>
      ob_id m \<in> dl_outbox_message_id ` set (outbox_dead_letters (relay_db b))"
proof -
  let ?n = "backlog (max_tries a) (relay_db a)"
  have acc: "accounted (topic_log b) (relay_db b)"
    using relay_loop_polled [OF assms(1), of broker "\<lambda>_. False" ?n] assms(2,4) by (simp add: polled_def)
  have "backlog (max_tries a) (relay_db b) = 0" using relay_drained [OF assms(1,3), of ?n broker] assms(4) by simp
  then have "\<forall>m \<in> set (outbox_messages (relay_db b)). remaining (max_tries a) m = 0"
    by (simp add: backlog_def sum_list_eq_0_iff)
  with acc show ?thesis by (auto simp: accounted_def remaining_def split: if_splits)
qed

section \<open>A healthy broker\<close>

definition delivered_row :: "instant \<Rightarrow> outbox_message \<Rightarrow> outbox_message" where
  "delivered_row now m = m\<lparr>ob_published_at := Some now\<rparr>"

text \<open>The record for a row of a known organization.\<close>

definition row_record :: "database \<Rightarrow> outbox_message \<Rightarrow> kafka_record \<Rightarrow> bool" where
  "row_record d row k \<longleftrightarrow> (\<exists>g \<in> set (organizations d). ob_partition_key row = str_int (org_id g) \<and>
     k = envelope_record (resolve_topic (ob_event_type row)) row (build_envelope row (uuid_str (org_public_id g))))"

lemma map_of_org_public_ids:
  assumes uk: "unique_key org_id (organizations d)" and g: "g \<in> set (organizations d)" "org_id g \<in> set ids"
  shows "map_of (org_public_ids ids d) (str_int (org_id g)) = Some (uuid_str (org_public_id g))"
proof -
  have "filter (\<lambda>h. str_int (org_id h) = str_int (org_id g)) (filter (\<lambda>h. org_id h \<in> set ids) (organizations d)) =
      filter (\<lambda>h. org_id h \<in> set ids) (filter (\<lambda>h. org_id h = org_id g) (organizations d))"
    by (simp add: inj_str_int conj_commute)
  also have "\<dots> = [g]" using unique_key_filter [OF uk g(1)] g(2) by simp
  finally show ?thesis unfolding org_public_ids_def by (rule map_of_dict_of_unique)
qed

lemma key_ids_mem:
  "key_ids ks = Inr is \<Longrightarrow> k \<in> set ks \<Longrightarrow> key_isdigit k \<Longrightarrow> py_int k = Some i \<Longrightarrow> i \<in> set is"
  by (induction ks arbitrary: "is") (auto split: if_splits option.splits sum.splits)

lemma load_known_orgs:
  assumes nf: "\<not> tx_failed s" and uk: "unique_key org_id (organizations (db s))" and ks: "keys_parse (set ks)"
    and known: "\<forall>k \<in> set ks. \<exists>g \<in> set (organizations (db s)). k = str_int (org_id g) \<and> 0 \<le> org_id g"
  shows "\<exists>orgs. load_org_public_ids ks s = (Inr orgs, s) \<and>
    (\<forall>k \<in> set ks. \<exists>g \<in> set (organizations (db s)). k = str_int (org_id g) \<and> map_of orgs k = Some (uuid_str (org_public_id g)))"
proof (cases "ks = []")
  case True
  then show ?thesis by (simp add: load_org_public_ids_def)
next
  case False
  from key_ids_parse [OF ks] obtain ids where ids: "key_ids ks = Inr ids" by blast
  have mem: "org_id g \<in> set ids" if "str_int (org_id g) \<in> set ks" "0 \<le> org_id g" for g
  proof (rule key_ids_mem [OF ids that(1)])
    show "key_isdigit (str_int (org_id g))"
      using that(2) isdigit_str_int [of "org_id g"] by (auto simp: isdigit_def key_isdigit_def list_all_iff)
  qed (rule py_int_str_int)
  then have "ids \<noteq> []" using False known by (metis empty_iff list.set(1) list.set_intros(1) neq_Nil_conv)
  then have "load_org_public_ids ks s = (Inr (org_public_ids ids (db s)), s)" using ids nf by (simp add: load_org_public_ids_def)
  moreover have "\<exists>g \<in> set (organizations (db s)). k = str_int (org_id g) \<and>
      map_of (org_public_ids ids (db s)) k = Some (uuid_str (org_public_id g))" if k: "k \<in> set ks" for k
  proof -
    from known k obtain g where g: "g \<in> set (organizations (db s))" "k = str_int (org_id g)" "0 \<le> org_id g" by blast
    with k have "org_id g \<in> set ids" by (intro mem) simp_all
    from map_of_org_public_ids [OF uk g(1) this] g show ?thesis by (intro bexI [of _ g]) simp_all
  qed
  ultimately show ?thesis by blast
qed

lemma healthy_steps:
  assumes "\<forall>n k. broker n k = Delivered"
    and "\<forall>row \<in> set rows. \<exists>g \<in> set (organizations d). ob_partition_key row = str_int (org_id g) \<and>
      map_of orgs (ob_partition_key row) = Some (uuid_str (org_public_id g))"
  shows "\<exists>b ks. foldE (relay_step broker mx orgs) rows p a = (Inr (p + int (length rows)), b) \<and>
    topic_log b = topic_log a @ ks \<and> list_all2 (row_record d) rows ks \<and>
    tx_failed (relay_session b) = tx_failed (relay_session a) \<and>
    (\<forall>row \<in> set rows. \<forall>m \<in> set (outbox_messages (relay_db b)). ob_id m = ob_id row \<longrightarrow> ob_published_at m \<noteq> None) \<and>
    filter (\<lambda>m. ob_id m \<notin> ob_id ` set rows) (outbox_messages (relay_db b)) =
      filter (\<lambda>m. ob_id m \<notin> ob_id ` set rows) (outbox_messages (relay_db a)) \<and>
    (\<forall>m \<in> set (outbox_messages (relay_db b)). ob_published_at m = None \<longrightarrow> m \<in> set (outbox_messages (relay_db a)))"
  using assms(2)
proof (induction rows arbitrary: p a)
  case (Cons row rows)
  then obtain g where g: "g \<in> set (organizations d)" "ob_partition_key row = str_int (org_id g)"
    "map_of orgs (ob_partition_key row) = Some (uuid_str (org_public_id g))" by auto
  define k where "k = envelope_record (resolve_topic (ob_event_type row)) row (build_envelope row (uuid_str (org_public_id g)))"
  have k: "row_record d row k" using g by (auto simp: row_record_def k_def)
  define s where "s = relay_session a"
  define t where "t = s\<lparr>clock_pos := Suc (clock_pos s), db := upd_message (ob_id row) (delivered_row (clock s (clock_pos s))) (db s)\<rparr>"
  define b where "b = a\<lparr>topic_log := topic_log a @ [k], send_no := Suc (send_no a), relay_session := t\<rparr>"
  have step: "relay_step broker mx orgs row p a = (Inr (p + 1), b)"
    using g(3) assms(1) by (simp add: relay_step_def publish_envelope_def send_and_wait_def Let_def k_def b_def t_def s_def
        delivered_row_def [abs_def])
  from Cons.IH [of "p + 1" b] Cons.prems obtain c ks where
    c: "foldE (relay_step broker mx orgs) rows (p + 1) b = (Inr (p + 1 + int (length rows)), c)"
    "topic_log c = topic_log b @ ks" "list_all2 (row_record d) rows ks"
    "tx_failed (relay_session c) = tx_failed (relay_session b)"
    "\<forall>row \<in> set rows. \<forall>m \<in> set (outbox_messages (relay_db c)). ob_id m = ob_id row \<longrightarrow> ob_published_at m \<noteq> None"
    "filter (\<lambda>m. ob_id m \<notin> ob_id ` set rows) (outbox_messages (relay_db c)) =
      filter (\<lambda>m. ob_id m \<notin> ob_id ` set rows) (outbox_messages (relay_db b))"
    "\<forall>m \<in> set (outbox_messages (relay_db c)). ob_published_at m = None \<longrightarrow> m \<in> set (outbox_messages (relay_db b))"
    by auto
  let ?old = "outbox_messages (relay_db a)"
  have ob: "outbox_messages (relay_db b) = update_rows (\<lambda>m. ob_id m = ob_id row) (delivered_row (clock s (clock_pos s))) ?old"
    by (simp add: b_def t_def s_def upd_message_def)
  have open_b: "m \<in> set ?old \<and> ob_id m \<noteq> ob_id row" if "m \<in> set (outbox_messages (relay_db b))" "ob_published_at m = None" for m
    using that by (auto simp: ob set_update_rows delivered_row_def split: if_splits)
  have "filter (\<lambda>m. ob_id m \<notin> ob_id ` set (row # rows)) (outbox_messages (relay_db c)) =
      filter (\<lambda>m. ob_id m \<notin> ob_id ` set (row # rows)) (outbox_messages (relay_db b))"
    using arg_cong [OF c(6), of "filter (\<lambda>m. ob_id m \<noteq> ob_id row)"] by (simp add: conj_commute)
  also have "\<dots> = filter (\<lambda>m. ob_id m \<notin> ob_id ` set (row # rows)) ?old"
    unfolding ob by (rule filter_update_other) (simp add: delivered_row_def)
  finally have "filter (\<lambda>m. ob_id m \<notin> ob_id ` set (row # rows)) (outbox_messages (relay_db c)) =
      filter (\<lambda>m. ob_id m \<notin> ob_id ` set (row # rows)) ?old" .
  moreover have "\<forall>x \<in> set (row # rows). \<forall>m \<in> set (outbox_messages (relay_db c)). ob_id m = ob_id x \<longrightarrow> ob_published_at m \<noteq> None"
    using c(5,7) open_b by auto
  moreover have "\<forall>m \<in> set (outbox_messages (relay_db c)). ob_published_at m = None \<longrightarrow> m \<in> set ?old"
    using c(7) open_b by blast
  moreover have "topic_log c = topic_log a @ k # ks" "list_all2 (row_record d) (row # rows) (k # ks)"
    "tx_failed (relay_session c) = tx_failed (relay_session a)"
    using c(2,3,4) k by (simp_all add: b_def t_def s_def)
  moreover have "foldE (relay_step broker mx orgs) (row # rows) p a = (Inr (p + int (length (row # rows))), c)"
    using step c(1) by (simp add: add.commute add.left_commute)
  ultimately show ?case by blast
qed simp

text \<open>
  With a healthy broker a poll publishes its batch in order. If every claimed row belongs to an
  existing organization and the broker acknowledges, the poll returns the size of the batch; the
  batch is the oldest rows that are unpublished, have attempts left and are not locked, in the order
  of their creation; for each of them exactly one record is appended to the log, on the topic of its
  event type and with the public id of its organization; they are marked published, and all other
  rows stay as they are.
\<close>

theorem poll_publishes_batch:
  assumes ok: "relay_ok a" and uk: "unique_key org_id (organizations (relay_db a))"
    and rows: "rows = claim_batch skip limit (max_tries a) (relay_db a)"
    and known: "\<forall>row \<in> set rows. \<exists>g \<in> set (organizations (relay_db a)). ob_partition_key row = str_int (org_id g) \<and> 0 \<le> org_id g"
    and healthy: "\<forall>n k. broker n k = Delivered"
  shows "\<exists>b ks. poll_and_publish broker skip (Some limit) a = (Inr (int (length rows)), b) \<and>
    sorted (map ob_created_at rows) \<and> distinct (map ob_id rows) \<and>
    topic_log b = topic_log a @ ks \<and> list_all2 (row_record (relay_db a)) rows ks \<and>
    (\<forall>row \<in> set rows. \<forall>m \<in> set (outbox_messages (relay_db b)). ob_id m = ob_id row \<longrightarrow> ob_published_at m \<noteq> None) \<and>
    filter (\<lambda>m. ob_id m \<notin> ob_id ` set rows) (outbox_messages (relay_db b)) =
      filter (\<lambda>m. ob_id m \<notin> ob_id ` set rows) (outbox_messages (relay_db a)) \<and>
    committed (relay_session b) = relay_db b"
proof -
  let ?mx = "max_tries a"
  have nf: "\<not> tx_failed (relay_session a)" using ok by (simp add: relay_ok_def relaying_def)
  note batch = claim_batch_rows [of "relay_db a" skip limit ?mx, folded rows]
  have uo: "unique_key ob_id (outbox_messages (relay_db a))" using ok by (simp add: relay_ok_def)
  have srt: "sorted (map ob_created_at rows)"
    unfolding rows claim_batch_def order_by_def take_map [symmetric] by (rule sorted_wrt_take [OF sorted_sort_key])
  from observe_outbox_backlog_run [OF nf] obtain s where
    s: "observe_outbox_backlog (relay_session a) = (Inr (), s)" "db s = relay_db a" "\<not> tx_failed s" by blast
  let ?a = "a\<lparr>relay_session := s\<rparr>"
  have "keys_parse (set (remdups (map ob_partition_key rows)))"
    using ok batch(1) [OF uo] by (auto simp: relay_ok_def keys_parse_def)
  with load_known_orgs [OF s(3), of "remdups (map ob_partition_key rows)"] uk known s(2) obtain orgs where
    orgs: "load_org_public_ids (remdups (map ob_partition_key rows)) s = (Inr orgs, s)"
    "\<forall>row \<in> set rows. \<exists>g \<in> set (organizations (relay_db a)). ob_partition_key row = str_int (org_id g) \<and>
      map_of orgs (ob_partition_key row) = Some (uuid_str (org_public_id g))" by fastforce
  from healthy_steps [OF healthy orgs(2), of ?mx 0 ?a] obtain b ks where
    b: "foldE (relay_step broker ?mx orgs) rows 0 ?a = (Inr (int (length rows)), b)"
    "topic_log b = topic_log a @ ks" "list_all2 (row_record (relay_db a)) rows ks" "\<not> tx_failed (relay_session b)"
    "\<forall>row \<in> set rows. \<forall>m \<in> set (outbox_messages (relay_db b)). ob_id m = ob_id row \<longrightarrow> ob_published_at m \<noteq> None"
    "filter (\<lambda>m. ob_id m \<notin> ob_id ` set rows) (outbox_messages (relay_db b)) =
      filter (\<lambda>m. ob_id m \<notin> ob_id ` set rows) (outbox_messages (relay_db a))" using s(2,3) by auto
  have body: "poll_body broker skip limit ?mx a = (Inr (int (length rows)), b)"
  proof (cases "rows = []")
    case True
    then have "b = ?a" using b(1) by simp
    then show ?thesis using s True by (simp add: poll_body_def claim_outbox_batch_def rows [symmetric])
  next
    case False
    then show ?thesis using s orgs(1) b(1) by (simp add: poll_body_def claim_outbox_batch_def rows [symmetric])
  qed
  let ?b = "b\<lparr>relay_session := (relay_session b)\<lparr>committed := relay_db b,
    tx_now := clock (relay_session b) (clock_pos (relay_session b))\<rparr>\<rparr>"
  have "poll_and_publish broker skip (Some limit) a = (Inr (int (length rows)), ?b)"
    using transaction_run [of "poll_body broker skip limit ?mx" a "int (length rows)" b, OF body b(4)]
    by (simp add: poll_and_publish_def)
  then show ?thesis using b srt batch(2) [OF uo] by (intro exI [of _ ?b] exI [of _ ks]) simp
qed

section \<open>Replaying\<close>

definition reset_message :: "outbox_message \<Rightarrow> outbox_message" where
  "reset_message m = m\<lparr>ob_published_at := None, publish_attempts := 0, ob_last_error := None\<rparr>"

text \<open>No dead letter with this id is left to be replayed.\<close>

definition settled :: "database \<Rightarrow> int \<Rightarrow> bool" where
  "settled d i \<longleftrightarrow> (\<forall>l \<in> set (outbox_dead_letters d). dl_id l = i \<longrightarrow> dl_replayed_at l \<noteq> None \<or>
     dl_outbox_message_id l \<notin> ob_id ` set (outbox_messages d))"

text \<open>
  A dead letter can be replayed if it has not been and its row is still in the outbox. The effect of
  replaying the letters with ids in \<open>P\<close>: their rows are reset, the letters are marked.
\<close>

definition replayable :: "database \<Rightarrow> outbox_dead_letter \<Rightarrow> bool" where
  "replayable d l \<longleftrightarrow> dl_replayed_at l = None \<and> dl_outbox_message_id l \<in> ob_id ` set (outbox_messages d)"

definition to_republish :: "database \<Rightarrow> int set \<Rightarrow> outbox_message \<Rightarrow> bool" where
  "to_republish d P m \<longleftrightarrow> (\<exists>l \<in> set (outbox_dead_letters d). dl_id l \<in> P \<and> replayable d l \<and>
     dl_outbox_message_id l = ob_id m)"

definition letter_marked :: "database \<Rightarrow> int set \<Rightarrow> outbox_dead_letter \<Rightarrow> outbox_dead_letter \<Rightarrow> bool" where
  "letter_marked d P l l' \<longleftrightarrow> (if dl_id l \<in> P \<and> replayable d l
     then \<exists>t. l' = l\<lparr>dl_replayed_at := Some t\<rparr> else l' = l)"

definition replay_effect :: "database \<Rightarrow> int set \<Rightarrow> database \<Rightarrow> bool" where
  "replay_effect d P e \<longleftrightarrow> (\<exists>ls. e = d\<lparr>outbox_messages := map (\<lambda>m. if to_republish d P m then reset_message m else m)
       (outbox_messages d), outbox_dead_letters := ls\<rparr> \<and> list_all2 (letter_marked d P) (outbox_dead_letters d) ls)"

lemma reset_message_simps [simp]:
  "reset_message (reset_message m) = reset_message m" "ob_id (reset_message m) = ob_id m"
  by (simp_all add: reset_message_def)

lemma letter_marked_id: "letter_marked d P l l' \<Longrightarrow> dl_id l' = dl_id l \<and> dl_outbox_message_id l' = dl_outbox_message_id l"
  by (auto simp: letter_marked_def split: if_splits)

lemma replay_effect_start: "replay_effect d {} d"
  unfolding replay_effect_def
  by (rule exI [of _ "outbox_dead_letters d"]) (simp add: to_republish_def letter_marked_def list.rel_refl)

lemma replay_effect_ids:
  assumes "replay_effect d P e"
  shows "ob_id ` set (outbox_messages e) = ob_id ` set (outbox_messages d)"
proof -
  have "map ob_id (outbox_messages e) = map ob_id (outbox_messages d)"
    using assms by (auto simp: replay_effect_def)
  then show ?thesis by (metis set_map)
qed

lemma replay_effect_skip:
  assumes "replay_effect d P e" "\<And>l. \<lbrakk>l \<in> set (outbox_dead_letters d); dl_id l = i\<rbrakk> \<Longrightarrow> \<not> replayable d l"
  shows "replay_effect d (insert i P) e"
proof -
  have "to_republish d (insert i P) = to_republish d P" using assms(2) by (auto simp: to_republish_def fun_eq_iff)
  moreover have "list_all2 (letter_marked d (insert i P)) (outbox_dead_letters d) ls"
    if "list_all2 (letter_marked d P) (outbox_dead_letters d) ls" for ls
    using that by (rule list.rel_mono_strong) (use assms(2) in \<open>auto simp: letter_marked_def split: if_splits\<close>)
  ultimately show ?thesis using assms(1) by (auto simp: replay_effect_def)
qed

lemma replay_effect_write:
  assumes e: "replay_effect d P e" and uk: "unique_key dl_id (outbox_dead_letters d)"
    and l: "l \<in> set (outbox_dead_letters d)" "replayable d l"
  shows "replay_effect d (insert (dl_id l) P) (upd_dead_letter (dl_id l) (\<lambda>l. l\<lparr>dl_replayed_at := Some now\<rparr>)
    (upd_message (dl_outbox_message_id l) reset_message e))"
proof -
  have one: "q = l" if "q \<in> set (outbox_dead_letters d)" "dl_id q = dl_id l" for q
    using arg_cong [OF unique_key_filter [OF uk l(1)], of set] that by auto
  obtain ls where ls: "e = d\<lparr>outbox_messages := map (\<lambda>m. if to_republish d P m then reset_message m else m)
      (outbox_messages d), outbox_dead_letters := ls\<rparr>" "list_all2 (letter_marked d P) (outbox_dead_letters d) ls"
    using e by (auto simp: replay_effect_def)
  have "to_republish d (insert (dl_id l) P) m \<longleftrightarrow> to_republish d P m \<or> ob_id m = dl_outbox_message_id l" for m
    using l one unfolding to_republish_def by (metis insert_iff)
  then have ms: "update_rows (\<lambda>m. ob_id m = dl_outbox_message_id l) reset_message (outbox_messages e) =
      map (\<lambda>m. if to_republish d (insert (dl_id l) P) m then reset_message m else m) (outbox_messages d)"
    by (simp add: ls(1) update_rows_def)
  have "list_all2 (letter_marked d (insert (dl_id l) P)) (outbox_dead_letters d)
      (update_rows (\<lambda>q. dl_id q = dl_id l) (\<lambda>l. l\<lparr>dl_replayed_at := Some now\<rparr>) ls)"
    unfolding update_rows_def list.rel_map(2)
    using ls(2)
  proof (rule list.rel_mono_strong)
    fix q q' assume q: "q \<in> set (outbox_dead_letters d)" "letter_marked d P q q'"
    show "letter_marked d (insert (dl_id l) P) q
        (if dl_id q' = dl_id l then q'\<lparr>dl_replayed_at := Some now\<rparr> else q')"
    proof (cases "dl_id q = dl_id l")
      case True
      with one [OF q(1)] l(2) q(2) show ?thesis by (auto simp: letter_marked_def split: if_splits)
    next
      case False
      with letter_marked_id [OF q(2)] q(2) show ?thesis by (auto simp: letter_marked_def split: if_splits)
    qed
  qed
  with ms show ?thesis unfolding replay_effect_def upd_dead_letter_def upd_message_def
    by (intro exI conjI) (simp_all add: ls(1))
qed

lemma replay_step_run:
  assumes nf: "\<not> tx_failed s" and uk: "unique_key dl_id (outbox_dead_letters d)" and e: "replay_effect d P (db s)"
    and rows: "rows = filter (\<lambda>l. dl_id l \<in> set ids) (outbox_dead_letters d)" and i: "i \<in> set ids"
  shows "\<exists>r t. replay_step False rows i res s = (Inr (res @ [r]), t) \<and> \<not> tx_failed t \<and>
    replay_effect d (insert i P) (db t) \<and> rr_dlq_id r = i \<and>
    (rr_status r = replayed \<longleftrightarrow> (\<exists>l \<in> set (outbox_dead_letters d). dl_id l = i \<and> replayable d l))"
proof -
  have fl: "filter (\<lambda>l. dl_id l = i) rows = filter (\<lambda>l. dl_id l = i) (outbox_dead_letters d)"
    using i by (auto simp: rows intro: filter_cong)
  show ?thesis
  proof (cases "first_row (filter (\<lambda>l. dl_id l = i) rows)")
    case None
    then have no: "\<forall>l \<in> set (outbox_dead_letters d). dl_id l \<noteq> i"
      by (simp add: fl first_row_None filter_empty_conv)
    then have "replay_effect d (insert i P) (db s)" using e by (intro replay_effect_skip) auto
    with None nf no show ?thesis by (simp add: replay_step_def)
  next
    case (Some l)
    then have l: "l \<in> set (outbox_dead_letters d)" "dl_id l = i" unfolding fl by (auto dest!: first_row_in)
    have one: "q = l" if "q \<in> set (outbox_dead_letters d)" "dl_id q = i" for q
      using arg_cong [OF unique_key_filter [OF uk l(1)], of set] l(2) that by auto
    have only: "(\<exists>q \<in> set (outbox_dead_letters d). dl_id q = i \<and> replayable d q) \<longleftrightarrow> replayable d l"
      using one l by blast
    have skip: "replay_effect d (insert i P) (db s)" if "\<not> replayable d l"
      using e that one by (intro replay_effect_skip) blast+
    show ?thesis
    proof (cases "dl_replayed_at l")
      case r: (Some t)
      then have "\<not> replayable d l" by (simp add: replayable_def)
      with Some r nf skip show ?thesis unfolding only by (simp add: replay_step_def)
    next
      case nr: None
      show ?thesis
      proof (cases "first_row (filter (\<lambda>m. ob_id m = dl_outbox_message_id l) (outbox_messages (db s)))")
        case nm: None
        then have "\<not> replayable d l"
          unfolding replayable_def replay_effect_ids [OF e, symmetric]
          by (auto simp: first_row_None filter_empty_conv)
        with Some nr nm nf skip show ?thesis unfolding only by (simp add: replay_step_def)
      next
        case m: (Some m)
        then have mm: "m \<in> set (outbox_messages (db s))" "ob_id m = dl_outbox_message_id l"
          by (auto dest!: first_row_in)
        then have rl: "replayable d l"
          using nr unfolding replayable_def replay_effect_ids [OF e, symmetric] by (metis imageI)
        let ?now = "clock s (clock_pos s)"
        let ?d = "upd_dead_letter i (\<lambda>l. l\<lparr>dl_replayed_at := Some ?now\<rparr>) (upd_message (ob_id m) reset_message (db s))"
        have "replay_effect d (insert i P) ?d"
          using replay_effect_write [OF e uk l(1) rl] l(2) mm(2) by simp
        moreover have "replay_step False rows i res s = (Inr (res @ [\<lparr>rr_dlq_id = i, rr_status = replayed,
            rr_outbox_message_id = Some (ob_id m), rr_event_type = Some (dl_event_type l),
            rr_replayed_at = Some (iso_z ?now)\<rparr>]), s\<lparr>clock_pos := Suc (clock_pos s), db := ?d\<rparr>)"
          using Some nr m nf by (simp add: replay_step_def reset_message_def [abs_def])
        ultimately show ?thesis using nf rl unfolding only by simp
      qed
    qed
  qed
qed

lemma replay_steps_run:
  assumes "\<not> tx_failed s" "unique_key dl_id (outbox_dead_letters d)" "replay_effect d P (db s)"
    "rows = filter (\<lambda>l. dl_id l \<in> set ids) (outbox_dead_letters d)" "set js \<subseteq> set ids"
  shows "\<exists>rs t. foldE (replay_step False rows) js res s = (Inr (res @ rs), t) \<and> \<not> tx_failed t \<and>
    replay_effect d (P \<union> set js) (db t) \<and> map rr_dlq_id rs = js \<and>
    (\<forall>r \<in> set rs. rr_status r = replayed \<longleftrightarrow>
       (\<exists>l \<in> set (outbox_dead_letters d). dl_id l = rr_dlq_id r \<and> replayable d l))"
  using assms
proof (induction js arbitrary: s res P)
  case Nil
  then show ?case by simp
next
  case (Cons i js)
  from replay_step_run [OF Cons.prems(1-4), of i res] Cons.prems(5) obtain r u where
    u: "replay_step False rows i res s = (Inr (res @ [r]), u)" "\<not> tx_failed u" "replay_effect d (insert i P) (db u)"
    "rr_dlq_id r = i"
    "rr_status r = replayed \<longleftrightarrow> (\<exists>l \<in> set (outbox_dead_letters d). dl_id l = i \<and> replayable d l)" by auto
  from Cons.IH [OF u(2) Cons.prems(2) u(3) Cons.prems(4), of "res @ [r]"] Cons.prems(5) obtain rs t where
    t: "foldE (replay_step False rows) js (res @ [r]) u = (Inr (res @ r # rs), t)" "\<not> tx_failed t"
    "replay_effect d (insert i P \<union> set js) (db t)" "map rr_dlq_id rs = js"
    "\<forall>r \<in> set rs. rr_status r = replayed \<longleftrightarrow>
       (\<exists>l \<in> set (outbox_dead_letters d). dl_id l = rr_dlq_id r \<and> replayable d l)" by auto
  from u t show ?case by (intro exI [of _ "r # rs"] exI [of _ t]) simp
qed

lemma list_all2_in_set2: "list_all2 P xs ys \<Longrightarrow> y \<in> set ys \<Longrightarrow> \<exists>x \<in> set xs. P x y"
  by (induction rule: list_all2_induct) auto

lemma replay_effect_settled:
  assumes "replay_effect d P e" "i \<in> P"
  shows "settled e i"
  unfolding settled_def
proof (intro ballI impI)
  fix l' assume l': "l' \<in> set (outbox_dead_letters e)" "dl_id l' = i"
  from assms(1) have "list_all2 (letter_marked d P) (outbox_dead_letters d) (outbox_dead_letters e)"
    by (auto simp: replay_effect_def)
  from list_all2_in_set2 [OF this l'(1)] obtain l where l: "letter_marked d P l l'" by blast
  then show "dl_replayed_at l' \<noteq> None \<or> dl_outbox_message_id l' \<notin> ob_id ` set (outbox_messages e)"
    using letter_marked_id [OF l] l'(2) assms(2) unfolding replay_effect_ids [OF assms(1)]
    by (auto simp: letter_marked_def replayable_def split: if_splits)
qed

lemma settled_step:
  assumes nf: "\<not> tx_failed s" and st: "settled (db s) i" and rows: "set rows \<subseteq> set (outbox_dead_letters (db s))"
  shows "\<exists>r. replay_step dry rows i res s = (Inr (res @ [r]), s) \<and> rr_status r \<noteq> replayed"
proof (cases "first_row (filter (\<lambda>l. dl_id l = i) rows)")
  case None
  then show ?thesis by (simp add: replay_step_def)
next
  case (Some l)
  then have l: "l \<in> set (outbox_dead_letters (db s))" "dl_id l = i" using rows by (auto dest!: first_row_in)
  show ?thesis
  proof (cases "dl_replayed_at l")
    case None
    then have "dl_outbox_message_id l \<notin> ob_id ` set (outbox_messages (db s))" using st l by (auto simp: settled_def)
    then have "first_row (filter (\<lambda>m. ob_id m = dl_outbox_message_id l) (outbox_messages (db s))) = None"
      unfolding first_row_None filter_empty_conv by (metis imageI)
    with Some None nf show ?thesis by (simp add: replay_step_def)
  qed (use Some in \<open>simp add: replay_step_def\<close>)
qed

lemma settled_steps:
  assumes "\<not> tx_failed s" "\<forall>i \<in> set js. settled (db s) i" "set rows \<subseteq> set (outbox_dead_letters (db s))"
    "\<forall>r \<in> set res. rr_status r \<noteq> replayed"
  shows "\<exists>res'. foldE (replay_step dry rows) js res s = (Inr res', s) \<and> (\<forall>r \<in> set res'. rr_status r \<noteq> replayed)"
  using assms
proof (induction js arbitrary: res)
  case (Cons i js)
  from settled_step [OF Cons.prems(1) _ Cons.prems(3), of i dry res] Cons.prems(2) obtain r where
    r: "replay_step dry rows i res s = (Inr (res @ [r]), s)" "rr_status r \<noteq> replayed" by auto
  with Cons.IH [of "res @ [r]"] Cons.prems show ?case by auto
qed simp

text \<open>
  C35: Replaying dead letters. On a usable session, a replay of a list of ids handles each id once, in
  the order of first occurrence, and reports an id as replayed exactly if a dead letter has it that
  was not replayed before and whose row is still in the outbox. All of these letters and no others
  are marked with a time, and exactly their rows become publishable again: unpublished, with no
  attempt counted and no error. Every other row of the database stays, the result is committed and
  nothing is sent. Replaying the same ids again changes no row and reports none as replayed.
\<close>

theorem replay_dead_letters_idempotent:
  assumes nf: "\<not> tx_failed (relay_session a)" and uk: "unique_key dl_id (outbox_dead_letters (relay_db a))"
  shows "\<exists>res b ls res' c. replay_dead_letters ids False a = (Inr res, b) \<and> topic_log b = topic_log a \<and>
    map rr_dlq_id res = rev (remdups (rev ids)) \<and>
    (\<forall>r \<in> set res. rr_status r = replayed \<longleftrightarrow> (\<exists>l \<in> set (outbox_dead_letters (relay_db a)).
       dl_id l = rr_dlq_id r \<and> dl_replayed_at l = None \<and>
       dl_outbox_message_id l \<in> ob_id ` set (outbox_messages (relay_db a)))) \<and>
    relay_db b = (relay_db a)\<lparr>outbox_messages :=
        map (\<lambda>m. if \<exists>l \<in> set (outbox_dead_letters (relay_db a)). dl_id l \<in> set ids \<and> dl_replayed_at l = None \<and>
            dl_outbox_message_id l = ob_id m
          then m\<lparr>ob_published_at := None, publish_attempts := 0, ob_last_error := None\<rparr> else m)
        (outbox_messages (relay_db a)), outbox_dead_letters := ls\<rparr> \<and>
    list_all2 (\<lambda>l l'. if dl_id l \<in> set ids \<and> dl_replayed_at l = None \<and>
        dl_outbox_message_id l \<in> ob_id ` set (outbox_messages (relay_db a))
      then \<exists>t. l' = l\<lparr>dl_replayed_at := Some t\<rparr> else l' = l) (outbox_dead_letters (relay_db a)) ls \<and>
    (ids \<noteq> [] \<longrightarrow> committed (relay_session b) = relay_db b) \<and>
    replay_dead_letters ids False b = (Inr res', c) \<and> relay_db c = relay_db b \<and> (\<forall>r \<in> set res'. rr_status r \<noteq> replayed)"
proof (cases "ids = []")
  case True
  have "list_all2 (\<lambda>l l'. l' = l) ls ls" for ls :: "outbox_dead_letter list" by (simp add: list.rel_refl)
  with True show ?thesis by (intro exI [of _ "[]"] exI [of _ a] exI [of _ "outbox_dead_letters (relay_db a)"])
    (simp add: replay_dead_letters_def)
next
  case ids: False
  let ?ids = "rev (remdups (rev ids))" and ?d = "relay_db a"
  let ?rows = "\<lambda>d. filter (\<lambda>l. dl_id l \<in> set ?ids) (outbox_dead_letters d)"
  have replay: "replay_dead_letters ids False x = (Inr res, x\<lparr>relay_session := t\<lparr>committed := db t, tx_now := clock t (clock_pos t)\<rparr>\<rparr>)"
    if "\<not> tx_failed (relay_session x)" "foldE (replay_step False (?rows (relay_db x))) ?ids [] (relay_session x) = (Inr res, t)" "\<not> tx_failed t"
    for x res t
    using that ids by (simp add: replay_dead_letters_def Let_def transaction_def)
  from replay_steps_run [OF nf uk replay_effect_start refl subset_refl, of ?ids "[]"] obtain res t where
    t: "foldE (replay_step False (?rows ?d)) ?ids [] (relay_session a) = (Inr res, t)" "\<not> tx_failed t"
    "replay_effect ?d (set ids) (db t)" "map rr_dlq_id res = ?ids"
    "\<forall>r \<in> set res. rr_status r = replayed \<longleftrightarrow> (\<exists>l \<in> set (outbox_dead_letters ?d). dl_id l = rr_dlq_id r \<and> replayable ?d l)"
    by auto
  let ?t = "t\<lparr>committed := db t, tx_now := clock t (clock_pos t)\<rparr>"
  let ?b = "a\<lparr>relay_session := ?t\<rparr>"
  have "\<exists>res'. foldE (replay_step False (?rows (relay_db ?b))) ?ids [] ?t = (Inr res', ?t) \<and> (\<forall>r \<in> set res'. rr_status r \<noteq> replayed)"
    using t(2) replay_effect_settled [OF t(3)] by (intro settled_steps) auto
  then obtain res' where
    u: "foldE (replay_step False (?rows (relay_db ?b))) ?ids [] ?t = (Inr res', ?t)" "\<forall>r \<in> set res'. rr_status r \<noteq> replayed" by blast
  let ?c = "?b\<lparr>relay_session := ?t\<lparr>committed := db ?t, tx_now := clock ?t (clock_pos ?t)\<rparr>\<rparr>"
  have run: "replay_dead_letters ids False a = (Inr res, ?b)" "replay_dead_letters ids False ?b = (Inr res', ?c)"
    using replay [OF nf t(1,2)] replay [of ?b res' ?t] u(1) t(2) by simp_all
  obtain ls where ls: "db t = ?d\<lparr>outbox_messages := map (\<lambda>m. if to_republish ?d (set ids) m then reset_message m else m)
      (outbox_messages ?d), outbox_dead_letters := ls\<rparr>"
    "list_all2 (letter_marked ?d (set ids)) (outbox_dead_letters ?d) ls"
    using t(3) by (auto simp: replay_effect_def)
  have ms: "map (\<lambda>m. if to_republish ?d (set ids) m then reset_message m else m) (outbox_messages ?d) =
      map (\<lambda>m. if \<exists>l \<in> set (outbox_dead_letters ?d). dl_id l \<in> set ids \<and> dl_replayed_at l = None \<and>
          dl_outbox_message_id l = ob_id m
        then m\<lparr>ob_published_at := None, publish_attempts := 0, ob_last_error := None\<rparr> else m) (outbox_messages ?d)"
    by (rule map_cong) (auto simp: to_republish_def replayable_def reset_message_def)
  show ?thesis
    by (intro exI [of _ res] exI [of _ ?b] exI [of _ ls] exI [of _ res'] exI [of _ ?c] conjI)
      (use run t(4,5) u(2) ls ms in \<open>simp_all add: replayable_def letter_marked_def [abs_def]\<close>)
qed

section \<open>Instances\<close>

text \<open>A relay with one row to publish, for the sample organization.\<close>

definition sample_message :: outbox_message where
  "sample_message =
     \<lparr>ob_id = 1, ob_aggregate_type = ''ledger'', ob_aggregate_id = ''e1'', ob_event_type = ''ledger.entry_posted'',
      ob_payload = [], ob_idempotency_key = Some ''k1'', ob_partition_key = ''1'', ob_created_at = 0,
      ob_published_at = None, publish_attempts = 0, ob_last_error = None\<rparr>"

definition sample_relay :: relay where
  "sample_relay = \<lparr>relay_session = sample_session\<lparr>db := sample_db\<lparr>outbox_messages := [sample_message]\<rparr>\<rparr>,
     topic_log = [], send_no = 0\<rparr>"

definition flaky_broker :: broker where
  "flaky_broker n k = (if n = 0 then Unacknowledged ''timeout'' else if n = 1 then Refused ''down'' else Delivered)"

lemma sample_relay_simps [simp]:
  "outbox_messages (relay_db sample_relay) = [sample_message]" "outbox_dead_letters (relay_db sample_relay) = []"
  "organizations (relay_db sample_relay) = [sample_org]" "topic_log sample_relay = []"
  "settings (relay_session sample_relay) = default_settings" "tx_failed (relay_session sample_relay) = False"
  by (simp_all add: sample_relay_def) (simp add: sample_db_def)

lemma sample_relay_ok: "relay_ok sample_relay"
  by (simp add: relay_ok_def relaying_def unique_by_def List.map_filter_simps keys_parse_def key_isdigit_def isdigit_def
      sample_message_def)

lemma sample_accounted: "accounted (topic_log sample_relay) (relay_db sample_relay)"
  by (simp add: accounted_def sample_message_def)

theorem relay_loses_nothing_witness:
  "\<exists>b. b = relay_loop flaky_broker (\<lambda>_. False) 3 sample_relay \<and>
     (\<forall>m \<in> set (outbox_messages (relay_db b)). ob_published_at m \<noteq> None \<longrightarrow>
        str_int (ob_id m) \<in> rec_key ` set (topic_log b) \<or>
        ob_id m \<in> dl_outbox_message_id ` set (outbox_dead_letters (relay_db b)))"
  using relay_loses_nothing [OF sample_relay_ok sample_accounted refl, of flaky_broker "\<lambda>_. False" 3] by blast

theorem relay_terminates_witness:
  "list_all (\<lambda>m. if ob_published_at m = None then 10 \<le> publish_attempts m else True)
     (outbox_messages (relay_db (relay_loop flaky_broker (\<lambda>_. False) 10 sample_relay)))"
proof -
  have b: "backlog 10 (relay_db sample_relay) = 10" by (simp add: backlog_def remaining_def sample_message_def)
  have "0 < outbox_batch_size (settings (relay_session sample_relay))" by (simp add: default_settings_def)
  from relay_terminates [OF sample_relay_ok sample_accounted this refl, of flaky_broker] b
  show ?thesis by (auto simp: default_settings_def list_all_iff)
qed

theorem poll_publishes_batch_witness:
  "\<exists>b k. poll_and_publish (\<lambda>_ _. Delivered) (\<lambda>_. False) (Some 5) sample_relay = (Inr 1, b) \<and> topic_log b = [k] \<and>
     row_record (relay_db sample_relay) sample_message k"
proof -
  have rows: "claim_batch (\<lambda>_. False) 5 10 (relay_db sample_relay) = [sample_message]"
    by (simp add: claim_batch_def claimable_def order_by_def sample_message_def)
  have "unique_key org_id (organizations (relay_db sample_relay))" by (simp add: unique_by_def List.map_filter_simps)
  moreover have "ob_partition_key sample_message = str_int (org_id sample_org)"
    by (simp add: sample_message_def) code_simp
  ultimately show ?thesis
    using poll_publishes_batch [OF sample_relay_ok _ refl, of "\<lambda>_. False" 5 "\<lambda>_ _. Delivered"] rows
    by (auto simp: default_settings_def list_all2_Cons1)
qed

definition dead_relay :: relay where
  "dead_relay = sample_relay\<lparr>relay_session := sample_session\<lparr>db := sample_db\<lparr>
     outbox_messages := [sample_message\<lparr>ob_published_at := Some 5, publish_attempts := 10\<rparr>],
     outbox_dead_letters := [\<lparr>dl_id = 7, dl_outbox_message_id = 1, dl_aggregate_type = ''ledger'', dl_aggregate_id = ''e1'',
       dl_event_type = ''ledger.entry_posted'', dl_payload = [], dl_partition_key = ''1'', dl_publish_attempts = 10,
       dl_last_error = Some ''down'', dl_moved_at = 5, dl_replayed_at = None\<rparr>]\<rparr>\<rparr>\<rparr>"

theorem replay_dead_letters_idempotent_witness:
  "\<exists>res b. replay_dead_letters [7, 9, 7] False dead_relay = (Inr res, b) \<and> map rr_dlq_id res = [7, 9] \<and>
     map (\<lambda>r. rr_status r = replayed) res = [True, False] \<and>
     outbox_messages (relay_db b) = [sample_message] \<and>
     map (\<lambda>l. dl_replayed_at l = None) (outbox_dead_letters (relay_db b)) = [False] \<and>
     relay_db (snd (replay_dead_letters [7, 9, 7] False b)) = relay_db b"
proof -
  have a: "\<not> tx_failed (relay_session dead_relay)" "unique_key dl_id (outbox_dead_letters (relay_db dead_relay))"
    by (simp_all add: dead_relay_def unique_by_def List.map_filter_simps)
  have d: "outbox_messages (relay_db dead_relay) = [sample_message\<lparr>ob_published_at := Some 5, publish_attempts := 10\<rparr>]"
    "map dl_id (outbox_dead_letters (relay_db dead_relay)) = [7]"
    by (simp_all add: dead_relay_def)
  from d(2) obtain l where l: "outbox_dead_letters (relay_db dead_relay) = [l]" by auto
  then have r: "dl_id l = 7" "dl_replayed_at l = None" "dl_outbox_message_id l = 1" by (auto simp: dead_relay_def)
  have m: "sample_message\<lparr>ob_published_at := None, publish_attempts := 0, ob_last_error := None\<rparr> = sample_message"
    "ob_id sample_message = 1" by (simp_all add: sample_message_def)
  from replay_dead_letters_idempotent [OF a, of "[7, 9, 7]"] show ?thesis
    by (elim exE conjE, intro exI conjI) (auto simp: d(1) l r m list_all2_Cons1 map_eq_Cons_conv)
qed

end
