(* ===== verification/Workers.thy ===== *)
theory Workers
  imports Routes Relay
begin

text \<open>
  The Celery tasks (\<^verbatim>\<open>workers/tasks\<close>): each opens a session, calls one service, commits, and returns a
  small dictionary. The tasks are declared with \<^verbatim>\<open>autoretry_for=(Exception,)\<close>: an attempt that raises is
  run again later by the broker, in a session of its own, so here a task is one attempt. Arguments in
  ISO notation are given parsed. The daily reconciliation task is in theory \<open>Reconciliation\<close>.
\<close>

text \<open>A parsed argument without a zone is taken as UTC; a missing one is the current time.\<close>

fun assume_utc :: "pydatetime \<Rightarrow> pydatetime" where
  "assume_utc (Naive w) = Aware w 0"
| "assume_utc (Aware w off) = Aware w off"

definition parsed_now :: "pydatetime option \<Rightarrow> pydatetime op" where
  "parsed_now now =
     (case now of Some t \<Rightarrow> returnE (assume_utc t) | None \<Rightarrow> bindE now_utc (\<lambda>t. returnE (Aware t 0)))"

definition run_aggregate_hourly :: "int \<Rightarrow> string \<Rightarrow> pydatetime \<Rightarrow> json_object op" where
  "run_aggregate_hourly oi k start =
     bindE (aggregate_hour oi k start) (\<lambda>a.
     thenE commit (returnE
       [(''aggregate_id'', JInt (ua_id a)), (''public_id'', JStr (uuid_str (ua_public_id a))),
        (''quantity'', JStr (decimal_str (ua_quantity a)))]))"

definition aggregate_hourly :: "int \<Rightarrow> string \<Rightarrow> pydatetime \<Rightarrow> json_object op" where
  "aggregate_hourly oi k start = run_aggregate_hourly oi k (assume_utc start)"

text \<open>The sweep looks back 48 hours, the default of the service.\<close>

definition run_aggregate_hourly_sweep :: "pydatetime \<Rightarrow> json_object op" where
  "run_aggregate_hourly_sweep now =
     bindE (aggregate_pending_hours 48 (Some now)) (\<lambda>n. thenE commit (returnE [(''processed'', JInt n)]))"

definition aggregate_hourly_sweep :: "pydatetime option \<Rightarrow> json_object op" where
  "aggregate_hourly_sweep now = bindE (parsed_now now) run_aggregate_hourly_sweep"

definition run_process_due_attempts :: "payment_retry \<Rightarrow> (uuid \<Rightarrow> bool) \<Rightarrow> pydatetime \<Rightarrow> json_object op" where
  "run_process_due_attempts provider skip now =
     bindE (process_due_attempts provider skip (astimezone_utc now)) (\<lambda>n.
     thenE commit (returnE [(''processed'', JInt (int n))]))"

definition process_due_attempts_task :: "payment_retry \<Rightarrow> (uuid \<Rightarrow> bool) \<Rightarrow> pydatetime option \<Rightarrow> json_object op" where
  "process_due_attempts_task provider skip now = bindE (parsed_now now) (run_process_due_attempts provider skip)"

text \<open>\<open>iterate\<close> is the order in which Python runs through the set of organizations.\<close>

definition run_enforce_grace_expiry ::
  "(int set \<Rightarrow> int list) \<Rightarrow> (int \<Rightarrow> bool) \<Rightarrow> pydatetime \<Rightarrow> json_object app_op" where
  "run_enforce_grace_expiry iterate skip now =
     bindE (on_session (bindE (enforce_grace_expiry skip now) (\<lambda>r. thenE commit (returnE r)))) (\<lambda>(n, orgs).
     thenE (foldE (\<lambda>oi _. thenE (increment_entitlement_version oi) (returnE ())) (iterate orgs) ())
       (returnE [(''processed'', JInt (int n))]))"

definition enforce_grace_expiry_task ::
  "(int set \<Rightarrow> int list) \<Rightarrow> (int \<Rightarrow> bool) \<Rightarrow> pydatetime option \<Rightarrow> json_object app_op" where
  "enforce_grace_expiry_task iterate skip now =
     bindE (on_session (parsed_now now)) (run_enforce_grace_expiry iterate skip)"

definition run_sync :: "payment_provider \<Rightarrow> int \<Rightarrow> json_object op" where
  "run_sync provider i =
     bindE (sync_invoice_to_mock_stripe provider i) (\<lambda>x.
     thenE commit (returnE [(''external_invoice_id'', JStr x)]))"

definition sync_mock_stripe :: "payment_provider \<Rightarrow> int \<Rightarrow> json_object op" where
  "sync_mock_stripe provider i = run_sync provider i"

text \<open>The second component is the invoice handed to \<^verbatim>\<open>sync_mock_stripe.delay\<close> after the commit.\<close>

definition run_period_close :: "int \<Rightarrow> pydatetime \<Rightarrow> pydatetime \<Rightarrow> string \<Rightarrow> (json_object \<times> int) op" where
  "run_period_close oi start stop k =
     bindE (close_billing_period oi start stop k) (\<lambda>r.
     thenE commit (returnE
       ([(''invoice_id'', JInt (pcr_invoice_id r)), (''invoice_public_id'', JStr (uuid_str (pcr_invoice_public_id r))),
         (''total_amount_cents'', JInt (pcr_total_amount_cents r)),
         (''ledger_entry_public_id'',
            JStr (case pcr_ledger_entry_public_id r of None \<Rightarrow> [] | Some u \<Rightarrow> uuid_str u))],
        pcr_invoice_id r)))"

definition close_period :: "int \<Rightarrow> pydatetime \<Rightarrow> pydatetime \<Rightarrow> string \<Rightarrow> (json_object \<times> int) op" where
  "close_period oi start stop k = run_period_close oi (assume_utc start) (assume_utc stop) k"

definition run_create_partition :: "int option \<Rightarrow> int option \<Rightarrow> json_object op" where
  "run_create_partition year month =
     bindE (case (year, month) of
         (Some y, Some m) \<Rightarrow> bindE (ensure_usage_partition y m) (\<lambda>n. returnE [n])
       | _ \<Rightarrow> ensure_current_and_next_partitions) (\<lambda>names.
     thenE commit (returnE [(''partition_names'', JList (map JStr names))]))"

definition create_usage_partition_task :: "int option \<Rightarrow> int option \<Rightarrow> json_object op" where
  "create_usage_partition_task year month = run_create_partition year month"

end
