(* ===== verification/Gateway.thy ===== *)
theory Gateway
  imports Admin Workers
begin

text \<open>
  The platform as one server: the authenticated HTTP requests as data, their dispatch to the routes
  (\<^verbatim>\<open>api/v1\<close>, mounted by \<^verbatim>\<open>main.py\<close>), the checks they make, and the background work beside
  them. What lies outside the program is collected in an environment: the other clients of Redis, the
  replica, the payment provider, the broker, \<^verbatim>\<open>json.loads\<close>, rows locked by other transactions, and the
  iteration order of sets.
\<close>

record environment =
  env_others :: others
  env_replica :: replica
  env_registry :: "py_error + json_object list"
  env_provider :: payment_provider
  env_retry :: payment_retry
  env_broker :: broker
  env_json_loads :: "string \<Rightarrow> decoded"
  env_locked_row :: "int \<Rightarrow> bool"
  env_locked_attempt :: "uuid \<Rightarrow> bool"
  env_iterate :: "int set \<Rightarrow> int list"

section \<open>Requests and replies\<close>

datatype (plugins only: code size) api_request =
    Post_organization string string "string option" json_object string
  | Get_organization uuid
  | Patch_organization uuid "string option" "string option" "json_object option"
  | Post_api_key uuid string
  | Rotate_api_key uuid
  | Revoke_api_key uuid
  | Post_subscription uuid uuid json_object string
  | Get_subscription uuid
  | List_subscriptions uuid
  | Cancel_subscription uuid bool
  | Change_plan uuid uuid string string
  | Get_usage uuid
  | Post_usage uuid "usage_event_in list"
  | List_invoices uuid nat nat
  | Get_invoice uuid
  | List_ledger uuid nat nat
  | Get_ledger_entry uuid
  | Evaluate uuid "check list"
  | Invalidate uuid
  | Replay_webhook uuid
  | Post_product string string "string option" bool
  | Post_plan uuid string string "int option" int json_object json_object
  | Post_price uuid int string string "string option" "string option" bool
  | Post_feature string string "int option" "string option"
  | Put_plan_features uuid "plan_feature_input list"
  | Publish_plan uuid
  | Get_catalog
  | Trigger_reconciliation string
  | List_runs nat nat
  | List_discrepancies uuid nat nat
  | List_campaigns "uuid option" "uuid option" nat nat
  | Pause_campaign uuid
  | Resume_campaign uuid

datatype (plugins only: code size) reply =
    R_organization organization_response
  | R_updated
  | R_key api_key_issued_response
  | R_revoked api_key_revoked_response
  | R_subscription subscription_response
  | R_subscriptions "subscription_response list"
  | R_usage uuid "usage_period_aggregate list"
  | R_batch usage_batch_result
  | R_invoices "invoice_summary_response list"
  | R_invoice invoice_response
  | R_ledger "ledger_response list"
  | R_entry ledger_response
  | R_evaluation evaluate_response
  | R_version string int
  | R_status string
  | R_replay webhook_replay_result
  | R_product product
  | R_plan plan
  | R_price price
  | R_feature feature
  | R_plan_features "plan_feature list"
  | R_catalog catalog_snapshot
  | R_run run_response
  | R_runs "run_response list"
  | R_discrepancies "discrepancy_response list"
  | R_campaign campaign_response
  | R_campaigns "campaign_response list"
  | R_task json_object

definition respond :: "('a \<Rightarrow> reply) \<Rightarrow> 'a app_op \<Rightarrow> reply app_op" where
  "respond r m = bindE m (\<lambda>x. returnE (r x))"

text \<open>The route of each request, on the primary's session unless it reads from the replica.\<close>

primrec route :: "environment \<Rightarrow> auth_context \<Rightarrow> api_request \<Rightarrow> reply app_op" where
  "route env ctx (Post_organization name external email metadata idem) =
     respond R_organization (on_session (post_organization ctx name external email metadata idem))"
| "route env ctx (Get_organization u) = respond R_organization (on_session (get_organization_route ctx u))"
| "route env ctx (Patch_organization u name email metadata) =
     respond (\<lambda>_. R_updated) (on_session (patch_organization_route ctx u name email metadata))"
| "route env ctx (Post_api_key u role) = respond R_key (on_session (post_api_key ctx u role))"
| "route env ctx (Rotate_api_key kid) = respond R_key (post_rotate_api_key ctx kid)"
| "route env ctx (Revoke_api_key kid) = respond R_revoked (post_revoke_api_key ctx kid)"
| "route env ctx (Post_subscription u pid metadata idem) =
     respond R_subscription (on_session (post_subscription ctx u pid metadata idem))"
| "route env ctx (Get_subscription u) = respond R_subscription (on_session (get_subscription_route ctx u))"
| "route env ctx (List_subscriptions u) =
     respond R_subscriptions (on_session (list_organization_subscriptions ctx u))"
| "route env ctx (Cancel_subscription u at_end) =
     respond (\<lambda>_. R_updated) (on_session (post_cancel_subscription ctx u at_end))"
| "route env ctx (Change_plan u pid effective idem) = respond R_subscription (post_change_plan ctx u pid effective idem)"
| "route env ctx (Get_usage u) =
     respond (\<lambda>(v, rows). R_usage v rows) (on_read_session (env_replica env) (on_session (get_organization_usage ctx u)))"
| "route env ctx (Post_usage u events) = respond R_batch (on_session (post_usage_events_batch ctx u events))"
| "route env ctx (List_invoices u limit offset) =
     respond R_invoices (on_session (list_organization_invoices ctx u limit offset))"
| "route env ctx (Get_invoice u) = respond R_invoice (on_session (get_invoice_route ctx u))"
| "route env ctx (List_ledger u limit offset) =
     respond R_ledger (on_session (list_organization_ledger ctx u limit offset))"
| "route env ctx (Get_ledger_entry u) = respond R_entry (on_session (get_ledger_entry ctx u))"
| "route env ctx (Evaluate u checks) =
     respond R_evaluation (post_evaluate (env_others env) (env_replica env) ctx u checks)"
| "route env ctx (Invalidate u) = respond (\<lambda>(v, n). R_version v n) (post_invalidate ctx u)"
| "route env ctx (Replay_webhook u) = respond R_replay (replay_webhook_event ctx u)"
| "route env ctx (Post_product k name description is_active) =
     respond R_product (on_session (post_product ctx k name description is_active))"
| "route env ctx (Post_plan pr k interval trial grace dunning entitlement) =
     respond R_plan (on_session (post_plan ctx pr k interval trial grace dunning entitlement))"
| "route env ctx (Post_price pid amount currency model metered external is_active) =
     respond R_price (on_session (post_price ctx pid amount currency model metered external is_active))"
| "route env ctx (Post_feature k ft limit reset) = respond R_feature (on_session (post_feature ctx k ft limit reset))"
| "route env ctx (Put_plan_features pid items) =
     respond R_plan_features (on_session (put_plan_features ctx pid items))"
| "route env ctx (Publish_plan pid) = respond R_plan (on_session (post_publish_plan ctx pid))"
| "route env ctx Get_catalog = respond R_catalog (on_session (get_snapshot ctx))"
| "route env ctx (Trigger_reconciliation idem) =
     respond R_run (on_session (trigger_reconciliation_run (env_registry env) ctx idem))"
| "route env ctx (List_runs limit offset) = respond R_runs (on_session (list_reconciliation_runs ctx limit offset))"
| "route env ctx (List_discrepancies u limit offset) =
     respond R_discrepancies (on_session (list_run_discrepancies ctx u limit offset))"
| "route env ctx (List_campaigns fo fs limit offset) =
     respond R_campaigns (on_session (list_dunning_campaigns ctx fo fs limit offset))"
| "route env ctx (Pause_campaign u) = respond R_campaign (on_session (pause_dunning_campaign ctx u))"
| "route env ctx (Resume_campaign u) = respond R_campaign (on_session (resume_dunning_campaign ctx u))"

section \<open>The checks the routes make\<close>

text \<open>
  The checks on roles and tenants that the routes make, request by request, as one predicate on the
  rows: a device for the proofs of theory \<open>Policy\<close>, which states what must be refused on its own and
  compares the checks with the table of roles of the specification.
\<close>

definition sole :: "'r list \<Rightarrow> 'r option" where
  "sole rows = (case rows of [r] \<Rightarrow> Some r | _ \<Rightarrow> None)"

definition organization_named :: "uuid \<Rightarrow> database \<Rightarrow> int option" where
  "organization_named u d =
     map_option org_id (sole (filter (\<lambda>g. org_public_id g = u \<and> org_deleted_at g = None) (organizations d)))"

definition owner_row :: "int option \<Rightarrow> database \<Rightarrow> int option" where
  "owner_row oi d =
     (case oi of None \<Rightarrow> None | Some i \<Rightarrow> map_option org_id (sole (filter (\<lambda>g. org_id g = i) (organizations d))))"

definition subscription_owner :: "uuid \<Rightarrow> database \<Rightarrow> int option" where
  "subscription_owner u d =
     owner_row (map_option sub_organization_id (sole (filter (\<lambda>r. sub_public_id r = u) (subscriptions d)))) d"

definition invoice_owner :: "uuid \<Rightarrow> database \<Rightarrow> int option" where
  "invoice_owner u d =
     owner_row (map_option inv_organization_id (sole (filter (\<lambda>v. inv_public_id v = u) (invoices d)))) d"

definition entry_owner :: "uuid \<Rightarrow> database \<Rightarrow> int option" where
  "entry_owner u d =
     owner_row (map_option le_organization_id (sole (filter (\<lambda>e. le_public_id e = u) (ledger_entries d)))) d"

definition campaign_owner :: "uuid \<Rightarrow> database \<Rightarrow> int option" where
  "campaign_owner u d =
     owner_row (map_option camp_organization_id (sole (filter (\<lambda>c. camp_id c = u) (dunning_campaigns d)))) d"

definition active_key :: "uuid \<Rightarrow> database \<Rightarrow> api_key option" where
  "active_key kid d =
     (case sole (filter (\<lambda>k. key_id k = kid) (api_keys d)) of None \<Rightarrow> None
      | Some k \<Rightarrow> if key_revoked_at k = None then Some k else None)"

definition is_admin :: "auth_context \<Rightarrow> bool" where
  "is_admin ctx \<longleftrightarrow> auth_role ctx = PLATFORM_ADMIN"

definition handles_dunning :: "auth_context \<Rightarrow> bool" where
  "handles_dunning ctx \<longleftrightarrow> auth_role ctx \<in> {PLATFORM_ADMIN, DUNNING_OPERATOR}"

text \<open>For a row that does not exist there is nothing to protect.\<close>

definition tenant_ok :: "auth_context \<Rightarrow> int option \<Rightarrow> bool" where
  "tenant_ok ctx owner = (case owner of None \<Rightarrow> True | Some oi \<Rightarrow> may_access ctx oi)"

definition ledger_ok :: "auth_context \<Rightarrow> int option \<Rightarrow> bool" where
  "ledger_ok ctx owner \<longleftrightarrow> auth_role ctx = REVOPS_READ \<or> tenant_ok ctx owner"

definition own_organization :: "auth_context \<Rightarrow> api_key \<Rightarrow> bool" where
  "own_organization ctx k \<longleftrightarrow> key_organization_id k \<noteq> None \<and> key_organization_id k = auth_organization_id ctx"

definition may_rotate :: "auth_context \<Rightarrow> api_key \<Rightarrow> bool" where
  "may_rotate ctx k \<longleftrightarrow> is_admin ctx \<or> own_organization ctx k \<and> auth_api_key_id ctx = key_id k"

definition may_revoke :: "auth_context \<Rightarrow> api_key \<Rightarrow> bool" where
  "may_revoke ctx k \<longleftrightarrow> is_admin ctx \<or> own_organization ctx k \<and>
     (auth_api_key_id ctx = key_id k \<or> auth_role ctx \<notin> set READ_ONLY_ROLES \<and> auth_role ctx = key_role k)"

primrec permitted :: "auth_context \<Rightarrow> api_request \<Rightarrow> database \<Rightarrow> bool" where
  "permitted ctx (Get_organization u) d = tenant_ok ctx (organization_named u d)"
| "permitted ctx (Patch_organization u x1 x2 x3) d = (organization_named u d = None \<or> is_admin ctx)"
| "permitted ctx (Rotate_api_key kid) d = (case active_key kid d of None \<Rightarrow> True | Some k \<Rightarrow> may_rotate ctx k)"
| "permitted ctx (Revoke_api_key kid) d = (case active_key kid d of None \<Rightarrow> True | Some k \<Rightarrow> may_revoke ctx k)"
| "permitted ctx (Post_subscription u x1 x2 x3) d = tenant_ok ctx (organization_named u d)"
| "permitted ctx (Get_subscription u) d = tenant_ok ctx (subscription_owner u d)"
| "permitted ctx (List_subscriptions u) d = tenant_ok ctx (organization_named u d)"
| "permitted ctx (Cancel_subscription u x1) d = tenant_ok ctx (subscription_owner u d)"
| "permitted ctx (Change_plan u x1 x2 x3) d = tenant_ok ctx (subscription_owner u d)"
| "permitted ctx (Get_usage u) d = tenant_ok ctx (organization_named u d)"
| "permitted ctx (Post_usage u events) d =
     (auth_role ctx \<in> {''product_service'', PLATFORM_ADMIN} \<and>
      (length events > MAX_BATCH_SIZE \<or> tenant_ok ctx (organization_named u d)))"
| "permitted ctx (List_invoices u x1 x2) d = tenant_ok ctx (organization_named u d)"
| "permitted ctx (Get_invoice u) d = tenant_ok ctx (invoice_owner u d)"
| "permitted ctx (List_ledger u x1 x2) d = ledger_ok ctx (organization_named u d)"
| "permitted ctx (Get_ledger_entry u) d = ledger_ok ctx (entry_owner u d)"
| "permitted ctx (Evaluate u x1) d = tenant_ok ctx (organization_named u d)"
| "permitted ctx (List_campaigns fo fs x1 x2) d =
     (handles_dunning ctx \<and>
      (case fo of None \<Rightarrow> True | Some u \<Rightarrow> tenant_ok ctx (organization_named u d)) \<and>
      (case fs of None \<Rightarrow> True | Some u \<Rightarrow>
         (case fo of None \<Rightarrow> False | Some v \<Rightarrow> organization_named v d = None) \<or> tenant_ok ctx (subscription_owner u d)))"
| "permitted ctx (Pause_campaign u) d = (handles_dunning ctx \<and> tenant_ok ctx (campaign_owner u d))"
| "permitted ctx (Resume_campaign u) d = (handles_dunning ctx \<and> tenant_ok ctx (campaign_owner u d))"
| "permitted ctx (Post_organization name external email metadata idem) d = is_admin ctx"
| "permitted ctx (Post_api_key u role) d = is_admin ctx"
| "permitted ctx (Invalidate u) d = is_admin ctx"
| "permitted ctx (Replay_webhook u) d = is_admin ctx"
| "permitted ctx (Post_product k name description is_active) d = is_admin ctx"
| "permitted ctx (Post_plan pr k interval trial grace dunning entitlement) d = is_admin ctx"
| "permitted ctx (Post_price pid amount currency model metered external is_active) d = is_admin ctx"
| "permitted ctx (Post_feature k ft limit reset) d = is_admin ctx"
| "permitted ctx (Put_plan_features pid items) d = is_admin ctx"
| "permitted ctx (Publish_plan pid) d = is_admin ctx"
| "permitted ctx Get_catalog d = is_admin ctx"
| "permitted ctx (Trigger_reconciliation idem) d = is_admin ctx"
| "permitted ctx (List_runs limit offset) d = is_admin ctx"
| "permitted ctx (List_discrepancies u limit offset) d = is_admin ctx"

end
