(* ===== verification/Policy.thy ===== *)
theory Policy
  imports Gateway
begin

text \<open>
  Access control: a request outside the role or the tenant of its key is refused with 403 before
  anything is read out, written or cached; and where the routes do not follow the table of roles of
  the specification (\<^verbatim>\<open>spec.md\<close>, section 2.2).
\<close>

definition refuses :: "('s, 'a) sm \<Rightarrow> 's \<Rightarrow> bool" where
  "refuses m s \<longleftrightarrow> (\<exists>detail. m s = (Inl (Exc (HTTPException 403) detail), s))"

lemma refuses_403: "refuses (http_error 403 detail) s"
  by (simp add: refuses_def)

lemma refuses_bind: "refuses m s \<Longrightarrow> refuses (bindE m f) s"
  by (auto simp: refuses_def)

lemma refuses_then: "refuses m s \<Longrightarrow> refuses (thenE m n) s"
  by (auto simp: refuses_def)

lemma refuses_bind_Inr: "m s = (Inr x, s) \<Longrightarrow> refuses (f x) s \<Longrightarrow> refuses (bindE m f) s"
  by (simp add: refuses_def)

lemma refuses_then_Inr: "m s = (Inr x, s) \<Longrightarrow> refuses n s \<Longrightarrow> refuses (thenE m n) s"
  by (simp add: refuses_def)

lemma refuses_respond: "refuses m a \<Longrightarrow> refuses (respond r m) a"
  unfolding respond_def by (rule refuses_bind)

lemma refuses_on_session: "refuses m (app_session a) \<Longrightarrow> refuses (on_session m) a"
  by (auto simp: refuses_def on_session_def)

lemma refuses_on_read_session:
  "refuses m (a\<lparr>app_session := (app_session a)\<lparr>db := read_view rep (app_session a), tx_failed := False\<rparr>\<rparr>) \<Longrightarrow>
   refuses (on_read_session rep m) a"
  by (auto simp: refuses_def on_read_session_def Let_def)

lemma refuses_tenant: "\<not> may_access ctx (org_id g) \<Longrightarrow> refuses (assert_tenant_access ctx g) s"
  by (simp add: refuses_def)

lemma refuses_admin: "\<not> is_admin ctx \<Longrightarrow> refuses (require_platform_admin ctx) s"
  by (simp add: refuses_def require_platform_admin_def is_admin_def)

lemma refuses_ledger:
  "\<not> may_access ctx (org_id g) \<Longrightarrow> auth_role ctx \<noteq> REVOPS_READ \<Longrightarrow> refuses (assert_ledger_read_access ctx g) s"
  by (auto simp: refuses_def assert_ledger_read_access_def may_access_def)

lemma refuses_dunning: "\<not> handles_dunning ctx \<Longrightarrow> refuses (require_dunning_operator ctx) s"
  by (simp add: refuses_def require_dunning_operator_def handles_dunning_def)

section \<open>Lookups\<close>

lemma sole_run: "sole rows = Some r \<Longrightarrow> scalar_one_or_none rows s = (Inr (Some r), s)"
  by (auto simp: sole_def split: list.splits)

lemma organization_named_run:
  assumes "organization_named u (db s) = Some oi" "\<not> tx_failed s"
  obtains g where "require_organization u s = (Inr g, s)" "org_id g = oi"
  using assms by (auto simp: organization_named_def require_organization_def get_organization_by_public_id_def
      resolve_organization_by_public_id_def sole_run)

lemma owner_row_run:
  assumes "owner_row (Some i) (db s) = Some oi" "\<not> tx_failed s"
  obtains g where "require_organization_by_id i s = (Inr g, s)" "org_id g = oi"
  using assms by (auto simp: owner_row_def require_organization_by_id_def load_organization_by_id_def sole_run)

text \<open>A row found by its public identifier, and the organization it belongs to.\<close>

lemma owner_lookup:
  assumes "owner_row (map_option f (sole rows)) (db s) = Some oi" "\<not> tx_failed s"
  obtains r g where "sole rows = Some r" "require_organization_by_id (f r) s = (Inr g, s)" "org_id g = oi"
proof (cases "sole rows")
  case None
  then show ?thesis using assms(1) by (simp add: owner_row_def)
next
  case (Some r)
  then have "owner_row (Some (f r)) (db s) = Some oi" using assms(1) by simp
  then show ?thesis using owner_row_run assms(2) that Some by metis
qed

lemma subscription_owner_run:
  assumes "subscription_owner u (db s) = Some oi" "\<not> tx_failed s"
  obtains r g where "require_subscription u s = (Inr r, s)"
    "require_organization_by_id (sub_organization_id r) s = (Inr g, s)" "org_id g = oi"
proof (rule owner_lookup [OF assms [unfolded subscription_owner_def]])
  fix r g
  assume "sole (filter (\<lambda>q. sub_public_id q = u) (subscriptions (db s))) = Some r"
    and "require_organization_by_id (sub_organization_id r) s = (Inr g, s)" "org_id g = oi"
  then show thesis using assms(2) by (intro that) (simp_all add: require_subscription_def get_subscription_by_public_id_def sole_run)
qed

lemma invoice_owner_run:
  assumes "invoice_owner u (db s) = Some oi" "\<not> tx_failed s"
  obtains v g where "get_invoice_by_public_id u s = (Inr (Some v), s)"
    "require_organization_by_id (inv_organization_id v) s = (Inr g, s)" "org_id g = oi"
proof (rule owner_lookup [OF assms [unfolded invoice_owner_def]])
  fix v g
  assume "sole (filter (\<lambda>q. inv_public_id q = u) (invoices (db s))) = Some v"
    and "require_organization_by_id (inv_organization_id v) s = (Inr g, s)" "org_id g = oi"
  then show thesis using assms(2) by (intro that) (simp_all add: get_invoice_by_public_id_def sole_run)
qed

lemma entry_owner_run:
  assumes "entry_owner u (db s) = Some oi" "\<not> tx_failed s"
  obtains e g where "get_entry_by_public_id u s = (Inr (Some e), s)"
    "require_organization_by_id (le_organization_id e) s = (Inr g, s)" "org_id g = oi"
proof (rule owner_lookup [OF assms [unfolded entry_owner_def]])
  fix e g
  assume "sole (filter (\<lambda>q. le_public_id q = u) (ledger_entries (db s))) = Some e"
    and "require_organization_by_id (le_organization_id e) s = (Inr g, s)" "org_id g = oi"
  then show thesis using assms(2) by (intro that) (simp_all add: get_entry_by_public_id_def sole_run)
qed

lemma campaign_owner_run:
  assumes "campaign_owner u (db s) = Some oi" "\<not> tx_failed s" "\<not> may_access ctx oi"
  shows "refuses (load_campaign_and_assert_tenant ctx u) s"
proof -
  from owner_lookup [OF assms(1,2) [unfolded campaign_owner_def]] obtain c g where
    c: "sole (filter (\<lambda>c. camp_id c = u) (dunning_campaigns (db s))) = Some c"
    and g: "require_organization_by_id (camp_organization_id c) s = (Inr g, s)" "org_id g = oi" .
  show ?thesis unfolding load_campaign_and_assert_tenant_def
    by (rule refuses_bind_Inr [of _ _ "Some c"])
      (use c g assms(2,3) in \<open>simp_all add: sole_run refuses_def\<close>)
qed

section \<open>Routes that are refused\<close>

lemma refuses_named:
  assumes "organization_named u (db s) = Some oi" "\<not> tx_failed s" "\<And>g. org_id g = oi \<Longrightarrow> refuses (f g) s"
  shows "refuses (bindE (require_organization u) f) s"
  using organization_named_run [OF assms(1,2)] assms(3) refuses_bind_Inr by metis

lemma refuses_subscription:
  assumes "subscription_owner u (db s) = Some oi" "\<not> tx_failed s" "\<And>r g. org_id g = oi \<Longrightarrow> refuses (f r g) s"
  shows "refuses (bindE (require_subscription u) (\<lambda>r. bindE (require_organization_by_id (sub_organization_id r)) (f r))) s"
  using subscription_owner_run [OF assms(1,2)] assms(3) refuses_bind_Inr by (metis (no_types, lifting))

lemma not_tenant_ok: "\<not> tenant_ok ctx x \<Longrightarrow> \<exists>oi. x = Some oi \<and> \<not> may_access ctx oi"
  by (cases x) (simp_all add: tenant_ok_def)

lemma not_ledger_ok: "\<not> ledger_ok ctx x \<Longrightarrow> \<exists>oi. x = Some oi \<and> \<not> may_access ctx oi \<and> auth_role ctx \<noteq> REVOPS_READ"
  by (cases x) (simp_all add: ledger_ok_def tenant_ok_def)

lemma refuses_named_tenant:
  assumes "\<not> tenant_ok ctx (organization_named u (db s))" "\<not> tx_failed s"
  shows "refuses (bindE (require_organization u) (\<lambda>g. thenE (assert_tenant_access ctx g) (m g))) s"
  using not_tenant_ok [OF assms(1)] assms(2) by (auto intro!: refuses_named refuses_then refuses_tenant)

lemma refuses_named_ledger:
  assumes "\<not> ledger_ok ctx (organization_named u (db s))" "\<not> tx_failed s"
  shows "refuses (bindE (require_organization u) (\<lambda>g. thenE (assert_ledger_read_access ctx g) (m g))) s"
  using not_ledger_ok [OF assms(1)] assms(2) by (auto intro!: refuses_named refuses_then refuses_ledger)

lemma refuses_subscription_tenant:
  assumes "\<not> tenant_ok ctx (subscription_owner u (db s))" "\<not> tx_failed s"
  shows "refuses (bindE (require_subscription u) (\<lambda>r. bindE (require_organization_by_id (sub_organization_id r))
    (\<lambda>g. thenE (assert_tenant_access ctx g) (m r g)))) s"
  using not_tenant_ok [OF assms(1)] assms(2) by (auto intro!: refuses_subscription refuses_then refuses_tenant)

lemma refuses_invoice:
  assumes "\<not> tenant_ok ctx (invoice_owner u (db s))" "\<not> tx_failed s"
  shows "refuses (get_invoice_route ctx u) s"
proof -
  from not_tenant_ok [OF assms(1)] obtain oi where oi: "invoice_owner u (db s) = Some oi" "\<not> may_access ctx oi" by blast
  from invoice_owner_run [OF oi(1) assms(2)] obtain v g where "get_invoice_by_public_id u s = (Inr (Some v), s)"
    "require_organization_by_id (inv_organization_id v) s = (Inr g, s)" "org_id g = oi" .
  with oi(2) show ?thesis by (simp add: get_invoice_route_def refuses_def)
qed

lemma refuses_entry:
  assumes "\<not> ledger_ok ctx (entry_owner u (db s))" "\<not> tx_failed s"
  shows "refuses (get_ledger_entry ctx u) s"
proof -
  from not_ledger_ok [OF assms(1)] obtain oi where oi: "entry_owner u (db s) = Some oi" "\<not> may_access ctx oi"
    "auth_role ctx \<noteq> REVOPS_READ" by blast
  from entry_owner_run [OF oi(1) assms(2)] obtain e g where e: "get_entry_by_public_id u s = (Inr (Some e), s)"
    "require_organization_by_id (le_organization_id e) s = (Inr g, s)" "org_id g = oi" .
  then have "refuses (assert_ledger_read_access ctx g) s" using oi by (intro refuses_ledger) simp_all
  then show ?thesis using e by (auto simp: get_ledger_entry_def refuses_def)
qed

lemma refuses_cancel:
  assumes "\<not> tenant_ok ctx (subscription_owner u (db s))" "\<not> tx_failed s"
  shows "refuses (post_cancel_subscription ctx u b) s"
proof -
  from not_tenant_ok [OF assms(1)] obtain oi where oi: "subscription_owner u (db s) = Some oi" "\<not> may_access ctx oi" by blast
  then have "auth_role ctx \<noteq> PLATFORM_ADMIN" by (simp add: may_access_def)
  then show ?thesis unfolding post_cancel_subscription_def
    using oi assms(2) by (intro refuses_subscription) (auto simp: refuses_def)
qed

lemma refuses_change_plan:
  assumes "\<not> tenant_ok ctx (subscription_owner u (db (app_session a)))" "\<not> tx_failed (app_session a)"
  shows "refuses (post_change_plan ctx u pid eff k) a"
  unfolding post_change_plan_def
  by (intro refuses_bind refuses_on_session refuses_subscription_tenant assms)

lemma refuses_patch:
  assumes "organization_named u (db s) \<noteq> None" "\<not> is_admin ctx" "\<not> tx_failed s"
  shows "refuses (patch_organization_route ctx u n e m) s"
  unfolding patch_organization_route_def
  using assms by (auto simp: is_admin_def refuses_403 intro!: refuses_named)

lemma refuses_post_usage:
  assumes "auth_role ctx \<notin> {''product_service'', PLATFORM_ADMIN} \<or>
      length events \<le> MAX_BATCH_SIZE \<and> \<not> tenant_ok ctx (organization_named u (db s))" "\<not> tx_failed s"
  shows "refuses (post_usage_events_batch ctx u events) s"
  using assms by (auto simp: post_usage_events_batch_def refuses_403 intro!: refuses_named_tenant)

lemma active_key_run:
  assumes "active_key kid (db s) = Some k" "\<not> tx_failed s"
  shows "load_api_key kid s = (Inr k, s)"
  using assms by (auto simp: active_key_def load_api_key_def sole_run split: option.splits if_splits)

lemma refuses_rotate:
  assumes "active_key kid (db (app_session a)) = Some k" "\<not> may_rotate ctx k" "\<not> tx_failed (app_session a)"
  shows "refuses (post_rotate_api_key ctx kid) a"
proof -
  have "refuses (assert_rotate_access ctx k) (app_session a)"
    using assms(2) by (auto simp: assert_rotate_access_def may_rotate_def is_admin_def own_organization_def refuses_def)
  then show ?thesis unfolding post_rotate_api_key_def
    using active_key_run [OF assms(1,3)] by (intro refuses_bind refuses_on_session refuses_bind_Inr refuses_then)
qed

lemma refuses_revoke:
  assumes "active_key kid (db (app_session a)) = Some k" "\<not> may_revoke ctx k" "\<not> tx_failed (app_session a)"
  shows "refuses (post_revoke_api_key ctx kid) a"
proof -
  have "refuses (assert_revoke_access ctx k) (app_session a)"
    using assms(2) by (auto simp: assert_revoke_access_def may_revoke_def is_admin_def own_organization_def refuses_def)
  then show ?thesis unfolding post_revoke_api_key_def
    using active_key_run [OF assms(1,3)] by (intro refuses_bind refuses_on_session refuses_bind_Inr refuses_then)
qed

lemma refuses_campaign:
  assumes "\<not> handles_dunning ctx \<or> \<not> tenant_ok ctx (campaign_owner u (db s))" "\<not> tx_failed s"
  shows "refuses (operate_campaign operation ctx u) s"
proof (cases "handles_dunning ctx")
  case True
  then have "require_dunning_operator ctx s = (Inr (), s)"
    by (auto simp: require_dunning_operator_def handles_dunning_def)
  moreover from True assms(1) obtain oi where "campaign_owner u (db s) = Some oi" "\<not> may_access ctx oi"
    using not_tenant_ok by blast
  ultimately show ?thesis unfolding operate_campaign_def
    using assms(2) by (intro refuses_then_Inr refuses_bind campaign_owner_run)
next
  case False
  then show ?thesis unfolding operate_campaign_def by (intro refuses_then refuses_dunning)
qed

lemma refuses_list_campaigns:
  assumes "\<not> permitted ctx (List_campaigns fo fs limit offset) (db s)" "\<not> tx_failed s"
  shows "refuses (list_dunning_campaigns ctx fo fs limit offset) s"
proof (cases "handles_dunning ctx")
  case False
  then show ?thesis unfolding list_dunning_campaigns_def by (intro refuses_then refuses_dunning)
next
  case True
  then have op: "require_dunning_operator ctx s = (Inr (), s)"
    by (auto simp: require_dunning_operator_def handles_dunning_def)
  have "refuses (resolve_list_filters ctx fo fs) s"
  proof (cases "refuses (filter_by_organization ctx fo) s")
    case True
    then show ?thesis unfolding resolve_list_filters_def by (rule refuses_bind)
  next
    case False
    then have tenant: "case fo of None \<Rightarrow> True | Some u \<Rightarrow> tenant_ok ctx (organization_named u (db s))"
      using assms(2) refuses_named_tenant
      by (fastforce simp: filter_by_organization_def split: option.splits)
    then obtain w where w: "fs = Some w" "\<not> tenant_ok ctx (subscription_owner w (db s))"
      and named: "\<And>v. fo = Some v \<Longrightarrow> organization_named v (db s) \<noteq> None"
      using assms(1) True \<open>handles_dunning ctx\<close> by (auto split: option.splits)
    have "\<exists>oi. filter_by_organization ctx fo s = (Inr oi, s)"
    proof (cases fo)
      case None
      then show ?thesis by (simp add: filter_by_organization_def)
    next
      case (Some v)
      then obtain i where i: "organization_named v (db s) = Some i" using named by blast
      then obtain g where "require_organization v s = (Inr g, s)" "org_id g = i"
        using organization_named_run assms(2) by blast
      moreover have "may_access ctx i" using tenant Some i by (simp add: tenant_ok_def)
      ultimately show ?thesis using Some by (simp add: filter_by_organization_def)
    qed
    then obtain oi where "filter_by_organization ctx fo s = (Inr oi, s)" ..
    moreover have "refuses (filter_by_subscription ctx oi fs) s"
      unfolding w(1) filter_by_subscription_def option.simps by (intro refuses_subscription_tenant w(2) assms(2))
    ultimately show ?thesis unfolding resolve_list_filters_def by (intro refuses_bind_Inr refuses_bind)
  qed
  then show ?thesis unfolding list_dunning_campaigns_def using op by (intro refuses_then_Inr refuses_bind)
qed

text \<open>
  The context of a key that is not an administrator's names its organization by both identifiers, and
  a public identifier belongs to one organization.
\<close>

definition context_ok :: "auth_context \<Rightarrow> database \<Rightarrow> bool" where
  "context_ok ctx d \<longleftrightarrow> is_admin ctx \<or>
     (case (auth_organization_id ctx, auth_organization_public_id ctx) of
        (Some i, Some v) \<Rightarrow> list_all (\<lambda>g. org_public_id g = v \<longrightarrow> org_id g = i) (organizations d)
      | _ \<Rightarrow> False)"

lemma sole_mem: "sole rows = Some r \<Longrightarrow> r \<in> set rows"
  by (simp add: sole_def split: list.splits)

lemma refuses_evaluate:
  assumes "\<not> tenant_ok ctx (organization_named u d)" "context_ok ctx d"
  shows "refuses (post_evaluate others rep ctx u checks) a"
proof -
  from not_tenant_ok [OF assms(1)] obtain oi where oi: "organization_named u d = Some oi" "\<not> may_access ctx oi" by blast
  then obtain g where g: "g \<in> set (organizations d)" "org_public_id g = u" "org_id g = oi"
    by (auto simp: organization_named_def dest!: sole_mem)
  from oi(2) have na: "auth_role ctx \<noteq> PLATFORM_ADMIN" by (simp add: may_access_def)
  then obtain i v where v: "auth_organization_id ctx = Some i" "auth_organization_public_id ctx = Some v"
    and same: "\<forall>g \<in> set (organizations d). org_public_id g = v \<longrightarrow> org_id g = i"
    using assms(2) by (auto simp: context_ok_def is_admin_def list_all_iff split: option.splits)
  have "v \<noteq> u" using same g v oi(2) by (auto simp: may_access_def)
  then show ?thesis using na v by (simp add: post_evaluate_def refuses_403)
qed

section \<open>The checks are made\<close>

text \<open>The rows a request is decided on: those of its read session or of the primary's session.\<close>

definition request_view :: "environment \<Rightarrow> api_request \<Rightarrow> session \<Rightarrow> database" where
  "request_view env req s = (case req of Get_usage u \<Rightarrow> read_view (env_replica env) s | _ \<Rightarrow> db s)"

lemmas refusals =
  refuses_named_tenant refuses_named_ledger refuses_subscription_tenant refuses_invoice refuses_entry refuses_cancel
  refuses_change_plan refuses_patch refuses_rotate refuses_revoke refuses_campaign refuses_admin refuses_403

text \<open>Routes for administrators only.\<close>

lemma refuses_admin_routes:
  assumes "\<not> is_admin ctx"
  shows "refuses (post_organization ctx n x e m k) s" "refuses (post_api_key ctx u role) s"
    "refuses (post_invalidate ctx u) a" "refuses (replay_webhook_event ctx u) a" "refuses (post_product ctx k n ds b) s"
    "refuses (committed_admin ctx work) s" "refuses (get_snapshot ctx) s"
    "refuses (trigger_reconciliation_run provider ctx k) s" "refuses (list_reconciliation_runs ctx l off) s"
    "refuses (list_run_discrepancies ctx u l off) s"
  using assms [unfolded is_admin_def]
  by (simp_all add: post_organization_def post_api_key_def post_invalidate_def replay_webhook_event_def post_product_def
      committed_admin_def get_snapshot_def trigger_reconciliation_run_def list_reconciliation_runs_def
      list_run_discrepancies_def refuses_403 refuses_then [OF refuses_admin [OF assms]])

lemmas admin_routes = post_plan_def post_price_def post_feature_def put_plan_features_def post_publish_plan_def

lemma route_refuses:
  assumes "\<not> tx_failed (app_session a)" "context_ok ctx (db (app_session a))"
    and "\<not> permitted ctx req (request_view env req (app_session a))"
  shows "refuses (route env ctx req) a"
proof (cases req)
  case (Get_usage u)
  then show ?thesis using assms(3) by (auto simp: get_organization_usage_def request_view_def
      intro!: refuses_respond refuses_on_read_session refuses_on_session refuses_named_tenant)
qed (use assms in \<open>auto simp: request_view_def admin_routes get_organization_route_def post_subscription_def
    get_subscription_route_def list_organization_subscriptions_def list_organization_invoices_def
    list_organization_ledger_def pause_dunning_campaign_def resume_dunning_campaign_def
    simp del: permitted.simps(17) split: option.splits
    intro!: refuses_respond refuses_on_session refuses_admin_routes refuses_post_usage refuses_list_campaigns
      refuses_evaluate refusals\<close>)

section \<open>What must be refused\<close>

text \<open>
  The roles a request is for beside the administrator, after the table of roles: usage is recorded by
  services, campaigns are handled by dunning operators, reconciliation is read by finance, and the
  catalog, organizations, keys, webhook replays and reconciliation runs are the administrator's. For
  the other requests any role of the tenant will do.
\<close>

fun roles_for :: "api_request \<Rightarrow> string list option" where
  "roles_for (Post_usage u events) = Some [''product_service'']"
| "roles_for (List_campaigns fo fs limit offset) = Some [''dunning_operator'']"
| "roles_for (Pause_campaign u) = Some [''dunning_operator'']"
| "roles_for (Resume_campaign u) = Some [''dunning_operator'']"
| "roles_for (List_runs limit offset) = Some [''revops_read'']"
| "roles_for (List_discrepancies u limit offset) = Some [''revops_read'']"
| "roles_for (Post_organization name external email metadata idem) = Some []"
| "roles_for (Post_api_key u role) = Some []"
| "roles_for (Invalidate u) = Some []"
| "roles_for (Replay_webhook u) = Some []"
| "roles_for (Post_product k name description is_active) = Some []"
| "roles_for (Post_plan pr k interval trial grace dunning entitlement) = Some []"
| "roles_for (Post_price pid amount currency model metered external is_active) = Some []"
| "roles_for (Post_feature k ft limit reset) = Some []"
| "roles_for (Put_plan_features pid items) = Some []"
| "roles_for (Publish_plan pid) = Some []"
| "roles_for Get_catalog = Some []"
| "roles_for (Trigger_reconciliation idem) = Some []"
| "roles_for req = None"

text \<open>
  The organization or subscription whose public identifier a request names. A usage batch above the
  limit is turned away for its size.
\<close>

fun organization_of :: "api_request \<Rightarrow> uuid option" where
  "organization_of (Get_organization u) = Some u"
| "organization_of (Post_subscription u pid metadata idem) = Some u"
| "organization_of (List_subscriptions u) = Some u"
| "organization_of (Get_usage u) = Some u"
| "organization_of (Post_usage u events) = (if length events \<le> 1000 then Some u else None)"
| "organization_of (List_invoices u limit offset) = Some u"
| "organization_of (List_ledger u limit offset) = Some u"
| "organization_of (Evaluate u checks) = Some u"
| "organization_of (List_campaigns fo fs limit offset) = fo"
| "organization_of req = None"

fun subscription_of :: "api_request \<Rightarrow> uuid option" where
  "subscription_of (Get_subscription u) = Some u"
| "subscription_of (Cancel_subscription u at_end) = Some u"
| "subscription_of (Change_plan u pid effective idem) = Some u"
| "subscription_of (List_campaigns fo fs limit offset) = fs"
| "subscription_of req = None"

text \<open>A live organization with this public identifier, and the organization with this row number.\<close>

definition named_organization :: "database \<Rightarrow> uuid \<Rightarrow> int \<Rightarrow> bool" where
  "named_organization d u oi \<longleftrightarrow>
     (\<exists>g. [g\<leftarrow>organizations d. org_public_id g = u \<and> org_deleted_at g = None] = [g] \<and> org_id g = oi)"

definition organization_row :: "database \<Rightarrow> int \<Rightarrow> bool" where
  "organization_row d oi \<longleftrightarrow> (\<exists>g. [g\<leftarrow>organizations d. org_id g = oi] = [g])"

text \<open>The organizations whose data a request is about: of the rows its identifiers name.\<close>

definition about_tenant :: "api_request \<Rightarrow> database \<Rightarrow> int \<Rightarrow> bool" where
  "about_tenant req d oi \<longleftrightarrow>
     (\<exists>u. organization_of req = Some u \<and> named_organization d u oi) \<or>
     organization_row d oi \<and>
      ((\<exists>u r. subscription_of req = Some u \<and> [r\<leftarrow>subscriptions d. sub_public_id r = u] = [r] \<and>
          sub_organization_id r = oi \<and> (\<forall>v. organization_of req = Some v \<longrightarrow> (\<exists>i. named_organization d v i))) \<or>
       (\<exists>u v. req = Get_invoice u \<and> [v\<leftarrow>invoices d. inv_public_id v = u] = [v] \<and> inv_organization_id v = oi) \<or>
       (\<exists>u e. req = Get_ledger_entry u \<and> [e\<leftarrow>ledger_entries d. le_public_id e = u] = [e] \<and> le_organization_id e = oi) \<or>
       (\<exists>u c. req \<in> {Pause_campaign u, Resume_campaign u} \<and> [c\<leftarrow>dunning_campaigns d. camp_id c = u] = [c] \<and>
          camp_organization_id c = oi))"

text \<open>Finance reads every tenant's ledger.\<close>

definition ledger_read :: "api_request \<Rightarrow> bool" where
  "ledger_read req \<longleftrightarrow> (\<exists>u limit offset. req = List_ledger u limit offset) \<or> (\<exists>u. req = Get_ledger_entry u)"

text \<open>
  Keys: a tenant's key is replaced by itself only, and withdrawn by itself or by a key of the same role
  with write access, never across tenants.
\<close>

definition key_out_of_reach :: "auth_context \<Rightarrow> api_request \<Rightarrow> database \<Rightarrow> bool" where
  "key_out_of_reach ctx req d \<longleftrightarrow>
     (\<exists>kid k. req \<in> {Rotate_api_key kid, Revoke_api_key kid} \<and> [k\<leftarrow>api_keys d. key_id k = kid] = [k] \<and>
        key_revoked_at k = None \<and>
        (key_organization_id k = None \<or> key_organization_id k \<noteq> auth_organization_id ctx \<or>
         kid \<noteq> auth_api_key_id ctx \<and>
          (req = Rotate_api_key kid \<or> key_role k \<noteq> auth_role ctx \<or>
           auth_role ctx \<in> {''revops_read'', ''support_read''})))"

definition forbidden :: "auth_context \<Rightarrow> api_request \<Rightarrow> database \<Rightarrow> bool" where
  "forbidden ctx req d \<longleftrightarrow> auth_role ctx \<noteq> ''platform_admin'' \<and>
     ((\<exists>roles. roles_for req = Some roles \<and> auth_role ctx \<notin> set roles) \<or>
      (\<exists>oi. about_tenant req d oi \<and> auth_organization_id ctx \<noteq> Some oi \<and>
         \<not> (auth_role ctx = ''revops_read'' \<and> ledger_read req)) \<or>
      (\<exists>u n e m i. req = Patch_organization u n e m \<and> named_organization d u i) \<or>
      key_out_of_reach ctx req d)"

lemma named_organization_sole: "named_organization d u oi \<Longrightarrow> organization_named u d = Some oi"
  by (auto simp: named_organization_def organization_named_def sole_def)

lemma owned_rows:
  assumes "organization_row d oi"
  shows "[r\<leftarrow>subscriptions d. sub_public_id r = u] = [r] \<Longrightarrow> sub_organization_id r = oi \<Longrightarrow> subscription_owner u d = Some oi"
    and "[v\<leftarrow>invoices d. inv_public_id v = u] = [v] \<Longrightarrow> inv_organization_id v = oi \<Longrightarrow> invoice_owner u d = Some oi"
    and "[e\<leftarrow>ledger_entries d. le_public_id e = u] = [e] \<Longrightarrow> le_organization_id e = oi \<Longrightarrow> entry_owner u d = Some oi"
    and "[c\<leftarrow>dunning_campaigns d. camp_id c = u] = [c] \<Longrightarrow> camp_organization_id c = oi \<Longrightarrow> campaign_owner u d = Some oi"
proof -
  obtain g where g: "[g\<leftarrow>organizations d. org_id g = oi] = [g]" using assms by (auto simp: organization_row_def)
  then have "owner_row (Some oi) d = Some oi" using filter_singletonD [OF g] by (simp add: owner_row_def sole_def)
  then show "[r\<leftarrow>subscriptions d. sub_public_id r = u] = [r] \<Longrightarrow> sub_organization_id r = oi \<Longrightarrow> subscription_owner u d = Some oi"
    "[v\<leftarrow>invoices d. inv_public_id v = u] = [v] \<Longrightarrow> inv_organization_id v = oi \<Longrightarrow> invoice_owner u d = Some oi"
    "[e\<leftarrow>ledger_entries d. le_public_id e = u] = [e] \<Longrightarrow> le_organization_id e = oi \<Longrightarrow> entry_owner u d = Some oi"
    "[c\<leftarrow>dunning_campaigns d. camp_id c = u] = [c] \<Longrightarrow> camp_organization_id c = oi \<Longrightarrow> campaign_owner u d = Some oi"
    by (simp_all add: subscription_owner_def invoice_owner_def entry_owner_def campaign_owner_def sole_def)
qed

text \<open>Neither the tenant check nor, for the ledger, the check of its readers lets another tenant through.\<close>

lemma other_tenant:
  assumes "auth_role ctx \<noteq> PLATFORM_ADMIN" "auth_organization_id ctx \<noteq> Some oi"
  shows "\<not> tenant_ok ctx (Some oi)" "auth_role ctx \<noteq> REVOPS_READ \<Longrightarrow> \<not> ledger_ok ctx (Some oi)"
  using assms by (simp_all add: tenant_ok_def ledger_ok_def may_access_def)

lemmas role_names = PLATFORM_ADMIN_def DUNNING_OPERATOR_def REVOPS_READ_def

lemma forbidden_role:
  assumes "auth_role ctx \<noteq> PLATFORM_ADMIN" "roles_for req = Some roles" "auth_role ctx \<notin> set roles"
  shows "\<not> permitted ctx req d"
  using assms by (cases req) (auto simp: is_admin_def handles_dunning_def role_names)

lemma forbidden_tenant:
  assumes na: "auth_role ctx \<noteq> PLATFORM_ADMIN" and ab: "about_tenant req d oi"
    and ot: "auth_organization_id ctx \<noteq> Some oi" "\<not> (auth_role ctx = REVOPS_READ \<and> ledger_read req)"
  shows "\<not> permitted ctx req d"
proof -
  note other = other_tenant [OF na ot(1)]
  consider (organization) u where "organization_of req = Some u" "organization_named u d = Some oi"
    | (subscription) u where "subscription_of req = Some u" "subscription_owner u d = Some oi"
        "\<And>v. organization_of req = Some v \<Longrightarrow> organization_named v d \<noteq> None"
    | (invoice) u where "req = Get_invoice u" "invoice_owner u d = Some oi"
    | (entry) u where "req = Get_ledger_entry u" "entry_owner u d = Some oi"
    | (campaign) u where "req \<in> {Pause_campaign u, Resume_campaign u}" "campaign_owner u d = Some oi"
    using ab unfolding about_tenant_def
  proof (elim disjE conjE exE)
    fix u assume "organization_of req = Some u" "named_organization d u oi"
    then show thesis using organization named_organization_sole by blast
  next
    fix u r assume own: "organization_row d oi" and u: "subscription_of req = Some u"
      and r: "[r\<leftarrow>subscriptions d. sub_public_id r = u] = [r]" "sub_organization_id r = oi"
      and n: "\<forall>v. organization_of req = Some v \<longrightarrow> (\<exists>i. named_organization d v i)"
    show thesis using subscription [OF u owned_rows(1) [OF own r]] n named_organization_sole by fastforce
  next
    fix u v assume own: "organization_row d oi" and u: "req = Get_invoice u"
      and v: "[v\<leftarrow>invoices d. inv_public_id v = u] = [v]" "inv_organization_id v = oi"
    show thesis using invoice [OF u owned_rows(2) [OF own v]] .
  next
    fix u e assume own: "organization_row d oi" and u: "req = Get_ledger_entry u"
      and e: "[e\<leftarrow>ledger_entries d. le_public_id e = u] = [e]" "le_organization_id e = oi"
    show thesis using entry [OF u owned_rows(3) [OF own e]] .
  next
    fix u c assume own: "organization_row d oi" and u: "req \<in> {Pause_campaign u, Resume_campaign u}"
      and c: "[c\<leftarrow>dunning_campaigns d. camp_id c = u] = [c]" "camp_organization_id c = oi"
    show thesis using campaign [OF u owned_rows(4) [OF own c]] .
  qed
  then show ?thesis
  proof cases
    case organization
    then show ?thesis using other ot(2) na
      by (cases req) (auto simp: ledger_read_def MAX_BATCH_SIZE_def split: if_splits)
  next
    case subscription
    then show ?thesis using other by (cases req) (auto split: option.splits)
  next
    case invoice
    then show ?thesis using other by simp
  next
    case entry
    then show ?thesis using other ot(2) by (auto simp: ledger_read_def)
  next
    case campaign
    then show ?thesis using other by auto
  qed
qed

lemma forbidden_key:
  assumes "auth_role ctx \<noteq> PLATFORM_ADMIN" "key_out_of_reach ctx req d"
  shows "\<not> permitted ctx req d"
proof -
  from assms(2) obtain kid k where k: "req \<in> {Rotate_api_key kid, Revoke_api_key kid}" "[k\<leftarrow>api_keys d. key_id k = kid] = [k]"
    "key_revoked_at k = None" and c: "key_organization_id k = None \<or> key_organization_id k \<noteq> auth_organization_id ctx \<or>
         kid \<noteq> auth_api_key_id ctx \<and>
          (req = Rotate_api_key kid \<or> key_role k \<noteq> auth_role ctx \<or> auth_role ctx \<in> {''revops_read'', ''support_read''})"
    unfolding key_out_of_reach_def by (elim exE conjE) (rule that)
  have "active_key kid d = Some k" "key_id k = kid"
    using k(2,3) filter_singletonD [OF k(2)] by (simp_all add: active_key_def sole_def)
  with k(1) c assms(1) show ?thesis
    by (auto simp: may_rotate_def may_revoke_def own_organization_def is_admin_def READ_ONLY_ROLES_def REVOPS_READ_def)
qed

lemma forbidden_not_permitted:
  assumes "forbidden ctx req d"
  shows "\<not> permitted ctx req d"
proof -
  have na: "auth_role ctx \<noteq> PLATFORM_ADMIN" using assms by (simp add: forbidden_def PLATFORM_ADMIN_def)
  from assms consider roles where "roles_for req = Some roles" "auth_role ctx \<notin> set roles"
    | oi where "about_tenant req d oi" "auth_organization_id ctx \<noteq> Some oi" "\<not> (auth_role ctx = REVOPS_READ \<and> ledger_read req)"
    | u n e m i where "req = Patch_organization u n e m" "named_organization d u i"
    | "key_out_of_reach ctx req d"
    unfolding forbidden_def REVOPS_READ_def by metis
  then show ?thesis
    by cases (use na forbidden_role forbidden_tenant forbidden_key named_organization_sole in \<open>fastforce simp: is_admin_def\<close>)+
qed

text \<open>
  C3: Access control holds on every route. Whatever the state, a request of a key that is not the
  administrator's is answered 403, and neither the database nor a cache is changed, if the request
  is reserved to roles the key does not have (the administrator's operations on catalog,
  organizations, keys, webhooks and reconciliation; recording usage; handling campaigns; reading
  reconciliation results), if a row it names (an organization, subscription, invoice, ledger entry
  or campaign) belongs to another tenant, the ledger reads of finance apart, or if it replaces or
  withdraws a key that is not within its reach.
\<close>

theorem access_policy_enforced:
  assumes "\<not> tx_failed (app_session a)" "context_ok ctx (db (app_session a))"
    and "forbidden ctx req (request_view env req (app_session a))"
  shows "\<exists>detail. route env ctx req a = (Inl (Exc (HTTPException 403) detail), a)"
  using route_refuses [OF assms(1,2) forbidden_not_permitted [OF assms(3)]] by (simp add: refuses_def)

section \<open>The table of roles\<close>

text \<open>
  C19: Within a tenant the routes do not tell the roles apart where the table of roles does. For any two
  roles other than the administrator's, say a service's and those the table confines to webhook
  ingestion, to reading subscriptions or to dunning without plan changes, creating, canceling and
  changing the plan of a subscription have the same outcome, reply and effect, on every state. The role
  that the table lets read reconciliation runs is answered 403 by both routes that list them.
\<close>

theorem roles_not_told_apart:
  assumes "r \<noteq> ''platform_admin''" "r' \<noteq> ''platform_admin''"
  shows "route env (ctx\<lparr>auth_role := r\<rparr>) (Post_subscription u pid metadata idem) a =
      route env (ctx\<lparr>auth_role := r'\<rparr>) (Post_subscription u pid metadata idem) a \<and>
    route env (ctx\<lparr>auth_role := r\<rparr>) (Cancel_subscription u at_end) a =
      route env (ctx\<lparr>auth_role := r'\<rparr>) (Cancel_subscription u at_end) a \<and>
    route env (ctx\<lparr>auth_role := r\<rparr>) (Change_plan u pid effective idem) a =
      route env (ctx\<lparr>auth_role := r'\<rparr>) (Change_plan u pid effective idem) a \<and>
    (\<exists>detail. route env (ctx\<lparr>auth_role := ''revops_read''\<rparr>) (List_runs limit offset) a =
      (Inl (Exc (HTTPException 403) detail), a)) \<and>
    (\<exists>detail. route env (ctx\<lparr>auth_role := ''revops_read''\<rparr>) (List_discrepancies u limit offset) a =
      (Inl (Exc (HTTPException 403) detail), a))"
proof -
  have same: "assert_tenant_access (ctx\<lparr>auth_role := r\<rparr>) = (assert_tenant_access (ctx\<lparr>auth_role := r'\<rparr>) :: organization \<Rightarrow> unit op)"
    using assms by (simp add: fun_eq_iff may_access_def PLATFORM_ADMIN_def)
  have cancel: "post_cancel_subscription (ctx\<lparr>auth_role := r\<rparr>) u at_end = post_cancel_subscription (ctx\<lparr>auth_role := r'\<rparr>) u at_end"
    unfolding post_cancel_subscription_def same using assms by (simp add: PLATFORM_ADMIN_def)
  have na: "\<not> is_admin (ctx\<lparr>auth_role := ''revops_read''\<rparr>)" by (simp add: is_admin_def PLATFORM_ADMIN_def)
  have "refuses (route env (ctx\<lparr>auth_role := ''revops_read''\<rparr>) (List_runs limit offset)) a"
    "refuses (route env (ctx\<lparr>auth_role := ''revops_read''\<rparr>) (List_discrepancies u limit offset)) a"
    unfolding route.simps by (intro refuses_respond refuses_on_session refuses_admin_routes na)+
  then show ?thesis
    unfolding refuses_def by (simp add: cancel post_subscription_def post_change_plan_def same)
qed

section \<open>Examples\<close>

definition sample_environment :: environment where
  "sample_environment =
     \<lparr>env_others = (\<lambda>_ r. r), env_replica = \<lparr>rep_db = sample_db, rep_lag = Inr None\<rparr>, env_registry = Inr [],
      env_provider = \<lparr>create_customer = (\<lambda>_ _. Inr ''cus_1''), create_invoice = (\<lambda>_ _ _ _. Inr ''in_1'')\<rparr>,
      env_retry = (\<lambda>_ _. Inr []), env_broker = (\<lambda>_ _. Delivered), env_json_loads = (\<lambda>_. Not_json),
      env_locked_row = (\<lambda>_. False), env_locked_attempt = (\<lambda>_. False), env_iterate = sorted_list_of_set\<rparr>"

text \<open>A key of another organization.\<close>

definition foreign_context :: auth_context where
  "foreign_context =
     \<lparr>auth_organization_id = Some 2, auth_role = ''product_service'', auth_key_prefix = ''bp_12345'',
      auth_api_key_id = 900, auth_organization_public_id = Some 901, auth_expires_at = None\<rparr>"

lemma foreign_cancel:
  "forbidden foreign_context (Cancel_subscription (sub_public_id sample_sub) True) (db sample_session)"
proof -
  have "about_tenant (Cancel_subscription (sub_public_id sample_sub) True) (db sample_session) 1"
    by (simp add: about_tenant_def organization_row_def)
  moreover have "auth_organization_id foreign_context \<noteq> Some 1" "auth_role foreign_context = ''product_service''"
    by (simp_all add: foreign_context_def)
  ultimately show ?thesis unfolding forbidden_def by auto
qed

theorem access_policy_enforced_witness:
  "\<exists>detail. route sample_environment foreign_context (Cancel_subscription (sub_public_id sample_sub) True) sample_app =
     (Inl (Exc (HTTPException 403) detail), sample_app)"
proof (rule access_policy_enforced)
  show "\<not> tx_failed (app_session sample_app)" by (simp add: sample_session_def)
  show "context_ok foreign_context (db (app_session sample_app))" by code_simp
  show "forbidden foreign_context (Cancel_subscription (sub_public_id sample_sub) True)
      (request_view sample_environment (Cancel_subscription (sub_public_id sample_sub) True) (app_session sample_app))"
    using foreign_cancel by (simp add: request_view_def)
qed

text \<open>A key for webhook ingestion in the tenant of the sample subscription.\<close>

definition ingest_context :: auth_context where
  "ingest_context =
     \<lparr>auth_organization_id = Some 1, auth_role = ''webhook_ingest'', auth_key_prefix = ''bp_12345'',
      auth_api_key_id = 900, auth_organization_public_id = Some 101, auth_expires_at = None\<rparr>"

theorem roles_not_told_apart_witness:
  "route sample_environment ingest_context (Cancel_subscription 301 True) sample_app =
     route sample_environment (ingest_context\<lparr>auth_role := ''product_service''\<rparr>) (Cancel_subscription 301 True) sample_app \<and>
   fst (route sample_environment ingest_context (Cancel_subscription 301 True) sample_app) = Inr R_updated"
proof -
  have "ingest_context\<lparr>auth_role := ''webhook_ingest''\<rparr> = ingest_context" by (simp add: ingest_context_def)
  then have "route sample_environment ingest_context (Cancel_subscription 301 True) sample_app =
      route sample_environment (ingest_context\<lparr>auth_role := ''product_service''\<rparr>) (Cancel_subscription 301 True) sample_app"
    using roles_not_told_apart [of "''webhook_ingest''" "''product_service''" sample_environment ingest_context]
    by (simp del: route.simps)
  moreover have "fst (route sample_environment ingest_context (Cancel_subscription 301 True) sample_app) = Inr R_updated"
    by code_simp
  ultimately show ?thesis by (rule conjI)
qed

end
