(* ===== verification/Platform.thy ===== *)
theory Platform
  imports Policy
begin

text \<open>
  The platform as a whole: HTTP requests, webhooks, background tasks and the relay, served one after
  the other on one database. Every write any of them makes is one of the writes the components
  declare, so every relation between databases that those writes respect holds between the rows before
  and after any sequence of requests.
\<close>

section \<open>Serving requests\<close>

text \<open>A request of the application: over HTTP with path and credentials, a webhook, or a task.\<close>

datatype (plugins only: code size) request =
    Api string "(string \<times> string) option" api_request
  | Webhook string "string option"
  | Aggregate_hour int string pydatetime
  | Aggregate_sweep "pydatetime option"
  | Process_attempts "pydatetime option"
  | Enforce_grace "pydatetime option"
  | Sync_invoice int
  | Close_period int pydatetime pydatetime string
  | Create_partition "int option" "int option"
  | Reconcile_daily "instant option"

text \<open>
  A worker is a process of its own: it shares the database and Redis with the API process, and its
  process-local maps are empty.
\<close>

definition in_worker :: "'a app_op \<Rightarrow> 'a app_op" where
  "in_worker m = (\<lambda>a.
     case m (a\<lparr>auth_by_digest := Map.empty, auth_by_key_id := Map.empty, snapshot_l1 := Map.empty,
               org_l1 := Map.empty, org_l1_by_id := Map.empty\<rparr>) of (r, b) \<Rightarrow>
       (r, b\<lparr>auth_by_digest := auth_by_digest a, auth_by_key_id := auth_by_key_id a, snapshot_l1 := snapshot_l1 a,
              org_l1 := org_l1 a, org_l1_by_id := org_l1_by_id a\<rparr>))"

definition worker_task :: "json_object app_op \<Rightarrow> reply app_op" where
  "worker_task m = respond R_task (in_worker m)"

definition http_request ::
  "environment \<Rightarrow> string \<Rightarrow> (string \<times> string) option \<Rightarrow> api_request \<Rightarrow> reply app_op" where
  "http_request env path credentials req =
     bindE (get_auth_context (env_replica env) path credentials) (\<lambda>ctx. route env ctx req)"

primrec handle :: "environment \<Rightarrow> request \<Rightarrow> reply app_op" where
  "handle env (Api path credentials req) = http_request env path credentials req"
| "handle env (Webhook body signature) =
     respond R_status (ingest_mock_stripe_webhook (env_json_loads env) body signature)"
| "handle env (Aggregate_hour oi k t) = worker_task (on_session (aggregate_hourly oi k t))"
| "handle env (Aggregate_sweep now) = worker_task (on_session (aggregate_hourly_sweep now))"
| "handle env (Process_attempts now) =
     worker_task (on_session (process_due_attempts_task (env_retry env) (env_locked_attempt env) now))"
| "handle env (Enforce_grace now) =
     worker_task (enforce_grace_expiry_task (env_iterate env) (env_locked_row env) now)"
| "handle env (Sync_invoice i) = worker_task (on_session (sync_mock_stripe (env_provider env) i))"
| "handle env (Close_period oi start stop k) =
     worker_task (bindE (on_session (close_period oi start stop k)) (\<lambda>(result, _). returnE result))"
| "handle env (Create_partition y m) = worker_task (on_session (create_usage_partition_task y m))"
| "handle env (Reconcile_daily t) = worker_task (on_session (reconciliation_daily_task (env_registry env) t))"

text \<open>Each request has a session of its own, closed at the end: what is not committed is undone.\<close>

definition serve :: "environment \<Rightarrow> request \<Rightarrow> reply app_op" where
  "serve env req = finallyE (handle env req) (on_session rollback)"

text \<open>The platform: the application, and what the relay has written to the broker.\<close>

record platform =
  pf_app :: app
  pf_topic_log :: "kafka_record list"
  pf_send_no :: nat

datatype platform_event =
    Serve environment request
  | Poll environment "nat option"
  | Replay_letters "int list" bool

definition relay_on :: "'a relay_op \<Rightarrow> platform \<Rightarrow> platform" where
  "relay_on m p =
     (case m \<lparr>relay_session = app_session (pf_app p), topic_log = pf_topic_log p, send_no = pf_send_no p\<rparr> of
        (_, q) \<Rightarrow> \<lparr>pf_app = (pf_app p)\<lparr>app_session := snd (rollback (relay_session q))\<rparr>,
                   pf_topic_log = topic_log q, pf_send_no = send_no q\<rparr>)"

primrec platform_step :: "platform_event \<Rightarrow> platform \<Rightarrow> platform" where
  "platform_step (Serve env req) p = p\<lparr>pf_app := snd (serve env req (pf_app p))\<rparr>"
| "platform_step (Poll env batch) p = relay_on (poll_and_publish (env_broker env) (env_locked_row env) batch) p"
| "platform_step (Replay_letters ids dry_run) p = relay_on (replay_dead_letters ids dry_run) p"

definition run_platform :: "platform_event list \<Rightarrow> platform \<Rightarrow> platform" where
  "run_platform events p = fold platform_step events p"

section \<open>Steps of the application\<close>

context step_preorder
begin

lemma finallyE: "keeps R m \<Longrightarrow> keeps R n \<Longrightarrow> keeps R (finallyE m n)"
  unfolding finallyE_def keeps_def
  by (auto simp: case_prod_beta split: sum.split intro: step_trans)

lemma http_error: "keeps R (http_error c detail)"
  unfolding http_error_def by (rule raiseE)

lemma translate: "keeps R m \<Longrightarrow> keeps R (translate codes m)"
  unfolding translate_def by (intro combinators http_error)

lemma translate_value_error: "keeps R m \<Longrightarrow> keeps R (translate_value_error c m)"
  unfolding translate_value_error_def by (intro combinators http_error)

end

abbreviation keeps_app :: "(database \<Rightarrow> database \<Rightarrow> bool) \<Rightarrow> 'a app_op \<Rightarrow> bool" where
  "keeps_app D \<equiv> keeps (\<lambda>a b. D (committed (app_session a)) (db (app_session a)) \<longrightarrow>
     D (committed (app_session a)) (committed (app_session b)) \<and> D (committed (app_session b)) (db (app_session b)))"

text \<open>Work on caches and on read sessions leaves the rows of the primary alone.\<close>

abbreviation keeps_rows :: "'a app_op \<Rightarrow> bool" where
  "keeps_rows \<equiv> keeps (\<lambda>a b. db (app_session b) = db (app_session a) \<and> committed (app_session b) = committed (app_session a))"

interpretation rows: step_preorder
  "\<lambda>a b. db (app_session b) = db (app_session a) \<and> committed (app_session b) = committed (app_session a)"
  by unfold_locales simp_all

interpretation same: db_preorder "(=)"
  by unfold_locales simp_all

lemma rows_modify:
  assumes "\<And>a. app_session (f a) = app_session a"
  shows "keeps_rows (modifyE f)"
  using assms by (simp add: keeps_def)

lemma rows_on_session: "keeps_db (=) m \<Longrightarrow> keeps_rows (on_session m)"
  by (simp add: keeps_def on_session_def case_prod_beta)

lemma rows_on_read_session: "keeps_rows (on_read_session rep m)"
  by (simp add: keeps_def on_read_session_def Let_def split: prod.split)

lemma rows_time: "keeps_rows time_monotonic"
  by (simp add: keeps_def time_monotonic_def)

lemma rows_setting: "keeps_rows (setting f)"
  unfolding setting_def by (rule rows.getE)

lemma rows_redis:
  "keeps_rows (redis_get k)" "keeps_rows (redis_set k v ex)" "keeps_rows (redis_delete k)" "keeps_rows (redis_expire k n)"
  "keeps_rows (redis_ttl k)" "keeps_rows (drop_digest dg)" "keeps_rows (drop_key_id kid)" "keeps_rows (drop_snapshot oi)"
  "keeps_rows (drop_org u)" "keeps_rows (drop_org_id oi)" "keeps_rows (sleep others left)"
  unfolding redis_get_def redis_set_def redis_delete_def redis_expire_def redis_ttl_def drop_digest_def drop_key_id_def
    drop_snapshot_def drop_org_def drop_org_id_def sleep_def
  by (intro rows.getE rows_modify; simp split: option.split prod.split add: Let_def)+

lemmas rows_primitives = rows.combinators rows_time rows_setting rows_redis rows_modify


lemma rows_cache_auth_context: "keeps_rows (cache_auth_context dg ctx)"
  unfolding cache_auth_context_def by (intro rows_primitives; simp)

lemma rows_invalidate_auth_context: "keeps_rows (invalidate_auth_context kid)"
  unfolding invalidate_auth_context_def by (intro rows_primitives; simp)

lemma rows_get_cached_auth_context: "keeps_rows (get_cached_auth_context dg)"
  unfolding get_cached_auth_context_def by (intro rows_primitives rows_invalidate_auth_context rows_on_session same.now_utc; simp)

lemma rows_get_l1_snapshot: "keeps_rows (get_l1_snapshot oi)"
  unfolding get_l1_snapshot_def by (intro rows_primitives; simp)

lemma rows_set_l1_snapshot: "keeps_rows (set_l1_snapshot oi snap)"
  unfolding set_l1_snapshot_def by (intro rows_primitives; simp)

lemma rows_drop_l1_snapshot: "keeps_rows (drop_l1_snapshot oi)"
  unfolding drop_l1_snapshot_def by (intro rows_primitives; simp)

lemma rows_get_l1_org: "keeps_rows (get_l1_org u)"
  unfolding get_l1_org_def by (intro rows_primitives; simp)

lemma rows_set_l1_org: "keeps_rows (set_l1_org u oi)"
  unfolding set_l1_org_def by (intro rows_primitives; simp)

lemmas rows_maps = rows_cache_auth_context rows_invalidate_auth_context rows_get_cached_auth_context rows_get_l1_snapshot
  rows_set_l1_snapshot rows_drop_l1_snapshot rows_get_l1_org rows_set_l1_org

lemma rows_redis_incr: "keeps_rows (redis_incr k)"
  unfolding redis_incr_def by (intro rows_primitives) (auto intro!: rows_primitives split: redis_value.split)

lemma rows_redis_set_nx: "keeps_rows (redis_set_nx k v ex)"
  unfolding redis_set_nx_def by (intro rows_primitives)

lemma rows_increment_entitlement_version: "keeps_rows (increment_entitlement_version oi)"
  unfolding increment_entitlement_version_def
  by (intro rows_primitives rows_redis_set_nx rows_redis_incr rows_drop_l1_snapshot)

lemma rows_check_rate_limit: "keeps_rows (check_rate_limit kid limit now)"
  unfolding check_rate_limit_def incr_with_expire_def by (intro rows_primitives rows_redis_incr)

lemma rows_enforce_rate_limit: "keeps_rows (enforce_rate_limit_for_api_key kid limit)"
  unfolding enforce_rate_limit_for_api_key_def http_error_def
  by (intro rows_primitives rows_check_rate_limit rows_on_session same.primitives)

lemma rows_get_auth_context: "keeps_rows (get_auth_context rep path credentials)"
  unfolding get_auth_context_def authenticate_bearer_def http_error_def
  by (intro rows_primitives rows_get_cached_auth_context rows_on_read_session rows_enforce_rate_limit)

lemma rows_bump_organizations: "keeps_rows (bump_organizations orgs)"
  unfolding bump_organizations_def bump_entitlement_version_def
  by (intro rows_primitives rows_increment_entitlement_version)

lemma rows_get_cached_value: "keeps_rows (get_cached_value k)"
  unfolding get_cached_value_def by (intro rows_primitives)

lemma rows_wait_for_snapshot: "keeps_rows (wait_for_snapshot others k n)"
proof (induction n)
  case 0
  show ?case unfolding wait_for_snapshot.simps by (rule rows.returnE)
next
  case (Suc n)
  then show ?case unfolding wait_for_snapshot.simps by (intro rows_primitives rows_get_cached_value)
qed

lemma rows_stamp_cache_version: "keeps_rows (stamp_cache_version oi snap)"
  unfolding stamp_cache_version_def get_entitlement_version_def
  by (intro rows_primitives) (auto intro!: rows_primitives split: redis_value.split)

lemma rows_build_and_store: "keeps_rows builder \<Longrightarrow> keeps_rows (build_and_store oi ttl builder)"
  unfolding build_and_store_def set_cached_value_def
  by (intro rows_primitives rows_get_cached_value rows_stamp_cache_version)

lemma rows_cached_snapshot: "keeps_rows (cached_snapshot others No_database oi)"
  unfolding cached_snapshot_def get_or_build_cached_snapshot_def snapshot_builder_def db_source.simps
  by (intro rows_primitives rows.finallyE rows_get_l1_snapshot rows_set_l1_snapshot rows_get_cached_value
      rows_redis_set_nx rows_wait_for_snapshot rows_build_and_store rows_stamp_cache_version)

lemma rows_evaluate: "keeps_rows (evaluate others No_database oi u checks)"
  unfolding evaluate_def by (intro rows_primitives rows_cached_snapshot rows_on_session same.primitives)

lemma rows_post_evaluate: "keeps_rows (post_evaluate others rep ctx u checks)"
  unfolding post_evaluate_def known_organization_def evaluate_known_def translate_def assert_tenant_access_org_id_def
    http_error_def
  by (intro rows_primitives rows_get_l1_org rows_get_l1_snapshot rows_evaluate rows_on_read_session)

section \<open>Between requests\<close>

definition idle :: "platform \<Rightarrow> bool" where
  "idle p \<longleftrightarrow> db (app_session (pf_app p)) = committed (app_session (pf_app p)) \<and> \<not> tx_failed (app_session (pf_app p))"

lemma serve_closes:
  "db (app_session (snd (serve env req a))) = committed (app_session (snd (serve env req a))) \<and>
   \<not> tx_failed (app_session (snd (serve env req a)))"
  by (simp add: serve_def finallyE_def on_session_def case_prod_beta split: sum.split)

lemma idle_step: "idle (platform_step e p)"
  using serve_closes by (cases e) (simp_all add: idle_def relay_on_def case_prod_beta)

section \<open>Write footprint of the platform\<close>

text \<open>A relation that the writes of every component respect.\<close>

locale platform_client =
  webhook_client D + billing_client D + usage_client D + reconciliation_client D + catalog_client D +
  identity_client D + relay_client D for D :: "database \<Rightarrow> database \<Rightarrow> bool"
begin

lemma app_preorder: "step_preorder (\<lambda>a b. D (committed (app_session a)) (db (app_session a)) \<longrightarrow>
     D (committed (app_session a)) (committed (app_session b)) \<and> D (committed (app_session b)) (db (app_session b)))"
  by unfold_locales (auto intro: db_refl db_trans)

lemma app_tx: "keeps_tx D m \<Longrightarrow> keeps_app D (on_session m)"
  by (simp add: keeps_def on_session_def case_prod_beta)

lemma app_db: "keeps_db D m \<Longrightarrow> keeps_app D (on_session m)"
  by (intro app_tx in_transaction)

lemma app_rows: "keeps_rows m \<Longrightarrow> keeps_app D m"
  by (auto simp: keeps_def db_refl)

end

sublocale platform_client \<subseteq> app: step_preorder "\<lambda>a b. D (committed (app_session a)) (db (app_session a)) \<longrightarrow>
     D (committed (app_session a)) (committed (app_session b)) \<and> D (committed (app_session b)) (db (app_session b))"
  by (rule app_preorder)

context platform_client
begin

text \<open>Lookups of the routes, inside the transaction.\<close>

lemma require_organization: "keeps_db D (require_organization u)"
  unfolding require_organization_def get_organization_by_public_id_def resolve_organization_by_public_id_def http_error_def
  by (intro primitives)

lemma require_organization_by_id: "keeps_db D (require_organization_by_id i)"
  unfolding require_organization_by_id_def load_organization_by_id_def http_error_def by (intro primitives)

lemma require_subscription: "keeps_db D (require_subscription u)"
  unfolding require_subscription_def get_subscription_by_public_id_def http_error_def by (intro primitives)

lemma subscription_public_id: "keeps_db D (subscription_public_id si)"
  unfolding subscription_public_id_def by (intro primitives)

lemma assert_tenant_access: "keeps_db D (assert_tenant_access ctx g)"
  by (simp add: keeps_def db_refl)

lemma assert_ledger_read_access: "keeps_db D (assert_ledger_read_access ctx g)"
  unfolding assert_ledger_read_access_def by (intro primitives assert_tenant_access)

lemma load_api_key: "keeps_db D (load_api_key kid)"
  unfolding load_api_key_def http_error_def by (intro primitives)

lemma assert_rotate_access: "keeps_db D (assert_rotate_access ctx k)"
  unfolding assert_rotate_access_def http_error_def by (intro primitives)

lemma assert_revoke_access: "keeps_db D (assert_revoke_access ctx k)"
  unfolding assert_revoke_access_def http_error_def by (intro primitives)

lemma resolve_organization_id: "keeps_db D (resolve_organization_id ctx k)"
  unfolding resolve_organization_id_def http_error_def by (intro primitives assert_tenant_access)

lemma require_platform_admin: "keeps_db D (require_platform_admin ctx)"
  unfolding require_platform_admin_def http_error_def by (intro primitives)

lemma require_dunning_operator: "keeps_db D (require_dunning_operator ctx)"
  unfolding require_dunning_operator_def http_error_def by (intro primitives)

lemmas lookups = primitives require_organization require_organization_by_id require_subscription subscription_public_id
  assert_tenant_access assert_ledger_read_access load_api_key assert_rotate_access assert_revoke_access
  resolve_organization_id require_platform_admin require_dunning_operator

lemmas checks = lookups [THEN in_transaction]

text \<open>Routes that only read.\<close>

lemma get_organization_route: "keeps_db D (get_organization_route ctx u)"
  unfolding get_organization_route_def by (intro lookups)

lemma get_subscription_route: "keeps_db D (get_subscription_route ctx u)"
  unfolding get_subscription_route_def by (intro lookups)

lemma list_organization_subscriptions: "keeps_db D (list_organization_subscriptions ctx u)"
  unfolding list_organization_subscriptions_def list_subscriptions_for_organization_def by (intro lookups)

lemma list_organization_invoices: "keeps_db D (list_organization_invoices ctx u limit offset)"
  unfolding list_organization_invoices_def list_invoices_for_organization_def summary_step_def by (intro lookups)

lemma get_invoice_route: "keeps_db D (get_invoice_route ctx u)"
  unfolding get_invoice_route_def get_invoice_by_public_id_def list_line_items_for_invoice_def http_error_def
  by (intro lookups)

lemma list_organization_ledger: "keeps_db D (list_organization_ledger ctx u limit offset)"
  unfolding list_organization_ledger_def list_entries_for_organization_def by (intro lookups)

lemma get_ledger_entry: "keeps_db D (get_ledger_entry ctx u)"
  unfolding get_ledger_entry_def get_entry_by_public_id_def http_error_def by (intro lookups)

lemma get_snapshot: "keeps_db D (get_snapshot ctx)"
  unfolding get_snapshot_def http_error_def by (intro lookups get_catalog_snapshot)

lemma list_reconciliation_runs: "keeps_db D (list_reconciliation_runs ctx limit offset)"
  unfolding list_reconciliation_runs_def list_runs_def by (intro lookups)

lemma list_run_discrepancies: "keeps_db D (list_run_discrepancies ctx u limit offset)"
  unfolding list_run_discrepancies_def get_run_by_id_def list_discrepancies_for_run_def http_error_def by (intro lookups)

lemma list_dunning_campaigns: "keeps_db D (list_dunning_campaigns ctx fo fs limit offset)"
  unfolding list_dunning_campaigns_def resolve_list_filters_def filter_by_organization_def filter_by_subscription_def
    campaigns_to_responses_def list_campaigns_def http_error_def
  by (intro lookups)

lemmas reads = get_organization_route get_subscription_route list_organization_subscriptions list_organization_invoices
  get_invoice_route list_organization_ledger get_ledger_entry get_snapshot list_reconciliation_runs list_run_discrepancies
  list_dunning_campaigns

text \<open>Routes that write, up to their commit.\<close>

lemmas writes = transactions checks tx.http_error tx.translate tx.translate_value_error

lemma post_organization: "keeps_tx D (post_organization ctx n x e m k)"
  unfolding post_organization_def by (intro writes create_organization)

lemma patch_organization_route: "keeps_tx D (patch_organization_route ctx u n e m)"
  unfolding patch_organization_route_def by (intro writes update_organization_metadata [THEN in_transaction])

lemma post_api_key: "keeps_tx D (post_api_key ctx u role)"
  unfolding post_api_key_def by (intro writes create_api_key [THEN in_transaction])

lemma post_subscription: "keeps_tx D (post_subscription ctx u pid m k)"
  unfolding post_subscription_def by (intro writes create_subscription)

lemma post_cancel_subscription: "keeps_tx D (post_cancel_subscription ctx u b)"
  unfolding post_cancel_subscription_def by (intro writes cancel_subscription [THEN in_transaction])

lemma post_usage_events_batch: "keeps_tx D (post_usage_events_batch ctx u events)"
  unfolding post_usage_events_batch_def by (intro writes ingest_usage_batch [THEN in_transaction])

lemma post_product: "keeps_tx D (post_product ctx k n ds b)"
  unfolding post_product_def by (intro writes create_product [THEN in_transaction])

lemma committed_admin: "keeps_db D m \<Longrightarrow> keeps_tx D (committed_admin ctx m)"
  unfolding committed_admin_def by (intro writes) (rule in_transaction)

lemma catalog_routes:
  "keeps_tx D (post_plan ctx pr k iv tr gr du en)" "keeps_tx D (post_price ctx pid a cu mo me ex ac)"
  "keeps_tx D (post_feature ctx k' ft l r)" "keeps_tx D (put_plan_features ctx pid items)"
  "keeps_tx D (post_publish_plan ctx pid)"
  unfolding post_plan_def post_price_def post_feature_def put_plan_features_def post_publish_plan_def
  by (intro committed_admin create_plan create_price create_feature set_plan_features publish_plan)+

lemma trigger_reconciliation_run: "keeps_tx D (trigger_reconciliation_run provider ctx k)"
  unfolding trigger_reconciliation_run_def by (intro writes run_reconciliation [THEN in_transaction])

lemma operate_campaign:
  assumes "\<And>oi actor. keeps_db D (operation u oi actor)"
  shows "keeps_tx D (operate_campaign operation ctx u)"
  unfolding operate_campaign_def load_campaign_and_assert_tenant_def resolve_actor_key_id_def campaign_to_response_def
    require_subscription_public_id_def
  by (intro writes assms [THEN in_transaction])

lemma campaign_routes:
  "keeps_tx D (pause_dunning_campaign ctx u)" "keeps_tx D (resume_dunning_campaign ctx u)"
  unfolding pause_dunning_campaign_def resume_dunning_campaign_def
  by (intro operate_campaign pause_campaign resume_campaign)+

lemma accept_payload: "keeps_tx D (accept_payload v)"
proof (cases v)
  case (JObj p)
  show ?thesis unfolding accept_payload_def JObj json.case
    by (intro writes persist_webhook [THEN in_transaction] process_webhook [THEN in_transaction])
qed (simp_all add: accept_payload_def tx.http_error)

lemma check_signature: "keeps_tx D (check_signature body header)"
  unfolding check_signature_def by (intro writes)

text \<open>Tasks, and the routes that also work on the caches.\<close>

lemma parsed_now: "keeps_tx D (parsed_now now)"
  unfolding parsed_now_def by (intro writes)

lemma tasks:
  "keeps_tx D (aggregate_hourly oi k t)" "keeps_tx D (aggregate_hourly_sweep now)"
  "keeps_tx D (process_due_attempts_task retry locked now)" "keeps_tx D (sync_mock_stripe provider i)"
  "keeps_tx D (close_period oi start stop k)"
  unfolding aggregate_hourly_def run_aggregate_hourly_def aggregate_hourly_sweep_def run_aggregate_hourly_sweep_def
    process_due_attempts_task_def run_process_due_attempts_def sync_mock_stripe_def run_sync_def close_period_def
    run_period_close_def
  by (intro writes parsed_now close_billing_period aggregate_hour [THEN in_transaction]
      aggregate_pending_hours [THEN in_transaction] process_due_attempts [THEN in_transaction]
      sync_invoice_to_mock_stripe [THEN in_transaction])+

lemma create_usage_partition_task: "keeps_tx D (create_usage_partition_task y m)"
  unfolding create_usage_partition_task_def run_create_partition_def
  by (intro writes ensure_usage_partition [THEN in_transaction] ensure_current_and_next_partitions [THEN in_transaction])

lemma app_bump: "keeps_app D (bump_organizations orgs)"
  by (intro app_rows rows_bump_organizations)

lemma enforce_grace_expiry_task: "keeps_app D (enforce_grace_expiry_task iterate locked now)"
  unfolding enforce_grace_expiry_task_def run_enforce_grace_expiry_def
  by (intro app.combinators app_tx writes parsed_now enforce_grace_expiry [THEN in_transaction]
      app_rows [OF rows_increment_entitlement_version])

lemma post_change_plan: "keeps_app D (post_change_plan ctx u pid eff k)"
  unfolding post_change_plan_def
  by (intro app.combinators app_tx writes app_bump change_plan [THEN in_transaction] load_subscription [THEN in_transaction])

lemma post_rotate_api_key: "keeps_app D (post_rotate_api_key ctx kid)"
  unfolding post_rotate_api_key_def rotate_api_key_def assert_key_belongs_to_organization_def
  by (intro app.combinators app.translate_value_error app_tx writes load_active_api_key [THEN in_transaction]
      create_api_key [THEN in_transaction] app_rows [OF rows_invalidate_auth_context])

lemma post_revoke_api_key: "keeps_app D (post_revoke_api_key ctx kid)"
  unfolding post_revoke_api_key_def revoke_api_key_def
  by (intro app.combinators app.translate_value_error app_tx writes revoke_row [THEN in_transaction]
      app_rows [OF rows_invalidate_auth_context])

lemma post_invalidate: "keeps_app D (post_invalidate ctx u)"
  unfolding post_invalidate_def require_platform_admin_def get_organization_by_public_id_def
    resolve_organization_by_public_id_def bump_entitlement_version_def
  by (intro app.combinators app.http_error app_tx writes app_rows [OF rows_increment_entitlement_version])

lemma replay_webhook_event: "keeps_app D (replay_webhook_event ctx u)"
  unfolding replay_webhook_event_def require_platform_admin_def
  by (intro app.combinators app.http_error app_tx writes app_bump replay_webhook [THEN in_transaction])

lemma ingest_mock_stripe_webhook: "keeps_app D (ingest_mock_stripe_webhook json_loads body signature)"
proof -
  have "keeps_app D (case json_loads body of Not_json \<Rightarrow> http_error 400 ''invalid JSON payload''
      | Undecodable e \<Rightarrow> reraiseE e
      | Decoded v \<Rightarrow> bindE (on_session (accept_payload v)) (\<lambda>orgs. thenE (bump_organizations orgs) (returnE ''ok'')))"
    by (cases "json_loads body")
      (simp_all add: app.http_error app.reraiseE app.bindE app.thenE app.returnE app_tx accept_payload app_bump)
  then show ?thesis unfolding ingest_mock_stripe_webhook_def
    by (intro app.combinators app.http_error app_tx check_signature)
qed

text \<open>Every request keeps the relation.\<close>

lemmas session_routes = reads [THEN app_db] post_organization [THEN app_tx] patch_organization_route [THEN app_tx]
  post_api_key [THEN app_tx] post_subscription [THEN app_tx] post_cancel_subscription [THEN app_tx]
  post_usage_events_batch [THEN app_tx] post_product [THEN app_tx] catalog_routes [THEN app_tx]
  trigger_reconciliation_run [THEN app_tx] campaign_routes [THEN app_tx]

lemmas application_routes = post_change_plan post_rotate_api_key post_revoke_api_key post_invalidate replay_webhook_event
  app_rows [OF rows_post_evaluate] app_rows [OF rows_on_read_session]

lemma app_respond: "keeps_app D m \<Longrightarrow> keeps_app D (respond r m)"
  unfolding respond_def by (intro app.combinators)

lemma route: "keeps_app D (route env ctx req)"
  by (cases req) (simp_all add: app_respond session_routes application_routes)

lemma app_in_worker:
  assumes "keeps_app D m"
  shows "keeps_app D (in_worker m)"
proof (rule keepsI)
  fix a :: app
  let ?w = "a\<lparr>auth_by_digest := Map.empty, auth_by_key_id := Map.empty, snapshot_l1 := Map.empty,
    org_l1 := Map.empty, org_l1_by_id := Map.empty\<rparr>"
  obtain r b where m: "m ?w = (r, b)" by fastforce
  from keepsD [OF assms m] show "D (committed (app_session a)) (db (app_session a)) \<longrightarrow>
      D (committed (app_session a)) (committed (app_session (snd (in_worker m a)))) \<and>
      D (committed (app_session (snd (in_worker m a)))) (db (app_session (snd (in_worker m a))))"
    by (simp add: in_worker_def m)
qed

lemma app_worker: "keeps_app D m \<Longrightarrow> keeps_app D (worker_task m)"
  unfolding worker_task_def by (intro app_respond app_in_worker)

lemma handle: "keeps_app D (handle env req)"
proof (cases req)
  case (Api path credentials api)
  show ?thesis unfolding Api handle.simps http_request_def
    by (intro app.combinators route app_rows [OF rows_get_auth_context])
next
  case (Close_period oi start stop k)
  show ?thesis unfolding Close_period handle.simps by (intro app_worker app.combinators app_tx tasks)
qed (simp_all add: app_worker app_respond app_tx tasks ingest_mock_stripe_webhook enforce_grace_expiry_task
    create_usage_partition_task reconciliation_daily_task)

lemma serve: "keeps_app D (serve env req)"
  unfolding serve_def by (intro app.finallyE handle app_tx rollback)

text \<open>Between the steps of the platform, the rows of the running session are the committed ones.\<close>

abbreviation (input) later :: "platform \<Rightarrow> platform \<Rightarrow> bool" where
  "later p q \<equiv> D (committed (app_session (pf_app p))) (committed (app_session (pf_app q)))"

lemma relay_on_keeps:
  assumes "keeps_relay D m" "idle p"
  shows "later p (relay_on m p)"
proof -
  obtain r q where m: "m \<lparr>relay_session = app_session (pf_app p), topic_log = pf_topic_log p, send_no = pf_send_no p\<rparr> = (r, q)"
    by fastforce
  from keepsD [OF assms(1) m] show ?thesis using assms(2) m by (simp add: relay_on_def idle_def db_refl)
qed

lemma platform_step_keeps:
  assumes "idle p"
  shows "later p (platform_step e p)"
proof (cases e)
  case (Serve env req)
  obtain r b where m: "serve env req (pf_app p) = (r, b)" by fastforce
  from keepsD [OF serve m] show ?thesis using assms Serve m by (simp add: idle_def db_refl)
qed (simp_all add: relay_on_keeps assms poll_and_publish replay_dead_letters)

lemma run_platform_keeps: "idle p \<Longrightarrow> later p (run_platform events p)"
proof (induction events arbitrary: p)
  case Nil
  show ?case by (simp add: run_platform_def db_refl)
next
  case (Cons e events)
  then have "later (platform_step e p) (run_platform events (platform_step e p))" by (intro Cons.IH idle_step)
  then show ?case using platform_step_keeps [OF Cons.prems, of e] by (simp add: run_platform_def db_trans)
qed

end

section \<open>Instances\<close>

interpretation platform_log: platform_client ledger_extends
  by unfold_locales

interpretation platform_integrity: platform_client stays_ok
  by unfold_locales

interpretation platform_lifecycle: platform_client lifecycle_kept
  by unfold_locales (auto simp: usage_write_defs relay_write_defs intro: lifecycle_kept_same)

lemma totals_kept_same: "invoices e = invoices d \<Longrightarrow> invoice_line_items e = invoice_line_items d \<Longrightarrow> totals_kept d e"
  by (auto simp: totals_kept_def issued_kept_def totals_ok_def items_of_def item_sum_def)

lemma catalog_kept_same:
  assumes "products e = products d" "plans e = plans d" "prices e = prices d" "features e = features d"
    "plan_features e = plan_features d"
  shows "catalog_kept d e"
  using assms by (simp add: catalog_kept_def catalog_ok_def offers_kept_def plan_prices_def plan_links_def)

lemmas all_write_defs = write_defs invoice_write_defs usage_write_defs relay_write_defs reconciliation_write_defs
  catalog_write_defs identity_write_defs

interpretation platform_totals: platform_client totals_kept
  by unfold_locales (auto simp: all_write_defs intro: totals_kept_same)

interpretation platform_offers: platform_client catalog_kept
  by unfold_locales (auto simp: all_write_defs intro!: catalog_kept_same)

interpretation platform_keys: platform_client keys_kept
  by unfold_locales (auto simp: all_write_defs intro!: keys_kept_same)

section \<open>Any sequence of requests\<close>

abbreviation stored :: "platform \<Rightarrow> database" where
  "stored p \<equiv> committed (app_session (pf_app p))"

text \<open>
  A well-formed platform is between requests and its committed rows satisfy every constraint: keys
  and references, invoice totals, the catalog, and API keys.
\<close>

definition platform_ok :: "platform \<Rightarrow> bool" where
  "platform_ok p \<longleftrightarrow> idle p \<and> db_ok (stored p) \<and> totals_ok (stored p) \<and> catalog_ok (stored p) \<and> keys_ok (stored p)"

lemma idle_run: "idle p \<Longrightarrow> idle (run_platform events p)"
  by (induction events arbitrary: p) (simp_all add: run_platform_def idle_step)

text \<open>
  C1: The platform stays well formed. Whatever requests, webhooks, tasks, relay polls and replays are
  served, in whatever order, with whatever keys and arguments, and however the payment provider, the
  broker, Redis clients and replica behave, the committed database keeps its primary, unique and
  foreign keys, every invoice total is the sum of its line items, the catalog is consistent with one
  draft per plan key, and there is one API key per digest.
\<close>

theorem platform_stays_well_formed:
  assumes "platform_ok p"
  shows "platform_ok (run_platform events p)"
proof -
  have ok: "idle p" "db_ok (stored p)" "totals_ok (stored p)" "catalog_ok (stored p)" "keys_ok (stored p)"
    using assms by (simp_all add: platform_ok_def)
  have "db_ok (stored (run_platform events p))"
    using platform_integrity.run_platform_keeps [OF ok(1)] ok(2) by (simp add: stays_ok_def)
  moreover have "totals_ok (stored (run_platform events p))"
    using platform_totals.run_platform_keeps [OF ok(1)] ok(3) by (simp add: totals_kept_def)
  moreover have "catalog_ok (stored (run_platform events p))"
    using platform_offers.run_platform_keeps [OF ok(1)] ok(4) by (simp add: catalog_kept_def)
  moreover have "keys_ok (stored (run_platform events p))"
    using platform_keys.run_platform_keeps [OF ok(1)] ok(5) by (simp add: keys_kept_def)
  ultimately show ?thesis using idle_run [OF ok(1)] by (simp add: platform_ok_def)
qed

text \<open>
  C2: The platform never rewrites history. Over any sequence of requests, webhooks, tasks and relay
  steps, the ledger only grows at its end; every subscription keeps its identity and moves along the
  transition table; an issued invoice keeps its status as issued, its total and its line items; a
  published plan keeps its terms, prices and features; an API key keeps its owner and role, and a
  revoked one stays revoked.
\<close>

theorem platform_keeps_history:
  assumes "platform_ok p"
  shows "ledger_extends (stored p) (stored (run_platform events p)) \<and>
    lifecycle_kept (stored p) (stored (run_platform events p)) \<and>
    issued_kept (stored p) (stored (run_platform events p)) \<and>
    offers_kept (stored p) (stored (run_platform events p)) \<and>
    keys_kept (stored p) (stored (run_platform events p))"
proof -
  have ok: "idle p" "catalog_ok (stored p)" using assms by (simp_all add: platform_ok_def)
  show ?thesis
    using platform_log.run_platform_keeps [OF ok(1)] platform_lifecycle.run_platform_keeps [OF ok(1)]
      platform_totals.run_platform_keeps [OF ok(1)] platform_offers.run_platform_keeps [OF ok(1)] ok(2)
      platform_keys.run_platform_keeps [OF ok(1)]
    by (simp add: totals_kept_def catalog_kept_def)
qed

text \<open>A platform with a product, a plan, an organization, its subscription and its key, and some work for it.\<close>

definition platform_db :: database where
  "platform_db = keyed_db\<lparr>products := [sample_product]\<rparr>"

definition sample_platform :: platform where
  "sample_platform =
     \<lparr>pf_app = sample_app\<lparr>app_session := sample_session\<lparr>db := platform_db, committed := platform_db\<rparr>\<rparr>,
      pf_topic_log = [], pf_send_no = 0\<rparr>"

definition sample_events :: "platform_event list" where
  "sample_events =
     [Serve sample_environment (Api ''/v1/subscriptions'' (Some (''Bearer'', ''bp_local_demo''))
        (Cancel_subscription (sub_public_id sample_sub) False)),
      Serve sample_environment (Close_period 1 (Naive 0) (Naive (30 * day_us)) ''close-1''),
      Poll sample_environment None]"

lemma sample_platform_ok: "platform_ok sample_platform"
proof -
  have "db_ok platform_db = db_ok sample_db"
    by (simp add: platform_db_def keyed_db_def add_api_key_def integrity_defs)
  moreover have "totals_ok platform_db"
    by (simp add: platform_db_def keyed_db_def add_api_key_def totals_ok_def sample_db_def)
  moreover have "catalog_ok platform_db"
    using catalog_session_ok(1) by (simp add: catalog_ok_def catalog_session_def platform_db_def keyed_db_def add_api_key_def)
  moreover have "keys_ok platform_db" using keyed_ok(2) by (simp add: keyed_app_def platform_db_def keys_ok_def)
  ultimately show ?thesis using sample_ok by (simp add: platform_ok_def idle_def sample_platform_def)
qed

theorem platform_stays_well_formed_witness: "platform_ok (run_platform sample_events sample_platform)"
  using platform_stays_well_formed [OF sample_platform_ok] .

theorem platform_keeps_history_witness:
  "ledger_extends (stored sample_platform) (stored (run_platform sample_events sample_platform)) \<and>
   lifecycle_kept (stored sample_platform) (stored (run_platform sample_events sample_platform))"
  using platform_keeps_history [OF sample_platform_ok, of sample_events] by simp

end
