(* ===== verification/Mock_Stripe.thy ===== *)
theory Mock_Stripe
  imports Admin
begin

text \<open>
  The payment provider of the deployment (\<^verbatim>\<open>deploy/docker/mock_stripe_app.py\<close>), its client
  (\<^verbatim>\<open>integrations/mock_stripe/client.py\<close>), and the two loops that connect it with the platform: an
  invoice is transferred to the provider once, and a payment comes back as a signed webhook.
\<close>

section \<open>The registry\<close>

text \<open>
  The dictionaries of the service in insertion order, the draws of \<^verbatim>\<open>secrets\<close> and the readings of
  \<^verbatim>\<open>time.time()\<close> (in whole seconds) to come, and the bodies and signatures posted to the callback.
\<close>

record mock_stripe =
  ms_customers :: "(string \<times> json_object) list"
  ms_subscriptions :: "(string \<times> json_object) list"
  ms_invoices :: "(string \<times> json_object) list"
  ms_invoice_idempotency :: "(string \<times> string) list"
  ms_event_counter :: int
  ms_draws :: "nat \<Rightarrow> nat"
  ms_draw_pos :: nat
  ms_time :: "nat \<Rightarrow> int"
  ms_time_pos :: nat
  ms_posted :: "(string \<times> string) list"

type_synonym 'a mock_op = "(mock_stripe, 'a) sm"

text \<open>
  What surrounds the service: \<^verbatim>\<open>json.dumps\<close>, the webhook secret, and the answer of the callback to a
  post (\<open>None\<close> unless it is an error).
\<close>

record callback =
  cb_dumps :: "json \<Rightarrow> string"
  cb_secret :: string
  cb_post :: "string \<Rightarrow> string \<Rightarrow> py_error option"

definition token_hex :: "nat \<Rightarrow> string mock_op" where
  "token_hex n = (\<lambda>m. (Inr (hex_pad (2 * n) (ms_draws m (ms_draw_pos m) mod 256 ^ n)), m\<lparr>ms_draw_pos := Suc (ms_draw_pos m)\<rparr>))"

definition int_time :: "int mock_op" where
  "int_time = (\<lambda>m. (Inr (ms_time m (ms_time_pos m)), m\<lparr>ms_time_pos := Suc (ms_time_pos m)\<rparr>))"

definition next_mock_id :: "string \<Rightarrow> string mock_op" where
  "next_mock_id p = bindE (token_hex 8) (\<lambda>h. returnE (p @ ''_'' @ h))"

definition mock_sign_payload :: "string \<Rightarrow> string \<Rightarrow> int \<Rightarrow> string" where
  "mock_sign_payload payload secret t =
     (let ts = str_int t;
          digest = hexdigest (hmac_sha256 (encode_utf8 secret) (encode_utf8 (ts @ ''.'') @ payload))
      in ''t='' @ ts @ '',v1='' @ digest)"

lemma mock_sign_payload_eq: "mock_sign_payload payload secret t = sign_stripe_payload payload secret t"
  by (simp add: mock_sign_payload_def sign_stripe_payload_def digest_of_def Let_def)

definition mock_event :: "string \<Rightarrow> string \<Rightarrow> int \<Rightarrow> json_object \<Rightarrow> json_object" where
  "mock_event i event_type created ob =
     [(''id'', JStr i), (''object'', JStr ''event''), (''type'', JStr event_type), (''created'', JInt created),
      (''data'', JObj [(''object'', JObj ob)])]"

definition emit_webhook :: "callback \<Rightarrow> string \<Rightarrow> json_object \<Rightarrow> json_object mock_op" where
  "emit_webhook cb event_type ob =
     thenE (modifyE (\<lambda>m. m\<lparr>ms_event_counter := ms_event_counter m + 1\<rparr>))
     (bindE (getE ms_event_counter) (\<lambda>n.
      bindE (token_hex 4) (\<lambda>h.
      bindE int_time (\<lambda>created.
      let event = mock_event (''evt_'' @ pad 6 n @ ''_'' @ h) event_type created ob;
          payload = cb_dumps cb (JObj event) in
      bindE int_time (\<lambda>ts.
      let signature = mock_sign_payload payload (cb_secret cb) ts in
      thenE (modifyE (\<lambda>m. m\<lparr>ms_posted := ms_posted m @ [(payload, signature)]\<rparr>))
      (case cb_post cb payload signature of None \<Rightarrow> returnE event | Some e \<Rightarrow> reraiseE e))))))"

section \<open>Routes of the service\<close>

definition create_customer_route :: "string \<Rightarrow> string \<Rightarrow> json_object mock_op" where
  "create_customer_route org_public email =
     bindE (next_mock_id ''cus'') (\<lambda>i.
     let customer = [(''id'', JStr i), (''object'', JStr ''customer''), (''email'', JStr email),
       (''metadata'', JObj [(''organization_public_id'', JStr org_public)])] in
     thenE (modifyE (\<lambda>m. m\<lparr>ms_customers := AList.update i customer (ms_customers m)\<rparr>)) (returnE customer))"

definition require_customer :: "string \<Rightarrow> unit mock_op" where
  "require_customer c =
     bindE (getE (\<lambda>m. map_of (ms_customers m) c)) (\<lambda>found.
     case found of None \<Rightarrow> http_error 404 ''customer not found'' | Some _ \<Rightarrow> returnE ())"

definition create_subscription_route :: "string \<Rightarrow> string \<Rightarrow> int \<Rightarrow> json_object mock_op" where
  "create_subscription_route c price trial =
     thenE (require_customer c)
     (bindE (next_mock_id ''sub'') (\<lambda>si.
      bindE (next_mock_id ''in'') (\<lambda>i.
      let sub = [(''id'', JStr si), (''object'', JStr ''subscription''), (''customer'', JStr c),
            (''status'', JStr (if trial > 0 then ''trialing'' else ''incomplete'')),
            (''items'', JList [JObj [(''price'', JStr price)]]), (''trial_days'', JInt trial),
            (''latest_invoice'', JStr i)];
          invoice = [(''id'', JStr i), (''object'', JStr ''invoice''), (''customer'', JStr c),
            (''subscription'', JStr si), (''status'', JStr ''open''), (''amount_due'', JInt 1000),
            (''currency'', JStr ''usd'')] in
      thenE (modifyE (\<lambda>m. m\<lparr>ms_subscriptions := AList.update si sub (ms_subscriptions m),
                             ms_invoices := AList.update i invoice (ms_invoices m)\<rparr>))
        (returnE sub))))"

definition cancel_subscription_route :: "callback \<Rightarrow> string \<Rightarrow> json_object mock_op" where
  "cancel_subscription_route cb si =
     bindE (getE (\<lambda>m. map_of (ms_subscriptions m) si)) (\<lambda>found.
     case found of None \<Rightarrow> http_error 404 ''subscription not found''
     | Some sub \<Rightarrow>
         bindE int_time (\<lambda>now.
         let ended = obj_set ''canceled_at'' (JInt now) (obj_set ''status'' (JStr ''canceled'') sub) in
         thenE (modifyE (\<lambda>m. m\<lparr>ms_subscriptions := AList.update si ended (ms_subscriptions m)\<rparr>))
         (thenE (emit_webhook cb ''customer.subscription.deleted'' ended) (returnE ended))))"

definition create_invoice_route :: "string \<Rightarrow> int \<Rightarrow> string \<Rightarrow> string \<Rightarrow> json_object mock_op" where
  "create_invoice_route c amount currency k =
     thenE (require_customer c)
     (bindE (getE (\<lambda>m. Option.bind (map_of (ms_invoice_idempotency m) k) (map_of (ms_invoices m)))) (\<lambda>existing.
      case existing of Some invoice \<Rightarrow> returnE invoice
      | None \<Rightarrow>
          bindE (next_mock_id ''in'') (\<lambda>i.
          let invoice = [(''id'', JStr i), (''object'', JStr ''invoice''), (''customer'', JStr c),
            (''status'', JStr ''open''), (''amount_due'', JInt amount), (''currency'', JStr (lower currency))] in
          thenE (modifyE (\<lambda>m. m\<lparr>ms_invoices := AList.update i invoice (ms_invoices m),
                                 ms_invoice_idempotency := AList.update k i (ms_invoice_idempotency m)\<rparr>))
            (returnE invoice))))"

definition list_invoices_route :: "json_object mock_op" where
  "list_invoices_route =
     bindE (getE (\<lambda>m. map (JObj \<circ> snd) (ms_invoices m))) (\<lambda>rows.
     returnE [(''object'', JStr ''list''), (''data'', JList rows)])"

definition require_invoice :: "string \<Rightarrow> json_object mock_op" where
  "require_invoice i =
     bindE (getE (\<lambda>m. map_of (ms_invoices m) i)) (\<lambda>found.
     case found of None \<Rightarrow> http_error 404 ''invoice not found'' | Some invoice \<Rightarrow> returnE invoice)"

definition set_invoice :: "string \<Rightarrow> json_object \<Rightarrow> unit mock_op" where
  "set_invoice i invoice = modifyE (\<lambda>m. m\<lparr>ms_invoices := AList.update i invoice (ms_invoices m)\<rparr>)"

text \<open>A subscription that the registry knows becomes active with the payment.\<close>

definition activate_subscription :: "json \<Rightarrow> unit mock_op" where
  "activate_subscription si =
     (case si of JStr x \<Rightarrow>
        if x = [] then returnE ()
        else modifyE (\<lambda>m. case map_of (ms_subscriptions m) x of None \<Rightarrow> m
          | Some sub \<Rightarrow> m\<lparr>ms_subscriptions := AList.update x (obj_set ''status'' (JStr ''active'') sub) (ms_subscriptions m)\<rparr>)
      | _ \<Rightarrow> returnE ())"

definition paid_invoice :: "json_object \<Rightarrow> json_object" where
  "paid_invoice invoice = obj_set ''paid'' (JBool True) (obj_set ''status'' (JStr ''paid'') invoice)"

definition pay_invoice :: "callback \<Rightarrow> string \<Rightarrow> json_object mock_op" where
  "pay_invoice cb i =
     bindE (require_invoice i) (\<lambda>invoice.
     let settled = paid_invoice invoice in
     thenE (set_invoice i settled)
     (thenE (activate_subscription (obj_get settled ''subscription''))
     (thenE (emit_webhook cb ''invoice.paid'' settled) (returnE settled))))"

text \<open>\<^verbatim>\<open>attempt_count\<close> is only ever set here, to a number.\<close>

definition retry_invoice :: "string \<Rightarrow> json_object mock_op" where
  "retry_invoice i =
     bindE (require_invoice i) (\<lambda>invoice.
     let n = (case json_int (obj_get invoice ''attempt_count'') of None \<Rightarrow> 0 | Some n \<Rightarrow> n);
         retried = obj_set ''attempt_count'' (JInt (n + 1)) invoice in
     thenE (set_invoice i retried) (returnE retried))"

definition seed_invoice ::
  "string \<Rightarrow> string \<Rightarrow> int \<Rightarrow> int option \<Rightarrow> string \<Rightarrow> string option \<Rightarrow> string option \<Rightarrow> json_object mock_op" where
  "seed_invoice i status due amount_paid currency customer sub =
     (let invoice = [(''id'', JStr i), (''object'', JStr ''invoice''), (''status'', JStr status), (''amount_due'', JInt due),
            (''currency'', JStr currency)]
          @ (case amount_paid of None \<Rightarrow> [] | Some p \<Rightarrow> [(''amount_paid'', JInt p)])
          @ (case customer of None \<Rightarrow> [] | Some c \<Rightarrow> [(''customer'', JStr c)])
          @ (case sub of None \<Rightarrow> [] | Some x \<Rightarrow> [(''subscription'', JStr x)])
          @ (if status = ''paid'' then [(''paid'', JBool True)] else [])
      in thenE (set_invoice i invoice) (returnE invoice))"

definition emit_test_webhook :: "callback \<Rightarrow> string \<Rightarrow> json_object \<Rightarrow> json_object mock_op" where
  "emit_test_webhook cb event_type ob = emit_webhook cb event_type ob"

text \<open>The service as a whole: the requests it serves, one after the other, each with its callback.\<close>

datatype mock_request =
    CreateCustomer string string
  | CreateSubscription string string int
  | CancelSubscription string
  | CreateInvoice string int string string
  | ListInvoices
  | PayInvoice string
  | RetryInvoice string
  | SeedInvoice string string int "int option" string "string option" "string option"
  | EmitTestWebhook string json_object

fun mock_route :: "callback \<Rightarrow> mock_request \<Rightarrow> json_object mock_op" where
  "mock_route cb (CreateCustomer org_public email) = create_customer_route org_public email"
| "mock_route cb (CreateSubscription c price trial) = create_subscription_route c price trial"
| "mock_route cb (CancelSubscription si) = cancel_subscription_route cb si"
| "mock_route cb (CreateInvoice c amount currency k) = create_invoice_route c amount currency k"
| "mock_route cb ListInvoices = list_invoices_route"
| "mock_route cb (PayInvoice i) = pay_invoice cb i"
| "mock_route cb (RetryInvoice i) = retry_invoice i"
| "mock_route cb (SeedInvoice i status due amount_paid currency customer sub) =
     seed_invoice i status due amount_paid currency customer sub"
| "mock_route cb (EmitTestWebhook event_type ob) = emit_test_webhook cb event_type ob"

definition mock_serve :: "(callback \<times> mock_request) list \<Rightarrow> mock_stripe \<Rightarrow> mock_stripe" where
  "mock_serve qs m = fold (\<lambda>(cb, q) m. snd (mock_route cb q m)) qs m"

section \<open>The client\<close>

text \<open>\<^verbatim>\<open>response.raise_for_status()\<close> turns an error answer into an exception of the client.\<close>

definition raise_for_status :: "'a mock_op \<Rightarrow> 'a mock_op" where
  "raise_for_status m = catchE m (\<lambda>e. raiseE ProviderError (str_exc e))"

definition body_id :: "json_object \<Rightarrow> string mock_op" where
  "body_id body = (case map_of body ''id'' of None \<Rightarrow> raiseE KeyError ''id'' | Some v \<Rightarrow> returnE (py_str v))"

definition client_create_customer :: "string \<Rightarrow> string \<Rightarrow> string mock_op" where
  "client_create_customer org_public email = bindE (raise_for_status (create_customer_route org_public email)) body_id"

definition client_create_subscription :: "string \<Rightarrow> string \<Rightarrow> int \<Rightarrow> string mock_op" where
  "client_create_subscription c price trial = bindE (raise_for_status (create_subscription_route c price trial)) body_id"

definition client_cancel_subscription :: "callback \<Rightarrow> string \<Rightarrow> unit mock_op" where
  "client_cancel_subscription cb si = thenE (raise_for_status (cancel_subscription_route cb si)) (returnE ())"

definition client_create_invoice :: "string \<Rightarrow> int \<Rightarrow> string \<Rightarrow> string \<Rightarrow> string mock_op" where
  "client_create_invoice c amount currency k = bindE (raise_for_status (create_invoice_route c amount currency k)) body_id"

definition client_list_invoices :: "json_object list mock_op" where
  "client_list_invoices =
     bindE (raise_for_status list_invoices_route) (\<lambda>body.
     returnE (case obj_get body ''data'' of JList rows \<Rightarrow> List.map_filter json_obj rows | _ \<Rightarrow> []))"

definition client_retry_invoice_payment :: "string \<Rightarrow> json_object mock_op" where
  "client_retry_invoice_payment i = raise_for_status (retry_invoice i)"

section \<open>Invariant\<close>

text \<open>Every invoice is filed under its identifier, and every remembered key belongs to an invoice.\<close>

definition mock_ok :: "mock_stripe \<Rightarrow> bool" where
  "mock_ok m \<longleftrightarrow> distinct (map fst (ms_invoices m)) \<and> (\<forall>q \<in> set (ms_invoices m). obj_get (snd q) ''id'' = JStr (fst q)) \<and>
     snd ` set (ms_invoice_idempotency m) \<subseteq> fst ` set (ms_invoices m)"

text \<open>Customers stay known and a remembered key keeps its invoice.\<close>

definition memory_kept :: "mock_stripe \<Rightarrow> mock_stripe \<Rightarrow> bool" where
  "memory_kept m n \<longleftrightarrow> fst ` set (ms_customers m) \<subseteq> fst ` set (ms_customers n) \<and>
     map_of (ms_invoice_idempotency m) \<subseteq>\<^sub>m map_of (ms_invoice_idempotency n)"

definition mock_step :: "mock_stripe \<Rightarrow> mock_stripe \<Rightarrow> bool" where
  "mock_step m n \<longleftrightarrow> (mock_ok m \<longrightarrow> mock_ok n \<and> memory_kept m n)"

abbreviation keeps_mock :: "'a mock_op \<Rightarrow> bool" where
  "keeps_mock \<equiv> keeps mock_step"

lemma memory_kept_refl [simp]: "memory_kept m m"
  by (simp add: memory_kept_def)

lemma memory_kept_trans:
  assumes "memory_kept l m" "memory_kept m n"
  shows "memory_kept l n"
  using assms map_le_trans [of "map_of (ms_invoice_idempotency l)" "map_of (ms_invoice_idempotency m)"]
    subset_trans [of "fst ` set (ms_customers l)" "fst ` set (ms_customers m)"]
  by (simp add: memory_kept_def)

interpretation mock_inv: step_preorder mock_step
proof unfold_locales
  show "mock_step m m" for m by (simp add: mock_step_def)
  show "mock_step l m \<Longrightarrow> mock_step m n \<Longrightarrow> mock_step l n" for l m n
    unfolding mock_step_def using memory_kept_trans by blast
qed

lemma memory_kept_other [simp]:
  "memory_kept m (m\<lparr>ms_subscriptions := ss\<rparr>)" "memory_kept m (m\<lparr>ms_event_counter := c\<rparr>)"
  "memory_kept m (m\<lparr>ms_draw_pos := p\<rparr>)" "memory_kept m (m\<lparr>ms_time_pos := p\<rparr>)" "memory_kept m (m\<lparr>ms_posted := ps\<rparr>)"
  "memory_kept m (m\<lparr>ms_invoices := vs\<rparr>)" "memory_kept m (m\<lparr>ms_subscriptions := ss, ms_invoices := vs\<rparr>)"
  "memory_kept m (m\<lparr>ms_customers := AList.update k v (ms_customers m)\<rparr>)"
  by (auto simp: memory_kept_def dom_update)

lemma mock_ok_other [simp]:
  "mock_ok (m\<lparr>ms_customers := cs\<rparr>) = mock_ok m" "mock_ok (m\<lparr>ms_subscriptions := ss\<rparr>) = mock_ok m"
  "mock_ok (m\<lparr>ms_event_counter := n\<rparr>) = mock_ok m" "mock_ok (m\<lparr>ms_draw_pos := p\<rparr>) = mock_ok m"
  "mock_ok (m\<lparr>ms_time_pos := p\<rparr>) = mock_ok m" "mock_ok (m\<lparr>ms_posted := ps\<rparr>) = mock_ok m"
  by (simp_all add: mock_ok_def)

lemma mock_ok_put:
  assumes "mock_ok m" "obj_get v ''id'' = JStr i"
  shows "mock_ok (m\<lparr>ms_invoices := AList.update i v (ms_invoices m)\<rparr>)"
proof -
  let ?al = "AList.update i v (ms_invoices m)"
  have "obj_get (snd q) ''id'' = JStr (fst q)" if "q \<in> set ?al" for q
  proof -
    have "q = (i, v) \<or> q \<in> set (ms_invoices m)"
      using that set_update_subset [of i v "ms_invoices m"] by auto
    then show ?thesis
    proof
      assume "q = (i, v)"
      then show ?thesis using assms(2) by simp
    next
      assume "q \<in> set (ms_invoices m)"
      then show ?thesis using assms(1) by (simp add: mock_ok_def)
    qed
  qed
  moreover have "distinct (map fst ?al)" using assms(1) by (simp add: mock_ok_def distinct_update)
  moreover have "snd ` set (ms_invoice_idempotency m) \<subseteq> fst ` set ?al"
    using assms(1) by (auto simp: mock_ok_def dom_update)
  ultimately show ?thesis by (simp add: mock_ok_def)
qed

lemma mock_ok_remember:
  assumes "mock_ok m" "i \<in> fst ` set (ms_invoices m)"
  shows "mock_ok (m\<lparr>ms_invoice_idempotency := AList.update k i (ms_invoice_idempotency m)\<rparr>)"
proof -
  have "snd ` set (AList.update k i (ms_invoice_idempotency m)) \<subseteq> insert i (snd ` set (ms_invoice_idempotency m))"
    using set_update_subset [of k i "ms_invoice_idempotency m"] by force
  moreover have "insert i (snd ` set (ms_invoice_idempotency m)) \<subseteq> fst ` set (ms_invoices m)"
    using assms by (simp add: mock_ok_def)
  ultimately have "snd ` set (AList.update k i (ms_invoice_idempotency m)) \<subseteq> fst ` set (ms_invoices m)" by (rule subset_trans)
  then show ?thesis using assms(1) by (simp add: mock_ok_def)
qed

lemma mock_ok_found: "mock_ok m \<Longrightarrow> map_of (ms_invoices m) i = Some v \<Longrightarrow> obj_get v ''id'' = JStr i"
  unfolding mock_ok_def by (drule map_of_SomeD) fastforce

lemma mock_modify: "(\<And>m. mock_ok m \<Longrightarrow> mock_ok (f m) \<and> memory_kept m (f m)) \<Longrightarrow> keeps_mock (modifyE f)"
  by (simp add: keeps_def mock_step_def)

lemma mock_draws: "keeps_mock (token_hex n)" "keeps_mock int_time"
  by (simp_all add: keeps_def mock_step_def token_hex_def int_time_def)

lemma mock_next_id: "keeps_mock (next_mock_id p)"
  unfolding next_mock_id_def by (intro mock_inv.combinators mock_draws)

lemma mock_http_error: "keeps_mock (http_error c detail)"
  by (simp add: keeps_def mock_step_def)

lemma mock_emit: "keeps_mock (emit_webhook cb et ob)"
  unfolding emit_webhook_def by (intro mock_inv.combinators mock_draws mock_modify) simp_all

lemma mock_require_customer: "keeps_mock (require_customer c)"
  unfolding require_customer_def by (intro mock_inv.combinators mock_http_error)

lemma mock_create_customer: "keeps_mock (create_customer_route o' e)"
  unfolding create_customer_route_def by (intro mock_inv.combinators mock_next_id mock_modify) simp

lemma mock_create_subscription: "keeps_mock (create_subscription_route c p t)"
  unfolding create_subscription_route_def
  by (intro mock_inv.combinators mock_require_customer mock_next_id mock_modify)
    (simp add: obj_get_def mock_ok_put [of "m\<lparr>ms_subscriptions := ss\<rparr>" for m ss, simplified])

lemma mock_ok_key:
  assumes "mock_ok m" "map_of (ms_invoice_idempotency m) k = Some i"
  shows "\<exists>v. map_of (ms_invoices m) i = Some v"
proof -
  have "i \<in> snd ` set (ms_invoice_idempotency m)" using map_of_SomeD [OF assms(2)] by force
  then have "i \<in> fst ` set (ms_invoices m)" using assms(1) by (auto simp: mock_ok_def)
  then show ?thesis by (auto simp: map_of_eq_None_iff simp flip: not_None_eq)
qed

lemma create_invoice_unknown_customer:
  "map_of (ms_customers m) c = None \<Longrightarrow>
     create_invoice_route c amount currency k m = (Inl (Exc (HTTPException 404) ''customer not found''), m)"
  by (simp add: create_invoice_route_def require_customer_def)

lemma create_invoice_new:
  assumes "map_of (ms_customers m) c \<noteq> None" "map_of (ms_invoice_idempotency m) k = None"
  shows "\<exists>i v. map_of v ''id'' = Some (JStr i) \<and> create_invoice_route c amount currency k m =
    (Inr v, m\<lparr>ms_draw_pos := Suc (ms_draw_pos m), ms_invoices := AList.update i v (ms_invoices m),
      ms_invoice_idempotency := AList.update k i (ms_invoice_idempotency m)\<rparr>)"
proof -
  define i where "i = ''in_'' @ hex_pad 16 (ms_draws m (ms_draw_pos m) mod 256 ^ 8)"
  have "next_mock_id ''in'' m = (Inr i, m\<lparr>ms_draw_pos := Suc (ms_draw_pos m)\<rparr>)"
    by (simp add: next_mock_id_def token_hex_def bindE_def i_def)
  then show ?thesis using assms
    by (intro exI [of _ i] exI) (auto simp: create_invoice_route_def require_customer_def Let_def)
qed

lemma create_invoice_existing:
  assumes "mock_ok m" "map_of (ms_customers m) c \<noteq> None" "map_of (ms_invoice_idempotency m) k = Some i"
  shows "\<exists>v. map_of v ''id'' = Some (JStr i) \<and> create_invoice_route c amount currency k m = (Inr v, m)"
proof -
  obtain v where v: "map_of (ms_invoices m) i = Some v" using mock_ok_key [OF assms(1,3)] by blast
  have "map_of v ''id'' = Some (JStr i)"
    using mock_ok_found [OF assms(1) v] by (simp add: obj_get_def split: option.splits)
  then show ?thesis
    using assms(2,3) v by (auto simp: create_invoice_route_def require_customer_def)
qed

lemma mock_step_remember:
  assumes "map_of (ms_invoice_idempotency m) k = None" "map_of v ''id'' = Some (JStr i)"
  shows "mock_step m (m\<lparr>ms_draw_pos := p, ms_invoices := AList.update i v (ms_invoices m),
    ms_invoice_idempotency := AList.update k i (ms_invoice_idempotency m)\<rparr>)" (is "mock_step m ?n")
  unfolding mock_step_def
proof (intro impI conjI)
  assume "mock_ok m"
  then have "mock_ok (m\<lparr>ms_draw_pos := p, ms_invoices := AList.update i v (ms_invoices m)\<rparr>)"
    using mock_ok_put [of "m\<lparr>ms_draw_pos := p\<rparr>" v i] assms(2) by (simp add: obj_get_def)
  from mock_ok_remember [OF this, of i k] show "mock_ok ?n" by (simp add: dom_update)
  show "memory_kept m ?n" using assms(1) by (auto simp: memory_kept_def update_conv' map_le_def)
qed

lemma mock_create_invoice: "keeps_mock (create_invoice_route c a cu k)"
proof (rule keepsI)
  fix m
  show "mock_step m (snd (create_invoice_route c a cu k m))"
  proof (cases "map_of (ms_customers m) c = None")
    case True
    then show ?thesis by (simp add: create_invoice_unknown_customer mock_inv.step_refl)
  next
    case c: False
    show ?thesis
    proof (cases "map_of (ms_invoice_idempotency m) k")
      case None
      obtain i v where "map_of v ''id'' = Some (JStr i)" "create_invoice_route c a cu k m =
        (Inr v, m\<lparr>ms_draw_pos := Suc (ms_draw_pos m), ms_invoices := AList.update i v (ms_invoices m),
          ms_invoice_idempotency := AList.update k i (ms_invoice_idempotency m)\<rparr>)"
        using create_invoice_new [OF c None] by blast
      then show ?thesis using mock_step_remember [OF None] by simp
    next
      case (Some i)
      show ?thesis using create_invoice_existing [OF _ c Some, of a cu] by (auto simp: mock_step_def)
    qed
  qed
qed

lemma mock_cancel_subscription: "keeps_mock (cancel_subscription_route cb si)"
  unfolding cancel_subscription_route_def
  by (intro mock_inv.combinators mock_http_error mock_draws mock_emit mock_modify) simp

lemma mock_seed: "keeps_mock (seed_invoice i st due ap cu c x)"
  unfolding seed_invoice_def set_invoice_def
  by (intro mock_inv.combinators mock_modify conjI mock_ok_put) (simp_all add: obj_get_def)

text \<open>An invoice changed in place keeps its identifier.\<close>

lemma mock_change:
  assumes "\<And>v. obj_get (f v) ''id'' = obj_get v ''id''" "\<And>v. keeps_mock (n v)"
  shows "keeps_mock (bindE (require_invoice i) (\<lambda>v. thenE (set_invoice i (f v)) (n v)))"
proof (rule keepsI)
  fix m
  show "mock_step m (snd (bindE (require_invoice i) (\<lambda>v. thenE (set_invoice i (f v)) (n v)) m))"
  proof (cases "map_of (ms_invoices m) i")
    case None
    then show ?thesis by (simp add: require_invoice_def mock_step_def)
  next
    case (Some v)
    let ?m = "m\<lparr>ms_invoices := AList.update i (f v) (ms_invoices m)\<rparr>"
    have "mock_step m ?m"
      using mock_ok_found [OF _ Some] assms(1) by (simp add: mock_step_def mock_ok_put)
    moreover have "mock_step ?m (snd (n v ?m))" using assms(2) [of v] by (simp add: keeps_def)
    ultimately have "mock_step m (snd (n v ?m))" by (rule mock_inv.step_trans)
    then show ?thesis using Some by (simp add: require_invoice_def set_invoice_def)
  qed
qed

lemma mock_activate: "keeps_mock (activate_subscription si)"
  unfolding activate_subscription_def
  by (cases si) (auto intro!: mock_inv.combinators mock_modify split: option.split)

lemma mock_pay: "keeps_mock (pay_invoice cb i)"
  unfolding pay_invoice_def Let_def
  by (intro mock_change mock_inv.combinators mock_activate mock_emit) (simp add: paid_invoice_def)

lemma mock_retry: "keeps_mock (retry_invoice i)"
  unfolding retry_invoice_def Let_def by (intro mock_change mock_inv.combinators) simp

lemma mock_list: "keeps_mock list_invoices_route"
  unfolding list_invoices_route_def by (intro mock_inv.combinators)

lemma mock_route_step: "keeps_mock (mock_route cb q)"
  by (cases q) (simp_all add: mock_create_customer mock_create_subscription mock_cancel_subscription mock_create_invoice
      mock_list mock_pay mock_retry mock_seed mock_emit emit_test_webhook_def)

lemma mock_serve_step: "mock_step m (mock_serve qs m)"
proof (induction qs arbitrary: m)
  case (Cons q qs)
  obtain cb r where q: "q = (cb, r)" by force
  have "mock_step m (snd (mock_route cb r m))" using mock_route_step [of cb r] by (simp add: keeps_def)
  then show ?case using Cons mock_inv.step_trans by (fastforce simp: mock_serve_def q)
qed (simp add: mock_serve_def mock_step_def)

section \<open>An invoice is transferred once\<close>

lemma create_invoice_known:
  assumes "mock_ok m" "map_of (ms_customers m) c \<noteq> None" "map_of (ms_invoice_idempotency m) k = Some i"
  shows "client_create_invoice c amount currency k m = (Inr i, m)"
  using create_invoice_existing [OF assms, of amount currency]
  by (auto simp: client_create_invoice_def raise_for_status_def body_id_def py_str_def bindE_def catchE_def)

lemma create_invoice_remembers:
  assumes "client_create_invoice c amount currency k m = (Inr i, n)" "mock_ok m"
  shows "map_of (ms_customers n) c \<noteq> None \<and> map_of (ms_invoice_idempotency n) k = Some i \<and> mock_ok n"
proof (cases "map_of (ms_customers m) c = None")
  case True
  then show ?thesis using assms(1)
    by (simp add: client_create_invoice_def raise_for_status_def create_invoice_unknown_customer catchE_def)
next
  case c: False
  show ?thesis
  proof (cases "map_of (ms_invoice_idempotency m) k")
    case None
    obtain j v where v: "map_of v ''id'' = Some (JStr j)" "create_invoice_route c amount currency k m =
      (Inr v, m\<lparr>ms_draw_pos := Suc (ms_draw_pos m), ms_invoices := AList.update j v (ms_invoices m),
        ms_invoice_idempotency := AList.update k j (ms_invoice_idempotency m)\<rparr>)"
      using create_invoice_new [OF c None] by blast
    then have n: "j = i" "n = m\<lparr>ms_draw_pos := Suc (ms_draw_pos m), ms_invoices := AList.update j v (ms_invoices m),
        ms_invoice_idempotency := AList.update k j (ms_invoice_idempotency m)\<rparr>"
      using assms(1) by (auto simp: client_create_invoice_def raise_for_status_def body_id_def py_str_def bindE_def catchE_def)
    have "mock_ok n" using mock_step_remember [OF None v(1)] assms(2) n(2) by (simp add: mock_step_def)
    then show ?thesis using c n by (simp add: update_conv')
  next
    case (Some j)
    then show ?thesis using create_invoice_known [OF assms(2) c Some] assms c by simp
  qed
qed

text \<open>
  C6: An invoice is created at the provider once per idempotency key. Once the client has created an
  invoice under a key, whatever requests the provider serves in between, a repeated call for the same
  customer with this key returns the same invoice, whatever amount and currency it asks for, and
  leaves the registry as it is; so a transfer that is retried after its answer was lost does not bill
  twice.
\<close>

theorem invoice_created_once:
  assumes "mock_ok m" "client_create_invoice c amount currency k m = (Inr i, n)"
  shows "client_create_invoice c amount' currency' k (mock_serve qs n) = (Inr i, mock_serve qs n)"
proof -
  note n = create_invoice_remembers [OF assms(2,1)]
  have "mock_ok (mock_serve qs n)" "memory_kept n (mock_serve qs n)"
    using mock_serve_step [of n qs] n by (simp_all add: mock_step_def)
  moreover from this(2) have "map_of (ms_customers (mock_serve qs n)) c \<noteq> None"
    using n by (auto simp: memory_kept_def map_of_eq_None_iff)
  moreover have "map_of (ms_invoice_idempotency (mock_serve qs n)) k = Some i"
    using \<open>memory_kept n (mock_serve qs n)\<close> n by (metis domI map_le_def memory_kept_def)
  ultimately show ?thesis by (intro create_invoice_known)
qed

section \<open>A payment comes back\<close>

lemma check_signature_accepts:
  assumes "mock_stripe_webhook_secret (settings s) = secret" "secret \<noteq> []"
    and "\<bar>clock s (clock_pos s) div second_us - ts\<bar> \<le> webhook_timestamp_tolerance_seconds (settings s)"
  shows "check_signature body (mock_sign_payload body secret ts) s = (Inr (), s\<lparr>clock_pos := Suc (clock_pos s)\<rparr>)"
proof -
  have "verify_stripe_signature body (sign_stripe_payload body secret ts) secret
      (webhook_timestamp_tolerance_seconds (settings s)) (mock_stripe_webhook_secret_previous (settings s))
      (clock s (clock_pos s) div second_us) = Inr ()"
    using signed_accepted [of secret secret] assms(2,3) by blast
  then show ?thesis using assms(1)
    by (simp add: check_signature_def mock_sign_payload_eq translate_def now_utc_def bindE_def catchE_def)
qed

lemma bump_one:
  "\<exists>b. bump_organizations {oi} a = (Inr (), b) \<and> app_session b = app_session a"
proof -
  let ?k = "entitlement_version_key oi"
  have "\<exists>x c. redis_set_nx ?k (RInt 1) None a = (Inr x, c) \<and> app_session c = app_session a"
    by (cases "redis_live a ?k") (auto simp: redis_set_nx_def redis_get_def redis_set_def)
  then obtain x c where nx: "redis_set_nx ?k (RInt 1) None a = (Inr x, c)" "app_session c = app_session a"
    by blast
  have "\<exists>r b. redis_incr ?k c = (r, b) \<and> app_session b = app_session c \<and>
      (case r of Inl e \<Rightarrow> exc_class_of e = ResponseError | Inr _ \<Rightarrow> True)"
    by (auto simp: redis_incr_def split: option.splits redis_value.splits prod.splits)
  then obtain r b where r: "redis_incr ?k c = (r, b)" "app_session b = app_session c"
    "case r of Inl e \<Rightarrow> exc_class_of e = ResponseError | Inr _ \<Rightarrow> True" by blast
  show ?thesis
    using nx r by (cases r)
      (simp_all add: bump_organizations_def bump_entitlement_version_def increment_entitlement_version_def
        redis_delete_def drop_l1_snapshot_run)
qed

text \<open>The payload of a payment event, stored and processed.\<close>

lemma stored_webhook:
  assumes "ready s" "fresh_ids (Suc k) s" "webhook_event_ok w (db s)" "wh_id w = upcoming_uuid s"
    and "provider_event_id w \<notin> provider_event_id ` set (webhook_events (db s))"
  shows "ready ((after_uuid s)\<lparr>db := add_webhook_event w (db s)\<rparr>)"
    and "fresh_ids k ((after_uuid s)\<lparr>db := add_webhook_event w (db s)\<rparr>)"
proof -
  have "fresh provider_event_id w (webhook_events (db s))" using assms(5)
    by (simp add: fresh_iff image_iff) metis
  then have "db_ok (add_webhook_event w (db s))" using db_ok_add_webhook_event readyD(2) assms(1,3) by blast
  then show "ready ((after_uuid s)\<lparr>db := add_webhook_event w (db s)\<rparr>)"
    using assms(1) by (simp add: ready_def sequence_ahead_def add_webhook_event_def)
  show "fresh_ids k ((after_uuid s)\<lparr>db := add_webhook_event w (db s)\<rparr>)"
    by (rule fresh_ids_drawn [OF assms(2), of _ "clock_pos s"])
      (auto simp: after_uuid_def add_webhook_event_def used_ids_def assms(4) upcoming_uuid_draw)
qed

lemma accept_paid_event:
  assumes s: "ready s" "fresh_ids 2 s" and i: "i \<noteq> []" "i \<notin> provider_event_id ` set (webhook_events (db s))"
    and ob: "obj_get ob ''subscription'' = JStr x" "x \<noteq> []"
    and r: "r \<in> set (subscriptions (db s))" "external_subscription_id r = Some x"
      "sub_status r \<in> {trialing, incomplete, past_due}"
    and key: "\<forall>e \<in> set (ledger_entries (db s)).
      le_idempotency_key e \<noteq> ''webhook:'' @ uuid_str (upcoming_uuid s) @ '':ledger:invoice_paid''"
  shows "\<exists>t e. accept_payload (JObj (mock_event i ''invoice.paid'' created ob)) s = (Inr {sub_organization_id r}, t) \<and>
    committed t = db t \<and> subscriptions (db t) = map (\<lambda>q. if q = r then r\<lparr>sub_status := active,
      past_due_entered_at := None, sub_updated_at := tx_now s\<rparr> else q) (subscriptions (db s)) \<and>
    ledger_entries (db t) = ledger_entries (db s) @ [e] \<and> entry_type e = invoice_paid \<and>
    amount_cents e = paid_amount ob \<and> obj_get (le_metadata e) ''invoice_external_id'' = JStr (invoice_text_id ob)"
proof -
  let ?p = "mock_event i ''invoice.paid'' created ob"
  let ?w = "\<lparr>wh_id = upcoming_uuid s, wh_provider = PROVIDER_MOCK_STRIPE, provider_event_id = i,
    wh_event_type = ''invoice.paid'', wh_payload = ?p, wh_status = RECEIVED, processing_attempts = 0,
    wh_last_error = None, received_at = tx_now s, processed_at = None\<rparr>"
  let ?t = "(after_uuid s)\<lparr>db := add_webhook_event ?w (db s)\<rparr>"
  have fr: "fresh_ids (Suc 1) s" using s(2) by (simp add: numeral_2_eq_2)
  note persisted = persist_webhook_new [OF readyD(1) [OF s(1)] fr i(2) refl,
    where pr = PROVIDER_MOCK_STRIPE and et = "''invoice.paid''" and p = ?p]
  have t: "ready ?t" "fresh_ids 1 ?t" using stored_webhook [OF s(1) fr persisted(2)] i(2) by simp_all
  have ab: "about_subscription ?w ob r"
    using ob r(2) by (simp add: about_subscription_def mock_event_def obj_get_def)
  have w: "?w \<in> set (webhook_events (db ?t))" by (simp add: add_webhook_event_def)
  have rt: "r \<in> set (subscriptions (db ?t))" using r(1) by (simp add: add_webhook_event_def)
  have kt: "\<forall>e \<in> set (ledger_entries (db ?t)). le_idempotency_key e \<noteq> webhook_key ?w @ '':ledger:invoice_paid''"
    using key by (simp add: add_webhook_event_def webhook_key_def)
  obtain u e where u: "process_webhook (wh_id ?w) ?t = (Inr {sub_organization_id r}, u)" "\<not> tx_failed u"
    "subscriptions (db u) = map (\<lambda>q. if q = r then r\<lparr>sub_status := active, past_due_entered_at := None,
      sub_updated_at := tx_now ?t\<rparr> else q) (subscriptions (db ?t))"
    "ledger_entries (db u) = ledger_entries (db ?t) @ [e]" "entry_type e = invoice_paid"
    "amount_cents e = paid_amount ob" "obj_get (le_metadata e) ''invoice_external_id'' = JStr (invoice_text_id ob)"
    using process_invoice_paid [OF t w _ _ ab rt r(3) kt] by (simp del: after_uuid_simps) blast
  have "accept_payload (JObj ?p) s = (Inr {sub_organization_id r}, u\<lparr>committed := db u, tx_now := clock u (clock_pos u)\<rparr>)"
    using persisted(1) u(1,2) i(1)
    by (simp add: accept_payload_def mock_event_def obj_get_def truthy_def py_str_def commit_def)
  then show ?thesis using u by (intro exI) (auto simp: add_webhook_event_def)
qed

text \<open>
  The callback of the service is the platform's webhook route: a post fails when the route answers
  with an error.
\<close>

definition webhook_callback :: "(json \<Rightarrow> string) \<Rightarrow> (string \<Rightarrow> decoded) \<Rightarrow> string \<Rightarrow> app \<Rightarrow> callback" where
  "webhook_callback dumps json_loads secret a =
     \<lparr>cb_dumps = dumps, cb_secret = secret, cb_post = (\<lambda>body signature.
        case fst (ingest_mock_stripe_webhook json_loads body (Some signature) a) of
          Inl e \<Rightarrow> Some e | Inr _ \<Rightarrow> None)\<rparr>"

text \<open>The next event of the registry about an object, and the payload posted for it.\<close>

definition next_event :: "mock_stripe \<Rightarrow> string \<Rightarrow> json_object \<Rightarrow> json_object" where
  "next_event m et ob =
     mock_event (''evt_'' @ pad 6 (ms_event_counter m + 1) @ ''_'' @ hex_pad 8 (ms_draws m (ms_draw_pos m) mod 256 ^ 4))
       et (ms_time m (ms_time_pos m)) ob"

definition event_identifier :: "json_object \<Rightarrow> string" where
  "event_identifier ev = (case obj_get ev ''id'' of JStr i \<Rightarrow> i | _ \<Rightarrow> [])"

lemma next_event_identifier: "event_identifier (next_event m et ob) =
    ''evt_'' @ pad 6 (ms_event_counter m + 1) @ ''_'' @ hex_pad 8 (ms_draws m (ms_draw_pos m) mod 256 ^ 4)"
  by (simp add: event_identifier_def next_event_def mock_event_def obj_get_def)

lemma pay_invoice_run:
  assumes "map_of (ms_invoices m) i = Some v"
    and "body = cb_dumps cb (JObj (next_event m ''invoice.paid'' (paid_invoice v)))"
    and "signature = mock_sign_payload body (cb_secret cb) (ms_time m (Suc (ms_time_pos m)))"
    and "cb_post cb body signature = None"
  shows "\<exists>n. pay_invoice cb i m = (Inr (paid_invoice v), n) \<and> ms_posted n = ms_posted m @ [(body, signature)] \<and>
    ms_invoices n = AList.update i (paid_invoice v) (ms_invoices m)"
proof -
  define m1 where "m1 = m\<lparr>ms_invoices := AList.update i (paid_invoice v) (ms_invoices m)\<rparr>"
  obtain m2 where m2: "activate_subscription (obj_get (paid_invoice v) ''subscription'') m1 = (Inr (), m2)"
    "\<exists>ss. m2 = m1\<lparr>ms_subscriptions := ss\<rparr>"
  proof -
    have "\<exists>m2. activate_subscription (obj_get (paid_invoice v) ''subscription'') m1 = (Inr (), m2) \<and>
        (\<exists>ss. m2 = m1\<lparr>ms_subscriptions := ss\<rparr>)"
      by (cases "obj_get (paid_invoice v) ''subscription''")
        (auto simp: activate_subscription_def intro: exI [of _ "ms_subscriptions m1"] split: option.split)
    then show ?thesis using that by blast
  qed
  show ?thesis
    using m2 assms(1,4) unfolding assms(2,3)
    by (auto simp: pay_invoice_def require_invoice_def set_invoice_def m1_def emit_webhook_def token_hex_def
        int_time_def next_event_def bindE_def Let_def)
qed

lemma bump_one_org:
  assumes "on_session m a = (Inr {oi}, b)"
  shows "\<exists>c. bindE (on_session m) (\<lambda>orgs. thenE (bump_organizations orgs) (returnE ''ok'')) a = (Inr ''ok'', c) \<and>
    app_session c = app_session b"
  using assms bump_one [of oi b] by (auto simp: bindE_def)

lemma ingest_runs:
  assumes "check_signature body signature (app_session a) = (Inr (), s)" "json_loads body = Decoded v"
    and "accept_payload v s = (Inr {oi}, t)"
  shows "\<exists>b. ingest_mock_stripe_webhook json_loads body (Some signature) a = (Inr ''ok'', b) \<and> app_session b = t"
proof -
  have "on_session (accept_payload v) (a\<lparr>app_session := s\<rparr>) = (Inr {oi}, a\<lparr>app_session := t\<rparr>)"
    using assms(3) by (simp add: on_session_def)
  from bump_one_org [OF this] show ?thesis
    using assms(1,2) by (simp add: ingest_mock_stripe_webhook_def on_session_def bindE_def)
qed

text \<open>The index of the platform's payments after a payment was posted.\<close>

lemma platform_index_posted:
  assumes "ledger_entries d' = ledger_entries d @ [e]" "entry_type e = invoice_paid"
    and "obj_get (le_metadata e) ''invoice_external_id'' = JStr i" "i \<noteq> []"
  shows "\<exists>p. map_of (platform_index d') i = Some p \<and> pir_amount_cents p = amount_cents e \<and> pir_status p = ''paid''"
proof -
  have "payment_entry e" "nonempty_str (obj_get (le_metadata e) ''invoice_external_id'') = Some i"
    using assms(2,3,4) by (simp_all add: payment_entry_def nonempty_str_def json_str_def)
  then show ?thesis using assms(1) by (simp add: platform_index_def dict_of_snoc update_conv')
qed

lemma paid_invoice_fields:
  "obj_get (paid_invoice v) ''id'' = obj_get v ''id''" "obj_get (paid_invoice v) ''subscription'' = obj_get v ''subscription''"
  "obj_get (paid_invoice v) ''amount_paid'' = obj_get v ''amount_paid''"
  "obj_get (paid_invoice v) ''amount_due'' = obj_get v ''amount_due''"
  "obj_get (paid_invoice v) ''status'' = JStr ''paid''"
  by (simp_all add: paid_invoice_def)

lemma invoice_text_id_eq: "obj_get v ''id'' = JStr i \<Longrightarrow> invoice_text_id v = i"
  by (auto simp: invoice_text_id_def obj_get_def py_str_def split: option.splits)

lemma listed_invoice:
  assumes "map_of (ms_invoices n) i = Some v"
  shows "\<exists>rows. client_list_invoices n = (Inr rows, n) \<and> v \<in> set rows"
proof -
  have "List.map_filter json_obj (map (JObj \<circ> snd) al) = map snd al" for al :: "(string \<times> json_object) list"
    by (induction al) (simp_all add: List.map_filter_simps json_obj_def)
  then have "client_list_invoices n = (Inr (map snd (ms_invoices n)), n)"
    by (simp add: client_list_invoices_def list_invoices_route_def raise_for_status_def obj_get_def)
  moreover have "v \<in> set (map snd (ms_invoices n))" using map_of_SomeD [OF assms] by force
  ultimately show ?thesis by blast
qed

text \<open>Whether an invoice says what was paid, or that nothing was due.\<close>

definition amount_stated :: "json_object \<Rightarrow> bool" where
  "amount_stated v \<longleftrightarrow> json_int (obj_get v ''amount_paid'') \<noteq> None \<or> json_int (obj_get v ''amount_due'') \<in> {None, Some 0}"

lemma paid_invoice_compared:
  assumes "map_of index i = Some p" "pir_amount_cents p = paid_amount (paid_invoice v)" "pir_status p = ''paid''"
    and "obj_get v ''id'' = JStr i" "i \<noteq> []"
  shows "compare_invoice index (paid_invoice v) = [] \<longleftrightarrow> amount_stated v"
proof -
  have i: "nonempty_str (obj_get (paid_invoice v) ''id'') = Some j \<longleftrightarrow> j = i" for j
    using assms(4,5) by (auto simp: paid_invoice_fields nonempty_str_def json_str_def)
  show ?thesis
    using assms(1,2,3) unfolding compare_invoice_Nil i
    by (auto simp: stripe_invoice_amount_cents_def stripe_invoice_status_def paid_invoice_fields paid_amount_def
        amount_stated_def split: option.splits)
qed

text \<open>
  C5: A payment travels end to end. Paying a subscription's invoice at the provider posts exactly one
  signed event, and the webhook route accepts it when both sides share the secret, the clocks agree
  within the tolerance, the event is new and its subscription waits for a payment: the call at the
  provider succeeds, the subscription becomes active, and one ledger entry over the amount that the
  event states is committed. Reconciliation then finds nothing to say about this invoice if and only
  if the invoice states what was paid or nothing was due; an invoice that the provider makes with a
  subscription states neither, and is reported.
\<close>

theorem payment_end_to_end:
  assumes cb: "cb = webhook_callback dumps json_loads secret a"
    and s: "s = (app_session a)\<lparr>clock_pos := Suc (clock_pos (app_session a))\<rparr>" "ready s" "fresh_ids 2 s"
    and m: "mock_ok m" "map_of (ms_invoices m) i = Some v" "i \<noteq> []" "obj_get v ''subscription'' = JStr x" "x \<noteq> []"
    and ev: "ev = next_event m ''invoice.paid'' (paid_invoice v)" "json_loads (dumps (JObj ev)) = Decoded (JObj ev)"
      "event_identifier ev \<notin> provider_event_id ` set (webhook_events (db s))"
    and secret: "mock_stripe_webhook_secret (settings s) = secret" "secret \<noteq> []"
    and clocks: "\<bar>clock s (clock_pos (app_session a)) div second_us - ms_time m (Suc (ms_time_pos m))\<bar>
      \<le> webhook_timestamp_tolerance_seconds (settings s)"
    and r: "r \<in> set (subscriptions (db s))" "external_subscription_id r = Some x"
      "sub_status r \<in> {trialing, incomplete, past_due}"
    and key: "\<forall>e \<in> set (ledger_entries (db s)).
      le_idempotency_key e \<noteq> ''webhook:'' @ uuid_str (upcoming_uuid s) @ '':ledger:invoice_paid''"
  shows "\<exists>n body signature b e. pay_invoice cb i m = (Inr (paid_invoice v), n) \<and>
    ms_posted n = ms_posted m @ [(body, signature)] \<and>
    ingest_mock_stripe_webhook json_loads body (Some signature) a = (Inr ''ok'', b) \<and>
    committed (app_session b) = db (app_session b) \<and>
    subscriptions (db (app_session b)) = map (\<lambda>q. if q = r then r\<lparr>sub_status := active,
      past_due_entered_at := None, sub_updated_at := tx_now s\<rparr> else q) (subscriptions (db s)) \<and>
    ledger_entries (db (app_session b)) = ledger_entries (db s) @ [e] \<and> entry_type e = invoice_paid \<and>
    amount_cents e = paid_amount v \<and>
    (\<exists>rows. client_list_invoices n = (Inr rows, n) \<and> paid_invoice v \<in> set rows) \<and>
    (compare_invoice (platform_index (db (app_session b))) (paid_invoice v) = [] \<longleftrightarrow> amount_stated v)"
proof -
  define body where "body = dumps (JObj ev)"
  define signature where "signature = mock_sign_payload body secret (ms_time m (Suc (ms_time_pos m)))"
  note id_v = mock_ok_found [OF m(1,2)]
  have ev_eq: "ev = mock_event (event_identifier ev) ''invoice.paid'' (ms_time m (ms_time_pos m)) (paid_invoice v)"
    unfolding ev(1) next_event_identifier by (simp add: next_event_def)
  have "check_signature body signature (app_session a) = (Inr (), s)"
    using check_signature_accepts [of "app_session a" secret "ms_time m (Suc (ms_time_pos m))" body] secret clocks
    by (simp add: s(1) signature_def)
  moreover obtain t e where t: "accept_payload (JObj ev) s = (Inr {sub_organization_id r}, t)" "committed t = db t"
    "subscriptions (db t) = map (\<lambda>q. if q = r then r\<lparr>sub_status := active,
      past_due_entered_at := None, sub_updated_at := tx_now s\<rparr> else q) (subscriptions (db s))"
    "ledger_entries (db t) = ledger_entries (db s) @ [e]" "entry_type e = invoice_paid"
    "amount_cents e = paid_amount (paid_invoice v)"
    "obj_get (le_metadata e) ''invoice_external_id'' = JStr (invoice_text_id (paid_invoice v))"
    using accept_paid_event [OF s(2,3) _ ev(3) _ m(5) r key, of "paid_invoice v" "ms_time m (ms_time_pos m)"] m(4)
    unfolding ev_eq [symmetric] by (auto simp: paid_invoice_fields ev(1) next_event_identifier)
  ultimately obtain b where b: "ingest_mock_stripe_webhook json_loads body (Some signature) a = (Inr ''ok'', b)"
    "app_session b = t"
    using ingest_runs [of body signature a s json_loads "JObj ev"] ev(2) by (auto simp: body_def)
  have "invoice_text_id (paid_invoice v) = i" using id_v by (intro invoice_text_id_eq) (simp add: paid_invoice_fields)
  then obtain p where p: "map_of (platform_index (db t)) i = Some p" "pir_amount_cents p = paid_amount (paid_invoice v)"
    "pir_status p = ''paid''"
    using platform_index_posted [OF t(4,5) _ m(3)] t(6,7) by auto
  have "cb_post cb body signature = None" using b(1) by (simp add: cb webhook_callback_def)
  then obtain n where n: "pay_invoice cb i m = (Inr (paid_invoice v), n)" "ms_posted n = ms_posted m @ [(body, signature)]"
    "ms_invoices n = AList.update i (paid_invoice v) (ms_invoices m)"
    using pay_invoice_run [OF m(2), of body cb signature]
    by (auto simp: cb webhook_callback_def body_def signature_def ev(1))
  have "\<exists>rows. client_list_invoices n = (Inr rows, n) \<and> paid_invoice v \<in> set rows"
    using listed_invoice [of n i] n(3) by (simp add: update_conv')
  moreover have "paid_amount (paid_invoice v) = paid_amount v" by (simp add: paid_amount_def paid_invoice_fields)
  ultimately show ?thesis
    using n(1,2) b t(2-6) paid_invoice_compared [OF p id_v m(3)]
    by (intro exI [of _ n] exI [of _ body] exI [of _ signature] exI [of _ b] exI [of _ e]) simp
qed

section \<open>Witness\<close>

definition open_invoice :: json_object where
  "open_invoice =
     [(''id'', JStr ''in_1''), (''object'', JStr ''invoice''), (''customer'', JStr ''cus_1''),
      (''subscription'', JStr ''sub_demo_seed_001''), (''status'', JStr ''open''), (''amount_due'', JInt 1000),
      (''currency'', JStr ''usd'')]"

definition sample_registry :: mock_stripe where
  "sample_registry =
     \<lparr>ms_customers = [], ms_subscriptions = [], ms_invoices = [(''in_1'', open_invoice)],
      ms_invoice_idempotency = [], ms_event_counter = 1, ms_draws = (\<lambda>_. 0), ms_draw_pos = 0,
      ms_time = (\<lambda>_. 432000), ms_time_pos = 0, ms_posted = []\<rparr>"

definition payer_session :: session where
  "payer_session = (hook_session past_due_sub paid_hook)\<lparr>settings := default_settings\<lparr>mock_stripe_webhook_secret := ''whsec''\<rparr>\<rparr>"

definition sample_event :: json_object where
  "sample_event = next_event sample_registry ''invoice.paid'' (paid_invoice open_invoice)"

definition sample_loads :: "string \<Rightarrow> decoded" where
  "sample_loads body = (if body = ''event'' then Decoded (JObj sample_event) else Not_json)"

abbreviation payer :: app where
  "payer \<equiv> sample_app\<lparr>app_session := payer_session\<rparr>"

lemma payer_session_ready:
  "ready (payer_session\<lparr>clock_pos := c\<rparr>)" "fresh_ids 2 (payer_session\<lparr>clock_pos := c\<rparr>)"
proof -
  have "ready (hook_session past_due_sub paid_hook)" by (rule hook_session_ready) simp
  then show "ready (payer_session\<lparr>clock_pos := c\<rparr>)" by (simp add: payer_session_def ready_def sequence_ahead_def)
  have "fresh_ids 2 (hook_session past_due_sub paid_hook)" by (rule fresh_ids_le [OF hook_session_fresh]) simp_all
  then show "fresh_ids 2 (payer_session\<lparr>clock_pos := c\<rparr>)"
    by (rule fresh_ids_same) (simp_all add: payer_session_def)
qed

lemma payer_session_simps [simp]:
  "subscriptions (db payer_session) = [past_due_sub]" "webhook_events (db payer_session) = [paid_hook]"
  "ledger_entries (db payer_session) = []" "clock payer_session = (\<lambda>n. 5 * day_us + int n)" "clock_pos payer_session = 0"
  "mock_stripe_webhook_secret (settings payer_session) = ''whsec''"
  "webhook_timestamp_tolerance_seconds (settings payer_session) = 300"
  by (simp_all add: payer_session_def sample_session_def default_settings_def)

definition silent_callback :: callback where
  "silent_callback = \<lparr>cb_dumps = (\<lambda>_. []), cb_secret = ''whsec'', cb_post = (\<lambda>_ _. None)\<rparr>"

theorem invoice_created_once_witness:
  "\<exists>i n. client_create_invoice ''cus_1'' 500 ''USD'' ''key''
       (sample_registry\<lparr>ms_customers := [(''cus_1'', [])]\<rparr>) = (Inr i, n) \<and>
     (let u = mock_serve [(silent_callback, PayInvoice ''in_1''), (silent_callback, CreateCustomer ''org'' ''a@b.c'')] n
      in client_create_invoice ''cus_1'' 900 ''EUR'' ''key'' u = (Inr i, u))"
proof -
  let ?m = "sample_registry\<lparr>ms_customers := [(''cus_1'', [])]\<rparr>"
  have ok: "mock_ok ?m" by (simp add: mock_ok_def sample_registry_def open_invoice_def obj_get_def)
  obtain i v n where "map_of v ''id'' = Some (JStr i)" "create_invoice_route ''cus_1'' 500 ''USD'' ''key'' ?m = (Inr v, n)"
    using create_invoice_new [of ?m "''cus_1''" "''key''" 500 "''USD''"] by (auto simp: sample_registry_def)
  then have "client_create_invoice ''cus_1'' 500 ''USD'' ''key'' ?m = (Inr i, n)"
    by (simp add: client_create_invoice_def raise_for_status_def body_id_def py_str_def bindE_def catchE_def)
  then show ?thesis using invoice_created_once [OF ok] by (simp add: Let_def)
qed

theorem payment_end_to_end_witness:
  "\<exists>n body signature b e.
     pay_invoice (webhook_callback (\<lambda>_. ''event'') sample_loads ''whsec'' payer) ''in_1'' sample_registry =
       (Inr (paid_invoice open_invoice), n) \<and> ms_posted n = [(body, signature)] \<and>
     ingest_mock_stripe_webhook sample_loads body (Some signature) payer = (Inr ''ok'', b) \<and>
     map sub_status (subscriptions (db (app_session b))) = [active] \<and>
     ledger_entries (db (app_session b)) = [e] \<and> amount_cents e = 0 \<and>
     compare_invoice (platform_index (db (app_session b))) (paid_invoice open_invoice) \<noteq> []"
proof -
  have reg: "mock_ok sample_registry" "map_of (ms_invoices sample_registry) ''in_1'' = Some open_invoice"
    "obj_get open_invoice ''subscription'' = JStr ''sub_demo_seed_001''" "ms_posted sample_registry = []"
    by (simp_all add: mock_ok_def sample_registry_def open_invoice_def obj_get_def)
  have ev: "event_identifier sample_event \<notin> {''evt_1''}"
    by (simp add: sample_event_def next_event_identifier append_eq_Cons_conv)
  have amounts: "paid_amount open_invoice = 0" "\<not> amount_stated open_invoice"
    by (simp_all add: open_invoice_def paid_amount_def amount_stated_def obj_get_def)
  have clocks: "\<bar>clock payer_session 0 div second_us - ms_time sample_registry (Suc (ms_time_pos sample_registry))\<bar> \<le> 300"
    by (simp add: sample_registry_def)
  show ?thesis
    using payment_end_to_end [OF refl refl, of payer sample_registry "''in_1''" open_invoice "''sub_demo_seed_001''"
        sample_event sample_loads "\<lambda>_. ''event''" "''whsec''" past_due_sub]
      payer_session_ready [of 1] reg ev amounts clocks
    by (auto simp: sample_event_def sample_loads_def)
qed

end
