(* ===== verification/Migrations.thy ===== *)
theory Migrations
  imports Usage
begin

text \<open>
  The schema migrations (\<^verbatim>\<open>alembic/versions\<close>): the statements of every \<^verbatim>\<open>upgrade()\<close> and \<^verbatim>\<open>downgrade()\<close> in
  their order, on a catalog of tables, enumeration types and partitions. A statement that the database
  refuses gives \<open>None\<close>: a name that is taken or unknown, a column or key that a constraint needs and does
  not find, an object that others still depend on.
\<close>

section \<open>The catalog\<close>

datatype col_type =
    BigInteger | Integer | Uuid | String nat | Text | JSONB | DateTime_tz | Boolean | Numeric nat nat | Enum string

datatype server_default = Now | Empty_object | Lit string

record column =
  col_name :: string
  col_type :: col_type
  col_nullable :: bool
  col_identity :: bool
  col_default :: "server_default option"

definition required :: "string \<Rightarrow> col_type \<Rightarrow> column" where
  "required n ty = \<lparr>col_name = n, col_type = ty, col_nullable = False, col_identity = False, col_default = None\<rparr>"

definition nullable :: "string \<Rightarrow> col_type \<Rightarrow> column" where
  "nullable n ty = (required n ty)\<lparr>col_nullable := True\<rparr>"

definition defaulted :: "string \<Rightarrow> col_type \<Rightarrow> server_default \<Rightarrow> column" where
  "defaulted n ty v = (required n ty)\<lparr>col_default := Some v\<rparr>"

definition identity :: "string \<Rightarrow> column" where
  "identity n = (required n BigInteger)\<lparr>col_identity := True\<rparr>"

datatype row_condition = Is_null string | Equals string string

record index_def =
  ix_name :: string
  ix_columns :: "string list"
  ix_unique :: bool
  ix_where :: "row_condition option"

definition index_on :: "string \<Rightarrow> string list \<Rightarrow> bool \<Rightarrow> row_condition option \<Rightarrow> index_def" where
  "index_on n cols u w = \<lparr>ix_name = n, ix_columns = cols, ix_unique = u, ix_where = w\<rparr>"

datatype table_constraint =
    Primary_key "string list"
  | Unique "string option" "string list"
  | Foreign_key "string list" string "string list"

record table_def =
  tb_columns :: "column list"
  tb_constraints :: "table_constraint list"
  tb_indexes :: "index_def list"
  tb_partition_key :: "string option"

record partition_def =
  pt_name :: string
  pt_parent :: string
  pt_from :: instant
  pt_to :: instant
  pt_indexes :: "index_def list"

text \<open>The names of the partitions are kept apart from those of the other relations.\<close>

record catalog =
  ct_tables :: "(string \<times> table_def) list"
  ct_types :: "(string \<times> string list) list"
  ct_partitions :: "partition_def list"

definition empty_catalog :: catalog where
  "empty_catalog = \<lparr>ct_tables = [], ct_types = [], ct_partitions = []\<rparr>"

section \<open>Statements\<close>

datatype ddl =
    Create_table string "column list" "table_constraint list" "string option"
  | Drop_table string
  | Create_index string index_def
  | Drop_index string
  | Add_column string column
  | Drop_column string string
  | Add_unique string string "string list"
  | Drop_constraint string string
  | Alter_column_type string string col_type
  | Create_type string "string list"
  | Drop_type string
  | Create_partition string string instant instant
  | Create_partition_index string index_def
  | Delete_rows string

definition column_names :: "table_def \<Rightarrow> string list" where
  "column_names t = map col_name (tb_columns t)"

fun constraint_name :: "table_constraint \<Rightarrow> string option" where
  "constraint_name (Unique n _) = n"
| "constraint_name _ = None"

fun constraint_columns :: "table_constraint \<Rightarrow> string list" where
  "constraint_columns (Primary_key cols) = cols"
| "constraint_columns (Unique _ cols) = cols"
| "constraint_columns (Foreign_key cols _ _) = cols"

text \<open>Tables, indexes and named unique constraints share one namespace.\<close>

definition relation_names :: "catalog \<Rightarrow> string list" where
  "relation_names s =
     concat (map (\<lambda>(n, t). n # map ix_name (tb_indexes t) @ List.map_filter constraint_name (tb_constraints t)) (ct_tables s))"

fun is_key :: "string list \<Rightarrow> table_constraint \<Rightarrow> bool" where
  "is_key cols (Primary_key ks) = (ks = cols)"
| "is_key cols (Unique _ ks) = (ks = cols)"
| "is_key cols (Foreign_key _ _ _) = False"

definition type_known :: "catalog \<Rightarrow> column \<Rightarrow> bool" where
  "type_known s c = (case col_type c of Enum n \<Rightarrow> map_of (ct_types s) n \<noteq> None | _ \<Rightarrow> True)"

fun constraint_possible :: "(string \<times> table_def) list \<Rightarrow> table_def \<Rightarrow> table_constraint \<Rightarrow> bool" where
  "constraint_possible ts t (Foreign_key cols rt rcols) =
     (list_all (\<lambda>c. c \<in> set (column_names t)) cols \<and>
      (case map_of ts rt of None \<Rightarrow> False | Some u \<Rightarrow> list_ex (is_key rcols) (tb_constraints u)))"
| "constraint_possible ts t (Primary_key cols) = list_all (\<lambda>c. c \<in> set (column_names t)) cols"
| "constraint_possible ts t (Unique _ cols) = list_all (\<lambda>c. c \<in> set (column_names t)) cols"

fun refers_to :: "string \<Rightarrow> table_constraint \<Rightarrow> bool" where
  "refers_to n (Foreign_key _ rt _) = (rt = n)"
| "refers_to n _ = False"

definition referenced :: "string \<Rightarrow> catalog \<Rightarrow> bool" where
  "referenced n s = list_ex (\<lambda>(m, t). m \<noteq> n \<and> list_ex (refers_to n) (tb_constraints t)) (ct_tables s)"

fun refers_to_column :: "string \<Rightarrow> string \<Rightarrow> table_constraint \<Rightarrow> bool" where
  "refers_to_column n c (Foreign_key _ rt rcols) = (rt = n \<and> c \<in> set rcols)"
| "refers_to_column n c _ = False"

definition column_referenced :: "string \<Rightarrow> string \<Rightarrow> catalog \<Rightarrow> bool" where
  "column_referenced n c s = list_ex (\<lambda>(m, t). list_ex (refers_to_column n c) (tb_constraints t)) (ct_tables s)"

definition set_table :: "string \<Rightarrow> table_def \<Rightarrow> catalog \<Rightarrow> catalog" where
  "set_table n t s = s\<lparr>ct_tables := map (\<lambda>(m, u). (m, if m = n then t else u)) (ct_tables s)\<rparr>"

definition on_table :: "string \<Rightarrow> catalog \<Rightarrow> (table_def \<Rightarrow> table_def option) \<Rightarrow> catalog option" where
  "on_table n s f =
     (case map_of (ct_tables s) n of None \<Rightarrow> None
      | Some t \<Rightarrow> (case f t of None \<Rightarrow> None | Some u \<Rightarrow> Some (set_table n u s)))"

definition create_table :: "string \<Rightarrow> table_def \<Rightarrow> catalog \<Rightarrow> catalog option" where
  "create_table n t s =
     (if n \<notin> set (relation_names s) \<and> distinct (column_names t) \<and> list_all (type_known s) (tb_columns t) \<and>
         list_all (constraint_possible ((n, t) # ct_tables s) t) (tb_constraints t) \<and>
         list_all (\<lambda>k. k \<notin> set (n # relation_names s)) (List.map_filter constraint_name (tb_constraints t))
      then Some (s\<lparr>ct_tables := ct_tables s @ [(n, t)]\<rparr>) else None)"

text \<open>\<^verbatim>\<open>CREATE TABLE IF NOT EXISTS ... PARTITION OF\<close>: ranges of one parent may not overlap.\<close>

definition create_partition_of :: "string \<Rightarrow> string \<Rightarrow> instant \<Rightarrow> instant \<Rightarrow> catalog \<Rightarrow> catalog option" where
  "create_partition_of n p lo hi s =
     (case map_of (ct_tables s) p of None \<Rightarrow> None
      | Some t \<Rightarrow>
          if tb_partition_key t = None then None
          else if n \<in> pt_name ` set (ct_partitions s) then Some s
          else if list_all (\<lambda>q. pt_parent q \<noteq> p \<or> hi \<le> pt_from q \<or> pt_to q \<le> lo) (ct_partitions s)
          then Some (s\<lparr>ct_partitions := ct_partitions s @
            [\<lparr>pt_name = n, pt_parent = p, pt_from = lo, pt_to = hi, pt_indexes = []\<rparr>]\<rparr>)
          else None)"

definition create_partition_index :: "string \<Rightarrow> index_def \<Rightarrow> catalog \<Rightarrow> catalog option" where
  "create_partition_index n ix s =
     (if n \<notin> pt_name ` set (ct_partitions s) then None
      else Some (s\<lparr>ct_partitions := map (\<lambda>q. if pt_name q = n \<and> ix_name ix \<notin> ix_name ` set (pt_indexes q)
        then q\<lparr>pt_indexes := pt_indexes q @ [ix]\<rparr> else q) (ct_partitions s)\<rparr>))"

fun apply_ddl :: "ddl \<Rightarrow> catalog \<Rightarrow> catalog option" where
  "apply_ddl (Create_table n cols cons pk) s =
     create_table n \<lparr>tb_columns = cols, tb_constraints = cons, tb_indexes = [], tb_partition_key = pk\<rparr> s"
| "apply_ddl (Drop_table n) s =
     (if map_of (ct_tables s) n = None \<or> referenced n s then None
      else Some (s\<lparr>ct_tables := filter (\<lambda>(m, t). m \<noteq> n) (ct_tables s),
                   ct_partitions := filter (\<lambda>q. pt_parent q \<noteq> n) (ct_partitions s)\<rparr>))"
| "apply_ddl (Create_index n ix) s =
     (if ix_name ix \<in> set (relation_names s) then None
      else on_table n s (\<lambda>t. if list_all (\<lambda>c. c \<in> set (column_names t)) (ix_columns ix)
        then Some (t\<lparr>tb_indexes := tb_indexes t @ [ix]\<rparr>) else None))"
| "apply_ddl (Drop_index i) s =
     (if list_ex (\<lambda>(n, t). i \<in> ix_name ` set (tb_indexes t)) (ct_tables s)
      then Some (s\<lparr>ct_tables := map (\<lambda>(n, t). (n, t\<lparr>tb_indexes := filter (\<lambda>x. ix_name x \<noteq> i) (tb_indexes t)\<rparr>)) (ct_tables s)\<rparr>)
      else None)"
| "apply_ddl (Add_column n c) s =
     on_table n s (\<lambda>t. if col_name c \<in> set (column_names t) \<or> \<not> type_known s c \<or> \<not> col_nullable c \<and> col_default c = None
       then None else Some (t\<lparr>tb_columns := tb_columns t @ [c]\<rparr>))"
| "apply_ddl (Drop_column n c) s =
     (if column_referenced n c s then None
      else on_table n s (\<lambda>t. if c \<notin> set (column_names t) then None
        else Some (t\<lparr>tb_columns := filter (\<lambda>x. col_name x \<noteq> c) (tb_columns t),
                     tb_constraints := filter (\<lambda>k. c \<notin> set (constraint_columns k)) (tb_constraints t),
                     tb_indexes := filter (\<lambda>x. c \<notin> set (ix_columns x)) (tb_indexes t)\<rparr>)))"
| "apply_ddl (Add_unique k n cols) s =
     (if k \<in> set (relation_names s) then None
      else on_table n s (\<lambda>t. if list_all (\<lambda>c. c \<in> set (column_names t)) cols
        then Some (t\<lparr>tb_constraints := tb_constraints t @ [Unique (Some k) cols]\<rparr>) else None))"
| "apply_ddl (Drop_constraint k n) s =
     on_table n s (\<lambda>t. if Some k \<in> constraint_name ` set (tb_constraints t)
       then Some (t\<lparr>tb_constraints := filter (\<lambda>x. constraint_name x \<noteq> Some k) (tb_constraints t)\<rparr>) else None)"
| "apply_ddl (Alter_column_type n c ty) s =
     on_table n s (\<lambda>t. if c \<in> set (column_names t)
       then Some (t\<lparr>tb_columns := map (\<lambda>x. if col_name x = c then x\<lparr>col_type := ty\<rparr> else x) (tb_columns t)\<rparr>) else None)"
| "apply_ddl (Create_type n vs) s =
     (if map_of (ct_types s) n \<noteq> None then None else Some (s\<lparr>ct_types := ct_types s @ [(n, vs)]\<rparr>))"
| "apply_ddl (Drop_type n) s =
     (if map_of (ct_types s) n = None \<or>
         list_ex (\<lambda>(m, t). list_ex (\<lambda>c. col_type c = Enum n) (tb_columns t)) (ct_tables s)
      then None else Some (s\<lparr>ct_types := filter (\<lambda>(m, vs). m \<noteq> n) (ct_types s)\<rparr>))"
| "apply_ddl (Create_partition n p lo hi) s = create_partition_of n p lo hi s"
| "apply_ddl (Create_partition_index n ix) s = create_partition_index n ix s"
| "apply_ddl (Delete_rows n) s = (if map_of (ct_tables s) n = None then None else Some s)"

fun apply_all :: "ddl list \<Rightarrow> catalog \<Rightarrow> catalog option" where
  "apply_all [] s = Some s"
| "apply_all (d # ds) s = (case apply_ddl d s of None \<Rightarrow> None | Some t \<Rightarrow> apply_all ds t)"

section \<open>Revisions\<close>

text \<open>
  The month of the migration and the next get partitions, each with its own unique index on
  organization and idempotency key.
\<close>

definition create_month :: "int \<Rightarrow> int \<Rightarrow> ddl list" where
  "create_month y m =
     (let n = partition_name y m; (y', m') = next_month y m in
      [Create_partition n ''usage_events'' (first_of_month y m) (first_of_month y' m'),
       Create_partition_index n (index_on (''uq_'' @ n @ ''_org_idempotency'') [''organization_id'', ''idempotency_key''] True None)])"

definition upgrade_0001 :: "ddl list" where
  "upgrade_0001 =
     [Create_table ''organizations''
        [identity ''id'', required ''public_id'' Uuid, nullable ''external_id'' (String 255),
         required ''name'' (String 255), nullable ''billing_email'' (String 320),
         defaulted ''metadata'' JSONB Empty_object, defaulted ''created_at'' DateTime_tz Now,
         defaulted ''updated_at'' DateTime_tz Now, nullable ''deleted_at'' DateTime_tz]
        [Primary_key [''id''], Unique None [''external_id''], Unique None [''public_id'']] None,
      Create_index ''organizations'' (index_on ''ix_organizations_created_at'' [''created_at''] False None),
      Create_table ''outbox_messages''
        [identity ''id'', required ''aggregate_type'' (String 128), required ''aggregate_id'' (String 128),
         required ''event_type'' (String 128), required ''payload'' JSONB, nullable ''idempotency_key'' (String 255),
         required ''partition_key'' (String 128), defaulted ''created_at'' DateTime_tz Now,
         nullable ''published_at'' DateTime_tz, defaulted ''publish_attempts'' Integer (Lit ''0''),
         nullable ''last_error'' Text]
        [Primary_key [''id''], Unique None [''idempotency_key'']] None,
      Create_index ''outbox_messages'' (index_on ''ix_outbox_messages_unpublished'' [''created_at''] False (Some (Is_null ''published_at'')))]"

definition downgrade_0001 :: "ddl list" where
  "downgrade_0001 =
     [Drop_index ''ix_outbox_messages_unpublished'',
      Drop_table ''outbox_messages'',
      Drop_index ''ix_organizations_created_at'',
      Drop_table ''organizations'']"

definition upgrade_0002 :: "ddl list" where
  "upgrade_0002 =
     [Create_table ''api_keys''
        [required ''id'' Uuid, nullable ''organization_id'' BigInteger, required ''key_hash'' (String 255),
         required ''key_prefix'' (String 8), required ''role'' (String 64), nullable ''expires_at'' DateTime_tz,
         nullable ''revoked_at'' DateTime_tz, defaulted ''created_at'' DateTime_tz Now]
        [Foreign_key [''organization_id''] ''organizations'' [''id''], Primary_key [''id'']] None,
      Create_index ''api_keys'' (index_on ''ix_api_keys_key_prefix'' [''key_prefix''] False None)]"

definition downgrade_0002 :: "ddl list" where
  "downgrade_0002 =
     [Drop_index ''ix_api_keys_key_prefix'',
      Drop_table ''api_keys'']"

definition upgrade_0003 :: "ddl list" where
  "upgrade_0003 =
     [Add_column ''organizations'' (nullable ''idempotency_key'' (String 255)),
      Add_unique ''uq_organizations_idempotency_key'' ''organizations'' [''idempotency_key'']]"

definition downgrade_0003 :: "ddl list" where
  "downgrade_0003 =
     [Drop_constraint ''uq_organizations_idempotency_key'' ''organizations'',
      Drop_column ''organizations'' ''idempotency_key'']"

definition upgrade_0004 :: "ddl list" where
  "upgrade_0004 =
     [Create_table ''products''
        [required ''id'' Uuid, required ''key'' (String 128), required ''name'' (String 255),
         nullable ''description'' (String 1024), defaulted ''is_active'' Boolean (Lit ''true'')]
        [Primary_key [''id''], Unique None [''key'']] None,
      Create_table ''features''
        [required ''id'' Uuid, required ''key'' (String 128), required ''feature_type'' (String 32),
         nullable ''default_limit'' Integer, nullable ''reset_interval'' (String 32)]
        [Primary_key [''id''], Unique None [''key'']] None,
      Create_table ''plans''
        [required ''id'' Uuid, required ''product_id'' Uuid, required ''key'' (String 128),
         required ''billing_interval'' (String 16), nullable ''trial_days'' Integer,
         defaulted ''grace_period_days'' Integer (Lit ''7''), defaulted ''dunning_policy'' JSONB Empty_object,
         defaulted ''entitlement_policy'' JSONB Empty_object, defaulted ''version'' Integer (Lit ''1''),
         nullable ''published_at'' DateTime_tz]
        [Foreign_key [''product_id''] ''products'' [''id''], Primary_key [''id''],
         Unique None [''product_id'', ''key'', ''version'']] None,
      Create_table ''prices''
        [required ''id'' Uuid, required ''plan_id'' Uuid, defaulted ''currency'' (String 3) (Lit ''USD''),
         required ''unit_amount_cents'' Integer, required ''pricing_model'' (String 32),
         nullable ''metered_feature_key'' (String 128), nullable ''external_price_id'' (String 255),
         defaulted ''is_active'' Boolean (Lit ''true'')]
        [Foreign_key [''plan_id''] ''plans'' [''id''], Primary_key [''id'']] None,
      Create_index ''prices'' (index_on ''ix_prices_plan_id'' [''plan_id''] False None),
      Create_table ''plan_features''
        [required ''id'' Uuid, required ''plan_id'' Uuid, required ''feature_id'' Uuid,
         nullable ''limit_value'' Integer, defaulted ''is_enabled'' Boolean (Lit ''true''),
         defaulted ''enforcement_mode'' (String 16) (Lit ''hard'')]
        [Foreign_key [''feature_id''] ''features'' [''id''], Foreign_key [''plan_id''] ''plans'' [''id''],
         Primary_key [''id''], Unique None [''plan_id'', ''feature_id'']] None,
      Create_index ''plan_features'' (index_on ''ix_plan_features_plan_id'' [''plan_id''] False None)]"

definition downgrade_0004 :: "ddl list" where
  "downgrade_0004 =
     [Drop_index ''ix_plan_features_plan_id'',
      Drop_table ''plan_features'',
      Drop_index ''ix_prices_plan_id'',
      Drop_table ''prices'',
      Drop_table ''plans'',
      Drop_table ''features'',
      Drop_table ''products'']"

definition upgrade_0005 :: "ddl list" where
  "upgrade_0005 =
     [Create_table ''subscriptions''
        [identity ''id'', required ''public_id'' Uuid, required ''organization_id'' BigInteger,
         required ''plan_id'' Uuid, required ''status'' (String 32), required ''current_period_start'' DateTime_tz,
         required ''current_period_end'' DateTime_tz, defaulted ''cancel_at_period_end'' Boolean (Lit ''false''),
         nullable ''canceled_at'' DateTime_tz, nullable ''trial_end'' DateTime_tz,
         nullable ''external_subscription_id'' (String 255), nullable ''idempotency_key'' (String 255),
         defaulted ''metadata'' JSONB Empty_object, defaulted ''created_at'' DateTime_tz Now,
         defaulted ''updated_at'' DateTime_tz Now]
        [Foreign_key [''organization_id''] ''organizations'' [''id''], Foreign_key [''plan_id''] ''plans'' [''id''],
         Primary_key [''id''], Unique None [''external_subscription_id''], Unique None [''idempotency_key''],
         Unique None [''public_id'']] None,
      Create_index ''subscriptions'' (index_on ''ix_subscriptions_organization_id_status'' [''organization_id'', ''status''] False None)]"

definition downgrade_0005 :: "ddl list" where
  "downgrade_0005 =
     [Drop_index ''ix_subscriptions_organization_id_status'',
      Drop_table ''subscriptions'']"

definition upgrade_0006 :: "ddl list" where
  "upgrade_0006 =
     [Create_type ''webhook_event_status'' [''received'', ''processing'', ''processed'', ''failed'', ''skipped''],
      Create_table ''webhook_events''
        [required ''id'' Uuid, required ''provider'' (String 64), required ''provider_event_id'' (String 255),
         required ''event_type'' (String 128), required ''payload'' JSONB,
         defaulted ''status'' (Enum ''webhook_event_status'') (Lit ''received''),
         defaulted ''processing_attempts'' Integer (Lit ''0''), nullable ''last_error'' Text,
         defaulted ''received_at'' DateTime_tz Now, nullable ''processed_at'' DateTime_tz]
        [Primary_key [''id''], Unique None [''provider_event_id'']] None]"

definition downgrade_0006 :: "ddl list" where
  "downgrade_0006 =
     [Drop_table ''webhook_events'',
      Drop_type ''webhook_event_status'']"

definition upgrade_0007 :: "ddl list" where
  "upgrade_0007 =
     [Create_table ''outbox_dead_letters''
        [identity ''id'', required ''outbox_message_id'' BigInteger, required ''aggregate_type'' (String 128),
         required ''aggregate_id'' (String 128), required ''event_type'' (String 128), required ''payload'' JSONB,
         required ''partition_key'' (String 128), required ''publish_attempts'' Integer,
         nullable ''last_error'' Text, defaulted ''moved_at'' DateTime_tz Now]
        [Primary_key [''id'']] None,
      Create_index ''outbox_dead_letters'' (index_on ''ix_outbox_dead_letters_outbox_message_id'' [''outbox_message_id''] False None)]"

definition downgrade_0007 :: "ddl list" where
  "downgrade_0007 =
     [Drop_index ''ix_outbox_dead_letters_outbox_message_id'',
      Drop_table ''outbox_dead_letters'']"

definition upgrade_0008 :: "ddl list" where
  "upgrade_0008 =
     [Create_table ''ledger_entries''
        [identity ''id'', required ''public_id'' Uuid, required ''organization_id'' BigInteger,
         nullable ''subscription_id'' BigInteger, nullable ''invoice_id'' BigInteger,
         required ''entry_type'' (String 64), required ''amount_cents'' BigInteger, required ''currency'' (String 3),
         nullable ''quantity'' (Numeric 18 6), nullable ''reverses_entry_id'' BigInteger,
         required ''idempotency_key'' (String 255), required ''correlation_id'' (String 255),
         defaulted ''metadata'' JSONB Empty_object, defaulted ''created_at'' DateTime_tz Now]
        [Foreign_key [''organization_id''] ''organizations'' [''id''],
         Foreign_key [''subscription_id''] ''subscriptions'' [''id''],
         Foreign_key [''reverses_entry_id''] ''ledger_entries'' [''id''], Primary_key [''id''],
         Unique None [''idempotency_key''], Unique None [''public_id'']] None,
      Create_index ''ledger_entries'' (index_on ''ix_ledger_entries_organization_id_created_at'' [''organization_id'', ''created_at''] False None)]"

definition downgrade_0008 :: "ddl list" where
  "downgrade_0008 =
     [Drop_index ''ix_ledger_entries_organization_id_created_at'',
      Drop_table ''ledger_entries'']"

definition upgrade_0009 :: "ddl list" where
  "upgrade_0009 =
     [Create_table ''reconciliation_runs''
        [required ''id'' Uuid, required ''run_type'' (String 32), defaulted ''status'' (String 32) (Lit ''running''),
         defaulted ''stats'' JSONB Empty_object, required ''idempotency_key'' (String 255),
         defaulted ''started_at'' DateTime_tz Now, nullable ''completed_at'' DateTime_tz]
        [Primary_key [''id''], Unique None [''idempotency_key'']] None,
      Create_table ''reconciliation_discrepancies''
        [required ''id'' Uuid, required ''run_id'' Uuid, required ''kind'' (String 64),
         nullable ''external_invoice_id'' (String 255), nullable ''expected_amount_cents'' BigInteger,
         nullable ''actual_amount_cents'' BigInteger, nullable ''delta_cents'' BigInteger,
         defaulted ''details'' JSONB Empty_object, defaulted ''created_at'' DateTime_tz Now]
        [Foreign_key [''run_id''] ''reconciliation_runs'' [''id''], Primary_key [''id'']] None,
      Create_index ''reconciliation_discrepancies'' (index_on ''ix_reconciliation_discrepancies_run_id'' [''run_id''] False None)]"

definition downgrade_0009 :: "ddl list" where
  "downgrade_0009 =
     [Drop_index ''ix_reconciliation_discrepancies_run_id'',
      Drop_table ''reconciliation_discrepancies'',
      Drop_table ''reconciliation_runs'']"

definition create_usage_events :: "ddl list" where
  "create_usage_events =
     [Create_table ''usage_events''
        [identity ''id'', required ''public_id'' Uuid, required ''organization_id'' BigInteger,
         nullable ''subscription_id'' BigInteger, required ''feature_key'' (String 255),
         required ''quantity'' (Numeric 18 6), required ''recorded_at'' DateTime_tz,
         required ''idempotency_key'' (String 255), defaulted ''metadata'' JSONB Empty_object,
         defaulted ''ingested_at'' DateTime_tz Now]
        [Foreign_key [''organization_id''] ''organizations'' [''id''],
         Foreign_key [''subscription_id''] ''subscriptions'' [''id''], Primary_key [''id'', ''recorded_at''],
         Unique None [''public_id'', ''recorded_at'']] (Some ''recorded_at''),
      Create_index ''usage_events'' (index_on ''ix_usage_events_org_feature_recorded_at'' [''organization_id'', ''feature_key'', ''recorded_at''] False None)]"

definition upgrade_0010 :: "instant \<Rightarrow> ddl list" where
  "upgrade_0010 now =
     (let (y, m) = (year_of now, month_of now); (y', m') = next_month y m in
      create_usage_events @ create_month y m @ create_month y' m')"

definition downgrade_0010 :: "ddl list" where
  "downgrade_0010 =
     [Drop_index ''ix_usage_events_org_feature_recorded_at'',
      Drop_table ''usage_events'']"

definition upgrade_0011 :: "ddl list" where
  "upgrade_0011 =
     [Create_table ''usage_aggregates_hourly''
        [identity ''id'', required ''public_id'' Uuid, required ''organization_id'' BigInteger,
         required ''feature_key'' (String 255), required ''hour_start'' DateTime_tz,
         required ''quantity'' (Numeric 18 6)]
        [Foreign_key [''organization_id''] ''organizations'' [''id''], Primary_key [''id''],
         Unique (Some ''uq_usage_aggregates_hourly_org_feature_hour'') [''organization_id'', ''feature_key'', ''hour_start''],
         Unique None [''public_id'']] None,
      Create_index ''usage_aggregates_hourly'' (index_on ''ix_usage_aggregates_hourly_org_feature_hour'' [''organization_id'', ''feature_key'', ''hour_start''] False None)]"

definition downgrade_0011 :: "ddl list" where
  "downgrade_0011 =
     [Drop_index ''ix_usage_aggregates_hourly_org_feature_hour'',
      Drop_table ''usage_aggregates_hourly'']"

definition upgrade_0012 :: "ddl list" where
  "upgrade_0012 =
     [Create_table ''invoices''
        [identity ''id'', required ''public_id'' Uuid, required ''organization_id'' BigInteger,
         nullable ''subscription_id'' BigInteger, defaulted ''status'' (String 32) (Lit ''draft''),
         required ''currency'' (String 3), required ''period_start'' DateTime_tz,
         required ''period_end'' DateTime_tz, defaulted ''total_amount_cents'' BigInteger (Lit ''0''),
         nullable ''external_invoice_id'' (String 255), required ''idempotency_key'' (String 255),
         defaulted ''created_at'' DateTime_tz Now, defaulted ''updated_at'' DateTime_tz Now]
        [Foreign_key [''organization_id''] ''organizations'' [''id''],
         Foreign_key [''subscription_id''] ''subscriptions'' [''id''], Primary_key [''id''],
         Unique None [''external_invoice_id''], Unique None [''idempotency_key''], Unique None [''public_id'']] None,
      Create_index ''invoices'' (index_on ''ix_invoices_organization_id_created_at'' [''organization_id'', ''created_at''] False None),
      Create_table ''invoice_line_items''
        [required ''id'' Uuid, required ''invoice_id'' BigInteger, required ''description'' (String 512),
         required ''quantity'' (Numeric 18 6), required ''unit_amount_cents'' BigInteger,
         required ''amount_cents'' BigInteger, nullable ''feature_key'' (String 255), nullable ''price_id'' Uuid,
         nullable ''usage_period_id'' Uuid, defaulted ''created_at'' DateTime_tz Now]
        [Foreign_key [''invoice_id''] ''invoices'' [''id''], Foreign_key [''price_id''] ''prices'' [''id''],
         Primary_key [''id'']] None,
      Create_index ''invoice_line_items'' (index_on ''ix_invoice_line_items_invoice_id'' [''invoice_id''] False None)]"

definition downgrade_0012 :: "ddl list" where
  "downgrade_0012 =
     [Drop_index ''ix_invoice_line_items_invoice_id'',
      Drop_table ''invoice_line_items'',
      Drop_index ''ix_invoices_organization_id_created_at'',
      Drop_table ''invoices'']"

definition upgrade_0013 :: "ddl list" where
  "upgrade_0013 =
     [Add_column ''invoices'' (nullable ''synced_at'' DateTime_tz)]"

definition downgrade_0013 :: "ddl list" where
  "downgrade_0013 =
     [Drop_column ''invoices'' ''synced_at'']"

definition upgrade_0014 :: "ddl list" where
  "upgrade_0014 =
     [Add_column ''subscriptions'' (nullable ''past_due_entered_at'' DateTime_tz)]"

definition downgrade_0014 :: "ddl list" where
  "downgrade_0014 =
     [Drop_column ''subscriptions'' ''past_due_entered_at'']"

definition upgrade_0015 :: "ddl list" where
  "upgrade_0015 =
     [Create_table ''dunning_campaigns''
        [required ''id'' Uuid, required ''subscription_id'' BigInteger, required ''organization_id'' BigInteger,
         defaulted ''status'' (String 32) (Lit ''active''), nullable ''grace_until'' DateTime_tz,
         defaulted ''policy_snapshot'' JSONB Empty_object, required ''idempotency_key'' (String 255),
         defaulted ''started_at'' DateTime_tz Now, defaulted ''created_at'' DateTime_tz Now]
        [Foreign_key [''organization_id''] ''organizations'' [''id''],
         Foreign_key [''subscription_id''] ''subscriptions'' [''id''], Primary_key [''id''],
         Unique None [''idempotency_key'']] None,
      Create_index ''dunning_campaigns'' (index_on ''ix_dunning_campaigns_subscription_id'' [''subscription_id''] False None),
      Create_index ''dunning_campaigns'' (index_on ''ix_dunning_campaigns_organization_id'' [''organization_id''] False None),
      Create_index ''dunning_campaigns'' (index_on ''uq_dunning_campaigns_active_subscription'' [''subscription_id''] True (Some (Equals ''status'' ''active'')))]"

definition downgrade_0015 :: "ddl list" where
  "downgrade_0015 =
     [Drop_index ''uq_dunning_campaigns_active_subscription'',
      Drop_index ''ix_dunning_campaigns_organization_id'',
      Drop_index ''ix_dunning_campaigns_subscription_id'',
      Drop_table ''dunning_campaigns'']"

definition upgrade_0016 :: "ddl list" where
  "upgrade_0016 =
     [Create_table ''dunning_attempts''
        [required ''id'' Uuid, required ''campaign_id'' Uuid, required ''attempt_no'' Integer,
         required ''scheduled_at'' DateTime_tz, nullable ''executed_at'' DateTime_tz,
         nullable ''result'' (String 32), nullable ''external_charge_id'' (String 255),
         required ''idempotency_key'' (String 255), defaulted ''created_at'' DateTime_tz Now]
        [Foreign_key [''campaign_id''] ''dunning_campaigns'' [''id''], Primary_key [''id''],
         Unique None [''idempotency_key''],
         Unique (Some ''uq_dunning_attempts_campaign_no'') [''campaign_id'', ''attempt_no'']] None,
      Create_index ''dunning_attempts'' (index_on ''ix_dunning_attempts_campaign_id'' [''campaign_id''] False None),
      Create_index ''dunning_attempts'' (index_on ''ix_dunning_attempts_due'' [''scheduled_at''] False (Some (Is_null ''executed_at'')))]"

definition downgrade_0016 :: "ddl list" where
  "downgrade_0016 =
     [Drop_index ''ix_dunning_attempts_due'',
      Drop_index ''ix_dunning_attempts_campaign_id'',
      Drop_table ''dunning_attempts'']"

definition upgrade_0017 :: "ddl list" where
  "upgrade_0017 =
     [Add_column ''invoices'' (nullable ''zdt_drill_marker'' (String 64))]"

definition downgrade_0017 :: "ddl list" where
  "downgrade_0017 =
     [Drop_column ''invoices'' ''zdt_drill_marker'']"

definition upgrade_0018 :: "ddl list" where
  "upgrade_0018 =
     [Add_column ''outbox_dead_letters'' (nullable ''replayed_at'' DateTime_tz)]"

definition downgrade_0018 :: "ddl list" where
  "downgrade_0018 =
     [Drop_column ''outbox_dead_letters'' ''replayed_at'']"

definition upgrade_0019 :: "ddl list" where
  "upgrade_0019 =
     [Delete_rows ''api_keys'',
      Alter_column_type ''api_keys'' ''key_hash'' (String 64),
      Create_index ''api_keys'' (index_on ''uq_api_keys_key_hash'' [''key_hash''] True None)]"

definition downgrade_0019 :: "ddl list" where
  "downgrade_0019 =
     [Drop_index ''uq_api_keys_key_hash'',
      Alter_column_type ''api_keys'' ''key_hash'' (String 255)]"

record migration =
  revision :: string
  down_revision :: "string option"
  upgrade :: "instant \<Rightarrow> ddl list"
  downgrade :: "ddl list"

definition revisions_before :: "migration list" where
  "revisions_before =
     [\<lparr>revision = ''20260216_0001'', down_revision = None, upgrade = (\<lambda>_. upgrade_0001), downgrade = downgrade_0001\<rparr>,
      \<lparr>revision = ''20260216_0002'', down_revision = Some ''20260216_0001'', upgrade = (\<lambda>_. upgrade_0002), downgrade = downgrade_0002\<rparr>,
      \<lparr>revision = ''20260216_0003'', down_revision = Some ''20260216_0002'', upgrade = (\<lambda>_. upgrade_0003), downgrade = downgrade_0003\<rparr>,
      \<lparr>revision = ''20260216_0004'', down_revision = Some ''20260216_0003'', upgrade = (\<lambda>_. upgrade_0004), downgrade = downgrade_0004\<rparr>,
      \<lparr>revision = ''20260216_0005'', down_revision = Some ''20260216_0004'', upgrade = (\<lambda>_. upgrade_0005), downgrade = downgrade_0005\<rparr>,
      \<lparr>revision = ''20260216_0006'', down_revision = Some ''20260216_0005'', upgrade = (\<lambda>_. upgrade_0006), downgrade = downgrade_0006\<rparr>,
      \<lparr>revision = ''20260216_0007'', down_revision = Some ''20260216_0006'', upgrade = (\<lambda>_. upgrade_0007), downgrade = downgrade_0007\<rparr>,
      \<lparr>revision = ''20260216_0008'', down_revision = Some ''20260216_0007'', upgrade = (\<lambda>_. upgrade_0008), downgrade = downgrade_0008\<rparr>,
      \<lparr>revision = ''20260216_0009'', down_revision = Some ''20260216_0008'', upgrade = (\<lambda>_. upgrade_0009), downgrade = downgrade_0009\<rparr>]"

definition revision_0010 :: migration where
  "revision_0010 = \<lparr>revision = ''20260216_0010'', down_revision = Some ''20260216_0009'', upgrade = upgrade_0010, downgrade = downgrade_0010\<rparr>"

definition revisions_after :: "migration list" where
  "revisions_after =
     [\<lparr>revision = ''20260216_0011'', down_revision = Some ''20260216_0010'', upgrade = (\<lambda>_. upgrade_0011), downgrade = downgrade_0011\<rparr>,
      \<lparr>revision = ''20260216_0012'', down_revision = Some ''20260216_0011'', upgrade = (\<lambda>_. upgrade_0012), downgrade = downgrade_0012\<rparr>,
      \<lparr>revision = ''20260216_0013'', down_revision = Some ''20260216_0012'', upgrade = (\<lambda>_. upgrade_0013), downgrade = downgrade_0013\<rparr>,
      \<lparr>revision = ''20260216_0014'', down_revision = Some ''20260216_0013'', upgrade = (\<lambda>_. upgrade_0014), downgrade = downgrade_0014\<rparr>,
      \<lparr>revision = ''20260216_0015'', down_revision = Some ''20260216_0014'', upgrade = (\<lambda>_. upgrade_0015), downgrade = downgrade_0015\<rparr>,
      \<lparr>revision = ''20260216_0016'', down_revision = Some ''20260216_0015'', upgrade = (\<lambda>_. upgrade_0016), downgrade = downgrade_0016\<rparr>,
      \<lparr>revision = ''20260216_0017'', down_revision = Some ''20260216_0016'', upgrade = (\<lambda>_. upgrade_0017), downgrade = downgrade_0017\<rparr>,
      \<lparr>revision = ''20260216_0018'', down_revision = Some ''20260216_0017'', upgrade = (\<lambda>_. upgrade_0018), downgrade = downgrade_0018\<rparr>,
      \<lparr>revision = ''20260216_0019'', down_revision = Some ''20260216_0018'', upgrade = (\<lambda>_. upgrade_0019), downgrade = downgrade_0019\<rparr>]"

definition revisions :: "migration list" where
  "revisions = revisions_before @ revision_0010 # revisions_after"

text \<open>All statements of a list of revisions, one revision after the other.\<close>

fun migrate :: "instant \<Rightarrow> migration list \<Rightarrow> catalog \<Rightarrow> catalog option" where
  "migrate now [] s = Some s"
| "migrate now (m # ms) s = (case apply_all (upgrade m now) s of None \<Rightarrow> None | Some t \<Rightarrow> migrate now ms t)"

section \<open>Reversibility\<close>

text \<open>Every upgrade succeeds and is undone by its downgrade, along the list.\<close>

fun reversible :: "instant \<Rightarrow> migration list \<Rightarrow> catalog \<Rightarrow> bool" where
  "reversible now [] s \<longleftrightarrow> True"
| "reversible now (m # ms) s \<longleftrightarrow>
     (case apply_all (upgrade m now) s of None \<Rightarrow> False
      | Some t \<Rightarrow> apply_all (downgrade m) t = Some s \<and> reversible now ms t)"

lemma reversible_steps:
  assumes "reversible now ms s"
  shows "\<exists>cs. length cs = Suc (length ms) \<and> cs ! 0 = s \<and> (\<forall>k < length ms.
    apply_all (upgrade (ms ! k) now) (cs ! k) = Some (cs ! Suc k) \<and>
    apply_all (downgrade (ms ! k)) (cs ! Suc k) = Some (cs ! k))"
  using assms
proof (induction ms arbitrary: s)
  case Nil
  then show ?case by (intro exI [of _ "[s]"]) simp
next
  case (Cons m ms)
  then obtain t where t: "apply_all (upgrade m now) s = Some t" "apply_all (downgrade m) t = Some s" "reversible now ms t"
    by (auto split: option.splits)
  from Cons.IH [OF t(3)] obtain cs where cs: "length cs = Suc (length ms)" "cs ! 0 = t" "\<forall>k < length ms.
      apply_all (upgrade (ms ! k) now) (cs ! k) = Some (cs ! Suc k) \<and>
      apply_all (downgrade (ms ! k)) (cs ! Suc k) = Some (cs ! k)" by blast
  show ?case
    using t(1,2) cs by (intro exI [of _ "s # cs"]) (auto simp: nth_Cons split: nat.split)
qed

text \<open>Statements other than those on partitions do not look at the partitions.\<close>

fun plain :: "ddl \<Rightarrow> bool" where
  "plain (Create_partition _ _ _ _) = False"
| "plain (Create_partition_index _ _) = False"
| "plain _ = True"

fun partitions_after :: "ddl \<Rightarrow> partition_def list \<Rightarrow> partition_def list" where
  "partitions_after (Drop_table n) ps = filter (\<lambda>q. pt_parent q \<noteq> n) ps"
| "partitions_after _ ps = ps"

lemma relation_names_partitions [simp]: "relation_names (s\<lparr>ct_partitions := ps\<rparr>) = relation_names s"
  by (simp add: relation_names_def)

lemma type_known_partitions [simp]: "type_known (s\<lparr>ct_partitions := ps\<rparr>) = type_known s"
  by (simp add: type_known_def fun_eq_iff split: col_type.split)

lemma referenced_partitions [simp]:
  "referenced n (s\<lparr>ct_partitions := ps\<rparr>) = referenced n s"
  "column_referenced n c (s\<lparr>ct_partitions := ps\<rparr>) = column_referenced n c s"
  by (simp_all add: referenced_def column_referenced_def)

lemma on_table_partitions [simp]:
  "on_table n (s\<lparr>ct_partitions := ps\<rparr>) f = map_option (\<lambda>t. t\<lparr>ct_partitions := ps\<rparr>) (on_table n s f)"
  by (simp add: on_table_def set_table_def split: option.split)

lemma apply_plain:
  "plain d \<Longrightarrow> apply_ddl d (s\<lparr>ct_partitions := ps\<rparr>) =
     map_option (\<lambda>t. t\<lparr>ct_partitions := partitions_after d ps\<rparr>) (apply_ddl d s)"
  by (cases d) (simp_all add: create_table_def)

lemma apply_all_plain:
  "list_all plain ds \<Longrightarrow> apply_all ds (s\<lparr>ct_partitions := ps\<rparr>) =
     map_option (\<lambda>t. t\<lparr>ct_partitions := fold partitions_after ds ps\<rparr>) (apply_all ds s)"
proof (induction ds arbitrary: s ps)
  case Nil
  then show ?case by simp
next
  case (Cons d ds)
  then show ?case by (cases "apply_ddl d s") (simp_all add: apply_plain)
qed

lemma partitions_kept:
  "\<forall>q \<in> set ps. pt_parent q = p \<Longrightarrow> Drop_table p \<notin> set ds \<Longrightarrow> fold partitions_after ds ps = ps"
proof (induction ds)
  case (Cons d ds)
  then have "partitions_after d ps = ps" by (cases d) (auto simp: filter_id_conv)
  then show ?case using Cons by simp
qed simp

definition spares :: "string \<Rightarrow> ddl list \<Rightarrow> bool" where
  "spares p ds \<longleftrightarrow> list_all plain ds \<and> Drop_table p \<notin> set ds"

lemma apply_all_spares:
  assumes "spares p ds" "\<forall>q \<in> set ps. pt_parent q = p"
  shows "apply_all ds (s\<lparr>ct_partitions := ps\<rparr>) = map_option (\<lambda>t. t\<lparr>ct_partitions := ps\<rparr>) (apply_all ds s)"
  using apply_all_plain [of ds ps s] partitions_kept [OF assms(2)] assms(1) by (simp add: spares_def)

lemma reversible_spares:
  assumes "reversible now ms s" "\<forall>m \<in> set ms. spares p (upgrade m now) \<and> spares p (downgrade m)"
    and "\<forall>q \<in> set ps. pt_parent q = p"
  shows "reversible now ms (s\<lparr>ct_partitions := ps\<rparr>)"
  using assms(1,2)
proof (induction ms arbitrary: s)
  case (Cons m ms)
  then obtain t where t: "apply_all (upgrade m now) s = Some t" "apply_all (downgrade m) t = Some s" "reversible now ms t"
    by (auto split: option.splits)
  then show ?case using Cons apply_all_spares [OF _ assms(3)] by simp
qed simp

lemma migrate_append:
  "migrate now (xs @ ys) s = (case migrate now xs s of None \<Rightarrow> None | Some t \<Rightarrow> migrate now ys t)"
  by (induction xs arbitrary: s) (simp_all split: option.split)

lemma reversible_append:
  "reversible now (xs @ ys) s \<longleftrightarrow> reversible now xs s \<and> (\<exists>t. migrate now xs s = Some t \<and> reversible now ys t)"
  by (induction xs arbitrary: s) (auto split: option.split)

lemma apply_all_append:
  "apply_all (xs @ ys) s = (case apply_all xs s of None \<Rightarrow> None | Some t \<Rightarrow> apply_all ys t)"
  by (induction xs arbitrary: s) (simp_all split: option.split)

text \<open>The two months of the tenth revision.\<close>

definition partitioned :: "catalog \<Rightarrow> bool" where
  "partitioned s \<longleftrightarrow> ct_partitions s = [] \<and>
     (case map_of (ct_tables s) ''usage_events'' of None \<Rightarrow> False | Some t \<Rightarrow> tb_partition_key t \<noteq> None)"

lemma create_two_months:
  assumes "partitioned s" "next_month y m = (y', m')"
  shows "\<exists>ps. apply_all (create_month y m @ create_month y' m') s = Some (s\<lparr>ct_partitions := ps\<rparr>) \<and>
    (\<forall>q \<in> set ps. pt_parent q = ''usage_events'')"
proof -
  obtain t where t: "map_of (ct_tables s) ''usage_events'' = Some t" "tb_partition_key t \<noteq> None" "ct_partitions s = []"
    using assms(1) by (auto simp: partitioned_def split: option.splits)
  show ?thesis
    using t assms(2)
    by (intro exI [of _ "ct_partitions (the (apply_all (create_month y m @ create_month y' m') s))"])
      (auto simp: create_month_def Let_def create_partition_of_def create_partition_index_def index_on_def split: prod.split)
qed

abbreviation plain_revision_0010 :: migration where
  "plain_revision_0010 \<equiv> revision_0010\<lparr>upgrade := \<lambda>_. create_usage_events\<rparr>"

definition plain_revisions :: "migration list" where
  "plain_revisions = revisions_before @ plain_revision_0010 # revisions_after"

lemma plain_revisions_reversible: "reversible now plain_revisions empty_catalog"
  by code_simp

lemma usage_events_partitioned:
  "case migrate now (revisions_before @ [plain_revision_0010]) empty_catalog of None \<Rightarrow> False | Some s \<Rightarrow> partitioned s"
  by code_simp

lemma later_revisions_spare:
  "list_all (\<lambda>m. spares ''usage_events'' (upgrade m now) \<and> spares ''usage_events'' (downgrade m)) revisions_after"
  by code_simp

lemma apply_all_partitions:
  assumes "list_all plain ds" "apply_all ds s = Some t"
  shows "ct_partitions t = fold partitions_after ds (ct_partitions s)"
proof -
  have "apply_all ds (s\<lparr>ct_partitions := ct_partitions s\<rparr>) = Some (t\<lparr>ct_partitions := fold partitions_after ds (ct_partitions s)\<rparr>)"
    unfolding apply_all_plain [OF assms(1)] assms(2) by simp
  then have "t = t\<lparr>ct_partitions := fold partitions_after ds (ct_partitions s)\<rparr>" using assms(2) by simp
  from arg_cong [OF this, of ct_partitions] show ?thesis by simp
qed

lemma migrate_spares:
  assumes "\<forall>m \<in> set ms. spares p (upgrade m now)" "\<forall>q \<in> set ps. pt_parent q = p"
  shows "migrate now ms (s\<lparr>ct_partitions := ps\<rparr>) = map_option (\<lambda>t. t\<lparr>ct_partitions := ps\<rparr>) (migrate now ms s)"
  using assms(1)
proof (induction ms arbitrary: s)
  case (Cons m ms)
  then show ?case using apply_all_spares [OF _ assms(2), of "upgrade m now" s] by (cases "apply_all (upgrade m now) s") simp_all
qed simp

text \<open>The tenth revision with its partitions, and the revisions after it.\<close>

lemma revisions_with_partitions:
  "\<exists>s t u ps. migrate now revisions_before empty_catalog = Some s \<and> reversible now revisions_before empty_catalog \<and>
     apply_all (upgrade revision_0010 now) s = Some (t\<lparr>ct_partitions := ps\<rparr>) \<and>
     apply_all (downgrade revision_0010) (t\<lparr>ct_partitions := ps\<rparr>) = Some s \<and>
     reversible now revisions_after (t\<lparr>ct_partitions := ps\<rparr>) \<and>
     migrate now plain_revisions empty_catalog = Some u \<and>
     migrate now revisions_after (t\<lparr>ct_partitions := ps\<rparr>) = Some (u\<lparr>ct_partitions := ps\<rparr>)"
proof -
  obtain s t where s: "reversible now revisions_before empty_catalog" "migrate now revisions_before empty_catalog = Some s"
    and t: "apply_all create_usage_events s = Some t" "apply_all downgrade_0010 t = Some s" "reversible now revisions_after t"
    using plain_revisions_reversible [of now] unfolding plain_revisions_def reversible_append
    by (auto simp: revision_0010_def split: option.splits)
  have part: "partitioned t"
    using usage_events_partitioned [of now] s(2) t(1) by (simp add: migrate_append revision_0010_def)
  have pl: "list_all plain create_usage_events" "list_all plain downgrade_0010"
    by (simp_all add: create_usage_events_def downgrade_0010_def)
  have "ct_partitions t = ct_partitions s"
    using apply_all_partitions [OF pl(1) t(1)] by (simp add: create_usage_events_def)
  then have none: "s\<lparr>ct_partitions := []\<rparr> = s" using part by (simp add: partitioned_def)
  obtain y m y' m' where ym: "year_of now = y" "month_of now = m" "next_month y m = (y', m')" by fastforce
  from create_two_months [OF part ym(3)] obtain ps where
    ps: "apply_all (create_month y m @ create_month y' m') t = Some (t\<lparr>ct_partitions := ps\<rparr>)"
      "\<forall>q \<in> set ps. pt_parent q = ''usage_events''" by blast
  have up: "apply_all (upgrade revision_0010 now) s = Some (t\<lparr>ct_partitions := ps\<rparr>)"
    using t(1) ps(1) ym by (simp add: revision_0010_def upgrade_0010_def apply_all_append)
  have "fold partitions_after downgrade_0010 ps = []" using ps(2) by (simp add: downgrade_0010_def)
  then have down: "apply_all (downgrade revision_0010) (t\<lparr>ct_partitions := ps\<rparr>) = Some s"
    using apply_all_plain [OF pl(2), of ps t] t(2) none by (simp add: revision_0010_def)
  have sp: "\<forall>m \<in> set revisions_after. spares ''usage_events'' (upgrade m now) \<and> spares ''usage_events'' (downgrade m)"
    using later_revisions_spare [of now] by (simp add: list_all_iff)
  have "\<exists>u. migrate now revisions_after t = Some u" using reversible_append [of now revisions_after "[]" t] t(3) by auto
  then obtain u where u: "migrate now revisions_after t = Some u" by blast
  then have "migrate now plain_revisions empty_catalog = Some u"
    using s(2) t(1) by (simp add: plain_revisions_def migrate_append revision_0010_def)
  then show ?thesis
    using s up down reversible_spares [OF t(3) sp ps(2)] migrate_spares [of revisions_after "''usage_events''" now ps t] sp ps(2) u
    by auto
qed

text \<open>
  C10: The migrations apply and can be taken back. Starting from an empty database, at any time, each of
  the nineteen upgrades succeeds on the catalog its predecessors leave (no name is taken or missing, every
  key that a foreign key needs exists, the partitions do not overlap), and the downgrade of a revision
  gives back exactly the catalog before its upgrade.
\<close>

theorem migrations_reversible:
  "\<exists>cs. length cs = Suc (length revisions) \<and> cs ! 0 = empty_catalog \<and> (\<forall>k < length revisions.
     apply_all (upgrade (revisions ! k) now) (cs ! k) = Some (cs ! Suc k) \<and>
     apply_all (downgrade (revisions ! k)) (cs ! Suc k) = Some (cs ! k))"
proof -
  have "reversible now revisions empty_catalog"
    using revisions_with_partitions [of now] unfolding revisions_def reversible_append by auto
  then show ?thesis by (rule reversible_steps)
qed

theorem migrations_reversible_witness:
  "\<exists>cs. length cs = 20 \<and> cs ! 0 = empty_catalog \<and>
     apply_all (upgrade revision_0010 0) (cs ! 9) = Some (cs ! 10) \<and> apply_all downgrade_0010 (cs ! 10) = Some (cs ! 9)"
proof -
  have n: "length revisions = 19" "revisions ! 9 = revision_0010" "downgrade revision_0010 = downgrade_0010"
    by (simp_all add: revisions_def revisions_before_def revisions_after_def revision_0010_def)
  from migrations_reversible [of 0] obtain cs where cs: "length cs = 20" "cs ! 0 = empty_catalog"
    "\<forall>k < 19. apply_all (upgrade (revisions ! k) 0) (cs ! k) = Some (cs ! Suc k) \<and>
       apply_all (downgrade (revisions ! k)) (cs ! Suc k) = Some (cs ! k)" unfolding n by auto
  from cs(3) have "apply_all (upgrade (revisions ! 9) 0) (cs ! 9) = Some (cs ! Suc 9) \<and>
      apply_all (downgrade (revisions ! 9)) (cs ! Suc 9) = Some (cs ! 9)"
    by (rule allE [of _ 9]) simp
  then show ?thesis using cs(1,2) unfolding n by auto
qed

text \<open>The catalog of a fully migrated database.\<close>

definition migrated :: "instant \<Rightarrow> catalog" where
  "migrated now = the (migrate now revisions empty_catalog)"

lemma migrated_tables: "ct_tables (migrated now) = ct_tables (the (migrate now plain_revisions empty_catalog))"
  using revisions_with_partitions [of now] by (auto simp: migrated_def revisions_def migrate_append)

end
