(* ===== verification/Tables.thy ===== *)
theory Tables
  imports Migrations Reconciliation
begin

text \<open>
  The data model and the migrations side by side: every row of the model as the row of SQL values that
  the ORM maps it to, checked against the columns and constraints of the catalog that the migrations
  build. The unique and foreign-key constraints of that catalog give the integrity of the database that
  the services rely on.
\<close>

section \<open>Rows as SQL values\<close>

datatype db_value =
    V_null | V_int int | V_uuid uuid | V_str string | V_json json_object | V_time instant | V_bool bool | V_num numeric6

type_synonym row = "(string \<times> db_value) list"

definition or_null :: "('a \<Rightarrow> db_value) \<Rightarrow> 'a option \<Rightarrow> db_value" where
  "or_null f x = (case x of None \<Rightarrow> V_null | Some y \<Rightarrow> f y)"

fun webhook_status_value :: "webhook_status \<Rightarrow> string" where
  "webhook_status_value RECEIVED = ''received''"
| "webhook_status_value PROCESSING = ''processing''"
| "webhook_status_value PROCESSED = ''processed''"
| "webhook_status_value FAILED = ''failed''"
| "webhook_status_value SKIPPED = ''skipped''"

text \<open>The kinds of values; an enumeration type admits its labels.\<close>

datatype value_kind = K_int | K_uuid | K_str | K_json | K_time | K_bool | K_num | K_enum "string list"

definition organization_sql :: "organization \<Rightarrow> row" where
  "organization_sql r =
     [(''id'', V_int (org_id r)), (''public_id'', V_uuid (org_public_id r)),
      (''external_id'', or_null V_str (org_external_id r)),
      (''idempotency_key'', or_null V_str (org_idempotency_key r)), (''name'', V_str (org_name r)),
      (''billing_email'', or_null V_str (org_billing_email r)), (''metadata'', V_json (org_metadata r)),
      (''created_at'', V_time (org_created_at r)), (''updated_at'', V_time (org_updated_at r)),
      (''deleted_at'', or_null V_time (org_deleted_at r))]"

definition outbox_message_sql :: "outbox_message \<Rightarrow> row" where
  "outbox_message_sql r =
     [(''id'', V_int (ob_id r)), (''aggregate_type'', V_str (ob_aggregate_type r)),
      (''aggregate_id'', V_str (ob_aggregate_id r)), (''event_type'', V_str (ob_event_type r)),
      (''payload'', V_json (ob_payload r)), (''idempotency_key'', or_null V_str (ob_idempotency_key r)),
      (''partition_key'', V_str (ob_partition_key r)), (''created_at'', V_time (ob_created_at r)),
      (''published_at'', or_null V_time (ob_published_at r)), (''publish_attempts'', V_int (publish_attempts r)),
      (''last_error'', or_null V_str (ob_last_error r))]"

definition api_key_sql :: "api_key \<Rightarrow> row" where
  "api_key_sql r =
     [(''id'', V_uuid (key_id r)), (''organization_id'', or_null V_int (key_organization_id r)),
      (''key_hash'', V_str (key_hash r)), (''key_prefix'', V_str (key_prefix r)), (''role'', V_str (key_role r)),
      (''expires_at'', or_null V_time (key_expires_at r)), (''revoked_at'', or_null V_time (key_revoked_at r)),
      (''created_at'', V_time (key_created_at r))]"

definition product_sql :: "product \<Rightarrow> row" where
  "product_sql r =
     [(''id'', V_uuid (prod_id r)), (''key'', V_str (prod_key r)), (''name'', V_str (prod_name r)),
      (''description'', or_null V_str (prod_description r)), (''is_active'', V_bool (prod_is_active r))]"

definition feature_sql :: "feature \<Rightarrow> row" where
  "feature_sql r =
     [(''id'', V_uuid (feat_id r)), (''key'', V_str (feat_key r)), (''feature_type'', V_str (feature_type r)),
      (''default_limit'', or_null V_int (default_limit r)), (''reset_interval'', or_null V_str (reset_interval r))]"

definition plan_sql :: "plan \<Rightarrow> row" where
  "plan_sql r =
     [(''id'', V_uuid (plan_id r)), (''product_id'', V_uuid (plan_product_id r)), (''key'', V_str (plan_key r)),
      (''billing_interval'', V_str (billing_interval r)), (''trial_days'', or_null V_int (trial_days r)),
      (''grace_period_days'', V_int (grace_period_days r)), (''dunning_policy'', V_json (dunning_policy r)),
      (''entitlement_policy'', V_json (entitlement_policy r)), (''version'', V_int (plan_version r)),
      (''published_at'', or_null V_time (published_at r))]"

definition price_sql :: "price \<Rightarrow> row" where
  "price_sql r =
     [(''id'', V_uuid (price_id r)), (''plan_id'', V_uuid (price_plan_id r)),
      (''currency'', V_str (price_currency r)), (''unit_amount_cents'', V_int (unit_amount_cents r)),
      (''pricing_model'', V_str (pricing_model r)),
      (''metered_feature_key'', or_null V_str (metered_feature_key r)),
      (''external_price_id'', or_null V_str (external_price_id r)), (''is_active'', V_bool (price_is_active r))]"

definition plan_feature_sql :: "plan_feature \<Rightarrow> row" where
  "plan_feature_sql r =
     [(''id'', V_uuid (pf_id r)), (''plan_id'', V_uuid (pf_plan_id r)), (''feature_id'', V_uuid (pf_feature_id r)),
      (''limit_value'', or_null V_int (limit_value r)), (''is_enabled'', V_bool (is_enabled r)),
      (''enforcement_mode'', V_str (enforcement_mode r))]"

definition subscription_sql :: "subscription \<Rightarrow> row" where
  "subscription_sql r =
     [(''id'', V_int (sub_id r)), (''public_id'', V_uuid (sub_public_id r)),
      (''organization_id'', V_int (sub_organization_id r)), (''plan_id'', V_uuid (sub_plan_id r)),
      (''status'', V_str (subscription_status_value (sub_status r))),
      (''current_period_start'', V_time (current_period_start r)),
      (''current_period_end'', V_time (current_period_end r)),
      (''cancel_at_period_end'', V_bool (cancel_at_period_end r)),
      (''canceled_at'', or_null V_time (canceled_at r)),
      (''past_due_entered_at'', or_null V_time (past_due_entered_at r)),
      (''trial_end'', or_null V_time (trial_end r)),
      (''external_subscription_id'', or_null V_str (external_subscription_id r)),
      (''idempotency_key'', or_null V_str (sub_idempotency_key r)), (''metadata'', V_json (sub_metadata r)),
      (''created_at'', V_time (sub_created_at r)), (''updated_at'', V_time (sub_updated_at r))]"

definition webhook_event_sql :: "webhook_event \<Rightarrow> row" where
  "webhook_event_sql r =
     [(''id'', V_uuid (wh_id r)), (''provider'', V_str (wh_provider r)),
      (''provider_event_id'', V_str (provider_event_id r)), (''event_type'', V_str (wh_event_type r)),
      (''payload'', V_json (wh_payload r)), (''status'', V_str (webhook_status_value (wh_status r))),
      (''processing_attempts'', V_int (processing_attempts r)), (''last_error'', or_null V_str (wh_last_error r)),
      (''received_at'', V_time (received_at r)), (''processed_at'', or_null V_time (processed_at r))]"

definition outbox_dead_letter_sql :: "outbox_dead_letter \<Rightarrow> row" where
  "outbox_dead_letter_sql r =
     [(''id'', V_int (dl_id r)), (''outbox_message_id'', V_int (dl_outbox_message_id r)),
      (''aggregate_type'', V_str (dl_aggregate_type r)), (''aggregate_id'', V_str (dl_aggregate_id r)),
      (''event_type'', V_str (dl_event_type r)), (''payload'', V_json (dl_payload r)),
      (''partition_key'', V_str (dl_partition_key r)), (''publish_attempts'', V_int (dl_publish_attempts r)),
      (''last_error'', or_null V_str (dl_last_error r)), (''moved_at'', V_time (dl_moved_at r)),
      (''replayed_at'', or_null V_time (dl_replayed_at r))]"

definition ledger_entry_sql :: "ledger_entry \<Rightarrow> row" where
  "ledger_entry_sql r =
     [(''id'', V_int (le_id r)), (''public_id'', V_uuid (le_public_id r)),
      (''organization_id'', V_int (le_organization_id r)),
      (''subscription_id'', or_null V_int (le_subscription_id r)),
      (''invoice_id'', or_null V_int (le_invoice_id r)),
      (''entry_type'', V_str (ledger_entry_type_value (entry_type r))), (''amount_cents'', V_int (amount_cents r)),
      (''currency'', V_str (le_currency r)), (''quantity'', or_null V_num (le_quantity r)),
      (''reverses_entry_id'', or_null V_int (reverses_entry_id r)),
      (''idempotency_key'', V_str (le_idempotency_key r)), (''correlation_id'', V_str (correlation_id r)),
      (''metadata'', V_json (le_metadata r)), (''created_at'', V_time (le_created_at r))]"

definition reconciliation_run_sql :: "reconciliation_run \<Rightarrow> row" where
  "reconciliation_run_sql r =
     [(''id'', V_uuid (run_id r)), (''run_type'', V_str (run_type_value (run_kind r))),
      (''status'', V_str (run_status_value (run_state r))), (''stats'', V_json (run_stats r)),
      (''idempotency_key'', V_str (run_idempotency_key r)), (''started_at'', V_time (run_started_at r)),
      (''completed_at'', or_null V_time (run_completed_at r))]"

definition reconciliation_discrepancy_sql :: "reconciliation_discrepancy \<Rightarrow> row" where
  "reconciliation_discrepancy_sql r =
     [(''id'', V_uuid (disc_id r)), (''run_id'', V_uuid (disc_run_id r)),
      (''kind'', V_str (discrepancy_kind_value (disc_kind r))),
      (''external_invoice_id'', or_null V_str (disc_external_invoice_id r)),
      (''expected_amount_cents'', or_null V_int (expected_amount_cents r)),
      (''actual_amount_cents'', or_null V_int (actual_amount_cents r)),
      (''delta_cents'', or_null V_int (delta_cents r)), (''details'', V_json (disc_details r)),
      (''created_at'', V_time (disc_created_at r))]"

definition usage_event_sql :: "usage_event \<Rightarrow> row" where
  "usage_event_sql r =
     [(''id'', V_int (ue_id r)), (''public_id'', V_uuid (ue_public_id r)),
      (''organization_id'', V_int (ue_organization_id r)),
      (''subscription_id'', or_null V_int (ue_subscription_id r)), (''feature_key'', V_str (ue_feature_key r)),
      (''quantity'', V_num (ue_quantity r)), (''recorded_at'', V_time (recorded_at r)),
      (''idempotency_key'', V_str (ue_idempotency_key r)), (''metadata'', V_json (ue_metadata r)),
      (''ingested_at'', V_time (ingested_at r))]"

definition usage_aggregate_sql :: "usage_aggregate \<Rightarrow> row" where
  "usage_aggregate_sql r =
     [(''id'', V_int (ua_id r)), (''public_id'', V_uuid (ua_public_id r)),
      (''organization_id'', V_int (ua_organization_id r)), (''feature_key'', V_str (ua_feature_key r)),
      (''hour_start'', V_time (hour_start r)), (''quantity'', V_num (ua_quantity r))]"

definition invoice_sql :: "invoice \<Rightarrow> row" where
  "invoice_sql r =
     [(''id'', V_int (inv_id r)), (''public_id'', V_uuid (inv_public_id r)),
      (''organization_id'', V_int (inv_organization_id r)),
      (''subscription_id'', or_null V_int (inv_subscription_id r)),
      (''status'', V_str (invoice_status_value (inv_status r))), (''currency'', V_str (inv_currency r)),
      (''period_start'', V_time (period_start r)), (''period_end'', V_time (period_end r)),
      (''total_amount_cents'', V_int (total_amount_cents r)),
      (''external_invoice_id'', or_null V_str (external_invoice_id r)),
      (''synced_at'', or_null V_time (synced_at r)), (''idempotency_key'', V_str (inv_idempotency_key r)),
      (''created_at'', V_time (inv_created_at r)), (''updated_at'', V_time (inv_updated_at r))]"

definition invoice_line_item_sql :: "invoice_line_item \<Rightarrow> row" where
  "invoice_line_item_sql r =
     [(''id'', V_uuid (li_id r)), (''invoice_id'', V_int (li_invoice_id r)),
      (''description'', V_str (li_description r)), (''quantity'', V_num (li_quantity r)),
      (''unit_amount_cents'', V_int (li_unit_amount_cents r)), (''amount_cents'', V_int (li_amount_cents r)),
      (''feature_key'', or_null V_str (li_feature_key r)), (''price_id'', or_null V_uuid (li_price_id r)),
      (''usage_period_id'', or_null V_uuid (li_usage_period_id r)), (''created_at'', V_time (li_created_at r))]"

definition dunning_campaign_sql :: "dunning_campaign \<Rightarrow> row" where
  "dunning_campaign_sql r =
     [(''id'', V_uuid (camp_id r)), (''subscription_id'', V_int (camp_subscription_id r)),
      (''organization_id'', V_int (camp_organization_id r)),
      (''status'', V_str (campaign_status_value (camp_status r))),
      (''grace_until'', or_null V_time (camp_grace_until r)), (''policy_snapshot'', V_json (policy_snapshot r)),
      (''idempotency_key'', V_str (camp_idempotency_key r)), (''started_at'', V_time (started_at r)),
      (''created_at'', V_time (camp_created_at r))]"

definition dunning_attempt_sql :: "dunning_attempt \<Rightarrow> row" where
  "dunning_attempt_sql r =
     [(''id'', V_uuid (att_id r)), (''campaign_id'', V_uuid (att_campaign_id r)),
      (''attempt_no'', V_int (attempt_no r)), (''scheduled_at'', V_time (scheduled_at r)),
      (''executed_at'', or_null V_time (executed_at r)),
      (''result'', or_null (\<lambda>x. V_str (attempt_result_value x)) (att_result r)),
      (''external_charge_id'', or_null V_str (external_charge_id r)),
      (''idempotency_key'', V_str (att_idempotency_key r)), (''created_at'', V_time (att_created_at r))]"

definition table_view :: "database \<Rightarrow> (string \<times> row list) list" where
  "table_view d =
     [(''organizations'', map organization_sql (organizations d)),
      (''outbox_messages'', map outbox_message_sql (outbox_messages d)),
      (''api_keys'', map api_key_sql (api_keys d)), (''products'', map product_sql (products d)),
      (''features'', map feature_sql (features d)), (''plans'', map plan_sql (plans d)),
      (''prices'', map price_sql (prices d)), (''plan_features'', map plan_feature_sql (plan_features d)),
      (''subscriptions'', map subscription_sql (subscriptions d)),
      (''webhook_events'', map webhook_event_sql (webhook_events d)),
      (''outbox_dead_letters'', map outbox_dead_letter_sql (outbox_dead_letters d)),
      (''ledger_entries'', map ledger_entry_sql (ledger_entries d)),
      (''reconciliation_runs'', map reconciliation_run_sql (reconciliation_runs d)),
      (''reconciliation_discrepancies'', map reconciliation_discrepancy_sql (reconciliation_discrepancies d)),
      (''usage_events'', map usage_event_sql (usage_events d)),
      (''usage_aggregates_hourly'', map usage_aggregate_sql (usage_aggregates d)),
      (''invoices'', map invoice_sql (invoices d)),
      (''invoice_line_items'', map invoice_line_item_sql (invoice_line_items d)),
      (''dunning_campaigns'', map dunning_campaign_sql (dunning_campaigns d)),
      (''dunning_attempts'', map dunning_attempt_sql (dunning_attempts d))]"

definition table_shapes :: "(string \<times> (string \<times> value_kind \<times> bool) list) list" where
  "table_shapes =
     [(''organizations'',
        [(''id'', K_int, False), (''public_id'', K_uuid, False), (''external_id'', K_str, True),
         (''idempotency_key'', K_str, True), (''name'', K_str, False), (''billing_email'', K_str, True),
         (''metadata'', K_json, False), (''created_at'', K_time, False), (''updated_at'', K_time, False),
         (''deleted_at'', K_time, True)]),
      (''outbox_messages'',
        [(''id'', K_int, False), (''aggregate_type'', K_str, False), (''aggregate_id'', K_str, False),
         (''event_type'', K_str, False), (''payload'', K_json, False), (''idempotency_key'', K_str, True),
         (''partition_key'', K_str, False), (''created_at'', K_time, False), (''published_at'', K_time, True),
         (''publish_attempts'', K_int, False), (''last_error'', K_str, True)]),
      (''api_keys'',
        [(''id'', K_uuid, False), (''organization_id'', K_int, True), (''key_hash'', K_str, False),
         (''key_prefix'', K_str, False), (''role'', K_str, False), (''expires_at'', K_time, True),
         (''revoked_at'', K_time, True), (''created_at'', K_time, False)]),
      (''products'',
        [(''id'', K_uuid, False), (''key'', K_str, False), (''name'', K_str, False),
         (''description'', K_str, True), (''is_active'', K_bool, False)]),
      (''features'',
        [(''id'', K_uuid, False), (''key'', K_str, False), (''feature_type'', K_str, False),
         (''default_limit'', K_int, True), (''reset_interval'', K_str, True)]),
      (''plans'',
        [(''id'', K_uuid, False), (''product_id'', K_uuid, False), (''key'', K_str, False),
         (''billing_interval'', K_str, False), (''trial_days'', K_int, True),
         (''grace_period_days'', K_int, False), (''dunning_policy'', K_json, False),
         (''entitlement_policy'', K_json, False), (''version'', K_int, False), (''published_at'', K_time, True)]),
      (''prices'',
        [(''id'', K_uuid, False), (''plan_id'', K_uuid, False), (''currency'', K_str, False),
         (''unit_amount_cents'', K_int, False), (''pricing_model'', K_str, False),
         (''metered_feature_key'', K_str, True), (''external_price_id'', K_str, True),
         (''is_active'', K_bool, False)]),
      (''plan_features'',
        [(''id'', K_uuid, False), (''plan_id'', K_uuid, False), (''feature_id'', K_uuid, False),
         (''limit_value'', K_int, True), (''is_enabled'', K_bool, False), (''enforcement_mode'', K_str, False)]),
      (''subscriptions'',
        [(''id'', K_int, False), (''public_id'', K_uuid, False), (''organization_id'', K_int, False),
         (''plan_id'', K_uuid, False), (''status'', K_str, False), (''current_period_start'', K_time, False),
         (''current_period_end'', K_time, False), (''cancel_at_period_end'', K_bool, False),
         (''canceled_at'', K_time, True), (''past_due_entered_at'', K_time, True), (''trial_end'', K_time, True),
         (''external_subscription_id'', K_str, True), (''idempotency_key'', K_str, True),
         (''metadata'', K_json, False), (''created_at'', K_time, False), (''updated_at'', K_time, False)]),
      (''webhook_events'',
        [(''id'', K_uuid, False), (''provider'', K_str, False), (''provider_event_id'', K_str, False),
         (''event_type'', K_str, False), (''payload'', K_json, False),
         (''status'', K_enum [''received'', ''processing'', ''processed'', ''failed'', ''skipped''], False),
         (''processing_attempts'', K_int, False), (''last_error'', K_str, True), (''received_at'', K_time, False),
         (''processed_at'', K_time, True)]),
      (''outbox_dead_letters'',
        [(''id'', K_int, False), (''outbox_message_id'', K_int, False), (''aggregate_type'', K_str, False),
         (''aggregate_id'', K_str, False), (''event_type'', K_str, False), (''payload'', K_json, False),
         (''partition_key'', K_str, False), (''publish_attempts'', K_int, False), (''last_error'', K_str, True),
         (''moved_at'', K_time, False), (''replayed_at'', K_time, True)]),
      (''ledger_entries'',
        [(''id'', K_int, False), (''public_id'', K_uuid, False), (''organization_id'', K_int, False),
         (''subscription_id'', K_int, True), (''invoice_id'', K_int, True), (''entry_type'', K_str, False),
         (''amount_cents'', K_int, False), (''currency'', K_str, False), (''quantity'', K_num, True),
         (''reverses_entry_id'', K_int, True), (''idempotency_key'', K_str, False),
         (''correlation_id'', K_str, False), (''metadata'', K_json, False), (''created_at'', K_time, False)]),
      (''reconciliation_runs'',
        [(''id'', K_uuid, False), (''run_type'', K_str, False), (''status'', K_str, False),
         (''stats'', K_json, False), (''idempotency_key'', K_str, False), (''started_at'', K_time, False),
         (''completed_at'', K_time, True)]),
      (''reconciliation_discrepancies'',
        [(''id'', K_uuid, False), (''run_id'', K_uuid, False), (''kind'', K_str, False),
         (''external_invoice_id'', K_str, True), (''expected_amount_cents'', K_int, True),
         (''actual_amount_cents'', K_int, True), (''delta_cents'', K_int, True), (''details'', K_json, False),
         (''created_at'', K_time, False)]),
      (''usage_events'',
        [(''id'', K_int, False), (''public_id'', K_uuid, False), (''organization_id'', K_int, False),
         (''subscription_id'', K_int, True), (''feature_key'', K_str, False), (''quantity'', K_num, False),
         (''recorded_at'', K_time, False), (''idempotency_key'', K_str, False), (''metadata'', K_json, False),
         (''ingested_at'', K_time, False)]),
      (''usage_aggregates_hourly'',
        [(''id'', K_int, False), (''public_id'', K_uuid, False), (''organization_id'', K_int, False),
         (''feature_key'', K_str, False), (''hour_start'', K_time, False), (''quantity'', K_num, False)]),
      (''invoices'',
        [(''id'', K_int, False), (''public_id'', K_uuid, False), (''organization_id'', K_int, False),
         (''subscription_id'', K_int, True), (''status'', K_str, False), (''currency'', K_str, False),
         (''period_start'', K_time, False), (''period_end'', K_time, False),
         (''total_amount_cents'', K_int, False), (''external_invoice_id'', K_str, True),
         (''synced_at'', K_time, True), (''idempotency_key'', K_str, False), (''created_at'', K_time, False),
         (''updated_at'', K_time, False)]),
      (''invoice_line_items'',
        [(''id'', K_uuid, False), (''invoice_id'', K_int, False), (''description'', K_str, False),
         (''quantity'', K_num, False), (''unit_amount_cents'', K_int, False), (''amount_cents'', K_int, False),
         (''feature_key'', K_str, True), (''price_id'', K_uuid, True), (''usage_period_id'', K_uuid, True),
         (''created_at'', K_time, False)]),
      (''dunning_campaigns'',
        [(''id'', K_uuid, False), (''subscription_id'', K_int, False), (''organization_id'', K_int, False),
         (''status'', K_str, False), (''grace_until'', K_time, True), (''policy_snapshot'', K_json, False),
         (''idempotency_key'', K_str, False), (''started_at'', K_time, False), (''created_at'', K_time, False)]),
      (''dunning_attempts'',
        [(''id'', K_uuid, False), (''campaign_id'', K_uuid, False), (''attempt_no'', K_int, False),
         (''scheduled_at'', K_time, False), (''executed_at'', K_time, True), (''result'', K_str, True),
         (''external_charge_id'', K_str, True), (''idempotency_key'', K_str, False), (''created_at'', K_time, False)])]"

section \<open>Columns\<close>

text \<open>The labels of an enumeration are those its type has in the catalog.\<close>

fun kind_of_type :: "(string \<times> string list) list \<Rightarrow> col_type \<Rightarrow> value_kind" where
  "kind_of_type ts BigInteger = K_int"
| "kind_of_type ts Integer = K_int"
| "kind_of_type ts Uuid = K_uuid"
| "kind_of_type ts (String _) = K_str"
| "kind_of_type ts Text = K_str"
| "kind_of_type ts JSONB = K_json"
| "kind_of_type ts DateTime_tz = K_time"
| "kind_of_type ts Boolean = K_bool"
| "kind_of_type ts (Numeric _ _) = K_num"
| "kind_of_type ts (Enum n) = K_enum (case map_of ts n of None \<Rightarrow> [] | Some labels \<Rightarrow> labels)"

fun value_fits :: "value_kind \<Rightarrow> bool \<Rightarrow> db_value \<Rightarrow> bool" where
  "value_fits k null_ok V_null = null_ok"
| "value_fits k null_ok (V_int _) = (k = K_int)"
| "value_fits k null_ok (V_uuid _) = (k = K_uuid)"
| "value_fits k null_ok (V_str s) = (case k of K_str \<Rightarrow> True | K_enum labels \<Rightarrow> s \<in> set labels | _ \<Rightarrow> False)"
| "value_fits k null_ok (V_json _) = (k = K_json)"
| "value_fits k null_ok (V_time _) = (k = K_time)"
| "value_fits k null_ok (V_bool _) = (k = K_bool)"
| "value_fits k null_ok (V_num _) = (k = K_num)"

text \<open>
  A row fits a table if it names only columns of the table, gives each of them a value of its type, a
  label of an enumeration (null only where it may be), and leaves out only columns that may be null.
\<close>

definition row_fits :: "(string \<times> string list) list \<Rightarrow> table_def \<Rightarrow> row \<Rightarrow> bool" where
  "row_fits ts t r \<longleftrightarrow> set (map fst r) \<subseteq> set (column_names t) \<and>
     (\<forall>c \<in> set (tb_columns t). case map_of r (col_name c) of
        None \<Rightarrow> col_nullable c
      | Some v \<Rightarrow> value_fits (kind_of_type ts (col_type c)) (col_nullable c) v)"

definition shape_fits :: "(string \<times> string list) list \<Rightarrow> table_def \<Rightarrow> (string \<times> value_kind \<times> bool) list \<Rightarrow> bool" where
  "shape_fits ts t sh \<longleftrightarrow> list_all (\<lambda>n. n \<in> set (column_names t)) (map fst sh) \<and>
     list_all (\<lambda>c. case map_of sh (col_name c) of
        None \<Rightarrow> col_nullable c
      | Some (k, null_ok) \<Rightarrow> k = kind_of_type ts (col_type c) \<and> null_ok = col_nullable c) (tb_columns t)"

definition has_shape :: "(string \<times> value_kind \<times> bool) list \<Rightarrow> row \<Rightarrow> bool" where
  "has_shape sh r \<longleftrightarrow> list_all2 (\<lambda>(n, k, null_ok) (m, v). m = n \<and> value_fits k null_ok v) sh r"

lemma value_fits_or_null [simp]:
  "value_fits K_int True (or_null V_int x1)" "value_fits K_uuid True (or_null V_uuid x2)"
  "value_fits K_str True (or_null V_str x3)" "value_fits K_time True (or_null V_time x4)"
  "value_fits K_num True (or_null V_num x5)" "value_fits K_str True (or_null (\<lambda>x. V_str (f x)) x6)"
  by (simp_all add: or_null_def split: option.split)

lemma has_shape_lookup:
  "has_shape sh r \<Longrightarrow> map_of r n = None \<and> map_of sh n = None \<or>
     (\<exists>v k null_ok. map_of r n = Some v \<and> map_of sh n = Some (k, null_ok) \<and> value_fits k null_ok v)"
  unfolding has_shape_def by (induction rule: list_all2_induct) auto

lemma has_shape_names: "has_shape sh r \<Longrightarrow> map fst r = map fst sh"
  unfolding has_shape_def by (induction rule: list_all2_induct) auto

lemma shape_row_fits:
  assumes "shape_fits ts t sh" "has_shape sh r"
  shows "row_fits ts t r"
  unfolding row_fits_def
proof (intro conjI ballI)
  show "set (map fst r) \<subseteq> set (column_names t)"
    using assms(1) unfolding has_shape_names [OF assms(2)] by (auto simp: shape_fits_def list_all_iff)
next
  fix c assume "c \<in> set (tb_columns t)"
  then have "case map_of sh (col_name c) of None \<Rightarrow> col_nullable c
      | Some (k, null_ok) \<Rightarrow> k = kind_of_type ts (col_type c) \<and> null_ok = col_nullable c"
    using assms(1) by (simp add: shape_fits_def list_all_iff)
  then show "case map_of r (col_name c) of None \<Rightarrow> col_nullable c
      | Some v \<Rightarrow> value_fits (kind_of_type ts (col_type c)) (col_nullable c) v"
    using has_shape_lookup [OF assms(2), of "col_name c"] by auto
qed

lemmas sql_defs = organization_sql_def outbox_message_sql_def api_key_sql_def product_sql_def feature_sql_def
  plan_sql_def price_sql_def plan_feature_sql_def subscription_sql_def webhook_event_sql_def outbox_dead_letter_sql_def
  ledger_entry_sql_def reconciliation_run_sql_def reconciliation_discrepancy_sql_def usage_event_sql_def
  usage_aggregate_sql_def invoice_sql_def invoice_line_item_sql_def dunning_campaign_sql_def dunning_attempt_sql_def

lemma webhook_status_label:
  "webhook_status_value st \<in> {''received'', ''processing'', ''processed'', ''failed'', ''skipped''}"
  by (cases st) simp_all

lemma rows_shaped: "list_all2 (\<lambda>(n, rows) (m, sh). m = n \<and> (\<forall>r \<in> set rows. has_shape sh r)) (table_view d) table_shapes"
  using webhook_status_label by (simp add: table_view_def table_shapes_def has_shape_def sql_defs)

section \<open>Constraints\<close>

definition column_value :: "row \<Rightarrow> string \<Rightarrow> db_value" where
  "column_value r k = (case map_of r k of None \<Rightarrow> V_null | Some v \<Rightarrow> v)"

definition key_values :: "string list \<Rightarrow> row \<Rightarrow> db_value list" where
  "key_values cols r = map (column_value r) cols"

text \<open>Rows with a null in the key do not count.\<close>

definition unique_in :: "string list \<Rightarrow> row list \<Rightarrow> bool" where
  "unique_in cols rows = distinct (filter (\<lambda>vs. V_null \<notin> set vs) (map (key_values cols) rows))"

definition rows_of :: "database \<Rightarrow> string \<Rightarrow> row list" where
  "rows_of d n = (case map_of (table_view d) n of None \<Rightarrow> [] | Some rows \<Rightarrow> rows)"

fun constraint_holds :: "database \<Rightarrow> string \<Rightarrow> table_constraint \<Rightarrow> bool" where
  "constraint_holds d n (Primary_key cols) =
     (unique_in cols (rows_of d n) \<and> list_all (\<lambda>r. V_null \<notin> set (key_values cols r)) (rows_of d n))"
| "constraint_holds d n (Unique _ cols) = unique_in cols (rows_of d n)"
| "constraint_holds d n (Foreign_key cols rt rcols) =
     list_all (\<lambda>r. V_null \<in> set (key_values cols r) \<or> key_values cols r \<in> key_values rcols ` set (rows_of d rt)) (rows_of d n)"

fun condition_holds :: "row_condition \<Rightarrow> row \<Rightarrow> bool" where
  "condition_holds (Is_null k) r = (column_value r k = V_null)"
| "condition_holds (Equals k s) r = (column_value r k = V_str s)"

definition index_holds :: "database \<Rightarrow> string \<Rightarrow> index_def \<Rightarrow> bool" where
  "index_holds d n ix \<longleftrightarrow> (ix_unique ix \<longrightarrow>
     unique_in (ix_columns ix)
       (case ix_where ix of None \<Rightarrow> rows_of d n | Some w \<Rightarrow> filter (condition_holds w) (rows_of d n)))"

definition table_constraints_hold :: "database \<Rightarrow> string \<times> table_def \<Rightarrow> bool" where
  "table_constraints_hold d nt \<longleftrightarrow>
     list_all (constraint_holds d (fst nt)) (tb_constraints (snd nt)) \<and> list_all (index_holds d (fst nt)) (tb_indexes (snd nt))"

definition constraints_hold :: "catalog \<Rightarrow> database \<Rightarrow> bool" where
  "constraints_hold s d = list_all (table_constraints_hold d) (ct_tables s)"

text \<open>A unique column of the catalog is a unique key of the model.\<close>

lemma unique_in_map:
  assumes "\<And>r. column_value (f r) k = or_null g (key r)" "inj g" "\<And>x. g x \<noteq> V_null"
  shows "unique_in [k] (map f rows) \<longleftrightarrow> unique_by key rows"
proof -
  have "filter (\<lambda>vs. V_null \<notin> set vs) (map (key_values [k]) (map f rows)) = map (\<lambda>x. [g x]) (List.map_filter key rows)"
    by (induction rows) (simp_all add: key_values_def assms(1,3) assms(3) [symmetric] or_null_def List.map_filter_simps
      split: option.split)
  moreover have "inj_on (\<lambda>x. [g x]) A" for A using assms(2) by (simp add: inj_on_def inj_def)
  ultimately show ?thesis by (simp add: unique_in_def unique_by_def distinct_map)
qed

lemma unique_in_key:
  assumes "\<And>r. column_value (f r) k = g (key r)" "inj g" "\<And>x. g x \<noteq> V_null"
  shows "unique_in [k] (map f rows) \<longleftrightarrow> unique_key key rows"
  using unique_in_map [of f k g "\<lambda>r. Some (key r)" rows] assms by (simp add: or_null_def)

lemma column_value_Cons [simp]: "column_value ((k, v) # r) k' = (if k' = k then v else column_value r k')"
  by (simp add: column_value_def)

lemma inj_values [simp]: "inj V_int" "inj V_uuid" "inj V_str"
  by (simp_all add: inj_def)

lemmas unique_in_keys =
  unique_in_key [where g = V_int, simplified] unique_in_key [where g = V_uuid, simplified] unique_in_key [where g = V_str, simplified]
  unique_in_map [where g = V_int, simplified] unique_in_map [where g = V_uuid, simplified] unique_in_map [where g = V_str, simplified]

lemma rows_of_tables [simp]:
  "rows_of d ''organizations'' = map organization_sql (organizations d)"
  "rows_of d ''plans'' = map plan_sql (plans d)"
  "rows_of d ''subscriptions'' = map subscription_sql (subscriptions d)"
  "rows_of d ''ledger_entries'' = map ledger_entry_sql (ledger_entries d)"
  "rows_of d ''outbox_messages'' = map outbox_message_sql (outbox_messages d)"
  "rows_of d ''webhook_events'' = map webhook_event_sql (webhook_events d)"
  "rows_of d ''invoices'' = map invoice_sql (invoices d)"
  "rows_of d ''dunning_campaigns'' = map dunning_campaign_sql (dunning_campaigns d)"
  "rows_of d ''dunning_attempts'' = map dunning_attempt_sql (dunning_attempts d)"
  by (simp_all add: rows_of_def table_view_def)

text \<open>The constraints that the integrity of the model rests on.\<close>

definition needed_constraints :: "(string \<times> table_constraint) list" where
  "needed_constraints =
     [(''organizations'', Primary_key [''id'']), (''organizations'', Unique None [''public_id'']),
      (''organizations'', Unique None [''external_id'']),
      (''organizations'', Unique (Some ''uq_organizations_idempotency_key'') [''idempotency_key'']),
      (''plans'', Primary_key [''id'']), (''subscriptions'', Primary_key [''id'']),
      (''subscriptions'', Unique None [''public_id'']), (''subscriptions'', Unique None [''external_subscription_id'']),
      (''subscriptions'', Unique None [''idempotency_key'']), (''ledger_entries'', Primary_key [''id'']),
      (''ledger_entries'', Unique None [''idempotency_key'']), (''outbox_messages'', Primary_key [''id'']),
      (''outbox_messages'', Unique None [''idempotency_key'']), (''webhook_events'', Primary_key [''id'']),
      (''webhook_events'', Unique None [''provider_event_id'']), (''invoices'', Primary_key [''id'']),
      (''invoices'', Unique None [''idempotency_key'']), (''dunning_campaigns'', Primary_key [''id'']),
      (''dunning_campaigns'', Unique None [''idempotency_key'']), (''dunning_attempts'', Primary_key [''id'']),
      (''subscriptions'', Foreign_key [''organization_id''] ''organizations'' [''id'']),
      (''subscriptions'', Foreign_key [''plan_id''] ''plans'' [''id'']),
      (''ledger_entries'', Foreign_key [''organization_id''] ''organizations'' [''id'']),
      (''ledger_entries'', Foreign_key [''subscription_id''] ''subscriptions'' [''id'']),
      (''invoices'', Foreign_key [''organization_id''] ''organizations'' [''id'']),
      (''dunning_campaigns'', Foreign_key [''subscription_id''] ''subscriptions'' [''id'']),
      (''dunning_campaigns'', Foreign_key [''organization_id''] ''organizations'' [''id'']),
      (''dunning_attempts'', Foreign_key [''campaign_id''] ''dunning_campaigns'' [''id''])]"

definition active_campaign_index :: index_def where
  "active_campaign_index =
     index_on ''uq_dunning_campaigns_active_subscription'' [''subscription_id''] True (Some (Equals ''status'' ''active''))"

lemma foreign_key_map:
  assumes "\<And>r. column_value (f r) k = h (ref r)" "\<And>q. column_value (g q) k' = h (key q)" "inj h" "\<And>x. h x \<noteq> V_null"
  shows "list_all (\<lambda>r. V_null \<in> set (key_values [k] r) \<or> key_values [k] r \<in> key_values [k'] ` set (map g qs)) (map f rows) \<longleftrightarrow>
    (\<forall>r \<in> set rows. ref r \<in> key ` set qs)"
  by (auto simp: list_all_iff key_values_def assms(1,2) image_iff assms(4) [symmetric] inj_eq [OF assms(3)])

lemma foreign_key_opt_map:
  assumes "\<And>r. column_value (f r) k = or_null h (ref r)" "\<And>q. column_value (g q) k' = h (key q)" "inj h" "\<And>x. h x \<noteq> V_null"
  shows "list_all (\<lambda>r. V_null \<in> set (key_values [k] r) \<or> key_values [k] r \<in> key_values [k'] ` set (map g qs)) (map f rows) \<longleftrightarrow>
    (\<forall>r \<in> set rows. \<forall>i. ref r = Some i \<longrightarrow> i \<in> key ` set qs)"
  by (auto simp: list_all_iff key_values_def assms(1,2) image_iff assms(4) [symmetric] inj_eq [OF assms(3)] or_null_def
    split: option.splits)

lemmas foreign_keys = foreign_key_map [where h = V_int] foreign_key_map [where h = V_uuid] foreign_key_opt_map [where h = V_int]

lemma keys_unique_sql:
  "unique_in [''id''] (map organization_sql gs) = unique_key org_id gs"
  "unique_in [''public_id''] (map organization_sql gs) = unique_key org_public_id gs"
  "unique_in [''external_id''] (map organization_sql gs) = unique_by org_external_id gs"
  "unique_in [''idempotency_key''] (map organization_sql gs) = unique_by org_idempotency_key gs"
  "unique_in [''id''] (map plan_sql ps) = unique_key plan_id ps"
  "unique_in [''id''] (map subscription_sql ss) = unique_key sub_id ss"
  "unique_in [''public_id''] (map subscription_sql ss) = unique_key sub_public_id ss"
  "unique_in [''external_subscription_id''] (map subscription_sql ss) = unique_by external_subscription_id ss"
  "unique_in [''idempotency_key''] (map subscription_sql ss) = unique_by sub_idempotency_key ss"
  "unique_in [''id''] (map ledger_entry_sql es) = unique_key le_id es"
  "unique_in [''idempotency_key''] (map ledger_entry_sql es) = unique_key le_idempotency_key es"
  "unique_in [''id''] (map outbox_message_sql os) = unique_key ob_id os"
  "unique_in [''idempotency_key''] (map outbox_message_sql os) = unique_by ob_idempotency_key os"
  "unique_in [''id''] (map webhook_event_sql ws) = unique_key wh_id ws"
  "unique_in [''provider_event_id''] (map webhook_event_sql ws) = unique_key provider_event_id ws"
  "unique_in [''id''] (map invoice_sql vs) = unique_key inv_id vs"
  "unique_in [''idempotency_key''] (map invoice_sql vs) = unique_key inv_idempotency_key vs"
  "unique_in [''id''] (map dunning_campaign_sql cs) = unique_key camp_id cs"
  "unique_in [''idempotency_key''] (map dunning_campaign_sql cs) = unique_key camp_idempotency_key cs"
  "unique_in [''id''] (map dunning_attempt_sql as) = unique_key att_id as"
  by (rule unique_in_keys; simp add: sql_defs)+

lemma active_campaign_sql:
  "unique_in [''subscription_id''] (filter (condition_holds (Equals ''status'' ''active'')) (map dunning_campaign_sql cs)) =
     unique_by active_subscription cs"
proof -
  let ?f = "\<lambda>c. (''subscription_id'', or_null V_int (active_subscription c)) # dunning_campaign_sql c"
  have cols: "column_value (dunning_campaign_sql c) ''subscription_id'' = V_int (camp_subscription_id c)"
      "column_value (dunning_campaign_sql c) ''status'' = V_str (campaign_status_value (camp_status c))" for c
    by (simp_all add: dunning_campaign_sql_def)
  have st: "campaign_status_value x = ''active'' \<longleftrightarrow> x = CAMPAIGN_ACTIVE" for x by (cases x) simp_all
  have "filter (\<lambda>vs. V_null \<notin> set vs) (map (key_values [''subscription_id''])
        (filter (condition_holds (Equals ''status'' ''active'')) (map dunning_campaign_sql cs))) =
      filter (\<lambda>vs. V_null \<notin> set vs) (map (key_values [''subscription_id'']) (map ?f cs))"
    by (induction cs) (simp_all add: key_values_def cols active_subscription_def or_null_def st)
  then show ?thesis
    using unique_in_map [of ?f "''subscription_id''" V_int active_subscription cs] by (simp add: unique_in_def)
qed

lemma references_sql:
  "constraint_holds d ''subscriptions'' (Foreign_key [''organization_id''] ''organizations'' [''id'']) \<longleftrightarrow>
     (\<forall>r \<in> set (subscriptions d). sub_organization_id r \<in> org_id ` set (organizations d))"
  "constraint_holds d ''subscriptions'' (Foreign_key [''plan_id''] ''plans'' [''id'']) \<longleftrightarrow>
     (\<forall>r \<in> set (subscriptions d). sub_plan_id r \<in> plan_id ` set (plans d))"
  "constraint_holds d ''ledger_entries'' (Foreign_key [''organization_id''] ''organizations'' [''id'']) \<longleftrightarrow>
     (\<forall>r \<in> set (ledger_entries d). le_organization_id r \<in> org_id ` set (organizations d))"
  "constraint_holds d ''ledger_entries'' (Foreign_key [''subscription_id''] ''subscriptions'' [''id'']) \<longleftrightarrow>
     (\<forall>r \<in> set (ledger_entries d). \<forall>i. le_subscription_id r = Some i \<longrightarrow> i \<in> sub_id ` set (subscriptions d))"
  "constraint_holds d ''invoices'' (Foreign_key [''organization_id''] ''organizations'' [''id'']) \<longleftrightarrow>
     (\<forall>r \<in> set (invoices d). inv_organization_id r \<in> org_id ` set (organizations d))"
  "constraint_holds d ''dunning_campaigns'' (Foreign_key [''subscription_id''] ''subscriptions'' [''id'']) \<longleftrightarrow>
     (\<forall>r \<in> set (dunning_campaigns d). camp_subscription_id r \<in> sub_id ` set (subscriptions d))"
  "constraint_holds d ''dunning_campaigns'' (Foreign_key [''organization_id''] ''organizations'' [''id'']) \<longleftrightarrow>
     (\<forall>r \<in> set (dunning_campaigns d). camp_organization_id r \<in> org_id ` set (organizations d))"
  "constraint_holds d ''dunning_attempts'' (Foreign_key [''campaign_id''] ''dunning_campaigns'' [''id'']) \<longleftrightarrow>
     (\<forall>r \<in> set (dunning_attempts d). att_campaign_id r \<in> camp_id ` set (dunning_campaigns d))"
  by (simp_all only: constraint_holds.simps rows_of_tables) (rule foreign_keys; simp add: sql_defs)+

lemma needed_give_db_ok:
  assumes "list_all (\<lambda>(n, c). constraint_holds d n c) needed_constraints"
    and "index_holds d ''dunning_campaigns'' active_campaign_index"
  shows "db_ok d"
proof -
  have "unique_by active_subscription (dunning_campaigns d)"
    using assms(2) by (simp add: index_holds_def active_campaign_index_def index_on_def active_campaign_sql)
  then show ?thesis
    using assms(1) unfolding needed_constraints_def list.pred_inject case_prod_conv references_sql
    by (simp add: db_ok_def keys_unique_def references_ok_def keys_unique_sql)
qed

section \<open>The migrated catalog\<close>

definition shapes_fit :: "catalog \<Rightarrow> bool" where
  "shapes_fit s = list_all2 (\<lambda>(n, t) (m, sh). m = n \<and> shape_fits (ct_types s) t sh) (ct_tables s) table_shapes"

definition has_needed :: "catalog \<Rightarrow> bool" where
  "has_needed s \<longleftrightarrow>
     list_all (\<lambda>(n, c). case map_of (ct_tables s) n of None \<Rightarrow> False | Some t \<Rightarrow> c \<in> set (tb_constraints t)) needed_constraints \<and>
     (case map_of (ct_tables s) ''dunning_campaigns'' of None \<Rightarrow> False | Some t \<Rightarrow> active_campaign_index \<in> set (tb_indexes t))"

text \<open>The sample database with the product of its plan.\<close>

definition sample_catalog_db :: database where
  "sample_catalog_db =
     sample_db\<lparr>products := [\<lparr>prod_id = 200, prod_key = ''core'', prod_name = ''Core'', prod_description = None,
       prod_is_active = True\<rparr>]\<rparr>"

lemma final_catalog:
  "case migrate now plain_revisions empty_catalog of None \<Rightarrow> False
   | Some s \<Rightarrow> shapes_fit s \<and> has_needed s \<and> constraints_hold s sample_catalog_db"
  by code_simp

lemma migrated_types: "ct_types (migrated now) = ct_types (the (migrate now plain_revisions empty_catalog))"
  using revisions_with_partitions [of now] by (auto simp: migrated_def revisions_def migrate_append)

lemma migrated_catalog:
  "shapes_fit (migrated now)" "has_needed (migrated now)" "constraints_hold (migrated now) sample_catalog_db"
  using final_catalog [of now]
  by (auto simp: shapes_fit_def has_needed_def constraints_hold_def migrated_tables migrated_types split: option.splits)

lemma needed_holds:
  assumes "has_needed s" "constraints_hold s d"
  shows "list_all (\<lambda>(n, c). constraint_holds d n c) needed_constraints"
    and "index_holds d ''dunning_campaigns'' active_campaign_index"
proof -
  have table: "list_all (constraint_holds d n) (tb_constraints t) \<and> list_all (index_holds d n) (tb_indexes t)"
    if "map_of (ct_tables s) n = Some t" for n t
    using assms(2) map_of_SomeD [OF that] by (auto simp: constraints_hold_def table_constraints_hold_def list_all_iff)
  show "list_all (\<lambda>(n, c). constraint_holds d n c) needed_constraints"
    using assms(1) table unfolding has_needed_def list_all_iff by (fastforce split: option.splits)
  show "index_holds d ''dunning_campaigns'' active_campaign_index"
    using assms(1) table unfolding has_needed_def list_all_iff by (fastforce split: option.splits)
qed

text \<open>
  C11: The data model and the migrations agree. After all migrations, at whatever time they ran, the
  tables of the database are exactly those of the data model, in the order in which they were created,
  and every row the model can hold is one its table admits: each value is of the type of a column of
  that name, for an enumeration one of the labels the type was created with, null only where the column is nullable, and only nullable columns are left out.
\<close>

theorem rows_fit_migrated_tables:
  "list_all2 (\<lambda>(n, rows) (m, t). m = n \<and> list_all (row_fits (ct_types (migrated now)) t) rows) (table_view d) (ct_tables (migrated now))"
proof -
  have fit: "list_all2 (\<lambda>(m, sh) (n, t). m = n \<and> shape_fits (ct_types (migrated now)) t sh) table_shapes (ct_tables (migrated now))"
    using migrated_catalog(1) [of now] unfolding shapes_fit_def list_all2_conv_all_nth by (auto split: prod.splits)
  show ?thesis
    by (rule list_all2_trans [OF _ rows_shaped fit]) (auto simp: list_all_iff intro: shape_row_fits)
qed

text \<open>
  C7: The constraints of the migrated database give the integrity that the services rely on. In every
  state that satisfies the primary keys, unique constraints, foreign keys and partial unique indexes that
  the migrations declare, identifiers and idempotency keys are unique, references point to existing rows
  and a subscription has at most one active dunning campaign.
\<close>

theorem migrated_constraints_give_integrity:
  "constraints_hold (migrated now) d \<Longrightarrow> db_ok d"
  by (rule needed_give_db_ok) (rule needed_holds [OF migrated_catalog(2)], assumption)+

theorem migrated_constraints_give_integrity_witness:
  "constraints_hold (migrated 0) sample_catalog_db \<and> db_ok sample_catalog_db"
  using migrated_constraints_give_integrity [OF migrated_catalog(3)] migrated_catalog(3) by blast

end
