(* ===== verification/Requests.thy ===== *)
theory Requests
  imports Gateway "HOL-Library.Monad_Syntax"
begin

text \<open>
  The edge of the API: the request models of \<^verbatim>\<open>api/v1\<close> with their fields, defaults and bounds, the path,
  query and header parameters of the routes, and the routing table that \<^verbatim>\<open>main.py\<close> mounts. The
  conversions of single values (\<^verbatim>\<open>pydantic\<close>) are a parameter; how fields are looked up, defaulted and
  bounded is what the models declare.
\<close>

section \<open>Values and fields\<close>

text \<open>What the validation library makes of a JSON value for each declared type.\<close>

record pydantic =
  py_string :: "json \<Rightarrow> string option"
  py_integer :: "json \<Rightarrow> int option"
  py_boolean :: "json \<Rightarrow> bool option"
  py_uuid :: "json \<Rightarrow> uuid option"
  py_aware_datetime :: "json \<Rightarrow> pydatetime option"

text \<open>A required field, a field with a default, and a type \<^verbatim>\<open>T | None\<close>.\<close>

definition field :: "(json \<Rightarrow> 'a option) \<Rightarrow> string \<Rightarrow> json_object \<Rightarrow> 'a option" where
  "field f k b = Option.bind (map_of b k) f"

definition field_or :: "'a \<Rightarrow> (json \<Rightarrow> 'a option) \<Rightarrow> string \<Rightarrow> json_object \<Rightarrow> 'a option" where
  "field_or d f k b = (case map_of b k of None \<Rightarrow> Some d | Some j \<Rightarrow> f j)"

definition or_none :: "(json \<Rightarrow> 'a option) \<Rightarrow> json \<Rightarrow> 'a option option" where
  "or_none f j = (if j = JNull then Some None else map_option Some (f j))"

definition as_dict :: "json \<Rightarrow> json_object option" where
  "as_dict j = (case j of JObj b \<Rightarrow> Some b | _ \<Rightarrow> None)"

definition as_list :: "(json \<Rightarrow> 'a option) \<Rightarrow> json \<Rightarrow> 'a list option" where
  "as_list f j = (case j of JList js \<Rightarrow> those (map f js) | _ \<Rightarrow> None)"

definition bounded :: "nat \<Rightarrow> nat \<Rightarrow> (json \<Rightarrow> string option) \<Rightarrow> json \<Rightarrow> string option" where
  "bounded lo hi f j = do { s \<leftarrow> f j; if lo \<le> length s \<and> length s \<le> hi then Some s else None }"

definition nonempty :: "(json \<Rightarrow> 'a list option) \<Rightarrow> json \<Rightarrow> 'a list option" where
  "nonempty f j = do { xs \<leftarrow> f j; if xs = [] then None else Some xs }"

section \<open>Request models\<close>

definition create_organization_request ::
  "pydantic \<Rightarrow> json_object \<Rightarrow> (string \<times> string \<times> string option \<times> json_object) option" where
  "create_organization_request v b = do {
     name \<leftarrow> field (py_string v) ''name'' b;
     external \<leftarrow> field (py_string v) ''external_id'' b;
     email \<leftarrow> field_or None (or_none (py_string v)) ''billing_email'' b;
     metadata \<leftarrow> field_or [] as_dict ''metadata'' b;
     Some (name, external, email, metadata) }"

definition patch_organization_request ::
  "pydantic \<Rightarrow> json_object \<Rightarrow> (string option \<times> string option \<times> json_object option) option" where
  "patch_organization_request v b = do {
     name \<leftarrow> field_or None (or_none (py_string v)) ''name'' b;
     email \<leftarrow> field_or None (or_none (py_string v)) ''billing_email'' b;
     metadata \<leftarrow> field_or None (or_none as_dict) ''metadata'' b;
     Some (name, email, metadata) }"

definition create_api_key_request :: "pydantic \<Rightarrow> json_object \<Rightarrow> string option" where
  "create_api_key_request v b = field (py_string v) ''role'' b"

definition create_product_request ::
  "pydantic \<Rightarrow> json_object \<Rightarrow> (string \<times> string \<times> string option \<times> bool) option" where
  "create_product_request v b = do {
     k \<leftarrow> field (py_string v) ''key'' b;
     name \<leftarrow> field (py_string v) ''name'' b;
     description \<leftarrow> field_or None (or_none (py_string v)) ''description'' b;
     is_active \<leftarrow> field_or True (py_boolean v) ''is_active'' b;
     Some (k, name, description, is_active) }"

definition create_plan_request ::
  "pydantic \<Rightarrow> json_object \<Rightarrow> (uuid \<times> string \<times> string \<times> int option \<times> int \<times> json_object \<times> json_object) option" where
  "create_plan_request v b = do {
     product_id \<leftarrow> field (py_uuid v) ''product_id'' b;
     k \<leftarrow> field (py_string v) ''key'' b;
     interval \<leftarrow> field (py_string v) ''billing_interval'' b;
     trial \<leftarrow> field_or None (or_none (py_integer v)) ''trial_days'' b;
     grace \<leftarrow> field_or 7 (py_integer v) ''grace_period_days'' b;
     dunning \<leftarrow> field_or [] as_dict ''dunning_policy'' b;
     entitlement \<leftarrow> field_or [] as_dict ''entitlement_policy'' b;
     Some (product_id, k, interval, trial, grace, dunning, entitlement) }"

definition create_price_request ::
  "pydantic \<Rightarrow> json_object \<Rightarrow> (uuid \<times> int \<times> string \<times> string \<times> string option \<times> string option \<times> bool) option" where
  "create_price_request v b = do {
     pid \<leftarrow> field (py_uuid v) ''plan_id'' b;
     amount \<leftarrow> field (py_integer v) ''unit_amount_cents'' b;
     currency \<leftarrow> field_or ''USD'' (py_string v) ''currency'' b;
     model \<leftarrow> field_or ''flat'' (py_string v) ''pricing_model'' b;
     metered \<leftarrow> field_or None (or_none (py_string v)) ''metered_feature_key'' b;
     external \<leftarrow> field_or None (or_none (py_string v)) ''external_price_id'' b;
     is_active \<leftarrow> field_or True (py_boolean v) ''is_active'' b;
     Some (pid, amount, currency, model, metered, external, is_active) }"

definition create_feature_request ::
  "pydantic \<Rightarrow> json_object \<Rightarrow> (string \<times> string \<times> int option \<times> string option) option" where
  "create_feature_request v b = do {
     k \<leftarrow> field (py_string v) ''key'' b;
     ft \<leftarrow> field (py_string v) ''feature_type'' b;
     limit \<leftarrow> field_or None (or_none (py_integer v)) ''default_limit'' b;
     reset \<leftarrow> field_or None (or_none (py_string v)) ''reset_interval'' b;
     Some (k, ft, limit, reset) }"

definition plan_feature_item_request :: "pydantic \<Rightarrow> json \<Rightarrow> plan_feature_input option" where
  "plan_feature_item_request v j = do {
     b \<leftarrow> as_dict j;
     fid \<leftarrow> field (py_uuid v) ''feature_id'' b;
     limit \<leftarrow> field_or None (or_none (py_integer v)) ''limit_value'' b;
     enabled \<leftarrow> field_or True (py_boolean v) ''is_enabled'' b;
     mode \<leftarrow> field_or ''hard'' (py_string v) ''enforcement_mode'' b;
     Some \<lparr>pfi_feature_id = fid, pfi_limit_value = limit, pfi_is_enabled = enabled, pfi_enforcement_mode = mode\<rparr> }"

definition set_plan_features_request :: "pydantic \<Rightarrow> json_object \<Rightarrow> plan_feature_input list option" where
  "set_plan_features_request v b = field (as_list (plan_feature_item_request v)) ''features'' b"

definition create_subscription_request :: "pydantic \<Rightarrow> json_object \<Rightarrow> (uuid \<times> uuid \<times> json_object) option" where
  "create_subscription_request v b = do {
     u \<leftarrow> field (py_uuid v) ''organization_public_id'' b;
     pid \<leftarrow> field (py_uuid v) ''plan_id'' b;
     metadata \<leftarrow> field_or [] as_dict ''metadata'' b;
     Some (u, pid, metadata) }"

definition cancel_subscription_request :: "pydantic \<Rightarrow> json_object \<Rightarrow> bool option" where
  "cancel_subscription_request v b = field_or False (py_boolean v) ''at_period_end'' b"

text \<open>\<^verbatim>\<open>Literal["immediate"]\<close> takes this string alone.\<close>

definition immediate_literal :: "json \<Rightarrow> string option" where
  "immediate_literal j = (if j = JStr ''immediate'' then Some ''immediate'' else None)"

definition change_plan_request :: "pydantic \<Rightarrow> json_object \<Rightarrow> (uuid \<times> string) option" where
  "change_plan_request v b = do {
     pid \<leftarrow> field (py_uuid v) ''new_plan_id'' b;
     effective \<leftarrow> field_or ''immediate'' immediate_literal ''effective'' b;
     Some (pid, effective) }"

definition usage_event_request :: "pydantic \<Rightarrow> json \<Rightarrow> usage_event_in option" where
  "usage_event_request v j = do {
     b \<leftarrow> as_dict j;
     k \<leftarrow> field (bounded 1 255 (py_string v)) ''feature_key'' b;
     n \<leftarrow> field (py_integer v) ''quantity'' b;
     idem \<leftarrow> field (bounded 1 255 (py_string v)) ''idempotency_key'' b;
     t \<leftarrow> field_or None (or_none (py_aware_datetime v)) ''recorded_at'' b;
     Some \<lparr>uin_feature_key = k, uin_quantity = n, uin_idempotency_key = idem, uin_recorded_at = t\<rparr> }"

definition usage_batch_request :: "pydantic \<Rightarrow> json_object \<Rightarrow> (uuid \<times> usage_event_in list) option" where
  "usage_batch_request v b = do {
     u \<leftarrow> field (py_uuid v) ''organization_public_id'' b;
     events \<leftarrow> field (as_list (usage_event_request v)) ''events'' b;
     Some (u, events) }"

definition check_request :: "pydantic \<Rightarrow> json \<Rightarrow> check option" where
  "check_request v j = do {
     b \<leftarrow> as_dict j;
     k \<leftarrow> field (py_string v) ''feature_key'' b;
     n \<leftarrow> field_or 1 (py_integer v) ''quantity'' b;
     Some \<lparr>check_feature_key = k, check_quantity = n\<rparr> }"

definition evaluate_request :: "pydantic \<Rightarrow> json_object \<Rightarrow> (uuid \<times> check list) option" where
  "evaluate_request v b = do {
     u \<leftarrow> field (py_uuid v) ''organization_public_id'' b;
     checks \<leftarrow> field (nonempty (as_list (check_request v))) ''checks'' b;
     Some (u, checks) }"

definition invalidate_request :: "pydantic \<Rightarrow> json_object \<Rightarrow> uuid option" where
  "invalidate_request v b = field (py_uuid v) ''organization_public_id'' b"

section \<open>Calls and parameters\<close>

text \<open>
  A call as the server receives it: the segments of its path, the query in order, the
  \<^verbatim>\<open>Idempotency-Key\<close> header, and the body if it is JSON.
\<close>

record http_call =
  c_method :: string
  c_path :: "string list"
  c_query :: "(string \<times> string) list"
  c_idempotency_key :: "string option"
  c_body :: "json option"

datatype segment = Seg string | Param

type_synonym endpoint = "string \<times> segment list \<times> (pydantic \<Rightarrow> uuid list \<Rightarrow> http_call \<Rightarrow> api_request option)"

definition with_body :: "http_call \<Rightarrow> (json_object \<Rightarrow> 'a option) \<Rightarrow> 'a option" where
  "with_body c f = do { j \<leftarrow> c_body c; b \<leftarrow> as_dict j; f b }"

text \<open>The last value of a repeated query parameter counts.\<close>

definition query_param :: "http_call \<Rightarrow> string \<Rightarrow> string option" where
  "query_param c k = map_of (rev (c_query c)) k"

definition limit_param :: "pydantic \<Rightarrow> int \<Rightarrow> nat \<Rightarrow> http_call \<Rightarrow> nat option" where
  "limit_param v hi d c =
     (case query_param c ''limit'' of None \<Rightarrow> Some d
      | Some t \<Rightarrow> do { i \<leftarrow> py_integer v (JStr t); if 1 \<le> i \<and> i \<le> hi then Some (nat i) else None })"

definition offset_param :: "pydantic \<Rightarrow> http_call \<Rightarrow> nat option" where
  "offset_param v c =
     (case query_param c ''offset'' of None \<Rightarrow> Some 0
      | Some t \<Rightarrow> do { i \<leftarrow> py_integer v (JStr t); if 0 \<le> i then Some (nat i) else None })"

definition uuid_query :: "pydantic \<Rightarrow> string \<Rightarrow> http_call \<Rightarrow> uuid option option" where
  "uuid_query v k c = (case query_param c k of None \<Rightarrow> Some None | Some t \<Rightarrow> map_option Some (py_uuid v (JStr t)))"

section \<open>Endpoints\<close>

definition ep_post_organizations :: endpoint where
  "ep_post_organizations =
     (''POST'', [Seg ''organizations''], \<lambda>v _ c.
      with_body c (\<lambda>b. do { (name, external, email, metadata) \<leftarrow> create_organization_request v b; idem \<leftarrow> c_idempotency_key c;
        Some (Post_organization name external email metadata idem) }))"

definition ep_get_organization :: endpoint where
  "ep_get_organization =
     (''GET'', [Seg ''organizations'', Param], \<lambda>_ us _.
      Some (Get_organization (hd us)))"

definition ep_patch_organization :: endpoint where
  "ep_patch_organization =
     (''PATCH'', [Seg ''organizations'', Param], \<lambda>v us c.
      with_body c (\<lambda>b. do { (name, email, metadata) \<leftarrow> patch_organization_request v b;
        Some (Patch_organization (hd us) name email metadata) }))"

definition ep_post_organization_api_key :: endpoint where
  "ep_post_organization_api_key =
     (''POST'', [Seg ''organizations'', Param, Seg ''api-keys''], \<lambda>v us c.
      with_body c (\<lambda>b. do { role \<leftarrow> create_api_key_request v b; Some (Post_api_key (hd us) role) }))"

definition ep_post_products :: endpoint where
  "ep_post_products =
     (''POST'', [Seg ''products''], \<lambda>v _ c.
      with_body c (\<lambda>b. do { (k, name, description, is_active) \<leftarrow> create_product_request v b;
        Some (Post_product k name description is_active) }))"

definition ep_post_plans :: endpoint where
  "ep_post_plans =
     (''POST'', [Seg ''plans''], \<lambda>v _ c.
      with_body c (\<lambda>b. do { (pr, k, interval, trial, grace, dunning, entitlement) \<leftarrow> create_plan_request v b;
        Some (Post_plan pr k interval trial grace dunning entitlement) }))"

definition ep_post_prices :: endpoint where
  "ep_post_prices =
     (''POST'', [Seg ''prices''], \<lambda>v _ c.
      with_body c (\<lambda>b. do { (pid, amount, currency, model, metered, external, is_active) \<leftarrow> create_price_request v b;
        Some (Post_price pid amount currency model metered external is_active) }))"

definition ep_post_features :: endpoint where
  "ep_post_features =
     (''POST'', [Seg ''features''], \<lambda>v _ c.
      with_body c (\<lambda>b. do { (k, ft, limit, reset) \<leftarrow> create_feature_request v b; Some (Post_feature k ft limit reset) }))"

definition ep_put_features :: endpoint where
  "ep_put_features =
     (''PUT'', [Seg ''plans'', Param, Seg ''features''], \<lambda>v us c.
      with_body c (\<lambda>b. do { items \<leftarrow> set_plan_features_request v b; Some (Put_plan_features (hd us) items) }))"

definition ep_post_publish :: endpoint where
  "ep_post_publish =
     (''POST'', [Seg ''plans'', Param, Seg ''publish''], \<lambda>_ us _.
      Some (Publish_plan (hd us)))"

definition ep_get_catalog_snapshot :: endpoint where
  "ep_get_catalog_snapshot =
     (''GET'', [Seg ''catalog'', Seg ''snapshot''], \<lambda>_ _ _.
      Some Get_catalog)"

definition ep_post_subscriptions :: endpoint where
  "ep_post_subscriptions =
     (''POST'', [Seg ''subscriptions''], \<lambda>v _ c.
      with_body c (\<lambda>b. do { (u, pid, metadata) \<leftarrow> create_subscription_request v b; idem \<leftarrow> c_idempotency_key c;
        Some (Post_subscription u pid metadata idem) }))"

definition ep_get_subscription :: endpoint where
  "ep_get_subscription =
     (''GET'', [Seg ''subscriptions'', Param], \<lambda>_ us _.
      Some (Get_subscription (hd us)))"

definition ep_get_organization_subscriptions :: endpoint where
  "ep_get_organization_subscriptions =
     (''GET'', [Seg ''organizations'', Param, Seg ''subscriptions''], \<lambda>_ us _.
      Some (List_subscriptions (hd us)))"

definition ep_post_cancel :: endpoint where
  "ep_post_cancel =
     (''POST'', [Seg ''subscriptions'', Param, Seg ''cancel''], \<lambda>v us c.
      with_body c (\<lambda>b. do { at_end \<leftarrow> cancel_subscription_request v b; Some (Cancel_subscription (hd us) at_end) }))"

definition ep_post_plan_change :: endpoint where
  "ep_post_plan_change =
     (''POST'', [Seg ''subscriptions'', Param, Seg ''change-plan''], \<lambda>v us c.
      with_body c (\<lambda>b. do { (pid, effective) \<leftarrow> change_plan_request v b; idem \<leftarrow> c_idempotency_key c;
        Some (Change_plan (hd us) pid effective idem) }))"

definition ep_post_entitlements_evaluate :: endpoint where
  "ep_post_entitlements_evaluate =
     (''POST'', [Seg ''entitlements'', Seg ''evaluate''], \<lambda>v _ c.
      with_body c (\<lambda>b. do { (u, checks) \<leftarrow> evaluate_request v b; Some (Evaluate u checks) }))"

definition ep_post_entitlements_invalidate :: endpoint where
  "ep_post_entitlements_invalidate =
     (''POST'', [Seg ''entitlements'', Seg ''invalidate''], \<lambda>v _ c.
      with_body c (\<lambda>b. do { u \<leftarrow> invalidate_request v b; Some (Invalidate u) }))"

definition ep_get_organization_ledger :: endpoint where
  "ep_get_organization_ledger =
     (''GET'', [Seg ''organizations'', Param, Seg ''ledger''], \<lambda>v us c.
      do { limit \<leftarrow> limit_param v 500 100 c; offset \<leftarrow> offset_param v c; Some (List_ledger (hd us) limit offset) })"

definition ep_get_entry :: endpoint where
  "ep_get_entry =
     (''GET'', [Seg ''ledger'', Param], \<lambda>_ us _.
      Some (Get_ledger_entry (hd us)))"

definition ep_get_organization_invoices :: endpoint where
  "ep_get_organization_invoices =
     (''GET'', [Seg ''organizations'', Param, Seg ''invoices''], \<lambda>v us c.
      do { limit \<leftarrow> limit_param v 500 100 c; offset \<leftarrow> offset_param v c; Some (List_invoices (hd us) limit offset) })"

definition ep_get_invoice_by_id :: endpoint where
  "ep_get_invoice_by_id =
     (''GET'', [Seg ''invoices'', Param], \<lambda>_ us _.
      Some (Get_invoice (hd us)))"

definition ep_get_usage :: endpoint where
  "ep_get_usage =
     (''GET'', [Seg ''organizations'', Param, Seg ''usage''], \<lambda>_ us _.
      Some (Get_usage (hd us)))"

definition ep_post_usage_batch :: endpoint where
  "ep_post_usage_batch =
     (''POST'', [Seg ''usage'', Seg ''events'', Seg ''batch''], \<lambda>v _ c.
      with_body c (\<lambda>b. do { (u, events) \<leftarrow> usage_batch_request v b; Some (Post_usage u events) }))"

definition ep_post_reconciliation_run :: endpoint where
  "ep_post_reconciliation_run =
     (''POST'', [Seg ''admin'', Seg ''reconciliation'', Seg ''run''], \<lambda>_ _ c.
      do { idem \<leftarrow> c_idempotency_key c; Some (Trigger_reconciliation idem) })"

definition ep_get_reconciliation_runs :: endpoint where
  "ep_get_reconciliation_runs =
     (''GET'', [Seg ''admin'', Seg ''reconciliation'', Seg ''runs''], \<lambda>v _ c.
      do { limit \<leftarrow> limit_param v 200 50 c; offset \<leftarrow> offset_param v c; Some (List_runs limit offset) })"

definition ep_get_run_discrepancies :: endpoint where
  "ep_get_run_discrepancies =
     (''GET'', [Seg ''admin'', Seg ''reconciliation'', Seg ''runs'', Param, Seg ''discrepancies''], \<lambda>v us c.
      do { limit \<leftarrow> limit_param v 500 100 c; offset \<leftarrow> offset_param v c; Some (List_discrepancies (hd us) limit offset) })"

definition ep_post_rotate :: endpoint where
  "ep_post_rotate =
     (''POST'', [Seg ''admin'', Seg ''api-keys'', Param, Seg ''rotate''], \<lambda>_ us _.
      Some (Rotate_api_key (hd us)))"

definition ep_post_revoke :: endpoint where
  "ep_post_revoke =
     (''POST'', [Seg ''admin'', Seg ''api-keys'', Param, Seg ''revoke''], \<lambda>_ us _.
      Some (Revoke_api_key (hd us)))"

definition ep_get_campaigns :: endpoint where
  "ep_get_campaigns =
     (''GET'', [Seg ''admin'', Seg ''dunning'', Seg ''campaigns''], \<lambda>v _ c.
      do { fo \<leftarrow> uuid_query v ''organization_public_id'' c; fs \<leftarrow> uuid_query v ''subscription_public_id'' c;
        limit \<leftarrow> limit_param v 200 50 c; offset \<leftarrow> offset_param v c; Some (List_campaigns fo fs limit offset) })"

definition ep_post_pause :: endpoint where
  "ep_post_pause =
     (''POST'', [Seg ''admin'', Seg ''dunning'', Seg ''campaigns'', Param, Seg ''pause''], \<lambda>_ us _.
      Some (Pause_campaign (hd us)))"

definition ep_post_resume :: endpoint where
  "ep_post_resume =
     (''POST'', [Seg ''admin'', Seg ''dunning'', Seg ''campaigns'', Param, Seg ''resume''], \<lambda>_ us _.
      Some (Resume_campaign (hd us)))"

definition ep_post_replay :: endpoint where
  "ep_post_replay =
     (''POST'', [Seg ''admin'', Seg ''webhooks'', Param, Seg ''replay''], \<lambda>_ us _.
      Some (Replay_webhook (hd us)))"

definition endpoints :: "endpoint list" where
  "endpoints = map (\<lambda>(m, t, h). (m, Seg ''v1'' # t, h))
     [ep_post_organizations, ep_get_organization, ep_patch_organization, ep_post_organization_api_key, ep_post_products,
      ep_post_plans, ep_post_prices, ep_post_features, ep_put_features, ep_post_publish, ep_get_catalog_snapshot,
      ep_post_subscriptions, ep_get_subscription, ep_get_organization_subscriptions, ep_post_cancel, ep_post_plan_change,
      ep_post_entitlements_evaluate, ep_post_entitlements_invalidate, ep_get_organization_ledger, ep_get_entry,
      ep_get_organization_invoices, ep_get_invoice_by_id, ep_get_usage, ep_post_usage_batch, ep_post_reconciliation_run,
      ep_get_reconciliation_runs, ep_get_run_discrepancies, ep_post_rotate, ep_post_revoke, ep_get_campaigns, ep_post_pause,
      ep_post_resume, ep_post_replay]"

fun match_path :: "segment list \<Rightarrow> string list \<Rightarrow> string list option" where
  "match_path [] [] = Some []"
| "match_path (Seg s # ts) (p # ps) = (if p = s then match_path ts ps else None)"
| "match_path (Param # ts) (p # ps) = map_option ((#) p) (match_path ts ps)"
| "match_path _ _ = None"

datatype decoded_call = No_route | Unprocessable | Request api_request

text \<open>The first endpoint whose method and path fit takes the call.\<close>

fun dispatch :: "pydantic \<Rightarrow> endpoint list \<Rightarrow> http_call \<Rightarrow> decoded_call" where
  "dispatch v [] c = No_route"
| "dispatch v ((m, t, h) # es) c =
     (if m = c_method c
      then (case match_path t (c_path c) of
              None \<Rightarrow> dispatch v es c
            | Some ps \<Rightarrow>
                (case do { us \<leftarrow> those (map (\<lambda>p. py_uuid v (JStr p)) ps); h v us c } of
                   None \<Rightarrow> Unprocessable | Some q \<Rightarrow> Request q))
      else dispatch v es c)"

definition decode_call :: "pydantic \<Rightarrow> http_call \<Rightarrow> decoded_call" where
  "decode_call v c = dispatch v endpoints c"

section \<open>Bounds\<close>

text \<open>What the declared bounds leave of the requests.\<close>

definition event_ok :: "usage_event_in \<Rightarrow> bool" where
  "event_ok e \<longleftrightarrow> length (uin_feature_key e) \<in> {1..255} \<and> length (uin_idempotency_key e) \<in> {1..255} \<and>
     (case uin_recorded_at e of None \<Rightarrow> True | Some t \<Rightarrow> has_tz t)"

definition page_ok :: "nat \<Rightarrow> nat \<Rightarrow> bool" where
  "page_ok hi limit \<longleftrightarrow> 1 \<le> limit \<and> limit \<le> hi"

fun request_ok :: "api_request \<Rightarrow> bool" where
  "request_ok (Post_usage u events) = list_all event_ok events"
| "request_ok (Change_plan u pid effective idem) = (effective = ''immediate'')"
| "request_ok (Evaluate u checks) = (checks \<noteq> [])"
| "request_ok (List_ledger u limit offset) = page_ok 500 limit"
| "request_ok (List_invoices u limit offset) = page_ok 500 limit"
| "request_ok (List_runs limit offset) = page_ok 200 limit"
| "request_ok (List_discrepancies u limit offset) = page_ok 500 limit"
| "request_ok (List_campaigns fo fs limit offset) = page_ok 200 limit"
| "request_ok _ = True"

text \<open>The bounds alone, which hold whatever the library takes for a datetime.\<close>

definition keys_bounded :: "usage_event_in \<Rightarrow> bool" where
  "keys_bounded e \<longleftrightarrow> length (uin_feature_key e) \<in> {1..255} \<and> length (uin_idempotency_key e) \<in> {1..255}"

fun within_bounds :: "api_request \<Rightarrow> bool" where
  "within_bounds (Post_usage u events) = list_all keys_bounded events"
| "within_bounds (Change_plan u pid effective idem) = (effective = ''immediate'')"
| "within_bounds (Evaluate u checks) = (checks \<noteq> [])"
| "within_bounds (List_ledger u limit offset) = page_ok 500 limit"
| "within_bounds (List_invoices u limit offset) = page_ok 500 limit"
| "within_bounds (List_runs limit offset) = page_ok 200 limit"
| "within_bounds (List_discrepancies u limit offset) = page_ok 500 limit"
| "within_bounds (List_campaigns fo fs limit offset) = page_ok 200 limit"
| "within_bounds _ = True"

definition endpoint_ok :: "pydantic \<Rightarrow> endpoint \<Rightarrow> bool" where
  "endpoint_ok v e \<longleftrightarrow> (\<forall>us c q. snd (snd e) v us c = Some q \<longrightarrow> within_bounds q)"

lemma dispatch_ok: "\<forall>e \<in> set es. endpoint_ok v e \<Longrightarrow> dispatch v es c = Request q \<Longrightarrow> within_bounds q"
proof (induction v es c rule: dispatch.induct)
  case (2 v m t h es c)
  then show ?case
    by (auto simp: endpoint_ok_def bind_eq_Some_conv split: if_splits option.splits)
qed simp

lemma bounded_Some: "bounded lo hi f j = Some s \<Longrightarrow> lo \<le> length s \<and> length s \<le> hi"
  by (auto simp: bounded_def bind_eq_Some_conv split: if_splits)

lemma nonempty_Some: "nonempty f j = Some xs \<Longrightarrow> xs \<noteq> []"
  by (auto simp: nonempty_def bind_eq_Some_conv split: if_splits)

lemma as_list_Some: "as_list f j = Some xs \<Longrightarrow> x \<in> set xs \<Longrightarrow> \<exists>i. f i = Some x"
proof (induction j)
  case (JList js)
  have "those (map f js) = Some xs \<Longrightarrow> x \<in> set xs \<Longrightarrow> \<exists>i. f i = Some x" for xs
    by (induction js arbitrary: xs) (auto split: option.splits)
  then show ?case using JList by (simp add: as_list_def)
qed (simp_all add: as_list_def)

lemma limit_param_ok: "limit_param v (int hi) d c = Some n \<Longrightarrow> page_ok hi d \<Longrightarrow> page_ok hi n"
  by (auto simp: limit_param_def page_ok_def bind_eq_Some_conv split: option.splits if_splits)

lemma usage_event_request_bounded:
  assumes "usage_event_request v j = Some e"
  shows "keys_bounded e"
proof -
  from assms obtain b k n idem t where f: "field (bounded 1 255 (py_string v)) ''feature_key'' b = Some k"
    "field (bounded 1 255 (py_string v)) ''idempotency_key'' b = Some idem"
    "field_or None (or_none (py_aware_datetime v)) ''recorded_at'' b = Some t"
    "e = \<lparr>uin_feature_key = k, uin_quantity = n, uin_idempotency_key = idem, uin_recorded_at = t\<rparr>"
    by (auto simp: usage_event_request_def bind_eq_Some_conv)
  have "1 \<le> length k \<and> length k \<le> 255" "1 \<le> length idem \<and> length idem \<le> 255"
    using f(1,2) bounded_Some [of 1 255] by (auto simp: field_def bind_eq_Some_conv)
  then show ?thesis by (simp add: keys_bounded_def f(4))
qed

lemmas endpoint_defs = ep_post_organizations_def ep_get_organization_def ep_patch_organization_def ep_post_organization_api_key_def
  ep_post_products_def ep_post_plans_def ep_post_prices_def ep_post_features_def ep_put_features_def ep_post_publish_def
  ep_get_catalog_snapshot_def ep_post_subscriptions_def ep_get_subscription_def ep_get_organization_subscriptions_def
  ep_post_cancel_def ep_post_plan_change_def ep_post_entitlements_evaluate_def ep_post_entitlements_invalidate_def
  ep_get_organization_ledger_def ep_get_entry_def ep_get_organization_invoices_def ep_get_invoice_by_id_def ep_get_usage_def
  ep_post_usage_batch_def ep_post_reconciliation_run_def ep_get_reconciliation_runs_def ep_get_run_discrepancies_def
  ep_post_rotate_def ep_post_revoke_def ep_get_campaigns_def ep_post_pause_def ep_post_resume_def ep_post_replay_def

lemma endpoints_ok: "\<forall>e \<in> set endpoints. endpoint_ok v e"
proof -
  have "list_all keys_bounded events" if "as_list (usage_event_request v) j = Some events" for j events
    using as_list_Some [OF that] usage_event_request_bounded by (auto simp: list_all_iff)
  moreover have "page_ok 500 100" "page_ok 200 50" by (simp_all add: page_ok_def)
  ultimately show ?thesis
    unfolding endpoints_def endpoint_defs
    by (simp add: endpoint_ok_def with_body_def bind_eq_Some_conv)
      (auto simp: usage_batch_request_def evaluate_request_def change_plan_request_def field_def field_or_def
        immediate_literal_def bind_eq_Some_conv dest: nonempty_Some limit_param_ok [of v 500, simplified]
        limit_param_ok [of v 200, simplified] split: option.splits if_splits)
qed

text \<open>
  C9: A call that reaches a route respects the declared bounds. Whatever the client sends, a request that
  the routing table and the request models let through has page sizes between one and the route's maximum,
  feature and idempotency keys of 1 to 255 characters in usage batches, at least one entitlement check, and
  an immediate plan change.
\<close>

theorem decoded_within_bounds:
  assumes "decode_call v c = Request q"
  shows "within_bounds q"
  using dispatch_ok [OF endpoints_ok] assms by (simp add: decode_call_def)

section \<open>Canonical calls\<close>

definition call :: "string \<Rightarrow> string list \<Rightarrow> http_call" where
  "call m p = \<lparr>c_method = m, c_path = ''v1'' # p, c_query = [], c_idempotency_key = None, c_body = None\<rparr>"

definition paged :: "nat \<Rightarrow> nat \<Rightarrow> http_call \<Rightarrow> http_call" where
  "paged limit offset c =
     c\<lparr>c_query := c_query c @ [(''limit'', str_int (int limit)), (''offset'', str_int (int offset))]\<rparr>"

definition uuid_pair :: "string \<Rightarrow> uuid option \<Rightarrow> (string \<times> string) list" where
  "uuid_pair k x = (case x of None \<Rightarrow> [] | Some u \<Rightarrow> [(k, uuid_str u)])"

definition opt_dict :: "json_object option \<Rightarrow> json" where
  "opt_dict x = (case x of None \<Rightarrow> JNull | Some b \<Rightarrow> JObj b)"

definition event_json :: "(pydatetime \<Rightarrow> json) \<Rightarrow> usage_event_in \<Rightarrow> json" where
  "event_json aware e = JObj
     [(''feature_key'', JStr (uin_feature_key e)), (''quantity'', JInt (uin_quantity e)),
      (''idempotency_key'', JStr (uin_idempotency_key e)),
      (''recorded_at'', case uin_recorded_at e of None \<Rightarrow> JNull | Some t \<Rightarrow> aware t)]"

definition check_json :: "check \<Rightarrow> json" where
  "check_json k = JObj [(''feature_key'', JStr (check_feature_key k)), (''quantity'', JInt (check_quantity k))]"

definition item_json :: "plan_feature_input \<Rightarrow> json" where
  "item_json i = JObj
     [(''feature_id'', JStr (uuid_str (pfi_feature_id i))), (''limit_value'', opt_int (pfi_limit_value i)),
      (''is_enabled'', JBool (pfi_is_enabled i)), (''enforcement_mode'', JStr (pfi_enforcement_mode i))]"

text \<open>The call a client makes for a request; \<open>aware\<close> is how it writes an aware timestamp.\<close>

primrec encode_call :: "(pydatetime \<Rightarrow> json) \<Rightarrow> api_request \<Rightarrow> http_call" where
  "encode_call aware (Post_organization name external email metadata idem) =
     (call ''POST'' [''organizations''])\<lparr>c_idempotency_key := Some idem, c_body := Some (JObj
       [(''name'', JStr name), (''external_id'', JStr external), (''billing_email'', opt_str email), (''metadata'', JObj metadata)])\<rparr>"
| "encode_call aware (Get_organization u) =
     call ''GET'' [''organizations'', uuid_str u]"
| "encode_call aware (Patch_organization u name email metadata) =
     (call ''PATCH'' [''organizations'', uuid_str u])\<lparr>c_body := Some (JObj
       [(''name'', opt_str name), (''billing_email'', opt_str email), (''metadata'', opt_dict metadata)])\<rparr>"
| "encode_call aware (Post_api_key u role) =
     (call ''POST'' [''organizations'', uuid_str u, ''api-keys''])\<lparr>c_body := Some (JObj [(''role'', JStr role)])\<rparr>"
| "encode_call aware (Rotate_api_key kid) =
     call ''POST'' [''admin'', ''api-keys'', uuid_str kid, ''rotate'']"
| "encode_call aware (Revoke_api_key kid) =
     call ''POST'' [''admin'', ''api-keys'', uuid_str kid, ''revoke'']"
| "encode_call aware (Post_subscription u pid metadata idem) =
     (call ''POST'' [''subscriptions''])\<lparr>c_idempotency_key := Some idem, c_body := Some (JObj
       [(''organization_public_id'', JStr (uuid_str u)), (''plan_id'', JStr (uuid_str pid)), (''metadata'', JObj metadata)])\<rparr>"
| "encode_call aware (Get_subscription u) =
     call ''GET'' [''subscriptions'', uuid_str u]"
| "encode_call aware (List_subscriptions u) =
     call ''GET'' [''organizations'', uuid_str u, ''subscriptions'']"
| "encode_call aware (Cancel_subscription u at_end) =
     (call ''POST'' [''subscriptions'', uuid_str u, ''cancel''])\<lparr>c_body := Some (JObj [(''at_period_end'', JBool at_end)])\<rparr>"
| "encode_call aware (Change_plan u pid effective idem) =
     (call ''POST'' [''subscriptions'', uuid_str u, ''change-plan''])\<lparr>c_idempotency_key := Some idem,
       c_body := Some (JObj [(''new_plan_id'', JStr (uuid_str pid)), (''effective'', JStr effective)])\<rparr>"
| "encode_call aware (Get_usage u) =
     call ''GET'' [''organizations'', uuid_str u, ''usage'']"
| "encode_call aware (Post_usage u events) =
     (call ''POST'' [''usage'', ''events'', ''batch''])\<lparr>c_body := Some (JObj
       [(''organization_public_id'', JStr (uuid_str u)), (''events'', JList (map (event_json aware) events))])\<rparr>"
| "encode_call aware (List_invoices u limit offset) =
     paged limit offset (call ''GET'' [''organizations'', uuid_str u, ''invoices''])"
| "encode_call aware (Get_invoice u) =
     call ''GET'' [''invoices'', uuid_str u]"
| "encode_call aware (List_ledger u limit offset) =
     paged limit offset (call ''GET'' [''organizations'', uuid_str u, ''ledger''])"
| "encode_call aware (Get_ledger_entry u) =
     call ''GET'' [''ledger'', uuid_str u]"
| "encode_call aware (Evaluate u checks) =
     (call ''POST'' [''entitlements'', ''evaluate''])\<lparr>c_body := Some (JObj
       [(''organization_public_id'', JStr (uuid_str u)), (''checks'', JList (map check_json checks))])\<rparr>"
| "encode_call aware (Invalidate u) =
     (call ''POST'' [''entitlements'', ''invalidate''])\<lparr>c_body := Some (JObj
       [(''organization_public_id'', JStr (uuid_str u))])\<rparr>"
| "encode_call aware (Replay_webhook u) =
     call ''POST'' [''admin'', ''webhooks'', uuid_str u, ''replay'']"
| "encode_call aware (Post_product k name description is_active) =
     (call ''POST'' [''products''])\<lparr>c_body := Some (JObj
       [(''key'', JStr k), (''name'', JStr name), (''description'', opt_str description), (''is_active'', JBool is_active)])\<rparr>"
| "encode_call aware (Post_plan pr k interval trial grace dunning entitlement) =
     (call ''POST'' [''plans''])\<lparr>c_body := Some (JObj
       [(''product_id'', JStr (uuid_str pr)), (''key'', JStr k), (''billing_interval'', JStr interval), (''trial_days'', opt_int trial),
        (''grace_period_days'', JInt grace), (''dunning_policy'', JObj dunning), (''entitlement_policy'', JObj entitlement)])\<rparr>"
| "encode_call aware (Post_price pid amount currency model metered external is_active) =
     (call ''POST'' [''prices''])\<lparr>c_body := Some (JObj
       [(''plan_id'', JStr (uuid_str pid)), (''unit_amount_cents'', JInt amount), (''currency'', JStr currency),
        (''pricing_model'', JStr model), (''metered_feature_key'', opt_str metered), (''external_price_id'', opt_str external),
        (''is_active'', JBool is_active)])\<rparr>"
| "encode_call aware (Post_feature k ft limit reset) =
     (call ''POST'' [''features''])\<lparr>c_body := Some (JObj
       [(''key'', JStr k), (''feature_type'', JStr ft), (''default_limit'', opt_int limit), (''reset_interval'', opt_str reset)])\<rparr>"
| "encode_call aware (Put_plan_features pid items) =
     (call ''PUT'' [''plans'', uuid_str pid, ''features''])\<lparr>c_body := Some (JObj
       [(''features'', JList (map item_json items))])\<rparr>"
| "encode_call aware (Publish_plan pid) =
     call ''POST'' [''plans'', uuid_str pid, ''publish'']"
| "encode_call aware Get_catalog =
     call ''GET'' [''catalog'', ''snapshot'']"
| "encode_call aware (Trigger_reconciliation idem) =
     (call ''POST'' [''admin'', ''reconciliation'', ''run''])\<lparr>c_idempotency_key := Some idem\<rparr>"
| "encode_call aware (List_runs limit offset) =
     paged limit offset (call ''GET'' [''admin'', ''reconciliation'', ''runs''])"
| "encode_call aware (List_discrepancies u limit offset) =
     paged limit offset (call ''GET'' [''admin'', ''reconciliation'', ''runs'', uuid_str u, ''discrepancies''])"
| "encode_call aware (List_campaigns fo fs limit offset) =
     paged limit offset ((call ''GET'' [''admin'', ''dunning'', ''campaigns''])\<lparr>c_query :=
       uuid_pair ''organization_public_id'' fo @ uuid_pair ''subscription_public_id'' fs\<rparr>)"
| "encode_call aware (Pause_campaign u) =
     call ''POST'' [''admin'', ''dunning'', ''campaigns'', uuid_str u, ''pause'']"
| "encode_call aware (Resume_campaign u) =
     call ''POST'' [''admin'', ''dunning'', ''campaigns'', uuid_str u, ''resume'']"

text \<open>The documented conversions of canonical values.\<close>

locale canonical_values =
  fixes v :: pydantic and aware :: "pydatetime \<Rightarrow> json"
  assumes string_value [simp]: "py_string v (JStr s) = Some s"
    and integer_value [simp]: "py_integer v (JInt i) = Some i"
    and integer_text [simp]: "py_integer v (JStr (str_int i)) = Some i"
    and boolean_value [simp]: "py_boolean v (JBool x) = Some x"
    and uuid_text [simp]: "py_uuid v (JStr (uuid_str u)) = Some u"
    and aware_value [simp]: "has_tz t \<Longrightarrow> py_aware_datetime v (aware t) = Some t"
    and aware_some [simp]: "aware t \<noteq> JNull"
begin

lemma opt_values [simp]:
  "or_none (py_string v) (opt_str x) = Some x" "or_none (py_integer v) (opt_int y) = Some y"
  "or_none as_dict (opt_dict z) = Some z"
  by (simp_all add: or_none_def opt_str_def opt_int_def opt_dict_def as_dict_def split: option.split)

lemma those_map: "(\<And>x. x \<in> set xs \<Longrightarrow> f (g x) = Some x) \<Longrightarrow> those (map f (map g xs)) = Some xs"
  by (induction xs) simp_all

lemma event_value: "event_ok e \<Longrightarrow> usage_event_request v (event_json aware e) = Some e"
  by (cases "uin_recorded_at e")
    (simp_all add: usage_event_request_def event_json_def as_dict_def field_def field_or_def bounded_def or_none_def event_ok_def)

lemma check_value: "check_request v (check_json k) = Some k"
  by (simp add: check_request_def check_json_def as_dict_def field_def field_or_def)

lemma item_value: "plan_feature_item_request v (item_json i) = Some i"
  by (simp add: plan_feature_item_request_def item_json_def as_dict_def field_def field_or_def)

lemma list_values:
  "list_all event_ok es \<Longrightarrow> as_list (usage_event_request v) (JList (map (event_json aware) es)) = Some es"
  "as_list (check_request v) (JList (map check_json ks)) = Some ks"
  "as_list (plan_feature_item_request v) (JList (map item_json is)) = Some is"
  unfolding as_list_def by (simp_all only: json.case those_map event_value check_value item_value list_all_iff)

lemma page_values:
  assumes "page_ok hi n"
  shows "limit_param v (int hi) d (paged n k c) = Some n" "offset_param v (paged n k c) = Some k"
  using assms by (simp_all add: limit_param_def offset_param_def query_param_def paged_def page_ok_def)

lemma uuid_query_values:
  assumes "c = \<lparr>c_method = m, c_path = p, c_query = uuid_pair ''organization_public_id'' fo @
    uuid_pair ''subscription_public_id'' fs, c_idempotency_key = i, c_body = b\<rparr>"
  shows "uuid_query v ''organization_public_id'' (paged n k c) = Some fo"
    and "uuid_query v ''subscription_public_id'' (paged n k c) = Some fs"
  using assms by (simp_all add: uuid_query_def query_param_def paged_def uuid_pair_def split: option.split)

lemma paged_frame [simp]:
  "c_method (paged n k c) = c_method c" "c_path (paged n k c) = c_path c" "c_body (paged n k c) = c_body c"
  "c_idempotency_key (paged n k c) = c_idempotency_key c"
  by (simp_all add: paged_def)

lemmas model_defs = create_organization_request_def patch_organization_request_def create_api_key_request_def
  create_product_request_def create_plan_request_def create_price_request_def create_feature_request_def
  set_plan_features_request_def create_subscription_request_def cancel_subscription_request_def immediate_literal_def
  change_plan_request_def usage_batch_request_def evaluate_request_def invalidate_request_def

lemma decode_encode:
  assumes "request_ok q"
  shows "decode_call v (encode_call aware q) = Request q"
  using assms
  by (cases q) (simp_all add: decode_call_def endpoints_def endpoint_defs call_def with_body_def as_dict_def model_defs
      field_def field_or_def list_values nonempty_def page_values [of 500, simplified] page_values [of 200, simplified]
      uuid_query_values [OF refl])

end

text \<open>
  C8: Requests survive the wire. For a validation library that converts canonical JSON values as it
  documents, the canonical call of every request within the bounds is routed to the endpoint of this
  request and decoded to exactly its parameters: no path shadows another, and no field is lost, renamed or
  replaced by its default.
\<close>

theorem request_roundtrip:
  assumes "canonical_values v aware" "request_ok q"
  shows "decode_call v (encode_call aware q) = Request q"
  using assms by (rule canonical_values.decode_encode)

section \<open>Strict conversions\<close>

text \<open>A library that takes canonical values and nothing else.\<close>

definition hex_value :: "char \<Rightarrow> nat" where
  "hex_value c = (if of_char c < (58 :: nat) then of_char c - 48 else of_char c - 87)"

definition parse_uuid :: "string \<Rightarrow> uuid option" where
  "parse_uuid t =
     (let u = of_nat (foldl (\<lambda>a c. 16 * a + hex_value c) 0 (filter (\<lambda>c. c \<noteq> CHR ''-'') t))
      in if uuid_str u = t then Some u else None)"

definition strict :: pydantic where
  "strict =
     \<lparr>py_string = json_str,
      py_integer = (\<lambda>j. case j of JInt i \<Rightarrow> Some i | JStr t \<Rightarrow> py_int t | _ \<Rightarrow> None),
      py_boolean = (\<lambda>j. case j of JBool x \<Rightarrow> Some x | _ \<Rightarrow> None),
      py_uuid = (\<lambda>j. case j of JStr t \<Rightarrow> parse_uuid t | _ \<Rightarrow> None),
      py_aware_datetime = (\<lambda>j. case j of JList [JInt w, JInt off] \<Rightarrow> Some (Aware w off) | _ \<Rightarrow> None)\<rparr>"

definition strict_aware :: "pydatetime \<Rightarrow> json" where
  "strict_aware t = (case t of Aware w off \<Rightarrow> JList [JInt w, JInt off] | Naive w \<Rightarrow> JList [JInt w])"

lemma hex_value_digit: "d < 16 \<Longrightarrow> hex_value (hex_digit d) = d"
  by (simp add: hex_value_def of_char_hex_digit)

lemma hex_pad_value: "foldl (\<lambda>a c. 16 * a + hex_value c) 0 (hex_pad k n) = n mod 16 ^ k"
proof (induction k arbitrary: n)
  case 0
  then show ?case by (simp add: hex_pad.simps)
next
  case (Suc k)
  have "n mod 16 ^ Suc k = 16 * (n div 16 mod 16 ^ k) + n mod 16" by (simp add: mod_mult2_eq)
  then show ?case using Suc [of "n div 16"] hex_value_digit [of "n mod 16"] by (simp add: hex_pad.simps)
qed

lemma parse_uuid_str: "parse_uuid (uuid_str u) = Some u"
proof -
  have "unat u < 16 ^ 32" using unsigned_less [of u] by simp
  then have "of_nat (foldl (\<lambda>a c. 16 * a + hex_value c) 0 (filter (\<lambda>c. c \<noteq> CHR ''-'') (uuid_str u))) = u"
    unfolding uuid_str_digits hex_pad_value by simp
  then show ?thesis by (simp add: parse_uuid_def Let_def)
qed

interpretation strict_values: canonical_values strict strict_aware
  by unfold_locales (auto simp: strict_def strict_aware_def parse_uuid_str py_int_str_int json_str_def split: pydatetime.split
    elim: has_tz.elims)

text \<open>A call for the largest page, and what it is decoded to.\<close>

definition largest_page_call :: http_call where
  "largest_page_call =
     \<lparr>c_method = ''GET'', c_path = [''v1'', ''organizations'', uuid_str 7, ''ledger''],
      c_query = [(''limit'', ''500''), (''offset'', ''20'')], c_idempotency_key = None, c_body = None\<rparr>"

theorem decoded_within_bounds_witness:
  "decode_call strict largest_page_call = Request (List_ledger 7 500 20) \<and> within_bounds (List_ledger 7 500 20)"
proof -
  have "str_int 500 = ''500''" "str_int 20 = ''20''" by code_simp+
  then have "largest_page_call = encode_call strict_aware (List_ledger 7 500 20)"
    by (simp add: largest_page_call_def call_def paged_def)
  then have d: "decode_call strict largest_page_call = Request (List_ledger 7 500 20)"
    using strict_values.decode_encode [of "List_ledger 7 500 20"] by (simp add: page_ok_def)
  from d decoded_within_bounds [OF d] show ?thesis ..
qed

theorem request_roundtrip_witness:
  "decode_call strict (encode_call strict_aware (List_campaigns (Some 5) None 50 10)) =
     Request (List_campaigns (Some 5) None 50 10)"
  by (rule request_roundtrip [OF strict_values.canonical_values_axioms]) (simp add: page_ok_def)

end
