(* ===== verification/Health.thy ===== *)
theory Health
  imports Values
begin

text \<open>
  The probes (\<^verbatim>\<open>api/v1/health.py\<close>) and the middleware around every request
  (\<^verbatim>\<open>middleware/request_context.py\<close>). What the drivers of PostgreSQL, Redis and Kafka answer, the random
  identifier, and what the application makes of a request are arguments.
\<close>

section \<open>Readiness\<close>

text \<open>An attempt to reach a service: nothing, or the text of the exception.\<close>

type_synonym attempt = "string option"

record kafka_probe =
  kp_construct :: attempt
  kp_bootstrap :: attempt
  kp_close :: attempt

datatype ready_state = Ok_state | Degraded | Unavailable

datatype check_state = Check_ok | Check_fail

record ready_status =
  rs_status :: ready_state
  rs_reasons :: "string list"
  rs_checks :: "(string \<times> check_state) list"

record ready_settings =
  health_kafka_optional :: bool

definition check_service :: "string \<Rightarrow> attempt \<Rightarrow> bool \<times> string option" where
  "check_service label a = (case a of None \<Rightarrow> (True, None) | Some e \<Rightarrow> (False, Some (label @ '': '' @ e)))"

definition check_postgres :: "attempt \<Rightarrow> bool \<times> string option" where
  "check_postgres a = check_service ''postgres'' a"

definition check_redis :: "attempt \<Rightarrow> bool \<times> string option" where
  "check_redis a = check_service ''redis'' a"

text \<open>The client is made before the \<^verbatim>\<open>try\<close>, and closed in its \<^verbatim>\<open>finally\<close>: what either raises is not caught.\<close>

definition check_kafka :: "kafka_probe \<Rightarrow> string + bool \<times> string option" where
  "check_kafka k =
     (case kp_construct k of Some e \<Rightarrow> Inl e
      | None \<Rightarrow> (case kp_close k of Some e \<Rightarrow> Inl e | None \<Rightarrow> Inr (check_service ''kafka'' (kp_bootstrap k))))"

definition state_of :: "bool \<Rightarrow> check_state" where
  "state_of up = (if up then Check_ok else Check_fail)"

definition add_reason :: "string option \<Rightarrow> string list \<Rightarrow> string list" where
  "add_reason r rs = (case r of None \<Rightarrow> rs | Some t \<Rightarrow> if t = [] then rs else rs @ [t])"

definition check_ready :: "ready_settings \<Rightarrow> attempt \<Rightarrow> attempt \<Rightarrow> kafka_probe \<Rightarrow> string + ready_status" where
  "check_ready cfg pg redis kafka =
     (let (pg_ok, pg_reason) = check_postgres pg;
          reasons = add_reason pg_reason [];
          (redis_ok, redis_reason) = check_redis redis;
          reasons = add_reason redis_reason reasons
      in case check_kafka kafka of
           Inl e \<Rightarrow> Inl e
         | Inr (kafka_ok, kafka_reason) \<Rightarrow>
             let reasons = add_reason kafka_reason reasons;
                 checks = [(''postgres'', state_of pg_ok), (''redis'', state_of redis_ok), (''kafka'', state_of kafka_ok)]
             in Inr (if \<not> pg_ok \<or> \<not> redis_ok then \<lparr>rs_status = Unavailable, rs_reasons = reasons, rs_checks = checks\<rparr>
                     else if \<not> kafka_ok then
                       (if health_kafka_optional cfg then \<lparr>rs_status = Degraded, rs_reasons = reasons, rs_checks = checks\<rparr>
                        else \<lparr>rs_status = Unavailable, rs_reasons = reasons, rs_checks = checks\<rparr>)
                     else \<lparr>rs_status = Ok_state, rs_reasons = [], rs_checks = checks\<rparr>))"

fun ready_value :: "ready_state \<Rightarrow> string" where
  "ready_value Ok_state = ''ok''"
| "ready_value Degraded = ''degraded''"
| "ready_value Unavailable = ''unavailable''"

fun check_state_value :: "check_state \<Rightarrow> string" where
  "check_state_value Check_ok = ''ok''"
| "check_state_value Check_fail = ''fail''"

definition check_or_fail :: "ready_status \<Rightarrow> string \<Rightarrow> json" where
  "check_or_fail r k = JStr (check_state_value (case map_of (rs_checks r) k of None \<Rightarrow> Check_fail | Some c \<Rightarrow> c))"

definition ready_to_response :: "ready_status \<Rightarrow> json_object" where
  "ready_to_response r =
     [(''status'', JStr (ready_value (rs_status r))), (''reasons'', JList (map JStr (rs_reasons r))),
      (''checks'', JObj [(''postgres'', check_or_fail r ''postgres''), (''redis'', check_or_fail r ''redis''),
        (''kafka'', check_or_fail r ''kafka'')])]"

definition live_probe :: "int \<times> json_object" where
  "live_probe = (200, [(''status'', JStr ''ok'')])"

definition ready_probe :: "ready_settings \<Rightarrow> attempt \<Rightarrow> attempt \<Rightarrow> kafka_probe \<Rightarrow> string + int \<times> json_object" where
  "ready_probe cfg pg redis kafka =
     (case check_ready cfg pg redis kafka of
        Inl e \<Rightarrow> Inl e
      | Inr r \<Rightarrow> Inr (if rs_status r = Unavailable then 503 else 200, ready_to_response r))"

text \<open>
  What the answer means to an orchestrator: it is 503 exactly if a service that the platform needs is out
  of reach, and names each service that is, in order.
\<close>

definition failures :: "attempt \<Rightarrow> attempt \<Rightarrow> attempt \<Rightarrow> string list" where
  "failures pg redis kafka = List.map_filter (\<lambda>(n, a). map_option (\<lambda>e. n @ '': '' @ e) a)
     [(''postgres'', pg), (''redis'', redis), (''kafka'', kafka)]"

lemma check_ready_status:
  assumes "kp_construct kafka = None" "kp_close kafka = None"
  shows "check_ready cfg pg redis kafka = Inr
    \<lparr>rs_status = (if pg \<noteq> None \<or> redis \<noteq> None \<or> kp_bootstrap kafka \<noteq> None \<and> \<not> health_kafka_optional cfg then Unavailable
       else if kp_bootstrap kafka \<noteq> None then Degraded else Ok_state),
     rs_reasons = failures pg redis (kp_bootstrap kafka),
     rs_checks = [(''postgres'', state_of (pg = None)), (''redis'', state_of (redis = None)),
       (''kafka'', state_of (kp_bootstrap kafka = None))]\<rparr>"
  using assms
  by (cases pg; cases redis; cases "kp_bootstrap kafka")
    (simp_all add: check_ready_def check_postgres_def check_redis_def check_kafka_def check_service_def add_reason_def
      failures_def Let_def List.map_filter_def)

theorem ready_code:
  assumes "kp_construct kafka = None" "kp_close kafka = None"
  shows "\<exists>code body. ready_probe cfg pg redis kafka = Inr (code, body) \<and> code \<in> {200, 503} \<and>
    (code = 503 \<longleftrightarrow> pg \<noteq> None \<or> redis \<noteq> None \<or> kp_bootstrap kafka \<noteq> None \<and> \<not> health_kafka_optional cfg) \<and>
    map_of body ''reasons'' = Some (JList (map JStr (failures pg redis (kp_bootstrap kafka))))"
  by (simp add: ready_probe_def check_ready_status [OF assms] ready_to_response_def)

section \<open>Request context\<close>

text \<open>The variables bound to every log line of a request.\<close>

type_synonym context_vars = "(string \<times> string) list"

record log_line =
  ll_event :: string
  ll_method :: string
  ll_path :: string
  ll_status :: int
  ll_context :: context_vars

record incoming_request =
  rq_method :: string
  rq_path :: string
  rq_correlation :: "string option"

record outgoing_response =
  rp_status :: int
  rp_headers :: "(string \<times> string) list"

definition PROBE_PATHS :: "string list" where
  "PROBE_PATHS = [''/health/live'', ''/health/ready'']"

definition CORRELATION_ID_HEADER :: string where
  "CORRELATION_ID_HEADER = ''X-Correlation-ID''"

definition correlation_of :: "incoming_request \<Rightarrow> string \<Rightarrow> string" where
  "correlation_of q fresh = (case rq_correlation q of None \<Rightarrow> fresh | Some c \<Rightarrow> if c = [] then fresh else c)"

definition restore_organization_context_from_request :: "string option \<Rightarrow> context_vars \<Rightarrow> context_vars" where
  "restore_organization_context_from_request g vars =
     (case g of None \<Rightarrow> vars | Some u \<Rightarrow> AList.update ''organization_id'' u vars)"

text \<open>
  \<open>fresh\<close> is the random identifier; the outcome is the exception that the application raises or its
  response, together with the organization that it has noted on the request. The result is the response
  or exception, the lines logged, and the variables bound afterwards.
\<close>

definition dispatch_context ::
  "incoming_request \<Rightarrow> string \<Rightarrow> string option \<Rightarrow> string + outgoing_response \<Rightarrow> context_vars \<Rightarrow>
     (string + outgoing_response) \<times> log_line list \<times> context_vars" where
  "dispatch_context q fresh g outcome vars =
     (let c = correlation_of q fresh;
          vars = [(''correlation_id'', c)];
          vars = restore_organization_context_from_request g vars;
          line = (\<lambda>event status. \<lparr>ll_event = event, ll_method = rq_method q, ll_path = rq_path q, ll_status = status, ll_context = vars\<rparr>)
      in case outcome of
           Inl e \<Rightarrow> (Inl e, [line ''request_failed'' 500], [])
         | Inr r \<Rightarrow>
             (Inr (r\<lparr>rp_headers := AList.update CORRELATION_ID_HEADER c (rp_headers r)\<rparr>),
              if rq_path q \<in> set PROBE_PATHS then [] else [line ''request_completed'' (rp_status r)], []))"

text \<open>
  Nothing of a request remains bound for the next one, whatever was bound before; every line of a request
  carries its correlation id, and a response returns it.
\<close>

lemma dispatch_context_isolated:
  assumes "dispatch_context q fresh g outcome vars = (res, log, vars')"
  shows "vars' = []" "\<forall>l \<in> set log. map_of (ll_context l) ''correlation_id'' = Some (correlation_of q fresh) \<and>
      map_of (ll_context l) ''organization_id'' = g"
    and "\<forall>r. res = Inr r \<longrightarrow> map_of (rp_headers r) CORRELATION_ID_HEADER = Some (correlation_of q fresh)"
  using assms
  by (auto simp: dispatch_context_def Let_def restore_organization_context_from_request_def update_conv' split: sum.splits option.splits if_splits)

end
