(* ===== verification/Demo_Seed.thy ===== *)
theory Demo_Seed
  imports Identity
begin

text \<open>
  The demo data that a local start makes (\<^verbatim>\<open>bootstrap/demo_seed.py\<close>): a product with two features and a
  published plan, a key of a platform administrator, and an organization with a subscription, each looked
  up first and created by the services if it is missing.
\<close>

section \<open>Operations\<close>

definition PRODUCT_KEY :: string where "PRODUCT_KEY = ''core_api''"
definition PLAN_KEY :: string where "PLAN_KEY = ''starter''"
definition FEATURE_API_CALLS :: string where "FEATURE_API_CALLS = ''api_calls''"
definition FEATURE_SEATS :: string where "FEATURE_SEATS = ''seats''"
definition EXTERNAL_SUBSCRIPTION_ID :: string where "EXTERNAL_SUBSCRIPTION_ID = ''sub_demo_seed_001''"
definition EXTERNAL_ORGANIZATION_ID :: string where "EXTERNAL_ORGANIZATION_ID = ''ext-demo-seed-001''"
definition ORG_IDEMPOTENCY_KEY :: string where "ORG_IDEMPOTENCY_KEY = ''seed-catalog-demo-org''"
definition SUB_IDEMPOTENCY_KEY :: string where "SUB_IDEMPOTENCY_KEY = ''seed-catalog-demo-sub''"

definition DEMO_PLATFORM_ADMIN_RAW_KEY :: string where
  "DEMO_PLATFORM_ADMIN_RAW_KEY = ''bp_local_demo_platform_admin_key_v1''"

text \<open>\<^verbatim>\<open>01900000-0000-7000-8000-000000000001\<close>\<close>

definition DEMO_ORG_PUBLIC_ID :: uuid where
  "DEMO_ORG_PUBLIC_ID = 0x01900000000070008000000000000001"

record demo_seed_result =
  ds_platform_admin_key :: string
  ds_organization_public_id :: uuid
  ds_subscription_public_id :: uuid
  ds_plan_id :: uuid
  ds_external_subscription_id :: string
  ds_feature_keys :: "string list"
  ds_key_created :: bool

definition get_product_by_key :: "string \<Rightarrow> product option op" where
  "get_product_by_key k = bindE (query (\<lambda>d. filter (\<lambda>r. prod_key r = k) (products d))) scalar_one_or_none"

definition get_feature_by_key :: "string \<Rightarrow> feature option op" where
  "get_feature_by_key k = bindE (query (\<lambda>d. filter (\<lambda>f. feat_key f = k) (features d))) scalar_one_or_none"

definition published_of :: "uuid \<Rightarrow> string \<Rightarrow> plan \<Rightarrow> bool" where
  "published_of pr k p \<longleftrightarrow> plan_product_id p = pr \<and> plan_key p = k \<and> published_at p \<noteq> None"

definition get_published_plan :: "uuid \<Rightarrow> string \<Rightarrow> plan option op" where
  "get_published_plan pr k = bindE (query (\<lambda>d. filter (published_of pr k) (plans d))) scalar_one_or_none"

definition ensure_product :: "product op" where
  "ensure_product =
     bindE (get_product_by_key PRODUCT_KEY) (\<lambda>found.
     case found of Some r \<Rightarrow> returnE r
     | None \<Rightarrow> create_product PRODUCT_KEY ''Core API'' (Some ''Demo product for local walkthrough'') True)"

definition ensure_feature :: "string \<Rightarrow> string \<Rightarrow> int \<Rightarrow> string option \<Rightarrow> feature op" where
  "ensure_feature k ft limit reset =
     bindE (get_feature_by_key k) (\<lambda>found.
     case found of Some f \<Rightarrow> returnE f | None \<Rightarrow> create_feature k ft (Some limit) reset)"

definition demo_feature :: "uuid \<Rightarrow> int \<Rightarrow> plan_feature_input" where
  "demo_feature f limit =
     \<lparr>pfi_feature_id = f, pfi_limit_value = Some limit, pfi_is_enabled = True, pfi_enforcement_mode = ''hard''\<rparr>"

definition build_demo_plan :: "product \<Rightarrow> feature \<Rightarrow> feature \<Rightarrow> plan op" where
  "build_demo_plan product api_calls seats =
     bindE (create_plan (prod_id product) PLAN_KEY ''month'' (Some 14) 7 None None) (\<lambda>p.
     thenE (set_plan_features (plan_id p) [demo_feature (feat_id api_calls) 5000, demo_feature (feat_id seats) 10])
     (thenE (create_price (plan_id p) 2900 ''USD'' ''flat'' None None True)
     (publish_plan (plan_id p))))"

definition ensure_catalog :: "plan op" where
  "ensure_catalog =
     bindE ensure_product (\<lambda>product.
     bindE (ensure_feature FEATURE_API_CALLS ''quota'' 1000 (Some ''month'')) (\<lambda>api_calls.
     bindE (ensure_feature FEATURE_SEATS ''seat'' 5 None) (\<lambda>seats.
     bindE (get_published_plan (prod_id product) PLAN_KEY) (\<lambda>found.
     case found of Some p \<Rightarrow> returnE p | None \<Rightarrow> build_demo_plan product api_calls seats))))"

text \<open>The digests that are compared are hexadecimal, so that the comparison does not raise.\<close>

definition active_keys :: "string \<Rightarrow> database \<Rightarrow> api_key list" where
  "active_keys digest d = filter (\<lambda>k. key_hash k = digest \<and> key_revoked_at k = None) (api_keys d)"

definition ensure_platform_admin_key :: "(string \<times> bool) op" where
  "ensure_platform_admin_key =
     bindE (bindE (query (active_keys (hash_api_key DEMO_PLATFORM_ADMIN_RAW_KEY))) scalar_one_or_none) (\<lambda>existing.
     bindE (case existing of None \<Rightarrow> returnE False
            | Some k \<Rightarrow> liftE (verify_api_key DEMO_PLATFORM_ADMIN_RAW_KEY (key_hash k))) (\<lambda>verified.
     if verified then returnE (DEMO_PLATFORM_ADMIN_RAW_KEY, False)
     else thenE (create_api_key None PLATFORM_ADMIN (Some DEMO_PLATFORM_ADMIN_RAW_KEY))
            (returnE (DEMO_PLATFORM_ADMIN_RAW_KEY, True))))"

text \<open>The assignment to \<^verbatim>\<open>external_subscription_id\<close> and its flush, which checks that the id is unique.\<close>

definition set_external_subscription_id :: "subscription \<Rightarrow> string \<Rightarrow> subscription op" where
  "set_external_subscription_id r external =
     bindE (getE tx_now) (\<lambda>t.
     thenE (insert_checked
         (\<lambda>d. list_all (\<lambda>q. sub_id q = sub_id r \<or> external_subscription_id q \<noteq> Some external) (subscriptions d))
         (upd_subscription (sub_id r) t (\<lambda>q. q\<lparr>external_subscription_id := Some external\<rparr>)))
     (returnE (r\<lparr>external_subscription_id := Some external\<rparr>)))"

definition ensure_demo_tenant :: "plan \<Rightarrow> (organization \<times> subscription) op" where
  "ensure_demo_tenant p =
     bindE (create_organization ''Demo Organization'' EXTERNAL_ORGANIZATION_ID ORG_IDEMPOTENCY_KEY (Some ''demo@example.com'')
       None (Some DEMO_ORG_PUBLIC_ID)) (\<lambda>g.
     bindE (create_subscription (org_id g) (plan_id p) SUB_IDEMPOTENCY_KEY None) (\<lambda>r.
     if external_subscription_id r \<noteq> Some EXTERNAL_SUBSCRIPTION_ID
     then bindE (set_external_subscription_id r EXTERNAL_SUBSCRIPTION_ID) (\<lambda>q. returnE (g, q))
     else returnE (g, r)))"

definition ensure_demo_seed :: "demo_seed_result op" where
  "ensure_demo_seed =
     bindE ensure_catalog (\<lambda>p.
     bindE ensure_platform_admin_key (\<lambda>(admin_key, key_created).
     bindE (ensure_demo_tenant p) (\<lambda>(g, r).
     returnE
       \<lparr>ds_platform_admin_key = admin_key, ds_organization_public_id = org_public_id g,
        ds_subscription_public_id = sub_public_id r, ds_plan_id = plan_id p,
        ds_external_subscription_id = EXTERNAL_SUBSCRIPTION_ID,
        ds_feature_keys = [FEATURE_API_CALLS, FEATURE_SEATS], ds_key_created = key_created\<rparr>)))"

text \<open>The script \<^verbatim>\<open>seed_catalog.py\<close>: one run in a session of its own, committed, and the data it prints.\<close>

definition seed_output :: "demo_seed_result \<Rightarrow> json_object" where
  "seed_output x =
     [(''platform_admin_key'', JStr (ds_platform_admin_key x)), (''platform_admin_key_created'', JBool (ds_key_created x)),
      (''organization_public_id'', JStr (uuid_str (ds_organization_public_id x))),
      (''subscription_public_id'', JStr (uuid_str (ds_subscription_public_id x))), (''plan_id'', JStr (uuid_str (ds_plan_id x))),
      (''external_subscription_id'', JStr (ds_external_subscription_id x)),
      (''feature_keys'', JList (map JStr (ds_feature_keys x))), (''seed_output_path'', JStr ''.local/seed-output.json'')]"

definition seed_catalog_main :: "json_object op" where
  "seed_catalog_main = bindE ensure_demo_seed (\<lambda>x. thenE commit (returnE (seed_output x)))"

section \<open>What a run looks for\<close>

definition tenant_found :: "database \<Rightarrow> organization \<Rightarrow> bool" where
  "tenant_found d g \<longleftrightarrow>
     (case filter (\<lambda>g. org_idempotency_key g = Some ORG_IDEMPOTENCY_KEY) (organizations d) of
        [] \<Rightarrow> filter (\<lambda>g. org_external_id g = Some EXTERNAL_ORGANIZATION_ID) (organizations d) = [g]
      | gs \<Rightarrow> gs = [g])"

definition catalog_found :: "database \<Rightarrow> plan \<Rightarrow> bool" where
  "catalog_found d p \<longleftrightarrow> (\<exists>r a b.
     filter (\<lambda>r. prod_key r = PRODUCT_KEY) (products d) = [r] \<and>
     filter (\<lambda>f. feat_key f = FEATURE_API_CALLS) (features d) = [a] \<and>
     filter (\<lambda>f. feat_key f = FEATURE_SEATS) (features d) = [b] \<and>
     filter (published_of (prod_id r) PLAN_KEY) (plans d) = [p])"

definition demo_subscription :: "database \<Rightarrow> subscription \<Rightarrow> bool" where
  "demo_subscription d r \<longleftrightarrow> filter (\<lambda>r. sub_idempotency_key r = Some SUB_IDEMPOTENCY_KEY) (subscriptions d) = [r] \<and>
     external_subscription_id r = Some EXTERNAL_SUBSCRIPTION_ID"

definition demo_seeded :: "database \<Rightarrow> demo_seed_result \<Rightarrow> bool" where
  "demo_seeded d x \<longleftrightarrow> (\<exists>p k g r. catalog_found d p \<and> active_keys (hash_api_key DEMO_PLATFORM_ADMIN_RAW_KEY) d = [k] \<and>
     tenant_found d g \<and> demo_subscription d r \<and>
     x = \<lparr>ds_platform_admin_key = DEMO_PLATFORM_ADMIN_RAW_KEY, ds_organization_public_id = org_public_id g,
       ds_subscription_public_id = sub_public_id r, ds_plan_id = plan_id p,
       ds_external_subscription_id = EXTERNAL_SUBSCRIPTION_ID, ds_feature_keys = [FEATURE_API_CALLS, FEATURE_SEATS],
       ds_key_created = ds_key_created x\<rparr>)"

lemma tenant_found_cong: "organizations e = organizations d \<Longrightarrow> tenant_found e g = tenant_found d g"
  by (simp only: tenant_found_def)

text \<open>On seeded data a run only reads.\<close>

lemma ensure_catalog_found: "\<not> tx_failed s \<Longrightarrow> catalog_found (db s) p \<Longrightarrow> ensure_catalog s = (Inr p, s)"
  by (auto simp: catalog_found_def ensure_catalog_def ensure_product_def ensure_feature_def get_product_by_key_def
      get_feature_by_key_def get_published_plan_def)

lemma is_ascii_hash: "is_ascii (hash_api_key raw)"
proof -
  have "(of_char c :: nat) < 128" if "c \<in> set (hexdigest (sha256 (encode_utf8 raw)))" for c
    using hexdigest_code [OF that] by fastforce
  then show ?thesis by (simp add: is_ascii_def hash_api_key_def list_all_iff)
qed

lemma ensure_key_found:
  assumes "\<not> tx_failed s" "active_keys (hash_api_key DEMO_PLATFORM_ADMIN_RAW_KEY) (db s) = [k]"
  shows "ensure_platform_admin_key s = (Inr (DEMO_PLATFORM_ADMIN_RAW_KEY, False), s)"
proof -
  have "key_hash k = hash_api_key DEMO_PLATFORM_ADMIN_RAW_KEY"
    using filter_singletonD [OF assms(2) [unfolded active_keys_def]] by simp
  then show ?thesis using assms by (simp add: ensure_platform_admin_key_def verify_api_key_def is_ascii_hash)
qed

lemma ensure_tenant_found:
  assumes "\<not> tx_failed s" "tenant_found (db s) g" "demo_subscription (db s) r"
  shows "ensure_demo_tenant p s = (Inr (g, r), s)"
  using assms
  by (auto simp: ensure_demo_tenant_def tenant_found_def demo_subscription_def create_organization_def
      find_existing_organization_def create_subscription_def find_existing_subscription_def split: list.splits)

lemma ensure_demo_seed_found:
  assumes "\<not> tx_failed s" "demo_seeded (db s) x"
  shows "ensure_demo_seed s = (Inr (x\<lparr>ds_key_created := False\<rparr>), s)"
proof -
  from assms(2) obtain p k g r where f: "catalog_found (db s) p"
    "active_keys (hash_api_key DEMO_PLATFORM_ADMIN_RAW_KEY) (db s) = [k]" "tenant_found (db s) g" "demo_subscription (db s) r"
    and x: "x = \<lparr>ds_platform_admin_key = DEMO_PLATFORM_ADMIN_RAW_KEY, ds_organization_public_id = org_public_id g,
       ds_subscription_public_id = sub_public_id r, ds_plan_id = plan_id p,
       ds_external_subscription_id = EXTERNAL_SUBSCRIPTION_ID, ds_feature_keys = [FEATURE_API_CALLS, FEATURE_SEATS],
       ds_key_created = ds_key_created x\<rparr>" unfolding demo_seeded_def by blast
  show ?thesis
    by (subst x) (simp add: ensure_demo_seed_def ensure_catalog_found [OF assms(1) f(1)] ensure_key_found [OF assms(1) f(2)]
        ensure_tenant_found [OF assms(1) f(3,4)])
qed

text \<open>
  The lookup of the published plan expects at most one version: once a second version of the plan has been
  published through the API, every run fails.
\<close>

theorem ensure_catalog_two_versions:
  assumes "\<not> tx_failed s" "filter (\<lambda>r. prod_key r = PRODUCT_KEY) (products (db s)) = [r]"
    "filter (\<lambda>f. feat_key f = FEATURE_API_CALLS) (features (db s)) = [a]"
    "filter (\<lambda>f. feat_key f = FEATURE_SEATS) (features (db s)) = [b]"
    "filter (published_of (prod_id r) PLAN_KEY) (plans (db s)) = p # q # ps"
  shows "\<exists>m. ensure_catalog s = (Inl (Exc MultipleResultsFound m), s)"
  using assms
  by (simp add: ensure_catalog_def ensure_product_def ensure_feature_def get_product_by_key_def get_feature_by_key_def
      get_published_plan_def scalar_one_or_none_def)

section \<open>What a run leaves behind\<close>

lemma find_one_InrD:
  assumes "bindE (query f) scalar_one_or_none s = (Inr x, t)"
  shows "t = s" "\<not> tx_failed s" "f (db s) = (case x of None \<Rightarrow> [] | Some r \<Rightarrow> [r])"
  using assms
  by (cases "tx_failed s"; auto simp: scalar_one_or_none_def split: list.splits)+

lemma filter_fresh: "filter P rows = [] \<Longrightarrow> P r \<Longrightarrow> filter P (rows @ [r]) = [r]"
  by simp

lemma ensure_product_InrD:
  assumes "ensure_product s = (Inr r, t)"
  shows "\<exists>xs. db t = (db s)\<lparr>products := xs\<rparr> \<and> filter (\<lambda>r. prod_key r = PRODUCT_KEY) xs = [r] \<and>
    committed t = committed s \<and> \<not> tx_failed t"
proof -
  from assms obtain x u where x: "get_product_by_key PRODUCT_KEY s = (Inr x, u)"
    "(case x of Some r \<Rightarrow> returnE r
      | None \<Rightarrow> create_product PRODUCT_KEY ''Core API'' (Some ''Demo product for local walkthrough'') True) u = (Inr r, t)"
    unfolding ensure_product_def by (elim bindE_InrE) simp
  note f = find_one_InrD [OF x(1) [unfolded get_product_by_key_def]]
  show ?thesis
  proof (cases x)
    case None
    then show ?thesis using x(2) f
      by (auto simp: create_product_def Let_def insert_checked_def thenE_def bindE_def add_product_def split: if_splits
          intro!: exI [of _ "products (db s) @ [r]"])
  next
    case (Some q)
    then show ?thesis using x(2) f by (auto intro!: exI [of _ "products (db s)"])
  qed
qed

lemma ensure_feature_InrD:
  assumes "ensure_feature k ft limit reset s = (Inr r, t)"
  shows "\<exists>xs. db t = (db s)\<lparr>features := xs\<rparr> \<and> filter (\<lambda>f. feat_key f = k) xs = [r] \<and>
    (\<forall>k'. k' \<noteq> k \<longrightarrow> filter (\<lambda>f. feat_key f = k') xs = filter (\<lambda>f. feat_key f = k') (features (db s))) \<and>
    committed t = committed s \<and> \<not> tx_failed t"
proof -
  from assms obtain x u where x: "get_feature_by_key k s = (Inr x, u)"
    "(case x of Some f \<Rightarrow> returnE f | None \<Rightarrow> create_feature k ft (Some limit) reset) u = (Inr r, t)"
    unfolding ensure_feature_def by (elim bindE_InrE) simp
  note f = find_one_InrD [OF x(1) [unfolded get_feature_by_key_def]]
  show ?thesis
  proof (cases x)
    case None
    then show ?thesis using x(2) f
      by (auto simp: create_feature_def Let_def insert_checked_def thenE_def bindE_def add_feature_def split: if_splits
          intro!: exI [of _ "features (db s) @ [r]"])
  next
    case (Some q)
    then show ?thesis using x(2) f by (auto intro!: exI [of _ "features (db s)"])
  qed
qed

text \<open>The tables in which a run looks rows up; the operations between the writes leave them alone.\<close>

definition same_reads :: "database \<Rightarrow> database \<Rightarrow> bool" where
  "same_reads d e \<longleftrightarrow> products e = products d \<and> features e = features d \<and> plans e = plans d \<and> api_keys e = api_keys d \<and>
     organizations e = organizations d \<and> subscriptions e = subscriptions d"

interpretation seed_reads: outbox_client same_reads
  by unfold_locales (auto simp: same_reads_def add_outbox_def)

lemma set_plan_features_reads: "keeps_db same_reads (set_plan_features pid items)"
  unfolding set_plan_features_def set_feature_step_def get_plan_or_raise_def find_plan_def assert_plan_is_draft_def
  by (intro seed_reads.primitives) (auto simp: same_reads_def add_plan_feature_def upd_plan_feature_def)

lemma create_price_reads: "keeps_db same_reads (create_price pid a cu mo me ex ac)"
  unfolding create_price_def get_plan_or_raise_def find_plan_def assert_plan_is_draft_def
  by (intro seed_reads.primitives) (auto simp: same_reads_def add_price_def)

lemma publish_plan_InrD:
  assumes "publish_plan pid s = (Inr q, t)"
  shows "\<exists>p now. filter (\<lambda>p. plan_id p = pid) (plans (db s)) = [p] \<and> q = published now p \<and>
    db t = upd_plan pid (published now) (db s) \<and> committed t = committed s \<and> \<not> tx_failed t"
proof -
  from assms obtain p u where p: "get_plan_or_raise pid s = (Inr p, u)"
    "(if published_at p \<noteq> None then raiseE PlanNotDraftError (''plan '' @ uuid_str pid @ '' is already published'')
      else bindE now_utc (\<lambda>now. thenE (update_db (upd_plan pid (\<lambda>p. p\<lparr>published_at := Some now\<rparr>)))
        (thenE flush (returnE (p\<lparr>published_at := Some now\<rparr>))))) u = (Inr q, t)"
    unfolding publish_plan_def by (elim bindE_InrE) simp
  note g = get_plan_or_raise_InrD [OF p(1)]
  from p(2) g(1,2) have "q = published (clock s (clock_pos s)) p"
    "t = s\<lparr>clock_pos := Suc (clock_pos s), db := upd_plan pid (published (clock s (clock_pos s))) (db s)\<rparr>"
    by (auto simp: published_def [abs_def] split: if_splits)
  then show ?thesis using g by (auto intro!: exI [of _ p] exI [of _ "clock s (clock_pos s)"])
qed

lemma build_demo_plan_InrD:
  assumes "build_demo_plan product a b s = (Inr q, t)"
    and none: "filter (published_of (prod_id product) PLAN_KEY) (plans (db s)) = []" and "\<not> tx_failed s"
  shows "filter (published_of (prod_id product) PLAN_KEY) (plans (db t)) = [q]"
    and "same_reads (db s) ((db t)\<lparr>plans := plans (db s)\<rparr>)" and "committed t = committed s" and "\<not> tx_failed t"
proof -
  let ?pr = "prod_id product" and ?items = "[demo_feature (feat_id a) 5000, demo_feature (feat_id b) 10]"
  from assms(1) obtain p u x v y w where
    p: "create_plan ?pr PLAN_KEY ''month'' (Some 14) 7 None None s = (Inr p, u)"
    and x: "set_plan_features (plan_id p) ?items u = (Inr x, v)"
    and y: "create_price (plan_id p) 2900 ''USD'' ''flat'' None None True v = (Inr y, w)"
    and z: "publish_plan (plan_id p) w = (Inr q, t)"
    unfolding build_demo_plan_def by (elim bindE_InrE thenE_InrE)
  define pl where "pl = draft_plan_row (upcoming_uuid s) ?pr PLAN_KEY ''month'' (Some 14) 7 None None (next_version ?pr PLAN_KEY (db s))"
  from create_plan_cases [OF p] have pu: "p = pl" "plan_ok pl (db s)" "u = (after_uuid s)\<lparr>db := add_plan pl (db s)\<rparr>"
    by (auto simp: pl_def)
  have r: "same_reads (db u) (db w)" "committed w = committed u"
    using keepsD [OF set_plan_features_reads x] keepsD [OF create_price_reads y] by (auto simp: same_reads_def)
  obtain p' now where pb: "filter (\<lambda>p. plan_id p = plan_id pl) (plans (db w)) = [p']" "q = published now p'"
    "db t = upd_plan (plan_id pl) (published now) (db w)" "committed t = committed w" "\<not> tx_failed t"
    using publish_plan_InrD [OF z] pu(1) by auto
  have plans: "plans (db w) = plans (db s) @ [pl]"
    using r(1) pu(3) by (simp add: same_reads_def add_plan_def)
  have fresh: "\<forall>r \<in> set (plans (db s)). plan_id r \<noteq> plan_id pl"
    using pu(2) by (simp add: plan_ok_def fresh_iff)
  then have "p' = pl" using pb(1) unfolding plans by (auto simp: filter_empty_conv)
  then have q: "q = published now pl" using pb(2) by simp
  have "update_rows (\<lambda>p. plan_id p = plan_id pl) (published now) (plans (db s)) = plans (db s)"
    using fresh by (simp add: update_rows_def map_idI)
  then have after: "plans (db t) = plans (db s) @ [q]"
    using pb(3) plans q by (simp add: upd_plan_def update_rows_def)
  have "published_of ?pr PLAN_KEY q"
    by (simp add: published_of_def q published_def pl_def draft_plan_row_def)
  then show "filter (published_of ?pr PLAN_KEY) (plans (db t)) = [q]" using none after by simp
  show "same_reads (db s) ((db t)\<lparr>plans := plans (db s)\<rparr>)"
    using r(1) pb(3) pu(3) by (simp add: same_reads_def upd_plan_def add_plan_def)
  show "committed t = committed s" "\<not> tx_failed t" using pb(4,5) r(2) pu(3) by simp_all
qed

lemma ensure_catalog_InrD:
  assumes "ensure_catalog s = (Inr p, t)"
  shows "catalog_found (db t) p" "api_keys (db t) = api_keys (db s)" "organizations (db t) = organizations (db s)"
    "subscriptions (db t) = subscriptions (db s)" "committed t = committed s" "\<not> tx_failed t"
proof -
  from assms obtain r u a v b w x y where
    r: "ensure_product s = (Inr r, u)" and a: "ensure_feature FEATURE_API_CALLS ''quota'' 1000 (Some ''month'') u = (Inr a, v)"
    and b: "ensure_feature FEATURE_SEATS ''seat'' 5 None v = (Inr b, w)"
    and x: "get_published_plan (prod_id r) PLAN_KEY w = (Inr x, y)"
    and z: "(case x of Some p \<Rightarrow> returnE p | None \<Rightarrow> build_demo_plan r a b) y = (Inr p, t)"
    unfolding ensure_catalog_def by (elim bindE_InrE)
  note f = find_one_InrD [OF x [unfolded get_published_plan_def]]
  have keys: "FEATURE_API_CALLS \<noteq> FEATURE_SEATS" by (simp add: FEATURE_API_CALLS_def FEATURE_SEATS_def)
  have w: "filter (\<lambda>r. prod_key r = PRODUCT_KEY) (products (db w)) = [r]"
    "filter (\<lambda>f. feat_key f = FEATURE_API_CALLS) (features (db w)) = [a]"
    "filter (\<lambda>f. feat_key f = FEATURE_SEATS) (features (db w)) = [b]"
    "api_keys (db w) = api_keys (db s)" "organizations (db w) = organizations (db s)"
    "subscriptions (db w) = subscriptions (db s)" "committed w = committed s"
    using ensure_product_InrD [OF r] ensure_feature_InrD [OF a] ensure_feature_InrD [OF b] keys by auto
  have "filter (published_of (prod_id r) PLAN_KEY) (plans (db t)) = [p] \<and> same_reads (db w) ((db t)\<lparr>plans := plans (db w)\<rparr>) \<and>
      committed t = committed w \<and> \<not> tx_failed t"
  proof (cases x)
    case None
    then show ?thesis using z f build_demo_plan_InrD [of r a b y p t] by simp
  next
    case (Some q)
    then show ?thesis using z f by (simp add: same_reads_def)
  qed
  then show "catalog_found (db t) p" "api_keys (db t) = api_keys (db s)" "organizations (db t) = organizations (db s)"
    "subscriptions (db t) = subscriptions (db s)" "committed t = committed s" "\<not> tx_failed t"
    using w unfolding catalog_found_def same_reads_def by auto
qed

lemma ensure_key_InrD:
  assumes "ensure_platform_admin_key s = (Inr (raw, made), t)" "\<not> tx_failed s"
  shows "\<exists>ks k. db t = (db s)\<lparr>api_keys := ks\<rparr> \<and> raw = DEMO_PLATFORM_ADMIN_RAW_KEY \<and>
    active_keys (hash_api_key raw) (db t) = [k] \<and> committed t = committed s \<and> \<not> tx_failed t"
proof -
  let ?h = "hash_api_key DEMO_PLATFORM_ADMIN_RAW_KEY"
  from assms(1) obtain x u where x: "bindE (query (active_keys ?h)) scalar_one_or_none s = (Inr x, u)"
    unfolding ensure_platform_admin_key_def by (rule bindE_InrE)
  note f = find_one_InrD [OF x]
  show ?thesis
  proof (cases x)
    case None
    with assms f have "thenE (create_api_key None PLATFORM_ADMIN (Some DEMO_PLATFORM_ADMIN_RAW_KEY))
        (returnE (DEMO_PLATFORM_ADMIN_RAW_KEY, True)) s = (Inr (raw, made), t)"
      by (simp add: ensure_platform_admin_key_def)
    then obtain k c where c: "create_api_key None PLATFORM_ADMIN (Some DEMO_PLATFORM_ADMIN_RAW_KEY) s = (Inr (k, c), t)"
      "raw = DEMO_PLATFORM_ADMIN_RAW_KEY"
      by (elim thenE_InrE) auto
    have "committed t = committed s" "c = DEMO_PLATFORM_ADMIN_RAW_KEY"
      using c(1) assms(2) by (auto simp: create_api_key_def Let_def insert_checked_def thenE_def bindE_def split: if_splits sum.splits)
    then show ?thesis
      using create_api_key_InrD [OF c(1)] None f(3) c(2)
      by (auto simp: add_api_key_def active_keys_def new_api_key_def)
  next
    case (Some k)
    then have "ensure_platform_admin_key s = (Inr (DEMO_PLATFORM_ADMIN_RAW_KEY, False), s)"
      using ensure_key_found [OF assms(2), of k] f(3) by simp
    then show ?thesis using assms f(3) Some by (auto intro!: exI [of _ "api_keys (db s)"])
  qed
qed

lemma find_existing_organization_InrD:
  assumes "find_existing_organization idem external s = (Inr x, t)"
  defines "A \<equiv> filter (\<lambda>g. org_idempotency_key g = Some idem) (organizations (db s))"
    and "B \<equiv> filter (\<lambda>g. org_external_id g = Some external) (organizations (db s))"
  shows "t = s \<and> \<not> tx_failed s \<and> (case x of None \<Rightarrow> A = [] \<and> B = [] | Some g \<Rightarrow> A = [g] \<or> A = [] \<and> B = [g])"
proof -
  from assms(1) obtain y u where y: "bindE (query (\<lambda>d. filter (\<lambda>g. org_idempotency_key g = Some idem) (organizations d)))
      scalar_one_or_none s = (Inr y, u)"
    and z: "(case y of Some g \<Rightarrow> returnE (Some g)
      | None \<Rightarrow> bindE (query (\<lambda>d. filter (\<lambda>g. org_external_id g = Some external) (organizations d))) scalar_one_or_none) u = (Inr x, t)"
    unfolding find_existing_organization_def by (rule bindE_InrE)
  note f = find_one_InrD [OF y]
  show ?thesis
  proof (cases y)
    case None
    with z have "bindE (query (\<lambda>d. filter (\<lambda>g. org_external_id g = Some external) (organizations d))) scalar_one_or_none u = (Inr x, t)"
      by simp
    from find_one_InrD [OF this] show ?thesis using f None by (simp add: A_def B_def split: option.splits)
  next
    case (Some g)
    then show ?thesis using f z by (auto simp: A_def)
  qed
qed

lemma find_existing_organization_none:
  assumes "\<not> tx_failed s" "filter (\<lambda>g. org_idempotency_key g = Some idem) (organizations (db s)) = []"
    "filter (\<lambda>g. org_external_id g = Some external) (organizations (db s)) = []"
  shows "find_existing_organization idem external s = (Inr None, s)"
  using assms by (simp add: find_existing_organization_def)

text \<open>
  A conflicting insert rolls the transaction back. If the rows in question are those already committed,
  the second lookup finds nothing and the exception is raised again; so a normal return means that the row
  was found or inserted.
\<close>

lemma create_organization_InrD:
  assumes "create_organization name EXTERNAL_ORGANIZATION_ID ORG_IDEMPOTENCY_KEY email metadata (Some u) s = (Inr g, t)"
    and "organizations (committed s) = organizations (db s)"
  shows "\<exists>gs. db t = (db s)\<lparr>organizations := gs\<rparr> \<and> tenant_found (db t) g \<and> committed t = committed s \<and> \<not> tx_failed t"
proof -
  let ?idem = ORG_IDEMPOTENCY_KEY and ?ext = EXTERNAL_ORGANIZATION_ID
  from assms(1) obtain x v where x: "find_existing_organization ?idem ?ext s = (Inr x, v)"
    unfolding create_organization_def by (rule bindE_InrE)
  note f = find_existing_organization_InrD [OF x]
  show ?thesis
  proof (cases x)
    case (Some q)
    then show ?thesis using assms(1) x f
      by (auto simp: create_organization_def tenant_found_def intro!: exI [of _ "organizations (db s)"])
  next
    case None
    let ?s = "s\<lparr>seqs := (seqs s)(ORGANIZATIONS := seqs s ORGANIZATIONS + 1)\<rparr>"
    let ?g = "new_organization (seqs s ORGANIZATIONS) u name ?ext ?idem email metadata (tx_now s)"
    from None assms(1) x f have run: "flush_organization ?g ?idem ?ext ?s = (Inr g, t)"
      by (simp add: create_organization_def)
    from f None have n: "\<not> tx_failed s" "filter (\<lambda>g. org_idempotency_key g = Some ?idem) (organizations (db s)) = []"
      "filter (\<lambda>g. org_external_id g = Some ?ext) (organizations (db s)) = []" by simp_all
    show ?thesis
    proof (cases "organization_ok ?g (db s)")
      case True
      then have "g = ?g" "t = ?s\<lparr>db := add_organization ?g (db s)\<rparr>"
        using run n(1) by (auto simp: flush_organization_def)
      then show ?thesis using n
        by (auto simp: add_organization_def tenant_found_def new_organization_def)
    next
      case False
      let ?v = "?s\<lparr>db := committed s, tx_failed := False, tx_now := clock s (clock_pos s)\<rparr>"
      have "find_existing_organization ?idem ?ext ?v = (Inr None, ?v)"
        using n assms(2) by (intro find_existing_organization_none) simp_all
      then show ?thesis using run n(1) False by (simp add: flush_organization_def)
    qed
  qed
qed

lemma enqueue_trial_started_reads: "keeps_db same_reads (enqueue_trial_started r)"
  by (rule seed_reads.enqueue_trial_started)

text \<open>The branch of \<^verbatim>\<open>create_subscription\<close> that inserts.\<close>

definition insert_seed_subscription :: "int \<Rightarrow> plan \<Rightarrow> string \<Rightarrow> json_object option \<Rightarrow> subscription op" where
  "insert_seed_subscription oi p key metadata =
     bindE now_utc (\<lambda>now. bindE new_uuid (\<lambda>u. bindE (next_id SUBSCRIPTIONS) (\<lambda>i. bindE (getE tx_now) (\<lambda>t.
       let r = new_subscription i u oi p key (case metadata of None \<Rightarrow> [] | Some m \<Rightarrow> m) now t
       in bindE (flush_subscription r key) (\<lambda>conflicting.
            case conflicting of Some q \<Rightarrow> returnE q
            | None \<Rightarrow> thenE (whenE (sub_status r = trialing) (enqueue_trial_started r)) (returnE r))))))"

lemma insert_seed_subscription_InrD:
  assumes "insert_seed_subscription oi p key metadata s = (Inr r, t)" "\<not> tx_failed s"
    and none: "filter (\<lambda>r. sub_idempotency_key r = Some key) (subscriptions (db s)) = []"
    and "subscriptions (committed s) = subscriptions (db s)"
  shows "filter (\<lambda>r. sub_idempotency_key r = Some key) (subscriptions (db t)) = [r] \<and>
    same_reads (db s) ((db t)\<lparr>subscriptions := subscriptions (db s)\<rparr>) \<and> committed t = committed s \<and> \<not> tx_failed t"
proof -
  let ?s = "s\<lparr>clock_pos := Suc (clock_pos s)\<rparr>"
  define v where "v = (after_uuid ?s)\<lparr>seqs := (seqs s)(SUBSCRIPTIONS := seqs s SUBSCRIPTIONS + 1)\<rparr>"
  define q where "q = new_subscription (seqs s SUBSCRIPTIONS) (upcoming_uuid ?s) oi p key
    (case metadata of None \<Rightarrow> [] | Some m \<Rightarrow> m) (clock s (clock_pos s)) (tx_now s)"
  have v: "db v = db s" "committed v = committed s" "\<not> tx_failed v" using assms(2) by (simp_all add: v_def)
  have run: "bindE (flush_subscription q key) (\<lambda>conflicting. case conflicting of Some q \<Rightarrow> returnE q
      | None \<Rightarrow> thenE (whenE (sub_status q = trialing) (enqueue_trial_started q)) (returnE q)) v = (Inr r, t)"
    using assms(1) unfolding v_def q_def insert_seed_subscription_def Let_def by simp
  have key: "sub_idempotency_key q = Some key" by (simp add: q_def new_subscription_def)
  show ?thesis
  proof (cases "subscription_ok q (db s)")
    case True
    let ?v = "v\<lparr>db := add_subscription q (db s)\<rparr>"
    have "thenE (whenE (sub_status q = trialing) (enqueue_trial_started q)) (returnE q) ?v = (Inr r, t)"
      using run v True by (simp add: flush_subscription_def)
    then obtain x w where x: "whenE (sub_status q = trialing) (enqueue_trial_started q) ?v = (Inr x, w)" "returnE q w = (Inr r, t)"
      by (rule thenE_InrE)
    have "same_reads (db ?v) (db t)" "committed t = committed ?v" "\<not> tx_failed t" "r = q"
      using x keepsD [OF enqueue_trial_started_reads, of q ?v "Inr ()" w] usableD [OF usable_enqueue_trial_started, of q ?v "()" w] v(3)
      by (auto simp: same_reads_def split: if_splits)
    then show ?thesis using v none key by (simp add: same_reads_def add_subscription_def)
  next
    case False
    let ?v = "v\<lparr>db := committed s, tx_failed := False, tx_now := clock v (clock_pos v)\<rparr>"
    have "find_existing_subscription key ?v = (Inr None, ?v)"
      using none assms(4) by (simp add: find_existing_subscription_def)
    then show ?thesis using run v False by (simp add: flush_subscription_def)
  qed
qed

lemma seeded_subscription_InrD:
  assumes "create_subscription oi pid key metadata s = (Inr r, t)"
    and "subscriptions (committed s) = subscriptions (db s)"
  shows "filter (\<lambda>r. sub_idempotency_key r = Some key) (subscriptions (db t)) = [r] \<and>
    same_reads (db s) ((db t)\<lparr>subscriptions := subscriptions (db s)\<rparr>) \<and> committed t = committed s \<and> \<not> tx_failed t"
proof -
  from assms(1) obtain x v where x: "find_existing_subscription key s = (Inr x, v)"
    and y: "(case x of Some r \<Rightarrow> returnE r | None \<Rightarrow> bindE (find_plan pid) (\<lambda>found. case found of
        None \<Rightarrow> raiseE PlanNotPublishedError (''plan '' @ uuid_str pid @ '' is not published'')
      | Some p \<Rightarrow> if published_at p = None
          then raiseE PlanNotPublishedError (''plan '' @ uuid_str pid @ '' is not published'')
          else insert_seed_subscription oi p key metadata)) v = (Inr r, t)"
    unfolding create_subscription_def insert_seed_subscription_def by (rule bindE_InrE)
  note f = find_one_InrD [OF x [unfolded find_existing_subscription_def]]
  show ?thesis
  proof (cases x)
    case (Some q)
    then show ?thesis using y f by (simp add: same_reads_def)
  next
    case None
    with y f obtain p where "insert_seed_subscription oi p key metadata s = (Inr r, t)"
      by (auto elim!: bindE_InrE dest!: find_plan_InrD split: option.splits if_splits)
    then show ?thesis using insert_seed_subscription_InrD f None assms(2) by simp
  qed
qed

lemma set_external_InrD:
  assumes "set_external_subscription_id r external s = (Inr q, t)"
    and "filter (\<lambda>r. sub_idempotency_key r = Some key) (subscriptions (db s)) = [r]"
  shows "\<exists>q'. filter (\<lambda>r. sub_idempotency_key r = Some key) (subscriptions (db t)) = [q'] \<and>
      external_subscription_id q' = Some external \<and> sub_public_id q' = sub_public_id r \<and> sub_public_id q = sub_public_id r"
    and "same_reads (db s) ((db t)\<lparr>subscriptions := subscriptions (db s)\<rparr>)" and "committed t = committed s" and "\<not> tx_failed t"
proof -
  let ?f = "\<lambda>q. q\<lparr>external_subscription_id := Some external\<rparr>"
  have run: "q = ?f r" "db t = upd_subscription (sub_id r) (tx_now s) ?f (db s)" "committed t = committed s" "\<not> tx_failed t"
    using assms(1) by (auto simp: set_external_subscription_id_def insert_checked_def thenE_def bindE_def split: if_splits)
  let ?g = "\<lambda>r. if ?f r = r then r else (?f r)\<lparr>sub_updated_at := tx_now s\<rparr>"
  have "filter (\<lambda>r. sub_idempotency_key r = Some key) (subscriptions (db t)) = [?g r]"
    unfolding run(2) upd_subscription_def using assms(2) by (simp add: filter_update_rows)
  moreover have "external_subscription_id (?g r) = Some external \<and> sub_public_id (?g r) = sub_public_id r"
  proof (cases "?f r = r")
    case True
    then have "external_subscription_id r = external_subscription_id (?f r)" by simp
    with True show ?thesis by simp
  qed simp
  ultimately show "\<exists>q'. filter (\<lambda>r. sub_idempotency_key r = Some key) (subscriptions (db t)) = [q'] \<and>
      external_subscription_id q' = Some external \<and> sub_public_id q' = sub_public_id r \<and> sub_public_id q = sub_public_id r"
    using run(1) by auto
  show "same_reads (db s) ((db t)\<lparr>subscriptions := subscriptions (db s)\<rparr>)" "committed t = committed s" "\<not> tx_failed t"
    using run by (simp_all add: same_reads_def upd_subscription_def)
qed

lemma ensure_demo_tenant_InrD:
  assumes "ensure_demo_tenant p s = (Inr (g, r), t)"
    and "organizations (committed s) = organizations (db s)" "subscriptions (committed s) = subscriptions (db s)"
  shows "tenant_found (db t) g \<and> (\<exists>q. demo_subscription (db t) q \<and> sub_public_id q = sub_public_id r) \<and>
    products (db t) = products (db s) \<and> features (db t) = features (db s) \<and> plans (db t) = plans (db s) \<and>
    api_keys (db t) = api_keys (db s) \<and> \<not> tx_failed t"
proof -
  from assms(1) obtain h u q v where
    h: "create_organization ''Demo Organization'' EXTERNAL_ORGANIZATION_ID ORG_IDEMPOTENCY_KEY (Some ''demo@example.com'')
       None (Some DEMO_ORG_PUBLIC_ID) s = (Inr h, u)"
    and q: "create_subscription (org_id h) (plan_id p) SUB_IDEMPOTENCY_KEY None u = (Inr q, v)"
    and z: "(if external_subscription_id q \<noteq> Some EXTERNAL_SUBSCRIPTION_ID
     then bindE (set_external_subscription_id q EXTERNAL_SUBSCRIPTION_ID) (\<lambda>q. returnE (h, q))
     else returnE (h, q)) v = (Inr (g, r), t)"
    unfolding ensure_demo_tenant_def by (elim bindE_InrE)
  obtain gs where u: "db u = (db s)\<lparr>organizations := gs\<rparr>" "tenant_found (db u) h" "committed u = committed s" "\<not> tx_failed u"
    using create_organization_InrD [OF h assms(2)] by blast
  have v: "filter (\<lambda>r. sub_idempotency_key r = Some SUB_IDEMPOTENCY_KEY) (subscriptions (db v)) = [q]"
    "same_reads (db u) ((db v)\<lparr>subscriptions := subscriptions (db u)\<rparr>)" "\<not> tx_failed v"
    using seeded_subscription_InrD [OF q] assms(3) u by auto
  have tenant: "tenant_found (db v) h" using u(2) v(2) tenant_found_cong [of "db v" "db u"] by (simp add: same_reads_def)
  show ?thesis
  proof (cases "external_subscription_id q = Some EXTERNAL_SUBSCRIPTION_ID")
    case True
    then show ?thesis using z u(1) v tenant by (auto simp: demo_subscription_def same_reads_def)
  next
    case False
    with z obtain q' where e: "set_external_subscription_id q EXTERNAL_SUBSCRIPTION_ID v = (Inr q', t)" "g = h" "r = q'"
      by (auto elim!: bindE_InrE)
    from set_external_InrD [OF e(1) v(1)] show ?thesis
      using e(2,3) u(1) v(2) tenant tenant_found_cong [of "db t" "db v"]
      by (auto simp: demo_subscription_def same_reads_def)
  qed
qed

lemma ensure_demo_seed_seeds:
  assumes "ensure_demo_seed s = (Inr x, t)" "committed s = db s"
  shows "demo_seeded (db t) x"
proof -
  from assms(1) obtain p u kc v gr where p: "ensure_catalog s = (Inr p, u)" and k: "ensure_platform_admin_key u = (Inr kc, v)"
    and g: "ensure_demo_tenant p v = (Inr gr, t)"
    and x: "x = \<lparr>ds_platform_admin_key = fst kc, ds_organization_public_id = org_public_id (fst gr),
        ds_subscription_public_id = sub_public_id (snd gr), ds_plan_id = plan_id p,
        ds_external_subscription_id = EXTERNAL_SUBSCRIPTION_ID,
        ds_feature_keys = [FEATURE_API_CALLS, FEATURE_SEATS], ds_key_created = snd kc\<rparr>"
    unfolding ensure_demo_seed_def by (auto elim!: bindE_InrE simp: case_prod_unfold)
  note c = ensure_catalog_InrD [OF p]
  obtain ks k' where kk: "db v = (db u)\<lparr>api_keys := ks\<rparr>" "fst kc = DEMO_PLATFORM_ADMIN_RAW_KEY"
    "active_keys (hash_api_key (fst kc)) (db v) = [k']" "committed v = committed u" "\<not> tx_failed v"
    using ensure_key_InrD [of u "fst kc" "snd kc" v] k c(6) by auto
  have "tenant_found (db t) (fst gr) \<and> (\<exists>q. demo_subscription (db t) q \<and> sub_public_id q = sub_public_id (snd gr)) \<and>
    products (db t) = products (db v) \<and> features (db t) = features (db v) \<and> plans (db t) = plans (db v) \<and>
    api_keys (db t) = api_keys (db v)"
    using ensure_demo_tenant_InrD [of p v "fst gr" "snd gr" t] g kk(1,4) c assms(2) by simp
  then obtain q where "tenant_found (db t) (fst gr)" "demo_subscription (db t) q" "sub_public_id q = sub_public_id (snd gr)"
    "catalog_found (db t) p" "active_keys (hash_api_key DEMO_PLATFORM_ADMIN_RAW_KEY) (db t) = [k']"
    using c(1) kk(1,2,3) by (auto simp: catalog_found_def active_keys_def)
  then show ?thesis unfolding demo_seeded_def using x kk(2) by (intro exI [of _ p] exI [of _ k'] exI [of _ "fst gr"] exI [of _ q]) simp
qed

text \<open>
  C38: Seeding is idempotent. After a run of the seed that started on committed data and returned, every
  later run on the database it left returns the same identifiers, reports that no key was created, and
  changes nothing at all: it reads no clock, draws no identifier and writes no row.
\<close>

theorem demo_seed_idempotent:
  assumes "ensure_demo_seed s = (Inr x, t)" "committed s = db s" "db u = db t" "\<not> tx_failed u"
  shows "ensure_demo_seed u = (Inr (x\<lparr>ds_key_created := False\<rparr>), u)"
  using ensure_demo_seed_found ensure_demo_seed_seeds [OF assms(1,2)] assms(3,4) by simp

section \<open>A database without the key\<close>

text \<open>The demo data is there, except for the administrator's key: a run makes it.\<close>

definition seed_db :: database where
  "seed_db = sample_db\<lparr>
     products := [\<lparr>prod_id = 200, prod_key = PRODUCT_KEY, prod_name = ''Core API'', prod_description = None, prod_is_active = True\<rparr>],
     features := [\<lparr>feat_id = 401, feat_key = FEATURE_API_CALLS, feature_type = ''quota'', default_limit = Some 1000, reset_interval = Some ''month''\<rparr>,
       \<lparr>feat_id = 402, feat_key = FEATURE_SEATS, feature_type = ''seat'', default_limit = Some 5, reset_interval = None\<rparr>],
     plans := [sample_plan\<lparr>plan_key := PLAN_KEY\<rparr>],
     organizations := [sample_org\<lparr>org_idempotency_key := Some ORG_IDEMPOTENCY_KEY\<rparr>],
     subscriptions := [sample_sub\<lparr>sub_idempotency_key := Some SUB_IDEMPOTENCY_KEY\<rparr>]\<rparr>"

definition seed_session :: session where
  "seed_session = sample_session\<lparr>db := seed_db, committed := seed_db\<rparr>"

lemma seed_db_found:
  "catalog_found seed_db (sample_plan\<lparr>plan_key := PLAN_KEY\<rparr>)"
  "tenant_found seed_db (sample_org\<lparr>org_idempotency_key := Some ORG_IDEMPOTENCY_KEY\<rparr>)"
  "demo_subscription seed_db (sample_sub\<lparr>sub_idempotency_key := Some SUB_IDEMPOTENCY_KEY\<rparr>)"
  by (simp_all add: catalog_found_def tenant_found_def demo_subscription_def seed_db_def published_of_def sample_plan_def
      sample_sub_def FEATURE_API_CALLS_def FEATURE_SEATS_def EXTERNAL_SUBSCRIPTION_ID_def)

lemma seed_session_run:
  "\<exists>x t. ensure_demo_seed seed_session = (Inr x, t) \<and> ds_key_created x \<and> ds_plan_id x = 201 \<and> \<not> tx_failed t"
proof -
  let ?raw = DEMO_PLATFORM_ADMIN_RAW_KEY
  let ?k = "new_api_key (upcoming_uuid seed_session) None ?raw PLATFORM_ADMIN (tx_now seed_session)"
  let ?t = "(after_uuid seed_session)\<lparr>db := add_api_key ?k seed_db\<rparr>"
  have s: "\<not> tx_failed seed_session" "db seed_session = seed_db" "api_keys seed_db = []"
    by (simp_all add: seed_session_def seed_db_def sample_db_def)
  have raw: "prefix ''bp_'' ?raw" by (simp add: DEMO_PLATFORM_ADMIN_RAW_KEY_def)
  have "api_key_ok ?k seed_db" by (simp add: api_key_ok_def fresh_def refers_opt_def new_api_key_def s(3))
  then have "create_api_key None PLATFORM_ADMIN (Some ?raw) seed_session = (Inr (?k, ?raw), ?t)"
    using s raw by (simp add: create_api_key_def parse_role_def API_KEY_ROLES_def Let_def)
  then have k: "ensure_platform_admin_key seed_session = (Inr (?raw, True), ?t)"
    using s by (simp add: ensure_platform_admin_key_def active_keys_def)
  have t: "tenant_found (db ?t) (sample_org\<lparr>org_idempotency_key := Some ORG_IDEMPOTENCY_KEY\<rparr>)"
    "demo_subscription (db ?t) (sample_sub\<lparr>sub_idempotency_key := Some SUB_IDEMPOTENCY_KEY\<rparr>)" "\<not> tx_failed ?t"
    using seed_db_found s tenant_found_cong [of "db ?t" seed_db] by (simp_all add: demo_subscription_def add_api_key_def)
  show ?thesis
    using ensure_catalog_found [of seed_session] k ensure_tenant_found [OF t(3,1,2)] s(1,2) seed_db_found(1)
    by (simp add: ensure_demo_seed_def sample_plan_def)
qed

theorem demo_seed_idempotent_witness:
  "\<exists>x t. ensure_demo_seed seed_session = (Inr x, t) \<and> ds_key_created x \<and>
     ensure_demo_seed t = (Inr (x\<lparr>ds_key_created := False\<rparr>), t) \<and> ds_plan_id x = 201"
proof -
  obtain x t where x: "ensure_demo_seed seed_session = (Inr x, t)" "ds_key_created x" "ds_plan_id x = 201" "\<not> tx_failed t"
    using seed_session_run by blast
  have "committed seed_session = db seed_session" by (simp add: seed_session_def)
  from demo_seed_idempotent [OF x(1) this refl x(4)] show ?thesis using x by blast
qed

end
