(* ===== verification/Purge.thy ===== *)
theory Purge
  imports Subscriptions
begin

text \<open>
  The purge of the prod-like test data (\<^verbatim>\<open>scripts/seed_prod_like_purge.py\<close>): the organizations it selects, and
  the statements that delete their rows table by table under the foreign keys of the schema.
\<close>

section \<open>Patterns and deletions\<close>

text \<open>SQL \<^verbatim>\<open>LIKE\<close>: a percent sign stands for any text, an underscore for any one character.\<close>

fun sql_like :: "string \<Rightarrow> string \<Rightarrow> bool" where
  "sql_like [] s = (s = [])"
| "sql_like (p # ps) s =
     (if p = CHR ''%'' then (case s of [] \<Rightarrow> sql_like ps [] | c # cs \<Rightarrow> sql_like ps s \<or> sql_like (p # ps) cs)
      else (case s of [] \<Rightarrow> False | c # cs \<Rightarrow> (p = CHR ''_'' \<or> p = c) \<and> sql_like ps cs))"

definition opt_like :: "string \<Rightarrow> string option \<Rightarrow> bool" where
  "opt_like p v = (case v of None \<Rightarrow> False | Some s \<Rightarrow> sql_like p s)"

text \<open>The foreign keys of the tables that the purge deletes from.\<close>

definition references_hold :: "database \<Rightarrow> bool" where
  "references_hold d \<longleftrightarrow>
     list_all (\<lambda>k. refers_opt org_id (key_organization_id k) (organizations d)) (api_keys d) \<and>
     list_all (\<lambda>r. refers org_id (sub_organization_id r) (organizations d)) (subscriptions d) \<and>
     list_all (\<lambda>e. refers org_id (le_organization_id e) (organizations d) \<and>
       refers_opt sub_id (le_subscription_id e) (subscriptions d) \<and>
       refers_opt le_id (reverses_entry_id e) (ledger_entries d)) (ledger_entries d) \<and>
     list_all (\<lambda>u. refers org_id (ue_organization_id u) (organizations d) \<and>
       refers_opt sub_id (ue_subscription_id u) (subscriptions d)) (usage_events d) \<and>
     list_all (\<lambda>a. refers org_id (ua_organization_id a) (organizations d)) (usage_aggregates d) \<and>
     list_all (\<lambda>v. refers org_id (inv_organization_id v) (organizations d) \<and>
       refers_opt sub_id (inv_subscription_id v) (subscriptions d)) (invoices d) \<and>
     list_all (\<lambda>l. refers inv_id (li_invoice_id l) (invoices d)) (invoice_line_items d) \<and>
     list_all (\<lambda>c. refers org_id (camp_organization_id c) (organizations d) \<and>
       refers sub_id (camp_subscription_id c) (subscriptions d)) (dunning_campaigns d) \<and>
     list_all (\<lambda>a. refers camp_id (att_campaign_id a) (dunning_campaigns d)) (dunning_attempts d)"

text \<open>\<^verbatim>\<open>DELETE FROM ...\<close>: refused if a row that stays refers to one that goes.\<close>

definition delete_rows :: "(database \<Rightarrow> database) \<Rightarrow> unit op" where
  "delete_rows f = insert_checked (\<lambda>d. references_hold (f d)) f"

section \<open>The purge\<close>

definition prod_like_org :: "organization \<Rightarrow> bool" where
  "prod_like_org g \<longleftrightarrow> opt_like ''pl_%'' (org_idempotency_key g) \<or> map_of (org_metadata g) ''seed_slice'' = Some (JStr ''prod_like'')"

definition collect_prod_like_org_ids :: "int list op" where
  "collect_prod_like_org_ids = query (\<lambda>d. map org_id (filter prod_like_org (organizations d)))"

definition purged_usage :: "int list \<Rightarrow> usage_event \<Rightarrow> bool" where
  "purged_usage ids u \<longleftrightarrow> sql_like ''pl_usage_%'' (ue_idempotency_key u) \<or> ue_organization_id u \<in> set ids"

definition purged_entry :: "int list \<Rightarrow> ledger_entry \<Rightarrow> bool" where
  "purged_entry ids e \<longleftrightarrow> sql_like ''pl_%'' (le_idempotency_key e) \<or> le_organization_id e \<in> set ids"

definition purged_invoice :: "int list \<Rightarrow> invoice \<Rightarrow> bool" where
  "purged_invoice ids v \<longleftrightarrow> sql_like ''pl_period_%'' (inv_idempotency_key v) \<or> inv_organization_id v \<in> set ids"

definition purged_subscription :: "int list \<Rightarrow> subscription \<Rightarrow> bool" where
  "purged_subscription ids r \<longleftrightarrow> opt_like ''sub_pl_%'' (sub_idempotency_key r) \<or> sub_organization_id r \<in> set ids"

definition campaigns_of :: "int list \<Rightarrow> database \<Rightarrow> uuid list" where
  "campaigns_of ids d = map camp_id (filter (\<lambda>c. camp_organization_id c \<in> set ids) (dunning_campaigns d))"

definition delete_invoices :: "int list \<Rightarrow> unit op" where
  "delete_invoices vs =
     (if vs = [] then returnE ()
      else thenE (delete_rows (\<lambda>d. d\<lparr>invoice_line_items := filter (\<lambda>l. li_invoice_id l \<notin> set vs) (invoice_line_items d)\<rparr>))
        (delete_rows (\<lambda>d. d\<lparr>invoices := filter (\<lambda>v. inv_id v \<notin> set vs) (invoices d)\<rparr>)))"

definition delete_slice :: "int list \<Rightarrow> string list \<Rightarrow> unit op" where
  "delete_slice ids aggregates =
     thenE (delete_rows (\<lambda>d. d\<lparr>usage_events := filter (\<lambda>u. \<not> purged_usage ids u) (usage_events d)\<rparr>))
     (thenE (delete_rows (\<lambda>d. d\<lparr>usage_aggregates := filter (\<lambda>a. ua_organization_id a \<notin> set ids) (usage_aggregates d)\<rparr>))
     (thenE (delete_rows (\<lambda>d. d\<lparr>webhook_events := filter (\<lambda>e. \<not> sql_like ''evt_pl_%'' (provider_event_id e)) (webhook_events d)\<rparr>))
     (thenE (whenE (aggregates \<noteq> []) (delete_rows (\<lambda>d. d\<lparr>outbox_messages :=
         filter (\<lambda>m. ob_aggregate_id m \<notin> set aggregates) (outbox_messages d)\<rparr>)))
     (thenE (delete_rows (\<lambda>d. d\<lparr>ledger_entries := filter (\<lambda>e. \<not> purged_entry ids e) (ledger_entries d)\<rparr>))
     (thenE (bindE (query (\<lambda>d. map inv_id (filter (purged_invoice ids) (invoices d)))) delete_invoices)
     (thenE (delete_rows (\<lambda>d. d\<lparr>dunning_attempts :=
         filter (\<lambda>a. att_campaign_id a \<notin> set (campaigns_of ids d)) (dunning_attempts d)\<rparr>))
     (thenE (delete_rows (\<lambda>d. d\<lparr>dunning_campaigns := filter (\<lambda>c. camp_organization_id c \<notin> set ids) (dunning_campaigns d)\<rparr>))
     (thenE (delete_rows (\<lambda>d. d\<lparr>api_keys := filter (\<lambda>k. \<not> (\<exists>i \<in> set ids. key_organization_id k = Some i)) (api_keys d)\<rparr>))
     (thenE (delete_rows (\<lambda>d. d\<lparr>subscriptions := filter (\<lambda>r. \<not> purged_subscription ids r) (subscriptions d)\<rparr>))
     (thenE (delete_rows (\<lambda>d. d\<lparr>organizations := filter (\<lambda>g. org_id g \<notin> set ids) (organizations d)\<rparr>))
     flush))))))))))"

definition purge_prod_like_prefix :: "int op" where
  "purge_prod_like_prefix =
     bindE collect_prod_like_org_ids (\<lambda>ids.
     if ids = [] then returnE 0
     else
       bindE (query (\<lambda>d. map (uuid_str \<circ> sub_public_id) (filter (\<lambda>r. sub_organization_id r \<in> set ids) (subscriptions d)))) (\<lambda>subs.
       bindE (query (\<lambda>d. map (uuid_str \<circ> org_public_id) (filter (\<lambda>g. org_id g \<in> set ids) (organizations d)))) (\<lambda>orgs.
       thenE (delete_slice ids (subs @ orgs)) (returnE (int (length ids))))))"

section \<open>The order of the deletions\<close>

text \<open>
  The database after the first \<open>n\<close> statements. Every table comes before the tables it refers to, so that at
  each stage a row that is still there finds the rows it refers to.
\<close>

definition stage :: "nat \<Rightarrow> int list \<Rightarrow> string list \<Rightarrow> database \<Rightarrow> database" where
  "stage n ids aggregates d =
     (let vs = set (map inv_id (filter (purged_invoice ids) (invoices d))) in
      d\<lparr>usage_events := filter (\<lambda>u. 0 < n \<longrightarrow> \<not> purged_usage ids u) (usage_events d),
        usage_aggregates := filter (\<lambda>a. 1 < n \<longrightarrow> ua_organization_id a \<notin> set ids) (usage_aggregates d),
        webhook_events := filter (\<lambda>e. 2 < n \<longrightarrow> \<not> sql_like ''evt_pl_%'' (provider_event_id e)) (webhook_events d),
        outbox_messages := filter (\<lambda>m. 3 < n \<longrightarrow> ob_aggregate_id m \<notin> set aggregates) (outbox_messages d),
        ledger_entries := filter (\<lambda>e. 4 < n \<longrightarrow> \<not> purged_entry ids e) (ledger_entries d),
        invoice_line_items := filter (\<lambda>l. 5 < n \<longrightarrow> li_invoice_id l \<notin> vs) (invoice_line_items d),
        invoices := filter (\<lambda>v. 6 < n \<longrightarrow> inv_id v \<notin> vs) (invoices d),
        dunning_attempts := filter (\<lambda>a. 7 < n \<longrightarrow> att_campaign_id a \<notin> set (campaigns_of ids d)) (dunning_attempts d),
        dunning_campaigns := filter (\<lambda>c. 8 < n \<longrightarrow> camp_organization_id c \<notin> set ids) (dunning_campaigns d),
        api_keys := filter (\<lambda>k. 9 < n \<longrightarrow> \<not> (\<exists>i \<in> set ids. key_organization_id k = Some i)) (api_keys d),
        subscriptions := filter (\<lambda>r. 10 < n \<longrightarrow> \<not> purged_subscription ids r) (subscriptions d),
        organizations := filter (\<lambda>g. 11 < n \<longrightarrow> org_id g \<notin> set ids) (organizations d)\<rparr>)"

text \<open>
  Rows refer to rows of the same organization, and the keys of the slice are used by its organizations only.
\<close>

definition same_tenant :: "database \<Rightarrow> bool" where
  "same_tenant d \<longleftrightarrow>
     list_all (\<lambda>r.
       list_all (\<lambda>e. le_subscription_id e = Some (sub_id r) \<longrightarrow> le_organization_id e = sub_organization_id r) (ledger_entries d) \<and>
       list_all (\<lambda>u. ue_subscription_id u = Some (sub_id r) \<longrightarrow> ue_organization_id u = sub_organization_id r) (usage_events d) \<and>
       list_all (\<lambda>v. inv_subscription_id v = Some (sub_id r) \<longrightarrow> inv_organization_id v = sub_organization_id r) (invoices d) \<and>
       list_all (\<lambda>c. camp_subscription_id c = sub_id r \<longrightarrow> camp_organization_id c = sub_organization_id r) (dunning_campaigns d))
     (subscriptions d) \<and>
     list_all (\<lambda>f. list_all (\<lambda>e. reverses_entry_id e = Some (le_id f) \<longrightarrow> le_organization_id e = le_organization_id f)
       (ledger_entries d)) (ledger_entries d)"

definition slice_ids :: "database \<Rightarrow> int list" where
  "slice_ids d = map org_id (filter prod_like_org (organizations d))"

definition slice_tagged :: "database \<Rightarrow> bool" where
  "slice_tagged d \<longleftrightarrow>
     list_all (\<lambda>e. sql_like ''pl_%'' (le_idempotency_key e) \<longrightarrow> le_organization_id e \<in> set (slice_ids d)) (ledger_entries d) \<and>
     list_all (\<lambda>v. sql_like ''pl_period_%'' (inv_idempotency_key v) \<longrightarrow> inv_organization_id v \<in> set (slice_ids d)) (invoices d) \<and>
     list_all (\<lambda>u. sql_like ''pl_usage_%'' (ue_idempotency_key u) \<longrightarrow> ue_organization_id u \<in> set (slice_ids d)) (usage_events d) \<and>
     list_all (\<lambda>r. opt_like ''sub_pl_%'' (sub_idempotency_key r) \<longrightarrow> sub_organization_id r \<in> set (slice_ids d)) (subscriptions d)"

lemma refers_filter: "refers key v rows \<Longrightarrow> (\<And>q. q \<in> set rows \<Longrightarrow> key q = v \<Longrightarrow> P q) \<Longrightarrow> refers key v (filter P rows)"
  by (auto simp: refers_iff)

lemma refers_opt_filter:
  "refers_opt key v rows \<Longrightarrow> (\<And>q. q \<in> set rows \<Longrightarrow> v = Some (key q) \<Longrightarrow> P q) \<Longrightarrow> refers_opt key v (filter P rows)"
  by (auto simp: refers_opt_def intro!: refers_filter split: option.splits)

lemma slice_tagged_purged:
  assumes "slice_tagged d"
  shows "e \<in> set (ledger_entries d) \<Longrightarrow> purged_entry (slice_ids d) e \<longleftrightarrow> le_organization_id e \<in> set (slice_ids d)"
    and "v \<in> set (invoices d) \<Longrightarrow> purged_invoice (slice_ids d) v \<longleftrightarrow> inv_organization_id v \<in> set (slice_ids d)"
    and "u \<in> set (usage_events d) \<Longrightarrow> purged_usage (slice_ids d) u \<longleftrightarrow> ue_organization_id u \<in> set (slice_ids d)"
    and "r \<in> set (subscriptions d) \<Longrightarrow> purged_subscription (slice_ids d) r \<longleftrightarrow> sub_organization_id r \<in> set (slice_ids d)"
  using assms unfolding slice_tagged_def list_all_iff
  by (auto simp: purged_entry_def purged_invoice_def purged_usage_def purged_subscription_def)

lemma stage_tables [simp]:
  "api_keys (stage n ids as d) = filter (\<lambda>k. 9 < n \<longrightarrow> \<not> (\<exists>i \<in> set ids. key_organization_id k = Some i)) (api_keys d)"
  "subscriptions (stage n ids as d) = filter (\<lambda>r. 10 < n \<longrightarrow> \<not> purged_subscription ids r) (subscriptions d)"
  "ledger_entries (stage n ids as d) = filter (\<lambda>e. 4 < n \<longrightarrow> \<not> purged_entry ids e) (ledger_entries d)"
  "usage_events (stage n ids as d) = filter (\<lambda>u. 0 < n \<longrightarrow> \<not> purged_usage ids u) (usage_events d)"
  "usage_aggregates (stage n ids as d) = filter (\<lambda>a. 1 < n \<longrightarrow> ua_organization_id a \<notin> set ids) (usage_aggregates d)"
  "invoices (stage n ids as d) =
     filter (\<lambda>v. 6 < n \<longrightarrow> inv_id v \<notin> set (map inv_id (filter (purged_invoice ids) (invoices d)))) (invoices d)"
  "invoice_line_items (stage n ids as d) =
     filter (\<lambda>l. 5 < n \<longrightarrow> li_invoice_id l \<notin> set (map inv_id (filter (purged_invoice ids) (invoices d)))) (invoice_line_items d)"
  "dunning_campaigns (stage n ids as d) = filter (\<lambda>c. 8 < n \<longrightarrow> camp_organization_id c \<notin> set ids) (dunning_campaigns d)"
  "dunning_attempts (stage n ids as d) = filter (\<lambda>a. 7 < n \<longrightarrow> att_campaign_id a \<notin> set (campaigns_of ids d)) (dunning_attempts d)"
  "organizations (stage n ids as d) = filter (\<lambda>g. 11 < n \<longrightarrow> org_id g \<notin> set ids) (organizations d)"
  "webhook_events (stage n ids as d) = filter (\<lambda>e. 2 < n \<longrightarrow> \<not> sql_like ''evt_pl_%'' (provider_event_id e)) (webhook_events d)"
  "outbox_messages (stage n ids as d) = filter (\<lambda>m. 3 < n \<longrightarrow> ob_aggregate_id m \<notin> set as) (outbox_messages d)"
  by (simp_all add: stage_def Let_def del: sql_like.simps)

lemma in_campaigns_of:
  "c \<in> set (dunning_campaigns d) \<Longrightarrow> camp_organization_id c \<in> set ids \<Longrightarrow> camp_id c \<in> set (campaigns_of ids d)"
  by (simp add: campaigns_of_def)

lemma stage_references:
  fixes n :: nat and aggregates :: "string list"
  assumes "references_hold d" "same_tenant d" "slice_tagged d"
  defines "d' \<equiv> stage n (slice_ids d) aggregates d"
  shows "references_hold d'"
  unfolding references_hold_def
proof (intro conjI)
  note R = assms(1) [unfolded references_hold_def list_all_iff]
  note T = assms(2) [unfolded same_tenant_def list_all_iff]
  note P = slice_tagged_purged [OF assms(3)]
  show "list_all (\<lambda>k. refers_opt org_id (key_organization_id k) (organizations d')) (api_keys d')"
    using R by (auto simp: list_all_iff d'_def intro!: refers_opt_filter)
  show "list_all (\<lambda>r. refers org_id (sub_organization_id r) (organizations d')) (subscriptions d')"
    using R P(4) by (auto simp: list_all_iff d'_def intro!: refers_filter)
  show "list_all (\<lambda>e. refers org_id (le_organization_id e) (organizations d') \<and>
      refers_opt sub_id (le_subscription_id e) (subscriptions d') \<and>
      refers_opt le_id (reverses_entry_id e) (ledger_entries d')) (ledger_entries d')"
    unfolding list_all_iff
  proof (intro ballI conjI)
    fix e assume "e \<in> set (ledger_entries d')"
    then have e: "e \<in> set (ledger_entries d)" "4 < n \<Longrightarrow> le_organization_id e \<notin> set (slice_ids d)"
      using P(1) by (auto simp: d'_def)
    show "refers org_id (le_organization_id e) (organizations d')"
      using R e by (auto simp: d'_def intro!: refers_filter)
    show "refers_opt sub_id (le_subscription_id e) (subscriptions d')"
      using R T e P(4) by (auto simp: d'_def intro!: refers_opt_filter)
    show "refers_opt le_id (reverses_entry_id e) (ledger_entries d')"
      using R T e P(1) by (auto simp: d'_def intro!: refers_opt_filter)
  qed
  show "list_all (\<lambda>u. refers org_id (ue_organization_id u) (organizations d') \<and>
      refers_opt sub_id (ue_subscription_id u) (subscriptions d')) (usage_events d')"
    using R T P(3,4) by (auto simp: list_all_iff d'_def intro!: refers_filter refers_opt_filter)
  show "list_all (\<lambda>a. refers org_id (ua_organization_id a) (organizations d')) (usage_aggregates d')"
    using R by (auto simp: list_all_iff d'_def intro!: refers_filter)
  show "list_all (\<lambda>v. refers org_id (inv_organization_id v) (organizations d') \<and>
      refers_opt sub_id (inv_subscription_id v) (subscriptions d')) (invoices d')"
    unfolding list_all_iff
  proof (intro ballI conjI)
    fix v assume "v \<in> set (invoices d')"
    then have v: "v \<in> set (invoices d)" "6 < n \<Longrightarrow> inv_organization_id v \<notin> set (slice_ids d)"
      using P(2) by (auto simp: d'_def)
    show "refers org_id (inv_organization_id v) (organizations d')"
      using R v by (auto simp: d'_def intro!: refers_filter)
    show "refers_opt sub_id (inv_subscription_id v) (subscriptions d')"
      using R T v P(4) by (auto simp: d'_def intro!: refers_opt_filter)
  qed
  show "list_all (\<lambda>l. refers inv_id (li_invoice_id l) (invoices d')) (invoice_line_items d')"
    using R unfolding list_all_iff d'_def stage_tables set_filter by (auto simp del: set_map set_filter intro!: refers_filter)
  show "list_all (\<lambda>c. refers org_id (camp_organization_id c) (organizations d') \<and>
      refers sub_id (camp_subscription_id c) (subscriptions d')) (dunning_campaigns d')"
    unfolding list_all_iff
  proof (intro ballI conjI)
    fix c assume "c \<in> set (dunning_campaigns d')"
    then have c: "c \<in> set (dunning_campaigns d)" "8 < n \<Longrightarrow> camp_organization_id c \<notin> set (slice_ids d)"
      by (auto simp: d'_def)
    show "refers org_id (camp_organization_id c) (organizations d')"
      using R c by (auto simp: d'_def intro!: refers_filter)
    have "refers sub_id (camp_subscription_id c) (subscriptions d)" using R c(1) by blast
    then show "refers sub_id (camp_subscription_id c) (subscriptions d')"
      using T c P(4) unfolding d'_def stage_tables by (intro refers_filter) auto
  qed
  show "list_all (\<lambda>a. refers camp_id (att_campaign_id a) (dunning_campaigns d')) (dunning_attempts d')"
    using R by (auto simp: list_all_iff d'_def intro!: refers_filter dest: in_campaigns_of)
qed

section \<open>Results\<close>

lemma delete_rows_run:
  assumes "\<not> tx_failed s" "db s = d" "f d = d'" "references_hold d'"
  shows "delete_rows f s = (Inr (), s\<lparr>db := d'\<rparr>)"
  using assms by (simp add: delete_rows_def)

lemma stage_0 [simp]: "stage 0 ids as d = d"
  by (simp add: stage_def)

lemma delete_slice_run:
  assumes "\<not> tx_failed s" "\<And>n. references_hold (stage n ids as (db s))" "as \<noteq> []"
  shows "delete_slice ids as s = (Inr (), s\<lparr>db := stage 12 ids as (db s)\<rparr>)"
proof -
  define d where "d = db s"
  define st where "st n = s\<lparr>db := stage n ids as d\<rparr>" for n
  have step: "delete_rows f (st n) = (Inr (), st m)" if "f (stage n ids as d) = stage m ids as d" for f n m
    using assms(1,2) that by (simp add: delete_rows_def st_def d_def)
  have vs: "bindE (query (\<lambda>d. map inv_id (filter (purged_invoice ids) (invoices d)))) delete_invoices (st 5) = (Inr (), st 7)"
  proof -
    let ?vs = "map inv_id (filter (purged_invoice ids) (invoices d))"
    have "query (\<lambda>d. map inv_id (filter (purged_invoice ids) (invoices d))) (st 5) = (Inr ?vs, st 5)"
      using assms(1) by (simp add: st_def)
    moreover have "delete_invoices ?vs (st 5) = (Inr (), st 7)"
    proof (cases "?vs = []")
      case True
      then have "stage 7 ids as d = stage 5 ids as d" by (simp add: stage_def)
      with True show ?thesis by (simp add: delete_invoices_def st_def)
    next
      case False
      have "delete_rows (\<lambda>d. d\<lparr>invoice_line_items := filter (\<lambda>l. li_invoice_id l \<notin> set ?vs) (invoice_line_items d)\<rparr>) (st 5) = (Inr (), st 6)"
        "delete_rows (\<lambda>d. d\<lparr>invoices := filter (\<lambda>v. inv_id v \<notin> set ?vs) (invoices d)\<rparr>) (st 6) = (Inr (), st 7)"
        by (rule step; simp add: stage_def Let_def)+
      with False show ?thesis by (simp add: delete_invoices_def)
    qed
    ultimately show ?thesis by simp
  qed
  have s: "s = st 0" "st 12 = s\<lparr>db := stage 12 ids as d\<rparr>" by (simp_all add: st_def d_def)
  have rows:
    "delete_rows (\<lambda>d. d\<lparr>usage_events := filter (\<lambda>u. \<not> purged_usage ids u) (usage_events d)\<rparr>) (st 0) = (Inr (), st 1)"
    "delete_rows (\<lambda>d. d\<lparr>usage_aggregates := filter (\<lambda>a. ua_organization_id a \<notin> set ids) (usage_aggregates d)\<rparr>) (st 1) = (Inr (), st 2)"
    "delete_rows (\<lambda>d. d\<lparr>webhook_events := filter (\<lambda>e. \<not> sql_like ''evt_pl_%'' (provider_event_id e)) (webhook_events d)\<rparr>) (st 2) = (Inr (), st 3)"
    "delete_rows (\<lambda>d. d\<lparr>outbox_messages := filter (\<lambda>m. ob_aggregate_id m \<notin> set as) (outbox_messages d)\<rparr>) (st 3) = (Inr (), st 4)"
    "delete_rows (\<lambda>d. d\<lparr>ledger_entries := filter (\<lambda>e. \<not> purged_entry ids e) (ledger_entries d)\<rparr>) (st 4) = (Inr (), st 5)"
    "delete_rows (\<lambda>d. d\<lparr>dunning_attempts := filter (\<lambda>a. att_campaign_id a \<notin> set (campaigns_of ids d)) (dunning_attempts d)\<rparr>) (st 7) = (Inr (), st 8)"
    "delete_rows (\<lambda>d. d\<lparr>dunning_campaigns := filter (\<lambda>c. camp_organization_id c \<notin> set ids) (dunning_campaigns d)\<rparr>) (st 8) = (Inr (), st 9)"
    "delete_rows (\<lambda>d. d\<lparr>api_keys := filter (\<lambda>k. \<not> (\<exists>i \<in> set ids. key_organization_id k = Some i)) (api_keys d)\<rparr>) (st 9) = (Inr (), st 10)"
    "delete_rows (\<lambda>d. d\<lparr>subscriptions := filter (\<lambda>r. \<not> purged_subscription ids r) (subscriptions d)\<rparr>) (st 10) = (Inr (), st 11)"
    "delete_rows (\<lambda>d. d\<lparr>organizations := filter (\<lambda>g. org_id g \<notin> set ids) (organizations d)\<rparr>) (st 11) = (Inr (), st 12)"
    by (rule step; simp add: stage_def Let_def campaigns_of_def)+
  have "delete_slice ids as (st 0) = (Inr (), st 12)"
    unfolding delete_slice_def using rows vs assms(1,3) by (simp add: st_def [of 12])
  then show ?thesis unfolding s(2) s(1) [symmetric] by (simp add: d_def)
qed

definition slice_aggregates :: "database \<Rightarrow> string list" where
  "slice_aggregates d =
     map (uuid_str \<circ> sub_public_id) (filter (\<lambda>r. sub_organization_id r \<in> set (slice_ids d)) (subscriptions d)) @
     map (uuid_str \<circ> org_public_id) (filter (\<lambda>g. org_id g \<in> set (slice_ids d)) (organizations d))"

lemma slice_aggregates_not_Nil: "slice_ids d \<noteq> [] \<Longrightarrow> slice_aggregates d \<noteq> []"
  by (auto simp: slice_aggregates_def slice_ids_def filter_empty_conv)

lemma purge_deletes_slice:
  assumes "\<not> tx_failed s" "slice_ids (db s) \<noteq> []" "delete_slice (slice_ids (db s)) (slice_aggregates (db s)) s = (Inr u, t)"
  shows "purge_prod_like_prefix s = (Inr (int (length (slice_ids (db s)))), t)"
  using assms by (simp add: purge_prod_like_prefix_def collect_prod_like_org_ids_def slice_ids_def slice_aggregates_def)

lemma purge_run:
  assumes "\<not> tx_failed s" "references_hold (db s)" "same_tenant (db s)" "slice_tagged (db s)"
  defines "ids \<equiv> slice_ids (db s)"
  shows "purge_prod_like_prefix s = (Inr (int (length ids)),
    s\<lparr>db := if ids = [] then db s else stage 12 ids (slice_aggregates (db s)) (db s)\<rparr>)"
proof (cases "ids = []")
  case True
  then show ?thesis using assms(1)
    by (simp add: purge_prod_like_prefix_def collect_prod_like_org_ids_def slice_ids_def ids_def)
next
  case False
  have "delete_slice ids (slice_aggregates (db s)) s = (Inr (), s\<lparr>db := stage 12 ids (slice_aggregates (db s)) (db s)\<rparr>)"
    unfolding ids_def using assms(1) stage_references [OF assms(2-4)] slice_aggregates_not_Nil False
    by (intro delete_slice_run) (simp_all add: ids_def)
  then show ?thesis using purge_deletes_slice [OF assms(1)] False by (auto simp: ids_def)
qed

lemma purged_invoice_rows:
  assumes "unique_key inv_id (invoices d)" "slice_tagged d"
  shows "filter (\<lambda>v. inv_id v \<notin> set (map inv_id (filter (purged_invoice (slice_ids d)) (invoices d)))) (invoices d) =
    filter (\<lambda>v. inv_organization_id v \<notin> set (slice_ids d)) (invoices d)"
proof (rule filter_cong [OF refl])
  fix v assume v: "v \<in> set (invoices d)"
  have "inv_id v \<in> inv_id ` {w \<in> set (invoices d). purged_invoice (slice_ids d) w} \<longleftrightarrow> purged_invoice (slice_ids d) v"
    using unique_by_same [OF assms(1) _ v] v by fastforce
  then show "(inv_id v \<notin> set (map inv_id (filter (purged_invoice (slice_ids d)) (invoices d)))) =
      (inv_organization_id v \<notin> set (slice_ids d))"
    using slice_tagged_purged(2) [OF assms(2) v] by simp
qed

text \<open>
  The organizations of the slice: those tagged with a key of at least three characters that begins
  with \<^verbatim>\<open>pl\<close> (the underscore of the pattern stands for any character), or by their metadata.
\<close>

definition in_slice :: "database \<Rightarrow> int \<Rightarrow> bool" where
  "in_slice d i \<longleftrightarrow> (\<exists>g \<in> set (organizations d). org_id g = i \<and>
     ((\<exists>k. org_idempotency_key g = Some k \<and> take 2 k = ''pl'' \<and> 2 < length k) \<or>
      map_of (org_metadata g) ''seed_slice'' = Some (JStr ''prod_like'')))"

lemma percent_like: "sql_like ''%'' x"
  by (induction x) simp_all

lemma like_char:
  "p \<noteq> CHR ''%'' \<Longrightarrow> sql_like (p # ps) [] \<longleftrightarrow> False"
  "p \<noteq> CHR ''%'' \<Longrightarrow> sql_like (p # ps) (c # cs) \<longleftrightarrow> (p = CHR ''_'' \<or> p = c) \<and> sql_like ps cs"
  by simp_all

lemma slice_key_like: "sql_like ''pl_%'' k \<longleftrightarrow> take 2 k = ''pl'' \<and> 2 < length k"
proof (cases k)
  case c: (Cons a as)
  show ?thesis
  proof (cases as)
    case (Cons b bs)
    then show ?thesis using c by (cases bs) (auto simp: like_char percent_like simp del: sql_like.simps)
  qed (use c in \<open>simp add: like_char del: sql_like.simps\<close>)
qed simp

lemma prod_like_org_iff:
  "prod_like_org g \<longleftrightarrow> (\<exists>k. org_idempotency_key g = Some k \<and> take 2 k = ''pl'' \<and> 2 < length k) \<or>
     map_of (org_metadata g) ''seed_slice'' = Some (JStr ''prod_like'')"
  by (cases "org_idempotency_key g") (simp_all add: prod_like_org_def opt_like_def slice_key_like del: sql_like.simps)

lemma in_slice_ids: "in_slice d i \<longleftrightarrow> i \<in> set (slice_ids d)"
  by (auto simp: in_slice_def slice_ids_def prod_like_org_iff)

lemma slice_ids_count:
  assumes "unique_key org_id (organizations d)"
  shows "length (slice_ids d) = length (filter (\<lambda>g. in_slice d (org_id g)) (organizations d))"
proof -
  have "in_slice d (org_id g) \<longleftrightarrow> prod_like_org g" if g: "g \<in> set (organizations d)" for g
    using unique_by_same [OF assms _ g] g by (fastforce simp: in_slice_ids slice_ids_def)
  then have "filter (\<lambda>g. in_slice d (org_id g)) (organizations d) = filter prod_like_org (organizations d)"
    by (rule filter_cong [OF refl])
  then show ?thesis by (simp add: slice_ids_def)
qed

lemma slice_aggregates_iff:
  "x \<in> set (slice_aggregates d) \<longleftrightarrow>
     (\<exists>r \<in> set (subscriptions d). in_slice d (sub_organization_id r) \<and> x = uuid_str (sub_public_id r)) \<or>
     (\<exists>g \<in> set (organizations d). in_slice d (org_id g) \<and> x = uuid_str (org_public_id g))"
  by (auto simp: slice_aggregates_def in_slice_ids)

text \<open>
  C39: The purge removes the slice and nothing of the other tenants' data. On a database whose references
  hold and stay within an organization, and in which the keys of the slice are used by its organizations
  only, no deletion is refused and the purge returns the number of organizations of the slice. Of the
  organizations, keys, subscriptions, ledger entries, usage events, hourly totals, invoices with their line
  items, and campaigns with their attempts exactly the rows of the other organizations remain. Of the outbox
  exactly the rows whose aggregate is a subscription or an organization of the slice go (events about its
  ledger entries, invoices and campaigns stay), and of the webhooks, if there is a slice at all, those whose
  event id matches \<^verbatim>\<open>evt_pl_%\<close>. Every reference still holds, and no other table changes.
\<close>

theorem purge_removes_slice:
  assumes "\<not> tx_failed s" "db_ok (db s)" "references_hold (db s)" "same_tenant (db s)" "slice_tagged (db s)"
  defines "d \<equiv> db s"
  shows "\<exists>t. purge_prod_like_prefix s = (Inr (int (length [g\<leftarrow>organizations d. in_slice d (org_id g)])), s\<lparr>db := t\<rparr>) \<and>
    references_hold t \<and>
    t = d\<lparr>organizations := [g\<leftarrow>organizations d. \<not> in_slice d (org_id g)],
      api_keys := [k\<leftarrow>api_keys d. case key_organization_id k of None \<Rightarrow> True | Some i \<Rightarrow> \<not> in_slice d i],
      subscriptions := [r\<leftarrow>subscriptions d. \<not> in_slice d (sub_organization_id r)],
      webhook_events := [e\<leftarrow>webhook_events d. \<not> sql_like ''evt_pl_%'' (provider_event_id e) \<or> (\<nexists>i. in_slice d i)],
      outbox_messages := [m\<leftarrow>outbox_messages d.
        \<not> (\<exists>r \<in> set (subscriptions d). in_slice d (sub_organization_id r) \<and> ob_aggregate_id m = uuid_str (sub_public_id r)) \<and>
        \<not> (\<exists>g \<in> set (organizations d). in_slice d (org_id g) \<and> ob_aggregate_id m = uuid_str (org_public_id g))],
      ledger_entries := [e\<leftarrow>ledger_entries d. \<not> in_slice d (le_organization_id e)],
      usage_events := [u\<leftarrow>usage_events d. \<not> in_slice d (ue_organization_id u)],
      usage_aggregates := [a\<leftarrow>usage_aggregates d. \<not> in_slice d (ua_organization_id a)],
      invoices := [v\<leftarrow>invoices d. \<not> in_slice d (inv_organization_id v)],
      invoice_line_items := [l\<leftarrow>invoice_line_items d.
        \<not> (\<exists>v \<in> set (invoices d). in_slice d (inv_organization_id v) \<and> li_invoice_id l = inv_id v)],
      dunning_campaigns := [c\<leftarrow>dunning_campaigns d. \<not> in_slice d (camp_organization_id c)],
      dunning_attempts := [a\<leftarrow>dunning_attempts d.
        \<not> (\<exists>c \<in> set (dunning_campaigns d). in_slice d (camp_organization_id c) \<and> att_campaign_id a = camp_id c)]\<rparr>"
proof -
  define ids where "ids = slice_ids d"
  let ?t = "d\<lparr>organizations := [g\<leftarrow>organizations d. \<not> in_slice d (org_id g)],
      api_keys := [k\<leftarrow>api_keys d. case key_organization_id k of None \<Rightarrow> True | Some i \<Rightarrow> \<not> in_slice d i],
      subscriptions := [r\<leftarrow>subscriptions d. \<not> in_slice d (sub_organization_id r)],
      webhook_events := [e\<leftarrow>webhook_events d. \<not> sql_like ''evt_pl_%'' (provider_event_id e) \<or> (\<nexists>i. in_slice d i)],
      outbox_messages := [m\<leftarrow>outbox_messages d.
        \<not> (\<exists>r \<in> set (subscriptions d). in_slice d (sub_organization_id r) \<and> ob_aggregate_id m = uuid_str (sub_public_id r)) \<and>
        \<not> (\<exists>g \<in> set (organizations d). in_slice d (org_id g) \<and> ob_aggregate_id m = uuid_str (org_public_id g))],
      ledger_entries := [e\<leftarrow>ledger_entries d. \<not> in_slice d (le_organization_id e)],
      usage_events := [u\<leftarrow>usage_events d. \<not> in_slice d (ue_organization_id u)],
      usage_aggregates := [a\<leftarrow>usage_aggregates d. \<not> in_slice d (ua_organization_id a)],
      invoices := [v\<leftarrow>invoices d. \<not> in_slice d (inv_organization_id v)],
      invoice_line_items := [l\<leftarrow>invoice_line_items d.
        \<not> (\<exists>v \<in> set (invoices d). in_slice d (inv_organization_id v) \<and> li_invoice_id l = inv_id v)],
      dunning_campaigns := [c\<leftarrow>dunning_campaigns d. \<not> in_slice d (camp_organization_id c)],
      dunning_attempts := [a\<leftarrow>dunning_attempts d.
        \<not> (\<exists>c \<in> set (dunning_campaigns d). in_slice d (camp_organization_id c) \<and> att_campaign_id a = camp_id c)]\<rparr>"
  let ?as = "slice_aggregates d" and ?vs = "set (map inv_id (filter (purged_invoice ids) (invoices d)))"
  have in_ids: "i \<in> set ids \<longleftrightarrow> in_slice d i" for i by (simp add: ids_def in_slice_ids)
  have run: "purge_prod_like_prefix s = (Inr (int (length ids)), s\<lparr>db := if ids = [] then d else stage 12 ids ?as d\<rparr>)"
    using purge_run [OF assms(1,3-5)] unfolding ids_def d_def .
  note P = slice_tagged_purged [OF assms(5), folded d_def, folded ids_def, unfolded in_ids]
  have vs: "i \<in> ?vs \<longleftrightarrow> (\<exists>v \<in> set (invoices d). in_slice d (inv_organization_id v) \<and> i = inv_id v)" for i
    using P(2) by auto
  have invoices: "filter (\<lambda>v. inv_id v \<notin> ?vs) (invoices d) = filter (\<lambda>v. \<not> in_slice d (inv_organization_id v)) (invoices d)"
    using purged_invoice_rows [of d] assms(2,5) in_ids by (simp add: ids_def d_def db_ok_def keys_unique_def)
  have rows: "filter (\<lambda>r. \<not> purged_subscription ids r) (subscriptions d) = filter (\<lambda>r. \<not> in_slice d (sub_organization_id r)) (subscriptions d)"
    "filter (\<lambda>e. \<not> purged_entry ids e) (ledger_entries d) = filter (\<lambda>e. \<not> in_slice d (le_organization_id e)) (ledger_entries d)"
    "filter (\<lambda>u. \<not> purged_usage ids u) (usage_events d) = filter (\<lambda>u. \<not> in_slice d (ue_organization_id u)) (usage_events d)"
    using P by (auto intro: filter_cong)
  have keys: "(\<forall>i \<in> set ids. key_organization_id k \<noteq> Some i) \<longleftrightarrow>
      (case key_organization_id k of None \<Rightarrow> True | Some i \<Rightarrow> \<not> in_slice d i)" for k
    by (auto simp: in_ids split: option.splits)
  have atts: "i \<in> set (campaigns_of ids d) \<longleftrightarrow>
      (\<exists>c \<in> set (dunning_campaigns d). in_slice d (camp_organization_id c) \<and> i = camp_id c)" for i
    by (auto simp: campaigns_of_def in_ids)
  have count: "length ids = length [g\<leftarrow>organizations d. in_slice d (org_id g)]"
    unfolding ids_def using assms(2) by (intro slice_ids_count) (simp add: d_def db_ok_def keys_unique_def)
  show ?thesis
  proof (cases "ids = []")
    case True
    then have "\<not> in_slice d i" for i using in_ids [of i] by simp
    then show ?thesis using run assms(3) count True
      by (intro exI [of _ d]) (simp add: d_def [symmetric] option.case_eq_if cong: if_cong)
  next
    case False
    then have some: "\<exists>i. in_slice d i" using in_ids [of "hd ids"] by auto
    have "references_hold (stage 12 ids ?as d)"
      unfolding ids_def d_def using assms(3-5) by (rule stage_references)
    moreover have "stage 12 ids ?as d = ?t"
    proof (rule database.equality)
      show "invoices (stage 12 ids ?as d) = invoices ?t" using invoices by simp
      show "invoice_line_items (stage 12 ids ?as d) = invoice_line_items ?t"
        using vs by (simp del: set_map set_filter)
      show "webhook_events (stage 12 ids ?as d) = webhook_events ?t" using some by (simp del: sql_like.simps)
      show "outbox_messages (stage 12 ids ?as d) = outbox_messages ?t" by (simp add: slice_aggregates_iff)
      show "api_keys (stage 12 ids ?as d) = api_keys ?t" by (simp add: keys)
    qed (simp_all add: in_ids rows atts, simp_all add: stage_def Let_def)
    ultimately show ?thesis using run False count by (intro exI [of _ ?t]) simp
  qed
qed

lemma delete_rows_InrD: "delete_rows f s = (Inr u, t) \<Longrightarrow> t = s\<lparr>db := f (db s)\<rparr>"
  unfolding delete_rows_def by (drule insert_checked_InrD) simp

lemma delete_invoices_ledger: "delete_invoices vs s = (Inr u, t) \<Longrightarrow> ledger_entries (db t) = ledger_entries (db s)"
  by (auto simp: delete_invoices_def elim!: thenE_InrE dest!: delete_rows_InrD split: if_splits)

lemma delete_slice_ledger:
  assumes "delete_slice ids as s = (Inr u, t)"
  shows "ledger_entries (db t) = filter (\<lambda>e. \<not> purged_entry ids e) (ledger_entries (db s))"
  using assms unfolding delete_slice_def flush_def
  by (elim thenE_InrE bindE_InrE)
    (auto dest!: delete_rows_InrD query_InrD delete_invoices_ledger split: if_splits)

lemma plan_change_like: "sql_like ''pl_%'' (''plan_change:'' @ k)"
  by (simp add: slice_key_like del: sql_like.simps)

text \<open>
  C40: The underscore of the pattern \<^verbatim>\<open>pl_%\<close> is a wildcard. Whenever the purge deletes anything, it deletes
  with it the proration entries of every organization, whose keys begin with \<^verbatim>\<open>plan_change:\<close>: none is left
  in the ledger.
\<close>

theorem purge_deletes_prorations:
  assumes "purge_prod_like_prefix s = (Inr n, t)" "0 < n" "e \<in> set (ledger_entries (db t))"
  shows "\<not> prefix ''plan_change:'' (le_idempotency_key e)"
proof -
  let ?ids = "slice_ids (db s)"
  have "\<exists>as u v. delete_slice ?ids as u = (Inr v, t)"
    using assms(1,2) unfolding purge_prod_like_prefix_def collect_prod_like_org_ids_def
    by (elim bindE_InrE) (auto simp: slice_ids_def dest!: query_InrD elim!: bindE_InrE thenE_InrE split: if_splits)
  then have "\<not> purged_entry ?ids e" using assms(3) delete_slice_ledger by fastforce
  then show ?thesis using plan_change_like by (auto simp: purged_entry_def prefix_def)
qed

section \<open>An example\<close>

text \<open>A second organization, of the slice; both have a subscription, an hourly total and an event.\<close>

definition slice_org :: organization where
  "slice_org = sample_org\<lparr>org_id := 2, org_public_id := 102, org_external_id := Some ''pl-acme'', org_idempotency_key := Some ''pl_org_1''\<rparr>"

definition tenant_total :: "int \<Rightarrow> int \<Rightarrow> usage_aggregate" where
  "tenant_total i oi = \<lparr>ua_id = i, ua_public_id = of_int (600 + i), ua_organization_id = oi, ua_feature_key = ''api'',
     hour_start = 0, ua_quantity = 1\<rparr>"

definition tenant_message :: "int \<Rightarrow> uuid \<Rightarrow> outbox_message" where
  "tenant_message i u = \<lparr>ob_id = i, ob_aggregate_type = ''subscription'', ob_aggregate_id = uuid_str u, ob_event_type = ''e'',
     ob_payload = [], ob_idempotency_key = None, ob_partition_key = ''1'', ob_created_at = 0, ob_published_at = None,
     publish_attempts = 0, ob_last_error = None\<rparr>"

definition slice_db :: database where
  "slice_db = sample_db\<lparr>organizations := [sample_org, slice_org],
     subscriptions := [sample_sub, sample_sub\<lparr>sub_id := 2, sub_public_id := 302, sub_organization_id := 2,
       external_subscription_id := None, sub_idempotency_key := Some ''sub_pl_1''\<rparr>],
     usage_aggregates := [tenant_total 1 1, tenant_total 2 2],
     outbox_messages := [tenant_message 1 301, tenant_message 2 302]\<rparr>"

definition slice_session :: session where
  "slice_session = sample_session\<lparr>db := slice_db\<rparr>"

text \<open>The first organization has changed its plan.\<close>

definition proration_entry :: ledger_entry where
  "proration_entry =
     \<lparr>le_id = 1, le_public_id = 501, le_organization_id = 1, le_subscription_id = None, le_invoice_id = None,
      entry_type = proration_debit, amount_cents = 1, le_currency = ''USD'', le_quantity = None, reverses_entry_id = None,
      le_idempotency_key = ''plan_change:k1:proration_debit'', correlation_id = ''plan_change:k1'', le_metadata = [], le_created_at = 0\<rparr>"

definition proration_session :: session where
  "proration_session = sample_session\<lparr>db := sample_db\<lparr>organizations := [sample_org, slice_org], subscriptions := [],
     ledger_entries := [proration_entry]\<rparr>\<rparr>"

lemmas slice_defs = tenant_total_def tenant_message_def proration_session_def proration_entry_def slice_session_def slice_db_def slice_org_def sample_defs

lemma slice_sessions:
  "slice_ids (db slice_session) = [2]" "slice_ids (db proration_session) = [2]"
  "\<not> tx_failed slice_session" "\<not> tx_failed proration_session"
  by (simp_all add: slice_ids_def prod_like_org_def opt_like_def slice_defs)

lemma slice_session_ok:
  "db_ok (db slice_session)" "references_hold (db slice_session)" "same_tenant (db slice_session)" "slice_tagged (db slice_session)"
proof -
  show "db_ok (db slice_session)"
    by (simp add: integrity_defs unique_by_def List.map_filter_simps slice_defs)
  show "references_hold (db slice_session)"
    by (simp add: references_hold_def refers_def refers_opt_def slice_defs)
  show "same_tenant (db slice_session)"
    by (simp add: same_tenant_def slice_defs)
  show "slice_tagged (db slice_session)"
    by (simp add: slice_tagged_def slice_sessions) (simp add: opt_like_def slice_defs)
qed

lemma slice_members: "in_slice (db slice_session) i \<longleftrightarrow> i = 2"
  by (auto simp: in_slice_ids slice_sessions)

lemma uuid_str_other: "uuid_str 301 \<noteq> uuid_str 302" "uuid_str 301 \<noteq> uuid_str 102"
  by code_simp+

theorem purge_removes_slice_witness:
  "\<exists>t. purge_prod_like_prefix slice_session = (Inr 1, slice_session\<lparr>db := t\<rparr>) \<and> organizations t = [sample_org] \<and>
     subscriptions t = [sample_sub] \<and> usage_aggregates t = [tenant_total 1 1] \<and> outbox_messages t = [tenant_message 1 301]"
proof -
  have d: "organizations (db slice_session) = [sample_org, slice_org]" "map sub_id (subscriptions (db slice_session)) = [1, 2]"
    "usage_aggregates (db slice_session) = [tenant_total 1 1, tenant_total 2 2]"
    "outbox_messages (db slice_session) = [tenant_message 1 301, tenant_message 2 302]"
    by (simp_all add: slice_session_def slice_db_def)
  have r: "org_id slice_org = 2" "org_public_id slice_org = 102" "ua_organization_id (tenant_total i oi) = oi"
    "ob_aggregate_id (tenant_message i u) = uuid_str u" for i oi u
    by (simp_all add: slice_org_def tenant_total_def tenant_message_def)
  obtain q where q: "subscriptions (db slice_session) = [sample_sub, q]" "sub_organization_id q = 2" "sub_public_id q = 302"
    by (simp add: slice_session_def slice_db_def)
  have c: "int (length [g\<leftarrow>organizations (db slice_session). in_slice (db slice_session) (org_id g)]) = 1"
    by (simp add: slice_members d r)
  show ?thesis
    by (insert purge_removes_slice [OF slice_sessions(3) slice_session_ok, unfolded c], elim exE conjE,
        intro exI conjI, assumption)
      (simp_all add: slice_members d q r uuid_str_other del: sql_like.simps)
qed

lemma proration_tables:
  "organizations (db proration_session) = [sample_org, slice_org]" "ledger_entries (db proration_session) = [proration_entry]"
  "api_keys (db proration_session) = []" "subscriptions (db proration_session) = []" "usage_events (db proration_session) = []"
  "usage_aggregates (db proration_session) = []" "invoices (db proration_session) = []" "invoice_line_items (db proration_session) = []"
  "dunning_campaigns (db proration_session) = []" "dunning_attempts (db proration_session) = []"
  by (simp_all add: proration_session_def sample_db_def)

lemma purge_proration_session:
  "\<exists>t. purge_prod_like_prefix proration_session = (Inr 1, t) \<and> map org_id (organizations (db t)) = [1]"
proof -
  let ?d = "db proration_session"
  let ?t = "proration_session\<lparr>db := stage 12 [2] (slice_aggregates ?d) ?d\<rparr>"
  have g: "org_id sample_org = 1" "org_id slice_org = 2" "le_organization_id proration_entry = 1" "le_subscription_id proration_entry = None"
    "reverses_entry_id proration_entry = None"
    by (simp_all add: sample_org_def slice_org_def proration_entry_def)
  have "references_hold (stage n [2] as ?d)" for n as
    by (simp add: references_hold_def refers_def refers_opt_def proration_tables g)
  then have "delete_slice [2] (slice_aggregates ?d) proration_session = (Inr (), ?t)"
    using slice_aggregates_not_Nil [of ?d] slice_sessions(2,4) by (intro delete_slice_run) simp_all
  then have "purge_prod_like_prefix proration_session = (Inr (int (length [2 :: int])), ?t)"
    using purge_deletes_slice [of proration_session "()" ?t] slice_sessions(2,4)
    by (simp only: not_False_eq_True list.distinct simp_thms)
  then show ?thesis by (intro exI [of _ ?t]) (simp add: proration_tables g)
qed

theorem purge_deletes_prorations_witness:
  "\<exists>t. purge_prod_like_prefix proration_session = (Inr 1, t) \<and> map org_id (organizations (db t)) = [1] \<and>
     proration_entry \<in> set (ledger_entries (db proration_session)) \<and> proration_entry \<notin> set (ledger_entries (db t))"
proof -
  obtain t where t: "purge_prod_like_prefix proration_session = (Inr 1, t)" "map org_id (organizations (db t)) = [1]"
    using purge_proration_session by (elim exE conjE)
  have "proration_entry \<notin> set (ledger_entries (db t))"
  proof
    assume "proration_entry \<in> set (ledger_entries (db t))"
    from purge_deletes_prorations [OF t(1) _ this] show False by (simp add: proration_entry_def)
  qed
  then show ?thesis using t by (intro exI [of _ t] conjI) (simp_all only: proration_tables list.set insert_iff simp_thms)
qed

end
