(* ===== verification/Spec2Isabelle.thy ===== *)
theory Spec2Isabelle
  imports Platform Mock_Stripe Tables Requests Health Demo_Seed Purge
begin

text \<open>
  \<^bold>\<open>The billing platform: a verified model.\<close>

  The repository is the back end of a subscription business: organizations hold API keys and
  subscribe to versioned plans, report usage, are invoiced per period, are dunned when a payment
  fails, and ask at run time which features they may use. The code is Python (\<^verbatim>\<open>src/src/billing_platform\<close>):
  services on an SQLAlchemy session over PostgreSQL, FastAPI routes and Celery tasks that call them,
  process-local and Redis caches in front of the entitlement checks, and a relay that publishes the
  transactional outbox to Kafka. The paths below are relative to that directory.

  \<^bold>\<open>How the code is modelled.\<close> A row is a record with the columns of its ORM class, a table a list of
  rows, the database a record of tables (theory \<open>Schema\<close>). A session holds the rows its transaction
  sees, the committed rows, whether a statement has failed, the identity sequences, and the readings of
  the clock and of the random source still to come; an operation is a function from a session to an
  exception or a result and the session after it (\<open>'a op\<close>), so that every \<^verbatim>\<open>raise\<close> is a branch, and commit,
  rollback and savepoints are operations like the others. Inserts check the unique and foreign-key
  constraints that the models and migrations declare and fail the transaction otherwise. Work that
  also touches the caches runs on the state of the application (\<open>'a app_op\<close>), the relay on its own
  (\<open>'a relay_op\<close>), the mock payment provider on its registry (\<open>'a mock_op\<close>). What lies outside a component's
  process is an argument of its definitions: the answers of the payment provider, the broker,
  the other clients of Redis, rows locked by other transactions (\<^verbatim>\<open>SKIP LOCKED\<close>), \<^verbatim>\<open>json.loads\<close>, the
  replica. Everything is executable.

  \<^bold>\<open>Theories, in the order of their imports.\<close>

  \<^item> \<open>Prelude\<close>, \<open>Values\<close>, \<open>Datetime\<close>, \<open>Schema\<close>, \<open>Store\<close>: computations with exceptions and the preorders they
    keep, identifiers (\<^verbatim>\<open>domain/ids.py\<close>), JSON, calendar arithmetic, the data model (\<^verbatim>\<open>domain/models\<close>,
    \<^verbatim>\<open>config.py\<close>), constraints and the locale \<open>db_preorder\<close>.
  \<^item> \<open>Lifecycle\<close> (\<^verbatim>\<open>domain/state_machines/subscription.py\<close>), \<open>Outbox\<close> (\<^verbatim>\<open>services/outbox*.py\<close>), \<open>Ledger\<close>
    (\<^verbatim>\<open>services/ledger.py\<close>), \<open>Subscriptions\<close> (\<^verbatim>\<open>services/subscriptions.py\<close>, \<^verbatim>\<open>plan_change.py\<close>), \<open>Grace\<close>, \<open>Dunning\<close>,
    \<open>Webhooks\<close> (\<^verbatim>\<open>webhooks.py\<close>, \<^verbatim>\<open>webhook_processor.py\<close>), \<open>Usage\<close> (\<^verbatim>\<open>usage.py\<close>, \<^verbatim>\<open>usage_partitions.py\<close>), \<open>Invoices\<close>
    (\<^verbatim>\<open>invoices.py\<close>, \<^verbatim>\<open>invoice_sync.py\<close>), \<open>Period_Close\<close>, \<open>Reconciliation\<close>, \<open>Catalog\<close>, \<open>Identity\<close> (\<^verbatim>\<open>api_keys.py\<close>,
    \<^verbatim>\<open>organizations.py\<close>): one service each, with its operations, its write footprint and its properties.
  \<^item> \<open>Signature\<close> (\<^verbatim>\<open>integrations/mock_stripe/signature.py\<close>, with SHA-256 and HMAC computed), \<open>Caches\<close>
    (\<^verbatim>\<open>integrations/redis_cache.py\<close>, \<^verbatim>\<open>services/hotpath_cache.py\<close>, \<^verbatim>\<open>rate_limit.py\<close>), \<open>Entitlements\<close>
    (\<^verbatim>\<open>services/entitlements.py\<close>), \<open>Relay\<close> (\<^verbatim>\<open>outbox_relay\<close>, \<^verbatim>\<open>events\<close>).
  \<^item> \<open>Access\<close> (\<^verbatim>\<open>api/deps.py\<close>, \<^verbatim>\<open>middleware/rate_limit.py\<close>, \<^verbatim>\<open>db/replica.py\<close>), \<open>Responses\<close>, \<open>Routes\<close> and \<open>Admin\<close>
    (\<^verbatim>\<open>api/v1\<close>), \<open>Workers\<close> (\<^verbatim>\<open>workers/tasks\<close>).
  \<^item> \<open>Mock_Stripe\<close> (\<^verbatim>\<open>deploy/docker/mock_stripe_app.py\<close>, \<^verbatim>\<open>integrations/mock_stripe/client.py\<close>): the mock
    provider's registry and routes, the client, and their composition with the webhook route.
  \<^item> \<open>Gateway\<close>, \<open>Policy\<close>, \<open>Platform\<close>: requests as data and their dispatch, what access control refuses and
    where it departs from the table of roles, and the whole platform as a machine that serves any sequence of requests, webhooks, tasks and relay steps.
  \<^item> \<open>Requests\<close>: the routing table (\<^verbatim>\<open>main.py\<close> and the decorators of \<^verbatim>\<open>api/v1\<close>) and the request models, from an
    HTTP call to a request of the gateway. \<open>Health\<close> (\<^verbatim>\<open>api/v1/health.py\<close>, \<^verbatim>\<open>middleware/request_context.py\<close>): the
    probes and the context bound to each request.
  \<^item> \<open>Migrations\<close> (\<^verbatim>\<open>alembic/versions\<close>): the nineteen revisions as statements on a catalog. \<open>Tables\<close>: the rows of the
    data model as rows of the tables that the migrations leave.
  \<^item> \<open>Demo_Seed\<close> (\<^verbatim>\<open>bootstrap/demo_seed.py\<close>, \<^verbatim>\<open>scripts/seed_catalog.py\<close>) and \<open>Purge\<close> (\<^verbatim>\<open>scripts/seed_prod_like_purge.py\<close>):
    the demo data, and the removal of the test data.
  \<^item> \<open>Sample\<close>: the small database on which the witnesses evaluate.

  \<^bold>\<open>How the components meet.\<close> A component declares the writes it makes as the assumptions of a locale
  over a relation \<open>D\<close> between databases (\<open>outbox_client\<close>, \<open>ledger_client\<close>, \<open>subscriptions_client\<close>,
  \<open>dunning_client\<close>, \<open>webhook_client\<close>, \<open>invoice_client\<close>, \<open>billing_client\<close>, \<open>usage_client\<close>, \<open>reconciliation_client\<close>,
  \<open>catalog_client\<close>, \<open>identity_client\<close>, \<open>relay_client\<close>), each extending the locales of the components it calls,
  and proves there that its operations keep \<open>D\<close> whatever their result. \<open>platform_client\<close> joins them all and
  shows that every route, task and poll keeps \<open>D\<close>. The interpretations instantiate \<open>D\<close>: the ledger is only
  extended (\<open>ledger_extends\<close>), subscriptions move along the transition table (\<open>lifecycle_kept\<close>), the
  constraints hold (\<open>stays_ok\<close>), totals are sums and issued invoices fixed (\<open>totals_kept\<close>), published plans
  are fixed (\<open>catalog_kept\<close>), keys keep their owner and stay revoked (\<open>keys_kept\<close>). The two theorems about
  \<open>run_platform\<close> at the end of \<open>Platform\<close> follow for any sequence of steps.

  \<^bold>\<open>What the properties show.\<close>

  \<^item> The platform: it stays well formed and never rewrites history (\<open>Platform\<close>), requests outside the
    role, the tenant or the reach of their key are refused without effect, and where the table of roles of
    \<^verbatim>\<open>spec.md\<close> says otherwise (\<open>Policy\<close>), revoked keys are refused (\<open>Access\<close>).
  \<^item> The provider: a payment made there arrives signed, is verified and recorded, and reconciliation agrees
    with it when the invoice states what was paid; an invoice is created once per key (\<open>Mock_Stripe\<close>).
  \<^item> The interface: a decoded request keeps the declared bounds, and every request can be sent (\<open>Requests\<close>).
  \<^item> The schema: the migrations apply and can be taken back, their tables are those of the model, and their
    constraints give the integrity that the services start from (\<open>Migrations\<close>, \<open>Tables\<close>).
  \<^item> Seed and purge: the seed is idempotent; the purge is refused nowhere and removes the slice, but also
    the prorations of every tenant.
  \<^item> Ledger and subscriptions: posting and creation are idempotent per key, reversals compensate, plan
    changes and the grace sweep on every branch (and, beside the listed properties, creation and cancellation).
  \<^item> Dunning, webhooks and signatures: schedules, due attempts, payments recorded once, events that cannot
    be applied put aside without effect, events stored once, verified payloads signed, and a theorem that
    records a flaw (payments for active subscriptions).
  \<^item> Entitlements and caches: the evaluator refines the declarative policy, limits are never passed, an
    invalidation is seen by the next evaluation, the build lock is released, the rate limit is exact.
  \<^item> Usage, invoices, period close, reconciliation, catalog, keys: exactly-once ingestion, hourly totals,
    totals and charges, exact comparison of registries, version numbers, issue and authentication.
  \<^item> Relay: nothing is lost whatever the broker answers, polling terminates, order, replay.

  \<^bold>\<open>Bounds.\<close> No fuel is used: all recursion is structural or has a measure. The relay's loop is proved to
  handle every row within the attempts it has left (\<open>relay_terminates\<close>); waiting for a build lock is bounded
  by the code's own count. Identifiers are 128-bit words, Redis counters stop at the bound of 64-bit integers as in Redis; other
  integers are Python's.

  \<^bold>\<open>Scheduling.\<close> Requests are served one after the other, each in a session of its own that is closed at
  the end; a Celery retry is a further step. Interleavings inside a request appear as arguments where the
  code provides for them: Redis changing during a wait, rows locked elsewhere, a replica behind the
  primary, answers of the provider and the broker.

  \<^bold>\<open>Not modelled.\<close> The conversion of a single JSON or query value to its type, which Pydantic does, is a
  parameter (the record \<open>pydantic\<close>; the locale \<open>canonical_values\<close> states what it does on canonical values, and
  \<open>strict\<close> is an instance); whether FastAPI reports a validation error or an authentication error first is
  open. Lengths of text columns and widths of integer columns are recorded in the catalog and not enforced
  on rows: a value too long for its column (a currency of more than three letters in a webhook, say) makes
  the database refuse the statement, and leaves the transaction failed, where the model stores it. Left out are OpenAPI texts, logging, metrics export and tracing (metric updates are recorded as values),
  engine and pool management, the HTTP transport to the mock provider, the beat schedule, the
  generators of bulk test data and command lines. Uniqueness of the random version 7 identifiers is a
  hypothesis where a property needs it. The response bodies of patching an organization and of cancelling a
  subscription read a column that the ORM has expired, and are left out.
\<close>

end
